(* ===== verification/Prelude.thy ===== *)
theory Prelude
  imports Main "HOL-Library.AList" "HOL-Library.Char_ord" "HOL-Library.List_Lexorder"
    "HOL-Library.Multiset"
begin

text \<open>
  Shared vocabulary of the development.

  \<^item> The error values of \<^verbatim>\<open>go/errors.go\<close>: an \<open>errkind\<close> per sentinel error, and \<open>ferror\<close> for the
    chain a Go caller holds (\<^verbatim>\<open>fail\<close>, \<^verbatim>\<open>wrap\<close>, \<^verbatim>\<open>errors.Join\<close>). The text of a message is not modelled;
    its kind and its causes are.
  \<^item> The result type \<open>'a res\<close>: a Go function that returns \<^verbatim>\<open>(T, error)\<close> returns \<open>Inl e\<close> on an error and
    \<open>Inr x\<close> otherwise, with \<open>res_bind\<close> for the early return \<^verbatim>\<open>if err != nil { return err }\<close>.
  \<^item> Signed 64-bit integers as \<open>int\<close> with the wrap-around written out where the code adds.
  \<^item> Generic lemmas on lists, sorting and association lists used by the components.
\<close>

named_theorems res_iff \<open>when a result computation succeeds or fails\<close>
named_theorems table_simps \<open>reading a table after an update\<close>

subsection \<open>Errors (errors.go)\<close>

datatype errkind =
    ErrNotFound | ErrConflict | ErrSchema | ErrType | ErrQuery
  | ErrFormat | ErrReadOnly | ErrTooLarge | ErrUnsupported

text \<open>
  \<open>Fail\<close> is an \<^verbatim>\<open>*Error\<close> without a cause, \<open>Wrap\<close> one with a cause, \<open>Join\<close> the value of
  \<^verbatim>\<open>errors.Join\<close>, and \<open>External\<close> an error of the Go library or of SQLite. \<open>Panic\<close> stands for a run-time
  panic, where the caller gets no error value at all.
\<close>

datatype ferror = Fail errkind | Wrap errkind ferror | Join ferror ferror | External | Panic

type_synonym 'a res = "ferror + 'a"

definition fail :: "errkind \<Rightarrow> 'a res" where
  "fail k = Inl (Fail k)"

definition wrap :: "errkind \<Rightarrow> ferror option \<Rightarrow> 'a res" where
  "wrap k cause = (case cause of None \<Rightarrow> Inl (Fail k) | Some e \<Rightarrow> Inl (Wrap k e))"

definition joinErrors :: "ferror option \<Rightarrow> ferror option \<Rightarrow> ferror option" where
  "joinErrors current next =
     (case next of None \<Rightarrow> current
      | Some n \<Rightarrow> (case current of None \<Rightarrow> Some n | Some c \<Rightarrow> Some (Join c n)))"

definition wrapClose :: "ferror option \<Rightarrow> ferror option" where
  "wrapClose err = (case err of None \<Rightarrow> None | Some e \<Rightarrow> Some (Wrap ErrFormat e))"

text \<open>\<^verbatim>\<open>errors.Is\<close> walks the tree that \<^verbatim>\<open>Unwrap\<close> spans: the kind of every node and then its causes.\<close>

primrec errorIs :: "ferror \<Rightarrow> errkind \<Rightarrow> bool" where
  "errorIs (Fail k) target \<longleftrightarrow> k = target"
| "errorIs (Wrap k cause) target \<longleftrightarrow> k = target \<or> errorIs cause target"
| "errorIs (Join l r) target \<longleftrightarrow> errorIs l target \<or> errorIs r target"
| "errorIs External target \<longleftrightarrow> False"
| "errorIs Panic target \<longleftrightarrow> False"

definition errorTable :: "(errkind \<times> string) list" where
  "errorTable =
     [(ErrNotFound, ''NotFound''), (ErrConflict, ''Conflict''), (ErrSchema, ''SchemaError''),
      (ErrType, ''TypeError''), (ErrQuery, ''QueryError''), (ErrFormat, ''FormatError''),
      (ErrReadOnly, ''ReadOnly''), (ErrTooLarge, ''TooLarge''), (ErrUnsupported, ''Unsupported'')]"

definition ErrorName :: "ferror \<Rightarrow> string" where
  "ErrorName err =
     (case find (\<lambda>(k, _). errorIs err k) errorTable of
        Some (_, name) \<Rightarrow> name
      | None \<Rightarrow> ''Error'')"

text \<open>\<^verbatim>\<open>ErrorKind\<close> (event_wire.go) compares the name with the text of each sentinel, in the table's order.\<close>

definition ErrorKind :: "ferror \<Rightarrow> errkind" where
  "ErrorKind err =
     (case find (\<lambda>(_, name). ErrorName err = name) errorTable of
        Some (k, _) \<Rightarrow> k
      | None \<Rightarrow> ErrFormat)"

subsection \<open>Results\<close>

definition res_bind :: "'a res \<Rightarrow> ('a \<Rightarrow> 'b res) \<Rightarrow> 'b res" where
  "res_bind m f = (case m of Inl e \<Rightarrow> Inl e | Inr x \<Rightarrow> f x)"

definition check :: "bool \<Rightarrow> errkind \<Rightarrow> unit res" where
  "check b k = (if b then Inr () else fail k)"

lemma res_bind_simps [simp]:
  "res_bind (Inl e) f = Inl e"
  "res_bind (Inr x) f = f x"
  by (simp_all add: res_bind_def)

lemma fail_bind [simp]: "res_bind (fail k) f = fail k"
  by (simp add: fail_def)

lemma res_bind_cong [fundef_cong]:
  "m = m' \<Longrightarrow> (\<And>x. m' = Inr x \<Longrightarrow> f x = f' x) \<Longrightarrow> res_bind m f = res_bind m' f'"
  by (cases m') simp_all

lemma res_bind_Inr_iff [res_iff]: "res_bind m f = Inr y \<longleftrightarrow> (\<exists>x. m = Inr x \<and> f x = Inr y)"
  by (cases m) simp_all

lemma res_bind_Inl_iff [res_iff]:
  "res_bind m f = Inl e \<longleftrightarrow> m = Inl e \<or> (\<exists>x. m = Inr x \<and> f x = Inl e)"
  by (cases m) simp_all

lemma fail_iff [res_iff, simp]:
  "fail k \<noteq> Inr x" "Inr x \<noteq> fail k" "fail k = Inl e \<longleftrightarrow> e = Fail k" "fail k = fail k' \<longleftrightarrow> k = k'"
  by (auto simp: fail_def)

lemma check_iff [res_iff, simp]:
  "check b k = Inr u \<longleftrightarrow> b" "check b k = Inl e \<longleftrightarrow> \<not> b \<and> e = Fail k"
  by (auto simp: check_def)

lemma res_bind_assoc: "res_bind (res_bind m f) g = res_bind m (\<lambda>x. res_bind (f x) g)"
  by (cases m) simp_all

text \<open>Running a fallible step over a list, left to right, stopping at the first error.\<close>

fun res_map :: "('a \<Rightarrow> 'b res) \<Rightarrow> 'a list \<Rightarrow> 'b list res" where
  "res_map f [] = Inr []"
| "res_map f (x # xs) = res_bind (f x) (\<lambda>y. res_bind (res_map f xs) (\<lambda>ys. Inr (y # ys)))"

fun res_fold :: "('a \<Rightarrow> 's \<Rightarrow> 's res) \<Rightarrow> 'a list \<Rightarrow> 's \<Rightarrow> 's res" where
  "res_fold f [] s = Inr s"
| "res_fold f (x # xs) s = res_bind (f x s) (res_fold f xs)"

text \<open>The same with a state threaded through the steps.\<close>

fun res_maps :: "('a \<Rightarrow> 's \<Rightarrow> ('b \<times> 's) res) \<Rightarrow> 'a list \<Rightarrow> 's \<Rightarrow> ('b list \<times> 's) res" where
  "res_maps f [] s = Inr ([], s)"
| "res_maps f (x # xs) s =
    res_bind (f x s) (\<lambda>(y, s1). res_bind (res_maps f xs s1) (\<lambda>(ys, s2). Inr (y # ys, s2)))"

lemma res_map_cong [fundef_cong]:
  "xs = ys \<Longrightarrow> (\<And>x. x \<in> set ys \<Longrightarrow> f x = g x) \<Longrightarrow> res_map f xs = res_map g ys"
  by (induction ys arbitrary: xs) (auto intro: res_bind_cong)

lemma res_map_Inr_iff:
  "res_map f xs = Inr ys \<longleftrightarrow> list_all2 (\<lambda>x y. f x = Inr y) xs ys"
  by (induction xs arbitrary: ys) (auto simp: res_iff list_all2_Cons1)

lemma res_map_member:
  assumes "res_map f xs = Inr ys" "x \<in> set xs"
  obtains y where "f x = Inr y" "y \<in> set ys"
  using assms by (induction xs arbitrary: ys) (auto simp: res_bind_Inr_iff)

lemma res_map_total: "(\<And>x. x \<in> set xs \<Longrightarrow> f x = Inr (g x)) \<Longrightarrow> res_map f xs = Inr (map g xs)"
  by (induction xs) auto

lemma res_fold_append: "res_fold f (xs @ ys) s = res_bind (res_fold f xs s) (res_fold f ys)"
proof (induction xs arbitrary: s)
  case (Cons x xs)
  then show ?case by (cases "f x s") simp_all
qed simp

lemma res_fold_cong:
  "(\<And>x s. x \<in> set xs \<Longrightarrow> f x s = g x s) \<Longrightarrow> res_fold f xs s = res_fold g xs s"
  by (induction xs arbitrary: s) (auto intro: res_bind_cong)

lemma res_maps_cong:
  "(\<And>x s. x \<in> set xs \<Longrightarrow> f x s = g x s) \<Longrightarrow> res_maps f xs s = res_maps g xs s"
  by (induction xs arbitrary: s) (auto intro!: res_bind_cong)

text \<open>An invariant that every step keeps is kept by the whole run.\<close>

lemma res_fold_invariant:
  assumes "res_fold f xs s = Inr s'" and "P s"
    and "\<And>x s s'. x \<in> set xs \<Longrightarrow> P s \<Longrightarrow> f x s = Inr s' \<Longrightarrow> P s'"
  shows "P s'"
  using assms by (induction xs arbitrary: s) (auto simp: res_iff)

subsection \<open>Signed 64-bit integers\<close>

definition MaxInt64 :: int where
  "MaxInt64 = 9223372036854775807"

definition MinInt64 :: int where
  "MinInt64 = -9223372036854775808"

definition in_int64 :: "int \<Rightarrow> bool" where
  "in_int64 x \<longleftrightarrow> MinInt64 \<le> x \<and> x \<le> MaxInt64"

definition i64_wrap :: "int \<Rightarrow> int" where
  "i64_wrap x = (x + 9223372036854775808) mod 18446744073709551616 - 9223372036854775808"

definition i64_add :: "int \<Rightarrow> int \<Rightarrow> int" where
  "i64_add a b = i64_wrap (a + b)"

lemma i64_wrap_in: "in_int64 (i64_wrap x)"
  by (simp add: in_int64_def i64_wrap_def MinInt64_def MaxInt64_def)

lemma i64_wrap_id: "in_int64 x \<Longrightarrow> i64_wrap x = x"
  by (simp add: in_int64_def i64_wrap_def MinInt64_def MaxInt64_def)

lemma i64_add_exact: "in_int64 (a + b) \<Longrightarrow> i64_add a b = a + b"
  by (simp add: i64_add_def i64_wrap_id)

subsection \<open>Lists, sorting and association lists\<close>

text \<open>Go maps are association lists with distinct keys; \<^verbatim>\<open>m[k] = v\<close> is \<open>AList.update\<close>.\<close>

definition put_all :: "('k \<times> 'v) list \<Rightarrow> ('k \<times> 'v) list \<Rightarrow> ('k \<times> 'v) list" where
  "put_all kvs m = fold (\<lambda>(k, v). AList.update k v) kvs m"

lemma map_of_put_all: "map_of (put_all kvs m) = map_of m ++ map_of (rev kvs)"
proof (induction kvs arbitrary: m)
  case Nil
  then show ?case by (simp add: put_all_def)
next
  case (Cons kv kvs)
  then show ?case
    by (cases kv) (simp add: put_all_def update_conv' map_add_def fun_eq_iff split: option.splits)
qed

lemma distinct_put_all: "distinct (map fst m) \<Longrightarrow> distinct (map fst (put_all kvs m))"
  by (induction kvs arbitrary: m) (auto simp: put_all_def distinct_update)

lemma update_append_new: "map_of m k = None \<Longrightarrow> AList.update k v m = m @ [(k, v)]"
  by (induction m) (auto split: if_splits)

lemma set_map_fst_update: "fst ` set (AList.update k v m) = insert k (fst ` set m)"
  using dom_update [of k v m] by (simp add: dom_map_of_conv_image_fst)

lemma set_sort_key_filter: "set (sort_key f (filter P xs)) = {x \<in> set xs. P x}"
  by auto

lemma size_list_sort_key [simp]: "size_list g (sort_key f xs) = size_list g xs"
proof -
  have ins: "size_list g (insort_key f x ys) = Suc (g x + size_list g ys)" for x ys
    by (induction ys) auto
  show ?thesis by (induction xs) (auto simp: ins)
qed

lemma size_list_filter_le: "size_list g (filter P xs) \<le> size_list g xs"
  by (induction xs) auto

lemma distinct_map_sort_key [simp]: "distinct (map g (sort_key f xs)) = distinct (map g xs)"
  by (rule mset_eq_imp_distinct_iff) simp

subsection \<open>Interfaces\<close>

text \<open>A printer and its parser, on the values that are well formed for it.\<close>

locale codec =
  fixes encode :: "'a \<Rightarrow> string"
    and decode :: "string \<Rightarrow> 'a option"
    and good :: "'a \<Rightarrow> bool"
  assumes roundtrip: "good x \<Longrightarrow> decode (encode x) = Some x"
begin

lemma encode_inj: "good x \<Longrightarrow> good y \<Longrightarrow> encode x = encode y \<longleftrightarrow> x = y"
  by (metis roundtrip option.inject)

lemma encode_distinct: "list_all good xs \<Longrightarrow> distinct (map encode xs) = distinct xs"
  by (auto simp: distinct_map list_all_iff inj_on_def encode_inj)

end

text \<open>A fallible step on a state and a property that it keeps: the run over any list keeps it too.\<close>

locale kept_by =
  fixes step :: "'a \<Rightarrow> 's \<Rightarrow> 's res"
    and inv :: "'s \<Rightarrow> bool"
  assumes step_keeps: "inv s \<Longrightarrow> step x s = Inr s' \<Longrightarrow> inv s'"
begin

lemma run_keeps: "inv s \<Longrightarrow> res_fold step xs s = Inr s' \<Longrightarrow> inv s'"
  by (rule res_fold_invariant [where P = inv]) (auto intro: step_keeps)

end

end
