(* ===== verification/GoText.thy ===== *)
theory GoText
  imports Prelude
begin

text \<open>
  Go strings and byte slices are both sequences of bytes, here \<open>string\<close> (a \<open>char\<close> is a byte). This
  theory holds what the code uses of the Go library on them: UTF-8 validity and decoding
  (\<^verbatim>\<open>unicode/utf8\<close>), control characters (\<^verbatim>\<open>unicode.IsControl\<close>), decimal (\<^verbatim>\<open>strconv.FormatInt\<close>) and
  hexadecimal (\<^verbatim>\<open>encoding/hex\<close>) text and padded base64 (\<^verbatim>\<open>encoding/base64\<close>), with their round trips.
\<close>

subsection \<open>UTF-8\<close>

definition byte_of :: "char \<Rightarrow> nat" where
  "byte_of c = of_char c"

definition utf8_cont :: "nat \<Rightarrow> bool" where
  "utf8_cont b \<longleftrightarrow> 128 \<le> b \<and> b \<le> 191"

text \<open>
  The code points of a byte sequence, \<open>None\<close> when it is not valid UTF-8: overlong forms, surrogates
  and values above U+10FFFF are refused by the ranges of the second byte, as in the Go tables.
\<close>

fun utf8_runes :: "nat list \<Rightarrow> nat list option" where
  "utf8_runes [] = Some []"
| "utf8_runes (b0 # bs) =
    (if b0 < 128 then map_option ((#) b0) (utf8_runes bs)
     else if 194 \<le> b0 \<and> b0 \<le> 223 then
       (case bs of b1 # r \<Rightarrow>
          if utf8_cont b1 then map_option ((#) ((b0 - 192) * 64 + (b1 - 128))) (utf8_runes r) else None
        | _ \<Rightarrow> None)
     else if 224 \<le> b0 \<and> b0 \<le> 239 then
       (case bs of b1 # b2 # r \<Rightarrow>
          if (if b0 = 224 then 160 else 128) \<le> b1 \<and> b1 \<le> (if b0 = 237 then 159 else 191) \<and> utf8_cont b2
          then map_option ((#) ((b0 - 224) * 4096 + (b1 - 128) * 64 + (b2 - 128))) (utf8_runes r)
          else None
        | _ \<Rightarrow> None)
     else if 240 \<le> b0 \<and> b0 \<le> 244 then
       (case bs of b1 # b2 # b3 # r \<Rightarrow>
          if (if b0 = 240 then 144 else 128) \<le> b1 \<and> b1 \<le> (if b0 = 244 then 143 else 191)
             \<and> utf8_cont b2 \<and> utf8_cont b3
          then map_option ((#) ((b0 - 240) * 262144 + (b1 - 128) * 4096 + (b2 - 128) * 64 + (b3 - 128)))
                 (utf8_runes r)
          else None
        | _ \<Rightarrow> None)
     else None)"

definition runes :: "string \<Rightarrow> nat list option" where
  "runes s = utf8_runes (map byte_of s)"

definition ValidString :: "string \<Rightarrow> bool" where
  "ValidString s \<longleftrightarrow> runes s \<noteq> None"

definition IsControl :: "nat \<Rightarrow> bool" where
  "IsControl r \<longleftrightarrow> r \<le> 31 \<or> (127 \<le> r \<and> r \<le> 159)"

definition hasControl :: "string \<Rightarrow> bool" where
  "hasControl s = (case runes s of None \<Rightarrow> False | Some rs \<Rightarrow> list_ex IsControl rs)"

lemma utf8_runes_ascii: "\<forall>b \<in> set bs. b < 128 \<Longrightarrow> utf8_runes bs = Some bs"
  by (induction bs) auto

lemma ValidString_ascii: "\<forall>c \<in> set s. byte_of c < 128 \<Longrightarrow> ValidString s"
  by (simp add: ValidString_def runes_def utf8_runes_ascii)

subsection \<open>Decimal and hexadecimal text\<close>

definition digit :: "nat \<Rightarrow> char" where
  "digit n = (char_of (n + (if n < 10 then 48 else 87)) :: char)"

fun dec_digits :: "nat \<Rightarrow> string" where
  "dec_digits n = (if n < 10 then [digit n] else dec_digits (n div 10) @ [digit (n mod 10)])"

declare dec_digits.simps [simp del]

definition FormatInt :: "int \<Rightarrow> string" where
  "FormatInt i = (if i < 0 then CHR ''-'' # dec_digits (nat (- i)) else dec_digits (nat i))"

definition is_digit :: "char \<Rightarrow> bool" where
  "is_digit c \<longleftrightarrow> 48 \<le> byte_of c \<and> byte_of c \<le> 57"

definition digit_val :: "char \<Rightarrow> nat" where
  "digit_val c = byte_of c - 48"

definition dec_val :: "string \<Rightarrow> nat" where
  "dec_val s = foldl (\<lambda>n c. n * 10 + digit_val c) 0 s"

lemma byte_of_char_of: "n < 256 \<Longrightarrow> byte_of (char_of n) = n"
  by (simp add: byte_of_def)

lemma digit_val_digit [simp]: "n < 10 \<Longrightarrow> digit_val (digit n) = n"
  by (simp add: digit_val_def digit_def byte_of_char_of)

lemma is_digit_digit [simp]: "n < 10 \<Longrightarrow> is_digit (digit n)"
  by (simp add: is_digit_def digit_def byte_of_char_of)

lemma dec_val_append1 [simp]: "dec_val (s @ [c]) = dec_val s * 10 + digit_val c"
  by (simp add: dec_val_def)

lemma dec_val_dec_digits [simp]: "dec_val (dec_digits n) = n"
proof (induction n rule: dec_digits.induct)
  case (1 n)
  show ?case
  proof (cases "n < 10")
    case True
    then show ?thesis by (simp add: dec_digits.simps [of n]) (simp add: dec_val_def)
  next
    case False
    with 1 show ?thesis by (simp add: dec_digits.simps [of n])
  qed
qed

lemma dec_digits_nonempty [simp]: "dec_digits n \<noteq> []"
  by (subst dec_digits.simps) simp

lemma dec_digits_all_digits: "c \<in> set (dec_digits n) \<Longrightarrow> is_digit c"
proof (induction n rule: dec_digits.induct)
  case (1 n)
  then show ?case by (cases "n < 10") (auto simp: dec_digits.simps [of n])
qed

lemma dec_digits_inj [simp]: "dec_digits m = dec_digits n \<longleftrightarrow> m = n"
  by (metis dec_val_dec_digits)

definition hex_byte :: "char \<Rightarrow> string" where
  "hex_byte c = [digit (byte_of c div 16), digit (byte_of c mod 16)]"

definition EncodeHex :: "string \<Rightarrow> string" where
  "EncodeHex s = concat (map hex_byte s)"

definition hex_val :: "char \<Rightarrow> nat option" where
  "hex_val c =
    (let b = byte_of c in
     if 48 \<le> b \<and> b \<le> 57 then Some (b - 48)
     else if 97 \<le> b \<and> b \<le> 102 then Some (b - 87)
     else if 65 \<le> b \<and> b \<le> 70 then Some (b - 55)
     else None)"

fun DecodeHex :: "string \<Rightarrow> string option" where
  "DecodeHex [] = Some []"
| "DecodeHex [_] = None"
| "DecodeHex (h # l # r) =
    (case (hex_val h, hex_val l) of
       (Some a, Some b) \<Rightarrow> map_option ((#) (char_of (a * 16 + b))) (DecodeHex r)
     | _ \<Rightarrow> None)"

lemma hex_val_digit [simp]: "n < 16 \<Longrightarrow> hex_val (digit n) = Some n"
  by (simp add: hex_val_def digit_def byte_of_char_of Let_def)

lemma byte_of_less [simp]: "byte_of c < 256"
  unfolding byte_of_def by simp

lemma char_of_byte_of [simp]: "char_of (byte_of c) = c"
  by (simp add: byte_of_def)

lemma length_EncodeHex: "length (EncodeHex s) = 2 * length s"
  by (induction s) (simp_all add: EncodeHex_def hex_byte_def)

lemma DecodeHex_EncodeHex [simp]: "DecodeHex (EncodeHex s) = Some s"
proof (induction s)
  case (Cons c s)
  have h: "byte_of c div 16 < 16" using byte_of_less [of c] by linarith
  have v: "byte_of c div 16 * 16 + byte_of c mod 16 = byte_of c" by simp
  from Cons show ?case
    by (simp add: EncodeHex_def hex_byte_def h v del: mod_mult_div_eq)
qed (simp add: EncodeHex_def)

subsection \<open>Padded standard base64\<close>

definition b64_char :: "nat \<Rightarrow> char" where
  "b64_char n = char_of
    (if n < 26 then n + 65 else if n < 52 then n + 71 else if n < 62 then n - 4
     else if n = 62 then 43 else 47 :: nat)"

definition b64_val :: "char \<Rightarrow> nat option" where
  "b64_val c =
    (let b = byte_of c in
     if 65 \<le> b \<and> b \<le> 90 then Some (b - 65)
     else if 97 \<le> b \<and> b \<le> 122 then Some (b - 71)
     else if 48 \<le> b \<and> b \<le> 57 then Some (b + 4)
     else if b = 43 then Some 62
     else if b = 47 then Some 63
     else None)"

fun EncodeBase64 :: "string \<Rightarrow> string" where
  "EncodeBase64 [] = []"
| "EncodeBase64 [a] =
    [b64_char (byte_of a div 4), b64_char (byte_of a mod 4 * 16), CHR ''='', CHR ''='']"
| "EncodeBase64 [a, b] =
    [b64_char (byte_of a div 4), b64_char (byte_of a mod 4 * 16 + byte_of b div 16),
     b64_char (byte_of b mod 16 * 4), CHR ''='']"
| "EncodeBase64 (a # b # c # r) =
    b64_char (byte_of a div 4) # b64_char (byte_of a mod 4 * 16 + byte_of b div 16)
    # b64_char (byte_of b mod 16 * 4 + byte_of c div 64) # b64_char (byte_of c mod 64)
    # EncodeBase64 r"

text \<open>
  \<^verbatim>\<open>base64.StdEncoding.DecodeString\<close> skips carriage returns and line feeds, then wants quanta of four
  characters; padding ends the text, and the bits it leaves over are not checked.
\<close>

fun b64_quanta :: "string \<Rightarrow> string option" where
  "b64_quanta [] = Some []"
| "b64_quanta (p # q # r # s # rest) =
    (case (b64_val p, b64_val q, b64_val r, b64_val s) of
       (Some a, Some b, Some c, Some d) \<Rightarrow>
         map_option ((@) [char_of (a * 4 + b div 16), char_of (b mod 16 * 16 + c div 4),
                          char_of (c mod 4 * 64 + d)]) (b64_quanta rest)
     | (Some a, Some b, Some c, None) \<Rightarrow>
         if s = CHR ''='' \<and> rest = []
         then Some [char_of (a * 4 + b div 16), char_of (b mod 16 * 16 + c div 4)] else None
     | (Some a, Some b, None, None) \<Rightarrow>
         if r = CHR ''='' \<and> s = CHR ''='' \<and> rest = []
         then Some [char_of (a * 4 + b div 16)] else None
     | _ \<Rightarrow> None)"
| "b64_quanta _ = None"

definition DecodeBase64 :: "string \<Rightarrow> string option" where
  "DecodeBase64 s = b64_quanta (filter (\<lambda>c. c \<noteq> CHR 0x0A \<and> c \<noteq> CHR 0x0D) s)"

lemma byte_b64_char:
  "n < 64 \<Longrightarrow> byte_of (b64_char n) =
    (if n < 26 then n + 65 else if n < 52 then n + 71 else if n < 62 then n - 4
     else if n = 62 then 43 else 47)"
  by (simp add: b64_char_def byte_of_char_of)

lemma b64_val_char [simp]: "n < 64 \<Longrightarrow> b64_val (b64_char n) = Some n"
  by (auto simp: b64_val_def byte_b64_char Let_def)

lemma b64_val_pad [simp]: "b64_val (CHR ''='') = None"
  by (simp add: b64_val_def byte_of_def)

lemma b64_char_not_newline [simp]:
  assumes "n < 64"
  shows "b64_char n \<noteq> CHR 0x0A" "b64_char n \<noteq> CHR 0x0D"
proof -
  have nl: "b64_val (CHR 0x0A) = None" "b64_val (CHR 0x0D) = None"
    by (simp_all add: b64_val_def byte_of_def)
  show "b64_char n \<noteq> CHR 0x0A" "b64_char n \<noteq> CHR 0x0D"
    using b64_val_char [OF assms] nl by auto
qed

lemma byte_parts [simp]:
  "byte_of c div 4 < 64" "byte_of c div 16 < 16" "byte_of c div 64 < 4"
  using byte_of_less [of c] by linarith+

lemma b64_group_bounds [simp]:
  "byte_of a mod 4 * 16 + byte_of b div 16 < 64" "byte_of b mod 16 * 4 + byte_of c div 64 < 64"
  "byte_of a mod 4 * 16 < 64" "byte_of b mod 16 * 4 < 64"
proof -
  have "byte_of a mod 4 < 4" "byte_of b mod 16 < 16" by simp_all
  with byte_parts(2) [of b] byte_parts(3) [of c]
  show "byte_of a mod 4 * 16 + byte_of b div 16 < 64" "byte_of b mod 16 * 4 + byte_of c div 64 < 64"
    "byte_of a mod 4 * 16 < 64" "byte_of b mod 16 * 4 < 64"
    by linarith+
qed

lemma b64_group_values:
  "byte_of a div 4 * 4 + (byte_of a mod 4 * 16 + byte_of b div 16) div 16 = byte_of a"
  "(byte_of a mod 4 * 16 + byte_of b div 16) mod 16 * 16
     + (byte_of b mod 16 * 4 + byte_of c div 64) div 4 = byte_of b"
  "(byte_of b mod 16 * 4 + byte_of c div 64) mod 4 * 64 + byte_of c mod 64 = byte_of c"
  "byte_of a div 4 * 4 + byte_of a mod 4 * 16 div 16 = byte_of a"
  "(byte_of a mod 4 * 16 + byte_of b div 16) mod 16 * 16 + byte_of b mod 16 * 4 div 4 = byte_of b"
proof -
  have b: "byte_of b div 16 < 16" and c: "byte_of c div 64 < 4" by simp_all
  have s1: "(byte_of a mod 4 * 16 + byte_of b div 16) div 16 = byte_of a mod 4" using b by simp
  have s2: "(byte_of a mod 4 * 16 + byte_of b div 16) mod 16 = byte_of b div 16" using b by simp
  have s3: "(byte_of b mod 16 * 4 + byte_of c div 64) div 4 = byte_of b mod 16" using c by simp
  have s4: "(byte_of b mod 16 * 4 + byte_of c div 64) mod 4 = byte_of c div 64" using c by simp
  show "byte_of a div 4 * 4 + (byte_of a mod 4 * 16 + byte_of b div 16) div 16 = byte_of a"
    by (simp only: s1 div_mult_mod_eq)
  show "(byte_of a mod 4 * 16 + byte_of b div 16) mod 16 * 16
     + (byte_of b mod 16 * 4 + byte_of c div 64) div 4 = byte_of b"
    by (simp only: s2 s3 div_mult_mod_eq)
  show "(byte_of b mod 16 * 4 + byte_of c div 64) mod 4 * 64 + byte_of c mod 64 = byte_of c"
    by (simp only: s4 div_mult_mod_eq)
  show "byte_of a div 4 * 4 + byte_of a mod 4 * 16 div 16 = byte_of a" by simp
  show "(byte_of a mod 4 * 16 + byte_of b div 16) mod 16 * 16 + byte_of b mod 16 * 4 div 4 = byte_of b"
    by (simp add: s2)
qed

lemma EncodeBase64_no_newline:
  "filter (\<lambda>c. c \<noteq> CHR 0x0A \<and> c \<noteq> CHR 0x0D) (EncodeBase64 s) = EncodeBase64 s"
  by (induction s rule: EncodeBase64.induct) simp_all

lemma b64_quanta_encode: "b64_quanta (EncodeBase64 s) = Some s"
proof (induction s rule: EncodeBase64.induct)
  case (4 a b c r)
  then show ?case by (simp add: b64_group_values)
qed (simp_all add: b64_group_values)

lemma DecodeBase64_EncodeBase64 [simp]: "DecodeBase64 (EncodeBase64 s) = Some s"
  by (simp add: DecodeBase64_def EncodeBase64_no_newline b64_quanta_encode)

end
