(* ===== verification/Floats.thy ===== *)
theory Floats
  imports GoText Complex_Main "HOL-Library.Log_Nat"
begin

text \<open>
  Go's \<^verbatim>\<open>float64\<close> and \<^verbatim>\<open>float32\<close> as their IEEE 754 bit patterns, kept as naturals below \<open>2^64\<close> and
  \<open>2^32\<close>, with the exact rational value of a finite pattern, conversion by rounding to nearest even,
  the shortest decimal text of \<^verbatim>\<open>strconv.FormatFloat\<close>, and on top of them \<open>exactInt64Float\<close> and
  \<open>canonicalFloat\<close> of value.go.
\<close>

type_synonym f64 = nat
type_synonym f32 = nat

subsection \<open>Bit patterns\<close>

definition f64_exp :: "f64 \<Rightarrow> nat" where "f64_exp w = w div 4503599627370496 mod 2048"
definition f64_man :: "f64 \<Rightarrow> nat" where "f64_man w = w mod 4503599627370496"
definition f64_neg :: "f64 \<Rightarrow> bool" where "f64_neg w \<longleftrightarrow> w div 9223372036854775808 mod 2 = 1"
definition f32_exp :: "f32 \<Rightarrow> nat" where "f32_exp w = w div 8388608 mod 256"
definition f32_man :: "f32 \<Rightarrow> nat" where "f32_man w = w mod 8388608"
definition f32_neg :: "f32 \<Rightarrow> bool" where "f32_neg w \<longleftrightarrow> w div 2147483648 mod 2 = 1"

definition IsNaN :: "f64 \<Rightarrow> bool" where "IsNaN w \<longleftrightarrow> f64_exp w = 2047 \<and> f64_man w \<noteq> 0"
definition IsInf :: "f64 \<Rightarrow> bool" where "IsInf w \<longleftrightarrow> f64_exp w = 2047 \<and> f64_man w = 0"
definition f64_zero :: "f64 \<Rightarrow> bool" where "f64_zero w \<longleftrightarrow> f64_exp w = 0 \<and> f64_man w = 0"

definition pow2 :: "int \<Rightarrow> rat" where
  "pow2 e = (if 0 \<le> e then 2 ^ nat e else 1 / 2 ^ nat (- e))"

definition pow10 :: "int \<Rightarrow> rat" where
  "pow10 e = (if 0 \<le> e then 10 ^ nat e else 1 / 10 ^ nat (- e))"

text \<open>A finite pattern is \<open>mant \<times> 2^expo\<close> up to its sign.\<close>

definition f64_mant :: "f64 \<Rightarrow> nat" where
  "f64_mant w = (if f64_exp w = 0 then f64_man w else 4503599627370496 + f64_man w)"

definition f64_expo :: "f64 \<Rightarrow> int" where
  "f64_expo w = (if f64_exp w = 0 then -1074 else int (f64_exp w) - 1075)"

definition f64_abs_rat :: "f64 \<Rightarrow> rat" where
  "f64_abs_rat w = of_nat (f64_mant w) * pow2 (f64_expo w)"

definition f64_rat :: "f64 \<Rightarrow> rat" where
  "f64_rat w = (if f64_neg w then - f64_abs_rat w else f64_abs_rat w)"

text \<open>The comparison \<^verbatim>\<open>==\<close>: NaN differs from everything, the two zeros are equal.\<close>

definition f64_eq :: "f64 \<Rightarrow> f64 \<Rightarrow> bool" where
  "f64_eq x y \<longleftrightarrow> \<not> IsNaN x \<and> \<not> IsNaN y \<and> (x = y \<or> (f64_zero x \<and> f64_zero y))"

subsection \<open>Rounding to nearest even\<close>

definition round_half_even :: "rat \<Rightarrow> int" where
  "round_half_even x =
    (let n = floor x; d = x - of_int n in
     if d < 1 / 2 then n else if d > 1 / 2 then n + 1 else if even n then n else n + 1)"

definition log2_rat :: "rat \<Rightarrow> int" where
  "log2_rat x =
    (let (a, b) = quotient_of x; k = int (floorlog 2 (nat a)) - int (floorlog 2 (nat b))
     in if x < pow2 k then k - 1 else k)"

text \<open>
  The pattern, without its sign, of the float nearest to a non-negative rational: \<open>p\<close> mantissa bits,
  smallest exponent \<open>emin\<close>, \<open>top_bits\<close> the pattern of infinity.
\<close>

definition encode_abs :: "nat \<Rightarrow> int \<Rightarrow> nat \<Rightarrow> rat \<Rightarrow> nat" where
  "encode_abs p emin top_bits x =
    (if x \<le> 0 then 0
     else let e = max (log2_rat x) emin;
              q = round_half_even (x / pow2 (e - int p));
              bits = nat (e - emin) * 2 ^ p + nat q
          in min bits top_bits)"

definition f64_of_rat :: "rat \<Rightarrow> f64" where
  "f64_of_rat x =
    (if x < 0 then 9223372036854775808 else 0) + encode_abs 52 (-1022) 9218868437227405312 \<bar>x\<bar>"

definition f64_of_int :: "int \<Rightarrow> f64" where
  "f64_of_int n = f64_of_rat (of_int n)"

text \<open>\<^verbatim>\<open>float64(x)\<close> of a \<^verbatim>\<open>float32\<close> is exact; \<^verbatim>\<open>float32(x)\<close> of a \<^verbatim>\<open>float64\<close> rounds.\<close>

definition f64_of_f32 :: "f32 \<Rightarrow> f64" where
  "f64_of_f32 w =
    (let sign = if f32_neg w then 9223372036854775808 else 0 in
     if f32_exp w = 255 then sign + 9218868437227405312 + f32_man w * 536870912
     else sign + encode_abs 52 (-1022) 9218868437227405312
       (of_nat (if f32_exp w = 0 then f32_man w else 8388608 + f32_man w)
        * pow2 (if f32_exp w = 0 then -149 else int (f32_exp w) - 150)))"

definition f32_of_f64 :: "f64 \<Rightarrow> f32" where
  "f32_of_f64 w =
    (let sign = if f64_neg w then 2147483648 else 0 in
     if IsNaN w then sign + 2143289344
     else if IsInf w then sign + 2139095040
     else sign + encode_abs 23 (-126) 2139095040 (f64_abs_rat w))"

definition f32_nonfinite :: "f32 \<Rightarrow> bool" where
  "f32_nonfinite w \<longleftrightarrow> f32_exp w = 255"

subsection \<open>Shortest decimal text\<close>

definition log10_rat :: "rat \<Rightarrow> int" where
  "log10_rat x =
    (let (a, b) = quotient_of x; k = int (floorlog 10 (nat a)) - int (floorlog 10 (nat b))
     in if x < pow10 k then k - 1 else k)"

text \<open>
  The rounding interval of a pattern: half the distance to each neighbour (a quarter below a power
  of two), its ends included when the mantissa is even. \<open>width\<close> is the exponent of one unit.
\<close>

definition in_interval :: "nat \<Rightarrow> int \<Rightarrow> bool \<Rightarrow> rat \<Rightarrow> bool" where
  "in_interval mant expo boundary y =
    (let x = of_nat mant * pow2 expo;
         hi = x + pow2 (expo - 1);
         lo = x - (if boundary then pow2 (expo - 2) else pow2 (expo - 1))
     in if even mant then lo \<le> y \<and> y \<le> hi else lo < y \<and> y < hi)"

text \<open>
  With \<open>n\<close> digits the candidates are the two decimals around the value; the shortest \<open>n\<close> with a
  candidate inside the interval wins, the nearer candidate if both are inside. Seventeen digits
  always suffice for a \<^verbatim>\<open>float64\<close>; the loop stops there.
\<close>

fun shortest_from :: "nat \<Rightarrow> nat \<Rightarrow> nat \<Rightarrow> int \<Rightarrow> bool \<Rightarrow> nat \<times> int" where
  "shortest_from 0 n mant expo boundary = (mant, 0)"
| "shortest_from (Suc fuel) n mant expo boundary =
    (let x = of_nat mant * pow2 expo;
         k = log10_rat x - int n + 1;
         lo = nat (floor (x / pow10 k));
         hi = lo + 1;
         lo_ok = in_interval mant expo boundary (of_nat lo * pow10 k);
         hi_ok = in_interval mant expo boundary (of_nat hi * pow10 k);
         lo_near = (x - of_nat lo * pow10 k \<le> of_nat hi * pow10 k - x)
     in if lo_ok \<and> (\<not> hi_ok \<or> lo_near) then (lo, k)
        else if hi_ok then (hi, k)
        else shortest_from fuel (n + 1) mant expo boundary)"

fun strip_zeros :: "nat \<Rightarrow> nat \<Rightarrow> int \<Rightarrow> nat \<times> int" where
  "strip_zeros 0 d k = (d, k)"
| "strip_zeros (Suc fuel) d k =
    (if d \<noteq> 0 \<and> d mod 10 = 0 then strip_zeros fuel (d div 10) (k + 1) else (d, k))"

definition f64_shortest :: "f64 \<Rightarrow> nat \<times> int" where
  "f64_shortest w =
    (let (d, k) = shortest_from 17 1 (f64_mant w) (f64_expo w) (f64_man w = 0 \<and> 1 < f64_exp w)
     in strip_zeros 18 d k)"

text \<open>The \<^verbatim>\<open>'f'\<close> and \<^verbatim>\<open>'e'\<close> forms of \<open>d \<times> 10^k\<close>; the exponent has at least two digits.\<close>

definition format_f :: "nat \<Rightarrow> int \<Rightarrow> string" where
  "format_f d k =
    (let ds = dec_digits d in
     if 0 \<le> k then ds @ replicate (nat k) (CHR ''0'')
     else let frac = nat (- k) in
       if frac < length ds then take (length ds - frac) ds @ ''.'' @ drop (length ds - frac) ds
       else ''0.'' @ replicate (frac - length ds) (CHR ''0'') @ ds)"

definition format_e :: "nat \<Rightarrow> int \<Rightarrow> string \<times> int" where
  "format_e d k =
    (let ds = dec_digits d in
     (if length ds = 1 then ds else hd ds # ''.'' @ tl ds, k + int (length ds) - 1))"

subsection \<open>value.go\<close>

definition floatInt64Limit :: rat where
  "floatInt64Limit = 9223372036854775808"

definition exactInt64Float :: "f64 \<Rightarrow> int option" where
  "exactInt64Float w =
    (if IsNaN w \<or> IsInf w \<or> of_int (floor (f64_rat w)) \<noteq> f64_rat w
        \<or> f64_rat w < - floatInt64Limit \<or> f64_rat w \<ge> floatInt64Limit
     then None else Some (floor (f64_rat w)))"

text \<open>
  \<^verbatim>\<open>fmt.Sprintf("%+d", exponent)\<close> prints the exponent with its sign and no padding. The \<^verbatim>\<open>float32\<close> form
  of \<^verbatim>\<open>FormatFloat\<close> (\<^verbatim>\<open>bits = 32\<close>) shortens against the binary32 neighbours.
\<close>

definition f32_shortest :: "f32 \<Rightarrow> nat \<times> int" where
  "f32_shortest w =
    (let mant = (if f32_exp w = 0 then f32_man w else 8388608 + f32_man w);
         expo = (if f32_exp w = 0 then -149 else int (f32_exp w) - 150);
         (d, k) = shortest_from 17 1 mant expo (f32_man w = 0 \<and> 1 < f32_exp w)
     in strip_zeros 18 d k)"

definition canonicalFloat :: "f64 \<Rightarrow> nat \<times> int \<Rightarrow> string" where
  "canonicalFloat w shortest =
    (if f64_zero w then ''0''
     else case exactInt64Float w of
       Some n \<Rightarrow> FormatInt n
     | None \<Rightarrow>
        (let a = f64_abs_rat w; sign = (if f64_neg w then ''-'' else ''''); (d, k) = shortest in
         if 1 / 1000000 \<le> a \<and> a < 10 ^ 21 \<and> of_int (floor a) \<noteq> a
         then sign @ format_f d k
         else let (m, e) = format_e d k
              in sign @ m @ ''e'' @ (if 0 \<le> e then ''+'' else '''') @ FormatInt e))"

subsection \<open>Facts\<close>

lemma exactInt64Float_in: "exactInt64Float w = Some n \<Longrightarrow> in_int64 n"
  by (auto simp: exactInt64Float_def in_int64_def MinInt64_def MaxInt64_def floatInt64Limit_def
      le_floor_iff floor_less_iff split: if_splits)

lemma exactInt64Float_exact: "exactInt64Float w = Some n \<Longrightarrow> f64_rat w = of_int n"
  by (auto simp: exactInt64Float_def split: if_splits)

lemma f64_eq_refl: "\<not> IsNaN x \<Longrightarrow> f64_eq x x"
  by (simp add: f64_eq_def)

lemma f64_eq_sym: "f64_eq x y \<longleftrightarrow> f64_eq y x"
  by (auto simp: f64_eq_def)

lemma f64_eq_trans: "f64_eq x y \<Longrightarrow> f64_eq y z \<Longrightarrow> f64_eq x z"
  by (auto simp: f64_eq_def)

end
