(* ===== verification/Dyn.thy ===== *)
theory Dyn
  imports Floats
begin

text \<open>
  Go's dynamic values (\<^verbatim>\<open>any\<close>) as they reach the public API: the JSON shapes, the integer kinds, and the
  typed wrappers of types.go (\<^verbatim>\<open>RefValue\<close>, \<^verbatim>\<open>InstantValue\<close>, \<^verbatim>\<open>BytesValue\<close>, \<^verbatim>\<open>VectorValue\<close>, \<^verbatim>\<open>JSONValue\<close>,
  \<^verbatim>\<open>TempID\<close>, \<^verbatim>\<open>E\<close>), with the field access of value.go: \<^verbatim>\<open>objectFields\<close>, \<^verbatim>\<open>sortedFields\<close>, \<^verbatim>\<open>objectMap\<close>.
\<close>

datatype gokind =
    KInt | KInt8 | KInt16 | KInt32 | KInt64 | KUint | KUint8 | KUint16 | KUint32 | KUint64

text \<open>
  \<open>AMap\<close> is \<^verbatim>\<open>map[string]any\<close> and \<open>AE\<close> the named map type \<^verbatim>\<open>E\<close>, both association lists with distinct
  keys; \<open>AObject\<close> is the decoded \<^verbatim>\<open>Object\<close>, whose fields keep their order. \<open>ATime\<close> is a
  \<^verbatim>\<open>time.Time\<close>, given by its UTC microseconds, and \<open>AOther\<close> any type the code does not know.
\<close>

datatype any =
    ANil
  | ABool bool
  | ANum gokind int
  | AF32 f32
  | AF64 f64
  | AStr string
  | AList "any list"
  | AF32s "f32 list"
  | AObject "(string \<times> any) list"
  | AE "(string \<times> any) list"
  | AMap "(string \<times> any) list"
  | ARef any
  | AInstant int
  | ABytesValue string
  | AByteSlice string
  | AVector "f32 list"
  | AJSON any
  | ATmp string
  | ATime int
  | AOther

type_synonym fields = "(string \<times> any) list"

abbreviation AInt64 :: "int \<Rightarrow> any" where
  "AInt64 \<equiv> ANum KInt64"

text \<open>The unsigned kinds whose values may exceed the signed 64-bit range.\<close>

definition wide_unsigned :: "gokind \<Rightarrow> bool" where
  "wide_unsigned k \<longleftrightarrow> k = KUint \<or> k = KUint64"

text \<open>\<^verbatim>\<open>sortedFields\<close>: the member \<^verbatim>\<open>id\<close> first, then the others in bytewise order of their names.\<close>

definition sortedFields :: "fields \<Rightarrow> fields" where
  "sortedFields m =
     filter (\<lambda>(k, _). k = ''id'') m @ sort_key fst (filter (\<lambda>(k, _). k \<noteq> ''id'') m)"

fun objectFields :: "any \<Rightarrow> fields option" where
  "objectFields (AObject fs) = Some (sortedFields (put_all fs []))"
| "objectFields (AE m) = Some (sortedFields m)"
| "objectFields (AMap m) = Some (sortedFields m)"
| "objectFields _ = None"

definition objectMap :: "any \<Rightarrow> fields option" where
  "objectMap v = map_option (\<lambda>fs. put_all fs []) (objectFields v)"

subsection \<open>Facts\<close>

text \<open>The association lists of a value are maps: no key twice, at any depth.\<close>

fun wf_any :: "any \<Rightarrow> bool" where
  "wf_any (AList xs) \<longleftrightarrow> list_all wf_any xs"
| "wf_any (AObject fs) \<longleftrightarrow> list_all (\<lambda>p. wf_any (snd p)) fs"
| "wf_any (AE m) \<longleftrightarrow> distinct (map fst m) \<and> list_all (\<lambda>p. wf_any (snd p)) m"
| "wf_any (AMap m) \<longleftrightarrow> distinct (map fst m) \<and> list_all (\<lambda>p. wf_any (snd p)) m"
| "wf_any (ARef v) \<longleftrightarrow> wf_any v"
| "wf_any (AJSON v) \<longleftrightarrow> wf_any v"
| "wf_any _ \<longleftrightarrow> True"

lemma set_sortedFields [simp]: "set (sortedFields m) = set m"
  by (auto simp: sortedFields_def)

lemma distinct_sortedFields:
  assumes "distinct (map fst m)"
  shows "distinct (map fst (sortedFields m))"
  unfolding sortedFields_def map_append distinct_append
  using assms by (auto simp: distinct_map_filter)

lemma sorted_sortedFields: "sorted (map fst (filter (\<lambda>(k, _). k \<noteq> ''id'') (sortedFields m)))"
proof -
  have "filter (\<lambda>(k, _). k \<noteq> ''id'') (sortedFields m) = sort_key fst (filter (\<lambda>(k, _). k \<noteq> ''id'') m)"
    by (auto simp: sortedFields_def filter_empty_conv intro!: filter_True)
  then show ?thesis by simp
qed

lemma map_of_sortedFields:
  assumes "distinct (map fst m)"
  shows "map_of (sortedFields m) = map_of m"
  by (rule map_of_eqI) (auto simp: assms distinct_sortedFields)

text \<open>Descending into an object makes the value smaller: the measure of the planner's recursion.\<close>

lemma size_list_filter_split:
  "size_list g (filter P xs) + size_list g (filter (\<lambda>x. \<not> P x) xs) = size_list g xs"
  by (induction xs) auto

lemma size_list_append: "size_list g (xs @ ys) = size_list g xs + size_list g ys"
  by (induction xs) auto

lemma size_list_sortedFields [simp]: "size_list g (sortedFields m) = size_list g m"
  using size_list_filter_split [of g "\<lambda>(k, _). k = ''id''" m]
  by (simp add: sortedFields_def size_list_append case_prod_unfold)

lemma size_list_update_le:
  "size_list (size_prod (\<lambda>_. 0) g) (AList.update k v m) \<le> Suc (Suc (g v)) + size_list (size_prod (\<lambda>_. 0) g) m"
  by (induction m) auto

lemma size_list_put_all:
  "size_list (size_prod (\<lambda>_. 0) g) (put_all kvs m)
     \<le> size_list (size_prod (\<lambda>_. 0) g) kvs + size_list (size_prod (\<lambda>_. 0) g) m"
proof (induction kvs arbitrary: m)
  case Nil
  then show ?case by (simp add: put_all_def)
next
  case (Cons kv kvs)
  obtain k v where kv: "kv = (k, v)" by (cases kv)
  have "size_list (size_prod (\<lambda>_. 0) g) (put_all kvs (AList.update k v m))
     \<le> size_list (size_prod (\<lambda>_. 0) g) kvs + size_list (size_prod (\<lambda>_. 0) g) (AList.update k v m)"
    by (rule Cons.IH)
  also have "\<dots> \<le> size_list (size_prod (\<lambda>_. 0) g) (kv # kvs) + size_list (size_prod (\<lambda>_. 0) g) m"
    using size_list_update_le [of g k v m] by (simp add: kv)
  finally show ?case by (simp add: kv put_all_def)
qed

lemma size_objectFields:
  "objectFields v = Some fs \<Longrightarrow> size_list (size_prod (\<lambda>_. 0) size) fs < size v"
  using size_list_put_all [of size _ "[]"]
  by (cases v) (auto simp: less_Suc_eq_le)

lemma size_objectFields_single:
  "objectFields v = Some [(k, x)] \<Longrightarrow> size x < size v"
  using size_objectFields [of v "[(k, x)]"] by simp

lemma distinct_objectFields:
  "wf_any v \<Longrightarrow> objectFields v = Some fs \<Longrightarrow> distinct (map fst fs)"
  by (cases v) (auto simp: distinct_sortedFields distinct_put_all)

end
