(* ===== verification/Json.thy ===== *)
theory Json
  imports Dyn
begin

text \<open>
  JSON in value.go: \<^verbatim>\<open>plainJSON\<close>, \<^verbatim>\<open>validateJSON\<close>, the canonical writer and the strict decoder, with their
  nesting limits. The scanner of \<^verbatim>\<open>encoding/json\<close> that the decoder drives is written out here. Go
  iterates over a map in an arbitrary order; the model uses the order of the association list, which
  decides only which of several errors is reported.
\<close>

definition MaxJSONDepth :: nat where "MaxJSONDepth = 64"
definition MaxJSONDocumentDepth :: nat where "MaxJSONDocumentDepth = 80"

subsection \<open>Plain values\<close>

definition float32JSON :: "f32 list \<Rightarrow> any list" where
  "float32JSON vs = map (\<lambda>w. AF64 (f64_of_f32 w)) vs"

fun plainJSONDepth :: "any \<Rightarrow> nat \<Rightarrow> nat \<Rightarrow> any res" where
  "plainJSONDepth (AObject fs) depth maxDepth =
    (if depth \<ge> maxDepth then fail ErrTooLarge
     else res_bind (res_map (\<lambda>p. res_bind (plainJSONDepth (snd p) (depth + 1) maxDepth)
                               (\<lambda>v. Inr (fst p, v))) fs)
            (\<lambda>kvs. Inr (AMap (put_all kvs []))))"
| "plainJSONDepth (AList xs) depth maxDepth =
    (if depth \<ge> maxDepth then fail ErrTooLarge
     else res_bind (res_map (\<lambda>x. plainJSONDepth x (depth + 1) maxDepth) xs) (\<lambda>ys. Inr (AList ys)))"
| "plainJSONDepth (AF32s vs) depth maxDepth =
    (if depth \<ge> maxDepth then fail ErrTooLarge else Inr (AList (float32JSON vs)))"
| "plainJSONDepth (AE m) depth maxDepth =
    (if depth \<ge> maxDepth then fail ErrTooLarge
     else res_bind (res_map (\<lambda>p. res_bind (plainJSONDepth (snd p) (depth + 1) maxDepth)
                               (\<lambda>v. Inr (fst p, v))) m)
            (\<lambda>kvs. Inr (AMap kvs)))"
| "plainJSONDepth (AMap m) depth maxDepth =
    (if depth \<ge> maxDepth then fail ErrTooLarge
     else res_bind (res_map (\<lambda>p. res_bind (plainJSONDepth (snd p) (depth + 1) maxDepth)
                               (\<lambda>v. Inr (fst p, v))) m)
            (\<lambda>kvs. Inr (AMap kvs)))"
| "plainJSONDepth v depth maxDepth = Inr v"

definition plainJSON :: "any \<Rightarrow> any res" where
  "plainJSON v = plainJSONDepth v 0 MaxJSONDepth"

subsection \<open>Validation\<close>

fun validateJSONDepth :: "any \<Rightarrow> nat \<Rightarrow> nat \<Rightarrow> unit res" where
  "validateJSONDepth ANil depth maxDepth = Inr ()"
| "validateJSONDepth (ABool b) depth maxDepth = Inr ()"
| "validateJSONDepth (ANum k i) depth maxDepth =
    (if wide_unsigned k then check (i \<le> MaxInt64) ErrType else Inr ())"
| "validateJSONDepth (AStr s) depth maxDepth = check (ValidString s) ErrType"
| "validateJSONDepth (AF32 w) depth maxDepth = check (\<not> f32_nonfinite w) ErrType"
| "validateJSONDepth (AF64 w) depth maxDepth = check (\<not> IsNaN w \<and> \<not> IsInf w) ErrType"
| "validateJSONDepth (AList xs) depth maxDepth =
    (if depth \<ge> maxDepth then fail ErrTooLarge
     else res_bind (res_map (\<lambda>x. validateJSONDepth x (depth + 1) maxDepth) xs) (\<lambda>_. Inr ()))"
| "validateJSONDepth (AF32s vs) depth maxDepth =
    (if depth \<ge> maxDepth then fail ErrTooLarge else check (\<not> list_ex f32_nonfinite vs) ErrType)"
| "validateJSONDepth (AMap m) depth maxDepth =
    (if depth \<ge> maxDepth then fail ErrTooLarge
     else res_bind (res_map (\<lambda>p. res_bind (check (ValidString (fst p)) ErrType)
                               (\<lambda>_. validateJSONDepth (snd p) (depth + 1) maxDepth)) m)
            (\<lambda>_. Inr ()))"
| "validateJSONDepth v depth maxDepth = fail ErrType"

definition validateJSON :: "any \<Rightarrow> unit res" where
  "validateJSON v = validateJSONDepth v 0 MaxJSONDepth"

subsection \<open>The canonical writer\<close>

text \<open>
  \<^verbatim>\<open>writeCanonicalString\<close> is only reached with valid UTF-8, where writing a character above U+007F back
  writes its own bytes: the escapes can be chosen byte by byte.
\<close>

definition escape_byte :: "char \<Rightarrow> string" where
  "escape_byte c =
    (let b = byte_of c in
     if b = 34 \<or> b = 92 then [CHR 0x5C, c]
     else if b = 8 then [CHR 0x5C, CHR ''b'']
     else if b = 12 then [CHR 0x5C, CHR ''f'']
     else if b = 10 then [CHR 0x5C, CHR ''n'']
     else if b = 13 then [CHR 0x5C, CHR ''r'']
     else if b = 9 then [CHR 0x5C, CHR ''t'']
     else if b < 32 then [CHR 0x5C, CHR ''u'', CHR ''0'', CHR ''0'', digit (b div 16), digit (b mod 16)]
     else [c])"

definition writeCanonicalString :: "string \<Rightarrow> string" where
  "writeCanonicalString s = [CHR 0x22] @ concat (map escape_byte s) @ [CHR 0x22]"

fun commas :: "string list \<Rightarrow> string" where
  "commas [] = []"
| "commas [s] = s"
| "commas (s # t # ts) = s @ '','' @ commas (t # ts)"

fun writeCanonicalJSONDepth :: "any \<Rightarrow> nat \<Rightarrow> nat \<Rightarrow> string res" where
  "writeCanonicalJSONDepth ANil depth maxDepth = Inr ''null''"
| "writeCanonicalJSONDepth (ABool b) depth maxDepth = Inr (if b then ''true'' else ''false'')"
| "writeCanonicalJSONDepth (AStr s) depth maxDepth =
    (if ValidString s then Inr (writeCanonicalString s) else fail ErrType)"
| "writeCanonicalJSONDepth (ANum k i) depth maxDepth = Inr (FormatInt i)"
| "writeCanonicalJSONDepth (AF32 w) depth maxDepth =
    Inr (canonicalFloat (f64_of_f32 w) (f32_shortest w))"
| "writeCanonicalJSONDepth (AF64 w) depth maxDepth = Inr (canonicalFloat w (f64_shortest w))"
| "writeCanonicalJSONDepth (AList xs) depth maxDepth =
    (if depth \<ge> maxDepth then fail ErrTooLarge
     else res_bind (res_map (\<lambda>x. writeCanonicalJSONDepth x (depth + 1) maxDepth) xs)
            (\<lambda>ts. Inr (''['' @ commas ts @ '']'')))"
| "writeCanonicalJSONDepth (AMap m) depth maxDepth =
    (if depth \<ge> maxDepth then fail ErrTooLarge
     else res_bind (res_map (\<lambda>p. if ValidString (fst p)
                               then res_bind (writeCanonicalJSONDepth (snd p) (depth + 1) maxDepth)
                                      (\<lambda>t. Inr (writeCanonicalString (fst p) @ '':'' @ t))
                               else fail ErrType) (sort_key fst m))
            (\<lambda>ts. Inr (''{'' @ commas ts @ ''}'')))"
| "writeCanonicalJSONDepth v depth maxDepth = fail ErrType"

definition canonicalJSON :: "any \<Rightarrow> string res" where
  "canonicalJSON v =
    res_bind (plainJSONDepth v 0 MaxJSONDocumentDepth) (\<lambda>plain.
    res_bind (validateJSONDepth plain 0 MaxJSONDocumentDepth) (\<lambda>_.
      writeCanonicalJSONDepth plain 0 MaxJSONDocumentDepth))"

subsection \<open>Scanning JSON text\<close>

definition is_ws :: "char \<Rightarrow> bool" where
  "is_ws c \<longleftrightarrow> byte_of c \<in> {32, 9, 10, 13}"

definition skip_ws :: "string \<Rightarrow> string" where
  "skip_ws s = dropWhile is_ws s"

definition utf8_encode :: "nat \<Rightarrow> string" where
  "utf8_encode r =
    (if r < 128 then [char_of r]
     else if r < 2048 then [char_of (192 + r div 64), char_of (128 + r mod 64)]
     else if r < 65536 then
       [char_of (224 + r div 4096), char_of (128 + r div 64 mod 64), char_of (128 + r mod 64)]
     else [char_of (240 + r div 262144), char_of (128 + r div 4096 mod 64),
           char_of (128 + r div 64 mod 64), char_of (128 + r mod 64)])"

fun jsonHexEscape :: "string \<Rightarrow> nat option" where
  "jsonHexEscape (a # b # c # d # r) =
    (case (hex_val a, hex_val b, hex_val c, hex_val d) of
       (Some w, Some x, Some y, Some z) \<Rightarrow> Some (((w * 16 + x) * 16 + y) * 16 + z)
     | _ \<Rightarrow> None)"
| "jsonHexEscape _ = None"

text \<open>
  The check that every UTF-16 surrogate escape inside a string is part of a pair. The index of the
  loop is the length of the text already consumed.
\<close>

fun validateJSONUnicodeEscapes :: "bool \<Rightarrow> string \<Rightarrow> bool" where
  "validateJSONUnicodeEscapes inString [] = True"
| "validateJSONUnicodeEscapes inString (c # r) =
    (if byte_of c = 34 then validateJSONUnicodeEscapes (\<not> inString) r
     else if byte_of c = 92 then
       (if \<not> inString \<or> r = [] then validateJSONUnicodeEscapes inString r
        else if hd r \<noteq> CHR ''u'' then validateJSONUnicodeEscapes inString (drop 1 r)
        else case jsonHexEscape (drop 1 r) of
          None \<Rightarrow> validateJSONUnicodeEscapes inString r
        | Some value \<Rightarrow>
           if 55296 \<le> value \<and> value \<le> 56319 then
             (if length (c # r) < 12 \<or> byte_of (r ! 5) \<noteq> 92 \<or> r ! 6 \<noteq> CHR ''u'' then False
              else case jsonHexEscape (drop 7 r) of
                None \<Rightarrow> False
              | Some low \<Rightarrow>
                 if low < 56320 \<or> 57343 < low then False
                 else validateJSONUnicodeEscapes inString (drop 11 r))
           else if 56320 \<le> value \<and> value \<le> 57343 then False
           else validateJSONUnicodeEscapes inString (drop 5 r))
     else validateJSONUnicodeEscapes inString r)"

text \<open>
  A string after its opening quote: the bytes it denotes and the rest of the text. Escapes of lone
  surrogates denote U+FFFD.
\<close>

definition simple_escape :: "char \<Rightarrow> char option" where
  "simple_escape c =
    map_of [(CHR 0x22, CHR 0x22), (CHR 0x5C, CHR 0x5C), (CHR ''/'', CHR ''/''), (CHR ''b'', CHR 0x08),
            (CHR ''f'', CHR 0x0C), (CHR ''n'', CHR 0x0A), (CHR ''r'', CHR 0x0D), (CHR ''t'', CHR 0x09)] c"

definition push_text :: "string \<Rightarrow> (string \<times> string) option \<Rightarrow> (string \<times> string) option" where
  "push_text t = map_option (\<lambda>(s, r). (t @ s, r))"

fun scan_string :: "string \<Rightarrow> (string \<times> string) option" where
  "scan_string [] = None"
| "scan_string (c # r) =
    (if byte_of c = 34 then Some ([], r)
     else if byte_of c < 32 then None
     else if byte_of c = 92 then
       (if r = [] then None
        else case simple_escape (hd r) of
          Some e \<Rightarrow> push_text [e] (scan_string (drop 1 r))
        | None \<Rightarrow>
           if hd r \<noteq> CHR ''u'' then None
           else case jsonHexEscape (drop 1 r) of
             None \<Rightarrow> None
           | Some v \<Rightarrow>
              if 55296 \<le> v \<and> v \<le> 56319 \<and> take 2 (drop 5 r) = [CHR 0x5C, CHR ''u'']
                 \<and> (case jsonHexEscape (drop 7 r) of None \<Rightarrow> False | Some l \<Rightarrow> 56320 \<le> l \<and> l \<le> 57343)
              then push_text (utf8_encode (65536 + (v - 55296) * 1024
                     + (the (jsonHexEscape (drop 7 r)) - 56320))) (scan_string (drop 11 r))
              else push_text (utf8_encode (if 55296 \<le> v \<and> v \<le> 57343 then 65533 else v))
                     (scan_string (drop 5 r)))
     else push_text [c] (scan_string r))"

text \<open>A number: optional sign, integer part without a leading zero, fraction, exponent.\<close>

definition scan_digits :: "string \<Rightarrow> (string \<times> string) option" where
  "scan_digits s =
    (let ds = takeWhile is_digit s in if ds = [] then None else Some (ds, dropWhile is_digit s))"

definition scan_int_part :: "string \<Rightarrow> (string \<times> string) option" where
  "scan_int_part s =
    (case s of [] \<Rightarrow> None | c # r \<Rightarrow> if c = CHR ''0'' then Some ([c], r) else scan_digits s)"

definition scan_frac :: "string \<Rightarrow> (string \<times> string) option" where
  "scan_frac s =
    (case s of
       [] \<Rightarrow> Some ([], s)
     | c # r \<Rightarrow> if c = CHR ''.'' then push_text ''.'' (scan_digits r) else Some ([], s))"

definition scan_exp :: "string \<Rightarrow> (string \<times> string) option" where
  "scan_exp s =
    (case s of
       [] \<Rightarrow> Some ([], s)
     | c # r \<Rightarrow>
        if c = CHR ''e'' \<or> c = CHR ''E'' then
          (case r of
             [] \<Rightarrow> None
           | g # r' \<Rightarrow> if g = CHR ''+'' \<or> g = CHR ''-'' then push_text [c, g] (scan_digits r')
                       else push_text [c] (scan_digits r))
        else Some ([], s))"

definition scan_number :: "string \<Rightarrow> (string \<times> string) option" where
  "scan_number s =
    (let (sign, s1) = (if s \<noteq> [] \<and> hd s = CHR ''-'' then (''-'', tl s) else ('''', s)) in
     Option.bind (scan_int_part s1) (\<lambda>(i, s2).
     Option.bind (scan_frac s2) (\<lambda>(f, s3).
     Option.bind (scan_exp s3) (\<lambda>(e, s4). Some (sign @ i @ f @ e, s4)))))"

subsection \<open>Numbers\<close>

definition parse_int :: "string \<Rightarrow> int" where
  "parse_int s = (if s \<noteq> [] \<and> hd s = CHR ''-'' then - int (dec_val (tl s)) else int (dec_val s))"

definition num_parts :: "string \<Rightarrow> string \<times> string \<times> int" where
  "num_parts s =
    (let i = takeWhile is_digit s; s1 = dropWhile is_digit s;
         (f, s2) = (if s1 \<noteq> [] \<and> hd s1 = CHR ''.''
                    then (takeWhile is_digit (tl s1), dropWhile is_digit (tl s1)) else ([], s1));
         e = (if s2 = [] then 0
              else let t = tl s2 in
                if t \<noteq> [] \<and> hd t = CHR ''+'' then int (dec_val (tl t)) else parse_int t)
     in (i, f, e))"

text \<open>\<^verbatim>\<open>strconv.ParseFloat\<close>: nearest even; a value that rounds to infinity is a range error.\<close>

definition parse_float :: "string \<Rightarrow> f64 option" where
  "parse_float s =
    (let neg = (s \<noteq> [] \<and> hd s = CHR ''-''); (i, f, e) = num_parts (if neg then tl s else s);
         a = f64_of_rat (of_nat (dec_val (i @ f)) * pow10 (e - int (length f)))
     in if IsInf a then None else Some (a + (if neg then 9223372036854775808 else 0)))"

definition integral_text :: "string \<Rightarrow> bool" where
  "integral_text s \<longleftrightarrow> \<not> list_ex (\<lambda>c. c = CHR ''.'' \<or> c = CHR ''e'' \<or> c = CHR ''E'') s"

definition decode_number :: "bool \<Rightarrow> string \<Rightarrow> any res" where
  "decode_number allowIntegralFloat s =
    (if integral_text s \<and> in_int64 (parse_int s) then Inr (AInt64 (parse_int s))
     else if integral_text s \<and> \<not> allowIntegralFloat then Inl External
     else case parse_float s of
       None \<Rightarrow> Inl External
     | Some f \<Rightarrow> if IsNaN f \<or> IsInf f then Inl External else Inr (AF64 f))"

definition normalizeJSONNumber :: "string \<Rightarrow> any" where
  "normalizeJSONNumber s =
    (if integral_text s \<and> in_int64 (parse_int s) then AInt64 (parse_int s)
     else case parse_float s of None \<Rightarrow> AStr s | Some f \<Rightarrow> AF64 f)"

subsection \<open>Decoding\<close>

text \<open>
  What the two decoders of value.go differ in: \<^verbatim>\<open>decodeValue\<close> refuses a repeated key and a container
  below \<open>maxDepth\<close> and keeps objects as \<^verbatim>\<open>Object\<close>; \<^verbatim>\<open>json.Decoder.Decode\<close> followed by
  \<^verbatim>\<open>normalizeJSONNumbers\<close> keeps the last of repeated keys in a map. A syntax error is \<open>External\<close>.
\<close>

record jconfig =
  jc_strict :: bool
  jc_maxDepth :: nat
  jc_number :: "string \<Rightarrow> any res"

definition jc_object :: "jconfig \<Rightarrow> fields \<Rightarrow> any" where
  "jc_object cfg fs = (if jc_strict cfg then AObject fs else AMap (put_all fs []))"

definition lit :: "string \<Rightarrow> any \<Rightarrow> string \<Rightarrow> (any \<times> string) res" where
  "lit word v s = (if take (length word) s = word then Inr (v, drop (length word) s) else Inl External)"

text \<open>
  The decoder has three positions: before a value, and before an item or a member (after an opening
  bracket or a comma) with what was read so far. \<open>next\<close> is the decoder itself at the next position.
\<close>

datatype jgoal = JValue | JItems "any list" | JMembers fields

type_synonym jdecoder = "jgoal \<Rightarrow> nat \<Rightarrow> string \<Rightarrow> (any \<times> string) res"

definition json_container :: "jdecoder \<Rightarrow> jconfig \<Rightarrow> char \<Rightarrow> any \<Rightarrow> jgoal \<Rightarrow> nat \<Rightarrow> string \<Rightarrow> (any \<times> string) res" where
  "json_container next cfg close none first depth r =
    (if jc_strict cfg \<and> depth \<ge> jc_maxDepth cfg then fail ErrTooLarge
     else case skip_ws r of
       [] \<Rightarrow> Inl External
     | d # r' \<Rightarrow> if d = close then Inr (none, r') else next first (depth + 1) r)"

definition json_value :: "jdecoder \<Rightarrow> jconfig \<Rightarrow> nat \<Rightarrow> string \<Rightarrow> (any \<times> string) res" where
  "json_value next cfg depth s =
    (case skip_ws s of
       [] \<Rightarrow> Inl External
     | c # r \<Rightarrow>
       if c = CHR ''{'' then json_container next cfg (CHR ''}'') (jc_object cfg []) (JMembers []) depth r
       else if c = CHR ''['' then json_container next cfg (CHR '']'') (AList []) (JItems []) depth r
       else if byte_of c = 34 then
         (case scan_string r of None \<Rightarrow> Inl External | Some (t, r') \<Rightarrow> Inr (AStr t, r'))
       else if c = CHR ''t'' then lit ''true'' (ABool True) (c # r)
       else if c = CHR ''f'' then lit ''false'' (ABool False) (c # r)
       else if c = CHR ''n'' then lit ''null'' ANil (c # r)
       else case scan_number (c # r) of
         None \<Rightarrow> Inl External
       | Some (t, r') \<Rightarrow> res_bind (jc_number cfg t) (\<lambda>v. Inr (v, r')))"

definition json_items :: "jdecoder \<Rightarrow> any list \<Rightarrow> nat \<Rightarrow> string \<Rightarrow> (any \<times> string) res" where
  "json_items next acc depth s =
    res_bind (next JValue depth s) (\<lambda>(v, r).
      case skip_ws r of
        [] \<Rightarrow> Inl External
      | d # r' \<Rightarrow> if d = CHR '','' then next (JItems (acc @ [v])) depth r'
                  else if d = CHR '']'' then Inr (AList (acc @ [v]), r')
                  else Inl External)"

definition json_key :: "string \<Rightarrow> (string \<times> string) res" where
  "json_key s =
    (case skip_ws s of
       [] \<Rightarrow> Inl External
     | q # s1 \<Rightarrow>
       if byte_of q \<noteq> 34 then Inl External
       else case scan_string s1 of None \<Rightarrow> Inl External | Some kr \<Rightarrow> Inr kr)"

definition json_members :: "jdecoder \<Rightarrow> jconfig \<Rightarrow> fields \<Rightarrow> nat \<Rightarrow> string \<Rightarrow> (any \<times> string) res" where
  "json_members next cfg acc depth s =
    res_bind (json_key s) (\<lambda>(name, s2).
      if jc_strict cfg \<and> name \<in> set (map fst acc) then Inl External
      else case skip_ws s2 of
        [] \<Rightarrow> Inl External
      | d # s3 \<Rightarrow>
         if d \<noteq> CHR '':'' then Inl External
         else res_bind (next JValue depth s3) (\<lambda>(v, r).
           case skip_ws r of
             [] \<Rightarrow> Inl External
           | f # r' \<Rightarrow> if f = CHR '','' then next (JMembers (acc @ [(name, v)])) depth r'
                       else if f = CHR ''}'' then Inr (jc_object cfg (acc @ [(name, v)]), r')
                       else Inl External))"

text \<open>One unit of fuel per position; each consumes at least one byte, so twice the length is enough.\<close>

primrec json_decode :: "jconfig \<Rightarrow> nat \<Rightarrow> jdecoder" where
  "json_decode cfg 0 = (\<lambda>goal depth s. Inl External)"
| "json_decode cfg (Suc n) =
    (\<lambda>goal depth s. case goal of
       JValue \<Rightarrow> json_value (json_decode cfg n) cfg depth s
     | JItems acc \<Rightarrow> json_items (json_decode cfg n) acc depth s
     | JMembers acc \<Rightarrow> json_members (json_decode cfg n) cfg acc depth s)"

definition json_run :: "jconfig \<Rightarrow> string \<Rightarrow> (any \<times> string) res" where
  "json_run cfg s = json_decode cfg (2 * length s + 2) JValue 0 s"

definition decodeJSON :: "string \<Rightarrow> bool \<Rightarrow> nat \<Rightarrow> any res" where
  "decodeJSON raw allowIntegralFloat maxDepth =
    (if \<not> ValidString raw then fail ErrType
     else if \<not> validateJSONUnicodeEscapes False raw then fail ErrType
     else case json_run
                 \<lparr>jc_strict = True, jc_maxDepth = maxDepth, jc_number = decode_number allowIntegralFloat\<rparr>
                 raw of
       Inl e \<Rightarrow> if errorIs e ErrTooLarge then Inl e else fail ErrType
     | Inr (v, r) \<Rightarrow> if skip_ws r = [] then Inr v else fail ErrType)"

definition DecodeJSON :: "string \<Rightarrow> any res" where
  "DecodeJSON raw = decodeJSON raw False MaxJSONDocumentDepth"

definition decodeInternalJSON :: "string \<Rightarrow> any res" where
  "decodeInternalJSON raw = decodeJSON raw True MaxJSONDepth"

definition decodeInternalDocumentJSON :: "string \<Rightarrow> any res" where
  "decodeInternalDocumentJSON raw = decodeJSON raw True MaxJSONDocumentDepth"

text \<open>\<^verbatim>\<open>json.Decoder.Decode\<close> with \<^verbatim>\<open>UseNumber\<close>, then \<^verbatim>\<open>normalizeJSONNumbers\<close>: text after the value is left unread.\<close>

definition decode_normalized :: "string \<Rightarrow> any res" where
  "decode_normalized data =
    (case json_run
            \<lparr>jc_strict = False, jc_maxDepth = 0, jc_number = (\<lambda>t. Inr (normalizeJSONNumber t))\<rparr> data of
       Inl e \<Rightarrow> wrap ErrType (Some External)
     | Inr (v, _) \<Rightarrow> Inr v)"

end
