(* ===== verification/Sha256.thy ===== *)
theory Sha256
  imports GoText "HOL-Library.Word"
begin

text \<open>
  SHA-256 (FIPS 180-4), which the code takes from \<^verbatim>\<open>crypto/sha256\<close>: the compression function on
  32-bit words, padding and the digest as 32 bytes.
\<close>

unbundle bit_operations_syntax

type_synonym u32 = "32 word"

definition sha_k :: "u32 list" where
  "sha_k = [
    1116352408, 1899447441, 3049323471, 3921009573, 961987163, 1508970993, 2453635748, 2870763221,
    3624381080, 310598401, 607225278, 1426881987, 1925078388, 2162078206, 2614888103, 3248222580,
    3835390401, 4022224774, 264347078, 604807628, 770255983, 1249150122, 1555081692, 1996064986,
    2554220882, 2821834349, 2952996808, 3210313671, 3336571891, 3584528711, 113926993, 338241895,
    666307205, 773529912, 1294757372, 1396182291, 1695183700, 1986661051, 2177026350, 2456956037,
    2730485921, 2820302411, 3259730800, 3345764771, 3516065817, 3600352804, 4094571909, 275423344,
    430227734, 506948616, 659060556, 883997877, 958139571, 1322822218, 1537002063, 1747873779,
    1955562222, 2024104815, 2227730452, 2361852424, 2428436474, 2756734187, 3204031479, 3329325298]"

definition sha_h0 :: "u32 list" where
  "sha_h0 = [1779033703, 3144134277, 1013904242, 2773480762,
             1359893119, 2600822924, 528734635, 1541459225]"

definition rotr :: "nat \<Rightarrow> u32 \<Rightarrow> u32" where
  "rotr n x = drop_bit n x OR push_bit (32 - n) x"

definition sha_big0 :: "u32 \<Rightarrow> u32" where "sha_big0 x = rotr 2 x XOR rotr 13 x XOR rotr 22 x"
definition sha_big1 :: "u32 \<Rightarrow> u32" where "sha_big1 x = rotr 6 x XOR rotr 11 x XOR rotr 25 x"
definition sha_sm0 :: "u32 \<Rightarrow> u32" where "sha_sm0 x = rotr 7 x XOR rotr 18 x XOR drop_bit 3 x"
definition sha_sm1 :: "u32 \<Rightarrow> u32" where "sha_sm1 x = rotr 17 x XOR rotr 19 x XOR drop_bit 10 x"

definition sha_round :: "u32 \<Rightarrow> u32 \<Rightarrow> u32 list \<Rightarrow> u32 list" where
  "sha_round k w s =
    (case s of [a, b, c, d, e, f, g, h] \<Rightarrow>
       let t1 = h + sha_big1 e + ((e AND f) XOR (NOT e AND g)) + k + w;
           t2 = sha_big0 a + ((a AND b) XOR (a AND c) XOR (b AND c))
       in [t1 + t2, a, b, c, d + t1, e, f, g]
     | _ \<Rightarrow> s)"

text \<open>The message schedule, newest word first.\<close>

fun sha_schedule :: "nat \<Rightarrow> u32 list \<Rightarrow> u32 list" where
  "sha_schedule 0 ws = ws"
| "sha_schedule (Suc n) ws =
    sha_schedule n ((sha_sm1 (ws ! 1) + ws ! 6 + sha_sm0 (ws ! 14) + ws ! 15) # ws)"

definition be_word :: "string \<Rightarrow> u32" where
  "be_word bs = foldl (\<lambda>w c. w * 256 + of_nat (byte_of c)) 0 bs"

fun be_words :: "string \<Rightarrow> u32 list" where
  "be_words (a # b # c # d # r) = be_word [a, b, c, d] # be_words r"
| "be_words _ = []"

definition sha_block :: "u32 list \<Rightarrow> string \<Rightarrow> u32 list" where
  "sha_block h blk =
    (let ws = rev (sha_schedule 48 (rev (be_words blk)));
         s = fold (\<lambda>(k, w). sha_round k w) (zip sha_k ws) h
     in map2 (+) h s)"

fun sha_blocks :: "nat \<Rightarrow> u32 list \<Rightarrow> string \<Rightarrow> u32 list" where
  "sha_blocks 0 h bs = h"
| "sha_blocks (Suc n) h bs = sha_blocks n (sha_block h (take 64 bs)) (drop 64 bs)"

definition be_bytes :: "nat \<Rightarrow> nat \<Rightarrow> string" where
  "be_bytes n x = map (\<lambda>i. char_of (x div 256 ^ (n - 1 - i))) [0..<n]"

definition sha_pad :: "string \<Rightarrow> string" where
  "sha_pad m =
    (let z = (119 - length m mod 64) mod 64
     in m @ [char_of (128::nat)] @ replicate z (char_of (0::nat)) @ be_bytes 8 (8 * length m))"

definition sha256 :: "string \<Rightarrow> string" where
  "sha256 m =
    (let p = sha_pad m
     in concat (map (\<lambda>w. be_bytes 4 (unat w)) (sha_blocks (length p div 64) sha_h0 p)))"

lemma length_be_bytes [simp]: "length (be_bytes n x) = n"
  by (simp add: be_bytes_def)

lemma length_sha_round [simp]: "length (sha_round k w s) = length s"
  by (auto simp: sha_round_def Let_def split: list.splits)

lemma length_sha_rounds: "length (fold (\<lambda>(k, w). sha_round k w) kws s) = length s"
  by (induction kws arbitrary: s) auto

lemma length_sha_block [simp]: "length (sha_block h blk) = length h"
  by (simp add: sha_block_def Let_def length_sha_rounds)

lemma length_sha_blocks [simp]: "length (sha_blocks n h bs) = length h"
  by (induction n arbitrary: h bs) simp_all

lemma length_concat_const: "(\<And>x. x \<in> set xs \<Longrightarrow> length (f x) = n) \<Longrightarrow> length (concat (map f xs)) = length xs * n"
  by (induction xs) auto

text \<open>Every digest has the 32 bytes that the format's hash columns require.\<close>

lemma length_sha256 [simp]: "length (sha256 m) = 32"
  by (simp add: sha256_def Let_def length_concat_const sha_h0_def)

end
