(* ===== verification/Values.thy ===== *)
theory Values
  imports Json Sha256
begin

text \<open>
  Fact values (value.go, types.go): the storage tags, the conversion of an input into a \<^verbatim>\<open>storedValue\<close>
  with its size limits and content-addressed indirection, instants, and the value comparisons of
  transact.go.
\<close>

definition BlobThreshold :: nat where "BlobThreshold = 256"
definition MaxValueBytes :: nat where "MaxValueBytes = 1048576"
definition minInstantMicros :: int where "minInstantMicros = -62135596800000000"
definition maxInstantMicros :: int where "maxInstantMicros = 253402300799999999"

subsection \<open>Tags\<close>

datatype tag =
    TagRef | TagBool | TagInt | TagFloat | TagText | TagInstant | TagBytes | TagVector
  | TagTextRef | TagBytesRef | TagJSON

definition tagNames :: "(string \<times> tag) list" where
  "tagNames =
    [(''ref'', TagRef), (''bool'', TagBool), (''int'', TagInt), (''float'', TagFloat),
     (''text'', TagText), (''instant'', TagInstant), (''bytes'', TagBytes), (''vector'', TagVector),
     (''text_ref'', TagTextRef), (''bytes_ref'', TagBytesRef), (''json'', TagJSON)]"

definition parseTagName :: "string \<Rightarrow> tag option" where
  "parseTagName name =
    map_option snd (find (\<lambda>(candidate, _). name = candidate
       \<or> (name = ''text'' \<and> candidate = ''text_ref'') \<or> (name = ''bytes'' \<and> candidate = ''bytes_ref''))
       tagNames)"

definition tagCompatible :: "string \<Rightarrow> tag \<Rightarrow> bool" where
  "tagCompatible expected actual =
    (if expected = ''text'' then actual = TagText \<or> actual = TagTextRef
     else if expected = ''bytes'' then actual = TagBytes \<or> actual = TagBytesRef
     else parseTagName expected = Some actual)"

fun logicalTag :: "tag \<Rightarrow> string" where
  "logicalTag TagTextRef = ''text''"
| "logicalTag TagBytesRef = ''bytes''"
| "logicalTag TagRef = ''ref''"
| "logicalTag TagBool = ''bool''"
| "logicalTag TagInt = ''int''"
| "logicalTag TagFloat = ''float''"
| "logicalTag TagText = ''text''"
| "logicalTag TagInstant = ''instant''"
| "logicalTag TagBytes = ''bytes''"
| "logicalTag TagVector = ''vector''"
| "logicalTag TagJSON = ''json''"

subsection \<open>Stored values\<close>

text \<open>A value of a SQLite column; \<open>SNull\<close> is also the storage of a reference before it is resolved.\<close>

datatype sval = SNull | SInt int | SReal f64 | SText string | SBlob string

record storedValue =
  sv_logical :: any
  sv_storage :: sval
  sv_blob :: "sval option"
  sv_hash :: string
  sv_tag :: tag

definition stored :: "any \<Rightarrow> sval \<Rightarrow> tag \<Rightarrow> storedValue" where
  "stored l s t = \<lparr>sv_logical = l, sv_storage = s, sv_blob = None, sv_hash = [], sv_tag = t\<rparr>"

definition indirect :: "any \<Rightarrow> string \<Rightarrow> tag \<Rightarrow> sval \<Rightarrow> storedValue" where
  "indirect l h t blob =
    \<lparr>sv_logical = l, sv_storage = SBlob h, sv_blob = Some blob, sv_hash = h, sv_tag = t\<rparr>"

definition indirectDigest :: "tag \<Rightarrow> string \<Rightarrow> string" where
  "indirectDigest t data =
    (let domain = (if t = TagVector then 7 else if t = TagTextRef then 8
                   else if t = TagBytesRef then 9 else (0 :: nat))
     in sha256 (char_of domain # data))"

definition validateInstantMicros :: "int \<Rightarrow> unit res" where
  "validateInstantMicros micros =
    check (\<not> (micros < minInstantMicros \<or> micros > maxInstantMicros)) ErrType"

definition instantStored :: "int \<Rightarrow> storedValue res" where
  "instantStored micros =
    res_bind (validateInstantMicros micros) (\<lambda>_. Inr (stored (AInt64 micros) (SInt micros) TagInstant))"

definition textStored :: "string \<Rightarrow> storedValue res" where
  "textStored value =
    (if \<not> ValidString value then fail ErrType
     else if length value > MaxValueBytes then fail ErrTooLarge
     else if length value > BlobThreshold then
       Inr (indirect (AStr value) (indirectDigest TagTextRef value) TagTextRef (SText value))
     else Inr (stored (AStr value) (SText value) TagText))"

definition bytesStored :: "string \<Rightarrow> storedValue res" where
  "bytesStored value =
    (if length value > MaxValueBytes then fail ErrTooLarge
     else if length value > BlobThreshold then
       Inr (indirect (AByteSlice value) (indirectDigest TagBytesRef value) TagBytesRef (SBlob value))
     else Inr (stored (AByteSlice value) (SBlob value) TagBytes))"

text \<open>\<^verbatim>\<open>binary.LittleEndian.PutUint32\<close> of every component's bits.\<close>

definition le_bytes :: "f32 \<Rightarrow> string" where
  "le_bytes w = [char_of (w mod 256), char_of (w div 256 mod 256),
                 char_of (w div 65536 mod 256), char_of (w div 16777216 mod 256)]"

definition vectorStored :: "f32 list \<Rightarrow> storedValue res" where
  "vectorStored value =
    (if value = [] then fail ErrType
     else if length value * 4 > MaxValueBytes then fail ErrTooLarge
     else if list_ex f32_nonfinite value then fail ErrType
     else let data = concat (map le_bytes value)
          in Inr (indirect (AF32s value) (indirectDigest TagVector data) TagVector (SBlob data)))"

definition jsonStored :: "any \<Rightarrow> storedValue res" where
  "jsonStored value =
    res_bind (plainJSON value) (\<lambda>plain.
    res_bind (validateJSON plain) (\<lambda>_.
    res_bind (canonicalJSON plain) (\<lambda>data.
      if length data > MaxValueBytes then fail ErrTooLarge
      else res_bind (decode_normalized data) (\<lambda>logical. Inr (stored logical (SText data) TagJSON)))))"

definition floatStored :: "f64 \<Rightarrow> storedValue res" where
  "floatStored value =
    (if IsNaN value \<or> IsInf value then fail ErrType
     else Inr (stored (AF64 value) (SReal value) TagFloat))"

subsection \<open>Instants\<close>

text \<open>
  Calendar arithmetic of \<^verbatim>\<open>time\<close>: days of the proleptic Gregorian calendar counted from 0001-01-01,
  which is day -719162 of the Unix epoch.
\<close>

definition leap_year :: "int \<Rightarrow> bool" where
  "leap_year y \<longleftrightarrow> y mod 4 = 0 \<and> (y mod 100 \<noteq> 0 \<or> y mod 400 = 0)"

definition days_in_month :: "int \<Rightarrow> nat \<Rightarrow> nat" where
  "days_in_month y m =
    (if m = 2 then (if leap_year y then 29 else 28) else if m \<in> {4, 6, 9, 11} then 30 else 31)"

definition days_before_year :: "int \<Rightarrow> int" where
  "days_before_year y = 365 * (y - 1) + (y - 1) div 4 - (y - 1) div 100 + (y - 1) div 400"

definition days_before_month :: "int \<Rightarrow> nat \<Rightarrow> nat" where
  "days_before_month y m = sum_list (map (days_in_month y) [1..<m])"

definition civil_to_micros :: "int \<Rightarrow> nat \<Rightarrow> nat \<Rightarrow> nat \<Rightarrow> nat \<Rightarrow> nat \<Rightarrow> nat \<Rightarrow> int" where
  "civil_to_micros y mo d h mi s us =
    (((days_before_year y + int (days_before_month y mo) + int d - 1 - 719162) * 24 + int h) * 60 + int mi)
      * 60000000 + int s * 1000000 + int us"

definition digits_at :: "string \<Rightarrow> nat \<Rightarrow> nat \<Rightarrow> nat" where
  "digits_at s i n = dec_val (take n (drop i s))"

definition frac_micros :: "string \<Rightarrow> nat" where
  "frac_micros ds = dec_val (take 6 (ds @ replicate 6 (CHR ''0'')))"

text \<open>
  \<^verbatim>\<open>parseRFC3339\<close>: the separators and digits that the code itself checks, then \<^verbatim>\<open>time.Parse\<close> with its
  field ranges (an offset may be written up to 24 hours and 60 minutes), giving UTC microseconds.
\<close>

definition zone_start :: "string \<Rightarrow> int" where
  "zone_start value =
    (if value = [] \<or> last value \<noteq> CHR ''Z'' then int (length value) - 6 else int (length value) - 1)"

definition char_at :: "string \<Rightarrow> nat \<Rightarrow> char" where
  "char_at s i = (if i < length s then s ! i else CHR 0x00)"

definition rfc3339_shape :: "string \<Rightarrow> bool" where
  "rfc3339_shape value =
    (let zs = zone_start value; z = nat zs; utc = (value \<noteq> [] \<and> last value = CHR ''Z'') in
     (utc \<or> (19 \<le> zs \<and> (char_at value z = CHR ''+'' \<or> char_at value z = CHR ''-'') \<and> char_at value (z + 3) = CHR '':''))
     \<and> 19 \<le> zs \<and> 20 \<le> length value \<and> char_at value 4 = CHR ''-'' \<and> char_at value 7 = CHR ''-''
     \<and> char_at value 10 = CHR ''T'' \<and> char_at value 13 = CHR '':'' \<and> char_at value 16 = CHR '':''
     \<and> list_all (\<lambda>i. if i \<in> {4, 7, 10, 13, 16} then True
                     else if i = 19 then char_at value i = CHR ''.''
                     else is_digit (char_at value i)) [0..<z]
     \<and> \<not> (zs = 20 \<or> (19 < zs \<and> char_at value 19 \<noteq> CHR ''.''))
     \<and> (utc \<or> list_all (\<lambda>i. is_digit (char_at value i)) [z + 1, z + 2, z + 4, z + 5]))"

definition zone_offset_seconds :: "string \<Rightarrow> nat \<Rightarrow> int" where
  "zone_offset_seconds value z =
    (let secs = int ((digits_at value (z + 1) 2 * 60 + digits_at value (z + 4) 2) * 60)
     in if char_at value z = CHR ''-'' then - secs else secs)"

definition parseRFC3339 :: "string \<Rightarrow> int option" where
  "parseRFC3339 value =
    (if \<not> rfc3339_shape value then None
     else let z = nat (zone_start value);
              y = int (digits_at value 0 4); mo = digits_at value 5 2; d = digits_at value 8 2;
              h = digits_at value 11 2; mi = digits_at value 14 2; s = digits_at value 17 2;
              us = (if 19 < z then frac_micros (take (z - 20) (drop 20 value)) else 0);
              utc = (last value = CHR ''Z'')
          in if 1 \<le> mo \<and> mo \<le> 12 \<and> 1 \<le> d \<and> d \<le> days_in_month y mo \<and> h \<le> 23 \<and> mi \<le> 59 \<and> s \<le> 59
                \<and> (utc \<or> (digits_at value (z + 1) 2 \<le> 24 \<and> digits_at value (z + 4) 2 \<le> 60))
             then Some (civil_to_micros y mo d h mi s us
                        - (if utc then 0 else zone_offset_seconds value z) * 1000000)
             else None)"

text \<open>The civil date of a day number, by 400-, 100-, 4- and 1-year cycles.\<close>

definition year_of_days :: "int \<Rightarrow> int \<times> nat" where
  "year_of_days d =
    (let n400 = d div 146097; r1 = d mod 146097;
         n100 = min 3 (r1 div 36524); r2 = r1 - n100 * 36524;
         n4 = r2 div 1461; r3 = r2 mod 1461;
         n1 = min 3 (r3 div 365)
     in (400 * n400 + 100 * n100 + 4 * n4 + n1 + 1, nat (r3 - n1 * 365)))"

fun month_of_day :: "nat list \<Rightarrow> nat \<Rightarrow> nat \<Rightarrow> nat \<times> nat" where
  "month_of_day [] m d = (m, d)"
| "month_of_day (n # ns) m d = (if d < n then (m, d) else month_of_day ns (m + 1) (d - n))"

definition pad :: "nat \<Rightarrow> nat \<Rightarrow> string" where
  "pad n x = replicate (n - length (dec_digits x)) (CHR ''0'') @ dec_digits x"

definition formatInstant :: "int \<Rightarrow> string" where
  "formatInstant micros =
    (let day = micros div 86400000000; t = nat (micros mod 86400000000);
         (y, yd) = year_of_days (day + 719162);
         (mo, d) = month_of_day (map (days_in_month y) [1..<13]) 1 yd
     in pad 4 (nat y) @ ''-'' @ pad 2 mo @ ''-'' @ pad 2 (d + 1) @ ''T''
        @ pad 2 (t div 3600000000) @ '':'' @ pad 2 (t div 60000000 mod 60) @ '':''
        @ pad 2 (t div 1000000 mod 60) @ ''.'' @ pad 6 (t mod 1000000) @ ''Z'')"

subsection \<open>Inputs\<close>

definition vector_component :: "any \<Rightarrow> f32 res" where
  "vector_component item =
    res_bind (case item of ANum KInt64 n \<Rightarrow> Inr (f64_of_int n) | AF64 f \<Rightarrow> Inr f | _ \<Rightarrow> fail ErrType)
      (\<lambda>f. if IsNaN f \<or> IsInf f \<or> IsInf (f64_of_f32 (f32_of_f64 f)) then fail ErrType
           else Inr (f32_of_f64 f))"

definition wrappedValue :: "string \<Rightarrow> any \<Rightarrow> storedValue res" where
  "wrappedValue name value =
    (if name = ''ref'' then Inr (stored (ARef value) SNull TagRef)
     else if name = ''instant'' then
       (case value of
          ANum KInt64 n \<Rightarrow> instantStored n
        | AStr s \<Rightarrow> (case parseRFC3339 s of None \<Rightarrow> fail ErrType | Some micros \<Rightarrow> instantStored micros)
        | _ \<Rightarrow> fail ErrType)
     else if name = ''bytes'' then
       (case value of
          AStr s \<Rightarrow> (case DecodeBase64 s of None \<Rightarrow> fail ErrType | Some data \<Rightarrow> bytesStored data)
        | _ \<Rightarrow> fail ErrType)
     else if name = ''vector'' then
       (case value of
          AList items \<Rightarrow> res_bind (res_map vector_component items) vectorStored
        | _ \<Rightarrow> fail ErrType)
     else if name = ''json'' then jsonStored value
     else fail ErrType)"

definition scalarValue :: "any \<Rightarrow> storedValue res" where
  "scalarValue input =
    (case objectFields input of
       Some fs \<Rightarrow> (case fs of [(name, value)] \<Rightarrow> wrappedValue name value | _ \<Rightarrow> fail ErrType)
     | None \<Rightarrow>
      (case input of
         ARef t \<Rightarrow> Inr (stored (ARef t) SNull TagRef)
       | AInstant micros \<Rightarrow> instantStored micros
       | ABytesValue b \<Rightarrow> bytesStored b
       | AByteSlice b \<Rightarrow> bytesStored b
       | AVector v \<Rightarrow> vectorStored v
       | AF32s v \<Rightarrow> vectorStored v
       | AJSON v \<Rightarrow> jsonStored v
       | ABool b \<Rightarrow> Inr (stored (ABool b) (SInt (if b then 1 else 0)) TagBool)
       | ANum k n \<Rightarrow>
          if wide_unsigned k \<and> n > MaxInt64 then fail ErrType
          else Inr (stored (AInt64 n) (SInt n) TagInt)
       | AF32 w \<Rightarrow> floatStored (f64_of_f32 w)
       | AF64 w \<Rightarrow> floatStored w
       | AStr s \<Rightarrow> textStored s
       | ATime micros \<Rightarrow> instantStored micros
       | _ \<Rightarrow> fail ErrType))"

definition isValueWrapper :: "string \<Rightarrow> bool" where
  "isValueWrapper name \<longleftrightarrow>
    name \<in> set [''ref'', ''instant'', ''bytes'', ''vector'', ''json'', ''tmp'']"

subsection \<open>Comparing stored values (transact.go)\<close>

fun asInt64 :: "sval \<Rightarrow> int" where
  "asInt64 (SInt n) = n"
| "asInt64 _ = 0"

definition sqliteBool :: "sval \<Rightarrow> bool" where
  "sqliteBool v \<longleftrightarrow> asInt64 v \<noteq> 0"

text \<open>\<^verbatim>\<open>reflect.DeepEqual\<close> on two column values compares floats with \<^verbatim>\<open>==\<close>.\<close>

fun storageEqual :: "sval \<Rightarrow> sval \<Rightarrow> bool" where
  "storageEqual (SReal x) (SReal y) \<longleftrightarrow> f64_eq x y"
| "storageEqual x y \<longleftrightarrow> x = y"

definition storedEqual :: "storedValue \<Rightarrow> storedValue \<Rightarrow> bool" where
  "storedEqual l r \<longleftrightarrow> sv_tag l = sv_tag r \<and> storageEqual (sv_storage l) (sv_storage r)"

definition vectorDimensions :: "storedValue \<Rightarrow> int res" where
  "vectorDimensions v = (case sv_logical v of AF32s fs \<Rightarrow> Inr (int (length fs)) | _ \<Rightarrow> fail ErrType)"

end
