(* ===== verification/Store.thy ===== *)
theory Store
  imports Values
begin

text \<open>
  The store (store.go, event.go): the tables of the SQLite file as a record of row lists, the name cache,
  names, UUIDs, the genesis transaction, and the identity allocator. A SQL statement of the source is a
  function on the record, with the constraints that \<^verbatim>\<open>schemaSQL\<close> declares as its failures (\<open>External\<close>).
  SQLite compares the integer and real classes numerically and never equates the others.
\<close>

definition GenesisTx :: int where "GenesisTx = 64"
definition FirstUserID :: int where "FirstUserID = 65"
definition maxPortableLineBytes :: nat where "maxPortableLineBytes = 8 * MaxValueBytes + 64 * 1024"

subsection \<open>Tables\<close>

record idRow =
  id_id :: int
  id_name :: "string option"
  id_gid :: "string option"
  id_created :: int

record eventRow =
  ev_tx :: int
  ev_hash :: string
  ev_data :: "string option"
  ev_op :: "string option"
  ev_req :: "string option"

record rawFact =
  rf_id :: int
  rf_e :: int
  rf_a :: int
  rf_v :: sval
  rf_t :: tag
  rf_tx :: int
  rf_rx :: "int option"

text \<open>\<open>tb_seq\<close> is the AUTOINCREMENT counter of \<^verbatim>\<open>fgraph_facts\<close>, \<open>tb_next_id\<close> the \<^verbatim>\<open>next_id\<close> row of \<^verbatim>\<open>fgraph_meta\<close>.\<close>

record tables =
  tb_next_id :: "int option"
  tb_created_at :: int
  tb_ids :: "idRow list"
  tb_events :: "eventRow list"
  tb_facts :: "rawFact list"
  tb_blobs :: "(string \<times> sval) list"
  tb_fts :: "(int \<times> string) list"
  tb_seq :: int

definition live :: "rawFact \<Rightarrow> bool" where
  "live f \<longleftrightarrow> rf_rx f = None"

fun sql_eq :: "sval \<Rightarrow> sval \<Rightarrow> bool" where
  "sql_eq SNull _ \<longleftrightarrow> False"
| "sql_eq _ SNull \<longleftrightarrow> False"
| "sql_eq (SReal x) (SReal y) \<longleftrightarrow> f64_eq x y"
| "sql_eq (SInt n) (SReal y) \<longleftrightarrow> \<not> IsNaN y \<and> \<not> IsInf y \<and> f64_rat y = of_int n"
| "sql_eq (SReal x) (SInt n) \<longleftrightarrow> \<not> IsNaN x \<and> \<not> IsInf x \<and> f64_rat x = of_int n"
| "sql_eq x y \<longleftrightarrow> x = y"

text \<open>\<^verbatim>\<open>INSERT INTO fgraph_ids\<close> under its primary key, its two UNIQUE columns and its CHECKs.\<close>

definition id_row_ok :: "idRow \<Rightarrow> bool" where
  "id_row_ok r \<longleftrightarrow> (id_name r = None) \<noteq> (id_gid r = None)
     \<and> (case id_gid r of None \<Rightarrow> True | Some g \<Rightarrow> length g = 16) \<and> id_created r \<ge> 64"

definition insert_id :: "idRow \<Rightarrow> tables \<Rightarrow> tables res" where
  "insert_id r tb =
    (if id_row_ok r \<and> id_id r \<notin> set (map id_id (tb_ids tb))
        \<and> (id_name r = None \<or> id_name r \<notin> set (map id_name (tb_ids tb)))
        \<and> (id_gid r = None \<or> id_gid r \<notin> set (map id_gid (tb_ids tb)))
     then Inr (tb\<lparr>tb_ids := tb_ids tb @ [r]\<rparr>) else Inl External)"

text \<open>
  \<^verbatim>\<open>INSERT INTO fgraph_facts\<close>: the column \<^verbatim>\<open>v\<close> is NOT NULL, where SQLite takes a NaN for NULL, and the live rows
  are unique in \<^verbatim>\<open>(e, a, v, t)\<close>. The new row takes the next AUTOINCREMENT id.
\<close>

fun sql_null :: "sval \<Rightarrow> bool" where
  "sql_null SNull \<longleftrightarrow> True"
| "sql_null (SReal x) \<longleftrightarrow> IsNaN x"
| "sql_null _ \<longleftrightarrow> False"

definition insert_fact_row :: "int \<Rightarrow> int \<Rightarrow> sval \<Rightarrow> tag \<Rightarrow> int \<Rightarrow> tables \<Rightarrow> (int \<times> tables) res" where
  "insert_fact_row e a v t tx tb =
    (if \<not> sql_null v \<and> \<not> list_ex (\<lambda>f. live f \<and> rf_e f = e \<and> rf_a f = a \<and> sql_eq (rf_v f) v \<and> rf_t f = t) (tb_facts tb)
     then let i = tb_seq tb + 1 in
       Inr (i, tb\<lparr>tb_facts := tb_facts tb @
                   [\<lparr>rf_id = i, rf_e = e, rf_a = a, rf_v = v, rf_t = t, rf_tx = tx, rf_rx = None\<rparr>],
                 tb_seq := i\<rparr>)
     else Inl External)"

definition insert_blob :: "string \<Rightarrow> sval \<Rightarrow> tables \<Rightarrow> tables" where
  "insert_blob h d tb =
    (if h \<in> set (map fst (tb_blobs tb)) then tb else tb\<lparr>tb_blobs := tb_blobs tb @ [(h, d)]\<rparr>)"

definition insert_fts :: "int \<Rightarrow> string \<Rightarrow> tables \<Rightarrow> tables res" where
  "insert_fts i text tb =
    (if i \<in> set (map fst (tb_fts tb)) then Inl External else Inr (tb\<lparr>tb_fts := tb_fts tb @ [(i, text)]\<rparr>))"

definition event_row_ok :: "eventRow \<Rightarrow> bool" where
  "event_row_ok r \<longleftrightarrow> length (ev_hash r) = 32 \<and> (ev_op r = None) = (ev_req r = None)
     \<and> (case ev_req r of None \<Rightarrow> True | Some h \<Rightarrow> length h = 32)"

definition insert_event :: "eventRow \<Rightarrow> tables \<Rightarrow> tables res" where
  "insert_event r tb =
    (if event_row_ok r \<and> ev_tx r \<notin> set (map ev_tx (tb_events tb))
        \<and> (ev_op r = None \<or> ev_op r \<notin> set (map ev_op (tb_events tb)))
     then Inr (tb\<lparr>tb_events := tb_events tb @ [r]\<rparr>) else Inl External)"

definition delete_fact :: "int \<Rightarrow> tables \<Rightarrow> tables" where
  "delete_fact i tb = tb\<lparr>tb_facts := filter (\<lambda>f. rf_id f \<noteq> i) (tb_facts tb)\<rparr>"

definition retract_fact :: "int \<Rightarrow> int \<Rightarrow> tables \<Rightarrow> tables res" where
  "retract_fact tx i tb =
    (if list_all (\<lambda>f. rf_id f = i \<and> live f \<longrightarrow> rf_tx f < tx) (tb_facts tb)
     then Inr (tb\<lparr>tb_facts := map (\<lambda>f. if rf_id f = i \<and> live f then f\<lparr>rf_rx := Some tx\<rparr> else f) (tb_facts tb)\<rparr>)
     else Inl External)"

definition delete_fts :: "int \<Rightarrow> tables \<Rightarrow> tables" where
  "delete_fts i tb = tb\<lparr>tb_fts := filter (\<lambda>(j, _). j \<noteq> i) (tb_fts tb)\<rparr>"

definition indirect_tag :: "tag \<Rightarrow> bool" where
  "indirect_tag t \<longleftrightarrow> t = TagVector \<or> t = TagTextRef \<or> t = TagBytesRef"

definition gc_blob :: "string \<Rightarrow> tables \<Rightarrow> tables" where
  "gc_blob h tb =
    (if list_ex (\<lambda>f. indirect_tag (rf_t f) \<and> rf_v f = SBlob h) (tb_facts tb) then tb
     else tb\<lparr>tb_blobs := filter (\<lambda>(k, _). k \<noteq> h) (tb_blobs tb)\<rparr>)"

definition find_name :: "string \<Rightarrow> tables \<Rightarrow> int option" where
  "find_name name tb = map_option id_id (find (\<lambda>r. id_name r = Some name) (tb_ids tb))"

definition find_id :: "int \<Rightarrow> tables \<Rightarrow> idRow option" where
  "find_id i tb = find (\<lambda>r. id_id r = i) (tb_ids tb)"

definition find_gid :: "string \<Rightarrow> tables \<Rightarrow> int option" where
  "find_gid g tb = map_option id_id (find (\<lambda>r. id_gid r = Some g) (tb_ids tb))"

subsection \<open>Names\<close>

definition systemNames :: "string list" where
  "systemNames =
    ['''', ''fgraph/at'', ''fgraph/by'', ''fgraph/source'', ''fgraph/meta'', ''fgraph/many'',
     ''fgraph/unique'', ''fgraph/nohistory'', ''fgraph/type'', ''fgraph/dims'', ''fgraph/doc'',
     ''fgraph/excised'', ''fgraph/undoes'', ''fgraph/imported-at'', ''fgraph/vector-model'',
     ''fgraph/shape'', ''fgraph/shape-required'', ''fgraph/shape-allowed'', ''fgraph/shape-closed'']"

definition systemTypes :: "string list" where
  "systemTypes =
    ['''', ''instant'', ''text'', ''text'', ''json'', ''bool'', ''bool'', ''bool'', ''text'', ''int'',
     ''text'', ''ref'', ''ref'', ''instant'', ''text'', ''ref'', ''ref'', ''ref'', ''bool'']"

definition systemDocs :: "string list" where
  "systemDocs =
    ['''',
     ''Wall-clock time of the transaction (UTC microseconds).'',
     ''Author of the transaction (person or agent).'',
     ''Provenance of the transaction (document, conversation, tool).'',
     ''Free-form JSON metadata on the transaction.'',
     ''Schema: attribute holds multiple values per entity.'',
     ''Schema: live values of this attribute are unique; enables upsert.'',
     ''Schema: superseded values are deleted instead of kept as history.'',
     ''Schema: enforced value type (bool,int,float,text,instant,bytes,vector,json,ref).'',
     ''Schema: vector dimensions for vector attributes.'',
     ''Schema: human/agent documentation for an attribute.'',
     ''Audit marker: entity was physically excised at this transaction.'',
     ''Audit marker: this transaction undoes another transaction.'',
     ''Original source timestamp retained when an import rebases transaction time.'',
     ''Schema: opaque identity of the embedding model used by a vector attribute.'',
     ''Validation: shape assigned to an entity.'',
     ''Validation: attribute required by a shape.'',
     ''Validation: attribute allowed by a closed shape.'',
     ''Validation: reject application attributes not allowed by the shape.'']"

definition attr_first :: "char \<Rightarrow> bool" where
  "attr_first c \<longleftrightarrow> is_digit c \<or> (97 \<le> byte_of c \<and> byte_of c \<le> 122)"

definition attr_rest :: "char \<Rightarrow> bool" where
  "attr_rest c \<longleftrightarrow> attr_first c \<or> c = CHR ''.'' \<or> c = CHR ''_'' \<or> c = CHR ''-''"

definition attr_segment :: "string \<Rightarrow> bool" where
  "attr_segment s = (case s of [] \<Rightarrow> False | c # r \<Rightarrow> attr_first c \<and> list_all attr_rest r)"

text \<open>\<^verbatim>\<open>^[a-z0-9][a-z0-9._-]*/[a-z0-9][a-z0-9._-]*$\<close>\<close>

definition attributePattern :: "string \<Rightarrow> bool" where
  "attributePattern s =
    (case dropWhile (\<lambda>c. c \<noteq> CHR ''/'') s of
       [] \<Rightarrow> False
     | _ # r \<Rightarrow> attr_segment (takeWhile (\<lambda>c. c \<noteq> CHR ''/'') s) \<and> attr_segment r)"

definition validateName :: "string \<Rightarrow> bool \<Rightarrow> unit res" where
  "validateName name attribute =
    (if \<not> ValidString name \<or> length name < 1 \<or> length name > 512 then fail ErrType
     else if hasControl name then fail ErrType
     else if attribute \<and> \<not> attributePattern name then fail ErrSchema
     else if take 7 name = ''fgraph/'' then
       (if name \<in> set systemNames then Inr () else fail ErrSchema)
     else Inr ())"

definition validateOperationID :: "string \<Rightarrow> unit res" where
  "validateOperationID value =
    (if length value = 0 \<or> length value > 512 \<or> \<not> ValidString value then fail ErrType
     else if hasControl value then fail ErrType
     else Inr ())"

subsection \<open>UUIDs and events\<close>

definition genesisEventID :: string where
  "genesisEventID = ''00000000-0000-4000-8000-000000000040''"

definition formatUUID :: "string \<Rightarrow> string" where
  "formatUUID i =
    (let raw = EncodeHex i
     in take 8 raw @ ''-'' @ take 4 (drop 8 raw) @ ''-'' @ take 4 (drop 12 raw) @ ''-''
        @ take 4 (drop 16 raw) @ ''-'' @ drop 20 raw)"

definition has_upper :: "string \<Rightarrow> bool" where
  "has_upper s \<longleftrightarrow> list_ex (\<lambda>c. 65 \<le> byte_of c \<and> byte_of c \<le> 90) s"

definition parseUUID :: "string \<Rightarrow> string res" where
  "parseUUID value =
    (if length value \<noteq> 36 \<or> value ! 8 \<noteq> CHR ''-'' \<or> value ! 13 \<noteq> CHR ''-'' \<or> value ! 18 \<noteq> CHR ''-''
        \<or> value ! 23 \<noteq> CHR ''-'' \<or> has_upper value then fail ErrType
     else case DecodeHex (filter (\<lambda>c. c \<noteq> CHR ''-'') value) of
       None \<Rightarrow> wrap ErrType (Some External)
     | Some d \<Rightarrow> if length d \<noteq> 16 then wrap ErrType None else Inr d)"

text \<open>Setting the version and variant bits of bytes 6 and 8.\<close>

definition uuid_version4 :: "string \<Rightarrow> string" where
  "uuid_version4 i =
    i[6 := char_of (byte_of (i ! 6) mod 16 + 64), 8 := char_of (byte_of (i ! 8) mod 64 + 128)]"

definition deterministicEventID :: "string \<Rightarrow> int \<Rightarrow> string" where
  "deterministicEventID seed tx =
    formatUUID (uuid_version4 (take 16 (sha256
      (''fgraph-event/1'' @ [CHR 0x00] @ seed @ [CHR 0x00] @ FormatInt tx))))"

text \<open>
  What a transaction takes from outside: the clock, the event-id factory (\<^verbatim>\<open>WithEventIDFactory\<close> or the
  random source), the seed of \<^verbatim>\<open>FGRAPH_EVENT_SEED\<close>, and the UUIDv5 of \<^verbatim>\<open>github.com/google/uuid\<close>.
\<close>

record env =
  en_clock :: int
  en_eventIDs :: "string res"
  en_eventSeed :: "string option"
  en_uuid5 :: "string \<Rightarrow> nat \<Rightarrow> string"

definition nextEventID :: "env \<Rightarrow> int \<Rightarrow> string res" where
  "nextEventID en tx =
    (case en_eventSeed en of Some seed \<Rightarrow> Inr (deterministicEventID seed tx) | None \<Rightarrow> en_eventIDs en)"

definition canonicalEventData :: "any \<Rightarrow> (string \<times> string) res" where
  "canonicalEventData rec =
    (case canonicalJSON rec of
       Inl e \<Rightarrow> wrap ErrFormat (Some e)
     | Inr encoded \<Rightarrow>
        if length encoded > maxPortableLineBytes then fail ErrTooLarge
        else Inr (encoded, sha256 encoded))"

definition genesisEventRecord :: "int \<Rightarrow> any" where
  "genesisEventRecord now =
    AMap [(''fgraph'', AStr ''event/1''), (''event'', AStr genesisEventID), (''at'', AInt64 now),
          (''created'', AList (map AStr (drop 1 systemNames))), (''asserted'', AList []),
          (''retracted'', AList [])]"

definition genesisEventData :: "int \<Rightarrow> (string \<times> string) res" where
  "genesisEventData now = canonicalEventData (genesisEventRecord now)"

subsection \<open>The store and its name cache\<close>

text \<open>
  \<open>st_version\<close> is what \<^verbatim>\<open>PRAGMA data_version\<close> answers on this connection: it changes when another
  connection commits, and never equals the marker -1 that the code stores to force a reload.
\<close>

record store =
  st_tables :: tables
  st_names :: "(string \<times> int) list"
  st_idNames :: "(int \<times> string) list"
  st_gids :: "(int \<times> string) list"
  st_dataVersion :: int
  st_version :: int
  st_readOnly :: bool
  st_closed :: bool

definition cache_names :: "tables \<Rightarrow> (string \<times> int) list" where
  "cache_names tb = concat (map (\<lambda>r. case id_name r of None \<Rightarrow> [] | Some n \<Rightarrow> [(n, id_id r)])
                                (sort_key id_id (tb_ids tb)))"

definition cache_idNames :: "tables \<Rightarrow> (int \<times> string) list" where
  "cache_idNames tb = map (\<lambda>(n, i). (i, n)) (cache_names tb)"

definition cache_gids :: "tables \<Rightarrow> (int \<times> string) list" where
  "cache_gids tb = concat (map (\<lambda>r. case (id_name r, id_gid r) of
                                      (None, Some g) \<Rightarrow> [(id_id r, formatUUID g)] | _ \<Rightarrow> [])
                               (sort_key id_id (tb_ids tb)))"

definition refreshNames :: "store \<Rightarrow> store res" where
  "refreshNames s =
    (if st_version s = st_dataVersion s \<and> st_names s \<noteq> [] then Inr s
     else if list_ex (\<lambda>r. id_name r = None \<and> (case id_gid r of None \<Rightarrow> True | Some g \<Rightarrow> length g \<noteq> 16))
               (tb_ids (st_tables s)) then fail ErrFormat
     else Inr (s\<lparr>st_names := cache_names (st_tables s), st_idNames := cache_idNames (st_tables s),
                 st_gids := cache_gids (st_tables s), st_dataVersion := st_version s\<rparr>))"

subsection \<open>The identity allocator\<close>

datatype identityKind = IdentityAnonymous | IdentityNamed | IdentityEvent

record pendingIdentity =
  pi_name :: string
  pi_id :: int
  pi_kind :: identityKind

record allocator =
  al_ids :: "(string \<times> int) list"
  al_gids :: "(int \<times> string) list"
  al_pending :: "pendingIdentity list"
  al_first :: int
  al_next :: int
  al_dirty :: bool

definition newAllocator :: "tables \<Rightarrow> allocator res" where
  "newAllocator tb =
    (case tb_next_id tb of
       None \<Rightarrow> wrap ErrFormat (Some External)
     | Some n \<Rightarrow>
        if n < FirstUserID then fail ErrFormat
        else Inr \<lparr>al_ids = [], al_gids = [], al_pending = [], al_first = n, al_next = n, al_dirty = False\<rparr>)"

definition allocate :: "identityKind \<Rightarrow> string \<Rightarrow> allocator \<Rightarrow> (int \<times> allocator) res" where
  "allocate kind name a =
    (if al_next a = MaxInt64 then fail ErrTooLarge
     else Inr (al_next a,
       a\<lparr>al_next := i64_add (al_next a) 1, al_dirty := True,
         al_pending := al_pending a @ [\<lparr>pi_name = name, pi_id = al_next a, pi_kind = kind\<rparr>]\<rparr>))"

definition anonymous :: "allocator \<Rightarrow> (int \<times> allocator) res" where
  "anonymous = allocate IdentityAnonymous []"

definition alloc_tx :: "allocator \<Rightarrow> (int \<times> allocator) res" where
  "alloc_tx = allocate IdentityEvent []"

text \<open>\<^verbatim>\<open>allocator.name\<close>: \<open>None\<close> is the answer \<^verbatim>\<open>(0, false, nil)\<close> of a name that is not to be created.\<close>

definition alloc_name :: "store \<Rightarrow> string \<Rightarrow> bool \<Rightarrow> bool \<Rightarrow> allocator \<Rightarrow> (int option \<times> allocator) res" where
  "alloc_name s name attribute create a =
    res_bind (validateName name attribute) (\<lambda>_.
      case map_of (al_ids a) name of
        Some i \<Rightarrow> Inr (Some i, a)
      | None \<Rightarrow>
       (case map_of (st_names s) name of
          Some i \<Rightarrow> Inr (Some i, a)
        | None \<Rightarrow>
         (case find_name name (st_tables s) of
            Some i \<Rightarrow> Inr (Some i, a)
          | None \<Rightarrow>
             if \<not> create then Inr (None, a)
             else res_bind (allocate IdentityNamed name a) (\<lambda>(i, a').
                    Inr (Some i, a'\<lparr>al_ids := AList.update name i (al_ids a')\<rparr>)))))"

text \<open>One pending identity becomes a row of the registry; \<open>ordinal\<close> counts the named and anonymous ones.\<close>

definition finalize_one ::
    "env \<Rightarrow> int \<Rightarrow> string \<Rightarrow> pendingIdentity \<Rightarrow> store \<times> allocator \<times> nat \<Rightarrow> (store \<times> allocator \<times> nat) res" where
  "finalize_one en tx event p = (\<lambda>(s, a, ordinal).
    case pi_kind p of
      IdentityNamed \<Rightarrow>
       (case insert_id \<lparr>id_id = pi_id p, id_name = Some (pi_name p), id_gid = None, id_created = tx\<rparr> (st_tables s) of
          Inl e \<Rightarrow> wrap ErrFormat (Some e)
        | Inr tb \<Rightarrow>
           Inr (s\<lparr>st_tables := tb, st_names := AList.update (pi_name p) (pi_id p) (st_names s),
                  st_idNames := AList.update (pi_id p) (pi_name p) (st_idNames s)\<rparr>, a, ordinal + 1))
    | IdentityAnonymous \<Rightarrow>
       res_bind (case map_of (al_gids a) (pi_id p) of
                   None \<Rightarrow> Inr (en_uuid5 en event ordinal)
                 | Some requested \<Rightarrow>
                    (case parseUUID requested of Inl e \<Rightarrow> wrap ErrType (Some e) | Inr g \<Rightarrow> Inr g))
         (\<lambda>gid.
           case insert_id \<lparr>id_id = pi_id p, id_name = None, id_gid = Some gid, id_created = tx\<rparr> (st_tables s) of
             Inl e \<Rightarrow> wrap ErrFormat (Some e)
           | Inr tb \<Rightarrow>
              Inr (s\<lparr>st_tables := tb, st_gids := AList.update (pi_id p) (formatUUID gid) (st_gids s)\<rparr>,
                   a\<lparr>al_gids := AList.update (pi_id p) (formatUUID gid) (al_gids a)\<rparr>, ordinal + 1))
    | IdentityEvent \<Rightarrow>
       if pi_id p \<noteq> tx then fail ErrFormat
       else (case insert_id \<lparr>id_id = tx, id_name = None, id_gid = Some event, id_created = tx\<rparr> (st_tables s) of
          Inl e \<Rightarrow> wrap ErrFormat (Some e)
        | Inr tb \<Rightarrow>
           Inr (s\<lparr>st_tables := tb, st_gids := AList.update tx (formatUUID event) (st_gids s)\<rparr>,
                a\<lparr>al_gids := AList.update tx (formatUUID event) (al_gids a)\<rparr>, ordinal)))"

definition finalize :: "env \<Rightarrow> int \<Rightarrow> string \<Rightarrow> store \<Rightarrow> allocator \<Rightarrow> (store \<times> allocator) res" where
  "finalize en tx event s a =
    res_bind (res_fold (finalize_one en tx event) (al_pending a) (s, a, 0)) (\<lambda>(s', a', _). Inr (s', a'))"

definition flush :: "allocator \<Rightarrow> tables \<Rightarrow> tables" where
  "flush a tb = (if al_dirty a then tb\<lparr>tb_next_id := map_option (\<lambda>_. al_next a) (tb_next_id tb)\<rparr> else tb)"

subsection \<open>Initialisation\<close>

definition res_wrap :: "errkind \<Rightarrow> 'a res \<Rightarrow> 'a res" where
  "res_wrap k m = (case m of Inl e \<Rightarrow> Inl (Wrap k e) | Inr x \<Rightarrow> Inr x)"

definition ApplicationID :: int where "ApplicationID = 1718055521"
definition FormatVersion :: int where "FormatVersion = 2"

definition empty_tables :: "int \<Rightarrow> tables" where
  "empty_tables now =
    \<lparr>tb_next_id = Some 65, tb_created_at = now, tb_ids = [], tb_events = [], tb_facts = [], tb_blobs = [],
     tb_fts = [], tb_seq = 0\<rparr>"

definition genesis_name :: "nat \<Rightarrow> tables \<Rightarrow> tables res" where
  "genesis_name i tb = res_wrap ErrFormat
     (insert_id \<lparr>id_id = int i, id_name = Some (systemNames ! i), id_gid = None, id_created = GenesisTx\<rparr> tb)"

definition genesis_text :: "int \<Rightarrow> string list \<Rightarrow> nat \<Rightarrow> tables \<Rightarrow> tables res" where
  "genesis_text a texts i tb =
    res_bind (res_wrap ErrFormat (insert_fact_row (int i) a (SText (texts ! i)) TagText GenesisTx tb)) (\<lambda>(f, tb').
      res_wrap ErrFormat (insert_fts f (texts ! i) tb'))"

definition genesis_many :: "int \<Rightarrow> tables \<Rightarrow> tables res" where
  "genesis_many i tb =
    res_bind (res_wrap ErrFormat (insert_fact_row i 5 (SInt 1) TagBool GenesisTx tb)) (\<lambda>(_, tb'). Inr tb')"

text \<open>
  \<^verbatim>\<open>initializeTransaction\<close> on a pristine file: metadata, the eighteen system names, the genesis event
  identity and its timestamp, the type and documentation of every system name, the two many
  declarations, and the receipt of the genesis event.
\<close>

definition initializeTransaction :: "int \<Rightarrow> tables res" where
  "initializeTransaction now =
    res_bind (validateInstantMicros now) (\<lambda>_.
    res_bind (res_fold genesis_name [1..<length systemNames] (empty_tables now)) (\<lambda>tb1.
    res_bind (case parseUUID genesisEventID of Inl e \<Rightarrow> wrap ErrFormat (Some e) | Inr g \<Rightarrow> Inr g) (\<lambda>genesisUUID.
    res_bind (res_wrap ErrFormat (insert_id
       \<lparr>id_id = GenesisTx, id_name = None, id_gid = Some genesisUUID, id_created = GenesisTx\<rparr> tb1)) (\<lambda>tb2.
    res_bind (res_wrap ErrFormat (insert_fact_row 64 1 (SInt now) TagInstant 64 tb2)) (\<lambda>(_, tb3).
    res_bind (res_fold (genesis_text 8 systemTypes) [1..<length systemTypes] tb3) (\<lambda>tb4.
    res_bind (res_fold (genesis_text 10 systemDocs) [1..<length systemDocs] tb4) (\<lambda>tb5.
    res_bind (res_fold genesis_many [16, 17] tb5) (\<lambda>tb6.
    res_bind (genesisEventData now) (\<lambda>(genesisData, genesisHash).
    res_wrap ErrFormat (insert_event
      \<lparr>ev_tx = GenesisTx, ev_hash = genesisHash, ev_data = Some genesisData, ev_op = None, ev_req = None\<rparr>
      tb6))))))))))"

text \<open>
  The format markers of the file: \<^verbatim>\<open>PRAGMA application_id\<close>, \<^verbatim>\<open>PRAGMA user_version\<close>, the number of objects,
  and whether the layout is the one \<^verbatim>\<open>validateSchemaLayout\<close> accepts.
\<close>

record fileMarks =
  fl_app :: int
  fl_version :: int
  fl_objects :: int
  fl_layout :: "unit res"

definition recheckInitialization :: "fileMarks \<Rightarrow> bool res" where
  "recheckInitialization f =
    (if fl_app f = ApplicationID \<and> fl_version f = FormatVersion then
       res_bind (fl_layout f) (\<lambda>_. Inr True)
     else if fl_app f \<noteq> 0 \<or> fl_version f \<noteq> 0 then fail ErrFormat
     else if fl_objects f > 0 then fail ErrFormat
     else Inr False)"

text \<open>\<^verbatim>\<open>checkOrInit\<close>: \<open>None\<close> keeps the file as it is, \<open>Some tb\<close> is the freshly initialised one.\<close>

definition checkOrInit :: "bool \<Rightarrow> fileMarks \<Rightarrow> int \<Rightarrow> tables option res" where
  "checkOrInit readOnly f now =
    (if fl_app f = ApplicationID \<and> fl_version f = FormatVersion then
       res_bind (fl_layout f) (\<lambda>_. Inr None)
     else if fl_app f \<noteq> 0 \<or> fl_version f \<noteq> 0 then fail ErrFormat
     else if fl_objects f > 0 then fail ErrFormat
     else if readOnly then fail ErrReadOnly
     else res_bind (recheckInitialization f) (\<lambda>initialized.
            if initialized then Inr None else res_bind (initializeTransaction now) (\<lambda>tb. Inr (Some tb))))"

text \<open>A database handle: the store it shares and the basis of a historical view.\<close>

record db =
  db_store :: store
  db_asOf :: "int option"

definition checkUsable :: "bool \<Rightarrow> db \<Rightarrow> unit res" where
  "checkUsable write d =
    (if st_closed (db_store d) then fail ErrFormat
     else if write \<and> (st_readOnly (db_store d) \<or> db_asOf d \<noteq> None) then fail ErrReadOnly
     else Inr ())"

abbreviation db_tables :: "db \<Rightarrow> tables" where
  "db_tables d \<equiv> st_tables (db_store d)"

end
