(* ===== verification/Reads.thy ===== *)
theory Reads
  imports Store
begin

text \<open>
  Reading facts (read.go, the read half of transact.go, maintenance.go): which rows a view sees, the
  logical value of a stored column with every integrity check of the code, rendering, and the attribute
  schema that the live facts of an attribute declare.
\<close>

subsection \<open>Views\<close>

text \<open>\<^verbatim>\<open>visibility\<close>: the SQL condition of a current or historical view.\<close>

definition visible :: "int option \<Rightarrow> rawFact \<Rightarrow> bool" where
  "visible asOf f =
    (case asOf of
       None \<Rightarrow> rf_rx f = None
     | Some t \<Rightarrow> rf_tx f \<le> t \<and> (case rf_rx f of None \<Rightarrow> True | Some rx \<Rightarrow> rx > t))"

text \<open>\<^verbatim>\<open>SELECT ... FROM fgraph_facts WHERE ... ORDER BY id\<close>, read by \<^verbatim>\<open>scanRawFacts\<close>.\<close>

definition select_facts :: "(rawFact \<Rightarrow> bool) \<Rightarrow> tables \<Rightarrow> rawFact list" where
  "select_facts P tb = sort_key rf_id (filter P (tb_facts tb))"

definition liveFacts :: "tables \<Rightarrow> int \<Rightarrow> int option \<Rightarrow> rawFact list" where
  "liveFacts tb entity attr =
    select_facts (\<lambda>f. live f \<and> rf_e f = entity \<and> (case attr of None \<Rightarrow> True | Some a \<Rightarrow> rf_a f = a)) tb"

text \<open>\<^verbatim>\<open>LIMIT 1\<close> has no order here; an attribute is unique, so that one entity at most owns the value.\<close>

definition uniqueOwner :: "tables \<Rightarrow> int \<Rightarrow> storedValue \<Rightarrow> int option" where
  "uniqueOwner tb attr value =
    map_option rf_e (find (\<lambda>f. rf_a f = attr \<and> sql_eq (rf_v f) (sv_storage value) \<and> rf_t f = sv_tag value \<and> live f)
      (tb_facts tb))"

definition id_visible :: "int option \<Rightarrow> idRow \<Rightarrow> bool" where
  "id_visible asOf r = (case asOf of None \<Rightarrow> True | Some t \<Rightarrow> id_created r \<le> t)"

definition resolveNumericEntity :: "db \<Rightarrow> int \<Rightarrow> int option" where
  "resolveNumericEntity d i =
    (if i < 1 then None
     else if list_ex (\<lambda>r. id_id r = i \<and> id_visible (db_asOf d) r) (tb_ids (db_tables d)) then Some i else None)"

definition basisOn :: "tables \<Rightarrow> int" where
  "basisOn tb = (case map ev_tx (tb_events tb) of [] \<Rightarrow> 0 | t # ts \<Rightarrow> fold max ts t)"

subsection \<open>Logical values\<close>

definition validIndirectBlob :: "tag \<Rightarrow> sval \<Rightarrow> sval \<Rightarrow> bool" where
  "validIndirectBlob t rawKey data =
    (case rawKey of
       SBlob key \<Rightarrow>
         length key = 32 \<and>
         (case t of
            TagTextRef \<Rightarrow>
             (case data of
                SText text \<Rightarrow> ValidString text \<and> \<not> (length text \<le> BlobThreshold \<or> length text > MaxValueBytes)
                  \<and> key = indirectDigest t text
              | _ \<Rightarrow> False)
          | TagBytesRef \<Rightarrow>
             (case data of
                SBlob value \<Rightarrow> \<not> (length value \<le> BlobThreshold \<or> length value > MaxValueBytes)
                  \<and> key = indirectDigest t value
              | _ \<Rightarrow> False)
          | TagVector \<Rightarrow>
             (case data of
                SBlob value \<Rightarrow> \<not> (length value = 0 \<or> length value > MaxValueBytes \<or> length value mod 4 \<noteq> 0)
                  \<and> key = indirectDigest t value
              | _ \<Rightarrow> False)
          | _ \<Rightarrow> False)
     | _ \<Rightarrow> False)"

text \<open>\<^verbatim>\<open>math.Float32frombits(binary.LittleEndian.Uint32(...))\<close> for every group of four bytes.\<close>

fun le_floats :: "string \<Rightarrow> f32 list" where
  "le_floats (a # b # c # d # r) =
     (byte_of a + 256 * byte_of b + 65536 * byte_of c + 16777216 * byte_of d) # le_floats r"
| "le_floats _ = []"

definition logicalIndirectValue :: "sval \<Rightarrow> tag \<Rightarrow> sval \<Rightarrow> any res" where
  "logicalIndirectValue raw t data =
    (case raw of
       SBlob hash \<Rightarrow>
        if length hash \<noteq> 32 then fail ErrFormat
        else if \<not> validIndirectBlob t raw data then fail ErrFormat
        else (case (t, data) of
                (TagTextRef, SText s) \<Rightarrow> Inr (AStr s)
              | (TagBytesRef, SBlob b) \<Rightarrow> Inr (AByteSlice b)
              | (TagVector, SBlob b) \<Rightarrow> Inr (AF32s (le_floats b))
              | _ \<Rightarrow> fail ErrFormat)
     | _ \<Rightarrow> fail ErrFormat)"

definition logicalJSON :: "string \<Rightarrow> any res" where
  "logicalJSON text =
    (if length text > MaxValueBytes \<or> \<not> ValidString text then fail ErrFormat
     else case decodeInternalJSON text of
       Inl e \<Rightarrow> wrap ErrFormat (Some e)
     | Inr value \<Rightarrow>
        (case canonicalJSON value of
           Inl e \<Rightarrow> wrap ErrFormat (Some e)
         | Inr canonical \<Rightarrow>
            if canonical \<noteq> text then wrap ErrFormat None
            else case plainJSON value of Inl e \<Rightarrow> wrap ErrFormat (Some e) | Inr plain \<Rightarrow> Inr plain))"

definition logicalValue :: "tables \<Rightarrow> sval \<Rightarrow> tag \<Rightarrow> any res" where
  "logicalValue tb raw t =
    (case t of
       TagBool \<Rightarrow>
        (case raw of SInt n \<Rightarrow> if n \<noteq> 0 \<and> n \<noteq> 1 then fail ErrFormat else Inr (ABool (n \<noteq> 0)) | _ \<Rightarrow> fail ErrFormat)
     | TagInt \<Rightarrow> (case raw of SInt n \<Rightarrow> Inr (AInt64 n) | _ \<Rightarrow> fail ErrFormat)
     | TagInstant \<Rightarrow>
        (case raw of
           SInt n \<Rightarrow> if n < minInstantMicros \<or> n > maxInstantMicros then fail ErrFormat else Inr (AInt64 n)
         | _ \<Rightarrow> fail ErrFormat)
     | TagRef \<Rightarrow> (case raw of SInt n \<Rightarrow> if n \<le> 0 then fail ErrFormat else Inr (AInt64 n) | _ \<Rightarrow> fail ErrFormat)
     | TagFloat \<Rightarrow>
        (case raw of SReal x \<Rightarrow> if IsNaN x \<or> IsInf x then fail ErrFormat else Inr (AF64 x) | _ \<Rightarrow> fail ErrFormat)
     | TagText \<Rightarrow>
        (case raw of
           SText s \<Rightarrow> if \<not> ValidString s \<or> length s > BlobThreshold then fail ErrFormat else Inr (AStr s)
         | _ \<Rightarrow> fail ErrFormat)
     | TagBytes \<Rightarrow>
        (case raw of SBlob b \<Rightarrow> if length b > BlobThreshold then fail ErrFormat else Inr (AByteSlice b) | _ \<Rightarrow> fail ErrFormat)
     | TagJSON \<Rightarrow> (case raw of SText s \<Rightarrow> logicalJSON s | _ \<Rightarrow> fail ErrFormat)
     | _ \<Rightarrow>
        (case raw of
           SBlob hash \<Rightarrow>
            if length hash \<noteq> 32 then fail ErrFormat
            else (case map_of (tb_blobs tb) hash of
                    None \<Rightarrow> wrap ErrFormat (Some External)
                  | Some data \<Rightarrow> logicalIndirectValue raw t data)
         | _ \<Rightarrow> fail ErrFormat))"

subsection \<open>Rendering\<close>

text \<open>\<^verbatim>\<open>asInt64\<close> on a logical value.\<close>

fun any_int64 :: "any \<Rightarrow> int" where
  "any_int64 (ANum KInt64 n) = n"
| "any_int64 (ANum KInt n) = n"
| "any_int64 (ABool b) = (if b then 1 else 0)"
| "any_int64 _ = 0"

definition displayEntity :: "store \<Rightarrow> int \<Rightarrow> any" where
  "displayEntity s i = (case map_of (st_idNames s) i of Some name \<Rightarrow> AStr name | None \<Rightarrow> AInt64 i)"

definition displayEntityAllocated :: "store \<Rightarrow> allocator option \<Rightarrow> int \<Rightarrow> any" where
  "displayEntityAllocated s alloc i =
    (case alloc of
       None \<Rightarrow> displayEntity s i
     | Some a \<Rightarrow> (case find (\<lambda>(_, c). c = i) (al_ids a) of
                   Some (name, _) \<Rightarrow> AStr name
                 | None \<Rightarrow> displayEntity s i))"

definition renderLogicalAllocated :: "store \<Rightarrow> allocator option \<Rightarrow> any \<Rightarrow> tag \<Rightarrow> any" where
  "renderLogicalAllocated s alloc value t =
    (case t of
       TagRef \<Rightarrow> AMap [(''ref'', displayEntityAllocated s alloc (any_int64 value))]
     | TagInstant \<Rightarrow> AMap [(''instant'', AStr (formatInstant (any_int64 value)))]
     | TagBytes \<Rightarrow> AMap [(''bytes'', AStr (case value of AByteSlice b \<Rightarrow> EncodeBase64 b | _ \<Rightarrow> []))]
     | TagBytesRef \<Rightarrow> AMap [(''bytes'', AStr (case value of AByteSlice b \<Rightarrow> EncodeBase64 b | _ \<Rightarrow> []))]
     | TagVector \<Rightarrow> AMap [(''vector'', AList (case value of AF32s v \<Rightarrow> float32JSON v | _ \<Rightarrow> []))]
     | TagJSON \<Rightarrow> AMap [(''json'', value)]
     | _ \<Rightarrow> value)"

definition renderLogical :: "store \<Rightarrow> any \<Rightarrow> tag \<Rightarrow> any" where
  "renderLogical s = renderLogicalAllocated s None"

record Fact =
  fa_id :: int
  fa_e :: any
  fa_a :: string
  fa_v :: any
  fa_tag :: tag
  fa_tx :: int
  fa_rx :: "int option"

definition attributeName :: "tables \<Rightarrow> int \<Rightarrow> string res" where
  "attributeName tb i =
    (case find_id i tb of
       None \<Rightarrow> wrap ErrFormat (Some External)
     | Some r \<Rightarrow> (case id_name r of None \<Rightarrow> wrap ErrFormat (Some External) | Some n \<Rightarrow> Inr n))"

definition renderRawLogical :: "store \<Rightarrow> rawFact \<Rightarrow> any \<Rightarrow> int option \<Rightarrow> Fact res" where
  "renderRawLogical s raw logical overrideRx =
    res_bind (attributeName (st_tables s) (rf_a raw)) (\<lambda>attr.
      Inr \<lparr>fa_id = rf_id raw, fa_e = displayEntity s (rf_e raw), fa_a = attr,
           fa_v = renderLogical s logical (rf_t raw), fa_tag = rf_t raw, fa_tx = rf_tx raw,
           fa_rx = (case overrideRx of None \<Rightarrow> rf_rx raw | Some rx \<Rightarrow> Some rx)\<rparr>)"

definition renderRaw :: "store \<Rightarrow> rawFact \<Rightarrow> int option \<Rightarrow> Fact res" where
  "renderRaw s raw overrideRx =
    res_bind (logicalValue (st_tables s) (rf_v raw) (rf_t raw)) (\<lambda>logical.
      renderRawLogical s raw logical overrideRx)"

definition renderViewRaw :: "db \<Rightarrow> rawFact \<Rightarrow> Fact res" where
  "renderViewRaw d raw =
    renderRaw (db_store d)
      (case (db_asOf d, rf_rx raw) of
         (Some t, Some rx) \<Rightarrow> if rx > t then raw\<lparr>rf_rx := None\<rparr> else raw
       | _ \<Rightarrow> raw) None"

end
