(* ===== verification/Schema.thy ===== *)
theory Schema
  imports Reads
begin

text \<open>
  Attribute schemas and the transaction plan (transact.go): the schema record and how facts build it, the
  planned assertions and retractions with the schema cache of a plan, and the validation of the
  declarations that a transaction leaves behind.
\<close>

record attributeSchema =
  sc_type :: string
  sc_model :: string
  sc_dims :: int
  sc_many :: bool
  sc_unique :: bool
  sc_nohistory :: bool
  sc_nohistorySet :: bool
  sc_dimsSet :: bool

definition noSchema :: attributeSchema where
  "noSchema = \<lparr>sc_type = [], sc_model = [], sc_dims = 0, sc_many = False, sc_unique = False,
               sc_nohistory = False, sc_nohistorySet = False, sc_dimsSet = False\<rparr>"

definition deletesHistory :: "attributeSchema \<Rightarrow> bool" where
  "deletesHistory sc \<longleftrightarrow> sc_nohistory sc \<or> (\<not> sc_nohistorySet sc \<and> (sc_type sc = ''vector'' \<or> sc_dimsSet sc))"

record plannedFact =
  pf_attr :: string
  pf_value :: storedValue
  pf_e :: int
  pf_a :: int
  pf_order :: nat
  pf_txTarget :: bool
  pf_cas :: bool

record retractRequest =
  rr_a :: "int option"
  rr_value :: "storedValue option"
  rr_attr :: string
  rr_e :: int
  rr_order :: nat
  rr_missing :: bool
  rr_cas :: bool

text \<open>The keys \<^verbatim>\<open>entity/attribute\<close> of \<^verbatim>\<open>casTargets\<close> are pairs.\<close>

record transactionPlan =
  pl_tempids :: "(string \<times> int) list"
  pl_alloc :: allocator
  pl_cas :: "(int \<times> int) list"
  pl_schemas :: "(int \<times> attributeSchema) list"
  pl_assertions :: "plannedFact list"
  pl_retracts :: "retractRequest list"
  pl_order :: nat

definition planned :: "int \<Rightarrow> int \<Rightarrow> string \<Rightarrow> storedValue \<Rightarrow> nat \<Rightarrow> plannedFact" where
  "planned e a attr v n =
    \<lparr>pf_attr = attr, pf_value = v, pf_e = e, pf_a = a, pf_order = n, pf_txTarget = False, pf_cas = False\<rparr>"

definition request :: "int \<Rightarrow> int option \<Rightarrow> string \<Rightarrow> storedValue option \<Rightarrow> retractRequest" where
  "request e a attr v =
    \<lparr>rr_a = a, rr_value = v, rr_attr = attr, rr_e = e, rr_order = 0, rr_missing = False, rr_cas = False\<rparr>"

definition missing_request :: retractRequest where
  "missing_request = (request 0 None [] None)\<lparr>rr_missing := True\<rparr>"

definition isSchemaAttribute :: "int \<Rightarrow> bool" where
  "isSchemaAttribute a \<longleftrightarrow> (5 \<le> a \<and> a \<le> 10) \<or> a = 14"

definition appendAssertion :: "plannedFact \<Rightarrow> transactionPlan \<Rightarrow> transactionPlan" where
  "appendAssertion f pl =
    pl\<lparr>pl_assertions := pl_assertions pl @ [f],
       pl_schemas := (if isSchemaAttribute (pf_a f) then AList.delete (pf_e f) (pl_schemas pl) else pl_schemas pl)\<rparr>"

definition appendAssertions :: "plannedFact list \<Rightarrow> transactionPlan \<Rightarrow> transactionPlan" where
  "appendAssertions fs pl = fold appendAssertion fs pl"

definition appendRetraction :: "retractRequest \<Rightarrow> transactionPlan \<Rightarrow> transactionPlan" where
  "appendRetraction r pl =
    (let n = pl_order pl + 1 in
     pl\<lparr>pl_order := n, pl_retracts := pl_retracts pl @ [r\<lparr>rr_order := n\<rparr>],
        pl_schemas := (if (case rr_a r of None \<Rightarrow> True | Some a \<Rightarrow> isSchemaAttribute a)
                       then AList.delete (rr_e r) (pl_schemas pl) else pl_schemas pl)\<rparr>)"

text \<open>\<^verbatim>\<open>plan.order++\<close> followed by \<^verbatim>\<open>appendAssertion\<close> with the new order.\<close>

definition plan_assert :: "int \<Rightarrow> int \<Rightarrow> string \<Rightarrow> storedValue \<Rightarrow> transactionPlan \<Rightarrow> transactionPlan" where
  "plan_assert e a attr v pl =
    appendAssertion (planned e a attr v (pl_order pl + 1)) (pl\<lparr>pl_order := pl_order pl + 1\<rparr>)"

subsection \<open>Which requests reach which facts\<close>

definition retractMatchesPlanned :: "retractRequest \<Rightarrow> plannedFact \<Rightarrow> bool" where
  "retractMatchesPlanned r f =
    (if rr_missing r then False
     else case rr_a r of
       None \<Rightarrow> pf_e f = rr_e r \<or> (sv_tag (pf_value f) = TagRef \<and> asInt64 (sv_storage (pf_value f)) = rr_e r)
     | Some a \<Rightarrow>
        if pf_e f \<noteq> rr_e r \<or> pf_a f \<noteq> a then False
        else (case rr_value r of None \<Rightarrow> True | Some v \<Rightarrow> storedEqual (pf_value f) v))"

definition activePlanAssertions :: "transactionPlan \<Rightarrow> plannedFact list" where
  "activePlanAssertions pl =
    filter (\<lambda>f. \<not> list_ex (\<lambda>r. rr_order r > pf_order f \<and> retractMatchesPlanned r f) (pl_retracts pl))
      (sort_key pf_order (pl_assertions pl))"

definition rawRetracted :: "retractRequest list \<Rightarrow> rawFact \<Rightarrow> bool" where
  "rawRetracted rs f =
    list_ex (\<lambda>r. \<not> rr_missing r \<and>
      (case rr_a r of
         None \<Rightarrow> rf_e f = rr_e r \<or> (rf_t f = TagRef \<and> asInt64 (rf_v f) = rr_e r)
       | Some a \<Rightarrow> rf_e f = rr_e r \<and> rf_a f = a
           \<and> (case rr_value r of None \<Rightarrow> True
              | Some v \<Rightarrow> rf_t f = sv_tag v \<and> storageEqual (rf_v f) (sv_storage v)))) rs"

subsection \<open>Schemas\<close>

definition applySchemaFact :: "int \<Rightarrow> sval \<Rightarrow> attributeSchema \<Rightarrow> attributeSchema res" where
  "applySchemaFact attribute value sc =
    (if attribute = 5 then Inr (sc\<lparr>sc_many := sqliteBool value\<rparr>)
     else if attribute = 6 then Inr (sc\<lparr>sc_unique := sqliteBool value\<rparr>)
     else if attribute = 7 then Inr (sc\<lparr>sc_nohistory := sqliteBool value, sc_nohistorySet := True\<rparr>)
     else if attribute = 8 then (case value of SText n \<Rightarrow> Inr (sc\<lparr>sc_type := n\<rparr>) | _ \<Rightarrow> fail ErrFormat)
     else if attribute = 9 then Inr (sc\<lparr>sc_dims := asInt64 value, sc_dimsSet := True\<rparr>)
     else if attribute = 14 then (case value of SText n \<Rightarrow> Inr (sc\<lparr>sc_model := n\<rparr>) | _ \<Rightarrow> fail ErrFormat)
     else Inr sc)"

text \<open>The schema facts of an attribute: the stored rows that no request removes, then the planned ones.\<close>

definition schema_of_facts ::
    "rawFact list \<Rightarrow> int \<Rightarrow> plannedFact list \<Rightarrow> retractRequest list \<Rightarrow> attributeSchema res" where
  "schema_of_facts rows attr pending rs =
    res_bind (res_fold (\<lambda>f. applySchemaFact (rf_a f) (rf_v f)) (filter (\<lambda>f. \<not> rawRetracted rs f) rows) noSchema)
      (\<lambda>sc. res_fold (\<lambda>f. applySchemaFact (pf_a f) (sv_storage (pf_value f)))
               (filter (\<lambda>f. pf_e f = attr \<and> isSchemaAttribute (pf_a f)) pending) sc)"

definition schemaForChanges ::
    "db \<Rightarrow> int \<Rightarrow> plannedFact list \<Rightarrow> retractRequest list \<Rightarrow> attributeSchema res" where
  "schemaForChanges d attr pending rs =
    schema_of_facts
      (select_facts (\<lambda>f. rf_e f = attr \<and> isSchemaAttribute (rf_a f) \<and> visible (db_asOf d) f) (db_tables d))
      attr pending rs"

definition schemaFor :: "db \<Rightarrow> int \<Rightarrow> attributeSchema res" where
  "schemaFor d attr = schemaForChanges d attr [] []"

definition schemaForPlan :: "db \<Rightarrow> int \<Rightarrow> transactionPlan \<Rightarrow> (attributeSchema \<times> transactionPlan) res" where
  "schemaForPlan d attr pl =
    (case map_of (pl_schemas pl) attr of
       Some sc \<Rightarrow> Inr (sc, pl)
     | None \<Rightarrow>
        res_bind (schemaForChanges d attr (activePlanAssertions pl) (pl_retracts pl)) (\<lambda>sc.
          Inr (sc, pl\<lparr>pl_schemas := AList.update attr sc (pl_schemas pl)\<rparr>)))"

definition finalSchemaForPlan ::
    "db \<Rightarrow> int \<Rightarrow> transactionPlan \<Rightarrow> plannedFact list \<Rightarrow> attributeSchema res" where
  "finalSchemaForPlan d entity pl assertions =
    schema_of_facts
      (select_facts (\<lambda>f. rf_e f = entity \<and> isSchemaAttribute (rf_a f) \<and> live f) (db_tables d))
      entity assertions (pl_retracts pl)"

subsection \<open>Declarations\<close>

record declareOptions =
  do_type :: "string option"
  do_many :: "bool option"
  do_unique :: "bool option"
  do_nohistory :: "bool option"
  do_dims :: "int option"
  do_doc :: "string option"
  do_model :: "string option"

definition noDeclaration :: declareOptions where
  "noDeclaration = \<lparr>do_type = None, do_many = None, do_unique = None, do_nohistory = None, do_dims = None,
                    do_doc = None, do_model = None\<rparr>"

definition validateDeclarationOptions :: "string \<Rightarrow> declareOptions \<Rightarrow> unit res" where
  "validateDeclarationOptions attr c =
    res_bind (validateName attr True) (\<lambda>_.
    res_bind (case do_type c of
                None \<Rightarrow> Inr ()
              | Some t \<Rightarrow>
                 if t = ''text_ref'' \<or> t = ''bytes_ref'' \<or> t = [] then fail ErrSchema
                 else check (parseTagName t \<noteq> None) ErrSchema) (\<lambda>_.
    res_bind (case do_dims c of None \<Rightarrow> Inr () | Some n \<Rightarrow> check (\<not> n < 1) ErrSchema) (\<lambda>_.
    case do_model c of
      None \<Rightarrow> Inr ()
    | Some m \<Rightarrow>
       if length m = 0 \<or> length m > 512 \<or> \<not> ValidString m then fail ErrSchema
       else (case do_type c of None \<Rightarrow> Inr () | Some t \<Rightarrow> check (t = ''vector'') ErrSchema))))"

text \<open>
  \<^verbatim>\<open>validateDeclarationOn\<close>: a declaration is checked against the live facts of the attribute before it is
  planned. SQL groups the values by \<open>sql_eq\<close> and the tag.
\<close>

definition duplicate_live_values :: "tables \<Rightarrow> int \<Rightarrow> bool" where
  "duplicate_live_values tb a =
    list_ex (\<lambda>f. live f \<and> rf_a f = a \<and>
      list_ex (\<lambda>g. live g \<and> rf_a g = a \<and> rf_t g = rf_t f \<and> sql_eq (rf_v g) (rf_v f) \<and> rf_e g \<noteq> rf_e f) (tb_facts tb))
      (tb_facts tb)"

definition several_live_values :: "tables \<Rightarrow> int \<Rightarrow> bool" where
  "several_live_values tb a =
    list_ex (\<lambda>f. length (filter (\<lambda>g. live g \<and> rf_a g = a \<and> rf_e g = rf_e f) (tb_facts tb)) > 1) (tb_facts tb)"

definition unique_type_check :: "db \<Rightarrow> int option \<Rightarrow> declareOptions \<Rightarrow> unit res" where
  "unique_type_check d found c =
    (if do_unique c = Some True then
       res_bind (case do_type c of
                   Some t \<Rightarrow> Inr t
                 | None \<Rightarrow> (case found of
                              None \<Rightarrow> Inr []
                            | Some i \<Rightarrow> res_bind (schemaFor d i) (\<lambda>sc. Inr (sc_type sc))))
         (\<lambda>t. if t = [] then fail ErrSchema
              else if t = ''json'' \<or> t = ''vector'' then fail ErrSchema else Inr ())
     else Inr ())"

definition validateDeclarationOn :: "db \<Rightarrow> string \<Rightarrow> declareOptions \<Rightarrow> unit res" where
  "validateDeclarationOn d attr c =
    res_bind (validateDeclarationOptions attr c) (\<lambda>_.
    (let found = map_of (st_names (db_store d)) attr; tb = db_tables d in
     res_bind (unique_type_check d found c) (\<lambda>_.
     case found of
       None \<Rightarrow> Inr ()
     | Some i \<Rightarrow>
        res_bind (check (\<not> (do_unique c = Some True \<and> duplicate_live_values tb i)) ErrSchema) (\<lambda>_.
        res_bind (check (\<not> (do_many c = Some False \<and> several_live_values tb i)) ErrSchema) (\<lambda>_.
        case do_type c of
          None \<Rightarrow> Inr ()
        | Some t \<Rightarrow>
           check (\<not> list_ex (\<lambda>f. rf_a f = i \<and> live f \<and> \<not> tagCompatible t (rf_t f)) (tb_facts tb)) ErrSchema)))))"

text \<open>The declarations a plan makes: one record per entity, in the order of the active assertions.\<close>

definition declaration_of :: "plannedFact \<Rightarrow> declareOptions \<Rightarrow> declareOptions res" where
  "declaration_of f c =
    (let v = sv_storage (pf_value f); l = sv_logical (pf_value f); a = pf_a f in
     if a = 5 then Inr (c\<lparr>do_many := Some (sqliteBool v)\<rparr>)
     else if a = 6 then Inr (c\<lparr>do_unique := Some (sqliteBool v)\<rparr>)
     else if a = 7 then Inr (c\<lparr>do_nohistory := Some (sqliteBool v)\<rparr>)
     else if a = 8 then (case v of SText t \<Rightarrow> Inr (c\<lparr>do_type := Some t\<rparr>) | _ \<Rightarrow> fail ErrFormat)
     else if a = 9 then Inr (c\<lparr>do_dims := Some (asInt64 v)\<rparr>)
     else if a = 10 then (case l of AStr t \<Rightarrow> Inr (c\<lparr>do_doc := Some t\<rparr>) | _ \<Rightarrow> fail ErrFormat)
     else if a = 14 then (case l of AStr t \<Rightarrow> Inr (c\<lparr>do_model := Some t\<rparr>) | _ \<Rightarrow> fail ErrFormat)
     else Inr c)"

definition collect_declaration ::
    "plannedFact \<Rightarrow> (int \<times> declareOptions) list \<Rightarrow> (int \<times> declareOptions) list res" where
  "collect_declaration f m =
    (if \<not> isSchemaAttribute (pf_a f) then Inr m
     else res_bind (declaration_of f (case map_of m (pf_e f) of None \<Rightarrow> noDeclaration | Some c \<Rightarrow> c)) (\<lambda>c.
            Inr (AList.update (pf_e f) c m)))"

definition declarationEntityName :: "store \<Rightarrow> allocator \<Rightarrow> int \<Rightarrow> string" where
  "declarationEntityName s al entity =
    (case find (\<lambda>(_, i). i = entity) (al_ids al) of
       Some (name, _) \<Rightarrow> name
     | None \<Rightarrow>
        (case find (\<lambda>(_, i). i = entity) (st_names s) of
           Some (name, _) \<Rightarrow> name
         | None \<Rightarrow> ''entity:'' @ FormatInt entity))"

definition collect_retraction ::
    "store \<Rightarrow> allocator \<Rightarrow> retractRequest \<Rightarrow> (int \<times> declareOptions) list \<Rightarrow> (int \<times> declareOptions) list" where
  "collect_retraction s al r m =
    (if rr_missing r then m
     else if rr_a r = None \<and> \<not> attributePattern (declarationEntityName s al (rr_e r)) then m
     else if (case rr_a r of None \<Rightarrow> False | Some a \<Rightarrow> \<not> isSchemaAttribute a) then m
     else if map_of m (rr_e r) = None then AList.update (rr_e r) noDeclaration m else m)"

record schemaValidationFact =
  vf_value :: storedValue
  vf_e :: int
  vf_planned :: bool

text \<open>One assertion on the attribute, merged into the facts that will be live.\<close>

definition merge_assertion ::
    "attributeSchema \<Rightarrow> plannedFact \<Rightarrow> (int \<times> storedValue) list \<times> schemaValidationFact list
     \<Rightarrow> ((int \<times> storedValue) list \<times> schemaValidationFact list) res" where
  "merge_assertion sc f = (\<lambda>(seen, facts).
    if (case map_of seen (pf_e f) of None \<Rightarrow> False | Some prior \<Rightarrow> \<not> sc_many sc \<and> \<not> storedEqual prior (pf_value f))
    then fail ErrConflict
    else let kept = (if sc_many sc then facts else filter (\<lambda>x. vf_e x \<noteq> pf_e f) facts);
             duplicate = list_ex (\<lambda>x. vf_e x = pf_e f \<and> storedEqual (vf_value x) (pf_value f)) kept
         in Inr (AList.update (pf_e f) (pf_value f) seen,
                 if duplicate then kept
                 else kept @ [\<lparr>vf_value = pf_value f, vf_e = pf_e f, vf_planned = True\<rparr>]))"

record attributeCheck =
  ac_owners :: "((tag \<times> sval) \<times> int \<times> bool) list"
  ac_counts :: "int list"
  ac_planned :: "int list"

text \<open>
  One live fact of the attribute checked against the final schema; \<open>ac_counts\<close> and \<open>ac_planned\<close> hold an
  entity once for each fact counted so far.
\<close>

definition check_final_fact ::
    "tables \<Rightarrow> attributeSchema \<Rightarrow> schemaValidationFact \<Rightarrow> attributeCheck \<Rightarrow> attributeCheck res" where
  "check_final_fact tb sc x st =
    (if sc_type sc \<noteq> [] \<and> \<not> tagCompatible (sc_type sc) (sv_tag (vf_value x)) then fail ErrSchema
     else let cs = vf_e x # ac_counts st;
              ps = (if vf_planned x then vf_e x # ac_planned st else ac_planned st);
              key = (sv_tag (vf_value x), sv_storage (vf_value x)) in
     if \<not> sc_many sc \<and> count_list cs (vf_e x) > 1 then
       (if vf_e x \<in> set ps then fail ErrConflict else fail ErrSchema)
     else if sc_unique sc
             \<and> (case map_of (ac_owners st) key of None \<Rightarrow> False | Some (e, _) \<Rightarrow> e \<noteq> vf_e x) then
       (if (case map_of (ac_owners st) key of None \<Rightarrow> False | Some (_, p) \<Rightarrow> p) \<or> vf_planned x
        then fail ErrConflict else fail ErrSchema)
     else res_bind (if sc_dimsSet sc \<and> sv_tag (vf_value x) = TagVector then
            res_bind (if sv_logical (vf_value x) = ANil
                      then logicalValue tb (sv_storage (vf_value x)) (sv_tag (vf_value x))
                      else Inr (sv_logical (vf_value x)))
              (\<lambda>l. case l of AF32s v \<Rightarrow> check (int (length v) = sc_dims sc) ErrSchema | _ \<Rightarrow> fail ErrSchema)
          else Inr ()) (\<lambda>_.
       Inr \<lparr>ac_owners = (if sc_unique sc then AList.update key (vf_e x, vf_planned x) (ac_owners st)
                         else ac_owners st), ac_counts = cs, ac_planned = ps\<rparr>))"

definition validateFinalAttribute ::
    "db \<Rightarrow> int \<Rightarrow> attributeSchema \<Rightarrow> transactionPlan \<Rightarrow> plannedFact list \<Rightarrow> unit res" where
  "validateFinalAttribute d attrID sc pl assertions =
    (if sc_unique sc \<and> (sc_type sc = [] \<or> sc_type sc = ''json'' \<or> sc_type sc = ''vector'') then fail ErrSchema
     else
      let raw = filter (\<lambda>f. \<not> rawRetracted (pl_retracts pl) f)
                  (select_facts (\<lambda>f. rf_a f = attrID \<and> live f) (db_tables d));
          facts = map (\<lambda>f. \<lparr>vf_value = stored ANil (rf_v f) (rf_t f), vf_e = rf_e f, vf_planned = False\<rparr>) raw
      in res_bind (res_fold (merge_assertion sc) (filter (\<lambda>f. pf_a f = attrID) assertions) ([], facts)) (\<lambda>(_, merged).
         res_bind (res_fold (check_final_fact (db_tables d) sc) merged
                     \<lparr>ac_owners = [], ac_counts = [], ac_planned = []\<rparr>) (\<lambda>_. Inr ())))"

definition validate_declaration_of ::
    "db \<Rightarrow> transactionPlan \<Rightarrow> plannedFact list \<Rightarrow> int \<times> declareOptions \<Rightarrow> unit \<Rightarrow> unit res" where
  "validate_declaration_of d pl assertions = (\<lambda>(entity, c) _.
    res_bind (validateDeclarationOptions (declarationEntityName (db_store d) (pl_alloc pl) entity) c) (\<lambda>_.
    res_bind (finalSchemaForPlan d entity pl assertions) (\<lambda>sc.
    validateFinalAttribute d entity sc pl assertions)))"

definition validatePlannedDeclarations :: "db \<Rightarrow> transactionPlan \<Rightarrow> unit res" where
  "validatePlannedDeclarations d pl =
    (let assertions = activePlanAssertions pl in
     res_bind (res_fold collect_declaration assertions []) (\<lambda>m.
       res_fold (validate_declaration_of d pl assertions)
         (sort_key fst (fold (collect_retraction (db_store d) (pl_alloc pl)) (pl_retracts pl) m)) ()))"

end
