(* ===== verification/Plan.thy ===== *)
theory Plan
  imports Schema
begin

text \<open>
  The transaction planner (transact.go, apply.go): entity and value resolution, map and operation
  planning, compare-and-set, transaction metadata. A planning step maps a plan to a plan or an error; it
  reads the database but writes only the plan and its allocator.

  References nest (a unique lookup may hold a reference whose target is a lookup) and so do maps. The
  recursion runs on fuel, and the entry points pass one more than the size of the input: every nested call is
  on a proper part of it, so the fuel is never used up (\<open>planMap_unfold\<close>, \<open>resolveReference_unfold\<close>).
\<close>

definition in_alloc ::
    "(allocator \<Rightarrow> ('a \<times> allocator) res) \<Rightarrow> transactionPlan \<Rightarrow> ('a \<times> transactionPlan) res" where
  "in_alloc f pl = res_bind (f (pl_alloc pl)) (\<lambda>(x, al). Inr (x, pl\<lparr>pl_alloc := al\<rparr>))"

definition plan_name :: "db \<Rightarrow> string \<Rightarrow> bool \<Rightarrow> bool \<Rightarrow> transactionPlan \<Rightarrow> (int option \<times> transactionPlan) res" where
  "plan_name d name attribute create = in_alloc (alloc_name (db_store d) name attribute create)"

text \<open>\<^verbatim>\<open>name\<close> with \<^verbatim>\<open>create\<close>: the code ignores the found flag, which is set.\<close>

definition plan_create_name :: "db \<Rightarrow> string \<Rightarrow> bool \<Rightarrow> transactionPlan \<Rightarrow> (int \<times> transactionPlan) res" where
  "plan_create_name d name attribute pl =
    res_bind (plan_name d name attribute True pl) (\<lambda>(i, pl'). Inr (case i of None \<Rightarrow> 0 | Some k \<Rightarrow> k, pl'))"

definition plan_anonymous :: "transactionPlan \<Rightarrow> (int \<times> transactionPlan) res" where
  "plan_anonymous = in_alloc anonymous"

definition tempEntity :: "string \<Rightarrow> transactionPlan \<Rightarrow> (int \<times> transactionPlan) res" where
  "tempEntity name pl =
    (case map_of (pl_tempids pl) name of
       Some i \<Rightarrow> Inr (i, pl)
     | None \<Rightarrow>
        res_bind (plan_anonymous pl) (\<lambda>(i, pl').
          Inr (i, pl'\<lparr>pl_tempids := AList.update name i (pl_tempids pl')\<rparr>)))"

text \<open>The object \<^verbatim>\<open>{"tmp": value}\<close>.\<close>

definition tmp_object :: "any \<Rightarrow> any option" where
  "tmp_object v = (case objectFields v of Some [(k, x)] \<Rightarrow> if k = ''tmp'' then Some x else None | _ \<Rightarrow> None)"

definition uniqueOwnerIncludingPlan :: "db \<Rightarrow> transactionPlan \<Rightarrow> int \<Rightarrow> storedValue \<Rightarrow> int option" where
  "uniqueOwnerIncludingPlan d pl attr value =
    (case find (\<lambda>f. pf_a f = attr \<and> storedEqual (pf_value f) value) (pl_assertions pl) of
       Some f \<Rightarrow> Some (pf_e f)
     | None \<Rightarrow> uniqueOwner (db_tables d) attr value)"

definition is_receipt :: "tables \<Rightarrow> int \<Rightarrow> bool" where
  "is_receipt tb e = list_ex (\<lambda>f. rf_e f = e \<and> rf_a f = 1 \<and> rf_tx f = rf_e f) (tb_facts tb)"

definition validateUserWriteTarget :: "tables \<Rightarrow> int \<Rightarrow> unit res" where
  "validateUserWriteTarget tb entity =
    (if entity \<le> GenesisTx then fail ErrUnsupported
     else if is_receipt tb entity then fail ErrUnsupported
     else Inr ())"

subsection \<open>Values and references\<close>

definition checkFactValue :: "attributeSchema \<Rightarrow> storedValue \<Rightarrow> storedValue res" where
  "checkFactValue sc value =
    (if sc_type sc \<noteq> [] \<and> \<not> tagCompatible (sc_type sc) (sv_tag value) then fail ErrType
     else if sv_tag value = TagVector then
       res_bind (vectorDimensions value) (\<lambda>dims.
         if sc_dimsSet sc \<and> dims \<noteq> sc_dims sc then fail ErrType else Inr value)
     else Inr value)"

definition resolvedRef :: "storedValue \<Rightarrow> int \<Rightarrow> storedValue" where
  "resolvedRef v i = v\<lparr>sv_logical := AInt64 i, sv_storage := SInt i\<rparr>"

text \<open>\<^verbatim>\<open>resolveReadFactValue\<close> and \<^verbatim>\<open>resolveFactValue\<close>, with the resolution of a reference as an argument.\<close>

definition readFactValue_with ::
    "(any \<Rightarrow> int option res) \<Rightarrow> attributeSchema \<Rightarrow> any \<Rightarrow> storedValue res" where
  "readFactValue_with resolve sc input =
    res_bind (scalarValue input) (\<lambda>value.
      if sv_tag value = TagRef then
        (case sv_logical value of
           ARef target \<Rightarrow>
            res_bind (resolve target) (\<lambda>found.
              case found of None \<Rightarrow> fail ErrNotFound | Some i \<Rightarrow> checkFactValue sc (resolvedRef value i))
         | _ \<Rightarrow> fail ErrType)
      else checkFactValue sc value)"

definition factValue_with ::
    "(any \<Rightarrow> transactionPlan \<Rightarrow> (int option \<times> transactionPlan) res) \<Rightarrow> attributeSchema \<Rightarrow> any
     \<Rightarrow> transactionPlan \<Rightarrow> (storedValue \<times> transactionPlan) res" where
  "factValue_with resolve sc input pl =
    res_bind (scalarValue input) (\<lambda>value.
      if sv_tag value = TagRef then
        (case sv_logical value of
           ARef target \<Rightarrow>
            res_bind (resolve target pl) (\<lambda>(found, pl').
              case found of None \<Rightarrow> fail ErrNotFound
              | Some i \<Rightarrow> res_bind (checkFactValue sc (resolvedRef value i)) (\<lambda>v. Inr (v, pl')))
         | _ \<Rightarrow> fail ErrType)
      else res_bind (checkFactValue sc value) (\<lambda>v. Inr (v, pl)))"

text \<open>\<^verbatim>\<open>resolveLookup\<close>, with the resolution of the looked-up value as an argument.\<close>

definition lookup_with ::
    "(attributeSchema \<Rightarrow> any \<Rightarrow> transactionPlan \<Rightarrow> (storedValue \<times> transactionPlan) res)
     \<Rightarrow> db \<Rightarrow> any list \<Rightarrow> bool \<Rightarrow> transactionPlan \<Rightarrow> (int option \<times> transactionPlan) res" where
  "lookup_with resolveValue d lookup write pl =
    (case lookup of
       [name, input] \<Rightarrow>
        (case name of
           AStr attr \<Rightarrow>
            res_bind (plan_name d attr True False pl) (\<lambda>(found, pl1).
              case found of
                None \<Rightarrow> if write then fail ErrNotFound else Inr (None, pl1)
              | Some attrID \<Rightarrow>
                 res_bind (schemaForPlan d attrID pl1) (\<lambda>(sc, pl2).
                   if \<not> sc_unique sc then fail ErrSchema
                   else res_bind (resolveValue sc input pl2) (\<lambda>(value, pl3).
                     Inr (uniqueOwner (db_tables d) attrID value, pl3))))
         | _ \<Rightarrow> fail ErrType)
     | _ \<Rightarrow> fail ErrType)"

definition read_value ::
    "(any \<Rightarrow> int option res) \<Rightarrow> attributeSchema \<Rightarrow> any \<Rightarrow> transactionPlan \<Rightarrow> (storedValue \<times> transactionPlan) res" where
  "read_value resolve sc input pl = res_bind (readFactValue_with resolve sc input) (\<lambda>v. Inr (v, pl))"

text \<open>The plan that \<^verbatim>\<open>resolveReadEntity\<close> makes for a lookup: an allocator that never allocates.\<close>

definition lookup_plan :: transactionPlan where
  "lookup_plan =
    \<lparr>pl_tempids = [],
     pl_alloc = \<lparr>al_ids = [], al_gids = [], al_pending = [], al_first = 0, al_next = 0, al_dirty = False\<rparr>,
     pl_cas = [], pl_schemas = [], pl_assertions = [], pl_retracts = [], pl_order = 0\<rparr>"

definition resolveEid :: "db \<Rightarrow> any \<Rightarrow> int option res" where
  "resolveEid d v =
    (case v of
       AStr text \<Rightarrow>
        res_bind (parseUUID text) (\<lambda>gid.
          Inr (map_option id_id (find (\<lambda>r. id_gid r = Some gid \<and> id_visible (db_asOf d) r) (tb_ids (db_tables d)))))
     | _ \<Rightarrow> fail ErrType)"

definition readEntity_with :: "(any \<Rightarrow> int option res) \<Rightarrow> db \<Rightarrow> any \<Rightarrow> int option res" where
  "readEntity_with recurse d r =
    (case r of
       AStr name \<Rightarrow>
        Inr (map_option id_id (find (\<lambda>x. id_name x = Some name \<and> id_visible (db_asOf d) x) (tb_ids (db_tables d))))
     | ANum k i \<Rightarrow> if k = KInt \<or> k = KInt64 then Inr (resolveNumericEntity d i) else fail ErrType
     | AF64 x \<Rightarrow>
        (case exactInt64Float x of
           Some i \<Rightarrow> if i \<ge> 1 then Inr (resolveNumericEntity d i) else fail ErrType
         | None \<Rightarrow> fail ErrType)
     | AList lookup \<Rightarrow>
        res_bind (lookup_with (read_value recurse) d lookup False lookup_plan) (\<lambda>(found, _). Inr found)
     | _ \<Rightarrow>
        (case objectFields r of
           Some [(k, v)] \<Rightarrow> if k = ''eid'' then resolveEid d v else fail ErrType
         | _ \<Rightarrow> fail ErrType))"

primrec readEntity_fuel :: "nat \<Rightarrow> db \<Rightarrow> any \<Rightarrow> int option res" where
  "readEntity_fuel 0 d r = Inl External"
| "readEntity_fuel (Suc n) d r = readEntity_with (readEntity_fuel n d) d r"

definition resolveReadEntity :: "db \<Rightarrow> any \<Rightarrow> int option res" where
  "resolveReadEntity d r = readEntity_fuel (Suc (size r)) d r"

definition resolveReadFactValue :: "db \<Rightarrow> attributeSchema \<Rightarrow> any \<Rightarrow> storedValue res" where
  "resolveReadFactValue d = readFactValue_with (resolveReadEntity d)"

definition reference_with ::
    "(any \<Rightarrow> transactionPlan \<Rightarrow> (int option \<times> transactionPlan) res)
     \<Rightarrow> db \<Rightarrow> bool \<Rightarrow> any \<Rightarrow> transactionPlan \<Rightarrow> (int option \<times> transactionPlan) res" where
  "reference_with recurse d create target pl =
    (case target of
       AStr name \<Rightarrow> plan_name d name False create pl
     | ANum k i \<Rightarrow>
        if k = KInt \<or> k = KInt64 then
          (if i < 1 then fail ErrType else Inr (resolveNumericEntity d i, pl))
        else fail ErrType
     | AList lookup \<Rightarrow>
        lookup_with (if create then factValue_with recurse else read_value (resolveReadEntity d)) d lookup create pl
     | ATmp name \<Rightarrow> res_bind (tempEntity name pl) (\<lambda>(i, pl'). Inr (Some i, pl'))
     | _ \<Rightarrow>
        (case tmp_object target of
           Some v \<Rightarrow>
            (case v of
               AStr name \<Rightarrow> res_bind (tempEntity name pl) (\<lambda>(i, pl'). Inr (Some i, pl'))
             | _ \<Rightarrow> fail ErrType)
         | None \<Rightarrow> fail ErrType))"

primrec reference_fuel ::
    "nat \<Rightarrow> db \<Rightarrow> bool \<Rightarrow> any \<Rightarrow> transactionPlan \<Rightarrow> (int option \<times> transactionPlan) res" where
  "reference_fuel 0 d create target pl = Inl External"
| "reference_fuel (Suc n) d create target pl = reference_with (reference_fuel n d True) d create target pl"

definition resolveReference :: "db \<Rightarrow> bool \<Rightarrow> any \<Rightarrow> transactionPlan \<Rightarrow> (int option \<times> transactionPlan) res" where
  "resolveReference d create target pl = reference_fuel (Suc (size target)) d create target pl"

definition resolveFactValue ::
    "db \<Rightarrow> attributeSchema \<Rightarrow> any \<Rightarrow> transactionPlan \<Rightarrow> (storedValue \<times> transactionPlan) res" where
  "resolveFactValue d = factValue_with (resolveReference d True)"

definition resolveLookup :: "db \<Rightarrow> any list \<Rightarrow> bool \<Rightarrow> transactionPlan \<Rightarrow> (int option \<times> transactionPlan) res" where
  "resolveLookup d lookup write =
    lookup_with (if write then resolveFactValue d else read_value (resolveReadEntity d)) d lookup write"

subsection \<open>Entities\<close>

definition resolvePinnedWriteID :: "db \<Rightarrow> int \<Rightarrow> int res" where
  "resolvePinnedWriteID d value =
    (if value < 1 then fail ErrType
     else case resolveNumericEntity d value of None \<Rightarrow> fail ErrNotFound | Some i \<Rightarrow> Inr i)"

text \<open>The answer is the entity and whether the caller pinned it.\<close>

definition resolveWriteEntity ::
    "db \<Rightarrow> any \<Rightarrow> transactionPlan \<Rightarrow> ((int \<times> bool) \<times> transactionPlan) res" where
  "resolveWriteEntity d spec pl =
    (case spec of
       AStr name \<Rightarrow> res_bind (plan_create_name d name False pl) (\<lambda>(i, pl'). Inr ((i, True), pl'))
     | ANum k i \<Rightarrow>
        if k = KInt \<or> k = KInt64 then res_bind (resolvePinnedWriteID d i) (\<lambda>j. Inr ((j, True), pl))
        else fail ErrType
     | ATmp name \<Rightarrow> res_bind (tempEntity name pl) (\<lambda>(i, pl'). Inr ((i, False), pl'))
     | AList lookup \<Rightarrow>
        res_bind (resolveLookup d lookup True pl) (\<lambda>(found, pl1).
          case found of
            None \<Rightarrow> res_bind (plan_anonymous pl1) (\<lambda>(i, pl2). Inr ((i, False), pl2))
          | Some i \<Rightarrow> Inr ((i, False), pl1))
     | _ \<Rightarrow>
        (case tmp_object spec of
           Some v \<Rightarrow>
            (case v of
               AStr name \<Rightarrow>
                if name = [] then fail ErrType
                else res_bind (tempEntity name pl) (\<lambda>(i, pl'). Inr ((i, False), pl'))
             | _ \<Rightarrow> fail ErrType)
         | None \<Rightarrow> fail ErrType))"

definition resolveOperationNumeric :: "db \<Rightarrow> bool \<Rightarrow> int \<Rightarrow> int option res" where
  "resolveOperationNumeric d create i =
    (if i < 1 then fail ErrType
     else case resolveNumericEntity d i of
       Some j \<Rightarrow> Inr (Some j)
     | None \<Rightarrow> if create then fail ErrNotFound else Inr None)"

definition operation_temp :: "bool \<Rightarrow> string \<Rightarrow> transactionPlan \<Rightarrow> (int option \<times> transactionPlan) res" where
  "operation_temp create name pl =
    (case map_of (pl_tempids pl) name of
       Some i \<Rightarrow> Inr (Some i, pl)
     | None \<Rightarrow>
        if \<not> create then Inr (None, pl)
        else res_bind (tempEntity name pl) (\<lambda>(i, pl'). Inr (Some i, pl')))"

definition resolveOperationEntity ::
    "db \<Rightarrow> bool \<Rightarrow> any \<Rightarrow> transactionPlan \<Rightarrow> (int option \<times> transactionPlan) res" where
  "resolveOperationEntity d create spec pl =
    (case spec of
       AStr name \<Rightarrow> plan_name d name False create pl
     | ANum k i \<Rightarrow>
        if k = KInt \<or> k = KInt64 then res_bind (resolveOperationNumeric d create i) (\<lambda>r. Inr (r, pl))
        else fail ErrType
     | AF64 x \<Rightarrow>
        (case exactInt64Float x of
           Some i \<Rightarrow> if i \<ge> 1 then res_bind (resolveOperationNumeric d create i) (\<lambda>r. Inr (r, pl)) else fail ErrType
         | None \<Rightarrow> fail ErrType)
     | ATmp name \<Rightarrow> operation_temp create name pl
     | AList lookup \<Rightarrow> resolveLookup d lookup create pl
     | _ \<Rightarrow>
        (case tmp_object spec of
           Some v \<Rightarrow> (case v of AStr name \<Rightarrow> operation_temp create name pl | _ \<Rightarrow> fail ErrType)
         | None \<Rightarrow> fail ErrType))"

subsection \<open>Vector schemas\<close>

definition ensureVectorDims :: "int \<Rightarrow> int \<Rightarrow> transactionPlan \<Rightarrow> transactionPlan res" where
  "ensureVectorDims attrID dims pl =
    (case find (\<lambda>f. pf_e f = attrID \<and> pf_a f = 9) (pl_assertions pl) of
       Some f \<Rightarrow> if sv_storage (pf_value f) \<noteq> SInt dims then fail ErrConflict else Inr pl
     | None \<Rightarrow> Inr (plan_assert attrID 9 (systemNames ! 9) (stored (AInt64 dims) (SInt dims) TagInt) pl))"

definition ensureVectorSchema :: "int \<Rightarrow> int \<Rightarrow> bool \<Rightarrow> transactionPlan \<Rightarrow> transactionPlan res" where
  "ensureVectorSchema attrID dims inferType pl =
    res_bind (if inferType then
        (case find (\<lambda>f. pf_e f = attrID \<and> pf_a f = 8) (pl_assertions pl) of
           Some f \<Rightarrow> if sv_storage (pf_value f) \<noteq> SText ''vector'' then fail ErrConflict else Inr pl
         | None \<Rightarrow> Inr (plan_assert attrID 8 (systemNames ! 8) (stored (AStr ''vector'') (SText ''vector'') TagText) pl))
      else Inr pl)
      (ensureVectorDims attrID dims)"

text \<open>The step that a map, an assertion and a transaction fact share: a first vector fixes the schema.\<close>

definition fix_vector_schema ::
    "int \<Rightarrow> attributeSchema \<Rightarrow> storedValue \<Rightarrow> transactionPlan \<Rightarrow> (attributeSchema \<times> transactionPlan) res" where
  "fix_vector_schema attrID sc value pl =
    (if sv_tag value = TagVector \<and> \<not> sc_dimsSet sc then
       res_bind (vectorDimensions value) (\<lambda>dims.
       res_bind (ensureVectorSchema attrID dims (sc_type sc = []) pl) (\<lambda>pl'.
         Inr (sc\<lparr>sc_dims := dims, sc_dimsSet := True\<rparr>, pl')))
     else Inr (sc, pl))"

subsection \<open>Maps\<close>

record preparedMapField =
  pm_values :: "storedValue list"
  pm_schema :: attributeSchema
  pm_attr :: int

type_synonym map_planner = "fields \<Rightarrow> transactionPlan \<Rightarrow> (int \<times> transactionPlan) res"

fun is_array :: "any \<Rightarrow> bool" where
  "is_array (AList _) \<longleftrightarrow> True"
| "is_array _ \<longleftrightarrow> False"

text \<open>A nested object that is not a typed wrapper.\<close>

definition nested_map :: "any \<Rightarrow> fields option" where
  "nested_map input =
    (case objectFields input of
       None \<Rightarrow> None
     | Some fs \<Rightarrow> (case fs of [(name, _)] \<Rightarrow> if isValueWrapper name then None else Some fs | _ \<Rightarrow> Some fs))"

definition expandSingle_with ::
    "map_planner \<Rightarrow> db \<Rightarrow> attributeSchema \<Rightarrow> any \<Rightarrow> transactionPlan \<Rightarrow> (storedValue \<times> transactionPlan) res" where
  "expandSingle_with planMap d sc input pl =
    (case nested_map input of
       Some fs \<Rightarrow>
        if sc_type sc \<noteq> ''ref'' then fail ErrType
        else res_bind (planMap fs pl) (\<lambda>(child, pl'). Inr (stored (AInt64 child) (SInt child) TagRef, pl'))
     | None \<Rightarrow> resolveFactValue d sc input pl)"

definition expandAttribute_with ::
    "map_planner \<Rightarrow> db \<Rightarrow> attributeSchema \<Rightarrow> any \<Rightarrow> transactionPlan \<Rightarrow> (storedValue list \<times> transactionPlan) res" where
  "expandAttribute_with planMap d sc input pl =
    (case input of
       AList items \<Rightarrow> res_maps (expandSingle_with planMap d sc) items pl
     | _ \<Rightarrow> res_bind (expandSingle_with planMap d sc input pl) (\<lambda>(v, pl'). Inr ([v], pl')))"

text \<open>\<^verbatim>\<open>upsertOwnerForMap\<close>: the owner of the unique values of a map without id, and the fields it prepared.\<close>

definition owner_candidate ::
    "db \<Rightarrow> int \<Rightarrow> transactionPlan \<Rightarrow> storedValue \<Rightarrow> int option \<Rightarrow> int option res" where
  "owner_candidate d attrID pl value owner =
    (case uniqueOwnerIncludingPlan d pl attrID value of
       None \<Rightarrow> Inr owner
     | Some c \<Rightarrow> (case owner of
                   None \<Rightarrow> Inr (Some c)
                 | Some w \<Rightarrow> if w \<noteq> c then fail ErrConflict else Inr (Some c)))"

definition upsert_field ::
    "map_planner \<Rightarrow> db \<Rightarrow> nat \<times> string \<times> any
     \<Rightarrow> int option \<times> (nat \<times> preparedMapField) list \<times> transactionPlan
     \<Rightarrow> (int option \<times> (nat \<times> preparedMapField) list \<times> transactionPlan) res" where
  "upsert_field planMap d = (\<lambda>(index, name, value) (owner, prepared, pl).
    if name = ''id'' then Inr (owner, prepared, pl)
    else res_bind (plan_name d name True False pl) (\<lambda>(found, pl1).
      case found of
        None \<Rightarrow> Inr (owner, prepared, pl1)
      | Some attrID \<Rightarrow>
         res_bind (schemaForPlan d attrID pl1) (\<lambda>(sc, pl2).
           if \<not> sc_unique sc then Inr (owner, prepared, pl2)
           else if is_array value \<and> \<not> sc_many sc then fail ErrConflict
           else res_bind (expandAttribute_with planMap d sc value pl2) (\<lambda>(values, pl3).
             res_bind (res_fold (owner_candidate d attrID pl3) values owner) (\<lambda>owner'.
               Inr (owner', AList.update index \<lparr>pm_values = values, pm_schema = sc, pm_attr = attrID\<rparr> prepared,
                    pl3))))))"

definition upsertOwner_with ::
    "map_planner \<Rightarrow> db \<Rightarrow> fields \<Rightarrow> transactionPlan
     \<Rightarrow> (int option \<times> (nat \<times> preparedMapField) list \<times> transactionPlan) res" where
  "upsertOwner_with planMap d fs pl =
    res_fold (upsert_field planMap d) (enumerate 0 fs) (None, [], pl)"

definition redirect :: "nat \<Rightarrow> int \<Rightarrow> int \<Rightarrow> transactionPlan \<Rightarrow> transactionPlan" where
  "redirect start entity owner pl =
    pl\<lparr>pl_assertions := take start (pl_assertions pl)
          @ map (\<lambda>f. f\<lparr>pf_e := owner\<rparr>) (drop start (pl_assertions pl)),
       pl_tempids := map (\<lambda>(t, i). (t, if i = entity then owner else i)) (pl_tempids pl)\<rparr>"

text \<open>One value of a field: unique values may move the whole map to their owner.\<close>

definition plan_map_value ::
    "db \<Rightarrow> bool \<Rightarrow> nat \<Rightarrow> int \<Rightarrow> string \<Rightarrow> storedValue \<Rightarrow> int \<times> attributeSchema \<times> transactionPlan
     \<Rightarrow> (int \<times> attributeSchema \<times> transactionPlan) res" where
  "plan_map_value d pinned start attrID attr value = (\<lambda>(entity, sc, pl).
    let owner = (if sc_unique sc then uniqueOwnerIncludingPlan d pl attrID value else None) in
    res_bind (case owner of
                None \<Rightarrow> Inr (entity, pl)
              | Some w \<Rightarrow> if w = entity then Inr (entity, pl)
                          else if pinned then fail ErrConflict
                          else Inr (w, redirect start entity w pl)) (\<lambda>(entity', pl1).
    res_bind (fix_vector_schema attrID sc value pl1) (\<lambda>(sc', pl2).
      Inr (entity', sc', plan_assert entity' attrID attr value pl2))))"

definition prepare_field ::
    "map_planner \<Rightarrow> db \<Rightarrow> (nat \<times> preparedMapField) list \<Rightarrow> nat \<Rightarrow> string \<Rightarrow> any \<Rightarrow> transactionPlan
     \<Rightarrow> (preparedMapField \<times> transactionPlan) res" where
  "prepare_field planMap d prepared index name value pl =
    (case map_of prepared index of
       Some item \<Rightarrow> Inr (item, pl)
     | None \<Rightarrow>
        res_bind (plan_create_name d name True pl) (\<lambda>(attrID, pl1).
        res_bind (schemaForPlan d attrID pl1) (\<lambda>(sc, pl2).
          if is_array value \<and> \<not> sc_many sc then fail ErrConflict
          else res_bind (expandAttribute_with planMap d sc value pl2) (\<lambda>(values, pl3).
            Inr (\<lparr>pm_values = values, pm_schema = sc, pm_attr = attrID\<rparr>, pl3)))))"

definition plan_map_field ::
    "map_planner \<Rightarrow> db \<Rightarrow> bool \<Rightarrow> nat \<Rightarrow> (nat \<times> preparedMapField) list \<Rightarrow> nat \<times> string \<times> any
     \<Rightarrow> int \<times> transactionPlan \<Rightarrow> (int \<times> transactionPlan) res" where
  "plan_map_field planMap d pinned start prepared = (\<lambda>(index, name, value) (entity, pl).
    if name = ''id'' then Inr (entity, pl)
    else res_bind (prepare_field planMap d prepared index name value pl) (\<lambda>(item, pl1).
      if length (pm_values item) > 1 \<and> \<not> sc_many (pm_schema item) then fail ErrConflict
      else res_bind (res_fold (plan_map_value d pinned start (pm_attr item) name) (pm_values item)
                       (entity, pm_schema item, pl1))
             (\<lambda>(entity', _, pl2). Inr (entity', pl2))))"

definition map_entity ::
    "map_planner \<Rightarrow> db \<Rightarrow> fields \<Rightarrow> transactionPlan
     \<Rightarrow> (int \<times> bool \<times> (nat \<times> preparedMapField) list \<times> transactionPlan) res" where
  "map_entity planMap d fs pl =
    (case map_of fs ''id'' of
       Some idSpec \<Rightarrow> res_bind (resolveWriteEntity d idSpec pl) (\<lambda>((e, pinned), pl1). Inr (e, pinned, [], pl1))
     | None \<Rightarrow>
        res_bind (upsertOwner_with planMap d fs pl) (\<lambda>(owner, prepared, pl1).
          case owner of
            Some e \<Rightarrow> Inr (e, False, prepared, pl1)
          | None \<Rightarrow> res_bind (plan_anonymous pl1) (\<lambda>(e, pl2). Inr (e, False, prepared, pl2))))"

definition planMap_with :: "map_planner \<Rightarrow> db \<Rightarrow> map_planner" where
  "planMap_with planMap d fs pl =
    res_bind (map_entity planMap d fs pl) (\<lambda>(entity, pinned, prepared, pl1).
    res_bind (res_fold (plan_map_field planMap d pinned (length (pl_assertions pl1)) prepared)
                (enumerate 0 fs) (entity, pl1)) (\<lambda>(entity', pl2).
    res_bind (validateUserWriteTarget (db_tables d) entity') (\<lambda>_. Inr (entity', pl2))))"

primrec planMap_fuel :: "nat \<Rightarrow> db \<Rightarrow> map_planner" where
  "planMap_fuel 0 d fs pl = Inl External"
| "planMap_fuel (Suc n) d fs pl = planMap_with (planMap_fuel n d) d fs pl"

definition fields_size :: "fields \<Rightarrow> nat" where
  "fields_size fs = size_list (size_prod (\<lambda>_. 0) size) fs"

definition planMap :: "db \<Rightarrow> map_planner" where
  "planMap d fs = planMap_fuel (Suc (fields_size fs)) d fs"

definition expandAttributeValue ::
    "db \<Rightarrow> attributeSchema \<Rightarrow> any \<Rightarrow> transactionPlan \<Rightarrow> (storedValue list \<times> transactionPlan) res" where
  "expandAttributeValue d = expandAttribute_with (planMap d) d"

subsection \<open>Operations\<close>

definition planAssert :: "db \<Rightarrow> any list \<Rightarrow> transactionPlan \<Rightarrow> transactionPlan res" where
  "planAssert d op pl =
    (if length op \<noteq> 4 then fail ErrType
     else res_bind (resolveOperationEntity d True (op ! 1) pl) (\<lambda>(found, pl1).
       case found of
         None \<Rightarrow> Inr pl1
       | Some entity \<Rightarrow>
          res_bind (validateUserWriteTarget (db_tables d) entity) (\<lambda>_.
            case op ! 2 of
              AStr attr \<Rightarrow>
               res_bind (plan_create_name d attr True pl1) (\<lambda>(attrID, pl2).
               res_bind (schemaForPlan d attrID pl2) (\<lambda>(sc, pl3).
               res_bind (resolveFactValue d sc (op ! 3) pl3) (\<lambda>(value, pl4).
               res_bind (fix_vector_schema attrID sc value pl4) (\<lambda>(_, pl5).
                 Inr (plan_assert entity attrID attr value pl5)))))
            | _ \<Rightarrow> fail ErrType)))"

definition planRetract :: "db \<Rightarrow> any list \<Rightarrow> transactionPlan \<Rightarrow> transactionPlan res" where
  "planRetract d op pl =
    (if length op < 2 \<or> length op > 4 then fail ErrType
     else res_bind (resolveOperationEntity d False (op ! 1) pl) (\<lambda>(found, pl1).
       case found of
         None \<Rightarrow> Inr (appendRetraction missing_request pl1)
       | Some entity \<Rightarrow>
          res_bind (validateUserWriteTarget (db_tables d) entity) (\<lambda>_.
            if length op < 3 then Inr (appendRetraction (request entity None [] None) pl1)
            else case op ! 2 of
              AStr attr \<Rightarrow>
               res_bind (plan_name d attr True False pl1) (\<lambda>(attrFound, pl2).
                 case attrFound of
                   None \<Rightarrow> Inr (appendRetraction missing_request pl2)
                 | Some attrID \<Rightarrow>
                    if length op \<noteq> 4 then Inr (appendRetraction (request entity (Some attrID) attr None) pl2)
                    else res_bind (schemaForPlan d attrID pl2) (\<lambda>(sc, pl3).
                         res_bind (resolveFactValue d sc (op ! 3) pl3) (\<lambda>(value, pl4).
                           Inr (appendRetraction (request entity (Some attrID) attr (Some value)) pl4))))
            | _ \<Rightarrow> fail ErrType)))"

definition missingCASValue :: "any \<Rightarrow> bool res" where
  "missingCASValue value =
    (case objectFields value of
       Some [(k, v)] \<Rightarrow> if k = ''missing'' then (if v = ABool True then Inr True else fail ErrType) else Inr False
     | _ \<Rightarrow> Inr False)"

text \<open>The comparison of \<^verbatim>\<open>cas\<close>: the expected value against the live facts of the target.\<close>

definition cas_expectation ::
    "db \<Rightarrow> attributeSchema \<Rightarrow> rawFact list \<Rightarrow> any \<Rightarrow> transactionPlan \<Rightarrow> transactionPlan res" where
  "cas_expectation d sc current expected pl =
    res_bind (missingCASValue expected) (\<lambda>missing.
      if missing then (if current \<noteq> [] then fail ErrConflict else Inr pl)
      else res_bind (resolveFactValue d sc expected pl) (\<lambda>(value, pl').
        case current of
          [f] \<Rightarrow> if rf_t f \<noteq> sv_tag value \<or> \<not> storageEqual (rf_v f) (sv_storage value) then fail ErrConflict
                 else Inr pl'
        | _ \<Rightarrow> fail ErrConflict))"

definition cas_replacement ::
    "db \<Rightarrow> attributeSchema \<Rightarrow> any \<Rightarrow> transactionPlan \<Rightarrow> (storedValue option \<times> transactionPlan) res" where
  "cas_replacement d sc desired pl =
    res_bind (missingCASValue desired) (\<lambda>missing.
      if missing then Inr (None, pl)
      else res_bind (resolveFactValue d sc desired pl) (\<lambda>(v, pl'). Inr (Some v, pl')))"

definition cas_apply ::
    "int \<Rightarrow> int \<Rightarrow> string \<Rightarrow> rawFact list \<Rightarrow> storedValue option \<Rightarrow> transactionPlan \<Rightarrow> transactionPlan" where
  "cas_apply entity attrID attr current replacement pl =
    (let pl1 = (if length current = 1
                then appendRetraction ((request entity (Some attrID) attr None)\<lparr>rr_cas := True\<rparr>) pl else pl)
     in case replacement of
          None \<Rightarrow> pl1
        | Some v \<Rightarrow>
           appendAssertion ((planned entity attrID attr v (pl_order pl1 + 1))\<lparr>pf_cas := True\<rparr>)
             (pl1\<lparr>pl_order := pl_order pl1 + 1\<rparr>))"

definition planCAS :: "db \<Rightarrow> any list \<Rightarrow> transactionPlan \<Rightarrow> transactionPlan res" where
  "planCAS d op pl =
    (if length op \<noteq> 5 then fail ErrType
     else res_bind (resolveOperationEntity d False (op ! 1) pl) (\<lambda>(found, pl1).
       case found of
         None \<Rightarrow> fail ErrNotFound
       | Some entity \<Rightarrow>
          res_bind (validateUserWriteTarget (db_tables d) entity) (\<lambda>_.
            case op ! 2 of
              AStr attr \<Rightarrow>
               res_bind (plan_name d attr True False pl1) (\<lambda>(attrFound, pl2).
                 case attrFound of
                   None \<Rightarrow> fail ErrNotFound
                 | Some attrID \<Rightarrow>
                    res_bind (schemaForPlan d attrID pl2) (\<lambda>(sc, pl3).
                      if sc_many sc then fail ErrSchema
                      else if (entity, attrID) \<in> set (pl_cas pl3) then fail ErrConflict
                      else let pl4 = pl3\<lparr>pl_cas := (entity, attrID) # pl_cas pl3\<rparr>;
                               current = liveFacts (db_tables d) entity (Some attrID) in
                        if length current > 1 then fail ErrFormat
                        else res_bind (cas_expectation d sc current (op ! 3) pl4) (\<lambda>pl5.
                             res_bind (cas_replacement d sc (op ! 4) pl5) (\<lambda>(replacement, pl6).
                               Inr (cas_apply entity attrID attr current replacement pl6)))))
            | _ \<Rightarrow> fail ErrType)))"

definition planOperation :: "db \<Rightarrow> any list \<Rightarrow> transactionPlan \<Rightarrow> transactionPlan res" where
  "planOperation d op pl =
    (case op of
       AStr name # _ \<Rightarrow>
        if name = ''assert'' then planAssert d op pl
        else if name = ''retract'' then planRetract d op pl
        else if name = ''cas'' then planCAS d op pl
        else fail ErrType
     | _ \<Rightarrow> fail ErrType)"

definition isOperation :: "any list \<Rightarrow> bool" where
  "isOperation items =
    (case items of AStr name # _ \<Rightarrow> name = ''assert'' \<or> name = ''retract'' \<or> name = ''cas'' | _ \<Rightarrow> False)"

definition identityOnlyTempID :: "fields \<Rightarrow> bool" where
  "identityOnlyTempID fs =
    (case fs of
       [(k, v)] \<Rightarrow>
        k = ''id'' \<and>
        (case v of
           ATmp t \<Rightarrow> t \<noteq> []
         | _ \<Rightarrow> (case tmp_object v of Some (AStr name) \<Rightarrow> name \<noteq> [] | _ \<Rightarrow> False))
     | _ \<Rightarrow> False)"

definition plan_fields :: "db \<Rightarrow> fields \<Rightarrow> transactionPlan \<Rightarrow> transactionPlan res" where
  "plan_fields d fs pl =
    (if fs = [] \<or> identityOnlyTempID fs then Inr pl
     else res_bind (planMap d fs pl) (\<lambda>(_, pl'). Inr pl'))"

definition planItem :: "db \<Rightarrow> any \<Rightarrow> transactionPlan \<Rightarrow> transactionPlan res" where
  "planItem d item pl =
    (case objectFields item of
       Some fs \<Rightarrow> plan_fields d fs pl
     | None \<Rightarrow>
        (case item of
           AList op \<Rightarrow> if isOperation op then planOperation d op pl else fail ErrType
         | _ \<Rightarrow> fail ErrType))"

definition planData :: "db \<Rightarrow> any \<Rightarrow> transactionPlan \<Rightarrow> transactionPlan res" where
  "planData d data pl =
    (case objectFields data of
       Some fs \<Rightarrow> plan_fields d fs pl
     | None \<Rightarrow>
        (case data of
           AList items \<Rightarrow> if isOperation items then planOperation d items pl else res_fold (planItem d) items pl
         | _ \<Rightarrow> fail ErrType))"

text \<open>Compare-and-set targets belong to their operation alone.\<close>

definition cas_keys :: "transactionPlan \<Rightarrow> (int \<times> int) list" where
  "cas_keys pl = pl_cas pl @ map (\<lambda>f. (pf_e f, pf_a f)) (filter pf_cas (pl_assertions pl))"

definition validateCASIsolation :: "transactionPlan \<Rightarrow> unit res" where
  "validateCASIsolation pl =
    (if list_ex (\<lambda>f. \<not> pf_cas f \<and> (pf_e f, pf_a f) \<in> set (cas_keys pl)) (pl_assertions pl) then fail ErrConflict
     else check (list_all (\<lambda>r. rr_cas r \<or>
         (case rr_a r of
            None \<Rightarrow> rr_e r \<notin> fst ` set (cas_keys pl)
          | Some a \<Rightarrow> (rr_e r, a) \<notin> set (cas_keys pl))) (pl_retracts pl)) ErrConflict)"

subsection \<open>Transaction metadata\<close>

text \<open>\<^verbatim>\<open>taggedInput\<close> (event_wire.go): a portable value and its logical tag as an input of the planner.\<close>

definition wrapper_tag :: "any \<Rightarrow> string option" where
  "wrapper_tag v =
    (case v of
       ARef _ \<Rightarrow> Some ''ref'' | AInstant _ \<Rightarrow> Some ''instant'' | ABytesValue _ \<Rightarrow> Some ''bytes''
     | AVector _ \<Rightarrow> Some ''vector'' | AJSON _ \<Rightarrow> Some ''json'' | _ \<Rightarrow> None)"

definition unwrap_tagged :: "any \<Rightarrow> string \<Rightarrow> any res" where
  "unwrap_tagged value t =
    (case objectFields value of
       Some [(k, v)] \<Rightarrow>
        if k \<in> set [''ref'', ''instant'', ''bytes'', ''vector'', ''json''] then
          (if k \<noteq> t then fail ErrType else Inr v)
        else Inr value
     | _ \<Rightarrow> Inr value)"

definition tagged_logical :: "any \<Rightarrow> string \<Rightarrow> any res" where
  "tagged_logical l t =
    (if t = ''ref'' then Inr (ARef l)
     else if t = ''bool'' then (case l of ABool _ \<Rightarrow> Inr l | _ \<Rightarrow> fail ErrType)
     else if t = ''int'' then (case l of ANum k _ \<Rightarrow> if k = KInt64 then Inr l else fail ErrType | _ \<Rightarrow> fail ErrType)
     else if t = ''float'' then
       (case l of AF64 _ \<Rightarrow> Inr l
        | ANum k n \<Rightarrow> if k = KInt64 then Inr (AF64 (f64_of_int n)) else fail ErrType
        | _ \<Rightarrow> fail ErrType)
     else if t = ''text'' then (case l of AStr _ \<Rightarrow> Inr l | _ \<Rightarrow> fail ErrType)
     else if t = ''instant'' then
       (case l of AStr _ \<Rightarrow> Inr (AObject [(''instant'', l)])
        | ANum k n \<Rightarrow> if k = KInt64 then Inr (AInstant n) else fail ErrType
        | _ \<Rightarrow> fail ErrType)
     else if t = ''bytes'' then (case l of AStr _ \<Rightarrow> Inr (AObject [(''bytes'', l)]) | _ \<Rightarrow> fail ErrType)
     else if t = ''vector'' then (case l of AList _ \<Rightarrow> Inr (AObject [(''vector'', l)]) | _ \<Rightarrow> fail ErrType)
     else if t = ''json'' then Inr (AJSON l)
     else fail ErrType)"

definition taggedInput :: "any \<Rightarrow> string \<Rightarrow> any res" where
  "taggedInput value t =
    (if wrapper_tag value = Some t then Inr value
     else res_bind (unwrap_tagged value t) (\<lambda>l. tagged_logical l t))"

definition reserved_tx_attr :: "string \<Rightarrow> bool" where
  "reserved_tx_attr attr \<longleftrightarrow> attr \<in> set (take 4 (drop 1 systemNames))"

definition finishTxFact ::
    "int \<Rightarrow> int \<Rightarrow> string \<Rightarrow> attributeSchema \<Rightarrow> storedValue \<Rightarrow> transactionPlan
     \<Rightarrow> (plannedFact \<times> transactionPlan) res" where
  "finishTxFact tx attrID attr sc value pl =
    res_bind (fix_vector_schema attrID sc value pl) (\<lambda>(_, pl1).
      Inr ((planned tx attrID attr value (pl_order pl1 + 1))\<lparr>pf_txTarget := True\<rparr>,
           pl1\<lparr>pl_order := pl_order pl1 + 1\<rparr>))"

definition unique_tx_check ::
    "db \<Rightarrow> int \<Rightarrow> int \<Rightarrow> attributeSchema \<Rightarrow> storedValue \<Rightarrow> transactionPlan \<Rightarrow> unit res" where
  "unique_tx_check d tx attrID sc value pl =
    (if sc_unique sc then
       (case uniqueOwnerIncludingPlan d pl attrID value of
          None \<Rightarrow> Inr () | Some owner \<Rightarrow> check (owner = tx) ErrConflict)
     else Inr ())"

definition planTxFact ::
    "db \<Rightarrow> int \<Rightarrow> string \<Rightarrow> any \<Rightarrow> transactionPlan \<Rightarrow> (plannedFact list \<times> transactionPlan) res" where
  "planTxFact d tx attr input pl =
    (if reserved_tx_attr attr then fail ErrSchema
     else res_bind (plan_create_name d attr True pl) (\<lambda>(attrID, pl1).
       res_bind (schemaForPlan d attrID pl1) (\<lambda>(sc, pl2).
       res_bind (resolveFactValue d sc input pl2) (\<lambda>(value, pl3).
       res_bind (unique_tx_check d tx attrID sc value pl3) (\<lambda>_.
       res_bind (finishTxFact tx attrID attr sc value pl3) (\<lambda>(f, pl4). Inr ([f], pl4)))))))"

definition tx_map_value ::
    "db \<Rightarrow> int \<Rightarrow> int \<Rightarrow> string \<Rightarrow> storedValue \<Rightarrow> attributeSchema \<times> plannedFact list \<times> transactionPlan
     \<Rightarrow> (attributeSchema \<times> plannedFact list \<times> transactionPlan) res" where
  "tx_map_value d tx attrID attr value = (\<lambda>(sc, out, pl).
    res_bind (unique_tx_check d tx attrID sc value pl) (\<lambda>_.
    res_bind (finishTxFact tx attrID attr sc value pl) (\<lambda>(f, pl1).
    res_bind (if sv_tag value = TagVector
              then res_bind (vectorDimensions value) (\<lambda>dims. Inr (sc\<lparr>sc_dims := dims, sc_dimsSet := True\<rparr>))
              else Inr sc) (\<lambda>sc'. Inr (sc', out @ [f], pl1)))))"

definition planTxMapFacts ::
    "db \<Rightarrow> int \<Rightarrow> string \<Rightarrow> any \<Rightarrow> transactionPlan \<Rightarrow> (plannedFact list \<times> transactionPlan) res" where
  "planTxMapFacts d tx attr input pl =
    (if reserved_tx_attr attr then fail ErrSchema
     else res_bind (plan_create_name d attr True pl) (\<lambda>(attrID, pl1).
       res_bind (schemaForPlan d attrID pl1) (\<lambda>(sc, pl2).
         if is_array input \<and> \<not> sc_many sc then fail ErrConflict
         else res_bind (expandAttributeValue d sc input pl2) (\<lambda>(values, pl3).
           if length values > 1 \<and> \<not> sc_many sc then fail ErrConflict
           else res_bind (res_fold (tx_map_value d tx attrID attr) values (sc, [], pl3))
                  (\<lambda>(_, out, pl4). Inr (out, pl4))))))"

definition tx_tuple :: "db \<Rightarrow> int \<Rightarrow> any \<Rightarrow> transactionPlan \<Rightarrow> (plannedFact list \<times> transactionPlan) res" where
  "tx_tuple d tx item pl =
    (case item of
       AList [a, v, t] \<Rightarrow>
        (case (a, t) of
           (AStr attr, AStr tagName) \<Rightarrow>
            res_bind (taggedInput v tagName) (\<lambda>input. planTxFact d tx attr input pl)
         | _ \<Rightarrow> fail ErrType)
     | _ \<Rightarrow> fail ErrType)"

definition tx_step ::
    "('a \<Rightarrow> transactionPlan \<Rightarrow> (plannedFact list \<times> transactionPlan) res) \<Rightarrow> 'a
     \<Rightarrow> plannedFact list \<times> transactionPlan \<Rightarrow> (plannedFact list \<times> transactionPlan) res" where
  "tx_step step x = (\<lambda>(out, pl).
    res_bind (step x pl) (\<lambda>(fs, pl1). Inr (out @ fs, appendAssertions fs pl1)))"

definition planTxFacts ::
    "db \<Rightarrow> int \<Rightarrow> any \<Rightarrow> transactionPlan \<Rightarrow> (plannedFact list \<times> transactionPlan) res" where
  "planTxFacts d tx data pl =
    (case data of
       AList tuples \<Rightarrow> res_fold (tx_step (tx_tuple d tx)) tuples ([], pl)
     | _ \<Rightarrow>
        (case objectFields data of
           None \<Rightarrow> fail ErrType
         | Some fs \<Rightarrow>
            res_fold (tx_step (\<lambda>(name, v) p. if name = ''id'' then fail ErrSchema else planTxMapFacts d tx name v p))
              fs ([], pl)))"

subsection \<open>Imported identities\<close>

definition selectorUUID :: "any \<Rightarrow> (string \<times> string) res" where
  "selectorUUID value =
    (case objectFields value of
       Some [(k, v)] \<Rightarrow>
        if k \<noteq> ''eid'' then fail ErrType
        else (case v of
                AStr eid \<Rightarrow>
                 (case parseUUID eid of Inl e \<Rightarrow> Inl e | Inr u \<Rightarrow> Inr (eid, u))
              | _ \<Rightarrow> fail ErrType)
     | _ \<Rightarrow> fail ErrType)"

definition preallocate_one :: "db \<Rightarrow> any \<Rightarrow> transactionPlan \<Rightarrow> transactionPlan res" where
  "preallocate_one d selector pl =
    (case selector of
       AStr name \<Rightarrow> res_bind (plan_name d name False True pl) (\<lambda>(_, pl'). Inr pl')
     | _ \<Rightarrow>
        res_bind (selectorUUID selector) (\<lambda>(eid, uuid).
          if find_gid uuid (db_tables d) \<noteq> None then Inr pl
          else let token = ''event:'' @ eid in
            if map_of (pl_tempids pl) token \<noteq> None then fail ErrConflict
            else res_bind (plan_anonymous pl) (\<lambda>(i, pl1).
              Inr (pl1\<lparr>pl_tempids := AList.update token i (pl_tempids pl1),
                       pl_alloc := (pl_alloc pl1)\<lparr>al_ids := AList.update token i (al_ids (pl_alloc pl1)),
                                                 al_gids := AList.update i eid (al_gids (pl_alloc pl1))\<rparr>\<rparr>))))"

definition preallocateEventIdentities :: "db \<Rightarrow> any list \<Rightarrow> transactionPlan \<Rightarrow> transactionPlan res" where
  "preallocateEventIdentities d selectors = res_fold (preallocate_one d) selectors"

subsection \<open>Compaction of unused identities\<close>

definition remapPendingID :: "(int \<times> int) list \<Rightarrow> int \<Rightarrow> int" where
  "remapPendingID remap i = (case map_of remap i of None \<Rightarrow> i | Some j \<Rightarrow> j)"

definition remap_value :: "(int \<times> int) list \<Rightarrow> storedValue \<Rightarrow> storedValue" where
  "remap_value remap v =
    (if sv_tag v = TagRef then
       (case map_of remap (asInt64 (sv_storage v)) of
          None \<Rightarrow> v
        | Some r \<Rightarrow> v\<lparr>sv_storage := SInt r, sv_logical := AInt64 r\<rparr>)
     else v)"

definition remap_fact :: "(int \<times> int) list \<Rightarrow> plannedFact \<Rightarrow> plannedFact" where
  "remap_fact remap f =
    f\<lparr>pf_e := remapPendingID remap (pf_e f), pf_a := remapPendingID remap (pf_a f),
      pf_value := remap_value remap (pf_value f)\<rparr>"

definition fact_refs :: "plannedFact \<Rightarrow> int list" where
  "fact_refs f = (if sv_tag (pf_value f) = TagRef then [asInt64 (sv_storage (pf_value f))] else [])"

definition kept_ids :: "allocator \<Rightarrow> plannedFact list \<Rightarrow> plannedFact list \<Rightarrow> int list" where
  "kept_ids al assertions txFacts =
    filter (\<lambda>i. al_first al \<le> i \<and> i < al_next al)
      (map snd (al_ids al)
       @ concat (map (\<lambda>f. pf_e f # pf_a f # fact_refs f) assertions)
       @ concat (map (\<lambda>f. pf_a f # fact_refs f) txFacts))"

definition update_id :: "int \<times> int \<Rightarrow> tables \<Rightarrow> tables res" where
  "update_id = (\<lambda>(old, new) tb.
    if old = new \<or> old \<notin> set (map id_id (tb_ids tb)) then Inr tb
    else if new \<in> set (map id_id (tb_ids tb)) then wrap ErrFormat (Some External)
    else Inr (tb\<lparr>tb_ids := map (\<lambda>r. if id_id r = old then r\<lparr>id_id := new\<rparr> else r) (tb_ids tb)\<rparr>))"

definition compact_remap :: "allocator \<Rightarrow> plannedFact list \<Rightarrow> plannedFact list \<Rightarrow> (int \<times> int) list" where
  "compact_remap al assertions txFacts =
    (let ordered = sort (remdups (kept_ids al assertions txFacts))
     in map (\<lambda>(k, old). (old, al_first al + int k)) (enumerate 0 ordered))"

definition compact_allocator :: "(int \<times> int) list \<Rightarrow> allocator \<Rightarrow> allocator" where
  "compact_allocator remap al =
    al\<lparr>al_ids := map (\<lambda>(n, i). (n, remapPendingID remap i)) (al_ids al),
       al_pending := map (\<lambda>p. p\<lparr>pi_id := remapPendingID remap (pi_id p)\<rparr>)
         (filter (\<lambda>p. map_of remap (pi_id p) \<noteq> None \<or> \<not> (al_first al \<le> pi_id p \<and> pi_id p < al_next al))
           (al_pending al)),
       al_next := al_first al + int (length remap),
       al_dirty := (remap \<noteq> [])\<rparr>"

definition compactPendingAllocations ::
    "plannedFact list \<Rightarrow> plannedFact list \<Rightarrow> tables \<Rightarrow> transactionPlan
     \<Rightarrow> (plannedFact list \<times> tables \<times> transactionPlan) res" where
  "compactPendingAllocations assertions txFacts tb pl =
    (let al = pl_alloc pl in
     if al_first al = al_next al then Inr (assertions, tb, pl)
     else let remap = compact_remap al assertions txFacts in
       if int (length remap) = al_next al - al_first al \<and> list_all (\<lambda>(old, new). old = new) remap
       then Inr (assertions, tb, pl)
       else res_bind (res_fold update_id remap tb) (\<lambda>tb'.
         Inr (map (remap_fact remap) assertions, tb',
              pl\<lparr>pl_alloc := compact_allocator remap al,
                 pl_tempids := map (\<lambda>(n, i). (n, remapPendingID remap i))
                   (filter (\<lambda>(_, i). map_of remap i \<noteq> None \<or> \<not> (al_first al \<le> i \<and> i < al_next al))
                     (pl_tempids pl))\<rparr>)))"

definition reportIDs :: "allocator \<Rightarrow> transactionPlan \<Rightarrow> (string \<times> int) list" where
  "reportIDs al pl = put_all (pl_tempids pl) (filter (\<lambda>(n, _). \<not> attributePattern n) (al_ids al))"

end
