(* ===== verification/QueryPlan.thy ===== *)
theory QueryPlan
  imports Plan
begin

text \<open>
  The front of the query engine (query.go): the query document, the static checks of its clauses, the
  variables a clause mentions, and the planner that reorders runs of patterns. \<^verbatim>\<open>Explain\<close> (datoms.go)
  reports the planner's choices.
\<close>

subsection \<open>The query document\<close>

record Q =
  q_find :: "any list"
  q_where :: "any list"
  q_in :: "string list"
  q_order :: "any list"
  q_rules :: "any list"
  q_limit :: "int option"
  q_offset :: int
  q_source :: string

definition queryArrayField :: "fields \<Rightarrow> string \<Rightarrow> any list res" where
  "queryArrayField object name =
    (case map_of object name of
       None \<Rightarrow> Inr []
     | Some ANil \<Rightarrow> Inr []
     | Some (AList items) \<Rightarrow> Inr items
     | Some _ \<Rightarrow> fail ErrQuery)"

definition any_text :: "any \<Rightarrow> string res" where
  "any_text v = (case v of AStr s \<Rightarrow> Inr s | _ \<Rightarrow> fail ErrQuery)"

definition queryStringArrayField :: "fields \<Rightarrow> string \<Rightarrow> string list res" where
  "queryStringArrayField object name =
    (case map_of object name of
       None \<Rightarrow> Inr []
     | Some ANil \<Rightarrow> Inr []
     | Some (AList items) \<Rightarrow> res_map any_text items
     | Some _ \<Rightarrow> fail ErrQuery)"

text \<open>The conversion \<^verbatim>\<open>int(integer)\<close> is exact where \<^verbatim>\<open>int\<close> has 64 bits.\<close>

definition queryIntegerField :: "any \<Rightarrow> int res" where
  "queryIntegerField v =
    (case v of
       ANum k n \<Rightarrow> if k = KInt \<or> k = KInt64 then Inr n else fail ErrQuery
     | AF64 x \<Rightarrow> (case exactInt64Float x of None \<Rightarrow> fail ErrQuery | Some n \<Rightarrow> Inr n)
     | _ \<Rightarrow> fail ErrQuery)"

definition queryFields :: "string list" where
  "queryFields = [''find'', ''where'', ''in'', ''order'', ''rules'', ''limit'', ''offset'', ''source'']"

definition query_source :: "fields \<Rightarrow> string res" where
  "query_source object =
    (case map_of object ''source'' of
       None \<Rightarrow> Inr ''current''
     | Some (AStr s) \<Rightarrow> if s = ''current'' \<or> s = ''history'' then Inr s else fail ErrQuery
     | Some _ \<Rightarrow> fail ErrQuery)"

definition query_integer :: "fields \<Rightarrow> string \<Rightarrow> int option res" where
  "query_integer object name =
    (case map_of object name of
       None \<Rightarrow> Inr None
     | Some ANil \<Rightarrow> Inr None
     | Some v \<Rightarrow> res_bind (queryIntegerField v) (\<lambda>n. Inr (Some n)))"

definition ParseQuery :: "any \<Rightarrow> Q res" where
  "ParseQuery value =
    res_bind (plainJSON value) (\<lambda>plain.
      case plain of
        AMap object \<Rightarrow>
          res_bind (check (list_all (\<lambda>(k, _). k \<in> set queryFields) object) ErrQuery) (\<lambda>_.
          res_bind (queryArrayField object ''find'') (\<lambda>find.
          res_bind (queryArrayField object ''where'') (\<lambda>clauses.
          res_bind (queryArrayField object ''order'') (\<lambda>order.
          res_bind (queryArrayField object ''rules'') (\<lambda>rules.
          res_bind (queryStringArrayField object ''in'') (\<lambda>inputs.
          res_bind (query_source object) (\<lambda>source.
          res_bind (query_integer object ''limit'') (\<lambda>limit.
          res_bind (query_integer object ''offset'') (\<lambda>offset.
            Inr \<lparr>q_find = find, q_where = clauses, q_in = inputs, q_order = order, q_rules = rules,
                 q_limit = limit, q_offset = (case offset of None \<Rightarrow> 0 | Some n \<Rightarrow> n),
                 q_source = source\<rparr>)))))))))
      | _ \<Rightarrow> fail ErrQuery)"

subsection \<open>Variables and kinds of clauses\<close>

definition is_variable :: "string \<Rightarrow> bool" where
  "is_variable s = (case s of [] \<Rightarrow> False | c # _ \<Rightarrow> c = CHR ''?'')"

text \<open>The visitor enters lists, decoded objects and plain maps, but not the named map type \<^verbatim>\<open>E\<close>.\<close>

fun visit_variables :: "any \<Rightarrow> string list" where
  "visit_variables (AStr s) = (if is_variable s then [s] else [])"
| "visit_variables (AList xs) = concat (map visit_variables xs)"
| "visit_variables (AObject fs) = concat (map (\<lambda>p. visit_variables (snd p)) fs)"
| "visit_variables (AMap m) = concat (map (\<lambda>p. visit_variables (snd p)) m)"
| "visit_variables _ = []"

definition clauseVariables :: "any list \<Rightarrow> string list" where
  "clauseVariables clauses = sort (remdups (visit_variables (AList clauses)))"

definition reflectStrings :: "string list \<Rightarrow> string list \<Rightarrow> bool" where
  "reflectStrings l r \<longleftrightarrow> length l = length r \<and> list_all (\<lambda>i. l ! i = r ! i) [0..<length l]"

definition predicateOperators :: "string list" where
  "predicateOperators = [''='', ''!='', ''<'', ''<='', ''>'', ''>='', ''contains'', ''starts-with'']"

definition isPredicateOperator :: "any \<Rightarrow> bool" where
  "isPredicateOperator v = (case v of AStr op \<Rightarrow> op \<in> set predicateOperators | _ \<Rightarrow> False)"

definition isPredicateClause :: "any list \<Rightarrow> bool" where
  "isPredicateClause clause \<longleftrightarrow> length clause = 3 \<and> isPredicateOperator (clause ! 0)"

definition isPatternClause :: "any list \<Rightarrow> bool" where
  "isPatternClause items \<longleftrightarrow> 3 \<le> length items \<and> length items \<le> 5 \<and> \<not> isPredicateClause items"

text \<open>The two forms of a clause: a list of items, or an object with one field that holds a list.\<close>

definition clause_items :: "any \<Rightarrow> any list option" where
  "clause_items c = (case c of AList items \<Rightarrow> Some items | _ \<Rightarrow> None)"

definition clause_object :: "any \<Rightarrow> (string \<times> any list) option" where
  "clause_object c =
    (case objectFields c of
       Some [(name, v)] \<Rightarrow> (case v of AList body \<Rightarrow> Some (name, body) | _ \<Rightarrow> None)
     | _ \<Rightarrow> None)"

text \<open>An attribute term is a variable, the wildcard, or the name of an attribute.\<close>

definition attribute_term :: "any \<Rightarrow> string res" where
  "attribute_term v =
    (case v of
       AStr a \<Rightarrow> if a \<noteq> ''_'' \<and> \<not> is_variable a \<and> \<not> attributePattern a then fail ErrQuery else Inr a
     | _ \<Rightarrow> fail ErrQuery)"

subsection \<open>Static checks of clauses\<close>

text \<open>
  \<^verbatim>\<open>validateClauseSequence\<close> walks the clauses with the set of bound variables and enters the bodies of
  \<^verbatim>\<open>not\<close> and \<^verbatim>\<open>or\<close>; \<open>recurse\<close> is the walk over such a body. The set is a list of names.
\<close>

type_synonym clause_walk = "any list \<Rightarrow> string list \<Rightarrow> string list res"

definition validate_items :: "any list \<Rightarrow> string list \<Rightarrow> string list res" where
  "validate_items items bound =
    (if items \<noteq> [] \<and> isPredicateOperator (items ! 0) then
       if length items \<noteq> 3 then fail ErrQuery
       else if list_all (\<lambda>v. v \<in> set bound) (clauseVariables items) then Inr bound else fail ErrQuery
     else if length items < 3 \<or> length items > 5 then fail ErrQuery
     else res_bind (attribute_term (items ! 1)) (\<lambda>_. Inr (bound @ clauseVariables items)))"

definition validate_not :: "clause_walk \<Rightarrow> any list \<Rightarrow> string list \<Rightarrow> string list res" where
  "validate_not recurse inner bound =
    (if list_ex (\<lambda>v. v \<in> set bound) (clauseVariables inner)
     then res_bind (recurse inner bound) (\<lambda>_. Inr bound) else fail ErrQuery)"

definition validate_branch ::
    "clause_walk \<Rightarrow> string list \<Rightarrow> any \<Rightarrow> string list option \<Rightarrow> string list option res" where
  "validate_branch recurse bound branch expected =
    (case branch of
       AList inner \<Rightarrow>
         res_bind (recurse inner bound) (\<lambda>branchBound.
           let outward = sort (filter (\<lambda>v. v \<notin> set bound) (remdups branchBound)) in
           case expected of
             None \<Rightarrow> Inr (Some outward)
           | Some names \<Rightarrow> if reflectStrings names outward then Inr (Some names) else fail ErrQuery)
     | _ \<Rightarrow> fail ErrQuery)"

definition validate_or :: "clause_walk \<Rightarrow> any list \<Rightarrow> string list \<Rightarrow> string list res" where
  "validate_or recurse branches bound =
    (if branches = [] then fail ErrQuery
     else res_bind (res_fold (validate_branch recurse bound) branches None) (\<lambda>expected.
       Inr (bound @ (case expected of None \<Rightarrow> [] | Some names \<Rightarrow> names))))"

definition validate_rule :: "any list \<Rightarrow> string list \<Rightarrow> string list res" where
  "validate_rule invocation bound =
    (case invocation of
       AStr _ # _ \<Rightarrow> Inr (bound @ clauseVariables invocation)
     | _ \<Rightarrow> fail ErrQuery)"

definition validate_clause :: "clause_walk \<Rightarrow> any \<Rightarrow> string list \<Rightarrow> string list res" where
  "validate_clause recurse clause bound =
    (case clause_items clause of
       Some items \<Rightarrow> validate_items items bound
     | None \<Rightarrow>
       (case clause_object clause of
          Some (name, body) \<Rightarrow>
            if name = ''not'' then validate_not recurse body bound
            else if name = ''or'' then validate_or recurse body bound
            else if name = ''rule'' then validate_rule body bound
            else fail ErrQuery
        | None \<Rightarrow> fail ErrQuery))"

text \<open>The bodies that a clause hands to the walk are smaller than the clause.\<close>

definition clause_size :: "any list \<Rightarrow> nat" where
  "clause_size = size_list size"

lemma clause_size_member: "c \<in> set cs \<Longrightarrow> size c < clause_size cs"
  by (induction cs) (auto simp: clause_size_def)

lemma clause_size_body: "clause_object c = Some (name, body) \<Longrightarrow> clause_size body < size c"
  using size_objectFields_single [of c name "AList body"]
  by (auto simp: clause_object_def clause_size_def split: option.split_asm list.split_asm any.split_asm)

lemma clause_size_branch: "AList inner \<in> set branches \<Longrightarrow> clause_size inner < clause_size branches"
  using clause_size_member [of "AList inner" branches] by (simp add: clause_size_def)

lemma validate_branch_cong:
  "(\<And>inner b. AList inner = branch \<Longrightarrow> f inner b = g inner b) \<Longrightarrow>
   validate_branch f bound branch ex = validate_branch g bound branch ex"
  by (cases branch) (simp_all add: validate_branch_def)

lemma validate_or_cong:
  "(\<And>inner b. AList inner \<in> set branches \<Longrightarrow> f inner b = g inner b) \<Longrightarrow>
   validate_or f branches bound = validate_or g branches bound"
  unfolding validate_or_def
  by (subst res_fold_cong [of branches _ "validate_branch g bound"]) (auto intro: validate_branch_cong)

lemma validate_clause_cong [fundef_cong]:
  assumes "c = c'" "b = b'"
    and "\<And>inner bound. clause_size inner < size c' \<Longrightarrow> f inner bound = g inner bound"
  shows "validate_clause f c b = validate_clause g c' b'"
proof (cases "clause_object c'")
  case (Some p)
  obtain name body where p: "clause_object c' = Some (name, body)" using Some by (cases p) auto
  have "validate_or f body b' = validate_or g body b'"
    by (rule validate_or_cong) (metis assms(3) clause_size_branch clause_size_body p less_trans)
  then show ?thesis
    using assms clause_size_body [OF p]
    by (simp add: validate_clause_def validate_not_def p split: option.split)
qed (simp add: validate_clause_def assms(1,2) split: option.split)

lemma res_fold_fundef [fundef_cong]:
  assumes "xs = ys" "s = t" "\<And>x s. x \<in> set ys \<Longrightarrow> f x s = g x s"
  shows "res_fold f xs s = res_fold g ys t"
  using assms by (auto intro: res_fold_cong)

function validateClauseSequence :: "any list \<Rightarrow> string list \<Rightarrow> string list res" where
  "validateClauseSequence clauses bound =
     res_fold (validate_clause validateClauseSequence) clauses bound"
  by pat_completeness auto
termination
  by (relation "measure (\<lambda>(clauses, _). clause_size clauses)")
    (auto dest: clause_size_member)

declare validateClauseSequence.simps [simp del]

definition outwardClauseBindings :: "any list \<Rightarrow> string list \<Rightarrow> string list res" where
  "outwardClauseBindings clauses inputs = validateClauseSequence clauses inputs"

definition validateClauseBindings :: "any list \<Rightarrow> string list \<Rightarrow> unit res" where
  "validateClauseBindings clauses inputs = res_bind (outwardClauseBindings clauses inputs) (\<lambda>_. Inr ())"

subsection \<open>The find list\<close>

definition aggregateNames :: "string list" where
  "aggregateNames = [''count'', ''count-distinct'', ''sum'', ''min'', ''max'', ''avg'']"

text \<open>The empty string stands for "not an aggregate".\<close>

definition findAggregate :: "any \<Rightarrow> string" where
  "findAggregate item =
    (case clause_items item of
       Some [AStr name, _] \<Rightarrow> if name \<in> set aggregateNames then name else []
     | _ \<Rightarrow> [])"

definition allAggregates :: "any list \<Rightarrow> bool" where
  "allAggregates items = list_all (\<lambda>item. findAggregate item \<noteq> []) items"

text \<open>\<^verbatim>\<open>strings.Contains\<close> and \<^verbatim>\<open>strings.Replace(attr, "/_", "/", 1)\<close>.\<close>

definition Contains :: "string \<Rightarrow> string \<Rightarrow> bool" where
  "Contains s sub = list_ex (\<lambda>i. take (length sub) (drop i s) = sub) [0..<Suc (length s)]"

fun forward_name :: "string \<Rightarrow> string" where
  "forward_name (a # b # r) = (if a = CHR ''/'' \<and> b = CHR ''_'' then a # r else a # forward_name (b # r))"
| "forward_name s = s"

definition validatePullAttribute :: "string \<Rightarrow> unit res" where
  "validatePullAttribute attr = check (attributePattern (forward_name attr)) ErrQuery"

definition validate_pull_item :: "(any list \<Rightarrow> unit res) \<Rightarrow> any \<Rightarrow> unit \<Rightarrow> unit res" where
  "validate_pull_item recurse item u =
    (case item of
       AStr attr \<Rightarrow> if attr = ''*'' then Inr () else validatePullAttribute attr
     | _ \<Rightarrow>
       (case clause_object item of
          Some (name, subpattern) \<Rightarrow> res_bind (validatePullAttribute name) (\<lambda>_. recurse subpattern)
        | None \<Rightarrow> fail ErrQuery))"

lemma validate_pull_item_cong [fundef_cong]:
  assumes "i = i'" "u = u'" "\<And>sub. clause_size sub < size i' \<Longrightarrow> f sub = g sub"
  shows "validate_pull_item f i u = validate_pull_item g i' u'"
  using assms clause_size_body [of i'] by (auto simp: validate_pull_item_def split: any.split option.split)

function validatePullPattern :: "any list \<Rightarrow> unit res" where
  "validatePullPattern pattern = res_fold (validate_pull_item validatePullPattern) pattern ()"
  by pat_completeness auto
termination
  by (relation "measure clause_size") (auto dest: clause_size_member)

declare validatePullPattern.simps [simp del]

text \<open>The two flags are whether an aggregate and whether a pull occurred.\<close>

definition validate_find_item :: "any \<Rightarrow> bool \<times> bool \<Rightarrow> (bool \<times> bool) res" where
  "validate_find_item item st =
    (case st of (hasAggregate, hasPull) \<Rightarrow>
     case item of
       AStr v \<Rightarrow> if is_variable v then Inr st else fail ErrQuery
     | AList parts \<Rightarrow>
        if length parts = 2 \<and> findAggregate item \<noteq> [] then
          (case parts ! 1 of
             AStr v \<Rightarrow> if is_variable v then Inr (True, hasPull) else fail ErrQuery
           | _ \<Rightarrow> fail ErrQuery)
        else if length parts = 3 \<and> parts ! 0 = AStr ''pull'' then
          (case (parts ! 1, parts ! 2) of
             (AStr v, AList pattern) \<Rightarrow>
               if is_variable v then res_bind (validatePullPattern pattern) (\<lambda>_. Inr (hasAggregate, True))
               else fail ErrQuery
           | _ \<Rightarrow> fail ErrQuery)
        else fail ErrQuery
     | _ \<Rightarrow> fail ErrQuery)"

definition validateFindItems :: "any list \<Rightarrow> unit res" where
  "validateFindItems items =
    res_bind (res_fold validate_find_item items (False, False)) (\<lambda>(hasAggregate, hasPull).
      check (\<not> (hasAggregate \<and> hasPull)) ErrQuery)"

definition find_variable :: "any \<Rightarrow> string option" where
  "find_variable item =
    (case item of
       AStr v \<Rightarrow> Some v
     | AList (_ # AStr v # _) \<Rightarrow> Some v
     | _ \<Rightarrow> None)"

definition validateFindBindings :: "Q \<Rightarrow> unit res" where
  "validateFindBindings query =
    res_bind (outwardClauseBindings (q_where query) (q_in query)) (\<lambda>bound.
      check (list_all (\<lambda>item. case find_variable item of
                None \<Rightarrow> True | Some v \<Rightarrow> \<not> (is_variable v \<and> v \<notin> set bound)) (q_find query)) ErrQuery)"

subsection \<open>The order of clauses\<close>

record orderedQueryClause =
  oq_value :: any
  oq_pattern :: "any list"
  oq_ordinal :: nat

definition termPlannedBound :: "any \<Rightarrow> string list \<Rightarrow> bool" where
  "termPlannedBound t bound =
    (case t of AStr v \<Rightarrow> v = ''_'' \<or> \<not> is_variable v \<or> v \<in> set bound | _ \<Rightarrow> True)"

definition patternAccessRank :: "any list \<Rightarrow> string list \<Rightarrow> nat \<times> string" where
  "patternAccessRank pattern bound =
    (let eBound = termPlannedBound (pattern ! 0) bound;
         aBound = termPlannedBound (pattern ! 1) bound;
         vBound = termPlannedBound (pattern ! 2) bound
     in if eBound \<and> aBound \<and> vBound then (0, ''eavt/exact'')
        else if eBound \<and> aBound then
          (case pattern ! 0 of
             AStr v \<Rightarrow> if v \<in> set bound \<and> length pattern = 3 then (0, ''eavt/batch'') else (0, ''eavt/ea'')
           | _ \<Rightarrow> (0, ''eavt/ea''))
        else if aBound \<and> vBound then (1, ''avet'')
        else if eBound then (2, ''eavt/e'')
        else if aBound then (3, ''avet/a'')
        else if vBound then (4, ''value-scan'')
        else (5, ''scan''))"

definition clause_pattern :: "any \<Rightarrow> any list option" where
  "clause_pattern c =
    (case clause_items c of Some items \<Rightarrow> if isPatternClause items then Some items else None | None \<Rightarrow> None)"

text \<open>The variables a barrier binds: those of an object clause other than \<^verbatim>\<open>not\<close>.\<close>

definition barrier_binds :: "any \<Rightarrow> string list" where
  "barrier_binds c =
    (case clause_items c of
       Some items \<Rightarrow> []
     | None \<Rightarrow>
       (case clause_object c of
          Some (name, values) \<Rightarrow> if name \<noteq> ''not'' then clauseVariables values else []
        | None \<Rightarrow> []))"

text \<open>The loop that finds the best pattern of a block: the index and the rank of the best so far.\<close>

definition better :: "string list \<Rightarrow> orderedQueryClause list \<Rightarrow> nat \<Rightarrow> nat \<times> nat \<Rightarrow> nat \<times> nat" where
  "better bound block i st =
    (case st of (best, bestRank) \<Rightarrow>
     let rank = fst (patternAccessRank (oq_pattern (block ! i)) bound) in
     if rank < bestRank \<or> (rank = bestRank \<and> oq_ordinal (block ! i) < oq_ordinal (block ! best))
     then (i, rank) else (best, bestRank))"

definition best_pattern :: "string list \<Rightarrow> orderedQueryClause list \<Rightarrow> nat" where
  "best_pattern bound block =
    fst (fold (better bound block) [1..<length block]
           (0, fst (patternAccessRank (oq_pattern (block ! 0)) bound)))"

lemma best_pattern_less: "block \<noteq> [] \<Longrightarrow> best_pattern bound block < length block"
proof -
  assume "block \<noteq> []"
  have "fst (fold (better bound block) is st) < length block"
    if "fst st < length block" "\<forall>i \<in> set is. i < length block" for "is" st
    using that by (induction "is" arbitrary: st) (auto simp: better_def Let_def split: prod.split)
  then show ?thesis unfolding best_pattern_def using \<open>block \<noteq> []\<close> by auto
qed

function drain :: "orderedQueryClause list \<Rightarrow> string list \<Rightarrow> orderedQueryClause list \<times> string list" where
  "drain block bound =
    (if block = [] then ([], bound)
     else let best = best_pattern bound block; chosen = block ! best;
              (rest, bound') = drain (take best block @ drop (Suc best) block)
                                     (bound @ clauseVariables (oq_pattern chosen))
          in (chosen # rest, bound'))"
  by pat_completeness auto
termination
  apply (relation "measure (\<lambda>(block, _). length block)")
   apply simp
  subgoal for block bound using best_pattern_less [of block bound] by (simp add: min_def)
  done

declare drain.simps [simp del]

definition number_block :: "nat \<Rightarrow> any list \<Rightarrow> orderedQueryClause list" where
  "number_block offset cs =
    map (\<lambda>(i, c). \<lparr>oq_value = c, oq_pattern = (case clause_pattern c of Some p \<Rightarrow> p | None \<Rightarrow> []),
                  oq_ordinal = i\<rparr>) (enumerate offset cs)"

function order_from :: "any list \<Rightarrow> nat \<Rightarrow> string list \<Rightarrow> orderedQueryClause list" where
  "order_from [] offset bound = []"
| "order_from (c # cs) offset bound =
    (case clause_pattern c of
       None \<Rightarrow> \<lparr>oq_value = c, oq_pattern = [], oq_ordinal = offset\<rparr>
                 # order_from cs (offset + 1) (bound @ barrier_binds c)
     | Some _ \<Rightarrow>
        let run = takeWhile (\<lambda>x. clause_pattern x \<noteq> None) (c # cs);
            (ordered, bound') = drain (number_block offset run) bound
        in ordered @ order_from (dropWhile (\<lambda>x. clause_pattern x \<noteq> None) (c # cs)) (offset + length run) bound')"
  by pat_completeness auto
termination
  by (relation "measure (\<lambda>(cs, _, _). length cs)")
    (auto simp: less_Suc_eq_le length_dropWhile_le)

definition orderQueryClauses :: "any list \<Rightarrow> string list \<Rightarrow> orderedQueryClause list" where
  "orderQueryClauses clauses initial = order_from clauses 0 initial"

text \<open>The planner permutes the clauses.\<close>

lemma drain_mset: "mset (fst (drain block bound)) = mset block"
proof (induction block bound rule: drain.induct)
  case (1 block bound)
  show ?case
  proof (cases "block = []")
    case False
    let ?i = "best_pattern bound block"
    have i: "?i < length block" by (rule best_pattern_less [OF False])
    have "mset (fst (drain block bound))
        = add_mset (block ! ?i) (mset (take ?i block @ drop (Suc ?i) block))"
      using 1 False by (subst drain.simps) (simp add: Let_def case_prod_unfold)
    also have "\<dots> = mset (take ?i block @ block ! ?i # drop (Suc ?i) block)" by simp
    also have "\<dots> = mset block" using i by (simp add: id_take_nth_drop [symmetric])
    finally show ?thesis .
  qed (simp add: drain.simps)
qed

lemma oq_value_number_block [simp]: "map oq_value (number_block n cs) = cs"
  by (simp add: number_block_def case_prod_unfold comp_def)

lemma order_from_mset: "mset (map oq_value (order_from cs n bound)) = mset cs"
proof (induction cs n bound rule: order_from.induct)
  case (2 c cs n bound)
  let ?P = "\<lambda>x. clause_pattern x \<noteq> None"
  show ?case
  proof (cases "clause_pattern c")
    case None
    then show ?thesis using 2 by simp
  next
    case (Some p)
    let ?d = "drain (number_block n (takeWhile ?P (c # cs))) bound"
    have "mset (map oq_value (order_from (c # cs) n bound))
        = mset (map oq_value (fst ?d)) + mset (dropWhile ?P (c # cs))"
      using 2(2) [OF Some refl refl prod.collapse, symmetric] Some
      by (simp add: Let_def case_prod_unfold del: takeWhile.simps dropWhile.simps)
    also have "mset (map oq_value (fst ?d)) = mset (takeWhile ?P (c # cs))"
      by (metis drain_mset mset_map oq_value_number_block)
    finally show ?thesis by (metis mset_append takeWhile_dropWhile_id)
  qed
qed simp

lemma orderQueryClauses_mset: "mset (map oq_value (orderQueryClauses cs bound)) = mset cs"
  unfolding orderQueryClauses_def by (rule order_from_mset)

lemma orderQueryClauses_set: "oq_value ` set (orderQueryClauses cs bound) = set cs"
  by (metis orderQueryClauses_mset set_map set_mset_mset)

subsection \<open>Explain (datoms.go)\<close>

record ExplainClause =
  ec_kind :: string
  ec_access :: string
  ec_bound :: "string list"
  ec_ordinal :: nat

record ExplainPlan =
  ex_source :: string
  ex_clauses :: "ExplainClause list"
  ex_warnings :: "nat list"
  ex_basisTx :: int
  ex_workLimit :: int

text \<open>A warning is given by the ordinal that its message names.\<close>

definition explain_clause ::
    "orderedQueryClause \<Rightarrow> ExplainPlan \<times> string list \<Rightarrow> ExplainPlan \<times> string list" where
  "explain_clause c st =
    (case st of (plan, bound) \<Rightarrow>
     let names = sort (remdups bound);
         report = (\<lambda>kind access. plan\<lparr>ex_clauses := ex_clauses plan @
           [\<lparr>ec_kind = kind, ec_access = access, ec_bound = names, ec_ordinal = oq_ordinal c\<rparr>]\<rparr>) in
     case clause_items (oq_value c) of
       Some items \<Rightarrow>
         if isPredicateClause items then (report ''barrier'' ''binding'', bound)
         else let access = snd (patternAccessRank items bound); plan' = report ''pattern'' access in
              (if access = ''scan'' then plan'\<lparr>ex_warnings := ex_warnings plan @ [oq_ordinal c]\<rparr> else plan',
               bound @ clauseVariables items)
     | None \<Rightarrow> (report ''barrier'' ''binding'', bound @ barrier_binds (oq_value c)))"

text \<open>\<^verbatim>\<open>withRead\<close>: the store must be open, and the name caches are refreshed before the read.\<close>

definition withRead :: "db \<Rightarrow> (db \<Rightarrow> 'a res) \<Rightarrow> 'a res \<times> db" where
  "withRead d read =
    (case checkUsable False d of
       Inl e \<Rightarrow> (Inl e, d)
     | Inr _ \<Rightarrow>
       (case refreshNames (db_store d) of
          Inl e \<Rightarrow> (Inl e, d)
        | Inr s \<Rightarrow> (read (d\<lparr>db_store := s\<rparr>), d\<lparr>db_store := s\<rparr>)))"

definition view_basis :: "db \<Rightarrow> int" where
  "view_basis d =
    (let basis = basisOn (db_tables d) in
     case db_asOf d of Some t \<Rightarrow> if t < basis then t else basis | None \<Rightarrow> basis)"

definition explain_query :: "int \<Rightarrow> Q \<Rightarrow> (string \<times> any) list \<Rightarrow> db \<Rightarrow> ExplainPlan" where
  "explain_query budget query args d =
    fst (fold explain_clause
      (orderQueryClauses (q_where query) (filter (\<lambda>v. map_of args v \<noteq> None) (q_in query)))
      (\<lparr>ex_source = q_source query, ex_clauses = [], ex_warnings = [], ex_basisTx = view_basis d,
        ex_workLimit = budget\<rparr>,
       filter (\<lambda>v. map_of args v \<noteq> None) (q_in query)))"

definition Explain :: "int \<Rightarrow> db \<Rightarrow> Q \<Rightarrow> (string \<times> any) list \<Rightarrow> ExplainPlan res \<times> db" where
  "Explain budget d query0 args =
    (let query = (if q_source query0 = [] then query0\<lparr>q_source := ''current''\<rparr> else query0) in
     case validateClauseBindings (q_where query) (q_in query) of
       Inl e \<Rightarrow> (Inl e, d)
     | Inr _ \<Rightarrow> withRead d (\<lambda>d'. Inr (explain_query budget query args d')))"

definition ExplainJSON :: "int \<Rightarrow> db \<Rightarrow> any \<Rightarrow> (string \<times> any) list \<Rightarrow> ExplainPlan res \<times> db" where
  "ExplainJSON budget d v args =
    (case ParseQuery v of Inl e \<Rightarrow> (Inl e, d) | Inr query \<Rightarrow> Explain budget d query args)"

end
