(* ===== verification/QueryEval.thy ===== *)
theory QueryEval
  imports QueryPlan "HOL-Library.Product_Lexorder"
begin

text \<open>
  Evaluation of the where clauses (query.go): cells and bindings, patterns against the indexed fact rows
  with their batched form, predicates, negation, disjunction and rules with their derived relations. Every
  step threads the work counter that \<^verbatim>\<open>spend\<close> charges against the budget; the evaluation of a context that
  is never cancelled is modelled.
\<close>

subsection \<open>Cells\<close>

text \<open>The tag \<open>None\<close> is \<^verbatim>\<open>queryNullTag\<close> (-1), the tag of an aggregate over no values.\<close>

record cell =
  cl_value :: any
  cl_tag :: "tag option"

abbreviation Cell :: "any \<Rightarrow> tag \<Rightarrow> cell" where
  "Cell v t \<equiv> \<lparr>cl_value = v, cl_tag = Some t\<rparr>"

text \<open>The zero value \<^verbatim>\<open>cell{}\<close>: tag 0 is \<^verbatim>\<open>TagRef\<close>.\<close>

definition zero_cell :: cell where
  "zero_cell = Cell ANil TagRef"

type_synonym binding = "(string \<times> cell) list"

fun tag_number :: "tag option \<Rightarrow> int" where
  "tag_number None = -1"
| "tag_number (Some TagRef) = 0"
| "tag_number (Some TagBool) = 1"
| "tag_number (Some TagInt) = 2"
| "tag_number (Some TagFloat) = 3"
| "tag_number (Some TagText) = 4"
| "tag_number (Some TagInstant) = 5"
| "tag_number (Some TagBytes) = 6"
| "tag_number (Some TagVector) = 7"
| "tag_number (Some TagTextRef) = 8"
| "tag_number (Some TagBytesRef) = 9"
| "tag_number (Some TagJSON) = 10"

text \<open>\<^verbatim>\<open>reflect.DeepEqual\<close>: floats by \<^verbatim>\<open>==\<close>, maps as maps, everything else by structure.\<close>

definition f32_eq :: "f32 \<Rightarrow> f32 \<Rightarrow> bool" where
  "f32_eq x y \<longleftrightarrow> f64_eq (f64_of_f32 x) (f64_of_f32 y)"

lemma size_member: "x \<in> set xs \<Longrightarrow> size x < Suc (size_list size xs)"
  by (induction xs) auto

lemma size_member_snd: "x \<in> set m \<Longrightarrow> size (snd x) < Suc (size_list (size_prod (\<lambda>_. 0) size) m)"
  by (induction m) auto

function deepEqual :: "any \<Rightarrow> any \<Rightarrow> bool" where
  "deepEqual l r =
    (case (l, r) of
       (AF64 x, AF64 y) \<Rightarrow> f64_eq x y
     | (AF32 x, AF32 y) \<Rightarrow> f32_eq x y
     | (AF32s xs, AF32s ys) \<Rightarrow> list_all2 f32_eq xs ys
     | (AVector xs, AVector ys) \<Rightarrow> list_all2 f32_eq xs ys
     | (AList xs, AList ys) \<Rightarrow> length xs = length ys \<and> list_all (\<lambda>(x, y). deepEqual x y) (zip xs ys)
     | (AObject xs, AObject ys) \<Rightarrow>
         length xs = length ys \<and> list_all (\<lambda>(x, y). fst x = fst y \<and> deepEqual (snd x) (snd y)) (zip xs ys)
     | (AMap m, AMap n) \<Rightarrow>
         length m = length n \<and>
         list_all (\<lambda>p. case map_of n (fst p) of None \<Rightarrow> False | Some w \<Rightarrow> deepEqual (snd p) w) m
     | (AE m, AE n) \<Rightarrow>
         length m = length n \<and>
         list_all (\<lambda>p. case map_of n (fst p) of None \<Rightarrow> False | Some w \<Rightarrow> deepEqual (snd p) w) m
     | (ARef x, ARef y) \<Rightarrow> deepEqual x y
     | (AJSON x, AJSON y) \<Rightarrow> deepEqual x y
     | _ \<Rightarrow> l = r)"
  by pat_completeness auto

termination
  by (relation "measure (\<lambda>(l, _). size l)")
    (auto dest!: set_zip_leftD dest: size_member size_member_snd elim!: in_set_zipE)

declare deepEqual.simps [simp del]

text \<open>\<^verbatim>\<open>storageEqual\<close> on logical values.\<close>

definition valueEqual :: "any \<Rightarrow> any \<Rightarrow> bool" where
  "valueEqual l r =
    (case (l, r) of
       (AByteSlice x, AByteSlice y) \<Rightarrow> x = y
     | (AByteSlice _, _) \<Rightarrow> False
     | (_, AByteSlice _) \<Rightarrow> False
     | _ \<Rightarrow> deepEqual l r)"

definition cellsEqual :: "cell \<Rightarrow> cell \<Rightarrow> bool" where
  "cellsEqual l r \<longleftrightarrow> cl_tag l = cl_tag r \<and> valueEqual (cl_value l) (cl_value r)"

definition numericCell :: "cell \<Rightarrow> bool" where
  "numericCell c \<longleftrightarrow> cl_tag c = Some TagInt \<or> cl_tag c = Some TagFloat"

text \<open>\<^verbatim>\<open>big.Rat\<close> is exact; \<^verbatim>\<open>SetFloat64\<close> answers nil on a float that is not finite.\<close>

definition rat_of_float :: "f64 \<Rightarrow> rat option" where
  "rat_of_float x = (if IsNaN x \<or> IsInf x then None else Some (f64_rat x))"

definition numericRat :: "any \<Rightarrow> rat option" where
  "numericRat v =
    (case v of
       ANum k n \<Rightarrow> if k = KInt \<or> k = KInt64 then Some (of_int n) else None
     | AF32 x \<Rightarrow> rat_of_float (f64_of_f32 x)
     | AF64 x \<Rightarrow> rat_of_float x
     | _ \<Rightarrow> None)"

definition numeric :: "any \<Rightarrow> f64 option" where
  "numeric v =
    (case v of
       ANum k n \<Rightarrow> if k = KInt64 then Some (f64_of_int n) else None
     | AF32 x \<Rightarrow> Some (f64_of_f32 x)
     | AF64 x \<Rightarrow> Some x
     | _ \<Rightarrow> None)"

text \<open>A three-way comparison, as \<^verbatim>\<open>Rat.Cmp\<close> and \<^verbatim>\<open>strings.Compare\<close> (bytewise) return it.\<close>

definition three_way :: "'a::linorder \<Rightarrow> 'a \<Rightarrow> int" where
  "three_way x y = (if x < y then -1 else if x = y then 0 else 1)"

definition orderedNumericCompare :: "any \<Rightarrow> any \<Rightarrow> int option" where
  "orderedNumericCompare l r =
    (case (numericRat l, numericRat r) of (Some x, Some y) \<Rightarrow> Some (three_way x y) | _ \<Rightarrow> None)"

definition orderedCompare :: "any \<Rightarrow> any \<Rightarrow> int option" where
  "orderedCompare l r =
    (case orderedNumericCompare l r of
       Some c \<Rightarrow> Some c
     | None \<Rightarrow>
       (case (l, r) of
          (ABool x, ABool y) \<Rightarrow> Some (three_way x y)
        | (AStr x, AStr y) \<Rightarrow> Some (three_way x y)
        | _ \<Rightarrow> None))"

definition predicateCellsEqual :: "cell \<Rightarrow> cell \<Rightarrow> bool" where
  "predicateCellsEqual l r =
    (if numericCell l \<and> numericCell r then orderedNumericCompare (cl_value l) (cl_value r) = Some 0
     else cellsEqual l r)"

definition text_predicate :: "(string \<Rightarrow> string \<Rightarrow> bool) \<Rightarrow> cell \<Rightarrow> cell \<Rightarrow> bool res" where
  "text_predicate p l r =
    (case (cl_value l, cl_value r) of (AStr x, AStr y) \<Rightarrow> Inr (p x y) | _ \<Rightarrow> fail ErrQuery)"

definition order_predicate :: "(int \<Rightarrow> bool) \<Rightarrow> cell \<Rightarrow> cell \<Rightarrow> bool res" where
  "order_predicate p l r =
    (if cl_tag l \<noteq> cl_tag r \<and> (\<not> numericCell l \<or> \<not> numericCell r) then fail ErrQuery
     else case orderedCompare (cl_value l) (cl_value r) of None \<Rightarrow> fail ErrQuery | Some c \<Rightarrow> Inr (p c))"

definition compareCells :: "string \<Rightarrow> cell \<Rightarrow> cell \<Rightarrow> bool res" where
  "compareCells op l r =
    (if op = ''='' then Inr (predicateCellsEqual l r)
     else if op = ''!='' then Inr (\<not> predicateCellsEqual l r)
     else if op = ''contains'' then text_predicate Contains l r
     else if op = ''starts-with'' then text_predicate (\<lambda>x y. take (length y) x = y) l r
     else if op = ''<'' then order_predicate (\<lambda>c. c < 0) l r
     else if op = ''<='' then order_predicate (\<lambda>c. c \<le> 0) l r
     else if op = ''>'' then order_predicate (\<lambda>c. c > 0) l r
     else if op = ''>='' then order_predicate (\<lambda>c. c \<ge> 0) l r
     else fail ErrQuery)"

text \<open>The stored form of a bound cell, for the index conditions.\<close>

definition storedCell :: "cell \<Rightarrow> storedValue res" where
  "storedCell c =
    (case cl_tag c of
       None \<Rightarrow> fail ErrQuery
     | Some t \<Rightarrow>
       (let v = cl_value c; n = any_int64 v in
        case t of
          TagRef \<Rightarrow> Inr (stored (AInt64 n) (SInt n) TagRef)
        | TagBool \<Rightarrow>
           (case v of ABool b \<Rightarrow> Inr (stored (ABool b) (SInt (if b then 1 else 0)) TagBool) | _ \<Rightarrow> fail ErrQuery)
        | TagInt \<Rightarrow> Inr (stored (AInt64 n) (SInt n) TagInt)
        | TagFloat \<Rightarrow> (case numeric v of None \<Rightarrow> fail ErrQuery | Some x \<Rightarrow> floatStored x)
        | TagInstant \<Rightarrow> instantStored n
        | TagVector \<Rightarrow> (case v of AF32s xs \<Rightarrow> vectorStored xs | _ \<Rightarrow> fail ErrQuery)
        | TagJSON \<Rightarrow> jsonStored v
        | _ \<Rightarrow>
           if t = TagText \<or> t = TagTextRef
           then (case v of AStr s \<Rightarrow> textStored s | _ \<Rightarrow> fail ErrQuery)
           else (case v of AByteSlice b \<Rightarrow> bytesStored b | _ \<Rightarrow> fail ErrQuery)))"

subsection \<open>Keys\<close>

definition storageKey :: "any \<Rightarrow> any" where
  "storageKey v = (case v of AByteSlice b \<Rightarrow> AStr (EncodeHex b) | _ \<Rightarrow> v)"

definition appendKeyPart :: "string \<Rightarrow> string \<Rightarrow> string" where
  "appendKeyPart b part = b @ dec_digits (length part) @ '':'' @ part"

definition structuralCellKey :: "cell \<Rightarrow> string res" where
  "structuralCellKey c =
    (case canonicalJSON (storageKey (cl_value c)) of
       Inl e \<Rightarrow> wrap ErrQuery (Some e)
     | Inr encoded \<Rightarrow> Inr (appendKeyPart (appendKeyPart [] (FormatInt (tag_number (cl_tag c)))) encoded))"

definition bindingKey :: "binding \<Rightarrow> string res" where
  "bindingKey values =
    res_fold (\<lambda>(name, c) b. res_bind (structuralCellKey c) (\<lambda>k. Inr (appendKeyPart (appendKeyPart b name) k)))
      (sort_key fst values) []"

text \<open>Keep the first element for every key.\<close>

definition keep_new :: "('a \<Rightarrow> string res) \<Rightarrow> 'a \<Rightarrow> string list \<times> 'a list \<Rightarrow> (string list \<times> 'a list) res" where
  "keep_new key x st =
    (case st of (seen, out) \<Rightarrow>
     res_bind (key x) (\<lambda>k. Inr (if k \<in> set seen then st else (k # seen, out @ [x]))))"

definition distinct_by :: "('a \<Rightarrow> string res) \<Rightarrow> 'a list \<Rightarrow> 'a list res" where
  "distinct_by key xs = res_bind (res_fold (keep_new key) xs ([], [])) (\<lambda>(_, out). Inr out)"

definition distinctBindings :: "binding list \<Rightarrow> binding list res" where
  "distinctBindings = distinct_by bindingKey"

subsection \<open>The evaluator\<close>

record ruleDef =
  rd_name :: string
  rd_args :: "string list"
  rd_body :: "any list"

text \<open>A row of the datom statement: a fact row with its transaction and whether it adds or retracts.\<close>

record drow =
  dr_fact :: rawFact
  dr_tx :: int
  dr_added :: bool

text \<open>
  \<open>qe_scan\<close> is the order in which SQLite delivers rows that ORDER BY leaves tied: it gets the columns that the
  statement constrains and the rows, and answers them in some order.
\<close>

record evaluator =
  qe_db :: db
  qe_rules :: "(string \<times> ruleDef list) list"
  qe_relations :: "(string \<times> cell list list) list"
  qe_source :: string
  qe_budget :: int
  qe_scan :: "nat list \<Rightarrow> drow list \<Rightarrow> drow list"

definition DefaultQueryBudget :: int where "DefaultQueryBudget = 100000"

definition work_limit :: "evaluator \<Rightarrow> int" where
  "work_limit e = (if qe_budget e = 0 then DefaultQueryBudget else qe_budget e)"

definition spend :: "evaluator \<Rightarrow> int \<Rightarrow> int res" where
  "spend e work = (if work \<ge> work_limit e then fail ErrTooLarge else Inr (work + 1))"

definition name_id :: "evaluator \<Rightarrow> string \<Rightarrow> int option" where
  "name_id e name = map_of (st_names (db_store (qe_db e))) name"

definition constantCell :: "evaluator \<Rightarrow> any \<Rightarrow> cell res" where
  "constantCell e v =
    (case scalarValue v of
       Inl _ \<Rightarrow> fail ErrQuery
     | Inr sv \<Rightarrow>
       if sv_tag sv = TagRef then
         (case sv_logical sv of
            ARef target \<Rightarrow>
             (case target of
                AStr name \<Rightarrow> Inr (Cell (AInt64 (case name_id e name of None \<Rightarrow> -1 | Some i \<Rightarrow> i)) TagRef)
              | ANum k i \<Rightarrow> if k = KInt64 \<or> k = KInt then Inr (Cell (AInt64 i) TagRef) else fail ErrQuery
              | _ \<Rightarrow> fail ErrQuery)
          | _ \<Rightarrow> fail ErrQuery)
       else Inr (Cell (sv_logical sv) (sv_tag sv)))"

text \<open>A result \<open>None\<close> is "does not match"; otherwise the binding with the variable that the term bound.\<close>

definition match_constant :: "evaluator \<Rightarrow> any \<Rightarrow> cell \<Rightarrow> binding \<Rightarrow> bool \<Rightarrow> binding option res" where
  "match_constant e t actual values entity =
    res_bind (constantCell e t) (\<lambda>c.
    res_bind (if entity \<and> cl_tag c \<noteq> Some TagRef
              then (if cl_tag c = Some TagInt then Inr (c\<lparr>cl_tag := Some TagRef\<rparr>) else fail ErrQuery)
              else Inr c) (\<lambda>c'.
      Inr (if cellsEqual c' actual then Some values else None)))"

definition matchTerm :: "evaluator \<Rightarrow> any \<Rightarrow> cell \<Rightarrow> binding \<Rightarrow> bool \<Rightarrow> binding option res" where
  "matchTerm e t actual values entity =
    (case t of
       AStr text \<Rightarrow>
        if text = ''_'' then Inr (Some values)
        else if is_variable text then
          (case map_of values text of
             Some prior \<Rightarrow> Inr (if cellsEqual prior actual then Some values else None)
           | None \<Rightarrow> Inr (Some (AList.update text actual values)))
        else if entity then
          Inr (if name_id e text = Some (any_int64 (cl_value actual)) then Some values else None)
        else match_constant e t actual values entity
     | _ \<Rightarrow> match_constant e t actual values entity)"

text \<open>The terms of a pattern against the cells of a row, left to right, up to the first that does not match.\<close>

fun match_terms :: "evaluator \<Rightarrow> (any \<times> cell \<times> bool) list \<Rightarrow> binding \<Rightarrow> binding option res" where
  "match_terms e [] values = Inr (Some values)"
| "match_terms e ((t, actual, entity) # rest) values =
    res_bind (matchTerm e t actual values entity) (\<lambda>r.
      case r of None \<Rightarrow> Inr None | Some values' \<Rightarrow> match_terms e rest values')"

subsection \<open>Patterns\<close>

definition preparePatternTerm :: "evaluator \<Rightarrow> any \<Rightarrow> bool \<Rightarrow> cell option res" where
  "preparePatternTerm e t entity =
    (if entity then
       (case resolveReadEntity (qe_db e) t of
          Inl err \<Rightarrow> wrap ErrQuery (Some err)
        | Inr None \<Rightarrow> Inr None
        | Inr (Some i) \<Rightarrow> Inr (Some (Cell (AInt64 i) TagRef)))
     else res_bind (constantCell e t) (\<lambda>c.
       if cl_tag c = Some TagRef then
         let i = any_int64 (cl_value c) in
         if i < 1 \<or> resolveNumericEntity (qe_db e) i = None then Inr None else Inr (Some c)
       else Inr (Some c)))"

text \<open>The outer option is whether the term can match at all, the inner one the cell it is bound to.\<close>

definition patternTermCell :: "evaluator \<Rightarrow> any \<Rightarrow> binding \<Rightarrow> bool \<Rightarrow> cell option option res" where
  "patternTermCell e t values entity =
    (case t of
       AStr v \<Rightarrow>
        if v = ''_'' then Inr (Some None)
        else if is_variable v then Inr (Some (map_of values v))
        else res_bind (preparePatternTerm e t entity) (\<lambda>c. Inr (map_option Some c))
     | _ \<Rightarrow> res_bind (preparePatternTerm e t entity) (\<lambda>c. Inr (map_option Some c)))"

definition entity_position :: "nat \<Rightarrow> bool" where
  "entity_position i \<longleftrightarrow> i = 0 \<or> i = 1 \<or> i = 3"

fun pattern_cells :: "evaluator \<Rightarrow> binding \<Rightarrow> nat \<Rightarrow> any list \<Rightarrow> cell option list option res" where
  "pattern_cells e values i [] = Inr (Some [])"
| "pattern_cells e values i (t # ts) =
    res_bind (patternTermCell e t values (entity_position i)) (\<lambda>r.
      case r of
        None \<Rightarrow> Inr None
      | Some c \<Rightarrow> res_bind (pattern_cells e values (Suc i) ts) (\<lambda>cs. Inr (map_option (\<lambda>xs. c # xs) cs)))"

definition bound_at :: "cell option list \<Rightarrow> nat \<Rightarrow> cell option" where
  "bound_at cs i = (if i < length cs then cs ! i else None)"

text \<open>\<^verbatim>\<open>patternSQLBase\<close>: the datoms of the view, joined with the identities of their attributes.\<close>

definition history_rows :: "int \<Rightarrow> rawFact list \<Rightarrow> drow list" where
  "history_rows basis fs =
    map (\<lambda>f. \<lparr>dr_fact = f, dr_tx = rf_tx f, dr_added = True\<rparr>) (filter (\<lambda>f. rf_tx f \<le> basis) fs) @
    concat (map (\<lambda>f. case rf_rx f of
                       None \<Rightarrow> []
                     | Some rx \<Rightarrow> if rx \<le> basis then [\<lparr>dr_fact = f, dr_tx = rx, dr_added = False\<rparr>] else []) fs)"

definition patternSQLBase :: "evaluator \<Rightarrow> drow list" where
  "patternSQLBase e =
    (let d = qe_db e; tb = db_tables d in
     filter (\<lambda>r. find_id (rf_a (dr_fact r)) tb \<noteq> None)
       (if qe_source e = ''history'' then history_rows (view_basis d) (tb_facts tb)
        else map (\<lambda>f. \<lparr>dr_fact = f, dr_tx = rf_tx f, dr_added = True\<rparr>)
               (filter (visible (db_asOf d)) (tb_facts tb))))"

text \<open>Scanning the name column of a row fails when the identity of its attribute has no name.\<close>

definition scan_logical :: "evaluator \<Rightarrow> drow \<Rightarrow> any res" where
  "scan_logical e r =
    (let tb = db_tables (qe_db e); f = dr_fact r in
     res_bind (attributeName tb (rf_a f)) (\<lambda>_. logicalValue tb (rf_v f) (rf_t f)))"

definition row_cells :: "drow \<Rightarrow> any \<Rightarrow> cell list" where
  "row_cells r logical =
    [Cell (AInt64 (rf_e (dr_fact r))) TagRef, Cell (AInt64 (rf_a (dr_fact r))) TagRef,
     Cell logical (rf_t (dr_fact r)), Cell (AInt64 (dr_tx r)) TagRef, Cell (ABool (dr_added r)) TagBool]"

definition pattern_row :: "any list \<Rightarrow> drow \<Rightarrow> any \<Rightarrow> (any \<times> cell \<times> bool) list" where
  "pattern_row pattern r logical = zip pattern (zip (row_cells r logical) (map entity_position [0..<5]))"

text \<open>The conditions of the indexed statement.\<close>

definition column_condition :: "cell option list \<Rightarrow> nat \<Rightarrow> int \<Rightarrow> bool" where
  "column_condition cs i column =
    (case bound_at cs i of None \<Rightarrow> True | Some c \<Rightarrow> column = any_int64 (cl_value c))"

definition added_term :: "cell option list \<Rightarrow> bool option res" where
  "added_term cs =
    (case bound_at cs 4 of
       None \<Rightarrow> Inr None
     | Some c \<Rightarrow> (case cl_value c of ABool b \<Rightarrow> Inr (Some b) | _ \<Rightarrow> fail ErrQuery))"

definition value_term :: "cell option list \<Rightarrow> storedValue option res" where
  "value_term cs =
    (case (bound_at cs 1, bound_at cs 2) of
       (Some _, Some c) \<Rightarrow> res_bind (storedCell c) (\<lambda>sv. Inr (Some sv))
     | _ \<Rightarrow> Inr None)"

definition row_condition :: "cell option list \<Rightarrow> bool option \<Rightarrow> storedValue option \<Rightarrow> drow \<Rightarrow> bool" where
  "row_condition cs added sv r \<longleftrightarrow>
    (let f = dr_fact r in
     column_condition cs 0 (rf_e f) \<and> column_condition cs 1 (rf_a f) \<and> column_condition cs 3 (dr_tx r)
     \<and> (case added of None \<Rightarrow> True | Some b \<Rightarrow> dr_added r = b)
     \<and> (case sv of None \<Rightarrow> True | Some s \<Rightarrow> sql_eq (rf_v f) (sv_storage s) \<and> rf_t f = sv_tag s))"

definition bound_columns :: "cell option list \<Rightarrow> nat list" where
  "bound_columns cs = filter (\<lambda>i. bound_at cs i \<noteq> None) [0..<5]"

text \<open>\<^verbatim>\<open>ORDER BY dtx, added, e, a\<close>.\<close>

definition datom_order :: "drow \<Rightarrow> int \<times> bool \<times> int \<times> int" where
  "datom_order r = (dr_tx r, dr_added r, rf_e (dr_fact r), rf_a (dr_fact r))"

definition indexed_row ::
    "evaluator \<Rightarrow> any list \<Rightarrow> binding \<Rightarrow> drow \<Rightarrow> binding list \<times> int \<Rightarrow> (binding list \<times> int) res" where
  "indexed_row e pattern current r st =
    (case st of (out, work) \<Rightarrow>
     res_bind (spend e work) (\<lambda>work'.
     res_bind (scan_logical e r) (\<lambda>logical.
     res_bind (match_terms e (pattern_row pattern r logical) current) (\<lambda>m.
       Inr (case m of None \<Rightarrow> out | Some next \<Rightarrow> out @ [next], work')))))"

definition evalIndexedPattern ::
    "evaluator \<Rightarrow> any list \<Rightarrow> binding \<Rightarrow> int \<Rightarrow> (binding list \<times> int) res" where
  "evalIndexedPattern e pattern current work =
    res_bind (pattern_cells e current 0 pattern) (\<lambda>cells.
      case cells of
        None \<Rightarrow> Inr ([], work)
      | Some cs \<Rightarrow>
          res_bind (added_term cs) (\<lambda>added.
          res_bind (value_term cs) (\<lambda>sv.
            res_fold (indexed_row e pattern current)
              (sort_key datom_order
                (qe_scan e (bound_columns cs) (filter (row_condition cs added sv) (patternSQLBase e))))
              ([], work))))"

text \<open>
  The batched form: one statement reads an attribute of up to 400 entities, and every row is matched against the
  bindings of its entity. \<open>batch_plan\<close> holds the guards, in whose absence the pattern is not handled here.
\<close>

definition bound_entity :: "string \<Rightarrow> binding \<Rightarrow> int option" where
  "bound_entity v values =
    (case map_of values v of
       Some c \<Rightarrow> if cl_tag c = Some TagRef then Some (any_int64 (cl_value c)) else None
     | None \<Rightarrow> None)"

definition batch_value :: "any \<Rightarrow> binding list \<Rightarrow> bool" where
  "batch_value t input =
    (case t of
       AStr v \<Rightarrow> if is_variable v then list_all (\<lambda>b. map_of b v = None) input else v = ''_''
     | _ \<Rightarrow> False)"

definition batch_plan :: "evaluator \<Rightarrow> any list \<Rightarrow> binding list \<Rightarrow> (string \<times> string) option" where
  "batch_plan e pattern input =
    (if qe_source e \<noteq> ''current'' \<or> length pattern \<noteq> 3 \<or> length input < 2 then None
     else case (pattern ! 0, pattern ! 1) of
       (AStr v, AStr a) \<Rightarrow> if is_variable v \<and> attributePattern a then Some (v, a) else None
     | _ \<Rightarrow> None)"

definition batch_match ::
    "evaluator \<Rightarrow> any list \<Rightarrow> drow \<Rightarrow> any \<Rightarrow> binding \<Rightarrow> binding list \<times> int \<Rightarrow> (binding list \<times> int) res" where
  "batch_match e pattern r logical current st =
    (case st of (out, work) \<Rightarrow>
     res_bind (spend e work) (\<lambda>work'.
     res_bind (match_terms e (pattern_row pattern r logical) current) (\<lambda>m.
       Inr (case m of None \<Rightarrow> out | Some next \<Rightarrow> out @ [next], work'))))"

definition batch_row ::
    "evaluator \<Rightarrow> any list \<Rightarrow> string \<Rightarrow> binding list \<Rightarrow> drow \<Rightarrow> binding list \<times> int \<Rightarrow> (binding list \<times> int) res" where
  "batch_row e pattern v input r st =
    res_bind (scan_logical e r) (\<lambda>logical.
      res_fold (batch_match e pattern r logical)
        (filter (\<lambda>b. bound_entity v b = Some (rf_e (dr_fact r))) input) st)"

definition batch_rows :: "evaluator \<Rightarrow> int \<Rightarrow> int list \<Rightarrow> drow list" where
  "batch_rows e attribute entities =
    sort_key (\<lambda>r. rf_id (dr_fact r))
      (filter (\<lambda>r. rf_a (dr_fact r) = attribute \<and> rf_e (dr_fact r) \<in> set entities) (patternSQLBase e))"

definition batch_entities :: "string \<Rightarrow> binding list \<Rightarrow> int list" where
  "batch_entities v input =
    sort (remdups (map (\<lambda>b. case bound_entity v b of Some i \<Rightarrow> i | None \<Rightarrow> 0) input))"

function chunks :: "nat \<Rightarrow> 'a list \<Rightarrow> 'a list list" where
  "chunks n xs = (if xs = [] \<or> n = 0 then [] else take n xs # chunks n (drop n xs))"
  by pat_completeness auto
termination
  by (relation "measure (\<lambda>(n, xs). length xs)") auto

declare chunks.simps [simp del]

definition evalBoundEntityBatch ::
    "evaluator \<Rightarrow> any list \<Rightarrow> binding list \<Rightarrow> int \<Rightarrow> (binding list \<times> int) option res" where
  "evalBoundEntityBatch e pattern input work =
    (case batch_plan e pattern input of
       None \<Rightarrow> Inr None
     | Some (v, a) \<Rightarrow>
       (case name_id e a of
          None \<Rightarrow> Inr (Some ([], work))
        | Some attribute \<Rightarrow>
          if \<not> batch_value (pattern ! 2) input \<or> \<not> list_all (\<lambda>b. bound_entity v b \<noteq> None) input then Inr None
          else res_bind (res_fold (\<lambda>chunk. res_fold (batch_row e pattern v input) (batch_rows e attribute chunk))
                           (chunks 400 (batch_entities v input)) ([], work)) (\<lambda>(out, work').
               res_bind (distinctBindings out) (\<lambda>out'. Inr (Some (out', work'))))))"

definition added_term_ok :: "any list \<Rightarrow> bool" where
  "added_term_ok pattern =
    (if length pattern = 5 then
       (case pattern ! 4 of
          ABool _ \<Rightarrow> True
        | AStr v \<Rightarrow> v = ''_'' \<or> is_variable v
        | _ \<Rightarrow> False)
     else True)"

text \<open>The loop over the input bindings: every binding is extended by the rows that match it.\<close>

definition indexed_binding ::
    "evaluator \<Rightarrow> any list \<Rightarrow> binding \<Rightarrow> binding list \<times> int \<Rightarrow> (binding list \<times> int) res" where
  "indexed_binding e pattern current st =
    (case st of (out, work) \<Rightarrow>
     res_bind (evalIndexedPattern e pattern current work) (\<lambda>(matches, work'). Inr (out @ matches, work')))"

definition evalPattern :: "evaluator \<Rightarrow> any list \<Rightarrow> binding list \<Rightarrow> int \<Rightarrow> (binding list \<times> int) res" where
  "evalPattern e pattern input work =
    (if length pattern < 3 \<or> length pattern > 5 then fail ErrQuery
     else res_bind (attribute_term (pattern ! 1)) (\<lambda>attr.
       if attributePattern attr \<and> name_id e attr = None then Inr ([], work)
       else if \<not> added_term_ok pattern then fail ErrQuery
       else res_bind (evalBoundEntityBatch e pattern input work) (\<lambda>handled.
         case handled of
           Some result \<Rightarrow> Inr result
         | None \<Rightarrow>
            res_bind (res_fold (indexed_binding e pattern) input ([], work)) (\<lambda>(out, work').
            res_bind (distinctBindings out) (\<lambda>out'. Inr (out', work'))))))"

subsection \<open>Predicates, negation, disjunction, rules\<close>

definition termValue :: "evaluator \<Rightarrow> any \<Rightarrow> binding \<Rightarrow> cell option res" where
  "termValue e t values =
    (case t of
       AStr v \<Rightarrow> if is_variable v then Inr (map_of values v)
                 else res_bind (constantCell e t) (\<lambda>c. Inr (Some c))
     | _ \<Rightarrow> res_bind (constantCell e t) (\<lambda>c. Inr (Some c)))"

definition predicate_holds :: "evaluator \<Rightarrow> string \<Rightarrow> any list \<Rightarrow> binding \<Rightarrow> bool res" where
  "predicate_holds e op clause values =
    res_bind (termValue e (clause ! 1) values) (\<lambda>l.
    res_bind (termValue e (clause ! 2) values) (\<lambda>r.
      case (l, r) of (Some x, Some y) \<Rightarrow> compareCells op x y | _ \<Rightarrow> fail ErrQuery))"

definition predicate_binding ::
    "evaluator \<Rightarrow> string \<Rightarrow> any list \<Rightarrow> binding \<Rightarrow> binding list \<times> int \<Rightarrow> (binding list \<times> int) res" where
  "predicate_binding e op clause values st =
    (case st of (out, work) \<Rightarrow>
     res_bind (spend e work) (\<lambda>work'.
     res_bind (predicate_holds e op clause values) (\<lambda>matched.
       Inr (if matched then out @ [values] else out, work'))))"

definition evalPredicate :: "evaluator \<Rightarrow> any list \<Rightarrow> binding list \<Rightarrow> int \<Rightarrow> (binding list \<times> int) res" where
  "evalPredicate e clause input work =
    (case clause ! 0 of
       AStr op \<Rightarrow>
         res_bind (res_fold (predicate_binding e op clause) input ([], work)) (\<lambda>(out, work').
         res_bind (distinctBindings out) (\<lambda>out'. Inr (out', work')))
     | _ \<Rightarrow> fail ErrQuery)"

text \<open>The bodies of \<^verbatim>\<open>not\<close> and \<^verbatim>\<open>or\<close> are evaluated by \<open>evalClauses\<close>, here the argument \<open>recurse\<close>.\<close>

type_synonym clause_eval = "any list \<Rightarrow> binding list \<Rightarrow> int \<Rightarrow> (binding list \<times> int) res"

definition correlated :: "string list \<Rightarrow> binding \<Rightarrow> bool" where
  "correlated variables values = list_ex (\<lambda>v. map_of values v \<noteq> None) variables"

definition not_binding ::
    "clause_eval \<Rightarrow> any list \<Rightarrow> binding \<Rightarrow> binding list \<times> int \<Rightarrow> (binding list \<times> int) res" where
  "not_binding recurse clauses values st =
    (case st of (out, work) \<Rightarrow>
     res_bind (recurse clauses [values] work) (\<lambda>(matches, work').
       Inr (if matches = [] then out @ [values] else out, work')))"

definition evalNot :: "clause_eval \<Rightarrow> any list \<Rightarrow> binding list \<Rightarrow> int \<Rightarrow> (binding list \<times> int) res" where
  "evalNot recurse clauses input work =
    (if list_all (correlated (clauseVariables clauses)) input
     then res_fold (not_binding recurse clauses) input ([], work) else fail ErrQuery)"

definition or_branch ::
    "clause_eval \<Rightarrow> binding list \<Rightarrow> any \<Rightarrow> binding list \<times> int \<Rightarrow> (binding list \<times> int) res" where
  "or_branch recurse input branch st =
    (case clause_items branch of
       None \<Rightarrow> fail ErrQuery
     | Some clauses \<Rightarrow>
        (case st of (out, work) \<Rightarrow>
         res_bind (recurse clauses input work) (\<lambda>(matches, work'). Inr (out @ matches, work'))))"

definition evalOr :: "clause_eval \<Rightarrow> any list \<Rightarrow> binding list \<Rightarrow> int \<Rightarrow> (binding list \<times> int) res" where
  "evalOr recurse branches input work =
    (if branches = [] then fail ErrQuery
     else res_bind (res_fold (or_branch recurse input) branches ([], work)) (\<lambda>(out, work').
          res_bind (distinctBindings out) (\<lambda>out'. Inr (out', work'))))"

definition relation_rows :: "evaluator \<Rightarrow> string \<Rightarrow> cell list list" where
  "relation_rows e name = (case map_of (qe_relations e) name of None \<Rightarrow> [] | Some rows \<Rightarrow> rows)"

definition rule_terms :: "any list \<Rightarrow> cell list \<Rightarrow> (any \<times> cell \<times> bool) list" where
  "rule_terms ts tuple = zip ts (map (\<lambda>c. (c, cl_tag c = Some TagRef)) tuple)"

definition rule_tuple ::
    "evaluator \<Rightarrow> any list \<Rightarrow> binding \<Rightarrow> cell list \<Rightarrow> binding list \<times> int \<Rightarrow> (binding list \<times> int) res" where
  "rule_tuple e ts values tuple st =
    (case st of (out, work) \<Rightarrow>
     res_bind (spend e work) (\<lambda>work'.
     res_bind (match_terms e (rule_terms ts tuple) values) (\<lambda>m.
       Inr (case m of None \<Rightarrow> out | Some next \<Rightarrow> out @ [next], work'))))"

definition evalRule :: "evaluator \<Rightarrow> any list \<Rightarrow> binding list \<Rightarrow> int \<Rightarrow> (binding list \<times> int) res" where
  "evalRule e invocation input work =
    (case invocation of
       AStr name # ts \<Rightarrow>
        (case map_of (qe_rules e) name of
           Some (definition # _) \<Rightarrow>
            if length ts \<noteq> length (rd_args definition) then fail ErrQuery
            else res_bind (res_fold (\<lambda>values. res_fold (rule_tuple e ts values) (relation_rows e name))
                             input ([], work)) (\<lambda>(out, work').
                 res_bind (distinctBindings out) (\<lambda>out'. Inr (out', work')))
         | _ \<Rightarrow> fail ErrQuery)
     | _ \<Rightarrow> fail ErrQuery)"

subsection \<open>Clauses\<close>

definition eval_clause ::
    "clause_eval \<Rightarrow> evaluator \<Rightarrow> any \<Rightarrow> binding list \<Rightarrow> int \<Rightarrow> (binding list \<times> int) res" where
  "eval_clause recurse e clause input work =
    (case clause_items clause of
       Some items \<Rightarrow>
         if isPredicateClause items then evalPredicate e items input work else evalPattern e items input work
     | None \<Rightarrow>
       (case clause_object clause of
          None \<Rightarrow> fail ErrQuery
        | Some (name, body) \<Rightarrow>
          if name = ''not'' then evalNot recurse body input work
          else if name = ''or'' then evalOr recurse body input work
          else if name = ''rule'' then evalRule e body input work
          else fail ErrQuery))"

text \<open>The loop over the planned clauses, which stops when no binding is left.\<close>

fun eval_planned ::
    "(any \<Rightarrow> binding list \<Rightarrow> int \<Rightarrow> (binding list \<times> int) res) \<Rightarrow> any list \<Rightarrow> binding list \<Rightarrow> int
     \<Rightarrow> (binding list \<times> int) res" where
  "eval_planned step [] bindings work = Inr (bindings, work)"
| "eval_planned step (c # cs) bindings work =
    res_bind (step c bindings work) (\<lambda>(bindings', work').
      if bindings' = [] then Inr ([], work') else eval_planned step cs bindings' work')"

definition initialBindingNames :: "binding list \<Rightarrow> string list" where
  "initialBindingNames input =
    (case input of
       [] \<Rightarrow> []
     | b # bs \<Rightarrow> filter (\<lambda>v. list_all (\<lambda>values. map_of values v \<noteq> None) bs) (map fst b))"

lemma evalOr_cong:
  assumes "\<And>inner b w. AList inner \<in> set branches \<Longrightarrow> f inner b w = g inner b w"
  shows "evalOr f branches input work = evalOr g branches input work"
proof -
  have *: "or_branch f input c st = or_branch g input c st" if "c \<in> set branches" for c st
    using assms that by (auto simp: or_branch_def clause_items_def split: option.split any.split)
  show ?thesis unfolding evalOr_def by (subst res_fold_cong [OF *]) auto
qed

lemma evalNot_cong:
  assumes "\<And>b w. f body b w = g body b w"
  shows "evalNot f body input work = evalNot g body input work"
  by (simp add: evalNot_def not_binding_def [abs_def] assms)

lemma eval_clause_cong [fundef_cong]:
  assumes "e = e'" "c = c'" "b = b'" "w = w'"
    and "\<And>inner bs work. clause_size inner < size c' \<Longrightarrow> f inner bs work = g inner bs work"
  shows "eval_clause f e c b w = eval_clause g e' c' b' w'"
proof (cases "clause_object c'")
  case (Some p)
  obtain name body where p: "clause_object c' = Some (name, body)" using Some by (cases p) auto
  have "evalOr f body b' w' = evalOr g body b' w'"
    by (rule evalOr_cong) (metis assms(5) clause_size_branch clause_size_body p less_trans)
  moreover have "evalNot f body b' w' = evalNot g body b' w'"
    by (rule evalNot_cong) (rule assms(5) [OF clause_size_body [OF p]])
  ultimately show ?thesis
    using assms(1-4) by (simp add: eval_clause_def p split: option.split)
qed (simp add: eval_clause_def assms(1-4) split: option.split)

lemma eval_planned_cong [fundef_cong]:
  assumes "cs = cs'" "b = b'" "w = w'" "\<And>c bs work. c \<in> set cs' \<Longrightarrow> f c bs work = g c bs work"
  shows "eval_planned f cs b w = eval_planned g cs' b' w'"
proof -
  have "eval_planned f cs' b w = eval_planned g cs' b w"
    using assms(4)
  proof (induction cs' arbitrary: b w)
    case (Cons c cs')
    then show ?case by (cases "g c b w") (auto split: prod.split)
  qed simp
  then show ?thesis using assms(1-3) by simp
qed

function evalClauses :: "evaluator \<Rightarrow> any list \<Rightarrow> binding list \<Rightarrow> int \<Rightarrow> (binding list \<times> int) res" where
  "evalClauses e clauses input work =
     eval_planned (eval_clause (evalClauses e) e)
       (map oq_value (orderQueryClauses clauses (initialBindingNames input))) input work"
  by pat_completeness auto
termination
proof (relation "measure (\<lambda>(e, clauses, _, _). clause_size clauses)", goal_cases)
  case (2 e clauses input work c bs work' inner bs' work'')
  from 2(1) have "c \<in> set clauses" by (simp add: orderQueryClauses_set)
  with 2(2) show ?case using clause_size_member [of c clauses] by simp
qed simp

declare evalClauses.simps [simp del]

end
