(* ===== verification/Events.thy ===== *)
theory Events
  imports Reads
begin

text \<open>
  Portable events and receipts (event.go, event_wire.go): the event/1 record of a transaction, request
  hashes, and the receipts that make a retried operation idempotent.
\<close>

subsection \<open>Wire values\<close>

fun wireValue :: "any \<Rightarrow> any" where
  "wireValue (ARef t) = AMap [(''ref'', wireValue t)]"
| "wireValue (AInstant micros) = AMap [(''instant'', AInt64 micros)]"
| "wireValue (ABytesValue b) = AMap [(''bytes'', ABytesValue b)]"
| "wireValue (AVector v) = AMap [(''vector'', AList (float32JSON v))]"
| "wireValue (AJSON v) = AMap [(''json'', v)]"
| "wireValue (ATmp n) = AMap [(''tmp'', AStr n)]"
| "wireValue (AE m) = AMap (map (\<lambda>p. (fst p, wireValue (snd p))) m)"
| "wireValue (AList xs) = AList (map wireValue xs)"
| "wireValue v = v"

definition canonicalLogicalRequestHash :: "any \<Rightarrow> string res" where
  "canonicalLogicalRequestHash req = res_bind (canonicalJSON req) (\<lambda>encoded. Inr (sha256 encoded))"

definition option_field :: "string \<Rightarrow> any option \<Rightarrow> fields" where
  "option_field k v = (case v of None \<Rightarrow> [] | Some x \<Rightarrow> [(k, x)])"

definition canonicalRequestHash ::
    "any \<Rightarrow> string option \<Rightarrow> string option \<Rightarrow> any option \<Rightarrow> any option \<Rightarrow> string res" where
  "canonicalRequestHash data by source meta txFacts =
    canonicalLogicalRequestHash (AMap
      [(''data'', wireValue data),
       (''options'', AMap (option_field ''by'' (map_option AStr by)
          @ option_field ''source'' (map_option AStr source)
          @ option_field ''meta'' (map_option wireValue meta)
          @ option_field ''tx'' (map_option wireValue txFacts)))])"

subsection \<open>The event of a transaction\<close>

definition identitySelector :: "tables \<Rightarrow> int \<Rightarrow> any res" where
  "identitySelector tb i =
    (case find_id i tb of
       None \<Rightarrow> wrap ErrFormat (Some External)
     | Some r \<Rightarrow>
        (case id_name r of
           Some n \<Rightarrow> Inr (AStr n)
         | None \<Rightarrow>
            (case id_gid r of
               Some g \<Rightarrow> if length g \<noteq> 16 then fail ErrFormat else Inr (AMap [(''eid'', AStr (formatUUID g))])
             | None \<Rightarrow> fail ErrFormat)))"

definition eventValue :: "store \<Rightarrow> any \<Rightarrow> tag \<Rightarrow> any res" where
  "eventValue s logical t =
    (if t \<noteq> TagRef then Inr (renderLogical s logical t)
     else res_bind (identitySelector (st_tables s) (any_int64 logical)) (\<lambda>target. Inr (AMap [(''ref'', target)])))"

definition exportTuple :: "store \<Rightarrow> rawFact \<Rightarrow> any \<Rightarrow> any res" where
  "exportTuple s f logical =
    res_bind (attributeName (st_tables s) (rf_a f)) (\<lambda>attr.
    res_bind (identitySelector (st_tables s) (rf_e f)) (\<lambda>entity.
    res_bind (eventValue s logical (rf_t f)) (\<lambda>value.
      Inr (AList [entity, AStr attr, value, AStr (logicalTag (rf_t f))]))))"

definition created_identity :: "idRow \<Rightarrow> any list" where
  "created_identity r =
    (case id_name r of
       Some n \<Rightarrow> [AStr n]
     | None \<Rightarrow> (case id_gid r of
                  Some g \<Rightarrow> if length g = 16 then [AMap [(''eid'', AStr (formatUUID g))]] else []
                | None \<Rightarrow> []))"

text \<open>The state of the assertion loop: the record line, the asserted tuples, the transaction facts.\<close>

definition export_assertion ::
    "store \<Rightarrow> int \<Rightarrow> rawFact \<Rightarrow> fields \<times> any list \<times> any list \<Rightarrow> (fields \<times> any list \<times> any list) res" where
  "export_assertion s tx f = (\<lambda>(line, tuples, txFacts).
    res_bind (logicalValue (st_tables s) (rf_v f) (rf_t f)) (\<lambda>logical.
      if rf_e f = tx then
        (if rf_a f = 1 then Inr (line, tuples, txFacts)
         else if rf_a f = 2 then Inr (AList.update ''by'' logical line, tuples, txFacts)
         else if rf_a f = 3 then Inr (AList.update ''source'' logical line, tuples, txFacts)
         else if rf_a f = 4 then Inr (AList.update ''meta'' logical line, tuples, txFacts)
         else if rf_a f = 13 then Inr (AList.update ''at'' logical line, tuples, txFacts)
         else res_bind (attributeName (st_tables s) (rf_a f)) (\<lambda>attr.
              res_bind (eventValue s logical (rf_t f)) (\<lambda>value.
                Inr (line, tuples, txFacts @ [AList [AStr attr, value, AStr (logicalTag (rf_t f))]]))))
      else res_bind (exportTuple s f logical) (\<lambda>tuple. Inr (line, tuples @ [tuple], txFacts))))"

definition event_uuid :: "tables \<Rightarrow> int \<Rightarrow> string res" where
  "event_uuid tb tx =
    (case find_id tx tb of
       None \<Rightarrow> wrap ErrFormat (Some External)
     | Some r \<Rightarrow> (case id_gid r of
                   Some g \<Rightarrow> if length g \<noteq> 16 then wrap ErrFormat None else Inr g
                 | None \<Rightarrow> wrap ErrFormat None))"

definition exportTransaction :: "store \<Rightarrow> int \<Rightarrow> int \<Rightarrow> any res" where
  "exportTransaction s tx now =
    (let tb = st_tables s in
     res_bind (event_uuid tb tx) (\<lambda>g.
     let created = concat (map created_identity
           (sort_key id_id (filter (\<lambda>r. id_created r = tx \<and> id_id r \<noteq> tx) (tb_ids tb))));
         line = [(''fgraph'', AStr ''event/1''), (''event'', AStr (formatUUID g)), (''at'', AInt64 now),
                 (''created'', AList created), (''asserted'', AList []), (''retracted'', AList [])] in
     res_bind (res_fold (export_assertion s tx) (select_facts (\<lambda>f. rf_tx f = tx) tb) (line, [], []))
       (\<lambda>(line1, tuples, txFacts).
     res_bind (res_map (\<lambda>f. res_bind (logicalValue tb (rf_v f) (rf_t f)) (exportTuple s f))
                 (select_facts (\<lambda>f. rf_rx f = Some tx) tb)) (\<lambda>retracted.
       let line2 = AList.update ''retracted'' (AList retracted) (AList.update ''asserted'' (AList tuples) line1)
       in Inr (AMap (if txFacts = [] then line2 else AList.update ''tx_facts'' (AList txFacts) line2))))))"

subsection \<open>Receipts\<close>

record TxReport =
  tr_ids :: "(string \<times> int) list"
  tr_status :: string
  tr_event :: string
  tr_asserted :: "Fact list"
  tr_retracted :: "Fact list"
  tr_basis :: int
  tr_tx :: int
  tr_at :: int

definition alreadyAppliedReport :: "TxReport \<Rightarrow> TxReport" where
  "alreadyAppliedReport r =
    r\<lparr>tr_status := ''already_applied'', tr_ids := [], tr_asserted := [], tr_retracted := []\<rparr>"

definition event_at :: "tables \<Rightarrow> int \<Rightarrow> int res" where
  "event_at tb tx =
    (case find (\<lambda>f. rf_e f = tx \<and> rf_a f = 1 \<and> rf_tx f = tx) (tb_facts tb) of
       None \<Rightarrow> wrap ErrFormat (Some External)
     | Some f \<Rightarrow> (case rf_v f of SInt n \<Rightarrow> Inr n | _ \<Rightarrow> wrap ErrFormat (Some External)))"

definition prior_basis :: "tables \<Rightarrow> int \<Rightarrow> int" where
  "prior_basis tb tx =
    (let b = basisOn (tb\<lparr>tb_events := filter (\<lambda>r. ev_tx r < tx) (tb_events tb)\<rparr>) in if b = 0 then tx else b)"

definition eventReceipt :: "store \<Rightarrow> int \<Rightarrow> TxReport res" where
  "eventReceipt s tx =
    (let tb = st_tables s in
     res_bind (event_at tb tx) (\<lambda>now.
     res_bind (event_uuid tb tx) (\<lambda>g.
     res_bind (res_map (\<lambda>f. renderRaw s f None) (select_facts (\<lambda>f. rf_tx f = tx) tb)) (\<lambda>asserted.
     res_bind (res_map (\<lambda>f. renderRaw s f (Some tx)) (select_facts (\<lambda>f. rf_rx f = Some tx) tb)) (\<lambda>retracted.
       Inr \<lparr>tr_ids = [], tr_status = [], tr_event = formatUUID g, tr_asserted = asserted,
            tr_retracted = retracted, tr_basis = prior_basis tb tx, tr_tx = tx, tr_at = now\<rparr>)))))"

definition operationReceipt :: "store \<Rightarrow> string \<Rightarrow> string \<Rightarrow> TxReport option res" where
  "operationReceipt s operationID requestHash =
    (case find (\<lambda>r. ev_op r = Some operationID) (tb_events (st_tables s)) of
       None \<Rightarrow> Inr None
     | Some r \<Rightarrow>
        if ev_req r \<noteq> Some requestHash then fail ErrConflict
        else res_bind (eventReceipt s (ev_tx r)) (\<lambda>report. Inr (Some (alreadyAppliedReport report))))"

end
