(* ===== verification/Datoms.thy ===== *)
theory Datoms
  imports QueryEval Events
begin

text \<open>
  Iteration over datoms (datoms.go): one page of the datoms of a view in the order of an index, restricted by a
  prefix of components, with a cursor that pins the basis and names the last datom of the page before.
\<close>

subsection \<open>The order of SQLite\<close>

text \<open>
  NULL before numbers before text before blobs; integers and reals by their value, text and blobs bytewise
  (\<^verbatim>\<open>ORDER BY\<close> and row-value comparison on columns without affinity).
\<close>

fun sql_key :: "sval \<Rightarrow> int \<times> rat \<times> string" where
  "sql_key SNull = (0, 0, [])"
| "sql_key (SInt n) = (2, of_int n, [])"
| "sql_key (SReal x) =
    (if IsNaN x then (0, 0, []) else if IsInf x then (if f64_neg x then 1 else 3, 0, []) else (2, f64_rat x, []))"
| "sql_key (SText s) = (4, 0, s)"
| "sql_key (SBlob b) = (5, 0, b)"

type_synonym datom_order = "(int \<times> rat \<times> string) \<times> (int \<times> rat \<times> string) \<times> (int \<times> rat \<times> string) \<times> int \<times> int \<times> int \<times> int"

definition tagID :: "tag \<Rightarrow> int" where
  "tagID t = tag_number (Some t)"

text \<open>The three leading columns in the order of the index, then tag, transaction, added and row id.\<close>

definition index_key :: "string \<Rightarrow> int \<Rightarrow> int \<Rightarrow> sval \<Rightarrow> int \<Rightarrow> int \<Rightarrow> int \<Rightarrow> int \<Rightarrow> datom_order" where
  "index_key index e a v t tx added i =
    (let ke = sql_key (SInt e); ka = sql_key (SInt a); kv = sql_key v; rest = (t, tx, added, i) in
     if index = ''avet'' then (ka, kv, ke, rest)
     else if index = ''vaet'' then (kv, ka, ke, rest)
     else (ke, ka, kv, rest))"

definition datom_key :: "string \<Rightarrow> drow \<Rightarrow> datom_order" where
  "datom_key index r =
    (let f = dr_fact r in
     index_key index (rf_e f) (rf_a f) (rf_v f) (tagID (rf_t f)) (dr_tx r) (if dr_added r then 1 else 0) (rf_id f))"

subsection \<open>Cursors\<close>

record datomSeekValue =
  dv_kind :: string
  dv_text :: string
  dv_int :: int
  dv_float :: f64

record datomSeek =
  ds_v :: datomSeekValue
  ds_e :: int
  ds_a :: int
  ds_t :: int
  ds_tx :: int
  ds_added :: int
  ds_id :: int

record datomCursor =
  dc_seek :: "datomSeek option"
  dc_digest :: string
  dc_index :: string
  dc_source :: string
  dc_basis :: int
  dc_format :: int

definition maxDatomPage :: int where "maxDatomPage = 1000"
definition maxDatomCursorBytes :: nat where "maxDatomCursorBytes = 4096"

definition noSeekValue :: datomSeekValue where
  "noSeekValue = \<lparr>dv_kind = [], dv_text = [], dv_int = 0, dv_float = 0\<rparr>"

definition encodeDatomSeekValue :: "sval \<Rightarrow> datomSeekValue" where
  "encodeDatomSeekValue v =
    (case v of
       SInt n \<Rightarrow> noSeekValue\<lparr>dv_kind := ''int'', dv_int := n\<rparr>
     | SReal x \<Rightarrow> noSeekValue\<lparr>dv_kind := ''float'', dv_float := x\<rparr>
     | SText s \<Rightarrow> noSeekValue\<lparr>dv_kind := ''text'', dv_text := s\<rparr>
     | SBlob b \<Rightarrow> noSeekValue\<lparr>dv_kind := ''blob'', dv_text := EncodeHex b\<rparr>
     | SNull \<Rightarrow> noSeekValue\<lparr>dv_kind := ''invalid''\<rparr>)"

definition decode_seek :: "datomSeekValue \<Rightarrow> sval res" where
  "decode_seek v =
    (if dv_kind v = ''int'' then Inr (SInt (dv_int v))
     else if dv_kind v = ''float'' then Inr (SReal (dv_float v))
     else if dv_kind v = ''text'' then Inr (SText (dv_text v))
     else if dv_kind v = ''blob'' then
       (case DecodeHex (dv_text v) of None \<Rightarrow> wrap ErrType (Some External) | Some b \<Rightarrow> Inr (SBlob b))
     else fail ErrType)"

definition seekFromDatom :: "drow \<Rightarrow> datomSeek" where
  "seekFromDatom r =
    (let f = dr_fact r in
     \<lparr>ds_v = encodeDatomSeekValue (rf_v f), ds_e = rf_e f, ds_a = rf_a f, ds_t = tagID (rf_t f),
      ds_tx = dr_tx r, ds_added = (if dr_added r then 1 else 0), ds_id = rf_id f\<rparr>)"

definition seek_arguments :: "datomSeek \<Rightarrow> string \<Rightarrow> sval \<Rightarrow> datom_order" where
  "seek_arguments seek index v =
    index_key index (ds_e seek) (ds_a seek) v (ds_t seek) (ds_tx seek) (ds_added seek) (ds_id seek)"

text \<open>
  The text of a cursor: \<^verbatim>\<open>encoding/json\<close> on the struct and base64 are the parameters \<open>cw_marshal\<close> and \<open>cw_unmarshal\<close>,
  the latter failing on malformed text, unknown fields and trailing data.
\<close>

record cursor_wire =
  cw_marshal :: "datomCursor \<Rightarrow> string"
  cw_unmarshal :: "string \<Rightarrow> datomCursor option"

definition encodeDatomCursor :: "cursor_wire \<Rightarrow> datomCursor \<Rightarrow> string" where
  "encodeDatomCursor cw c = cw_marshal cw c"

definition decodeDatomCursor :: "cursor_wire \<Rightarrow> string \<Rightarrow> datomCursor res" where
  "decodeDatomCursor cw text =
    (if length text > maxDatomCursorBytes then fail ErrTooLarge
     else case cw_unmarshal cw text of
       None \<Rightarrow> wrap ErrType (Some External)
     | Some c \<Rightarrow>
        if dc_format c \<noteq> FormatVersion \<or> dc_basis c < GenesisTx \<or> dc_seek c = None then wrap ErrType None
        else Inr c)"

subsection \<open>One page\<close>

record DatomOptions =
  dp_index :: string
  dp_source :: string
  dp_cursor :: string
  dp_components :: "any list"
  dp_limit :: int

record Datom =
  dm_e :: any
  dm_v :: any
  dm_a :: string
  dm_tx :: int
  dm_factID :: int
  dm_added :: bool

record DatomPage =
  pg_next :: string
  pg_items :: "Datom list"
  pg_basis :: int

definition datomArgumentsDigest :: "DatomOptions \<Rightarrow> string res" where
  "datomArgumentsDigest p =
    res_bind (canonicalJSON (AMap [(''index'', AStr (dp_index p)), (''source'', AStr (dp_source p)),
                                   (''components'', wireValue (AList (dp_components p)))])) (\<lambda>encoded.
      Inr (EncodeHex (sha256 encoded)))"

definition positions :: "string \<Rightarrow> string list" where
  "positions index =
    (if index = ''eavt'' then [''e'', ''a'', ''v'', ''tx'', ''added'']
     else if index = ''avet'' then [''a'', ''v'', ''e'', ''tx'', ''added'']
     else if index = ''vaet'' then [''v'', ''a'', ''e'', ''tx'', ''added''] else [])"

text \<open>
  The condition that a component puts on a datom; \<open>None\<close> where its entity or attribute does not exist.
\<close>

definition entity_component :: "db \<Rightarrow> (drow \<Rightarrow> int) \<Rightarrow> any \<Rightarrow> (drow \<Rightarrow> bool) option res" where
  "entity_component d column input =
    res_bind (resolveReadEntity d input) (\<lambda>found. Inr (map_option (\<lambda>i r. column r = i) found))"

definition attribute_component :: "db \<Rightarrow> any \<Rightarrow> (drow \<Rightarrow> bool) option res" where
  "attribute_component d input =
    (case input of
       AStr name \<Rightarrow>
        if attributePattern name then Inr (map_option (\<lambda>i r. rf_a (dr_fact r) = i) (map_of (st_names (db_store d)) name))
        else fail ErrQuery
     | _ \<Rightarrow> fail ErrQuery)"

definition value_component :: "db \<Rightarrow> string \<Rightarrow> any \<Rightarrow> (drow \<Rightarrow> bool) option res" where
  "value_component d index input =
    (case scalarValue input of
       Inl e \<Rightarrow> wrap ErrQuery (Some e)
     | Inr sv \<Rightarrow>
        if index = ''vaet'' \<and> sv_tag sv \<noteq> TagRef then fail ErrQuery
        else if sv_tag sv = TagRef then
          (case sv_logical sv of
             ARef target \<Rightarrow>
               res_bind (resolveReadEntity d target) (\<lambda>found.
                 Inr (map_option (\<lambda>i r. sql_eq (rf_v (dr_fact r)) (SInt i) \<and> rf_t (dr_fact r) = TagRef) found))
           | _ \<Rightarrow> fail ErrFormat)
        else Inr (Some (\<lambda>r. sql_eq (rf_v (dr_fact r)) (sv_storage sv) \<and> rf_t (dr_fact r) = sv_tag sv)))"

definition added_component :: "any \<Rightarrow> (drow \<Rightarrow> bool) option res" where
  "added_component input =
    (case input of ABool added \<Rightarrow> Inr (Some (\<lambda>r. dr_added r = added)) | _ \<Rightarrow> fail ErrQuery)"

definition component_constraint :: "db \<Rightarrow> string \<Rightarrow> string \<Rightarrow> any \<Rightarrow> (drow \<Rightarrow> bool) option res" where
  "component_constraint d index field input =
    (if field = ''e'' then entity_component d (\<lambda>r. rf_e (dr_fact r)) input
     else if field = ''tx'' then entity_component d dr_tx input
     else if field = ''a'' then attribute_component d input
     else if field = ''v'' then value_component d index input
     else added_component input)"

fun component_constraints :: "db \<Rightarrow> string \<Rightarrow> (string \<times> any) list \<Rightarrow> (drow \<Rightarrow> bool) option res" where
  "component_constraints d index [] = Inr (Some (\<lambda>_. True))"
| "component_constraints d index ((field, input) # rest) =
    res_bind (component_constraint d index field input) (\<lambda>c.
      case c of
        None \<Rightarrow> Inr None
      | Some P \<Rightarrow>
          res_bind (component_constraints d index rest) (\<lambda>cs. Inr (map_option (\<lambda>Q r. P r \<and> Q r) cs)))"

definition datomConstraints :: "db \<Rightarrow> string \<Rightarrow> any list \<Rightarrow> (drow \<Rightarrow> bool) option res" where
  "datomConstraints d index components =
    res_bind (component_constraints d index (zip (positions index) components)) (\<lambda>cs.
      Inr (map_option (\<lambda>P r. (index = ''vaet'' \<longrightarrow> rf_t (dr_fact r) = TagRef) \<and> P r) cs))"

text \<open>The rows of the statement: the live rows where the basis is current, otherwise the rows visible at the basis.\<close>

definition assertion_row :: "rawFact \<Rightarrow> drow" where
  "assertion_row f = \<lparr>dr_fact = f, dr_tx = rf_tx f, dr_added = True\<rparr>"

definition datom_base :: "tables \<Rightarrow> string \<Rightarrow> string \<Rightarrow> int \<Rightarrow> int \<Rightarrow> drow list" where
  "datom_base tb index source basis currentBasis =
    (if source = ''current'' then
       (if basis = currentBasis
        then map assertion_row (filter (\<lambda>f. live f \<and> (index = ''vaet'' \<longrightarrow> rf_t f = TagRef)) (tb_facts tb))
        else map assertion_row (filter (visible (Some basis)) (tb_facts tb)))
     else history_rows basis (tb_facts tb))"

definition seek_condition :: "string \<Rightarrow> datomSeek option \<Rightarrow> (drow \<Rightarrow> bool) res" where
  "seek_condition index seek =
    (case seek of
       None \<Rightarrow> Inr (\<lambda>_. True)
     | Some s \<Rightarrow> res_bind (decode_seek (ds_v s)) (\<lambda>v. Inr (\<lambda>r. datom_key index r > seek_arguments s index v)))"

text \<open>Reading a row fails where the identity of its attribute has no name.\<close>

definition scan_datom :: "tables \<Rightarrow> drow \<Rightarrow> (drow \<times> string) res" where
  "scan_datom tb r = res_bind (attributeName tb (rf_a (dr_fact r))) (\<lambda>name. Inr (r, name))"

definition readDatomPage ::
    "tables \<Rightarrow> DatomOptions \<Rightarrow> int \<Rightarrow> int \<Rightarrow> (drow \<Rightarrow> bool) \<Rightarrow> datomSeek option \<Rightarrow> (drow \<times> string) list res" where
  "readDatomPage tb p basis currentBasis constraints seek =
    res_bind (seek_condition (dp_index p) seek) (\<lambda>after.
      res_map (scan_datom tb)
        (take (nat (dp_limit p + 1))
          (sort_key (datom_key (dp_index p))
            (filter (\<lambda>r. find_id (rf_a (dr_fact r)) tb \<noteq> None \<and> constraints r \<and> after r)
              (datom_base tb (dp_index p) (dp_source p) basis currentBasis)))))"

definition render_datom :: "db \<Rightarrow> drow \<times> string \<Rightarrow> Datom res" where
  "render_datom d item =
    (case item of (r, attr) \<Rightarrow>
     let s = db_store d; f = dr_fact r in
     res_bind (logicalValue (st_tables s) (rf_v f) (rf_t f)) (\<lambda>logical.
       Inr \<lparr>dm_e = displayEntity s (rf_e f), dm_v = renderLogical s logical (rf_t f), dm_a = attr,
            dm_tx = dr_tx r, dm_factID = rf_id f, dm_added = dr_added r\<rparr>))"

subsection \<open>The call\<close>

definition datom_defaults :: "DatomOptions \<Rightarrow> DatomOptions" where
  "datom_defaults p =
    p\<lparr>dp_index := (if dp_index p = [] then ''eavt'' else dp_index p),
      dp_source := (if dp_source p = [] then ''current'' else dp_source p),
      dp_limit := (if dp_limit p = 0 then 100 else dp_limit p)\<rparr>"

definition check_datoms :: "DatomOptions \<Rightarrow> unit res" where
  "check_datoms p =
    (if dp_index p \<noteq> ''eavt'' \<and> dp_index p \<noteq> ''avet'' \<and> dp_index p \<noteq> ''vaet'' then fail ErrQuery
     else if dp_source p \<noteq> ''current'' \<and> dp_source p \<noteq> ''history'' then fail ErrQuery
     else if length (dp_components p) > 5 then fail ErrQuery
     else if dp_limit p < 1 \<or> dp_limit p > maxDatomPage then fail ErrTooLarge
     else Inr ())"

definition cursor_position :: "cursor_wire \<Rightarrow> db \<Rightarrow> DatomOptions \<Rightarrow> string \<Rightarrow> (int \<times> datomSeek option) res" where
  "cursor_position cw d p digest =
    (if dp_cursor p = [] then Inr (view_basis d, None)
     else res_bind (decodeDatomCursor cw (dp_cursor p)) (\<lambda>c.
       if dc_digest c \<noteq> digest \<or> dc_index c \<noteq> dp_index p \<or> dc_source c \<noteq> dp_source p then fail ErrConflict
       else if dc_basis c > basisOn (db_tables d)
         \<or> (case db_asOf d of None \<Rightarrow> False | Some t \<Rightarrow> dc_basis c > t) then fail ErrConflict
       else Inr (dc_basis c, dc_seek c)))"

definition next_cursor :: "cursor_wire \<Rightarrow> DatomOptions \<Rightarrow> string \<Rightarrow> int \<Rightarrow> drow \<Rightarrow> string" where
  "next_cursor cw p digest basis r =
    encodeDatomCursor cw
      \<lparr>dc_seek = Some (seekFromDatom r), dc_digest = digest, dc_index = dp_index p, dc_source = dp_source p,
       dc_basis = basis, dc_format = FormatVersion\<rparr>"

definition datom_page :: "cursor_wire \<Rightarrow> DatomOptions \<Rightarrow> string \<Rightarrow> db \<Rightarrow> DatomPage res" where
  "datom_page cw p digest d =
    res_bind (cursor_position cw d p digest) (\<lambda>(basis, seek).
    res_bind (datomConstraints d (dp_index p) (dp_components p)) (\<lambda>constraints.
      case constraints of
        None \<Rightarrow> Inr \<lparr>pg_next = [], pg_items = [], pg_basis = basis\<rparr>
      | Some P \<Rightarrow>
         res_bind (readDatomPage (db_tables d) p basis (basisOn (db_tables d)) P seek) (\<lambda>raw.
           let more = int (length raw) > dp_limit p; shown = take (nat (dp_limit p)) raw in
           res_bind (res_map (render_datom d) shown) (\<lambda>items.
             Inr \<lparr>pg_next = (if more then next_cursor cw p digest basis (fst (last shown)) else []),
                  pg_items = items, pg_basis = basis\<rparr>))))"

definition Datoms :: "cursor_wire \<Rightarrow> db \<Rightarrow> DatomOptions \<Rightarrow> DatomPage res \<times> db" where
  "Datoms cw d options =
    (let p = datom_defaults options in
     case check_datoms p of
       Inl e \<Rightarrow> (Inl e, d)
     | Inr _ \<Rightarrow>
        (case datomArgumentsDigest p of
           Inl e \<Rightarrow> (Inl e, d)
         | Inr digest \<Rightarrow> withRead d (datom_page cw p digest)))"

end
