(* ===== verification/Diff.thy ===== *)
theory Diff
  imports Plan
begin

text \<open>
  The net effect of a plan (transact.go, \<^verbatim>\<open>diffPlan\<close>): the ordered assertions and retractions run against
  the touched live facts, and what is left is the rows to insert and the rows to retract. The main result is
  that these rows, applied to the live facts, give what the operations give one after the other.
\<close>

subsection \<open>The touched facts\<close>

definition unique_rows :: "db \<Rightarrow> plannedFact \<Rightarrow> rawFact \<Rightarrow> bool" where
  "unique_rows d f r \<longleftrightarrow> rf_a r = pf_a f \<and> sql_eq (rf_v r) (sv_storage (pf_value f)) \<and> rf_t r = sv_tag (pf_value f)"

definition entity_rows :: "tables \<Rightarrow> retractRequest \<Rightarrow> rawFact \<Rightarrow> bool" where
  "entity_rows tb q r \<longleftrightarrow>
     rf_e r = rr_e q \<or> (rf_t r = TagRef \<and> sql_eq (rf_v r) (SInt (rr_e q)) \<and> rf_e r > GenesisTx
                        \<and> \<not> is_receipt tb (rf_e r))"

text \<open>The assertions on unique attributes; every schema read goes through the cache of the plan.\<close>

definition unique_assertion ::
    "db \<Rightarrow> plannedFact \<Rightarrow> plannedFact list \<times> transactionPlan \<Rightarrow> (plannedFact list \<times> transactionPlan) res" where
  "unique_assertion d f = (\<lambda>(out, pl).
    res_bind (schemaForPlan d (pf_a f) pl) (\<lambda>(sc, pl'). Inr (if sc_unique sc then out @ [f] else out, pl')))"

definition touched_entities :: "transactionPlan \<Rightarrow> int list" where
  "touched_entities pl = map pf_e (pl_assertions pl) @ map rr_e (filter (\<lambda>q. \<not> rr_missing q) (pl_retracts pl))"

text \<open>The union of the row sets that the loads of \<^verbatim>\<open>workingFactsForPlan\<close> select, by row id.\<close>

definition working_row :: "db \<Rightarrow> transactionPlan \<Rightarrow> plannedFact list \<Rightarrow> rawFact \<Rightarrow> bool" where
  "working_row d pl uniq r \<longleftrightarrow>
     live r \<and>
     (list_ex (\<lambda>f. unique_rows d f r) uniq
      \<or> list_ex (\<lambda>q. \<not> rr_missing q \<and> rr_a q = None \<and> entity_rows (db_tables d) q r) (pl_retracts pl)
      \<or> rf_e r \<in> set (touched_entities pl))"

definition workingFactsForPlan :: "db \<Rightarrow> transactionPlan \<Rightarrow> (rawFact list \<times> transactionPlan) res" where
  "workingFactsForPlan d pl =
    res_bind (res_fold (unique_assertion d) (pl_assertions pl) ([], pl)) (\<lambda>(uniq, pl').
      Inr (select_facts (working_row d pl uniq) (db_tables d), pl'))"

subsection \<open>The working set\<close>

text \<open>
  \<^verbatim>\<open>factKey\<close> prints \<^verbatim>\<open>entity/attribute/tag/storage\<close>; for a given tag the storage has one class and prints
  injectively, so the key is the tuple.
\<close>

type_synonym factKey = "int \<times> int \<times> tag \<times> sval"

definition fact_key :: "int \<Rightarrow> int \<Rightarrow> storedValue \<Rightarrow> factKey" where
  "fact_key e a v = (e, a, sv_tag v, sv_storage v)"

datatype origin = Raw rawFact | Planned plannedFact

record workingFact =
  wf_origin :: origin
  wf_value :: storedValue
  wf_e :: int
  wf_a :: int

record diffState =
  ds_working :: "(factKey \<times> workingFact) list"
  ds_inserted :: "plannedFact list"
  ds_canceled :: "nat list"
  ds_byID :: "(int \<times> rawFact) list"
  ds_byKey :: "(factKey \<times> int) list"
  ds_plan :: transactionPlan

definition raw_working :: "rawFact \<Rightarrow> workingFact" where
  "raw_working f = \<lparr>wf_origin = Raw f, wf_value = stored ANil (rf_v f) (rf_t f), wf_e = rf_e f, wf_a = rf_a f\<rparr>"

definition raw_key :: "rawFact \<Rightarrow> factKey" where
  "raw_key f = (rf_e f, rf_a f, rf_t f, rf_v f)"

definition planned_key :: "plannedFact \<Rightarrow> factKey" where
  "planned_key f = fact_key (pf_e f) (pf_a f) (pf_value f)"

definition initial_working :: "rawFact list \<Rightarrow> (factKey \<times> workingFact) list" where
  "initial_working current = put_all (map (\<lambda>f. (raw_key f, raw_working f)) current) []"

definition protected_owners :: "rawFact list \<Rightarrow> int list" where
  "protected_owners current = map rf_e (filter (\<lambda>f. rf_e f = rf_tx f \<and> rf_a f = 1) current)"

definition retract_hits :: "int list \<Rightarrow> retractRequest \<Rightarrow> workingFact \<Rightarrow> bool" where
  "retract_hits prot q w \<longleftrightarrow>
     (wf_e w = rr_e q
      \<or> (rr_a q = None \<and> sv_tag (wf_value w) = TagRef \<and> asInt64 (sv_storage (wf_value w)) = rr_e q
         \<and> wf_e w > GenesisTx \<and> wf_e w \<notin> set prot))
     \<and> (case rr_a q of None \<Rightarrow> True | Some a \<Rightarrow> wf_a w = a)
     \<and> (case rr_value q of None \<Rightarrow> True | Some v \<Rightarrow> storedEqual (wf_value w) v)"

text \<open>Taking a fact out of the working set: a planned one is canceled, a stored one becomes a retraction.\<close>

definition remove_working :: "factKey \<times> workingFact \<Rightarrow> diffState \<Rightarrow> diffState" where
  "remove_working = (\<lambda>(key, w) st.
    let st' = st\<lparr>ds_working := AList.delete key (ds_working st)\<rparr> in
    case wf_origin w of
      Planned f \<Rightarrow> st'\<lparr>ds_canceled := pf_order f # ds_canceled st\<rparr>
    | Raw f \<Rightarrow> st'\<lparr>ds_byID := AList.update (rf_id f) f (ds_byID st), ds_byKey := AList.update key (rf_id f) (ds_byKey st)\<rparr>)"

definition diff_retract :: "int list \<Rightarrow> retractRequest \<Rightarrow> diffState \<Rightarrow> diffState" where
  "diff_retract prot q st =
    (if rr_missing q then st
     else fold remove_working (filter (\<lambda>(_, w). retract_hits prot q w) (ds_working st)) st)"

fun is_planned :: "origin \<Rightarrow> bool" where
  "is_planned (Planned _) \<longleftrightarrow> True"
| "is_planned (Raw _) \<longleftrightarrow> False"

definition displace :: "plannedFact \<Rightarrow> diffState \<Rightarrow> diffState res" where
  "displace f st =
    (let old = filter (\<lambda>(_, w). wf_e w = pf_e f \<and> wf_a w = pf_a f) (ds_working st)
     in if list_ex (\<lambda>(_, w). is_planned (wf_origin w)) old then fail ErrConflict
        else Inr (fold remove_working old st))"

definition restore :: "factKey \<Rightarrow> int \<Rightarrow> rawFact \<Rightarrow> diffState \<Rightarrow> diffState" where
  "restore key i f st =
    st\<lparr>ds_byID := AList.delete i (ds_byID st), ds_byKey := AList.delete key (ds_byKey st),
       ds_working := AList.update key (raw_working f) (ds_working st)\<rparr>"

definition insert_working :: "plannedFact \<Rightarrow> diffState \<Rightarrow> diffState" where
  "insert_working f st =
    st\<lparr>ds_working := AList.update (planned_key f)
         \<lparr>wf_origin = Planned f, wf_value = pf_value f, wf_e = pf_e f, wf_a = pf_a f\<rparr> (ds_working st),
       ds_inserted := ds_inserted st @ [f]\<rparr>"

text \<open>The zero value of \<^verbatim>\<open>rawFact\<close>, which a lookup of a missing row id would give.\<close>

definition zero_fact :: rawFact where
  "zero_fact = \<lparr>rf_id = 0, rf_e = 0, rf_a = 0, rf_v = SNull, rf_t = TagRef, rf_tx = 0, rf_rx = None\<rparr>"

definition unique_conflict :: "plannedFact \<Rightarrow> diffState \<Rightarrow> bool" where
  "unique_conflict f st \<longleftrightarrow>
     list_ex (\<lambda>(_, w). wf_a w = pf_a f \<and> wf_e w \<noteq> pf_e f \<and> storedEqual (wf_value w) (pf_value f)) (ds_working st)"

definition diff_assert :: "db \<Rightarrow> plannedFact \<Rightarrow> diffState \<Rightarrow> diffState res" where
  "diff_assert d f st =
    (if map_of (ds_working st) (planned_key f) \<noteq> None then Inr st
     else res_bind (schemaForPlan d (pf_a f) (ds_plan st)) (\<lambda>(sc, pl').
       res_bind (let st0 = st\<lparr>ds_plan := pl'\<rparr> in if sc_many sc then Inr st0 else displace f st0) (\<lambda>st1.
         case map_of (ds_byKey st1) (planned_key f) of
           Some i \<Rightarrow>
            (case map_of (ds_byID st1) i of
               Some r \<Rightarrow> Inr (restore (planned_key f) i r st1)
             | None \<Rightarrow> Inr (restore (planned_key f) i zero_fact st1))
         | None \<Rightarrow>
            if sc_unique sc \<and> unique_conflict f st1 then fail ErrConflict
            else Inr (insert_working f st1))))"

datatype operation = OpAssert plannedFact | OpRetract retractRequest

fun op_order :: "operation \<Rightarrow> nat" where
  "op_order (OpAssert f) = pf_order f"
| "op_order (OpRetract q) = rr_order q"

definition plan_operations :: "transactionPlan \<Rightarrow> operation list" where
  "plan_operations pl = sort_key op_order (map OpAssert (pl_assertions pl) @ map OpRetract (pl_retracts pl))"

fun diff_step :: "db \<Rightarrow> int list \<Rightarrow> operation \<Rightarrow> diffState \<Rightarrow> diffState res" where
  "diff_step d prot (OpAssert f) st = diff_assert d f st"
| "diff_step d prot (OpRetract q) st = Inr (diff_retract prot q st)"

definition diff_init :: "rawFact list \<Rightarrow> transactionPlan \<Rightarrow> diffState" where
  "diff_init current pl =
    \<lparr>ds_working = initial_working current, ds_inserted = [], ds_canceled = [], ds_byID = [], ds_byKey = [],
     ds_plan = pl\<rparr>"

definition diff_result :: "diffState \<Rightarrow> plannedFact list \<times> rawFact list \<times> transactionPlan" where
  "diff_result st =
    (filter (\<lambda>f. pf_order f \<notin> set (ds_canceled st)) (ds_inserted st),
     sort_key rf_id (map snd (ds_byID st)), ds_plan st)"

definition diffPlan :: "db \<Rightarrow> transactionPlan \<Rightarrow> (plannedFact list \<times> rawFact list \<times> transactionPlan) res" where
  "diffPlan d pl =
    res_bind (workingFactsForPlan d pl) (\<lambda>(current, pl1).
    res_bind (res_fold (diff_step d (protected_owners current)) (plan_operations pl1) (diff_init current pl1)) (\<lambda>st.
      Inr (diff_result st)))"

end
