(* ===== verification/Shapes.thy ===== *)
theory Shapes
  imports Plan
begin

text \<open>
  Entities and shapes (read.go, schema.go): pulling an entity to a depth, shape definitions and their
  violations, and the validation of the entities that a transaction touched.
\<close>

subsection \<open>Entities\<close>

definition add_pulled :: "bool \<Rightarrow> string \<Rightarrow> any \<Rightarrow> fields \<Rightarrow> fields res" where
  "add_pulled many attr rendered m =
    (if many then
       (case map_of m attr of
          None \<Rightarrow> Inr (AList.update attr (AList [rendered]) m)
        | Some (AList values) \<Rightarrow> Inr (AList.update attr (AList (values @ [rendered])) m)
        | Some _ \<Rightarrow> fail ErrFormat)
     else Inr (AList.update attr rendered m))"

text \<open>A nil result map renders as \<open>ANil\<close>.\<close>

definition pulled_any :: "fields option \<Rightarrow> any" where
  "pulled_any r = (case r of None \<Rightarrow> ANil | Some m \<Rightarrow> AMap m)"

definition pull_row ::
    "(int \<Rightarrow> fields option res) option \<Rightarrow> db \<Rightarrow> int list \<Rightarrow> rawFact \<Rightarrow> fields \<Rightarrow> fields res" where
  "pull_row deeper d seen f m =
    (case find_id (rf_a f) (db_tables d) of
       None \<Rightarrow> Inr m
     | Some row \<Rightarrow>
        (case id_name row of
           None \<Rightarrow> wrap ErrFormat (Some External)
         | Some attr \<Rightarrow>
            res_bind (logicalValue (db_tables d) (rf_v f) (rf_t f)) (\<lambda>logical.
            res_bind (case deeper of
                        Some pull \<Rightarrow>
                         if rf_t f = TagRef \<and> any_int64 logical \<notin> set seen
                         then res_bind (pull (any_int64 logical)) (\<lambda>r. Inr (pulled_any r))
                         else Inr (renderLogical (db_store d) logical (rf_t f))
                      | None \<Rightarrow> Inr (renderLogical (db_store d) logical (rf_t f))) (\<lambda>rendered.
            res_bind (schemaFor d (rf_a f)) (\<lambda>sc. add_pulled (sc_many sc) attr rendered m)))))"

definition pull_with ::
    "(int \<Rightarrow> fields option res) option \<Rightarrow> db \<Rightarrow> int list \<Rightarrow> int \<Rightarrow> fields option res" where
  "pull_with deeper d seen i =
    res_bind (res_fold (pull_row deeper d (i # seen))
                (sort_key rf_a (select_facts (\<lambda>f. rf_e f = i \<and> visible (db_asOf d) f) (db_tables d))) [])
      (\<lambda>m. if m = [] \<and> \<not> list_ex (\<lambda>r. id_id r = i \<and> id_visible (db_asOf d) r) (tb_ids (db_tables d))
           then Inr None else Inr (Some m))"

text \<open>References open while the depth is above one and the target is not on the path from the root.\<close>

primrec pullEntity :: "nat \<Rightarrow> db \<Rightarrow> int list \<Rightarrow> int \<Rightarrow> fields option res" where
  "pullEntity 0 d seen i = pull_with None d seen i"
| "pullEntity (Suc n) d seen i =
     pull_with (if n = 0 then None else Some (pullEntity n d (i # seen))) d seen i"

definition Entity :: "db \<Rightarrow> any \<Rightarrow> int \<Rightarrow> fields option res" where
  "Entity d ref depth =
    (if depth < 0 then fail ErrType
     else res_bind (checkUsable False d) (\<lambda>_.
       res_bind (resolveReadEntity d ref) (\<lambda>found.
         case found of None \<Rightarrow> fail ErrNotFound | Some i \<Rightarrow> pullEntity (nat depth) d [] i)))"

subsection \<open>Shapes\<close>

record ShapeInfo =
  sh_name :: any
  sh_required :: "string list"
  sh_allowed :: "string list"
  sh_closed :: bool

definition shape_attribute :: "int \<Rightarrow> bool" where
  "shape_attribute a \<longleftrightarrow> a = 16 \<or> a = 17 \<or> a = 18"

definition ref_name :: "tables \<Rightarrow> int \<Rightarrow> string res" where
  "ref_name tb i =
    (case find_id i tb of
       None \<Rightarrow> wrap ErrFormat (Some External)
     | Some r \<Rightarrow> (case id_name r of None \<Rightarrow> wrap ErrFormat None | Some n \<Rightarrow> Inr n))"

definition readShape :: "db \<Rightarrow> int \<Rightarrow> ShapeInfo res" where
  "readShape d i =
    (let tb = db_tables d;
         rows = sort_key rf_a
           (select_facts (\<lambda>f. rf_e f = i \<and> shape_attribute (rf_a f) \<and> visible (db_asOf d) f) tb);
         refs = filter (\<lambda>f. rf_a f \<noteq> 18) rows
     in res_bind (check (list_all (\<lambda>f. rf_t f = TagRef) refs) ErrFormat) (\<lambda>_.
        res_bind (res_map (\<lambda>f. ref_name tb (asInt64 (rf_v f))) refs) (\<lambda>_.
        res_bind (res_map (\<lambda>f. ref_name tb (asInt64 (rf_v f))) (filter (\<lambda>f. rf_a f = 16) refs)) (\<lambda>required.
        res_bind (res_map (\<lambda>f. ref_name tb (asInt64 (rf_v f))) (filter (\<lambda>f. rf_a f \<noteq> 16) refs)) (\<lambda>allowed.
          Inr \<lparr>sh_name = displayEntity (db_store d) i, sh_required = sort required, sh_allowed = sort allowed,
               sh_closed = fold (\<lambda>f c. if rf_a f = 18 then sqliteBool (rf_v f) else c) rows False\<rparr>)))))"

record ValidationViolation =
  vv_code :: string
  vv_entity :: any
  vv_shape :: any
  vv_attribute :: string

definition shape_violations :: "any \<Rightarrow> ShapeInfo \<Rightarrow> string list \<Rightarrow> ValidationViolation list" where
  "shape_violations entity shape attrs =
    (let mk = (\<lambda>code a. \<lparr>vv_code = code, vv_entity = entity, vv_shape = sh_name shape, vv_attribute = a\<rparr>)
     in (if sh_closed shape
         then map (mk ''shape_definition'') (filter (\<lambda>a. a \<notin> set (sh_allowed shape)) (sh_required shape)) else [])
        @ map (mk ''required'') (filter (\<lambda>a. a \<notin> set attrs) (sh_required shape))
        @ (if sh_closed shape
           then map (mk ''allowed'')
                  (filter (\<lambda>a. take 7 a \<noteq> ''fgraph/'' \<and> a \<notin> set (sh_allowed shape)) (sort attrs)) else []))"

definition membership_row :: "rawFact \<Rightarrow> (int \<times> int) res" where
  "membership_row f = (case rf_v f of SInt s \<Rightarrow> Inr (rf_e f, s) | _ \<Rightarrow> wrap ErrFormat (Some External))"

definition membership_issues :: "db \<Rightarrow> int \<times> int \<Rightarrow> ValidationViolation list res" where
  "membership_issues d = (\<lambda>(entity, shape).
    res_bind (readShape d shape) (\<lambda>info.
    res_bind (pullEntity 1 d [] entity) (\<lambda>pulled.
      Inr (shape_violations (displayEntity (db_store d) entity) info
             (map fst (case pulled of None \<Rightarrow> [] | Some m \<Rightarrow> m))))))"

definition shapeIssues :: "db \<Rightarrow> int list \<Rightarrow> ValidationViolation list res" where
  "shapeIssues d targets =
    res_bind (res_map membership_row
      (sort_key rf_e (select_facts (\<lambda>f. rf_a f = 15 \<and> rf_t f = TagRef \<and> visible (db_asOf d) f) (db_tables d))))
      (\<lambda>rows.
        res_bind (res_map (membership_issues d)
                    (filter (\<lambda>(entity, _). targets = [] \<or> entity \<in> set targets) rows))
          (\<lambda>issues. Inr (concat issues)))"

definition changedShapeMembers :: "tables \<Rightarrow> int \<Rightarrow> int list" where
  "changedShapeMembers tb shape =
    map rf_e (filter (\<lambda>f. rf_a f = 15 \<and> rf_t f = TagRef \<and> rf_v f = SInt shape \<and> live f) (tb_facts tb))"

definition changed_shapes :: "transactionPlan \<Rightarrow> int list" where
  "changed_shapes pl =
    map pf_e (filter (\<lambda>f. shape_attribute (pf_a f)) (pl_assertions pl))
    @ map rr_e (filter (\<lambda>q. \<not> rr_missing q \<and> (case rr_a q of None \<Rightarrow> True | Some a \<Rightarrow> shape_attribute a)) (pl_retracts pl))"

definition shape_targets :: "tables \<Rightarrow> transactionPlan \<Rightarrow> int list" where
  "shape_targets tb pl =
    map pf_e (pl_assertions pl) @ map rr_e (filter (\<lambda>q. \<not> rr_missing q) (pl_retracts pl))
    @ concat (map (changedShapeMembers tb) (changed_shapes pl))"

definition validateTouchedShapes :: "db \<Rightarrow> transactionPlan \<Rightarrow> unit res" where
  "validateTouchedShapes d pl =
    res_bind (shapeIssues d (shape_targets (db_tables d) pl)) (\<lambda>violations. check (violations = []) ErrSchema)"

definition sortedUniqueStrings :: "string list \<Rightarrow> string list" where
  "sortedUniqueStrings values = sort (remdups values)"

definition normalizeShapeAttributes :: "string list \<Rightarrow> string list res" where
  "normalizeShapeAttributes values =
    res_bind (res_map (\<lambda>a. res_wrap ErrSchema (validateName a True)) values) (\<lambda>_. Inr (sortedUniqueStrings values))"

text \<open>The transaction that \<^verbatim>\<open>DeclareShape\<close> submits.\<close>

definition shape_transaction :: "string \<Rightarrow> string list \<Rightarrow> string list \<Rightarrow> bool \<Rightarrow> any res" where
  "shape_transaction name required allowed isClosed =
    res_bind (validateName name False) (\<lambda>_.
    res_bind (normalizeShapeAttributes required) (\<lambda>req.
    res_bind (normalizeShapeAttributes allowed) (\<lambda>alw.
      let alw' = (if isClosed then sortedUniqueStrings (alw @ req) else alw);
          refs = (\<lambda>xs. AList (map (\<lambda>a. ARef (AStr a)) xs));
          drop_attr = (\<lambda>k. AList [AStr ''retract'', AStr name, AStr (systemNames ! k)])
      in Inr (AList [drop_attr 16, drop_attr 17, drop_attr 18,
           AE ([(''id'', AStr name), (systemNames ! 18, ABool isClosed)]
               @ (if req \<noteq> [] then [(systemNames ! 16, refs req)] else [])
               @ (if alw' \<noteq> [] then [(systemNames ! 17, refs alw')] else []))]))))"

end
