(* ===== verification/Commit.thy ===== *)
theory Commit
  imports Diff Shapes Events
begin

text \<open>
  Committing a transaction (transact.go, \<^verbatim>\<open>transactOn\<close> and \<^verbatim>\<open>Transact\<close>): planning, the net effect, identity
  compaction, timestamps, the event identity, the writes, shape validation, blob collection and the
  event receipt, in the order of the code. An error leaves the tables as they were.
\<close>

record txOptions =
  to_meta :: "any option"
  to_txFacts :: "any option"
  to_eventID :: "string option"
  to_operationID :: "string option"
  to_at :: "int option"
  to_declaration :: "(string \<times> declareOptions) option"
  to_by :: "string option"
  to_eventHash :: "string option"
  to_requestHash :: "string option"
  to_requestHashBase :: "fields option"
  to_prepareData :: "(store \<Rightarrow> any res) option"
  to_source :: "string option"
  to_ifBasisTx :: "int option"
  to_preallocated :: "any list"
  to_force :: bool

definition noOptions :: txOptions where
  "noOptions =
    \<lparr>to_meta = None, to_txFacts = None, to_eventID = None, to_operationID = None, to_at = None,
     to_declaration = None, to_by = None, to_eventHash = None, to_requestHash = None,
     to_requestHashBase = None, to_prepareData = None, to_source = None, to_ifBasisTx = None,
     to_preallocated = [], to_force = False\<rparr>"

subsection \<open>Facts\<close>

text \<open>\<^verbatim>\<open>insertFact\<close>: the blob, the row, and the full-text entry of a text value.\<close>

definition insertFact :: "int \<Rightarrow> plannedFact \<Rightarrow> tables \<Rightarrow> (int \<times> tables) res" where
  "insertFact tx f tb =
    (let v = pf_value f;
         tb1 = (case sv_blob v of None \<Rightarrow> tb | Some b \<Rightarrow> insert_blob (sv_hash v) b tb) in
     res_bind (res_wrap ErrConflict (insert_fact_row (pf_e f) (pf_a f) (sv_storage v) (sv_tag v) tx tb1)) (\<lambda>(i, tb2).
       if sv_tag v = TagText \<or> sv_tag v = TagTextRef then
         (case sv_logical v of
            AStr text \<Rightarrow> res_bind (res_wrap ErrFormat (insert_fts i text tb2)) (\<lambda>tb3. Inr (i, tb3))
          | _ \<Rightarrow> fail ErrFormat)
       else Inr (i, tb2)))"

definition renderPlanned :: "store \<Rightarrow> allocator \<Rightarrow> int \<Rightarrow> plannedFact \<Rightarrow> int \<Rightarrow> Fact" where
  "renderPlanned s al i f tx =
    \<lparr>fa_id = i, fa_e = displayEntityAllocated s (Some al) (pf_e f), fa_a = pf_attr f,
     fa_v = renderLogicalAllocated s (Some al) (sv_logical (pf_value f)) (sv_tag (pf_value f)),
     fa_tag = sv_tag (pf_value f), fa_tx = tx, fa_rx = None\<rparr>"

definition insert_planned :: "allocator \<Rightarrow> int \<Rightarrow> plannedFact \<Rightarrow> store \<times> Fact list \<Rightarrow> (store \<times> Fact list) res" where
  "insert_planned al tx f = (\<lambda>(s, out).
    res_bind (insertFact tx f (st_tables s)) (\<lambda>(i, tb).
      let s' = s\<lparr>st_tables := tb\<rparr> in Inr (s', out @ [renderPlanned s' al i f tx])))"

text \<open>One retraction: the row is deleted or closed, its text leaves the index, its blob may be garbage.\<close>

definition retract_row :: "db \<Rightarrow> int \<Rightarrow> rawFact \<Rightarrow> tables res" where
  "retract_row d tx f =
    res_bind (schemaFor d (rf_a f)) (\<lambda>sc.
    res_bind (if deletesHistory sc then Inr (delete_fact (rf_id f) (db_tables d))
              else res_wrap ErrFormat (retract_fact tx (rf_id f) (db_tables d))) (\<lambda>tb.
      Inr (if rf_t f = TagText \<or> rf_t f = TagTextRef then delete_fts (rf_id f) tb else tb)))"

definition garbage_candidate :: "rawFact \<Rightarrow> string list" where
  "garbage_candidate f =
    (if indirect_tag (rf_t f) then (case rf_v f of SBlob h \<Rightarrow> [h] | _ \<Rightarrow> []) else [])"

definition retract_one :: "int \<Rightarrow> rawFact \<Rightarrow> db \<times> Fact list \<Rightarrow> (db \<times> Fact list) res" where
  "retract_one tx f = (\<lambda>(d, out).
    res_bind (retract_row d tx f) (\<lambda>tb.
      let s = (db_store d)\<lparr>st_tables := tb\<rparr> in
      res_bind (renderRaw s f (Some tx)) (\<lambda>rendered. Inr (d\<lparr>db_store := s\<rparr>, out @ [rendered]))))"

subsection \<open>Time and identity of the event\<close>

definition latest_timestamp :: "tables \<Rightarrow> int option" where
  "latest_timestamp tb =
    (case map (\<lambda>f. asInt64 (rf_v f))
            (filter (\<lambda>f. rf_a f = 1 \<and> rf_tx f = rf_e f \<and> rf_t f = TagInstant \<and> live f) (tb_facts tb)) of
       [] \<Rightarrow> None
     | t # ts \<Rightarrow> Some (fold max ts t))"

definition nextTimestamp :: "env \<Rightarrow> tables \<Rightarrow> int option \<Rightarrow> int res" where
  "nextTimestamp en tb override =
    (case override of
       Some t \<Rightarrow> res_bind (validateInstantMicros t) (\<lambda>_. Inr t)
     | None \<Rightarrow>
        (let proposed = (case latest_timestamp tb of
                           None \<Rightarrow> en_clock en
                         | Some latest \<Rightarrow> if en_clock en \<le> latest then i64_add latest 1000000 else en_clock en)
         in res_bind (validateInstantMicros proposed) (\<lambda>_. Inr proposed)))"

definition event_identity :: "env \<Rightarrow> txOptions \<Rightarrow> int \<Rightarrow> (string \<times> string) res" where
  "event_identity en c tx =
    res_bind (case to_eventID c of Some e \<Rightarrow> Inr e | None \<Rightarrow> nextEventID en tx) (\<lambda>eventID.
    res_bind (parseUUID eventID) (\<lambda>uuid.
      if byte_of (uuid ! 8) div 64 \<noteq> 2 \<or> (to_eventID c = None \<and> byte_of (uuid ! 6) div 16 \<noteq> 4)
      then fail ErrType else Inr (eventID, uuid)))"

subsection \<open>The transaction\<close>

definition request_hash :: "any \<Rightarrow> txOptions \<Rightarrow> string res" where
  "request_hash data c =
    (case to_requestHash c of
       Some h \<Rightarrow> Inr h
     | None \<Rightarrow>
        (case to_requestHashBase c of
           Some base \<Rightarrow>
            canonicalLogicalRequestHash (AMap (case to_by c of None \<Rightarrow> base | Some b \<Rightarrow> AList.update ''by'' (AStr b) base))
         | None \<Rightarrow> canonicalRequestHash data (to_by c) (to_source c) (to_meta c) (to_txFacts c)))"

text \<open>The operation id: an earlier event answers the request, or the hash to record with this one.\<close>

datatype receipt = Prior TxReport | Fresh "string option"

definition operation_check :: "store \<Rightarrow> any \<Rightarrow> txOptions \<Rightarrow> receipt res" where
  "operation_check s data c =
    (if (case to_requestHash c of None \<Rightarrow> False | Some h \<Rightarrow> length h \<noteq> 32) then fail ErrType
     else if to_requestHash c \<noteq> None \<and> to_requestHashBase c \<noteq> None then fail ErrType
     else case to_operationID c of
       None \<Rightarrow> Inr (Fresh None)
     | Some op \<Rightarrow>
        res_bind (validateOperationID op) (\<lambda>_.
        res_bind (request_hash data c) (\<lambda>h.
        res_bind (operationReceipt s op h) (\<lambda>prior.
          Inr (case prior of Some r \<Rightarrow> Prior r | None \<Rightarrow> Fresh (Some h))))))"

definition new_plan :: "allocator \<Rightarrow> transactionPlan" where
  "new_plan al =
    \<lparr>pl_tempids = [], pl_alloc = al, pl_cas = [], pl_schemas = [], pl_assertions = [], pl_retracts = [],
     pl_order = 0\<rparr>"

text \<open>Everything that is decided before the first write: the plan, the net rows, the transaction facts.\<close>

definition plan_transaction ::
    "db \<Rightarrow> any \<Rightarrow> txOptions \<Rightarrow> (plannedFact list \<times> rawFact list \<times> plannedFact list \<times> transactionPlan) res" where
  "plan_transaction d data c =
    res_bind (case to_declaration c of None \<Rightarrow> Inr () | Some (attr, decl) \<Rightarrow> validateDeclarationOn d attr decl) (\<lambda>_.
    res_bind (newAllocator (db_tables d)) (\<lambda>al.
    res_bind (preallocateEventIdentities d (to_preallocated c) (new_plan al)) (\<lambda>pl1.
    res_bind (planData d data pl1) (\<lambda>pl2.
    res_bind (case to_txFacts c of None \<Rightarrow> Inr ([], pl2) | Some facts \<Rightarrow> planTxFacts d 0 facts pl2) (\<lambda>(txFacts, pl3).
    res_bind (validatePlannedDeclarations d pl3) (\<lambda>_.
    res_bind (validateCASIsolation pl3) (\<lambda>_.
    res_bind (diffPlan d pl3) (\<lambda>(assertions, retractions, pl4).
      Inr (assertions, retractions, txFacts, pl4)))))))))"

definition metadata_value :: "('a \<Rightarrow> storedValue res) \<Rightarrow> 'a option \<Rightarrow> storedValue option res" where
  "metadata_value f v = (case v of None \<Rightarrow> Inr None | Some x \<Rightarrow> res_bind (f x) (\<lambda>y. Inr (Some y)))"

definition metadata_fact :: "int \<Rightarrow> nat \<Rightarrow> storedValue option \<Rightarrow> plannedFact list" where
  "metadata_fact tx k v =
    (case v of None \<Rightarrow> [] | Some x \<Rightarrow> [planned tx (int k) (systemNames ! k) x 0])"

definition target_tx :: "int \<Rightarrow> plannedFact \<Rightarrow> plannedFact" where
  "target_tx tx f = (if pf_txTarget f then f\<lparr>pf_e := tx\<rparr> else f)"

text \<open>The writes of the transaction, up to the event row.\<close>

definition write_facts ::
    "int \<Rightarrow> transactionPlan \<Rightarrow> allocator \<Rightarrow> plannedFact list \<Rightarrow> rawFact list \<Rightarrow> db
     \<Rightarrow> (db \<times> Fact list \<times> Fact list) res" where
  "write_facts tx pl al facts retractions d =
    res_bind (res_fold (insert_planned al tx) facts (db_store d, [])) (\<lambda>(s1, asserted).
    res_bind (res_fold (retract_one tx) retractions (d\<lparr>db_store := s1\<rparr>, [])) (\<lambda>(d2, retracted).
    res_bind (validateTouchedShapes d2 pl) (\<lambda>_.
      let tb = fold gc_blob (remdups (concat (map garbage_candidate retractions))) (db_tables d2)
      in Inr (d2\<lparr>db_store := (db_store d2)\<lparr>st_tables := flush al tb\<rparr>\<rparr>, asserted, retracted))))"

definition record_event ::
    "int \<Rightarrow> int \<Rightarrow> txOptions \<Rightarrow> string option \<Rightarrow> store \<Rightarrow> store res" where
  "record_event tx now c requestHash s =
    res_bind (exportTransaction s tx now) (\<lambda>rec.
    res_bind (canonicalEventData rec) (\<lambda>(eventData, eventHash).
    res_bind (check (case to_eventHash c of None \<Rightarrow> True | Some h \<Rightarrow> eventHash = h) ErrConflict) (\<lambda>_.
    res_bind (res_wrap ErrConflict (insert_event
        \<lparr>ev_tx = tx, ev_hash = eventHash, ev_data = Some eventData, ev_op = to_operationID c,
         ev_req = (if to_operationID c = None then None else requestHash)\<rparr> (st_tables s))) (\<lambda>tb.
      Inr (s\<lparr>st_tables := tb\<rparr>)))))"

definition noop_report :: "int \<Rightarrow> allocator \<Rightarrow> transactionPlan \<Rightarrow> TxReport" where
  "noop_report basis al pl =
    \<lparr>tr_ids = reportIDs al pl, tr_status = ''noop'', tr_event = [], tr_asserted = [], tr_retracted = [],
     tr_basis = basis, tr_tx = 0, tr_at = 0\<rparr>"

definition commit_transaction ::
    "env \<Rightarrow> db \<Rightarrow> int \<Rightarrow> txOptions \<Rightarrow> string option
     \<Rightarrow> plannedFact list \<Rightarrow> rawFact list \<Rightarrow> transactionPlan \<Rightarrow> (TxReport \<times> store) res" where
  "commit_transaction en d basis c requestHash assertions retractions pl =
    res_bind (metadata_value textStored (to_by c)) (\<lambda>byValue.
    res_bind (metadata_value textStored (to_source c)) (\<lambda>sourceValue.
    res_bind (metadata_value jsonStored (to_meta c)) (\<lambda>metaValue.
    res_bind (alloc_tx (pl_alloc pl)) (\<lambda>(tx, al).
    res_bind (nextTimestamp en (db_tables d) (to_at c)) (\<lambda>now.
    res_bind (event_identity en c tx) (\<lambda>(eventID, uuid).
    res_bind (finalize en tx uuid (db_store d) al) (\<lambda>(s1, al1).
    let metadata = metadata_fact tx 1 (Some (stored (AInt64 now) (SInt now) TagInstant))
          @ metadata_fact tx 2 byValue @ metadata_fact tx 3 sourceValue @ metadata_fact tx 4 metaValue in
    res_bind (write_facts tx pl al1 (metadata @ map (target_tx tx) assertions) retractions (d\<lparr>db_store := s1\<rparr>))
      (\<lambda>(d2, asserted, retracted).
    res_bind (record_event tx now c requestHash (db_store d2)) (\<lambda>s3.
      Inr (\<lparr>tr_ids = reportIDs al1 (pl\<lparr>pl_alloc := al1\<rparr>), tr_status = ''applied'', tr_event = eventID,
            tr_asserted = asserted, tr_retracted = retracted, tr_basis = basis, tr_tx = tx, tr_at = now\<rparr>,
           s3))))))))))"

definition has_metadata :: "txOptions \<Rightarrow> plannedFact list \<Rightarrow> bool" where
  "has_metadata c txFacts \<longleftrightarrow>
     to_by c \<noteq> None \<or> to_source c \<noteq> None \<or> to_meta c \<noteq> None \<or> txFacts \<noteq> [] \<or> to_operationID c \<noteq> None"

definition transactOn :: "env \<Rightarrow> db \<Rightarrow> any \<Rightarrow> txOptions \<Rightarrow> (TxReport \<times> store) res" where
  "transactOn en d data c =
    (let basis = basisOn (db_tables d) in
     res_bind (operation_check (db_store d) data c) (\<lambda>answer.
     case answer of
       Prior report \<Rightarrow> Inr (report, db_store d)
     | Fresh requestHash \<Rightarrow>
        if (case to_ifBasisTx c of None \<Rightarrow> False | Some b \<Rightarrow> b \<noteq> basis) then fail ErrConflict
        else
         res_bind (refreshNames (db_store d)) (\<lambda>s0.
         res_bind (case to_prepareData c of None \<Rightarrow> Inr data | Some prepare \<Rightarrow> prepare s0) (\<lambda>input.
         let d0 = d\<lparr>db_store := s0\<rparr> in
         res_bind (plan_transaction d0 input c) (\<lambda>(assertions0, retractions, txFacts, pl0).
         res_bind (compactPendingAllocations assertions0 txFacts (db_tables d0) pl0) (\<lambda>(assertions, tb1, pl).
         let s1 = s0\<lparr>st_tables := tb1\<rparr> in
         if assertions = [] \<and> retractions = [] \<and> \<not> to_force c \<and> \<not> has_metadata c txFacts
            \<and> al_pending (pl_alloc pl) = []
         then Inr (noop_report basis (pl_alloc pl) pl, s1\<lparr>st_tables := flush (pl_alloc pl) tb1\<rparr>)
         else commit_transaction en (d\<lparr>db_store := s1\<rparr>) basis c requestHash assertions retractions pl))))))"

text \<open>
  What a transaction has done to the name caches when it stops. A ROLLBACK restores the tables only: the maps that
  \<^verbatim>\<open>refreshNames\<close> loaded and that \<^verbatim>\<open>finalize\<close> has already extended stay as they are at that point.
\<close>

fun finalize_reached :: "env \<Rightarrow> int \<Rightarrow> string \<Rightarrow> pendingIdentity list \<Rightarrow> store \<times> allocator \<times> nat \<Rightarrow> store" where
  "finalize_reached en tx event [] st = fst st"
| "finalize_reached en tx event (p # ps) st =
    (case finalize_one en tx event p st of Inl _ \<Rightarrow> fst st | Inr st' \<Rightarrow> finalize_reached en tx event ps st')"

definition commit_residue :: "env \<Rightarrow> db \<Rightarrow> txOptions \<Rightarrow> transactionPlan \<Rightarrow> store" where
  "commit_residue en d c pl =
    (case res_bind (metadata_value textStored (to_by c)) (\<lambda>_.
          res_bind (metadata_value textStored (to_source c)) (\<lambda>_.
          res_bind (metadata_value jsonStored (to_meta c)) (\<lambda>_.
          res_bind (alloc_tx (pl_alloc pl)) (\<lambda>(tx, al).
          res_bind (nextTimestamp en (db_tables d) (to_at c)) (\<lambda>_.
          res_bind (event_identity en c tx) (\<lambda>(_, uuid). Inr (tx, al, uuid))))))) of
       Inl _ \<Rightarrow> db_store d
     | Inr (tx, al, uuid) \<Rightarrow> finalize_reached en tx uuid (al_pending al) (db_store d, al, 0))"

definition planned_residue :: "env \<Rightarrow> db \<Rightarrow> any \<Rightarrow> txOptions \<Rightarrow> store \<Rightarrow> store" where
  "planned_residue en d data c s0 =
    (case res_bind (case to_prepareData c of None \<Rightarrow> Inr data | Some prepare \<Rightarrow> prepare s0) (\<lambda>input.
          res_bind (plan_transaction (d\<lparr>db_store := s0\<rparr>) input c) (\<lambda>(assertions0, retractions, txFacts, pl0).
          res_bind (compactPendingAllocations assertions0 txFacts (st_tables s0) pl0) (\<lambda>(assertions, tb1, pl).
            Inr (assertions, retractions, txFacts, tb1, pl)))) of
       Inl _ \<Rightarrow> s0
     | Inr (assertions, retractions, txFacts, tb1, pl) \<Rightarrow>
        if assertions = [] \<and> retractions = [] \<and> \<not> to_force c \<and> \<not> has_metadata c txFacts
           \<and> al_pending (pl_alloc pl) = [] then s0
        else commit_residue en (d\<lparr>db_store := s0\<lparr>st_tables := tb1\<rparr>\<rparr>) c pl)"

definition transact_residue :: "env \<Rightarrow> db \<Rightarrow> any \<Rightarrow> txOptions \<Rightarrow> store" where
  "transact_residue en d data c =
    (case operation_check (db_store d) data c of
       Inr (Fresh _) \<Rightarrow>
        if (case to_ifBasisTx c of None \<Rightarrow> False | Some b \<Rightarrow> b \<noteq> basisOn (db_tables d)) then db_store d
        else (case refreshNames (db_store d) of Inl _ \<Rightarrow> db_store d | Inr s0 \<Rightarrow> planned_residue en d data c s0)
     | _ \<Rightarrow> db_store d)"

definition keep_caches :: "store \<Rightarrow> store \<Rightarrow> store" where
  "keep_caches left s =
    s\<lparr>st_names := st_names left, st_idNames := st_idNames left, st_gids := st_gids left,
      st_dataVersion := st_dataVersion left\<rparr>"

text \<open>
  \<^verbatim>\<open>Transact\<close> outside a running transaction: BEGIN IMMEDIATE, then COMMIT or ROLLBACK; \<open>commits\<close> says whether
  SQLite's COMMIT goes through. After a rollback the caches are those of the failed transaction, and the marker -1
  makes the next \<^verbatim>\<open>refreshNames\<close> reload them from the table. (Inside a running transaction \<^verbatim>\<open>Transact\<close> is
  \<^verbatim>\<open>transactOn\<close>, and the scope around it rolls back.)
\<close>

definition TransactCommitting :: "bool \<Rightarrow> env \<Rightarrow> db \<Rightarrow> any \<Rightarrow> txOptions \<Rightarrow> TxReport res \<times> db" where
  "TransactCommitting commits en d data c =
    (case checkUsable True d of
       Inl e \<Rightarrow> (Inl e, d)
     | Inr _ \<Rightarrow>
        (let left = keep_caches (transact_residue en d data c) (db_store d) in
         case transactOn en d data c of
           Inl e \<Rightarrow> (Inl e, d\<lparr>db_store := left\<lparr>st_dataVersion := -1\<rparr>\<rparr>)
         | Inr (report, s) \<Rightarrow>
            if commits then (Inr report, d\<lparr>db_store := s\<rparr>)
            else (wrap ErrFormat (Some External), d\<lparr>db_store := left\<lparr>st_dataVersion := -1\<rparr>\<rparr>)))"

definition Transact :: "env \<Rightarrow> db \<Rightarrow> any \<Rightarrow> txOptions \<Rightarrow> TxReport res \<times> db" where
  "Transact = TransactCommitting True"

text \<open>\<^verbatim>\<open>declareWithTxOptions\<close>: the map that a declaration submits, and the check that runs before it is planned.\<close>

definition declaration_fields :: "string \<Rightarrow> declareOptions \<Rightarrow> fields" where
  "declaration_fields attr c =
    [(''id'', AStr attr)]
    @ option_field (systemNames ! 8) (map_option AStr (do_type c))
    @ option_field (systemNames ! 5) (map_option ABool (do_many c))
    @ option_field (systemNames ! 6) (map_option ABool (do_unique c))
    @ option_field (systemNames ! 7) (map_option ABool (do_nohistory c))
    @ option_field (systemNames ! 9) (map_option AInt64 (do_dims c))
    @ option_field (systemNames ! 10) (map_option AStr (do_doc c))
    @ option_field (systemNames ! 14) (map_option AStr (do_model c))"

definition declareWithTxOptions :: "env \<Rightarrow> db \<Rightarrow> string \<Rightarrow> declareOptions \<Rightarrow> txOptions \<Rightarrow> TxReport res \<times> db" where
  "declareWithTxOptions en d attr decl c =
    (if decl = noDeclaration then (fail ErrSchema, d)
     else case validateDeclarationOptions attr decl of
       Inl e \<Rightarrow> (Inl e, d)
     | Inr _ \<Rightarrow> Transact en d (AE (declaration_fields attr decl)) (c\<lparr>to_declaration := Some (attr, decl)\<rparr>))"

definition Retract :: "env \<Rightarrow> db \<Rightarrow> any \<Rightarrow> any list \<Rightarrow> TxReport res \<times> db" where
  "Retract en d ref args = Transact en d (AList (AStr ''retract'' # ref # args)) noOptions"

definition DeclareShape ::
    "env \<Rightarrow> db \<Rightarrow> string \<Rightarrow> string list \<Rightarrow> string list \<Rightarrow> bool \<Rightarrow> txOptions \<Rightarrow> TxReport res \<times> db" where
  "DeclareShape en d name required allowed isClosed c =
    (case shape_transaction name required allowed isClosed of
       Inl e \<Rightarrow> (Inl e, d)
     | Inr data \<Rightarrow> Transact en d data c)"

end
