(* ===== verification/Temporal.thy ===== *)
theory Temporal
  imports Datoms Commit
begin

text \<open>
  Time travel (temporal.go): handles at a transaction or an instant, history, provenance, the difference between
  two transactions, speculation, and undo, which plans the inverse of a transaction inside the transaction that
  commits it.
\<close>

subsection \<open>Historical handles\<close>

definition atTx :: "db \<Rightarrow> int \<Rightarrow> db" where
  "atTx d tx = d\<lparr>db_asOf := Some tx\<rparr>"

definition sql_le :: "sval \<Rightarrow> sval \<Rightarrow> bool" where
  "sql_le x y \<longleftrightarrow> \<not> sql_null x \<and> \<not> sql_null y \<and> sql_key x \<le> sql_key y"

text \<open>\<^verbatim>\<open>SELECT e FROM fgraph_facts WHERE a=1 AND tx=e AND t=5 AND v<=? ORDER BY v DESC,e DESC LIMIT 1\<close>.\<close>

definition instant_row :: "int option \<Rightarrow> int \<Rightarrow> rawFact \<Rightarrow> bool" where
  "instant_row asOf micros f \<longleftrightarrow>
     rf_a f = 1 \<and> rf_tx f = rf_e f \<and> rf_t f = TagInstant \<and> sql_le (rf_v f) (SInt micros)
     \<and> (case asOf of None \<Rightarrow> True | Some t \<Rightarrow> rf_e f \<le> t)"

definition transaction_at :: "db \<Rightarrow> int \<Rightarrow> int res" where
  "transaction_at d micros =
    (case filter (instant_row (db_asOf d) micros) (tb_facts (db_tables d)) of
       [] \<Rightarrow> fail ErrNotFound
     | fs \<Rightarrow> Inr (rf_e (last (sort_key (\<lambda>f. (sql_key (rf_v f), rf_e f)) fs))))"

definition AtInstant :: "db \<Rightarrow> int \<Rightarrow> db res \<times> db" where
  "AtInstant d micros =
    (case validateInstantMicros micros of
       Inl e \<Rightarrow> (Inl e, d)
     | Inr _ \<Rightarrow> withRead d (\<lambda>d'. res_bind (transaction_at d' micros) (\<lambda>tx. Inr (atTx d' tx))))"

definition is_transaction :: "tables \<Rightarrow> int \<Rightarrow> bool" where
  "is_transaction tb tx \<longleftrightarrow> list_ex (\<lambda>f. rf_e f = tx \<and> rf_a f = 1 \<and> rf_tx f = rf_e f) (tb_facts tb)"

definition viewAtInteger :: "db \<Rightarrow> int \<Rightarrow> db res \<times> db" where
  "viewAtInteger d n =
    (case withRead d (\<lambda>d'. Inr (is_transaction (db_tables d') n)) of
       (Inl e, d') \<Rightarrow> (Inl e, d')
     | (Inr True, d') \<Rightarrow>
         (Inr (atTx d' (case db_asOf d' of None \<Rightarrow> n | Some t \<Rightarrow> if n > t then t else n)), d')
     | (Inr False, d') \<Rightarrow> AtInstant d' n)"

definition viewAt :: "db \<Rightarrow> any \<Rightarrow> db res \<times> db" where
  "viewAt d v =
    (case v of
       ANum k n \<Rightarrow> if k = KInt \<or> k = KInt64 then viewAtInteger d n else (fail ErrType, d)
     | AInstant micros \<Rightarrow> AtInstant d micros
     | AStr s \<Rightarrow> (case parseRFC3339 s of None \<Rightarrow> (fail ErrType, d) | Some micros \<Rightarrow> AtInstant d micros)
     | _ \<Rightarrow> (fail ErrType, d))"

subsection \<open>Provenance and history\<close>

text \<open>The facts of a transaction entity; an absent member is a cleared presence bit.\<close>

record txInfo =
  ti_full :: fields
  ti_at :: "int option"
  ti_by :: "string option"
  ti_source :: "string option"

definition noInfo :: txInfo where
  "noInfo = \<lparr>ti_full = [], ti_at = None, ti_by = None, ti_source = None\<rparr>"

definition info_row :: "store \<Rightarrow> rawFact \<Rightarrow> txInfo \<Rightarrow> txInfo res" where
  "info_row s f info =
    res_bind (attributeName (st_tables s) (rf_a f)) (\<lambda>attr.
    res_bind (logicalValue (st_tables s) (rf_v f) (rf_t f)) (\<lambda>logical.
      let info' = info\<lparr>ti_full := AList.update attr (renderLogical s logical (rf_t f)) (ti_full info)\<rparr> in
      if attr = ''fgraph/at'' then Inr (info'\<lparr>ti_at := Some (any_int64 logical)\<rparr>)
      else if attr = ''fgraph/by'' then
        (case logical of AStr by \<Rightarrow> Inr (info'\<lparr>ti_by := Some by\<rparr>) | _ \<Rightarrow> fail ErrFormat)
      else if attr = ''fgraph/source'' then
        (case logical of AStr source \<Rightarrow> Inr (info'\<lparr>ti_source := Some source\<rparr>) | _ \<Rightarrow> fail ErrFormat)
      else Inr info'))"

definition transactionInfo :: "store \<Rightarrow> int \<Rightarrow> txInfo res" where
  "transactionInfo s tx =
    (let tb = st_tables s in
     res_fold (info_row s) (select_facts (\<lambda>f. rf_e f = tx \<and> live f \<and> find_id (rf_a f) tb \<noteq> None) tb) noInfo)"

record TemporalFact = Fact +
  fa_at :: "int option"
  fa_by :: "string option"
  fa_source :: "string option"
  fa_rxAt :: "int option"
  fa_rxBy :: "string option"
  fa_rxSource :: "string option"
  fa_provenance :: "fields option"

definition temporal :: "Fact \<Rightarrow> TemporalFact" where
  "temporal f = Fact.extend f
    \<lparr>fa_at = None, fa_by = None, fa_source = None, fa_rxAt = None, fa_rxBy = None, fa_rxSource = None,
     fa_provenance = None\<rparr>"

text \<open>The optional attribute of \<^verbatim>\<open>History\<close> and \<^verbatim>\<open>Why\<close>.\<close>

definition attribute_filter :: "db \<Rightarrow> string option \<Rightarrow> int option res" where
  "attribute_filter d attr =
    (case attr of
       None \<Rightarrow> Inr None
     | Some name \<Rightarrow>
        (case map_of (st_names (db_store d)) name of None \<Rightarrow> fail ErrNotFound | Some a \<Rightarrow> Inr (Some a)))"

definition existing_entity :: "db \<Rightarrow> any \<Rightarrow> int res" where
  "existing_entity d ref =
    res_bind (resolveReadEntity d ref) (\<lambda>found. case found of None \<Rightarrow> fail ErrNotFound | Some i \<Rightarrow> Inr i)"

definition history_fact :: "db \<Rightarrow> rawFact \<Rightarrow> TemporalFact res" where
  "history_fact d f =
    res_bind (renderViewRaw d f) (\<lambda>rendered.
    res_bind (transactionInfo (db_store d) (rf_tx f)) (\<lambda>info.
      let h = (temporal rendered)\<lparr>fa_at := ti_at info, fa_by := ti_by info, fa_source := ti_source info\<rparr> in
      case (fa_rx rendered, rf_rx f) of
        (Some _, Some rx) \<Rightarrow>
          res_bind (transactionInfo (db_store d) rx) (\<lambda>rxInfo.
            Inr (h\<lparr>fa_rxAt := ti_at rxInfo, fa_rxBy := ti_by rxInfo, fa_rxSource := ti_source rxInfo\<rparr>))
      | _ \<Rightarrow> Inr h))"

definition History :: "db \<Rightarrow> any \<Rightarrow> string option \<Rightarrow> TemporalFact list res \<times> db" where
  "History d ref attr =
    withRead d (\<lambda>d'.
      res_bind (existing_entity d' ref) (\<lambda>entity.
      res_bind (attribute_filter d' attr) (\<lambda>a.
        res_map (history_fact d')
          (sort_key (\<lambda>f. (rf_tx f, rf_id f))
            (filter (\<lambda>f. rf_e f = entity \<and> (case db_asOf d' of None \<Rightarrow> True | Some t \<Rightarrow> rf_tx f \<le> t)
                \<and> (case a of None \<Rightarrow> True | Some i \<Rightarrow> rf_a f = i)) (tb_facts (db_tables d')))))))"

definition why_fact :: "db \<Rightarrow> rawFact \<Rightarrow> TemporalFact res" where
  "why_fact d f =
    res_bind (renderViewRaw d f) (\<lambda>rendered.
    res_bind (transactionInfo (db_store d) (rf_tx f)) (\<lambda>info.
      Inr ((temporal rendered)\<lparr>fa_provenance := Some (ti_full info)\<rparr>)))"

definition Why :: "db \<Rightarrow> any \<Rightarrow> string option \<Rightarrow> TemporalFact list res \<times> db" where
  "Why d ref attr =
    withRead d (\<lambda>d'.
      res_bind (existing_entity d' ref) (\<lambda>entity.
      res_bind (attribute_filter d' attr) (\<lambda>a.
        res_map (why_fact d')
          (select_facts (\<lambda>f. rf_e f = entity \<and> visible (db_asOf d') f
              \<and> (case a of None \<Rightarrow> True | Some i \<Rightarrow> rf_a f = i)) (db_tables d')))))"

subsection \<open>Differences\<close>

record DiffReport =
  df_asserted :: "Fact list"
  df_retracted :: "Fact list"

text \<open>The rows whose \<^verbatim>\<open>tx\<close> or \<^verbatim>\<open>rx\<close> lies in a range, in its order.\<close>

definition range_rows :: "(rawFact \<Rightarrow> int option) \<Rightarrow> int \<Rightarrow> int \<Rightarrow> tables \<Rightarrow> rawFact list" where
  "range_rows column from until tb =
    sort_key (\<lambda>f. (case column f of None \<Rightarrow> 0 | Some t \<Rightarrow> t, rf_id f))
      (filter (\<lambda>f. case column f of None \<Rightarrow> False | Some t \<Rightarrow> from < t \<and> t \<le> until) (tb_facts tb))"

definition rangeFacts :: "db \<Rightarrow> (rawFact \<Rightarrow> int option) \<Rightarrow> int \<Rightarrow> int \<Rightarrow> Fact list res" where
  "rangeFacts d column from until = res_map (renderViewRaw d) (range_rows column from until (db_tables d))"

definition diff_on :: "int \<Rightarrow> int \<Rightarrow> db \<Rightarrow> DiffReport res" where
  "diff_on from until d =
    res_bind (rangeFacts d (\<lambda>f. Some (rf_tx f)) from until) (\<lambda>asserted.
    res_bind (rangeFacts d rf_rx from until) (\<lambda>retracted.
      Inr \<lparr>df_asserted = asserted, df_retracted = retracted\<rparr>))"

definition DiffBetween :: "db \<Rightarrow> int \<Rightarrow> int \<Rightarrow> DiffReport res \<times> db" where
  "DiffBetween d from until =
    (if from > until then (fail ErrType, d)
     else case db_asOf d of
       None \<Rightarrow> withRead d (diff_on from until)
     | Some t \<Rightarrow>
        if from \<ge> t then (Inr \<lparr>df_asserted = [], df_retracted = []\<rparr>, d)
        else withRead d (diff_on from (if until > t then t else until)))"

definition Changes :: "db \<Rightarrow> int \<Rightarrow> int option \<Rightarrow> DiffReport res \<times> db" where
  "Changes d since until = DiffBetween d since (case until of None \<Rightarrow> MaxInt64 | Some t \<Rightarrow> t)"

subsection \<open>Speculation\<close>

text \<open>
  The callback runs on the store inside a savepoint; the tables are rolled back and the name caches are marked
  stale, whatever it answers. (A handle inside a speculation refuses to speculate again; it is not modelled.)
\<close>

definition Speculate :: "db \<Rightarrow> (db \<Rightarrow> unit res \<times> db) option \<Rightarrow> unit res \<times> db" where
  "Speculate d callback =
    (case checkUsable True d of
       Inl e \<Rightarrow> (Inl e, d)
     | Inr _ \<Rightarrow>
       (case callback of
          None \<Rightarrow> (fail ErrType, d)
        | Some f \<Rightarrow>
           (case f d of (r, d') \<Rightarrow>
              (r, d\<lparr>db_store := (db_store d')\<lparr>st_tables := db_tables d, st_dataVersion := -1\<rparr>\<rparr>))))"

subsection \<open>Undo\<close>

definition inputValue :: "any \<Rightarrow> tag \<Rightarrow> any res" where
  "inputValue logical t =
    (case t of
       TagRef \<Rightarrow> Inr (ARef logical)
     | TagInstant \<Rightarrow> Inr (AInstant (any_int64 logical))
     | TagBytes \<Rightarrow> (case logical of AByteSlice b \<Rightarrow> Inr (ABytesValue b) | _ \<Rightarrow> fail ErrFormat)
     | TagBytesRef \<Rightarrow> (case logical of AByteSlice b \<Rightarrow> Inr (ABytesValue b) | _ \<Rightarrow> fail ErrFormat)
     | TagVector \<Rightarrow> (case logical of AF32s v \<Rightarrow> Inr (AVector v) | _ \<Rightarrow> fail ErrFormat)
     | TagJSON \<Rightarrow> Inr (AJSON logical)
     | _ \<Rightarrow> Inr logical)"

text \<open>The rows that the target asserted and that are still live, and the rows that it retracted.\<close>

definition undo_rows :: "tables \<Rightarrow> int \<Rightarrow> rawFact list" where
  "undo_rows tb target =
    select_facts (\<lambda>f. rf_tx f = target \<and> rf_e f \<noteq> target \<and> live f \<or> rf_rx f = Some target) tb"

definition undo_operation :: "tables \<Rightarrow> int \<Rightarrow> rawFact \<Rightarrow> any res" where
  "undo_operation tb target f =
    res_bind (attributeName tb (rf_a f)) (\<lambda>attr.
    res_bind (logicalValue tb (rf_v f) (rf_t f)) (\<lambda>logical.
    res_bind (inputValue logical (rf_t f)) (\<lambda>input.
      Inr (AList [AStr (if rf_tx f = target \<and> live f then ''retract'' else ''assert''),
                  AInt64 (rf_e f), AStr attr, input]))))"

definition undoOperations :: "tables \<Rightarrow> int \<Rightarrow> any list res" where
  "undoOperations tb target =
    (if \<not> is_transaction tb target then fail ErrNotFound
     else res_map (undo_operation tb target) (undo_rows tb target))"

definition undo_options :: "int \<Rightarrow> txOptions \<Rightarrow> txOptions" where
  "undo_options target c =
    c\<lparr>to_requestHashBase := Some [(''operation'', AStr ''undo''), (''tx'', AInt64 target)],
      to_prepareData := Some (\<lambda>s. res_bind (undoOperations (st_tables s) target) (\<lambda>ops. Inr (AList ops))),
      to_txFacts := Some (AE [(''fgraph/undoes'', ARef (AInt64 target))])\<rparr>"

definition Undo :: "env \<Rightarrow> db \<Rightarrow> int \<Rightarrow> txOptions \<Rightarrow> TxReport res \<times> db" where
  "Undo en d target c =
    (if target > 0 \<and> target \<le> GenesisTx then (fail ErrUnsupported, d)
     else Transact en d (AList []) (undo_options target c))"

subsection \<open>Following\<close>

definition followBatchSize :: nat where "followBatchSize = 100"

definition transactionIDsAfter :: "db \<Rightarrow> int \<Rightarrow> int list res \<times> db" where
  "transactionIDsAfter d since =
    withRead d (\<lambda>d'. Inr (take followBatchSize (sort (filter (\<lambda>t. t > since) (map ev_tx (tb_events (db_tables d')))))))"

definition latestTx :: "db \<Rightarrow> int res \<times> db" where
  "latestTx d =
    withRead d (\<lambda>d'. Inr (if tb_events (db_tables d') = [] then GenesisTx else basisOn (db_tables d')))"

end
