(* ===== verification/SearchText.thy ===== *)
theory SearchText
  imports Temporal
begin

text \<open>
  The text side of search.go: iteration over the runes of a string, the full-text expression, and the cut of a
  long matched text at a rune.
\<close>

subsection \<open>Runes\<close>

text \<open>
  \<^verbatim>\<open>for _, r := range text\<close> decodes a rune at a time; a byte that starts no valid encoding gives U+FFFD and is
  skipped alone. A decoded rune comes with its width.
\<close>

definition decode_rune :: "nat list \<Rightarrow> nat \<times> nat" where
  "decode_rune bs =
    (case bs of
       [] \<Rightarrow> (65533, 0)
     | b0 # r0 \<Rightarrow>
       (if b0 < 128 then (b0, 1)
        else case map (\<lambda>n. utf8_runes (take n bs)) [2, 3, 4] of
          [Some [r], _, _] \<Rightarrow> (r, 2)
        | [_, Some [r], _] \<Rightarrow> if 3 \<le> length bs then (r, 3) else (65533, 1)
        | [_, _, Some [r]] \<Rightarrow> if 4 \<le> length bs then (r, 4) else (65533, 1)
        | _ \<Rightarrow> (65533, 1)))"

lemma decode_rune_width: "bs \<noteq> [] \<Longrightarrow> 0 < snd (decode_rune bs)"
  by (auto simp: decode_rune_def split: list.split option.split)

function range_runes :: "nat list \<Rightarrow> nat list" where
  "range_runes bs =
    (if bs = [] then [] else case decode_rune bs of (r, w) \<Rightarrow> r # range_runes (drop (max 1 w) bs))"
  by pat_completeness auto
termination
  by (relation "measure length") auto

declare range_runes.simps [simp del]

definition rune_bytes :: "nat \<Rightarrow> nat list" where
  "rune_bytes r =
    (if r < 128 then [r]
     else if r < 2048 then [192 + r div 64, 128 + r mod 64]
     else if (55296 \<le> r \<and> r \<le> 57343) \<or> 1114111 < r then [239, 191, 189]
     else if r < 65536 then [224 + r div 4096, 128 + r div 64 mod 64, 128 + r mod 64]
     else [240 + r div 262144, 128 + r div 4096 mod 64, 128 + r div 64 mod 64, 128 + r mod 64])"

definition encode_rune :: "nat \<Rightarrow> string" where
  "encode_rune r = map char_of (rune_bytes r)"

definition text_runes :: "string \<Rightarrow> nat list" where
  "text_runes s = range_runes (map byte_of s)"

text \<open>\<^verbatim>\<open>unicode.IsSpace\<close>, and \<^verbatim>\<open>strings.TrimSpace(text) == ""\<close>.\<close>

definition IsSpace :: "nat \<Rightarrow> bool" where
  "IsSpace r \<longleftrightarrow> (9 \<le> r \<and> r \<le> 13) \<or> r = 32 \<or> r = 133 \<or> r = 160 \<or> r = 5760 \<or> (8192 \<le> r \<and> r \<le> 8202)
     \<or> r = 8232 \<or> r = 8233 \<or> r = 8239 \<or> r = 8287 \<or> r = 12288"

definition blank :: "string \<Rightarrow> bool" where
  "blank s \<longleftrightarrow> list_all IsSpace (text_runes s)"

subsection \<open>The full-text expression\<close>

text \<open>
  The words of a text are its maximal runs of underscores and of runes that \<open>word_rune\<close> accepts, which stands for
  \<^verbatim>\<open>unicode.IsLetter\<close> or \<^verbatim>\<open>unicode.IsNumber\<close>: their tables change with the Unicode version of the Go release.
\<close>

fun fts_words :: "(nat \<Rightarrow> bool) \<Rightarrow> nat list \<Rightarrow> string \<Rightarrow> string list" where
  "fts_words word_rune [] word = (if word = [] then [] else [word])"
| "fts_words word_rune (r # rs) word =
    (if r = 95 \<or> word_rune r then fts_words word_rune rs (word @ encode_rune r)
     else (if word = [] then [] else [word]) @ fts_words word_rune rs [])"

definition join_with :: "string \<Rightarrow> string list \<Rightarrow> string" where
  "join_with sep ss = (case ss of [] \<Rightarrow> [] | s # r \<Rightarrow> s @ concat (map (\<lambda>t. sep @ t) r))"

definition quoted :: "string \<Rightarrow> string" where
  "quoted token = [CHR 0x22] @ token @ [CHR 0x22]"

definition ftsQuery :: "(nat \<Rightarrow> bool) \<Rightarrow> string \<Rightarrow> string" where
  "ftsQuery word_rune s = join_with '' '' (map quoted (fts_words word_rune (text_runes s) []))"

subsection \<open>Bounded texts\<close>

definition maxMatchedValueBytes :: nat where "maxMatchedValueBytes = 2048"

text \<open>\<^verbatim>\<open>utf8.RuneStart\<close>: not a continuation byte.\<close>

definition RuneStart :: "char \<Rightarrow> bool" where
  "RuneStart c \<longleftrightarrow> \<not> (128 \<le> byte_of c \<and> byte_of c \<le> 191)"

fun back_to_rune :: "string \<Rightarrow> nat \<Rightarrow> nat" where
  "back_to_rune s 0 = 0"
| "back_to_rune s (Suc n) = (if \<not> RuneStart (s ! Suc n) then back_to_rune s n else Suc n)"

definition ellipsis :: string where
  "ellipsis = [CHR 0xE2, CHR 0x80, CHR 0xA6]"

definition boundMatchedText :: "string \<Rightarrow> string \<times> bool" where
  "boundMatchedText s =
    (if length s \<le> maxMatchedValueBytes then (s, False)
     else (take (back_to_rune s (maxMatchedValueBytes - length ellipsis)) s @ ellipsis, True))"

end
