(* ===== verification/Ranking.thy ===== *)
theory Ranking
  imports Store "HOL-Library.Multiset" "HOL-Library.Product_Lexorder"
begin

text \<open>
  The bounded ranking of search.go: a heap of \<^verbatim>\<open>container/heap\<close> on an array, whose root is the worst candidate
  that is kept, and the comparison of scores.
\<close>

subsection \<open>Comparing floats\<close>

text \<open>The comparison \<^verbatim>\<open><\<close> of Go: the patterns are ordered by sign and magnitude, and NaN is not comparable.\<close>

definition f64_order :: "f64 \<Rightarrow> int" where
  "f64_order w = (let m = int (w mod 9223372036854775808) in if f64_neg w then - m else m)"

definition f64_lt :: "f64 \<Rightarrow> f64 \<Rightarrow> bool" where
  "f64_lt x y \<longleftrightarrow> \<not> IsNaN x \<and> \<not> IsNaN y \<and> f64_order x < f64_order y"

subsection \<open>container/heap\<close>

definition swap_at :: "nat \<Rightarrow> nat \<Rightarrow> 'a list \<Rightarrow> 'a list" where
  "swap_at i j h = h[i := h ! j, j := h ! i]"

function heap_up :: "('a \<Rightarrow> 'a \<Rightarrow> bool) \<Rightarrow> nat \<Rightarrow> 'a list \<Rightarrow> 'a list" where
  "heap_up precedes j h =
    (let i = (j - 1) div 2 in
     if i = j \<or> \<not> precedes (h ! j) (h ! i) then h else heap_up precedes i (swap_at i j h))"
  by pat_completeness auto
termination
  by (relation "measure (\<lambda>(_, j, _). j)") auto

definition smaller_child :: "('a \<Rightarrow> 'a \<Rightarrow> bool) \<Rightarrow> nat \<Rightarrow> 'a list \<Rightarrow> nat" where
  "smaller_child precedes i h =
    (let j1 = 2 * i + 1; j2 = j1 + 1 in if j2 < length h \<and> precedes (h ! j2) (h ! j1) then j2 else j1)"

text \<open>\<^verbatim>\<open>down\<close> answers the array and the position at which the item stops.\<close>

function heap_down :: "('a \<Rightarrow> 'a \<Rightarrow> bool) \<Rightarrow> nat \<Rightarrow> 'a list \<Rightarrow> 'a list \<times> nat" where
  "heap_down precedes i h =
    (if 2 * i + 1 \<ge> length h then (h, i)
     else let j = smaller_child precedes i h in
          if \<not> precedes (h ! j) (h ! i) then (h, i) else heap_down precedes j (swap_at i j h))"
  by pat_completeness auto
termination
  by (relation "measure (\<lambda>(_, i, h). length h - i)") (auto simp: smaller_child_def swap_at_def Let_def)

declare heap_up.simps [simp del] heap_down.simps [simp del]

definition heap_push :: "('a \<Rightarrow> 'a \<Rightarrow> bool) \<Rightarrow> 'a \<Rightarrow> 'a list \<Rightarrow> 'a list" where
  "heap_push precedes x h = heap_up precedes (length h) (h @ [x])"

definition heap_fix :: "('a \<Rightarrow> 'a \<Rightarrow> bool) \<Rightarrow> nat \<Rightarrow> 'a list \<Rightarrow> 'a list" where
  "heap_fix precedes i h =
    (case heap_down precedes i h of (h', i') \<Rightarrow> if i' > i then h' else heap_up precedes i h')"

subsection \<open>The ranking\<close>

record rankedRawFact =
  rr_raw :: rawFact
  rr_entity :: int
  rr_score :: f64
  rr_dimensions :: nat

definition betterRankedRaw :: "rankedRawFact \<Rightarrow> rankedRawFact \<Rightarrow> bool" where
  "betterRankedRaw candidate prior \<longleftrightarrow>
     f64_lt (rr_score prior) (rr_score candidate)
     \<or> (f64_eq (rr_score candidate) (rr_score prior) \<and> rf_id (rr_raw candidate) < rf_id (rr_raw prior))"

definition rankedRawLess :: "rankedRawFact \<Rightarrow> rankedRawFact \<Rightarrow> bool" where
  "rankedRawLess x y =
    (if f64_eq (rr_score x) (rr_score y) then rf_id (rr_raw x) > rf_id (rr_raw y)
     else f64_lt (rr_score x) (rr_score y))"

record boundedRawRanking =
  br_heap :: "rankedRawFact list"
  br_limit :: nat
  br_total :: nat

definition newBoundedRawRanking :: "nat \<Rightarrow> boundedRawRanking" where
  "newBoundedRawRanking limit = \<lparr>br_heap = [], br_limit = limit, br_total = 0\<rparr>"

text \<open>A ranking of limit 0 has no root to compare with: indexing the empty heap panics.\<close>

definition ranking_add :: "rankedRawFact \<Rightarrow> boundedRawRanking \<Rightarrow> boundedRawRanking res" where
  "ranking_add candidate ranking =
    (let r = ranking\<lparr>br_total := br_total ranking + 1\<rparr>; h = br_heap ranking in
     if length h < br_limit ranking then Inr (r\<lparr>br_heap := heap_push rankedRawLess candidate h\<rparr>)
     else if h = [] then Inl Panic
     else if betterRankedRaw candidate (h ! 0)
     then Inr (r\<lparr>br_heap := heap_fix rankedRawLess 0 (h[0 := candidate])\<rparr>)
     else Inr r)"

text \<open>\<^verbatim>\<open>sort.Slice\<close> by the comparison: by descending score, then by ascending id.\<close>

definition rank_key :: "rankedRawFact \<Rightarrow> int \<times> int" where
  "rank_key c = (- f64_order (rr_score c), rf_id (rr_raw c))"

definition ranking_result :: "boundedRawRanking \<Rightarrow> rankedRawFact list \<times> bool" where
  "ranking_result ranking = (sort_key rank_key (br_heap ranking), br_total ranking > br_limit ranking)"

definition rankRawEntityCandidatesBounded :: "rankedRawFact list \<Rightarrow> nat \<Rightarrow> (rankedRawFact list \<times> bool) res" where
  "rankRawEntityCandidatesBounded input limit =
    (let best = fold (\<lambda>candidate best.
           case map_of best (rr_entity candidate) of
             None \<Rightarrow> AList.update (rr_entity candidate) candidate best
           | Some prior \<Rightarrow>
              if betterRankedRaw candidate prior then AList.update (rr_entity candidate) candidate best else best)
         input []
     in res_bind (res_fold ranking_add (map snd best) (newBoundedRawRanking limit)) (\<lambda>r. Inr (ranking_result r)))"

end
