(* ===== verification/QueryRules.thy ===== *)
theory QueryRules
  imports QueryEval
begin

text \<open>
  Rules (query.go): parsing with the safety of their heads and bodies, the calls between them, and the
  derivation of one relation per rule name, dependencies first, by repeated evaluation until no new tuple
  appears.
\<close>

subsection \<open>Definitions\<close>

type_synonym rules = "(string \<times> ruleDef list) list"

definition rule_head :: "any list \<Rightarrow> (string \<times> string list) res" where
  "rule_head head =
    (case head of
       AStr name # args \<Rightarrow>
         if name = [] then fail ErrQuery
         else res_bind (res_map (\<lambda>arg. case arg of
                  AStr v \<Rightarrow> if is_variable v then Inr v else fail ErrQuery
                | _ \<Rightarrow> fail ErrQuery) args) (\<lambda>vs. Inr (name, vs))
     | _ \<Rightarrow> fail ErrQuery)"

definition rule_parts :: "any \<Rightarrow> (any list \<times> any list) res" where
  "rule_parts item =
    (case objectMap item of
       None \<Rightarrow> fail ErrQuery
     | Some m \<Rightarrow>
        if length m \<noteq> 2 then fail ErrQuery
        else (case (map_of m ''head'', map_of m ''body'') of
                (Some (AList head), Some (AList body)) \<Rightarrow> Inr (head, body)
              | _ \<Rightarrow> fail ErrQuery))"

definition rules_named :: "rules \<Rightarrow> string \<Rightarrow> ruleDef list" where
  "rules_named rs name = (case map_of rs name of None \<Rightarrow> [] | Some ds \<Rightarrow> ds)"

definition parse_rule :: "any \<Rightarrow> rules \<Rightarrow> rules res" where
  "parse_rule item rs =
    res_bind (rule_parts item) (\<lambda>(head, body).
    res_bind (rule_head head) (\<lambda>(name, args).
      let definitions = rules_named rs name in
      if definitions \<noteq> [] \<and> length (rd_args (hd definitions)) \<noteq> length args then fail ErrQuery
      else res_bind (res_wrap ErrQuery (validateClauseSequence body [])) (\<lambda>bodyBound.
        if list_all (\<lambda>v. v \<in> set bodyBound) args
        then Inr (AList.update name (definitions @ [\<lparr>rd_name = name, rd_args = args, rd_body = body\<rparr>]) rs)
        else fail ErrQuery)))"

definition parseRules :: "any list \<Rightarrow> rules res" where
  "parseRules raw = res_fold parse_rule raw []"

subsection \<open>Calls between rules\<close>

definition rule_call :: "string \<times> any \<Rightarrow> string list" where
  "rule_call field =
    (if fst field = ''rule''
     then (case snd field of AList (AStr name # _) \<Rightarrow> [name] | _ \<Rightarrow> []) else [])"

lemma size_objectFields_member: "objectFields v = Some fs \<Longrightarrow> p \<in> set fs \<Longrightarrow> size (snd p) < size v"
  using size_objectFields [of v fs] size_member_snd [of p fs] by simp

function collectRuleCalls :: "any \<Rightarrow> string list" where
  "collectRuleCalls v =
    (case objectFields v of
       Some fs \<Rightarrow> concat (map (\<lambda>field. rule_call field @ collectRuleCalls (snd field)) fs)
     | None \<Rightarrow> (case v of AList items \<Rightarrow> concat (map collectRuleCalls items) | _ \<Rightarrow> []))"
  by pat_completeness auto

termination
  by (relation "measure size") (auto dest: size_objectFields_member size_member)

declare collectRuleCalls.simps [simp del]

definition dependencies :: "rules \<Rightarrow> string \<Rightarrow> string list" where
  "dependencies rs name =
    sort (remdups (concat (map (\<lambda>r. collectRuleCalls (AList (rd_body r))) (rules_named rs name))))"

subsection \<open>Deriving a relation\<close>

text \<open>The rows, the keys already seen, and whether the pass added a row.\<close>

type_synonym derivation = "cell list list \<times> string list \<times> bool"

definition head_cells :: "string list \<Rightarrow> binding \<Rightarrow> cell list res" where
  "head_cells args values =
    res_map (\<lambda>v. case map_of values v of None \<Rightarrow> fail ErrQuery | Some c \<Rightarrow> Inr c) args"

definition tuple_key :: "cell list \<Rightarrow> string res" where
  "tuple_key tuple = res_fold (\<lambda>c b. res_bind (structuralCellKey c) (\<lambda>k. Inr (appendKeyPart b k))) tuple []"

definition derive_binding :: "string list \<Rightarrow> binding \<Rightarrow> derivation \<Rightarrow> derivation res" where
  "derive_binding args values st =
    (case st of (rows, seen, changed) \<Rightarrow>
     res_bind (head_cells args values) (\<lambda>tuple.
     res_bind (tuple_key tuple) (\<lambda>key.
       Inr (if key \<in> set seen then st else (rows @ [tuple], key # seen, True)))))"

definition derive_rule :: "evaluator \<Rightarrow> ruleDef \<Rightarrow> derivation \<times> int \<Rightarrow> (derivation \<times> int) res" where
  "derive_rule e r st =
    (case st of (dv, work) \<Rightarrow>
     res_bind (evalClauses e (rd_body r) [[]] work) (\<lambda>(bindings, work').
     res_bind (res_fold (derive_binding (rd_args r)) bindings dv) (\<lambda>dv'. Inr (dv', work'))))"

definition set_relation :: "string \<Rightarrow> cell list list \<Rightarrow> evaluator \<Rightarrow> evaluator" where
  "set_relation name rows e = e\<lparr>qe_relations := AList.update name rows (qe_relations e)\<rparr>"

text \<open>One pass of the loop: every definition of the rule is evaluated with the rows the pass began with.\<close>

definition derive_pass ::
    "evaluator \<Rightarrow> string \<Rightarrow> cell list list \<Rightarrow> string list \<Rightarrow> int \<Rightarrow> (derivation \<times> int) res" where
  "derive_pass e name rows seen work =
    res_fold (derive_rule (set_relation name rows e)) (rules_named (qe_rules e) name) ((rows, seen, False), work)"

primrec derive_loop ::
    "nat \<Rightarrow> evaluator \<Rightarrow> string \<Rightarrow> cell list list \<Rightarrow> string list \<Rightarrow> int \<Rightarrow> (cell list list \<times> int) res" where
  "derive_loop 0 e name rows seen work = Inl External"
| "derive_loop (Suc n) e name rows seen work =
    res_bind (derive_pass e name rows seen work) (\<lambda>((rows', seen', changed), work').
      if changed then derive_loop n e name rows' seen' work' else Inr (rows', work'))"

text \<open>
  The fuel is the work that is left, plus three: a pass after the first that adds a row has charged the budget
  for the rows that the earlier passes derived.
\<close>

definition derive_fuel :: "evaluator \<Rightarrow> int \<Rightarrow> nat" where
  "derive_fuel e work = nat (work_limit e - work) + 3"

definition deriveRelation :: "string \<Rightarrow> evaluator \<times> int \<Rightarrow> (evaluator \<times> int) res" where
  "deriveRelation name st =
    (case st of (e, work) \<Rightarrow>
     res_bind (derive_loop (derive_fuel e work) e name [] [] work) (\<lambda>(rows, work').
       Inr (set_relation name rows e, work')))"

subsection \<open>Dependencies first\<close>

lemma dependencies_undefined: "name \<notin> fst ` set rs \<Longrightarrow> dependencies rs name = []"
  by (simp add: dependencies_def rules_named_def map_of_eq_None_iff [symmetric])

text \<open>
  \<open>path\<close> is the set \<^verbatim>\<open>visiting\<close>: a name enters it when its visit begins and leaves it before its relation is
  derived, so that on entry to a visit it holds the callers.
\<close>

type_synonym build_state = "string list \<times> evaluator \<times> int"

function build :: "rules \<Rightarrow> string list \<Rightarrow> string \<Rightarrow> build_state \<Rightarrow> build_state res" where
  "build rs path name st =
    (if name \<in> set (fst st) then Inr st
     else if name \<in> set path then fail ErrQuery
     else res_bind
       (res_fold (\<lambda>dep st. if map_of rs dep = None then fail ErrQuery else build rs (name # path) dep st)
          (filter (\<lambda>dep. dep \<noteq> name) (dependencies rs name)) st) (\<lambda>(built, est).
        res_bind (deriveRelation name est) (\<lambda>est'. Inr (name # built, est'))))"
  by pat_completeness auto

termination
proof (relation "measure (\<lambda>(rs, path, name, _). card (fst ` set rs - set path))", goal_cases)
  case (2 rs path name st dep st')
  from 2(3) have "name \<in> fst ` set rs" using dependencies_undefined [of name rs] by (cases "name \<in> fst ` set rs") auto
  then have "fst ` set rs - set (name # path) \<subset> fst ` set rs - set path" using 2(2) by auto
  then show ?case by (simp add: psubset_card_mono)
qed simp

declare build.simps [simp del]

definition buildRelations :: "evaluator \<Rightarrow> int \<Rightarrow> (evaluator \<times> int) res" where
  "buildRelations e work =
    res_bind (res_fold (build (qe_rules e) []) (sort (map fst (qe_rules e))) ([], e, work)) (\<lambda>(_, est). Inr est)"

end
