(* ===== verification/QueryResult.thy ===== *)
theory QueryResult
  imports QueryRules Shapes
begin

text \<open>
  Results of queries (query.go): pull patterns, aggregates, projection with grouping, deduplication, ordering
  and slicing, and the entry points \<^verbatim>\<open>Query\<close>, \<^verbatim>\<open>QueryJSON\<close> and \<^verbatim>\<open>Pull\<close>.
\<close>

subsection \<open>Pull patterns\<close>

record queryFact =
  qf_cell :: cell
  qf_a :: string
  qf_aID :: int
  qf_e :: int
  qf_tx :: int
  qf_added :: bool

text \<open>\<^verbatim>\<open>ORDER BY dtx, added, e, id\<close>.\<close>

definition pull_order :: "drow \<Rightarrow> int \<times> bool \<times> int \<times> int" where
  "pull_order r = (dr_tx r, dr_added r, rf_e (dr_fact r), rf_id (dr_fact r))"

definition query_fact :: "evaluator \<Rightarrow> drow \<Rightarrow> queryFact res" where
  "query_fact e r =
    (let tb = db_tables (qe_db e); f = dr_fact r in
     res_bind (attributeName tb (rf_a f)) (\<lambda>name.
     res_bind (logicalValue tb (rf_v f) (rf_t f)) (\<lambda>logical.
       Inr \<lparr>qf_cell = Cell logical (rf_t f), qf_a = name, qf_aID = rf_a f, qf_e = rf_e f,
            qf_tx = dr_tx r, qf_added = dr_added r\<rparr>)))"

text \<open>\<^verbatim>\<open>queryFacts\<close> loads every fact of a view; a history source adds the retraction of each retracted row.\<close>

definition fact_events :: "db \<Rightarrow> string \<Rightarrow> rawFact \<Rightarrow> drow list" where
  "fact_events d source f =
    \<lparr>dr_fact = f, dr_tx = rf_tx f, dr_added = True\<rparr> #
    (case rf_rx f of
       Some rx \<Rightarrow>
         if source = ''history'' \<and> (case db_asOf d of None \<Rightarrow> True | Some t \<Rightarrow> rx \<le> t)
         then [\<lparr>dr_fact = f, dr_tx = rx, dr_added = False\<rparr>] else []
     | None \<Rightarrow> [])"

definition queryFacts :: "db \<Rightarrow> string \<Rightarrow> queryFact list res" where
  "queryFacts d source =
    (let tb = db_tables d;
         e = \<lparr>qe_db = d, qe_rules = [], qe_relations = [], qe_source = source, qe_budget = 0, qe_scan = (\<lambda>_ rs. rs)\<rparr> in
     res_bind (res_map (\<lambda>f. res_map (query_fact e) (fact_events d source f))
       (sort_key (\<lambda>f. (rf_tx f, rf_id f))
         (filter (\<lambda>f. find_id (rf_a f) tb \<noteq> None \<and>
             (if source = ''current'' then visible (db_asOf d) f
              else case db_asOf d of None \<Rightarrow> True | Some t \<Rightarrow> rf_tx f \<le> t)) (tb_facts tb))))
       (\<lambda>fs. Inr (concat fs)))"

text \<open>
  \<^verbatim>\<open>scanPullFacts\<close> visits the facts of an attribute, of one entity or of one reference target if given; the
  visitors only collect, so that here they are returned.
\<close>

definition scanPullFacts ::
    "evaluator \<Rightarrow> int option \<Rightarrow> string \<Rightarrow> int option \<Rightarrow> int \<Rightarrow> (queryFact list \<times> int) res" where
  "scanPullFacts e entity attribute reference work =
    (case name_id e attribute of
       None \<Rightarrow> Inr ([], work)
     | Some a \<Rightarrow>
        res_fold (\<lambda>r (facts, work). res_bind (spend e work) (\<lambda>work'.
                    res_bind (query_fact e r) (\<lambda>fact. Inr (facts @ [fact], work'))))
          (sort_key pull_order (filter (\<lambda>r.
             rf_a (dr_fact r) = a
             \<and> (case entity of None \<Rightarrow> True | Some i \<Rightarrow> rf_e (dr_fact r) = i)
             \<and> (case reference of None \<Rightarrow> True
                  | Some i \<Rightarrow> sql_eq (rf_v (dr_fact r)) (SInt i) \<and> rf_t (dr_fact r) = TagRef))
             (patternSQLBase e)))
          ([], work))"

text \<open>The attributes of a pull pattern with their subpatterns, \<open>ANil\<close> where there is none.\<close>

definition pull_nested_check :: "evaluator \<Rightarrow> string \<Rightarrow> int \<Rightarrow> int res" where
  "pull_nested_check e name work =
    (if Contains name ''/_'' then fail ErrQuery
     else res_bind (case name_id e name of None \<Rightarrow> Inr noSchema | Some a \<Rightarrow> schemaFor (qe_db e) a) (\<lambda>sc.
          res_bind (scanPullFacts e None name None work) (\<lambda>(facts, work').
            let populated = (facts \<noteq> []);
                allRefs = list_all (\<lambda>f. cl_tag (qf_cell f) = Some TagRef) facts in
            if sc_type sc \<noteq> [] \<and> sc_type sc \<noteq> ''ref'' then fail ErrQuery
            else if sc_type sc = [] \<and> (\<not> populated \<or> \<not> allRefs) then fail ErrQuery
            else if \<not> allRefs then fail ErrQuery
            else Inr work')))"

definition pull_item ::
    "evaluator \<Rightarrow> any \<Rightarrow> bool \<times> fields \<times> int \<Rightarrow> (bool \<times> fields \<times> int) res" where
  "pull_item e item st =
    (case st of (every, attrs, work) \<Rightarrow>
     case item of
       AStr attr \<Rightarrow> if attr = ''*'' then Inr (True, attrs, work) else Inr (every, AList.update attr ANil attrs, work)
     | _ \<Rightarrow>
       (case objectFields item of
          Some [(name, sub)] \<Rightarrow>
            res_bind (pull_nested_check e name work) (\<lambda>work'. Inr (every, AList.update name sub attrs, work'))
        | _ \<Rightarrow> fail ErrQuery))"

text \<open>\<^verbatim>\<open>pullEntity\<close> at depth zero, charging the budget for every row; \<open>None\<close> is the nil map of an unknown entity.\<close>

definition pull_full :: "evaluator \<Rightarrow> int \<Rightarrow> int \<Rightarrow> (fields option \<times> int) res" where
  "pull_full e i work =
    (let d = qe_db e; tb = db_tables d in
     res_bind (res_fold (\<lambda>f (m, work). res_bind (spend e work) (\<lambda>work'.
                           res_bind (pull_row None d [i] f m) (\<lambda>m'. Inr (m', work'))))
                 (sort_key rf_a (select_facts (\<lambda>f. rf_e f = i \<and> visible (db_asOf d) f \<and> find_id (rf_a f) tb \<noteq> None) tb))
                 ([], work)) (\<lambda>(m, work').
       Inr (if m = [] \<and> \<not> list_ex (\<lambda>r. id_id r = i \<and> id_visible (db_asOf d) r) (tb_ids tb)
            then None else Some m, work')))"

text \<open>Writing into a nil map panics.\<close>

definition set_field :: "string \<Rightarrow> any \<Rightarrow> fields option \<Rightarrow> fields option res" where
  "set_field k v m = (case m of None \<Rightarrow> Inl Panic | Some kvs \<Rightarrow> Inr (Some (AList.update k v kvs)))"

type_synonym puller = "int \<Rightarrow> any list \<Rightarrow> int list \<Rightarrow> int \<Rightarrow> (fields option \<times> int) res"

definition pull_refs ::
    "puller option \<Rightarrow> evaluator \<Rightarrow> any list \<Rightarrow> int list \<Rightarrow> int list \<Rightarrow> int \<Rightarrow> (any list \<times> int) res" where
  "pull_refs deeper e sub seen refs work =
    res_maps (\<lambda>ref work.
      case deeper of
        None \<Rightarrow> Inr (renderLogical (db_store (qe_db e)) (AInt64 ref) TagRef, work)
      | Some pull \<Rightarrow>
          if ref \<in> set seen then Inr (renderLogical (db_store (qe_db e)) (AInt64 ref) TagRef, work)
          else res_bind (pull ref sub (ref # seen) work) (\<lambda>(m, work').
            Inr (AMap (case m of None \<Rightarrow> [] | Some kvs \<Rightarrow> kvs), work'))) refs work"

definition pull_subpattern ::
    "puller option \<Rightarrow> evaluator \<Rightarrow> int \<Rightarrow> int list \<Rightarrow> string \<Rightarrow> any list \<Rightarrow> fields option \<times> int
     \<Rightarrow> (fields option \<times> int) res" where
  "pull_subpattern deeper e entity seen attr sub st =
    (case st of (m, work) \<Rightarrow>
     res_bind (scanPullFacts e (Some entity) attr None work) (\<lambda>(facts, work1).
     res_bind (pull_refs deeper e sub seen
                 (map (\<lambda>f. any_int64 (cl_value (qf_cell f)))
                   (filter (\<lambda>f. cl_tag (qf_cell f) = Some TagRef) facts)) work1) (\<lambda>(nested, work2).
     res_bind (case name_id e attr of None \<Rightarrow> Inr noSchema | Some a \<Rightarrow> schemaFor (qe_db e) a) (\<lambda>sc.
     res_bind (set_field attr (if length nested = 1 \<and> \<not> sc_many sc then hd nested else AList nested) m) (\<lambda>m'.
       Inr (m', work2))))))"

definition pull_attribute ::
    "puller option \<Rightarrow> evaluator \<Rightarrow> int \<Rightarrow> int list \<Rightarrow> fields option \<Rightarrow> string \<times> any \<Rightarrow> fields option \<times> int
     \<Rightarrow> (fields option \<times> int) res" where
  "pull_attribute deeper e entity seen full field st =
    (case field of (attr, sub) \<Rightarrow>
     case st of (m, work) \<Rightarrow>
     if Contains attr ''/_'' then
       res_bind (scanPullFacts e None (forward_name attr) (Some entity) work) (\<lambda>(facts, work').
       res_bind (set_field attr (AList (map (\<lambda>f. renderLogical (db_store (qe_db e)) (AInt64 (qf_e f)) TagRef) facts)) m) (\<lambda>m'.
         Inr (m', work')))
     else case Option.bind full (\<lambda>kvs. map_of kvs attr) of
       None \<Rightarrow> Inr st
     | Some v \<Rightarrow>
        (case sub of
           ANil \<Rightarrow> res_bind (set_field attr v m) (\<lambda>m'. Inr (m', work))
         | AList subpattern \<Rightarrow> pull_subpattern deeper e entity seen attr subpattern st
         | _ \<Rightarrow> fail ErrQuery))"

text \<open>
  \<^verbatim>\<open>pullEntity\<close> removes its entity from \<^verbatim>\<open>seen\<close> on return, also when the caller had put it there.
  The loop over the Go map of attributes runs here in the order in which the pattern names them.
\<close>

definition pull_pattern_with :: "puller option \<Rightarrow> evaluator \<Rightarrow> puller" where
  "pull_pattern_with deeper e entity pattern seen work =
    res_bind (res_fold (pull_item e) pattern (False, [], work)) (\<lambda>(every, attrs, work1).
    res_bind (pull_full e entity work1) (\<lambda>(full, work2).
      res_fold (pull_attribute deeper e entity (removeAll entity seen) full) attrs
        (if every then full else Some [], work2)))"

primrec pullPattern :: "nat \<Rightarrow> evaluator \<Rightarrow> puller" where
  "pullPattern 0 e = pull_pattern_with None e"
| "pullPattern (Suc depth) e = pull_pattern_with (Some (pullPattern depth e)) e"

subsection \<open>Aggregates\<close>

text \<open>Addition of two \<^verbatim>\<open>float64\<close> and division of a finite one by a positive count.\<close>

definition f64_nan :: f64 where "f64_nan = 9221120237041090561"

definition f64_add :: "f64 \<Rightarrow> f64 \<Rightarrow> f64" where
  "f64_add x y =
    (if IsNaN x \<or> IsNaN y then f64_nan
     else if IsInf x then (if IsInf y \<and> f64_neg x \<noteq> f64_neg y then f64_nan else x)
     else if IsInf y then y
     else let s = f64_rat x + f64_rat y in
          if s = 0 then (if f64_neg x \<and> f64_neg y then 9223372036854775808 else 0) else f64_of_rat s)"

definition f64_div_count :: "f64 \<Rightarrow> nat \<Rightarrow> f64" where
  "f64_div_count x n = (if f64_zero x then x else f64_of_rat (f64_rat x / f64_rat (f64_of_int (int n))))"

definition null_cell :: cell where
  "null_cell = \<lparr>cl_value = ANil, cl_tag = None\<rparr>"

definition isFiniteNumericCell :: "cell \<Rightarrow> bool" where
  "isFiniteNumericCell c =
    (case numeric (cl_value c) of None \<Rightarrow> False | Some x \<Rightarrow> \<not> IsNaN x \<and> \<not> IsInf x)"

definition sum_integers :: "cell list \<Rightarrow> cell res" where
  "sum_integers values =
    res_bind (res_map (\<lambda>c. case cl_value c of ANum k n \<Rightarrow> if k = KInt64 then Inr n else fail ErrQuery | _ \<Rightarrow> fail ErrQuery)
                values) (\<lambda>ns.
      if in_int64 (sum_list ns) then Inr (Cell (AInt64 (sum_list ns)) TagInt) else fail ErrQuery)"

definition sum_floats :: "bool \<Rightarrow> cell list \<Rightarrow> cell res" where
  "sum_floats average values =
    res_bind (res_map (\<lambda>c. case numeric (cl_value c) of None \<Rightarrow> fail ErrQuery | Some x \<Rightarrow> Inr x) values) (\<lambda>xs.
      let total = foldl f64_add 0 xs in
      if IsNaN total \<or> IsInf total then fail ErrQuery
      else Inr (Cell (AF64 (if average then f64_div_count total (length values) else total)) TagFloat))"

definition extreme_step :: "(int \<Rightarrow> bool) \<Rightarrow> cell \<Rightarrow> cell \<Rightarrow> cell res" where
  "extreme_step beats c best =
    (if \<not> numericCell c \<or> \<not> isFiniteNumericCell c then fail ErrQuery
     else case orderedCompare (cl_value c) (cl_value best) of
       None \<Rightarrow> fail ErrQuery
     | Some o1 \<Rightarrow> Inr (if beats o1 then c else best))"

definition extreme :: "(int \<Rightarrow> bool) \<Rightarrow> cell list \<Rightarrow> cell res" where
  "extreme beats values =
    (case values of
       [] \<Rightarrow> Inr null_cell
     | c # cs \<Rightarrow>
        if \<not> numericCell c \<or> \<not> isFiniteNumericCell c then fail ErrQuery
        else res_fold (extreme_step beats) cs c)"

definition aggregate :: "string \<Rightarrow> cell list \<Rightarrow> cell res" where
  "aggregate name values =
    (if name = ''count'' then Inr (Cell (AInt64 (int (length values))) TagInt)
     else if name = ''count-distinct'' then
       res_bind (res_map structuralCellKey values) (\<lambda>keys. Inr (Cell (AInt64 (int (length (remdups keys)))) TagInt))
     else if name = ''sum'' \<or> name = ''avg'' then
       if values = [] then Inr null_cell
       else if \<not> list_all numericCell values then fail ErrQuery
       else if name = ''sum'' \<and> list_all (\<lambda>c. cl_tag c = Some TagInt) values then sum_integers values
       else sum_floats (name = ''avg'') values
     else if name = ''min'' then extreme (\<lambda>c. c < 0) values
     else if name = ''max'' then extreme (\<lambda>c. c > 0) values
     else fail ErrQuery)"

subsection \<open>Rows\<close>

definition render_cell :: "evaluator \<Rightarrow> cell \<Rightarrow> any" where
  "render_cell e c =
    (case cl_tag c of None \<Rightarrow> cl_value c | Some t \<Rightarrow> renderLogical (db_store (qe_db e)) (cl_value c) t)"

definition project_item :: "evaluator \<Rightarrow> binding \<Rightarrow> any \<Rightarrow> int \<Rightarrow> ((any \<times> cell) \<times> int) res" where
  "project_item e values item work =
    (case item of
       AStr v \<Rightarrow>
        (case map_of values v of
           None \<Rightarrow> fail ErrQuery
         | Some c \<Rightarrow> Inr ((render_cell e c, c), work))
     | AList [pull, variable, pattern] \<Rightarrow>
        if pull \<noteq> AStr ''pull'' then fail ErrQuery
        else (case variable of
           AStr v \<Rightarrow>
            (case bound_entity v values of
               None \<Rightarrow> fail ErrQuery
             | Some entity \<Rightarrow>
                (case pattern of
                   AList items \<Rightarrow>
                    res_bind (validatePullPattern items) (\<lambda>_.
                    res_bind (pullPattern 1 e entity items [] work) (\<lambda>(m, work').
                      let pulled = AMap (case m of None \<Rightarrow> [] | Some kvs \<Rightarrow> kvs) in
                      Inr ((pulled, Cell pulled TagJSON), work')))
                 | _ \<Rightarrow> fail ErrQuery))
         | _ \<Rightarrow> fail ErrQuery)
     | _ \<Rightarrow> fail ErrQuery)"

definition projectRow :: "evaluator \<Rightarrow> any list \<Rightarrow> binding \<Rightarrow> int \<Rightarrow> ((any list \<times> cell list) \<times> int) res" where
  "projectRow e items values work =
    res_bind (res_maps (project_item e values) items work) (\<lambda>(ps, work').
      Inr ((map fst ps, map snd ps), work'))"

text \<open>An item that is not an aggregate is taken from the first binding of the group.\<close>

definition aggregate_item :: "evaluator \<Rightarrow> binding list \<Rightarrow> any \<Rightarrow> int \<Rightarrow> ((any \<times> cell) \<times> int) res" where
  "aggregate_item e members item work =
    (if findAggregate item = [] then
       (case members of [] \<Rightarrow> Inl Panic | values # _ \<Rightarrow> project_item e values item work)
     else case item of
       AList [_, AStr v] \<Rightarrow>
         res_bind (aggregate (findAggregate item)
                     (concat (map (\<lambda>values. case map_of values v of None \<Rightarrow> [] | Some c \<Rightarrow> [c]) members))) (\<lambda>c.
           Inr ((render_cell e c, c), work))
     | _ \<Rightarrow> fail ErrQuery)"

definition aggregateRow :: "evaluator \<Rightarrow> any list \<Rightarrow> binding list \<Rightarrow> int \<Rightarrow> ((any list \<times> cell list) \<times> int) res" where
  "aggregateRow e items members work =
    res_bind (res_maps (aggregate_item e members) items work) (\<lambda>(ps, work').
      Inr ((map fst ps, map snd ps), work'))"

definition groupKey :: "any list \<Rightarrow> binding \<Rightarrow> string res" where
  "groupKey items values =
    res_fold (\<lambda>item b.
      if findAggregate item \<noteq> [] then Inr b
      else case item of
        AStr v \<Rightarrow>
          res_bind (structuralCellKey (case map_of values v of None \<Rightarrow> zero_cell | Some c \<Rightarrow> c)) (\<lambda>k.
            Inr (appendKeyPart (appendKeyPart b v) k))
      | _ \<Rightarrow> Inr b) items []"

definition add_group ::
    "any list \<Rightarrow> binding \<Rightarrow> (string \<times> binding list) list \<Rightarrow> (string \<times> binding list) list res" where
  "add_group items values groups =
    res_bind (groupKey items values) (\<lambda>key.
      Inr (AList.update key ((case map_of groups key of None \<Rightarrow> [] | Some g \<Rightarrow> g) @ [values]) groups))"

definition group_bindings :: "any list \<Rightarrow> binding list \<Rightarrow> binding list list res" where
  "group_bindings items bindings =
    res_bind (res_fold (add_group items) bindings []) (\<lambda>groups.
      Inr (if bindings = [] \<and> allAggregates items then [[]] else map snd groups))"

text \<open>A row of the result with its cells and, outside aggregation, the binding it came from.\<close>

record result_row =
  rw_row :: "any list"
  rw_cells :: "cell list"
  rw_binding :: binding

definition row_key :: "result_row \<Rightarrow> string res" where
  "row_key r = res_wrap ErrQuery (canonicalJSON (AList (rw_row r)))"

definition project_group :: "evaluator \<Rightarrow> any list \<Rightarrow> binding list
    \<Rightarrow> (string list \<times> result_row list) \<times> int \<Rightarrow> ((string list \<times> result_row list) \<times> int) res" where
  "project_group e items members st =
    (case st of (kept, work) \<Rightarrow>
     res_bind (aggregateRow e items members work) (\<lambda>((row, cells), work').
     res_bind (keep_new row_key \<lparr>rw_row = row, rw_cells = cells, rw_binding = []\<rparr> kept) (\<lambda>kept'.
       Inr (kept', work'))))"

definition project_binding :: "evaluator \<Rightarrow> any list \<Rightarrow> binding
    \<Rightarrow> (string list \<times> result_row list) \<times> int \<Rightarrow> ((string list \<times> result_row list) \<times> int) res" where
  "project_binding e items values st =
    (case st of (kept, work) \<Rightarrow>
     res_bind (projectRow e items values work) (\<lambda>((row, cells), work').
     res_bind (keep_new row_key \<lparr>rw_row = row, rw_cells = cells, rw_binding = values\<rparr> kept) (\<lambda>kept'.
       Inr (kept', work'))))"

definition has_aggregate :: "any list \<Rightarrow> bool" where
  "has_aggregate items = list_ex (\<lambda>item. findAggregate item \<noteq> []) items"

definition project_rows :: "evaluator \<Rightarrow> any list \<Rightarrow> binding list \<Rightarrow> int \<Rightarrow> (result_row list \<times> int) res" where
  "project_rows e items bindings work =
    res_bind (if has_aggregate items
              then res_bind (group_bindings items bindings) (\<lambda>groups.
                     res_fold (project_group e items) groups (([], []), work))
              else res_fold (project_binding e items) bindings (([], []), work)) (\<lambda>((_, rows), work').
      Inr (rows, work'))"

subsection \<open>Order\<close>

definition renderedOrderCategory :: "any \<Rightarrow> int" where
  "renderedOrderCategory v =
    (case v of
       ABool _ \<Rightarrow> 0
     | ANum k _ \<Rightarrow> if k = KInt \<or> k = KInt64 then 1 else 3
     | AF32 _ \<Rightarrow> 1
     | AF64 _ \<Rightarrow> 1
     | AStr _ \<Rightarrow> 2
     | _ \<Rightarrow> 3)"

definition compareOrderCells :: "evaluator \<Rightarrow> cell \<Rightarrow> cell \<Rightarrow> int res" where
  "compareOrderCells e l r =
    (let x = render_cell e l; y = render_cell e r;
         cx = renderedOrderCategory x; cy = renderedOrderCategory y in
     if cx \<noteq> cy then Inr (cx - cy)
     else if cx = 0 \<or> cx = 2 then
       (case (x, y) of
          (ABool a, ABool b) \<Rightarrow> Inr (three_way a b)
        | (AStr a, AStr b) \<Rightarrow> Inr (three_way a b)
        | _ \<Rightarrow> fail ErrQuery)
     else if cx = 1 then (case orderedNumericCompare x y of None \<Rightarrow> fail ErrQuery | Some c \<Rightarrow> Inr c)
     else res_bind (res_wrap ErrQuery (canonicalJSON x)) (\<lambda>a.
          res_bind (res_wrap ErrQuery (canonicalJSON y)) (\<lambda>b. Inr (three_way a b))))"

record orderItem =
  oi_variable :: string
  oi_index :: "nat option"
  oi_desc :: bool

fun index_of :: "string \<Rightarrow> string list \<Rightarrow> nat option" where
  "index_of name [] = None"
| "index_of name (c # cs) = (if c = name then Some 0 else map_option Suc (index_of name cs))"

definition parse_order_item :: "string list \<Rightarrow> string list \<Rightarrow> bool \<Rightarrow> any \<Rightarrow> orderItem res" where
  "parse_order_item columns bound aggregated item =
    (case item of
       AList [AStr name, AStr direction] \<Rightarrow>
        if direction \<noteq> ''asc'' \<and> direction \<noteq> ''desc'' then fail ErrQuery
        else let index = index_of name columns in
             if index = None \<and> (aggregated \<or> name \<notin> set bound) then fail ErrQuery
             else Inr \<lparr>oi_variable = name, oi_index = index, oi_desc = (direction = ''desc'')\<rparr>
     | _ \<Rightarrow> fail ErrQuery)"

definition parseOrderBound :: "any list \<Rightarrow> string list \<Rightarrow> string list \<Rightarrow> bool \<Rightarrow> orderItem list res" where
  "parseOrderBound raw columns bound aggregated = res_map (parse_order_item columns bound aggregated) raw"

definition order_cell :: "orderItem \<Rightarrow> result_row \<Rightarrow> cell" where
  "order_cell item r =
    (case oi_index item of
       Some i \<Rightarrow> rw_cells r ! i
     | None \<Rightarrow> (case map_of (rw_binding r) (oi_variable item) of None \<Rightarrow> zero_cell | Some c \<Rightarrow> c))"

text \<open>The sign of the first order item that tells the rows apart, with the direction of that item.\<close>

fun compare_rows :: "evaluator \<Rightarrow> orderItem list \<Rightarrow> result_row \<Rightarrow> result_row \<Rightarrow> int res" where
  "compare_rows e [] l r = Inr 0"
| "compare_rows e (item # items) l r =
    res_bind (compareOrderCells e (order_cell item l) (order_cell item r)) (\<lambda>c.
      if c \<noteq> 0 then Inr (if oi_desc item then - c else c) else compare_rows e items l r)"

definition row_less :: "evaluator \<Rightarrow> orderItem list \<Rightarrow> result_row \<Rightarrow> result_row \<Rightarrow> bool res" where
  "row_less e items l r = res_bind (compare_rows e items l r) (\<lambda>c. Inr (c < 0))"

text \<open>
  \<^verbatim>\<open>sort.SliceStable\<close>: insertion from the right, as Go does it on blocks of 20; on longer slices it merges such
  blocks, which is the same list for a strict weak order. An error of the comparison fails the sort.
\<close>

fun insert_back :: "('a \<Rightarrow> 'a \<Rightarrow> bool res) \<Rightarrow> 'a \<Rightarrow> 'a list \<Rightarrow> 'a list res" where
  "insert_back lt x [] = Inr [x]"
| "insert_back lt x (y # ys) =
    res_bind (lt x y) (\<lambda>b.
      if b then res_bind (insert_back lt x ys) (\<lambda>zs. Inr (y # zs)) else Inr (x # y # ys))"

definition SliceStable :: "('a \<Rightarrow> 'a \<Rightarrow> bool res) \<Rightarrow> 'a list \<Rightarrow> 'a list res" where
  "SliceStable lt xs = res_bind (res_fold (insert_back lt) xs []) (\<lambda>ys. Inr (rev ys))"

subsection \<open>The result\<close>

record Result =
  rs_columns :: "string list"
  rs_rows :: "any list list"

text \<open>\<open>sprint\<close> is \<^verbatim>\<open>fmt.Sprint\<close>, which labels only items that \<^verbatim>\<open>validateFindItems\<close> refuses.\<close>

definition findLabel :: "(any \<Rightarrow> string) \<Rightarrow> any \<Rightarrow> string" where
  "findLabel sprint item =
    (case item of
       AStr v \<Rightarrow> v
     | AList (AStr name # AStr v # _) \<Rightarrow> name @ ''('' @ v @ '')''
     | _ \<Rightarrow> sprint item)"

text \<open>\<^verbatim>\<open>start + *query.Limit\<close> wraps, and slicing with an end before the start panics.\<close>

definition slice_end :: "int \<Rightarrow> int option \<Rightarrow> int \<Rightarrow> int res" where
  "slice_end start limit n =
    (case limit of
       None \<Rightarrow> Inr n
     | Some l \<Rightarrow>
        if l < 0 then fail ErrQuery
        else Inr (if l = 0 then start else if i64_add start l < n then i64_add start l else n))"

definition slice_rows :: "Q \<Rightarrow> 'a list \<Rightarrow> 'a list res" where
  "slice_rows query rows =
    (let n = int (length rows); start = min (q_offset query) n in
     if q_offset query < 0 then fail ErrQuery
     else res_bind (slice_end start (q_limit query) n) (\<lambda>stop.
       if stop < start then Inl Panic else Inr (take (nat (stop - start)) (drop (nat start) rows))))"

definition order_rows :: "evaluator \<Rightarrow> Q \<Rightarrow> string list \<Rightarrow> result_row list \<Rightarrow> result_row list res" where
  "order_rows e query columns rows =
    (if q_order query = [] then Inr rows
     else res_bind (outwardClauseBindings (q_where query) (q_in query)) (\<lambda>bound.
          res_bind (parseOrderBound (q_order query) columns bound (has_aggregate (q_find query))) (\<lambda>items.
            SliceStable (row_less e items) rows)))"

definition project :: "(any \<Rightarrow> string) \<Rightarrow> evaluator \<Rightarrow> Q \<Rightarrow> binding list \<Rightarrow> int \<Rightarrow> Result res" where
  "project sprint e query bindings work =
    (let columns = map (findLabel sprint) (q_find query) in
     res_bind (project_rows e (q_find query) bindings work) (\<lambda>(rows, _).
     res_bind (order_rows e query columns rows) (\<lambda>ordered.
     res_bind (slice_rows query (map rw_row ordered)) (\<lambda>slice.
       Inr \<lparr>rs_columns = columns, rs_rows = slice\<rparr>))))"

subsection \<open>Entry points\<close>

text \<open>What a query takes from its surroundings: the budget of the store, \<open>qe_scan\<close> and \<open>sprint\<close>.\<close>

record query_env =
  qv_budget :: int
  qv_scan :: "nat list \<Rightarrow> drow list \<Rightarrow> drow list"
  qv_sprint :: "any \<Rightarrow> string"

definition new_evaluator :: "query_env \<Rightarrow> db \<Rightarrow> rules \<Rightarrow> string \<Rightarrow> evaluator" where
  "new_evaluator qv d rs source =
    \<lparr>qe_db = d, qe_rules = rs, qe_relations = [], qe_source = source, qe_budget = qv_budget qv, qe_scan = qv_scan qv\<rparr>"

definition bind_input :: "evaluator \<Rightarrow> (string \<times> any) list \<Rightarrow> string \<Rightarrow> binding \<Rightarrow> binding res" where
  "bind_input e args v b =
    (case map_of args v of
       None \<Rightarrow> fail ErrQuery
     | Some x \<Rightarrow> res_bind (constantCell e x) (\<lambda>c. Inr (AList.update v c b)))"

definition run_query :: "query_env \<Rightarrow> Q \<Rightarrow> (string \<times> any) list \<Rightarrow> db \<Rightarrow> Result res" where
  "run_query qv query args d =
    res_bind (parseRules (q_rules query)) (\<lambda>rs.
    res_bind (buildRelations (new_evaluator qv d rs (q_source query)) 0) (\<lambda>(e, work).
    res_bind (res_fold (bind_input e args) (q_in query) []) (\<lambda>initial.
    res_bind (evalClauses e (q_where query) [initial] work) (\<lambda>(bindings, work').
      project (qv_sprint qv) e query bindings work'))))"

definition check_query :: "Q \<Rightarrow> unit res" where
  "check_query query =
    (if q_source query \<noteq> ''current'' \<and> q_source query \<noteq> ''history'' then fail ErrQuery
     else if q_find query = [] then fail ErrQuery
     else res_bind (validateFindItems (q_find query)) (\<lambda>_. validateFindBindings query))"

definition Query :: "query_env \<Rightarrow> db \<Rightarrow> Q \<Rightarrow> (string \<times> any) list \<Rightarrow> Result res \<times> db" where
  "Query qv d query0 args =
    (let query = (if q_source query0 = [] then query0\<lparr>q_source := ''current''\<rparr> else query0) in
     case check_query query of
       Inl e \<Rightarrow> (Inl e, d)
     | Inr _ \<Rightarrow> withRead d (run_query qv query args))"

definition QueryJSON :: "query_env \<Rightarrow> db \<Rightarrow> any \<Rightarrow> (string \<times> any) list \<Rightarrow> Result res \<times> db" where
  "QueryJSON qv d v args =
    (case ParseQuery v of Inl e \<Rightarrow> (Inl e, d) | Inr query \<Rightarrow> Query qv d query args)"

definition Pull :: "query_env \<Rightarrow> db \<Rightarrow> any \<Rightarrow> any list \<Rightarrow> fields option res \<times> db" where
  "Pull qv d ref pattern =
    (case validatePullPattern pattern of
       Inl e \<Rightarrow> (Inl e, d)
     | Inr _ \<Rightarrow> withRead d (\<lambda>d'.
         res_bind (resolveReadEntity d' ref) (\<lambda>found.
           case found of
             None \<Rightarrow> fail ErrNotFound
           | Some entity \<Rightarrow>
               res_bind (pullPattern 1 (new_evaluator qv d' [] ''current'') entity pattern [entity] 0) (\<lambda>(m, _).
                 Inr m))))"

end
