(* ===== verification/Scores.thy ===== *)
theory Scores
  imports Ranking QueryResult
begin

text \<open>
  The arithmetic of search.go: \<^verbatim>\<open>float64\<close> multiplication, division and \<^verbatim>\<open>math.Sqrt\<close> on IEEE 754 patterns
  (addition is that of the aggregates), each the exact result rounded once to nearest even (no fused multiply-add), norms and cosine similarity.
\<close>

subsection \<open>IEEE 754 arithmetic\<close>

definition f64_inf :: f64 where "f64_inf = 9218868437227405312"

definition f64_signed :: "bool \<Rightarrow> f64 \<Rightarrow> f64" where
  "f64_signed negative w = (if negative then 9223372036854775808 else 0) + w"

definition f64_round :: "bool \<Rightarrow> rat \<Rightarrow> f64" where
  "f64_round negative x = f64_signed negative (encode_abs 52 (-1022) f64_inf x)"

definition f64_mul :: "f64 \<Rightarrow> f64 \<Rightarrow> f64" where
  "f64_mul x y =
    (let negative = (f64_neg x \<noteq> f64_neg y) in
     if IsNaN x \<or> IsNaN y then f64_nan
     else if IsInf x \<or> IsInf y
     then (if f64_zero x \<or> f64_zero y then f64_nan else f64_signed negative f64_inf)
     else f64_round negative (f64_abs_rat x * f64_abs_rat y))"

definition f64_div :: "f64 \<Rightarrow> f64 \<Rightarrow> f64" where
  "f64_div x y =
    (let negative = (f64_neg x \<noteq> f64_neg y) in
     if IsNaN x \<or> IsNaN y \<or> (IsInf x \<and> IsInf y) \<or> (f64_zero x \<and> f64_zero y) then f64_nan
     else if IsInf x \<or> f64_zero y then f64_signed negative f64_inf
     else if IsInf y then f64_signed negative 0
     else f64_round negative (f64_abs_rat x / f64_abs_rat y))"

text \<open>The integer square root, two bits at a time.\<close>

fun isqrt :: "nat \<Rightarrow> nat" where
  "isqrt n =
    (if n = 0 then 0
     else let r = 2 * isqrt (n div 4) in if (r + 1) * (r + 1) \<le> n then r + 1 else r)"

declare isqrt.simps [simp del]

lemma isqrt_bounds: "isqrt n * isqrt n \<le> n \<and> n < (isqrt n + 1) * (isqrt n + 1)"
proof (induction n rule: isqrt.induct)
  case (1 n)
  show ?case
  proof (cases "n = 0")
    case True
    then show ?thesis by (simp add: isqrt.simps)
  next
    case False
    define q where "q = isqrt (n div 4)"
    have q: "q * q \<le> n div 4" "n div 4 < (q + 1) * (q + 1)" using 1 False by (simp_all add: q_def)
    have "n div 4 + 1 \<le> (q + 1) * (q + 1)" using q(2) by simp
    then have "4 * (n div 4 + 1) \<le> 4 * ((q + 1) * (q + 1))" by (rule mult_le_mono2)
    moreover have "n < 4 * (n div 4 + 1)" by presburger
    ultimately have up: "n < (2 * q + 2) * (2 * q + 2)" by (simp add: algebra_simps)
    have "4 * (q * q) \<le> 4 * (n div 4)" using q(1) by (rule mult_le_mono2)
    then have "(2 * q) * (2 * q) \<le> n" using div_times_less_eq_dividend [of n 4] by (simp add: algebra_simps)
    then show ?thesis using False up by (subst (1 2 3 4) isqrt.simps) (auto simp: Let_def q_def)
  qed
qed

text \<open>
  \<^verbatim>\<open>math.Sqrt\<close>: the mantissa, widened by 120 bits at an even exponent, has a root of more than 60 bits; when the root
  is not exact, half a unit of its last place stands for the remainder, which decides the rounding to 53 bits.
\<close>

definition f64_sqrt :: "f64 \<Rightarrow> f64" where
  "f64_sqrt x =
    (if IsNaN x \<or> f64_zero x then x
     else if f64_neg x then f64_nan
     else if IsInf x then x
     else let e = f64_expo x; odd_e = (e mod 2 = 1);
              m = (if odd_e then 2 * f64_mant x else f64_mant x) * 2 ^ 120;
              r = isqrt m
          in f64_round False
               ((of_nat r + (if r * r = m then 0 else 1 / 2)) * pow2 ((if odd_e then e - 1 else e) div 2 - 60)))"

subsection \<open>Vectors\<close>

definition square_sum :: "f32 list \<Rightarrow> f64" where
  "square_sum v = foldl (\<lambda>s c. f64_add s (f64_mul (f64_of_f32 c) (f64_of_f32 c))) 0 v"

definition validateCosineVector :: "f32 list \<Rightarrow> unit res" where
  "validateCosineVector vector =
    (if vector = [] then fail ErrType
     else if list_ex (\<lambda>c. IsNaN (f64_of_f32 c) \<or> IsInf (f64_of_f32 c)) vector then fail ErrType
     else if f64_eq (square_sum vector) 0 then fail ErrType
     else Inr ())"

definition vectorNorm :: "f32 list \<Rightarrow> f64" where
  "vectorNorm vector = f64_sqrt (square_sum vector)"

definition cosineWithNorm :: "f32 list \<Rightarrow> f32 list \<Rightarrow> f64 \<Rightarrow> f64" where
  "cosineWithNorm left right leftNorm =
    (if length left \<noteq> length right then f64_signed True f64_inf
     else let dot = foldl (\<lambda>s (l, r). f64_add s (f64_mul (f64_of_f32 l) (f64_of_f32 r))) 0 (zip left right);
              rightNorm = f64_sqrt (square_sum right)
          in if f64_eq leftNorm 0 \<or> f64_eq rightNorm 0 then f64_signed True f64_inf
             else f64_div dot (f64_mul leftNorm rightNorm))"

definition cosine :: "f32 list \<Rightarrow> f32 list \<Rightarrow> f64" where
  "cosine left right = cosineWithNorm left right (vectorNorm left)"

end
