(* ===== verification/Search.thy ===== *)
theory Search
  imports SearchText Scores
begin

text \<open>
  Hybrid search (search.go): filters, keyword and vector candidates under one work budget, reciprocal rank fusion,
  compact projections, expansion along references, and the bounds on what is returned.
\<close>

subsection \<open>Limits and the work budget\<close>

definition searchCandidateLimit :: nat where "searchCandidateLimit = 50"
definition maxSearchCandidates :: nat where "maxSearchCandidates = 500"
definition maxSearchK :: int where "maxSearchK = 100"
definition maxSearchExpand :: int where "maxSearchExpand = 3"
definition maxSearchFilters :: nat where "maxSearchFilters = 16"
definition maxSearchAttributes :: nat where "maxSearchAttributes = 16"
definition maxExpandedEntities :: nat where "maxExpandedEntities = 100"
definition maxMatchedFacts :: nat where "maxMatchedFacts = 8"
definition maxPullAttributes :: nat where "maxPullAttributes = 32"
definition maxPullValues :: nat where "maxPullValues = 32"
definition maxSearchOutputBytes :: nat where "maxSearchOutputBytes = 1048576"
definition keywordPageMinimum :: nat where "keywordPageMinimum = 256"
definition rrfK :: int where "rrfK = 60"

record searchWork =
  sw_limit :: int
  sw_used :: int

definition spend_work :: "searchWork \<Rightarrow> searchWork res" where
  "spend_work w = (if sw_used w \<ge> sw_limit w then fail ErrTooLarge else Inr (w\<lparr>sw_used := sw_used w + 1\<rparr>))"

definition remaining :: "searchWork \<Rightarrow> int" where
  "remaining w = max 0 (sw_limit w - sw_used w)"

subsection \<open>Options, facts and results\<close>

record SearchOpts =
  so_text :: string
  so_vectorAttribute :: string
  so_textAttributes :: "string list"
  so_vector :: "f32 list"
  so_filters :: "any list list"
  so_k :: int
  so_expand :: int

record SearchFact = TemporalFact +
  fa_snippet :: string
  fa_snippetTruncated :: bool
  fa_valueTruncated :: bool

definition search_fact :: "TemporalFact \<Rightarrow> SearchFact" where
  "search_fact f = TemporalFact.extend (TemporalFact.truncate f)
    \<lparr>fa_snippet = [], fa_snippetTruncated = False, fa_valueTruncated = False\<rparr>"

record rankedFact =
  rk_fact :: SearchFact
  rk_entity :: int
  rk_score :: f64

record candidateBatch =
  cb_items :: "rankedFact list"
  cb_truncated :: bool

record SearchHit =
  sh_entity :: any
  sh_pull :: fields
  sh_matched :: "SearchFact list"
  sh_via :: "Fact list"
  sh_score :: f64

record SearchResult =
  sr_hits :: "SearchHit list"
  sr_expanded :: "SearchHit list"
  sr_basisTx :: int
  sr_truncated :: bool
  sr_workUsed :: int

text \<open>
  What search relies on outside this code: which runes are letters or numbers (\<^verbatim>\<open>unicode\<close>), the rows, ranks and
  snippets that the FTS5 module of SQLite answers for an expression, and the length of the result as
  \<^verbatim>\<open>encoding/json\<close> writes it (\<open>None\<close> when it cannot); with the budget that the store was opened with.
\<close>

record search_env =
  se_word :: "nat \<Rightarrow> bool"
  se_match :: "string \<Rightarrow> (int \<times> string) list \<Rightarrow> (int \<times> f64 \<times> string) list res"
  se_size :: "SearchResult \<Rightarrow> nat option"
  se_budget :: int

subsection \<open>Filters\<close>

record resolvedSearchFilter =
  fl_value :: storedValue
  fl_a :: int

text \<open>\<open>None\<close>: an attribute that does not exist, so that nothing can match.\<close>

fun resolveSearchFilters :: "db \<Rightarrow> any list list \<Rightarrow> resolvedSearchFilter list option res" where
  "resolveSearchFilters d [] = Inr (Some [])"
| "resolveSearchFilters d (criterion # rest) =
    (case criterion of
       [AStr attr, value] \<Rightarrow>
         (case map_of (st_names (db_store d)) attr of
            None \<Rightarrow> Inr None
          | Some attrID \<Rightarrow>
             res_bind (schemaFor d attrID) (\<lambda>sc.
             res_bind (resolveReadFactValue d sc value) (\<lambda>v.
             res_bind (resolveSearchFilters d rest) (\<lambda>resolved.
               Inr (map_option (\<lambda>fs. \<lparr>fl_value = v, fl_a = attrID\<rparr> # fs) resolved)))))
     | _ \<Rightarrow> fail ErrType)"

definition searchFilterOwners :: "db \<Rightarrow> resolvedSearchFilter \<Rightarrow> searchWork \<Rightarrow> (int list \<times> searchWork) res" where
  "searchFilterOwners d criterion work =
    res_fold (\<lambda>f (owners, w). res_bind (spend_work w) (\<lambda>w'. Inr (List.insert (rf_e f) owners, w')))
      (sort_key rf_e
        (filter (\<lambda>f. rf_a f = fl_a criterion \<and> sql_eq (rf_v f) (sv_storage (fl_value criterion))
            \<and> rf_t f = sv_tag (fl_value criterion) \<and> live f) (tb_facts (db_tables d))))
      ([], work)"

text \<open>\<open>None\<close> is the nil map of a search without filters.\<close>

fun eligible_loop ::
    "db \<Rightarrow> resolvedSearchFilter list \<Rightarrow> int list option \<Rightarrow> searchWork \<Rightarrow> (int list option \<times> searchWork) res" where
  "eligible_loop d [] eligible work = Inr (eligible, work)"
| "eligible_loop d (criterion # rest) eligible work =
    res_bind (searchFilterOwners d criterion work) (\<lambda>(owners, w).
      let now = (case eligible of None \<Rightarrow> owners | Some es \<Rightarrow> filter (\<lambda>e. e \<in> set owners) es) in
      if now = [] then Inr (Some now, w) else eligible_loop d rest (Some now) w)"

definition eligibleSearchEntities ::
    "db \<Rightarrow> resolvedSearchFilter list \<Rightarrow> searchWork \<Rightarrow> (int list option \<times> searchWork) res" where
  "eligibleSearchEntities d filters work = eligible_loop d filters None work"

definition eligible_entity :: "int list option \<Rightarrow> int \<Rightarrow> bool" where
  "eligible_entity eligible e = (case eligible of None \<Rightarrow> True | Some es \<Rightarrow> e \<in> set es)"

subsection \<open>Keyword candidates\<close>

definition withAssertingTransaction :: "store \<Rightarrow> TemporalFact \<Rightarrow> TemporalFact res" where
  "withAssertingTransaction s f =
    res_bind (transactionInfo s (fa_tx f)) (\<lambda>info.
      Inr (f\<lparr>fa_at := ti_at info, fa_by := ti_by info, fa_source := ti_source info\<rparr>))"

text \<open>The rows of the index joined with live user facts, \<^verbatim>\<open>ORDER BY rank,f.id\<close>.\<close>

definition keyword_rows :: "tables \<Rightarrow> (int \<times> f64 \<times> string) list \<Rightarrow> (rawFact \<times> f64 \<times> string) list" where
  "keyword_rows tb matches =
    sort_key (\<lambda>(f, rank, _). (f64_order rank, rf_id f))
      (concat (map (\<lambda>(rowid, rank, snippet).
         map (\<lambda>f. (f, rank, snippet))
           (filter (\<lambda>f. rf_id f = rowid \<and> live f \<and> rf_a f \<ge> FirstUserID \<and> rf_e f \<ge> FirstUserID) (tb_facts tb)))
         matches))"

record keyword_state =
  ks_result :: "rankedFact list"
  ks_seen :: "int list"
  ks_work :: searchWork

definition negated :: "f64 \<Rightarrow> f64" where
  "negated w = (if f64_neg w then w mod 9223372036854775808 else w + 9223372036854775808)"

definition keyword_row ::
    "db \<Rightarrow> int list option \<Rightarrow> int list \<Rightarrow> rawFact \<times> f64 \<times> string \<Rightarrow> keyword_state \<Rightarrow> keyword_state res" where
  "keyword_row d eligible selected row st =
    (case row of (raw, rank, snippet) \<Rightarrow>
      res_bind (spend_work (ks_work st)) (\<lambda>w.
        let st1 = st\<lparr>ks_work := w\<rparr> in
        if \<not> eligible_entity eligible (rf_e raw) \<or> (selected \<noteq> [] \<and> rf_a raw \<notin> set selected) \<or> rf_e raw \<in> set (ks_seen st)
        then Inr st1
        else
          res_bind (renderRaw (db_store d) raw None) (\<lambda>rendered.
          res_bind (withAssertingTransaction (db_store d) (temporal rendered)) (\<lambda>f.
            Inr (st1\<lparr>ks_seen := rf_e raw # ks_seen st,
                     ks_result := ks_result st @
                       [\<lparr>rk_fact = (search_fact f)\<lparr>fa_snippet := snippet\<rparr>, rk_entity = rf_e raw, rk_score = negated rank\<rparr>]\<rparr>)))))"

text \<open>The rows of a page, up to the one that exceeds the limit.\<close>

fun keyword_page ::
    "db \<Rightarrow> int list option \<Rightarrow> int list \<Rightarrow> nat \<Rightarrow> (rawFact \<times> f64 \<times> string) list \<Rightarrow> keyword_state \<Rightarrow> keyword_state res" where
  "keyword_page d eligible selected limit [] st = Inr st"
| "keyword_page d eligible selected limit (row # rows) st =
    res_bind (keyword_row d eligible selected row st) (\<lambda>st'.
      if length (ks_result st') > limit then Inr st' else keyword_page d eligible selected limit rows st')"

function keyword_pages ::
    "db \<Rightarrow> int list option \<Rightarrow> int list \<Rightarrow> nat \<Rightarrow> (rawFact \<times> f64 \<times> string) list \<Rightarrow> nat \<Rightarrow> keyword_state
     \<Rightarrow> (candidateBatch \<times> searchWork) res" where
  "keyword_pages d eligible selected limit rows offset st =
    (let pageLimit = min (max keywordPageMinimum (limit * 4)) (nat (remaining (ks_work st)) + 1);
         page = take pageLimit (drop offset rows) in
     res_bind (keyword_page d eligible selected limit page st) (\<lambda>st'.
       if length (ks_result st') > limit
       then Inr (\<lparr>cb_items = take limit (ks_result st'), cb_truncated = True\<rparr>, ks_work st')
       else if length page < pageLimit then Inr (\<lparr>cb_items = ks_result st', cb_truncated = False\<rparr>, ks_work st')
       else keyword_pages d eligible selected limit rows (offset + length page) st'))"
  by pat_completeness auto
termination
  by (relation "measure (\<lambda>(_, _, _, _, rows, offset, _). length rows - offset)")
    (auto simp: keywordPageMinimum_def min_def max_def split: if_splits)

declare keyword_pages.simps [simp del]

definition select_attributes :: "db \<Rightarrow> string list \<Rightarrow> int list res" where
  "select_attributes d attributes =
    res_map (\<lambda>a. case map_of (st_names (db_store d)) a of None \<Rightarrow> fail ErrNotFound | Some i \<Rightarrow> Inr i) attributes"

definition keywordCandidatesBounded ::
    "search_env \<Rightarrow> db \<Rightarrow> string \<Rightarrow> string list \<Rightarrow> int list option \<Rightarrow> nat \<Rightarrow> searchWork \<Rightarrow> (candidateBatch \<times> searchWork) res" where
  "keywordCandidatesBounded se d s attributes eligible limit work =
    (let match = ftsQuery (se_word se) s in
     if match = [] then Inr (\<lparr>cb_items = [], cb_truncated = False\<rparr>, work)
     else
       res_bind (select_attributes d attributes) (\<lambda>selected.
       (case se_match se match (tb_fts (db_tables d)) of
          Inl e \<Rightarrow> wrap ErrQuery (Some e)
        | Inr matches \<Rightarrow>
            keyword_pages d eligible selected limit (keyword_rows (db_tables d) matches) 0
              \<lparr>ks_result = [], ks_seen = [], ks_work = work\<rparr>)))"

subsection \<open>Vector candidates\<close>

record vector_state =
  vs_ranking :: boundedRawRanking
  vs_matchedDims :: bool
  vs_sawFact :: bool
  vs_entity :: "int option"
  vs_best :: "rankedRawFact option"
  vs_work :: searchWork

definition finishEntity :: "vector_state \<Rightarrow> vector_state res" where
  "finishEntity st =
    (case vs_best st of
       None \<Rightarrow> Inr st
     | Some best \<Rightarrow> res_bind (ranking_add best (vs_ranking st)) (\<lambda>r. Inr (st\<lparr>vs_ranking := r, vs_best := None\<rparr>)))"

text \<open>A candidate of the right dimension is compared with the best one of its entity so far.\<close>

definition vector_candidate :: "f32 list \<Rightarrow> rawFact \<Rightarrow> f32 list \<Rightarrow> vector_state \<Rightarrow> vector_state" where
  "vector_candidate queryVector raw vector st =
    (if length vector \<noteq> length queryVector then st
     else
       let similarity = cosineWithNorm queryVector vector (vectorNorm queryVector);
           st1 = st\<lparr>vs_matchedDims := True\<rparr> in
       if IsInf similarity \<and> f64_neg similarity then st1
       else
         let candidate = \<lparr>rr_raw = raw, rr_entity = rf_e raw, rr_score = similarity, rr_dimensions = length vector\<rparr> in
         (case vs_best st of
            None \<Rightarrow> st1\<lparr>vs_best := Some candidate\<rparr>
          | Some best \<Rightarrow> if betterRankedRaw candidate best then st1\<lparr>vs_best := Some candidate\<rparr> else st1))"

definition vector_row ::
    "db \<Rightarrow> f32 list \<Rightarrow> int list option \<Rightarrow> rawFact \<Rightarrow> vector_state \<Rightarrow> vector_state res" where
  "vector_row d queryVector eligible raw st =
    res_bind (spend_work (vs_work st)) (\<lambda>w.
    res_bind
      (case vs_entity st of
         Some e \<Rightarrow> if rf_e raw \<noteq> e then finishEntity st else Inr st
       | None \<Rightarrow> Inr st) (\<lambda>st0.
      let st1 = st0\<lparr>vs_work := w, vs_sawFact := True, vs_entity := Some (rf_e raw)\<rparr> in
      if \<not> eligible_entity eligible (rf_e raw) then Inr st1
      else
        let blob = (case rf_v raw of
            SBlob hash \<Rightarrow> (case map_of (tb_blobs (db_tables d)) hash of None \<Rightarrow> SNull | Some data \<Rightarrow> data)
          | _ \<Rightarrow> SNull) in
        res_bind (logicalIndirectValue (rf_v raw) (rf_t raw) blob) (\<lambda>logical.
          case logical of AF32s vector \<Rightarrow> Inr (vector_candidate queryVector raw vector st1) | _ \<Rightarrow> fail ErrFormat)))"

definition ranked_vector_fact :: "db \<Rightarrow> rankedRawFact \<Rightarrow> rankedFact res" where
  "ranked_vector_fact d c =
    res_bind (renderRawLogical (db_store d) (rr_raw c) (AF32s []) None) (\<lambda>rendered.
    res_bind (withAssertingTransaction (db_store d)
        (temporal (rendered\<lparr>fa_v := AMap [(''vector_dims'', ANum KInt (int (rr_dimensions c)))]\<rparr>))) (\<lambda>f.
      Inr \<lparr>rk_fact = (search_fact f)\<lparr>fa_valueTruncated := True\<rparr>, rk_entity = rr_entity c, rk_score = rr_score c\<rparr>))"

text \<open>The attribute that a vector search names: it exists, holds vectors, and its dimension is that of the query.\<close>

definition vector_attribute :: "db \<Rightarrow> f32 list \<Rightarrow> string \<Rightarrow> int option res" where
  "vector_attribute d queryVector attribute =
    (if attribute = [] then Inr None
     else case map_of (st_names (db_store d)) attribute of
       None \<Rightarrow> fail ErrNotFound
     | Some attrID \<Rightarrow>
        res_bind (schemaFor d attrID) (\<lambda>sc.
          if sc_type sc \<noteq> ''vector'' \<and> (sc_type sc \<noteq> [] \<or> \<not> sc_dimsSet sc) then fail ErrType
          else if sc_dimsSet sc \<and> sc_dims sc \<noteq> int (length queryVector) then fail ErrType
          else Inr (Some attrID)))"

definition vector_rows :: "tables \<Rightarrow> int option \<Rightarrow> rawFact list" where
  "vector_rows tb attr =
    sort_key (\<lambda>f. (rf_e f, rf_id f))
      (filter (\<lambda>f. rf_t f = TagVector \<and> live f \<and> (case attr of None \<Rightarrow> True | Some a \<Rightarrow> rf_a f = a)) (tb_facts tb))"

definition vectorCandidatesBounded ::
    "db \<Rightarrow> f32 list \<Rightarrow> string \<Rightarrow> int list option \<Rightarrow> nat \<Rightarrow> searchWork \<Rightarrow> (candidateBatch \<times> searchWork) res" where
  "vectorCandidatesBounded d queryVector attribute eligible limit work =
    res_bind (vector_attribute d queryVector attribute) (\<lambda>attr.
    res_bind (res_fold (vector_row d queryVector eligible)
        (take (nat (remaining work) + 1) (vector_rows (db_tables d) attr))
        \<lparr>vs_ranking = newBoundedRawRanking limit, vs_matchedDims = False, vs_sawFact = False,
         vs_entity = None, vs_best = None, vs_work = work\<rparr>) (\<lambda>st.
    res_bind (finishEntity st) (\<lambda>st'.
      if attribute \<noteq> [] \<and> vs_sawFact st' \<and> \<not> vs_matchedDims st' then fail ErrType
      else
        (case ranking_result (vs_ranking st') of (ranked, truncated) \<Rightarrow>
           res_bind (res_map (ranked_vector_fact d) ranked) (\<lambda>items.
             Inr (\<lparr>cb_items = items, cb_truncated = truncated\<rparr>, vs_work st'))))))"

subsection \<open>Compact projections\<close>

definition compact_value :: "store \<Rightarrow> bool \<Rightarrow> string \<Rightarrow> rawFact \<Rightarrow> fields \<Rightarrow> fields res" where
  "compact_value s many name f pull =
    res_bind (logicalValue (st_tables s) (rf_v f) (rf_t f)) (\<lambda>logical.
      let rendered = renderLogical s logical (rf_t f) in
      if \<not> many then Inr (AList.update name rendered pull)
      else (case map_of pull name of
              None \<Rightarrow> Inr (AList.update name (AList [rendered]) pull)
            | Some (AList values) \<Rightarrow> Inr (AList.update name (AList (values @ [rendered])) pull)
            | Some _ \<Rightarrow> fail ErrFormat))"

text \<open>The attributes of an entity by name, at most 32; an attribute without a name cannot be scanned.\<close>

definition compact_attributes :: "tables \<Rightarrow> int \<Rightarrow> (int \<times> string) list res" where
  "compact_attributes tb entity =
    (let attrs = remdups (map rf_a (filter (\<lambda>f. rf_e f = entity \<and> live f) (tb_facts tb)));
         named = concat (map (\<lambda>a. case find_id a tb of None \<Rightarrow> [] | Some r \<Rightarrow> [(a, id_name r)]) attrs);
         sorted_rows = filter (\<lambda>(a, n). n = None) named @ sort_key (\<lambda>(a, n). the n) (filter (\<lambda>(a, n). n \<noteq> None) named) in
     res_map (\<lambda>(a, n). case n of None \<Rightarrow> wrap ErrFormat (Some External) | Some name \<Rightarrow> Inr (a, name))
       (take maxPullAttributes sorted_rows))"

definition compact_attribute :: "db \<Rightarrow> int \<Rightarrow> int \<times> string \<Rightarrow> fields \<Rightarrow> fields res" where
  "compact_attribute d entity attribute pull =
    (case attribute of (a, name) \<Rightarrow>
      res_bind (schemaFor d a) (\<lambda>sc.
        res_fold (compact_value (db_store d) (sc_many sc) name)
          (take maxPullValues (select_facts (\<lambda>f. rf_e f = entity \<and> rf_a f = a \<and> live f) (db_tables d))) pull))"

definition pullEntityCompact :: "db \<Rightarrow> int \<Rightarrow> fields res" where
  "pullEntityCompact d entity =
    res_bind (compact_attributes (db_tables d) entity) (\<lambda>attributes.
      res_fold (compact_attribute d entity) attributes [])"

subsection \<open>Expansion\<close>

text \<open>The live references from or to an entity, with the entity at the other end.\<close>

definition readExpansionEdges :: "tables \<Rightarrow> int \<Rightarrow> (rawFact \<times> int) list" where
  "readExpansionEdges tb current =
    map (\<lambda>f. (f, if rf_e f = current then asInt64 (rf_v f) else rf_e f))
      (select_facts (\<lambda>f. rf_t f = TagRef \<and> live f \<and> (rf_e f = current \<or> sql_eq (rf_v f) (SInt current))) tb)"

record expand_state =
  xs_seen :: "int list"
  xs_paths :: "(int \<times> Fact list) list"
  xs_expanded :: "SearchHit list"
  xs_next :: "int list"
  xs_stopped :: bool
  xs_work :: searchWork

definition path_of :: "expand_state \<Rightarrow> int \<Rightarrow> Fact list" where
  "path_of st e = (case map_of (xs_paths st) e of None \<Rightarrow> [] | Some path \<Rightarrow> path)"

text \<open>One edge; a stopped expansion (\<^verbatim>\<open>return expanded, true, nil\<close>) ignores the edges that are left.\<close>

definition expand_edge :: "db \<Rightarrow> int \<Rightarrow> rawFact \<times> int \<Rightarrow> expand_state \<Rightarrow> expand_state res" where
  "expand_edge d current edge st =
    (case edge of (f, neighbor) \<Rightarrow>
      if xs_stopped st then Inr st
      else
        res_bind (spend_work (xs_work st)) (\<lambda>w.
          let st1 = st\<lparr>xs_work := w\<rparr> in
          if neighbor \<in> set (xs_seen st) then Inr st1
          else
            let st2 = st1\<lparr>xs_seen := neighbor # xs_seen st\<rparr> in
            if length (xs_expanded st) \<ge> maxExpandedEntities then Inr (st2\<lparr>xs_stopped := True\<rparr>)
            else
              res_bind (renderRaw (db_store d) f None) (\<lambda>rendered.
              res_bind (pullEntityCompact d neighbor) (\<lambda>pull.
                let path = path_of st current @ [rendered] in
                Inr (st2\<lparr>xs_paths := AList.update neighbor path (xs_paths st),
                         xs_expanded := xs_expanded st @
                           [\<lparr>sh_entity = displayEntity (db_store d) neighbor, sh_pull = pull, sh_matched = [],
                             sh_via = path, sh_score = 0\<rparr>],
                         xs_next := xs_next st @ [neighbor]\<rparr>)))))"

definition expand_entity :: "db \<Rightarrow> int \<Rightarrow> expand_state \<Rightarrow> expand_state res" where
  "expand_entity d current st =
    (if xs_stopped st then Inr st else res_fold (expand_edge d current) (readExpansionEdges (db_tables d) current) st)"

fun expand_hops :: "db \<Rightarrow> nat \<Rightarrow> int list \<Rightarrow> expand_state \<Rightarrow> expand_state res" where
  "expand_hops d 0 frontier st = Inr st"
| "expand_hops d (Suc hops) frontier st =
    (if frontier = [] \<or> xs_stopped st then Inr st
     else res_bind (res_fold (expand_entity d) frontier (st\<lparr>xs_next := []\<rparr>)) (\<lambda>st'.
       expand_hops d hops (xs_next st') st'))"

definition expand_start :: "int list \<Rightarrow> searchWork \<Rightarrow> expand_state" where
  "expand_start seeds work =
    \<lparr>xs_seen = seeds, xs_paths = map (\<lambda>e. (e, [])) seeds, xs_expanded = [], xs_next = [], xs_stopped = False, xs_work = work\<rparr>"

definition expandSearch :: "db \<Rightarrow> int list \<Rightarrow> int \<Rightarrow> searchWork \<Rightarrow> (SearchHit list \<times> bool \<times> searchWork) res" where
  "expandSearch d seeds hops work =
    res_bind (expand_hops d (nat hops) seeds (expand_start seeds work)) (\<lambda>st.
      Inr (xs_expanded st, xs_stopped st, xs_work st))"

subsection \<open>Bounded results\<close>

definition vector_dimensions :: "any \<Rightarrow> int" where
  "vector_dimensions v =
    (case v of
       AMap wrapper \<Rightarrow>
         let declared = (case map_of wrapper ''vector_dims'' of
               Some (ANum k n) \<Rightarrow> if k = KInt \<or> k = KInt64 then n else 0
             | _ \<Rightarrow> 0) in
         (case map_of wrapper ''vector'' of
            Some (AList items) \<Rightarrow> int (length items)
          | Some (AF32s items) \<Rightarrow> int (length items)
          | _ \<Rightarrow> declared)
     | _ \<Rightarrow> 0)"

definition boundMatchedFact :: "SearchFact \<Rightarrow> SearchFact" where
  "boundMatchedFact f =
    (let f1 =
      (if fa_tag f = TagVector
       then f\<lparr>fa_v := AMap [(''vector_dims'', ANum KInt (vector_dimensions (fa_v f)))], fa_valueTruncated := True\<rparr>
       else case fa_v f of
         AStr s \<Rightarrow> (case boundMatchedText s of (s', trimmed) \<Rightarrow> f\<lparr>fa_v := AStr s', fa_valueTruncated := trimmed\<rparr>)
       | _ \<Rightarrow> f)
     in if fa_snippet f1 \<noteq> []
        then (case boundMatchedText (fa_snippet f1) of (s', trimmed) \<Rightarrow> f1\<lparr>fa_snippet := s', fa_snippetTruncated := trimmed\<rparr>)
        else f1)"

text \<open>A result that has no JSON form is not reduced.\<close>

definition searchOutputSize :: "search_env \<Rightarrow> SearchResult \<Rightarrow> nat" where
  "searchOutputSize se r = (case se_size se r of None \<Rightarrow> 0 | Some n \<Rightarrow> n)"

function drop_hits :: "search_env \<Rightarrow> SearchResult \<Rightarrow> SearchResult" where
  "drop_hits se r =
    (if searchOutputSize se r > maxSearchOutputBytes \<and> sr_hits r \<noteq> []
     then drop_hits se (r\<lparr>sr_hits := butlast (sr_hits r)\<rparr>) else r)"
  by pat_completeness auto
termination
  by (relation "measure (\<lambda>(_, r). length (sr_hits r))") auto

declare drop_hits.simps [simp del]

definition boundSearchOutput :: "search_env \<Rightarrow> SearchResult \<Rightarrow> SearchResult" where
  "boundSearchOutput se r =
    (if searchOutputSize se r \<le> maxSearchOutputBytes then r
     else
       let r1 = r\<lparr>sr_truncated := True, sr_expanded := []\<rparr>;
           encodedSize = searchOutputSize se (if sr_expanded r = [] then r else r1)
       in if encodedSize > maxSearchOutputBytes
          then drop_hits se (r1\<lparr>sr_hits := map (\<lambda>h. h\<lparr>sh_matched := []\<rparr>) (sr_hits r1)\<rparr>) else r1)"

subsection \<open>Fusion\<close>

definition appendUniqueFact :: "SearchFact list \<Rightarrow> SearchFact \<Rightarrow> SearchFact list" where
  "appendUniqueFact fs candidate = (if list_ex (\<lambda>f. fa_id f = fa_id candidate) fs then fs else fs @ [candidate])"

definition matched_of :: "(int \<times> SearchFact list) list \<Rightarrow> int \<Rightarrow> SearchFact list" where
  "matched_of matched e = (case map_of matched e of None \<Rightarrow> [] | Some fs \<Rightarrow> fs)"

definition score_of :: "(int \<times> f64) list \<Rightarrow> int \<Rightarrow> f64" where
  "score_of scores e = (case map_of scores e of None \<Rightarrow> 0 | Some x \<Rightarrow> x)"

definition note_candidate ::
    "nat \<times> rankedFact \<Rightarrow> (int \<times> nat) list \<times> (int \<times> SearchFact list) list
     \<Rightarrow> (int \<times> nat) list \<times> (int \<times> SearchFact list) list" where
  "note_candidate c st =
    (case (c, st) of ((index, candidate), (bestRank, matched)) \<Rightarrow>
       let e = rk_entity candidate in
       (if map_of bestRank e = None then bestRank @ [(e, index + 1)] else bestRank,
        AList.update e (appendUniqueFact (matched_of matched e) (rk_fact candidate)) matched))"

definition reciprocal :: "nat \<Rightarrow> f64" where
  "reciprocal rank = f64_div (f64_of_int 1) (f64_add (f64_of_int rrfK) (f64_of_int (int rank)))"

text \<open>One list of candidates: the best rank of every entity adds to its score.\<close>

definition fuse_list ::
    "rankedFact list \<Rightarrow> (int \<times> f64) list \<times> (int \<times> SearchFact list) list
     \<Rightarrow> (int \<times> f64) list \<times> (int \<times> SearchFact list) list" where
  "fuse_list items st =
    (case st of (scores, matched) \<Rightarrow>
      (case fold note_candidate (List.enumerate 0 items) ([], matched) of (bestRank, matched') \<Rightarrow>
         (fold (\<lambda>(e, rank) sc. AList.update e (f64_add (score_of sc e) (reciprocal rank)) sc) bestRank scores, matched')))"

definition sprint_entity :: "any \<Rightarrow> string" where
  "sprint_entity v = (case v of AStr s \<Rightarrow> s | ANum _ n \<Rightarrow> FormatInt n | _ \<Rightarrow> [])"

text \<open>By descending score, then by the text of the entity.\<close>

definition rank_entities :: "store \<Rightarrow> (int \<times> f64) list \<Rightarrow> int list" where
  "rank_entities s scores =
    sort_key (\<lambda>e. (- f64_order (score_of scores e), sprint_entity (displayEntity s e))) (map fst scores)"

subsection \<open>Search\<close>

definition check_search :: "SearchOpts \<Rightarrow> unit res" where
  "check_search p =
    (let k = so_k p in
     if blank (so_text p) \<and> so_vector p = [] then fail ErrType
     else if blank (so_text p) \<and> so_textAttributes p \<noteq> [] then fail ErrType
     else if so_vector p = [] \<and> so_vectorAttribute p \<noteq> [] then fail ErrType
     else if k < 1 \<or> k > maxSearchK \<or> so_expand p < 0 \<or> so_expand p > maxSearchExpand then fail ErrType
     else if length (so_filters p) > maxSearchFilters \<or> length (so_textAttributes p) > maxSearchAttributes
     then fail ErrTooLarge
     else if so_vector p = [] then Inr ()
     else res_bind (validateCosineVector (so_vector p)) (\<lambda>_.
       check (\<not> blank (so_vectorAttribute p)) ErrType))"

definition search_defaults :: "SearchOpts \<Rightarrow> SearchOpts" where
  "search_defaults p = (if so_k p = 0 then p\<lparr>so_k := 10\<rparr> else p)"

definition candidate_limit :: "SearchOpts \<Rightarrow> nat" where
  "candidate_limit p = min maxSearchCandidates (max searchCandidateLimit (5 * nat (so_k p)))"

text \<open>The lists of the two retrieval signals, and whether one of them was cut.\<close>

definition search_lists ::
    "search_env \<Rightarrow> db \<Rightarrow> SearchOpts \<Rightarrow> int list option \<Rightarrow> searchWork \<Rightarrow> (candidateBatch list \<times> searchWork) res" where
  "search_lists se d p eligible work =
    res_bind
      (if blank (so_text p) then Inr ([], work)
       else res_bind (keywordCandidatesBounded se d (so_text p) (so_textAttributes p) eligible (candidate_limit p) work)
              (\<lambda>(batch, w). Inr ([batch], w))) (\<lambda>(batches, w).
      if so_vector p = [] then Inr (batches, w)
      else res_bind (vectorCandidatesBounded d (so_vector p) (so_vectorAttribute p) eligible (candidate_limit p) w)
             (\<lambda>(batch, w'). Inr (batches @ [batch], w')))"

definition search_hit ::
    "db \<Rightarrow> (int \<times> f64) list \<Rightarrow> (int \<times> SearchFact list) list \<Rightarrow> int \<Rightarrow> SearchHit res" where
  "search_hit d scores matched e =
    res_bind (pullEntityCompact d e) (\<lambda>pull.
      Inr \<lparr>sh_entity = displayEntity (db_store d) e, sh_pull = pull,
           sh_matched = map boundMatchedFact (take maxMatchedFacts (matched_of matched e)),
           sh_via = [], sh_score = score_of scores e\<rparr>)"

definition search_hits ::
    "search_env \<Rightarrow> db \<Rightarrow> SearchOpts \<Rightarrow> int \<Rightarrow> candidateBatch list \<Rightarrow> searchWork \<Rightarrow> SearchResult res" where
  "search_hits se d p basis batches work =
    (case fold fuse_list (map cb_items batches) ([], []) of (scores, matched) \<Rightarrow>
      let entities = take (nat (so_k p)) (rank_entities (db_store d) scores);
          trimmed = list_ex cb_truncated batches \<or> list_ex (\<lambda>e. length (matched_of matched e) > maxMatchedFacts) entities in
      res_bind (res_map (search_hit d scores matched) entities) (\<lambda>hits.
      res_bind (if so_expand p > 0 then expandSearch d entities (so_expand p) work else Inr ([], False, work))
        (\<lambda>(expanded, truncated, w).
          Inr (boundSearchOutput se
            \<lparr>sr_hits = hits, sr_expanded = expanded, sr_basisTx = basis, sr_truncated = trimmed \<or> truncated,
             sr_workUsed = sw_used w\<rparr>))))"

definition search_on :: "search_env \<Rightarrow> SearchOpts \<Rightarrow> db \<Rightarrow> SearchResult res" where
  "search_on se p d =
    (let basis = basisOn (db_tables d); work = \<lparr>sw_limit = se_budget se, sw_used = 0\<rparr> in
     res_bind (resolveSearchFilters d (so_filters p)) (\<lambda>resolved.
       case resolved of
         None \<Rightarrow> Inr \<lparr>sr_hits = [], sr_expanded = [], sr_basisTx = basis, sr_truncated = False, sr_workUsed = 0\<rparr>
       | Some filters \<Rightarrow>
           res_bind (eligibleSearchEntities d filters work) (\<lambda>(eligible, w).
           res_bind (search_lists se d p eligible w) (\<lambda>(batches, w').
             search_hits se d p basis batches w'))))"

definition Search :: "search_env \<Rightarrow> db \<Rightarrow> SearchOpts \<Rightarrow> SearchResult res \<times> db" where
  "Search se d options =
    (let p = search_defaults options in
     if db_asOf d \<noteq> None then (fail ErrUnsupported, d)
     else case check_search p of
       Inl e \<Rightarrow> (Inl e, d)
     | Inr _ \<Rightarrow> withRead d (search_on se p))"

end
