(* ===== verification/RankingFacts.thy ===== *)
theory RankingFacts
  imports Ranking
begin

text \<open>
  The bounded ranking against its reference: however the candidates arrive, the heap keeps the best ones, and the
  result is the front of the sorted list of all candidates.
\<close>

subsection \<open>Heaps\<close>

lemma swap_at_simps [simp]:
  "length (swap_at i j h) = length h"
  "i < length h \<Longrightarrow> j < length h \<Longrightarrow> mset (swap_at i j h) = mset h"
  by (simp_all add: swap_at_def mset_swap)

lemma nth_swap_at:
  "i < length h \<Longrightarrow> j < length h \<Longrightarrow> swap_at i j h ! n = (if n = j then h ! i else if n = i then h ! j else h ! n)"
  by (auto simp: swap_at_def nth_list_update)

lemma set_swap_at [simp]: "i < length h \<Longrightarrow> j < length h \<Longrightarrow> set (swap_at i j h) = set h"
  by (metis mset_eq_setD swap_at_simps(2))

text \<open>An order of preference: on valid items, one precedes the other when its key is smaller.\<close>

locale preference =
  fixes precedes :: "'a \<Rightarrow> 'a \<Rightarrow> bool" and key :: "'a \<Rightarrow> 'k :: linorder" and valid :: "'a \<Rightarrow> bool"
  assumes precedes_key: "valid x \<Longrightarrow> valid y \<Longrightarrow> precedes x y \<longleftrightarrow> key x < key y"
begin

definition all_valid :: "'a list \<Rightarrow> bool" where
  "all_valid h \<longleftrightarrow> (\<forall>x \<in> set h. valid x)"

definition heap_ok :: "'a list \<Rightarrow> bool" where
  "heap_ok h \<longleftrightarrow> (\<forall>j. 0 < j \<and> j < length h \<longrightarrow> key (h ! ((j - 1) div 2)) \<le> key (h ! j))"

text \<open>A heap but for the item at \<open>j\<close>, which may be smaller than its parent.\<close>

definition rising :: "nat \<Rightarrow> 'a list \<Rightarrow> bool" where
  "rising j h \<longleftrightarrow> (\<forall>i. 0 < i \<and> i < length h \<and> i \<noteq> j \<longrightarrow> key (h ! ((i - 1) div 2)) \<le> key (h ! i))
     \<and> (\<forall>c. 0 < j \<and> c < length h \<and> 0 < c \<and> (c - 1) div 2 = j \<longrightarrow> key (h ! ((j - 1) div 2)) \<le> key (h ! c))"

text \<open>A heap but for the item at \<open>i\<close>, which may be greater than its children.\<close>

definition sinking :: "nat \<Rightarrow> 'a list \<Rightarrow> bool" where
  "sinking i h \<longleftrightarrow> (\<forall>c. 0 < c \<and> c < length h \<and> (c - 1) div 2 \<noteq> i \<longrightarrow> key (h ! ((c - 1) div 2)) \<le> key (h ! c))
     \<and> (\<forall>c. 0 < i \<and> c < length h \<and> 0 < c \<and> (c - 1) div 2 = i \<longrightarrow> key (h ! ((i - 1) div 2)) \<le> key (h ! c))"

lemma valid_nth: "all_valid h \<Longrightarrow> i < length h \<Longrightarrow> valid (h ! i)"
  by (simp add: all_valid_def)

lemma rising_swap:
  assumes "rising j h" "j < length h" "0 < j" "key (h ! j) < key (h ! ((j - 1) div 2))"
  shows "rising ((j - 1) div 2) (swap_at ((j - 1) div 2) j h)"
proof -
  define i where "i = (j - 1) div 2"
  have i: "i < j" "i < length h" using assms(2,3) by (auto simp: i_def)
  have gt: "key (h ! j) < key (h ! i)" using assms(4) by (simp add: i_def)
  note nth = nth_swap_at [OF i(2) assms(2)]
  have heap: "key (h ! ((c - 1) div 2)) \<le> key (h ! c)" if "0 < c" "c < length h" "c \<noteq> j" for c
    using assms(1) that by (simp add: rising_def)
  have below: "key (h ! i) \<le> key (h ! c)" if "c < length h" "0 < c" "(c - 1) div 2 = j" for c
    using assms(1,3) that by (simp add: rising_def i_def)
  have first: "key (swap_at i j h ! ((c - 1) div 2)) \<le> key (swap_at i j h ! c)" if "0 < c" "c < length h" "c \<noteq> i" for c
  proof (cases "c = j")
    case True
    then have "(c - 1) div 2 = i" by (simp add: i_def)
    then show ?thesis using True gt i by (simp add: nth)
  next
    case False
    consider "(c - 1) div 2 = j" | "(c - 1) div 2 = i" | "(c - 1) div 2 \<noteq> i" "(c - 1) div 2 \<noteq> j" by blast
    then show ?thesis
    proof cases
      case 1
      then show ?thesis using below that False by (simp add: nth)
    next
      case 2
      then have "key (h ! i) \<le> key (h ! c)" using heap [of c] that False by simp
      then show ?thesis using 2 gt i that False by (simp add: nth)
    next
      case 3
      then show ?thesis using heap that False by (simp add: nth)
    qed
  qed
  have second: "key (swap_at i j h ! ((i - 1) div 2)) \<le> key (swap_at i j h ! c)"
    if "0 < i" "c < length h" "0 < c" "(c - 1) div 2 = i" for c
  proof -
    have g: "(i - 1) div 2 < i" using that(1) by simp
    have up: "key (h ! ((i - 1) div 2)) \<le> key (h ! i)" using heap [of i] that(1) i by simp
    show ?thesis
    proof (cases "c = j")
      case True
      then show ?thesis using up g i by (simp add: nth)
    next
      case False
      then have "key (h ! i) \<le> key (h ! c)" using heap [of c] that by simp
      moreover have "c \<noteq> i" using that by auto
      ultimately show ?thesis using up g i False by (simp add: nth)
    qed
  qed
  from first second show ?thesis unfolding rising_def i_def [symmetric] by simp
qed

lemma heap_up_ok:
  "rising j h \<Longrightarrow> j < length h \<Longrightarrow> all_valid h \<Longrightarrow> heap_ok (heap_up precedes j h) \<and> mset (heap_up precedes j h) = mset h"
proof (induction j arbitrary: h rule: less_induct)
  case (less j)
  let ?i = "(j - 1) div 2"
  have p: "precedes (h ! j) (h ! ?i) \<longleftrightarrow> key (h ! j) < key (h ! ?i)"
    using less.prems by (intro precedes_key valid_nth) auto
  show ?case
  proof (cases "?i = j \<or> \<not> precedes (h ! j) (h ! ?i)")
    case True
    have "0 < j \<Longrightarrow> key (h ! ?i) \<le> key (h ! j)" using True p by auto
    then have "heap_ok h" using less.prems(1) unfolding heap_ok_def rising_def by metis
    moreover have "heap_up precedes j h = h" using True by (subst heap_up.simps) (simp add: Let_def)
    ultimately show ?thesis by simp
  next
    case False
    then have j: "0 < j" "?i < j" by (auto intro: Nat.gr0I)
    have "heap_up precedes j h = heap_up precedes ?i (swap_at ?i j h)" using False by (subst heap_up.simps) (simp add: Let_def)
    moreover have "rising ?i (swap_at ?i j h)" using False less.prems j p by (intro rising_swap) auto
    moreover have "all_valid (swap_at ?i j h)" using less.prems j by (simp add: all_valid_def)
    ultimately show ?thesis using less.IH [OF j(2)] less.prems(2) j by simp
  qed
qed

lemma smaller_child_props:
  assumes "2 * i + 1 < length h" "all_valid h" and j: "j = smaller_child precedes i h"
  shows "j < length h" "i < j" "(j - 1) div 2 = i"
    and "0 < c \<Longrightarrow> c < length h \<Longrightarrow> (c - 1) div 2 = i \<Longrightarrow> key (h ! j) \<le> key (h ! c)"
proof -
  have p: "precedes (h ! (2 * i + 2)) (h ! (2 * i + 1)) \<longleftrightarrow> key (h ! (2 * i + 2)) < key (h ! (2 * i + 1))" if "2 * i + 2 < length h"
    using assms that by (intro precedes_key valid_nth) auto
  show "j < length h" "i < j" "(j - 1) div 2 = i" using assms(1) by (auto simp: j smaller_child_def Let_def)
  show "key (h ! j) \<le> key (h ! c)" if c: "0 < c" "c < length h" "(c - 1) div 2 = i"
  proof -
    from c(1,3) have "c = 2 * i + 1 \<or> c = 2 * i + 2" by presburger
    then show ?thesis using p c(2) by (auto simp: j smaller_child_def Let_def)
  qed
qed

lemma sinking_swap:
  assumes "sinking i h" "2 * i + 1 < length h" "all_valid h" and j: "j = smaller_child precedes i h"
    and "key (h ! j) < key (h ! i)"
  shows "sinking j (swap_at i j h)"
proof -
  note child = smaller_child_props [OF assms(2,3) j]
  have i: "i < length h" using assms(2) by simp
  note nth = nth_swap_at [OF i child(1)]
  have heap: "key (h ! ((c - 1) div 2)) \<le> key (h ! c)" if "0 < c" "c < length h" "(c - 1) div 2 \<noteq> i" for c
    using assms(1) that by (simp add: sinking_def)
  have above: "key (h ! ((i - 1) div 2)) \<le> key (h ! c)" if "0 < i" "c < length h" "0 < c" "(c - 1) div 2 = i" for c
    using assms(1) that by (simp add: sinking_def)
  have "key (swap_at i j h ! ((c - 1) div 2)) \<le> key (swap_at i j h ! c)"
    if c: "0 < c" "c < length h" "(c - 1) div 2 \<noteq> j" for c
  proof (cases "(c - 1) div 2 = i")
    case True
    then have "c \<noteq> i" using c by auto
    then show ?thesis using True c child(2) child(4) [of c] assms(5) by (auto simp: nth)
  next
    case False
    have "c \<noteq> j" using False child(3) by auto
    then show ?thesis
      using False c heap [of c] above [of j] child by (cases "c = i") (auto simp: nth)
  qed
  moreover have "key (swap_at i j h ! ((j - 1) div 2)) \<le> key (swap_at i j h ! c)"
    if c: "c < length h" "0 < c" "(c - 1) div 2 = j" for c
  proof -
    have "c \<noteq> i" "c \<noteq> j" using c child(2) by auto
    moreover have "key (h ! j) \<le> key (h ! c)" using heap [of c] c child(2) by simp
    ultimately show ?thesis using child(2,3) by (simp add: nth)
  qed
  ultimately show ?thesis by (simp add: sinking_def)
qed

lemma heap_down_ok:
  assumes "sinking i h" "i < length h" "all_valid h"
  shows "heap_ok (fst (heap_down precedes i h)) \<and> mset (fst (heap_down precedes i h)) = mset h"
  using assms
proof (induction "length h - i" arbitrary: i h rule: less_induct)
  case less
  let ?j = "smaller_child precedes i h"
  note child = smaller_child_props [OF _ less.prems(3) refl, of i]
  have stop: "heap_ok h" if "\<And>c. 0 < c \<Longrightarrow> c < length h \<Longrightarrow> (c - 1) div 2 = i \<Longrightarrow> key (h ! i) \<le> key (h ! c)"
    using less.prems(1) that unfolding heap_ok_def sinking_def by metis
  consider "length h \<le> 2 * i + 1" | "2 * i + 1 < length h" "\<not> precedes (h ! ?j) (h ! i)"
    | "2 * i + 1 < length h" "precedes (h ! ?j) (h ! i)" by linarith
  then show ?case
  proof cases
    case 1
    then have "heap_down precedes i h = (h, i)" by (subst heap_down.simps) simp
    moreover have "heap_ok h" by (rule stop) (use 1 in presburger)
    ultimately show ?thesis by simp
  next
    case 2
    then have "heap_down precedes i h = (h, i)" by (subst heap_down.simps) (simp add: Let_def)
    moreover have "key (h ! i) \<le> key (h ! ?j)"
      using 2 precedes_key [OF valid_nth valid_nth, of h ?j h i] child(1) less.prems by (simp add: not_less)
    then have "heap_ok h" using child(4) [OF 2(1)] by (intro stop) (rule order_trans)
    ultimately show ?thesis by simp
  next
    case 3
    then have "heap_down precedes i h = heap_down precedes ?j (swap_at i ?j h)" by (subst heap_down.simps) (simp add: Let_def)
    moreover have "key (h ! ?j) < key (h ! i)"
      using 3 precedes_key [OF valid_nth valid_nth, of h ?j h i] child(1) less.prems by simp
    then have "sinking ?j (swap_at i ?j h)" using 3 less.prems by (intro sinking_swap) auto
    moreover have "all_valid (swap_at i ?j h)" using less.prems child(1) 3 by (simp add: all_valid_def)
    moreover have "length (swap_at i ?j h) - ?j < length h - i" using child(1,2) 3 by simp
    ultimately show ?thesis using less.hyps [of "swap_at i ?j h" ?j] child(1) 3 less.prems(2) by simp
  qed
qed

lemma heap_root: "heap_ok h \<Longrightarrow> j < length h \<Longrightarrow> key (h ! 0) \<le> key (h ! j)"
proof (induction j rule: less_induct)
  case (less j)
  show ?case
  proof (cases "j = 0")
    case False
    then have "key (h ! 0) \<le> key (h ! ((j - 1) div 2))" using less by auto
    also have "\<dots> \<le> key (h ! j)" using less.prems False by (simp add: heap_ok_def)
    finally show ?thesis .
  qed simp
qed

lemma heap_push_ok:
  assumes "heap_ok h" "all_valid h" "valid x"
  shows "heap_ok (heap_push precedes x h) \<and> mset (heap_push precedes x h) = add_mset x (mset h)"
proof -
  have "key ((h @ [x]) ! ((i - 1) div 2)) \<le> key ((h @ [x]) ! i)" if "0 < i" "i < length h" for i
  proof -
    have "(i - 1) div 2 < length h" using that by auto
    then show ?thesis using assms(1) that by (simp add: heap_ok_def nth_append)
  qed
  then have "rising (length h) (h @ [x])" unfolding rising_def by auto
  then show ?thesis using heap_up_ok [of "length h" "h @ [x]"] assms(2,3) by (simp add: heap_push_def all_valid_def)
qed

lemma heap_replace_root_ok:
  assumes "heap_ok h" "all_valid h" "valid x" "h \<noteq> []"
  shows "heap_ok (heap_fix precedes 0 (h[0 := x])) \<and> mset (heap_fix precedes 0 (h[0 := x])) = mset (h[0 := x])"
proof -
  have v: "all_valid (h[0 := x])" using assms(2,3) set_update_subset_insert [of h 0 x] by (auto simp: all_valid_def)
  have "sinking 0 (h[0 := x])"
    using assms(1) by (auto simp: sinking_def heap_ok_def nth_list_update)
  then have down: "heap_ok (fst (heap_down precedes 0 (h[0 := x])))" "mset (fst (heap_down precedes 0 (h[0 := x]))) = mset (h[0 := x])"
    using heap_down_ok [of 0 "h[0 := x]"] v assms(4) by simp_all
  have "heap_up precedes 0 g = g" for g by (subst heap_up.simps) simp
  then show ?thesis using down by (auto simp: heap_fix_def split: prod.split)
qed

end

subsection \<open>The order of candidates\<close>

text \<open>A candidate whose score is a number; \<^verbatim>\<open>cosineWithNorm\<close> gives one on vectors of finite components.\<close>

definition comparable :: "rankedRawFact \<Rightarrow> bool" where
  "comparable c \<longleftrightarrow> \<not> IsNaN (rr_score c) \<and> rr_score c < 18446744073709551616"

definition worst_key :: "rankedRawFact \<Rightarrow> int \<times> int" where
  "worst_key c = (f64_order (rr_score c), - rf_id (rr_raw c))"

lemma f64_order_eq:
  assumes "x < 18446744073709551616" "y < 18446744073709551616" "\<not> IsNaN x" "\<not> IsNaN y"
  shows "f64_eq x y \<longleftrightarrow> f64_order x = f64_order y"
proof -
  have split: "w = (w mod 9223372036854775808) + (if f64_neg w then 9223372036854775808 else 0)"
    if "w < 18446744073709551616" for w :: nat
  proof -
    have "w div 9223372036854775808 < 2" using that by (simp add: less_mult_imp_div_less)
    then have "w div 9223372036854775808 = (if f64_neg w then 1 else 0)" by (auto simp: f64_neg_def)
    then show ?thesis using div_mult_mod_eq [of w 9223372036854775808] by (auto split: if_splits)
  qed
  have zero: "f64_zero w \<longleftrightarrow> w mod 9223372036854775808 = 0" for w
  proof -
    have "w mod 9223372036854775808 = w mod (4503599627370496 * 2048)" by simp
    also have "\<dots> = 4503599627370496 * f64_exp w + f64_man w"
      by (simp only: mod_mult2_eq f64_exp_def f64_man_def)
    finally show ?thesis by (auto simp: f64_zero_def)
  qed
  have "f64_order x = f64_order y \<longleftrightarrow> x = y \<or> x mod 9223372036854775808 = 0 \<and> y mod 9223372036854775808 = 0"
    using split [OF assms(1)] split [OF assms(2)] by (auto simp: f64_order_def Let_def split: if_splits)
  then show ?thesis using assms(3,4) by (simp add: f64_eq_def zero)
qed

lemma rankedRawLess_key: "comparable x \<Longrightarrow> comparable y \<Longrightarrow> rankedRawLess x y \<longleftrightarrow> worst_key x < worst_key y"
  by (auto simp: rankedRawLess_def worst_key_def comparable_def f64_order_eq f64_lt_def)

interpretation rank: preference rankedRawLess worst_key comparable
  by unfold_locales (rule rankedRawLess_key)

lemma betterRankedRaw_key: "comparable x \<Longrightarrow> comparable y \<Longrightarrow> betterRankedRaw x y \<longleftrightarrow> rank_key x < rank_key y"
  by (auto simp: betterRankedRaw_def rank_key_def comparable_def f64_order_eq f64_lt_def)

lemma worst_rank_key: "worst_key x \<le> worst_key y \<longleftrightarrow> rank_key y \<le> rank_key x"
  by (auto simp: worst_key_def rank_key_def)

subsection \<open>Keeping the best\<close>

text \<open>The heap holds the best of the candidates \<open>cs\<close>, and \<open>rest\<close> are the others.\<close>

definition keeps_best :: "rankedRawFact list \<Rightarrow> rankedRawFact list \<Rightarrow> boundedRawRanking \<Rightarrow> bool" where
  "keeps_best cs rest r \<longleftrightarrow>
     rank.heap_ok (br_heap r) \<and> br_total r = length cs \<and> length (br_heap r) = min (br_limit r) (length cs)
     \<and> mset (br_heap r) + mset rest = mset cs
     \<and> (\<forall>x \<in> set (br_heap r). \<forall>y \<in> set rest. rank_key x \<le> rank_key y)"

lemma keeps_best_sets: "keeps_best cs rest r \<Longrightarrow> set cs = set (br_heap r) \<union> set rest"
  unfolding keeps_best_def by (metis set_mset_mset set_mset_union)

lemma heap_root_worst:
  assumes "rank.heap_ok h" "x \<in> set h"
  shows "rank_key x \<le> rank_key (h ! 0)"
  using assms rank.heap_root by (auto simp: in_set_conv_nth worst_rank_key)

lemma ranking_add_keeps:
  assumes "keeps_best cs rest r" "0 < br_limit r" "\<forall>c \<in> set (x # cs). comparable c"
  obtains r' rest' where "ranking_add x r = Inr r'" "br_limit r' = br_limit r" "keeps_best (cs @ [x]) rest' r'"
proof -
  let ?h = "br_heap r"
  have inv: "rank.heap_ok ?h" "br_total r = length cs" "length ?h = min (br_limit r) (length cs)"
    "mset ?h + mset rest = mset cs" "\<And>a b. a \<in> set ?h \<Longrightarrow> b \<in> set rest \<Longrightarrow> rank_key a \<le> rank_key b"
    using assms(1) by (auto simp: keeps_best_def)
  have valid: "rank.all_valid ?h" "comparable x"
    using assms(3) keeps_best_sets [OF assms(1)] by (auto simp: rank.all_valid_def)
  show ?thesis
  proof (cases "length ?h < br_limit r")
    case True
    then have "length ?h = length cs" using inv(3) by auto
    then have none: "rest = []" using arg_cong [OF inv(4), of size] by simp
    note push = rank.heap_push_ok [OF inv(1) valid]
    have len: "length (heap_push rankedRawLess x ?h) = Suc (length ?h)" using push by (metis size_add_mset size_mset)
    show ?thesis
      by (rule that [of "r\<lparr>br_total := br_total r + 1, br_heap := heap_push rankedRawLess x ?h\<rparr>" "[]"])
        (use True push len inv none in \<open>auto simp: ranking_add_def Let_def keeps_best_def\<close>)
  next
    case False
    then have ne: "?h \<noteq> []" using assms(2) by auto
    then have root: "?h ! 0 \<in> set ?h" by simp
    then have better: "betterRankedRaw x (?h ! 0) \<longleftrightarrow> rank_key x < rank_key (?h ! 0)"
      using valid by (intro betterRankedRaw_key) (auto simp: rank.all_valid_def)
    note worst = heap_root_worst [OF inv(1)]
    show ?thesis
    proof (cases "betterRankedRaw x (?h ! 0)")
      case True
      let ?g = "heap_fix rankedRawLess 0 (?h[0 := x])"
      have g: "rank.heap_ok ?g" "mset ?g = mset (?h[0 := x])" using rank.heap_replace_root_ok [OF inv(1) valid ne] by auto
      have swap: "add_mset (?h ! 0) (mset ?g) = add_mset x (mset ?h)"
        using ne root by (simp add: g(2) mset_update)
      have "set ?g = insert x (set (tl ?h))" using mset_eq_setD [OF g(2)] ne by (cases ?h) auto
      then have sub: "a = x \<or> a \<in> set ?h" if "a \<in> set ?g" for a using that ne by (cases ?h) auto
      have "rank_key a \<le> rank_key b" if a: "a \<in> set ?g" and b: "b \<in> set (?h ! 0 # rest)" for a b
      proof -
        have "rank_key a \<le> rank_key (?h ! 0)" using sub [OF a] worst True better by auto
        moreover have "rank_key (?h ! 0) \<le> rank_key b" using b inv(5) [OF root] by auto
        ultimately show ?thesis by simp
      qed
      moreover have "mset ?g + mset (?h ! 0 # rest) = mset (cs @ [x])"
        using arg_cong [OF swap, of "\<lambda>m. m + mset rest"] by (simp flip: inv(4))
      moreover have "length ?g = length ?h" using mset_eq_length [OF g(2)] by simp
      ultimately show ?thesis
        by (intro that [of "r\<lparr>br_total := br_total r + 1, br_heap := ?g\<rparr>" "?h ! 0 # rest"])
          (use True False ne g inv in \<open>auto simp: ranking_add_def Let_def keeps_best_def\<close>)
    next
      case no: False
      have "rank_key a \<le> rank_key b" if "a \<in> set ?h" "b \<in> set (x # rest)" for a b
        using that inv(5) worst [of a] no better by auto
      then show ?thesis
        by (intro that [of "r\<lparr>br_total := br_total r + 1\<rparr>" "x # rest"])
          (use False no ne inv in \<open>auto simp: ranking_add_def Let_def keeps_best_def\<close>)
    qed
  qed
qed

lemma ranking_adds_keep:
  assumes "keeps_best cs rest r" "0 < br_limit r" "\<forall>c \<in> set (cs @ xs). comparable c"
  shows "\<exists>r' rest'. res_fold ranking_add xs r = Inr r' \<and> br_limit r' = br_limit r \<and> keeps_best (cs @ xs) rest' r'"
  using assms
proof (induction xs arbitrary: cs rest r)
  case Nil
  then show ?case by auto
next
  case (Cons x xs)
  have "\<forall>c \<in> set (x # cs). comparable c" using Cons.prems(3) by simp
  from ranking_add_keeps [OF Cons.prems(1,2) this]
  obtain r' rest' where step: "ranking_add x r = Inr r'" "br_limit r' = br_limit r" "keeps_best (cs @ [x]) rest' r'" .
  then show ?case using Cons.IH [OF step(3)] Cons.prems by simp
qed

lemma keeps_best_result:
  assumes "keeps_best cs rest r" "inj_on rank_key (set cs)"
  shows "ranking_result r = (take (br_limit r) (sort_key rank_key cs), length cs > br_limit r)"
proof -
  let ?ys = "sort_key rank_key (br_heap r) @ sort_key rank_key rest"
  have inv: "br_total r = length cs" "length (br_heap r) = min (br_limit r) (length cs)"
    "mset (br_heap r) + mset rest = mset cs" "\<forall>x \<in> set (br_heap r). \<forall>y \<in> set rest. rank_key x \<le> rank_key y"
    using assms(1) by (simp_all add: keeps_best_def)
  have "sorted (map rank_key ?ys)" using inv(4) by (simp add: sorted_append)
  then have all: "sort_key rank_key cs = ?ys"
    using assms(2) inv(3) by (intro sort_key_inj_key_eq) simp_all
  have "length rest + length (br_heap r) = length cs" using arg_cong [OF inv(3), of size] by simp
  then have "take (br_limit r) ?ys = sort_key rank_key (br_heap r)" using inv(2) by (auto simp: min_def split: if_splits)
  then show ?thesis by (simp add: ranking_result_def all inv(1))
qed

text \<open>
  C28. The bounded ranking is a sort: adding candidates in any order to a heap of at most \<open>limit\<close> items answers
  the first \<open>limit\<close> of all candidates sorted by descending score and ascending fact id, and reports whether any
  was left out.
\<close>

theorem ranking_is_sorted_prefix:
  assumes "0 < limit" "list_all comparable cs" "distinct (map (\<lambda>c. rf_id (rr_raw c)) cs)"
  shows "\<exists>r. res_fold ranking_add cs (newBoundedRawRanking limit) = Inr r
    \<and> ranking_result r = (take limit (sort_key rank_key cs), length cs > limit)"
proof -
  have start: "keeps_best [] [] (newBoundedRawRanking limit)"
    by (simp add: keeps_best_def newBoundedRawRanking_def rank.heap_ok_def)
  have lim: "br_limit (newBoundedRawRanking limit) = limit" by (simp add: newBoundedRawRanking_def)
  from ranking_adds_keep [OF start, of cs] obtain r rest where
    r: "res_fold ranking_add cs (newBoundedRawRanking limit) = Inr r" "br_limit r = limit" "keeps_best cs rest r"
    using assms(1,2) by (auto simp: lim list_all_iff)
  have "inj_on (\<lambda>c. rf_id (rr_raw c)) (set cs)" using assms(3) by (simp add: distinct_map)
  then have "inj_on rank_key (set cs)" by (auto simp: inj_on_def rank_key_def)
  from keeps_best_result [OF r(3) this] r(1,2) show ?thesis by auto
qed

text \<open>Scores 1, 2 and 1.5, of which two are kept.\<close>

definition ex_candidate :: "int \<Rightarrow> f64 \<Rightarrow> rankedRawFact" where
  "ex_candidate i score =
    \<lparr>rr_raw = \<lparr>rf_id = i, rf_e = i, rf_a = 65, rf_v = SNull, rf_t = TagVector, rf_tx = 67, rf_rx = None\<rparr>,
     rr_entity = i, rr_score = score, rr_dimensions = 2\<rparr>"

theorem ranking_is_sorted_prefix_witness:
  "\<exists>r. res_fold ranking_add [ex_candidate 1 4607182418800017408, ex_candidate 2 4611686018427387904, ex_candidate 3 4609434218613702656]
      (newBoundedRawRanking 2) = Inr r
    \<and> ranking_result r = ([ex_candidate 2 4611686018427387904, ex_candidate 3 4609434218613702656], True)"
proof -
  let ?cs = "[ex_candidate 1 4607182418800017408, ex_candidate 2 4611686018427387904, ex_candidate 3 4609434218613702656]"
  have "list_all comparable ?cs" by (simp add: comparable_def ex_candidate_def IsNaN_def f64_exp_def)
  moreover have "distinct (map (\<lambda>c. rf_id (rr_raw c)) ?cs)" by (simp add: ex_candidate_def)
  moreover have "take 2 (sort_key rank_key ?cs) = [ex_candidate 2 4611686018427387904, ex_candidate 3 4609434218613702656]"
    by (simp add: ex_candidate_def rank_key_def f64_order_def f64_neg_def)
  ultimately show ?thesis using ranking_is_sorted_prefix [of 2 ?cs] by simp
qed

end
