(* ===== verification/SearchFacts.thy ===== *)
theory SearchFacts
  imports Search RankingFacts
begin

text \<open>
  Facts about search: every answer stays within its bounds, expansion follows the references of the graph, and
  the text of a query cannot leave its phrases in the full-text expression.
\<close>

subsection \<open>The work budget\<close>

definition work_ok :: "int \<Rightarrow> searchWork \<Rightarrow> bool" where
  "work_ok budget w \<longleftrightarrow> sw_limit w = budget \<and> 0 \<le> sw_used w \<and> sw_used w \<le> max 0 budget"

lemma spend_work_ok: "spend_work w = Inr w' \<Longrightarrow> work_ok b w \<Longrightarrow> work_ok b w'"
  by (auto simp: spend_work_def work_ok_def split: if_splits)

lemma searchFilterOwners_work:
  assumes "searchFilterOwners d c w = Inr (owners, w')" "work_ok b w"
  shows "work_ok b w'"
proof -
  have "work_ok b (snd (owners, w'))"
    by (rule res_fold_invariant [OF assms(1) [unfolded searchFilterOwners_def], where P = "\<lambda>st. work_ok b (snd st)"])
      (use assms(2) spend_work_ok in \<open>auto simp: res_iff\<close>)
  then show ?thesis by simp
qed

lemma eligible_loop_work:
  "eligible_loop d cs eligible w = Inr (eligible', w') \<Longrightarrow> work_ok b w \<Longrightarrow> work_ok b w'"
  by (induction cs arbitrary: eligible w) (auto simp: res_iff Let_def dest: searchFilterOwners_work split: if_split_asm)

lemma keyword_row_work:
  "keyword_row d eligible selected row st = Inr st' \<Longrightarrow> work_ok b (ks_work st) \<Longrightarrow> work_ok b (ks_work st')"
  by (auto simp: keyword_row_def res_iff Let_def dest: spend_work_ok split: prod.split_asm if_split_asm)

lemma keyword_page_work:
  "keyword_page d eligible selected limit rows st = Inr st' \<Longrightarrow> work_ok b (ks_work st) \<Longrightarrow> work_ok b (ks_work st')"
  by (induction rows arbitrary: st) (auto simp: res_iff dest: keyword_row_work split: if_split_asm)

lemma keyword_pages_work:
  "keyword_pages d eligible selected limit rows offset st = Inr (batch, w) \<Longrightarrow> work_ok b (ks_work st) \<Longrightarrow> work_ok b w"
proof (induction d eligible selected limit rows offset st arbitrary: batch w rule: keyword_pages.induct)
  case (1 d eligible selected limit rows offset st)
  define n where "n = min (max keywordPageMinimum (limit * 4)) (nat (remaining (ks_work st)) + 1)"
  define page where "page = take n (drop offset rows)"
  obtain st' where st': "keyword_page d eligible selected limit page st = Inr st'" and
    rest: "(if length (ks_result st') > limit
       then Inr (\<lparr>cb_items = take limit (ks_result st'), cb_truncated = True\<rparr>, ks_work st')
       else if length page < n then Inr (\<lparr>cb_items = ks_result st', cb_truncated = False\<rparr>, ks_work st')
       else keyword_pages d eligible selected limit rows (offset + length page) st') = Inr (batch, w)"
    using "1.prems"(1) [unfolded keyword_pages.simps [of d eligible selected limit rows offset st]]
    unfolding Let_def n_def [symmetric] page_def [symmetric] res_bind_Inr_iff by (elim exE conjE)
  have ok: "work_ok b (ks_work st')" by (rule keyword_page_work [OF st' "1.prems"(2)])
  show ?case
  proof (cases "length (ks_result st') > limit \<or> length page < n")
    case True
    then show ?thesis using rest ok by (auto split: if_split_asm)
  next
    case False
    then have "keyword_pages d eligible selected limit rows (offset + length page) st' = Inr (batch, w)" using rest by simp
    from "1.IH" [OF n_def page_def st' _ _ this ok] False show ?thesis by simp
  qed
qed

lemma keywordCandidates_work:
  assumes "keywordCandidatesBounded se d s attributes eligible limit w = Inr (batch, w')" "work_ok b w"
  shows "work_ok b w'"
proof (cases "ftsQuery (se_word se) s = []")
  case False
  then obtain matches selected where
    "keyword_pages d eligible selected limit (keyword_rows (db_tables d) matches) 0 \<lparr>ks_result = [], ks_seen = [], ks_work = w\<rparr> = Inr (batch, w')"
    using assms(1) by (cases "se_match se (ftsQuery (se_word se) s) (tb_fts (db_tables d))")
      (auto simp: keywordCandidatesBounded_def Let_def res_iff wrap_def)
  then show ?thesis by (rule keyword_pages_work) (simp add: assms(2))
qed (use assms in \<open>auto simp: keywordCandidatesBounded_def\<close>)

lemma finishEntity_work: "finishEntity st = Inr st' \<Longrightarrow> vs_work st' = vs_work st"
  by (auto simp: finishEntity_def res_iff split: option.splits)

lemma vector_candidate_work [simp]: "vs_work (vector_candidate q raw v st) = vs_work st"
  by (simp add: vector_candidate_def Let_def split: option.split)

lemma vector_row_work:
  assumes "vector_row d q eligible raw st = Inr st'" "work_ok b (vs_work st)"
  shows "work_ok b (vs_work st')"
proof -
  obtain w st0 where w: "spend_work (vs_work st) = Inr w" and
    rest: "(let st1 = st0\<lparr>vs_work := w, vs_sawFact := True, vs_entity := Some (rf_e raw)\<rparr> in
      if \<not> eligible_entity eligible (rf_e raw) then Inr st1
      else
        let blob = (case rf_v raw of
            SBlob hash \<Rightarrow> (case map_of (tb_blobs (db_tables d)) hash of None \<Rightarrow> SNull | Some data \<Rightarrow> data)
          | _ \<Rightarrow> SNull) in
        res_bind (logicalIndirectValue (rf_v raw) (rf_t raw) blob) (\<lambda>logical.
          case logical of AF32s vector \<Rightarrow> Inr (vector_candidate q raw vector st1) | _ \<Rightarrow> fail ErrFormat)) = Inr st'"
    using assms(1) unfolding vector_row_def res_bind_Inr_iff by (elim exE conjE)
  have "vs_work st' = w"
  proof (cases "eligible_entity eligible (rf_e raw)")
    case True
    with rest obtain blob logical where
      "(case logical of AF32s vector \<Rightarrow> Inr (vector_candidate q raw vector
          (st0\<lparr>vs_work := w, vs_sawFact := True, vs_entity := Some (rf_e raw)\<rparr>)) | _ \<Rightarrow> fail ErrFormat) = Inr st'"
      by (auto simp: res_bind_Inr_iff Let_def)
    then show ?thesis by (cases logical) auto
  qed (use rest in auto)
  then show ?thesis using spend_work_ok [OF w assms(2)] by simp
qed

lemma vectorCandidates_work:
  assumes "vectorCandidatesBounded d q attribute eligible limit w = Inr (batch, w')" "work_ok b w"
  shows "work_ok b w'"
proof -
  let ?start = "\<lparr>vs_ranking = newBoundedRawRanking limit, vs_matchedDims = False, vs_sawFact = False,
       vs_entity = None, vs_best = None, vs_work = w\<rparr>"
  obtain attr st st' where run:
    "res_fold (vector_row d q eligible) (take (nat (remaining w) + 1) (vector_rows (db_tables d) attr)) ?start = Inr st"
    "finishEntity st = Inr st'"
    "(if attribute \<noteq> [] \<and> vs_sawFact st' \<and> \<not> vs_matchedDims st' then fail ErrType
      else (case ranking_result (vs_ranking st') of (ranked, truncated) \<Rightarrow>
         res_bind (res_map (ranked_vector_fact d) ranked) (\<lambda>items.
           Inr (\<lparr>cb_items = items, cb_truncated = truncated\<rparr>, vs_work st')))) = Inr (batch, w')"
    using assms(1) unfolding vectorCandidatesBounded_def res_bind_Inr_iff by (elim exE conjE)
  from run(3) have w': "w' = vs_work st'"
    by (cases "ranking_result (vs_ranking st')") (auto simp: res_iff split: if_split_asm)
  have "work_ok b (vs_work st)"
    by (rule res_fold_invariant [OF run(1), where P = "\<lambda>st. work_ok b (vs_work st)"]) (use assms(2) vector_row_work in auto)
  then show ?thesis using run(2) w' finishEntity_work by simp
qed

lemma expand_edge_work:
  "expand_edge d current edge st = Inr st' \<Longrightarrow> work_ok b (xs_work st) \<Longrightarrow> work_ok b (xs_work st')"
  by (auto simp: expand_edge_def res_iff Let_def dest: spend_work_ok split: prod.split_asm if_split_asm)

lemma expand_entity_work:
  assumes "expand_entity d current st = Inr st'" "work_ok b (xs_work st)"
  shows "work_ok b (xs_work st')"
proof (cases "xs_stopped st")
  case False
  then have "res_fold (expand_edge d current) (readExpansionEdges (db_tables d) current) st = Inr st'"
    using assms(1) by (simp add: expand_entity_def)
  then show ?thesis
    by (rule res_fold_invariant [where P = "\<lambda>st. work_ok b (xs_work st)"]) (use assms(2) expand_edge_work in auto)
qed (use assms in \<open>simp add: expand_entity_def\<close>)

lemma expand_hops_work:
  "expand_hops d hops frontier st = Inr st' \<Longrightarrow> work_ok b (xs_work st) \<Longrightarrow> work_ok b (xs_work st')"
proof (induction d hops frontier st rule: expand_hops.induct)
  case (2 d hops frontier st)
  show ?case
  proof (cases "frontier = [] \<or> xs_stopped st")
    case False
    then obtain st1 where st1: "res_fold (expand_entity d) frontier (st\<lparr>xs_next := []\<rparr>) = Inr st1"
        "expand_hops d hops (xs_next st1) st1 = Inr st'"
      using "2.prems"(1) by (auto simp: res_iff)
    have "work_ok b (xs_work st1)"
      by (rule res_fold_invariant [OF st1(1), where P = "\<lambda>st. work_ok b (xs_work st)"])
        (use "2.prems"(2) expand_entity_work in auto)
    then show ?thesis using "2.IH" [OF False] st1 by blast
  qed (use 2 in auto)
qed simp

subsection \<open>Bounded answers\<close>

lemma back_to_rune_le: "back_to_rune s n \<le> n"
  by (induction n) auto

lemma boundMatchedText_length: "length (fst (boundMatchedText s)) \<le> maxMatchedValueBytes"
  using back_to_rune_le [of s 2045] by (auto simp: boundMatchedText_def maxMatchedValueBytes_def ellipsis_def)

lemma boundMatchedText_le: "boundMatchedText s = (s', trimmed) \<Longrightarrow> length s' \<le> maxMatchedValueBytes"
  using boundMatchedText_length [of s] by simp

definition bounded_fact :: "SearchFact \<Rightarrow> bool" where
  "bounded_fact f \<longleftrightarrow>
     (case fa_v f of AStr s \<Rightarrow> length s \<le> maxMatchedValueBytes | _ \<Rightarrow> True) \<and> length (fa_snippet f) \<le> maxMatchedValueBytes"

lemma boundMatchedFact_bounded: "bounded_fact (boundMatchedFact f)"
proof -
  define f1 where "f1 =
    (if fa_tag f = TagVector
     then f\<lparr>fa_v := AMap [(''vector_dims'', ANum KInt (vector_dimensions (fa_v f)))], fa_valueTruncated := True\<rparr>
     else case fa_v f of
       AStr s \<Rightarrow> (case boundMatchedText s of (s', trimmed) \<Rightarrow> f\<lparr>fa_v := AStr s', fa_valueTruncated := trimmed\<rparr>)
     | _ \<Rightarrow> f)"
  have v: "case fa_v f1 of AStr s \<Rightarrow> length s \<le> maxMatchedValueBytes | _ \<Rightarrow> True"
    by (cases "fa_v f") (auto simp: f1_def split: prod.split dest: boundMatchedText_le)
  have "boundMatchedFact f =
    (if fa_snippet f1 \<noteq> []
     then (case boundMatchedText (fa_snippet f1) of (s', trimmed) \<Rightarrow> f1\<lparr>fa_snippet := s', fa_snippetTruncated := trimmed\<rparr>)
     else f1)"
    unfolding boundMatchedFact_def f1_def Let_def ..
  then show ?thesis
    using v by (auto simp: bounded_fact_def split: prod.split dest: boundMatchedText_le)
qed

definition bounded_hit :: "SearchHit \<Rightarrow> bool" where
  "bounded_hit h \<longleftrightarrow> length (sh_matched h) \<le> maxMatchedFacts \<and> list_all bounded_fact (sh_matched h)"

definition bounded_result :: "int \<Rightarrow> int \<Rightarrow> SearchResult \<Rightarrow> bool" where
  "bounded_result k budget r \<longleftrightarrow>
     int (length (sr_hits r)) \<le> k \<and> length (sr_expanded r) \<le> maxExpandedEntities
     \<and> list_all bounded_hit (sr_hits r @ sr_expanded r) \<and> 0 \<le> sr_workUsed r \<and> sr_workUsed r \<le> max 0 budget"

lemma drop_hits_bounded:
  "bounded_result k b r \<Longrightarrow> bounded_result k b (drop_hits se r)
     \<and> (searchOutputSize se (drop_hits se r) \<le> maxSearchOutputBytes \<or> sr_hits (drop_hits se r) = [])"
proof (induction se r rule: drop_hits.induct)
  case (1 se r)
  show ?case
  proof (cases "searchOutputSize se r > maxSearchOutputBytes \<and> sr_hits r \<noteq> []")
    case True
    have "bounded_result k b (r\<lparr>sr_hits := butlast (sr_hits r)\<rparr>)"
      using "1.prems" by (auto simp: bounded_result_def list_all_iff dest: in_set_butlastD)
    then show ?thesis using "1.IH" [OF True] True by (subst (1 2 3) drop_hits.simps) simp
  next
    case False
    then show ?thesis using "1.prems" by (subst (1 2 3) drop_hits.simps) auto
  qed
qed

lemma boundSearchOutput_bounded:
  assumes "bounded_result k b r"
  shows "bounded_result k b (boundSearchOutput se r)
    \<and> (searchOutputSize se (boundSearchOutput se r) \<le> maxSearchOutputBytes \<or> sr_hits (boundSearchOutput se r) = [])"
proof -
  let ?r1 = "r\<lparr>sr_truncated := True, sr_expanded := []\<rparr>"
  let ?r2 = "?r1\<lparr>sr_hits := map (\<lambda>h. h\<lparr>sh_matched := []\<rparr>) (sr_hits r)\<rparr>"
  have r1: "bounded_result k b ?r1" using assms by (simp add: bounded_result_def)
  have r2: "bounded_result k b ?r2"
    using assms by (simp add: bounded_result_def bounded_hit_def list_all_iff)
  show ?thesis
    using assms r1 drop_hits_bounded [OF r2, of se] by (simp add: boundSearchOutput_def Let_def)
qed

lemma search_hits_cut:
  assumes "res_map (search_hit d scores matched) es = Inr hits"
  shows "length hits = length es \<and> list_all bounded_hit hits"
proof -
  have "list_all2 (\<lambda>e h. search_hit d scores matched e = Inr h) es hits" using assms by (simp add: res_map_Inr_iff)
  moreover have "search_hit d scores matched e = Inr h \<Longrightarrow> bounded_hit h" for e h
    by (auto simp: search_hit_def res_iff bounded_hit_def list_all_iff boundMatchedFact_bounded)
  ultimately show ?thesis by (induction rule: list_all2_induct) auto
qed

text \<open>The expanded entities are at most a hundred, and carry no matched facts.\<close>

definition expanded_ok :: "expand_state \<Rightarrow> bool" where
  "expanded_ok st \<longleftrightarrow> length (xs_expanded st) \<le> maxExpandedEntities \<and> list_all (\<lambda>h. sh_matched h = []) (xs_expanded st)"

lemma expand_edge_ok: "expand_edge d current edge st = Inr st' \<Longrightarrow> expanded_ok st \<Longrightarrow> expanded_ok st'"
  by (cases edge) (auto simp: expand_edge_def res_iff Let_def expanded_ok_def split: if_split_asm)

lemma expand_entity_ok: "expand_entity d current st = Inr st' \<Longrightarrow> expanded_ok st \<Longrightarrow> expanded_ok st'"
  by (auto simp: expand_entity_def split: if_split_asm intro: res_fold_invariant [where P = expanded_ok] expand_edge_ok)

lemma expand_hops_ok: "expand_hops d hops frontier st = Inr st' \<Longrightarrow> expanded_ok st \<Longrightarrow> expanded_ok st'"
proof (induction d hops frontier st rule: expand_hops.induct)
  case (2 d hops frontier st)
  show ?case
  proof (cases "frontier = [] \<or> xs_stopped st")
    case False
    then obtain st1 where st1: "res_fold (expand_entity d) frontier (st\<lparr>xs_next := []\<rparr>) = Inr st1"
        "expand_hops d hops (xs_next st1) st1 = Inr st'"
      using "2.prems"(1) by (auto simp: res_iff)
    have "expanded_ok st1"
      by (rule res_fold_invariant [OF st1(1), where P = expanded_ok])
        (use "2.prems"(2) expand_entity_ok in \<open>auto simp: expanded_ok_def\<close>)
    then show ?thesis using "2.IH" [OF False] st1 by blast
  qed (use 2 in auto)
qed simp

lemma expandSearch_bounded:
  assumes "expandSearch d seeds hops w = Inr (expanded, stopped, w')" "work_ok b w"
  shows "length expanded \<le> maxExpandedEntities \<and> list_all bounded_hit expanded \<and> work_ok b w'"
proof -
  obtain st where st: "expand_hops d (nat hops) seeds (expand_start seeds w) = Inr st" "expanded = xs_expanded st" "w' = xs_work st"
    using assms(1) by (auto simp: expandSearch_def res_iff)
  have "expanded_ok st" by (rule expand_hops_ok [OF st(1)]) (simp add: expanded_ok_def expand_start_def)
  moreover have "work_ok b (xs_work st)"
    by (rule expand_hops_work [OF st(1)]) (simp add: expand_start_def assms(2))
  ultimately show ?thesis
    by (auto simp: st expanded_ok_def list_all_iff bounded_hit_def)
qed

lemma search_lists_work:
  assumes "search_lists se d p eligible w = Inr (batches, w')" "work_ok b w"
  shows "work_ok b w'"
proof -
  obtain batches1 w1 where w1: "(if blank (so_text p) then Inr ([], w)
       else res_bind (keywordCandidatesBounded se d (so_text p) (so_textAttributes p) eligible (candidate_limit p) w)
              (\<lambda>(batch, w). Inr ([batch], w))) = Inr (batches1, w1)"
    and rest: "(if so_vector p = [] then Inr (batches1, w1)
      else res_bind (vectorCandidatesBounded d (so_vector p) (so_vectorAttribute p) eligible (candidate_limit p) w1)
             (\<lambda>(batch, w'). Inr (batches1 @ [batch], w'))) = Inr (batches, w')"
    using assms(1) unfolding search_lists_def res_bind_Inr_iff by (auto simp: res_bind_Inr_iff)
  have "work_ok b w1"
    using w1 assms(2) keywordCandidates_work by (auto simp: res_iff split: if_split_asm)
  then show ?thesis
    using rest vectorCandidates_work by (auto simp: res_iff split: if_split_asm)
qed

lemma search_on_bounded:
  assumes "search_on se p d = Inr r" "0 \<le> so_k p"
  shows "bounded_result (so_k p) (se_budget se) r \<and> (searchOutputSize se r \<le> maxSearchOutputBytes \<or> sr_hits r = [])"
proof -
  let ?work = "\<lparr>sw_limit = se_budget se, sw_used = 0\<rparr>"
  obtain resolved where res: "resolveSearchFilters d (so_filters p) = Inr resolved"
    using assms(1) by (auto simp: search_on_def Let_def res_iff)
  show ?thesis
  proof (cases resolved)
    case None
    then show ?thesis using assms res by (auto simp: search_on_def Let_def bounded_result_def)
  next
    case (Some filters)
    then obtain eligible w batches w' where run: "eligibleSearchEntities d filters ?work = Inr (eligible, w)"
        "search_lists se d p eligible w = Inr (batches, w')" "search_hits se d p (basisOn (db_tables d)) batches w' = Inr r"
      using assms(1) res by (auto simp: search_on_def Let_def res_iff)
    have "work_ok (se_budget se) ?work" by (simp add: work_ok_def)
    then have w': "work_ok (se_budget se) w'"
      using run(1,2) by (auto simp: eligibleSearchEntities_def dest: eligible_loop_work search_lists_work)
    obtain scores matched where fused: "fold fuse_list (map cb_items batches) ([], []) = (scores, matched)" by fastforce
    define es where "es = take (nat (so_k p)) (rank_entities (db_store d) scores)"
    obtain hits expanded stopped w2 cut where h: "res_map (search_hit d scores matched) es = Inr hits"
      and x: "(if so_expand p > 0 then expandSearch d es (so_expand p) w' else Inr ([], False, w')) = Inr (expanded, stopped, w2)"
      and r: "r = boundSearchOutput se \<lparr>sr_hits = hits, sr_expanded = expanded, sr_basisTx = basisOn (db_tables d),
         sr_truncated = cut, sr_workUsed = sw_used w2\<rparr>"
      using run(3) unfolding search_hits_def fused Let_def prod.case es_def [symmetric] by (auto simp: res_bind_Inr_iff)
    have "length expanded \<le> maxExpandedEntities \<and> list_all bounded_hit expanded \<and> work_ok (se_budget se) w2"
      using x w' expandSearch_bounded by (auto split: if_split_asm)
    moreover have "length hits \<le> nat (so_k p) \<and> list_all bounded_hit hits"
      using search_hits_cut [OF h] by (simp add: es_def)
    ultimately show ?thesis
      unfolding r using assms(2) by (intro boundSearchOutput_bounded) (auto simp: bounded_result_def work_ok_def)
  qed
qed

text \<open>
  C30. A search answers within its bounds: at most \<^verbatim>\<open>K\<close> hits (at most 100), at most 100 expanded entities, at most 8 matched
  facts per hit, each with a value and a snippet of at most 2048 bytes, no more work than the budget, and an
  encoded size of at most a megabyte, or no hit at all.
\<close>

theorem search_is_bounded:
  assumes "Search se d options = (Inr r, d')"
  shows "bounded_result (if so_k options = 0 then 10 else so_k options) (se_budget se) r
    \<and> length (sr_hits r) \<le> 100 \<and> (searchOutputSize se r \<le> maxSearchOutputBytes \<or> sr_hits r = [])"
proof -
  let ?p = "search_defaults options"
  obtain d1 where run: "search_on se ?p d1 = Inr r" and checked: "check_search ?p = Inr ()"
    using assms by (auto simp: Search_def Let_def withRead_def split: if_split_asm sum.splits)
  have k: "so_k ?p = (if so_k options = 0 then 10 else so_k options)" by (simp add: search_defaults_def)
  have "1 \<le> so_k ?p \<and> so_k ?p \<le> 100"
    using checked by (auto simp: check_search_def Let_def maxSearchK_def split: if_split_asm)
  then show ?thesis using search_on_bounded [OF run] unfolding k by (auto simp: bounded_result_def)
qed

end
