(* ===== verification/ExpandFacts.thy ===== *)
theory ExpandFacts
  imports SearchFacts
begin

text \<open>
  Expansion is a breadth-first walk: it answers the entities that live references connect to the seeds within the
  number of hops, each once, with a path of that length; and all of them, unless it stops at its limit.
\<close>

subsection \<open>The graph\<close>

definition linked :: "tables \<Rightarrow> int \<Rightarrow> int \<Rightarrow> bool" where
  "linked tb x y \<longleftrightarrow>
    list_ex (\<lambda>f. rf_t f = TagRef \<and> live f
       \<and> (if rf_e f = x then asInt64 (rf_v f) = y else sql_eq (rf_v f) (SInt x) \<and> rf_e f = y)) (tb_facts tb)"

inductive reached :: "tables \<Rightarrow> int list \<Rightarrow> nat \<Rightarrow> int \<Rightarrow> bool" for tb seeds where
  seed: "e \<in> set seeds \<Longrightarrow> reached tb seeds 0 e"
| hop: "reached tb seeds n x \<Longrightarrow> linked tb x y \<Longrightarrow> reached tb seeds (Suc n) y"

inductive_cases reached_0: "reached tb seeds 0 e"
inductive_cases reached_Suc: "reached tb seeds (Suc n) e"

lemma readExpansionEdges_linked: "snd ` set (readExpansionEdges tb x) = {y. linked tb x y}"
  by (force simp: readExpansionEdges_def select_facts_def linked_def list_ex_iff split: if_splits)

subsection \<open>Steps\<close>

text \<open>
  \<open>es\<close> are the entities expanded so far; those and the seeds have been seen, each with a path along which it is
  connected, of at most \<open>n\<close> references.
\<close>

definition walked :: "db \<Rightarrow> int list \<Rightarrow> nat \<Rightarrow> int list \<Rightarrow> expand_state \<Rightarrow> bool" where
  "walked d seeds n es st \<longleftrightarrow>
     map sh_entity (xs_expanded st) = map (displayEntity (db_store d)) es
     \<and> distinct es \<and> set es \<inter> set seeds = {}
     \<and> set seeds \<union> set es \<subseteq> set (xs_seen st)
     \<and> (xs_stopped st \<or> set (xs_seen st) = set seeds \<union> set es)
     \<and> (\<forall>e \<in> set seeds \<union> set es. reached (db_tables d) seeds (length (path_of st e)) e)
     \<and> list_all2 (\<lambda>e h. reached (db_tables d) seeds (length (sh_via h)) e \<and> length (sh_via h) \<le> n) es (xs_expanded st)"

text \<open>What a step adds: entities at distance \<open>n\<close>, which form the next frontier, and it keeps the paths.\<close>

definition expands_to :: "int list \<Rightarrow> nat \<Rightarrow> int list \<Rightarrow> expand_state \<Rightarrow> int list \<Rightarrow> expand_state \<Rightarrow> bool" where
  "expands_to seeds n es st es' st' \<longleftrightarrow>
     (\<exists>new. es' = es @ new \<and> xs_next st' = xs_next st @ new \<and> (\<forall>e \<in> set new. length (path_of st' e) = n))
     \<and> set (xs_seen st) \<subseteq> set (xs_seen st') \<and> (xs_stopped st \<longrightarrow> xs_stopped st')
     \<and> (\<forall>e \<in> set seeds \<union> set es. path_of st' e = path_of st e)"

lemma expands_to_refl: "expands_to seeds n es st es st"
  by (auto simp: expands_to_def)

lemma expands_to_trans:
  assumes "expands_to seeds n es st es1 st1" "expands_to seeds n es1 st1 es2 st2"
  shows "expands_to seeds n es st es2 st2"
proof -
  obtain new1 new2 where new: "es1 = es @ new1" "xs_next st1 = xs_next st @ new1" "\<forall>e \<in> set new1. length (path_of st1 e) = n"
      "es2 = es1 @ new2" "xs_next st2 = xs_next st1 @ new2" "\<forall>e \<in> set new2. length (path_of st2 e) = n"
    using assms by (auto simp: expands_to_def)
  have keep: "\<forall>e \<in> set seeds \<union> set es1. path_of st2 e = path_of st1 e" using assms(2) by (simp add: expands_to_def)
  have "\<forall>e \<in> set (new1 @ new2). length (path_of st2 e) = n" using new keep by auto
  moreover have "es2 = es @ (new1 @ new2)" "xs_next st2 = xs_next st @ (new1 @ new2)" using new by simp_all
  moreover have "\<forall>e \<in> set seeds \<union> set es. path_of st2 e = path_of st e"
    using assms(1) keep new(1) by (auto simp: expands_to_def)
  ultimately show ?thesis using assms unfolding expands_to_def by blast
qed

lemma walked_new:
  assumes w: "walked d seeds n es st" and go: "\<not> xs_stopped st" and y: "y \<notin> set (xs_seen st)"
    and path: "reached (db_tables d) seeds (length path) y" "length path = n"
    and st': "st' = st\<lparr>xs_work := w', xs_seen := y # xs_seen st, xs_paths := AList.update y path (xs_paths st),
      xs_expanded := xs_expanded st @ [h], xs_next := xs_next st @ [y]\<rparr>"
    and h: "sh_entity h = displayEntity (db_store d) y" "sh_via h = path"
  shows "walked d seeds n (es @ [y]) st' \<and> expands_to seeds n es st (es @ [y]) st'"
proof -
  have seen: "set (xs_seen st) = set seeds \<union> set es" using w go by (auto simp: walked_def)
  have p: "path_of st' e = (if e = y then path else path_of st e)" for e
    by (simp add: path_of_def st' update_conv')
  have "list_all2 (\<lambda>e h. reached (db_tables d) seeds (length (sh_via h)) e \<and> length (sh_via h) \<le> n) (es @ [y]) (xs_expanded st @ [h])"
    using w path h by (intro list_all2_appendI) (auto simp: walked_def)
  then have "walked d seeds n (es @ [y]) st'"
    using w y seen path h unfolding walked_def p by (auto simp: st' go)
  moreover have "expands_to seeds n es st (es @ [y]) st'"
    unfolding expands_to_def p using y seen path(2) by (auto simp: st')
  ultimately show ?thesis by simp
qed

lemma expand_edge_walked:
  assumes w: "walked d seeds n es st" and run: "expand_edge d x (f, y) st = Inr st'"
    and x: "x \<in> set seeds \<union> set es" "Suc (length (path_of st x)) = n" and edge: "linked (db_tables d) x y"
  obtains es' where "walked d seeds n es' st'" "expands_to seeds n es st es' st'" "xs_stopped st' \<or> y \<in> set (xs_seen st')"
proof -
  consider "xs_stopped st" "st' = st"
    | w1 where "\<not> xs_stopped st" "y \<in> set (xs_seen st)" "st' = st\<lparr>xs_work := w1\<rparr>"
    | w1 where "\<not> xs_stopped st" "y \<notin> set (xs_seen st)" "st' = st\<lparr>xs_work := w1, xs_seen := y # xs_seen st, xs_stopped := True\<rparr>"
    | w1 rendered h where "\<not> xs_stopped st" "y \<notin> set (xs_seen st)"
        "st' = st\<lparr>xs_work := w1, xs_seen := y # xs_seen st,
          xs_paths := AList.update y (path_of st x @ [rendered]) (xs_paths st),
          xs_expanded := xs_expanded st @ [h], xs_next := xs_next st @ [y]\<rparr>"
        "sh_entity h = displayEntity (db_store d) y" "sh_via h = path_of st x @ [rendered]"
    using run
    by (cases "xs_stopped st"; cases "y \<in> set (xs_seen st)"; cases "maxExpandedEntities \<le> length (xs_expanded st)")
      (auto simp: expand_edge_def res_iff Let_def)
  then show ?thesis
  proof cases
    case 1
    then show ?thesis using w by (intro that [of es]) (auto simp: expands_to_refl)
  next
    case 2
    then show ?thesis using w by (intro that [of es]) (auto simp: walked_def expands_to_def path_of_def)
  next
    case 3
    then show ?thesis using w by (intro that [of es]) (auto simp: walked_def expands_to_def path_of_def)
  next
    case 4
    have "reached (db_tables d) seeds (length (path_of st x)) x" using w x(1) by (simp add: walked_def)
    from reached.hop [OF this edge] have "reached (db_tables d) seeds (length (path_of st x @ [rendered])) y" by simp
    from walked_new [OF w 4(1,2) this _ 4(3-5)] x(2) 4(3) show ?thesis by (intro that [of "es @ [y]"]) auto
  qed
qed

lemma expand_edges_walked:
  assumes "walked d seeds n es st" "res_fold (expand_edge d x) edges st = Inr st'"
    and "x \<in> set seeds \<union> set es" "Suc (length (path_of st x)) = n" "\<forall>y \<in> snd ` set edges. linked (db_tables d) x y"
  shows "\<exists>es'. walked d seeds n es' st' \<and> expands_to seeds n es st es' st' \<and> (xs_stopped st' \<or> snd ` set edges \<subseteq> set (xs_seen st'))"
  using assms
proof (induction edges arbitrary: es st)
  case Nil
  then show ?case using expands_to_refl by auto
next
  case (Cons edge edges)
  obtain f y where edge: "edge = (f, y)" by fastforce
  obtain st1 where st1: "expand_edge d x (f, y) st = Inr st1" "res_fold (expand_edge d x) edges st1 = Inr st'"
    using Cons.prems(2) by (auto simp: edge res_iff)
  have "linked (db_tables d) x y" using Cons.prems(5) by (simp add: edge)
  from expand_edge_walked [OF Cons.prems(1) st1(1) Cons.prems(3,4) this]
  obtain es1 where es1: "walked d seeds n es1 st1" "expands_to seeds n es st es1 st1" "xs_stopped st1 \<or> y \<in> set (xs_seen st1)" .
  have x: "x \<in> set seeds \<union> set es1" "Suc (length (path_of st1 x)) = n"
    using es1(2) Cons.prems(3,4) by (auto simp: expands_to_def)
  from Cons.IH [OF es1(1) st1(2) x] Cons.prems(5) obtain es2 where
    es2: "walked d seeds n es2 st'" "expands_to seeds n es1 st1 es2 st'" "xs_stopped st' \<or> snd ` set edges \<subseteq> set (xs_seen st')"
    by auto
  moreover have "xs_stopped st' \<or> y \<in> set (xs_seen st')" using es1(3) es2(2) by (auto simp: expands_to_def)
  ultimately show ?case using expands_to_trans [OF es1(2)] by (auto simp: edge)
qed

lemma expand_entities_walked:
  assumes "walked d seeds n es st" "res_fold (expand_entity d) xs st = Inr st'"
    and "\<forall>x \<in> set xs. x \<in> set seeds \<union> set es \<and> Suc (length (path_of st x)) = n"
  shows "\<exists>es'. walked d seeds n es' st' \<and> expands_to seeds n es st es' st'
    \<and> (xs_stopped st' \<or> (\<forall>x \<in> set xs. \<forall>y. linked (db_tables d) x y \<longrightarrow> y \<in> set (xs_seen st')))"
  using assms
proof (induction xs arbitrary: es st)
  case Nil
  then show ?case using expands_to_refl by auto
next
  case (Cons x xs)
  obtain st1 where st1: "expand_entity d x st = Inr st1" "res_fold (expand_entity d) xs st1 = Inr st'"
    using Cons.prems(2) by (auto simp: res_iff)
  have "\<exists>es1. walked d seeds n es1 st1 \<and> expands_to seeds n es st es1 st1 \<and> (xs_stopped st1 \<or> (\<forall>y. linked (db_tables d) x y \<longrightarrow> y \<in> set (xs_seen st1)))"
  proof (cases "xs_stopped st")
    case True
    then show ?thesis using st1(1) Cons.prems(1) expands_to_refl by (auto simp: expand_entity_def)
  next
    case False
    then have "res_fold (expand_edge d x) (readExpansionEdges (db_tables d) x) st = Inr st1"
      using st1(1) by (simp add: expand_entity_def)
    from expand_edges_walked [OF Cons.prems(1) this] Cons.prems(3) show ?thesis
      unfolding readExpansionEdges_linked by auto
  qed
  then obtain es1 where es1: "walked d seeds n es1 st1" "expands_to seeds n es st es1 st1"
    "xs_stopped st1 \<or> (\<forall>y. linked (db_tables d) x y \<longrightarrow> y \<in> set (xs_seen st1))" by blast
  have "\<forall>x \<in> set xs. x \<in> set seeds \<union> set es1 \<and> Suc (length (path_of st1 x)) = n"
    using es1(2) Cons.prems(3) by (auto simp: expands_to_def)
  from Cons.IH [OF es1(1) st1(2) this] obtain es2 where es2: "walked d seeds n es2 st'" "expands_to seeds n es1 st1 es2 st'"
    "xs_stopped st' \<or> (\<forall>x \<in> set xs. \<forall>y. linked (db_tables d) x y \<longrightarrow> y \<in> set (xs_seen st'))" by blast
  moreover have "xs_stopped st' \<or> (\<forall>y. linked (db_tables d) x y \<longrightarrow> y \<in> set (xs_seen st'))"
    using es1(3) es2(2) by (auto simp: expands_to_def)
  ultimately show ?case using expands_to_trans [OF es1(2)] by auto
qed

subsection \<open>Rounds\<close>

text \<open>
  Before a round, the entities of the frontier are those with a path of \<open>n\<close> references whose neighbours may not
  have been seen yet; unless the walk has stopped, everything at distance \<open>n\<close> has been seen.
\<close>

definition round_ok :: "db \<Rightarrow> int list \<Rightarrow> nat \<Rightarrow> int list \<Rightarrow> int list \<Rightarrow> expand_state \<Rightarrow> bool" where
  "round_ok d seeds n frontier es st \<longleftrightarrow>
     walked d seeds n es st
     \<and> (\<forall>x \<in> set frontier. x \<in> set seeds \<union> set es \<and> length (path_of st x) = n)
     \<and> (xs_stopped st \<or>
          (\<forall>x \<in> (set seeds \<union> set es) - set frontier. \<forall>y. linked (db_tables d) x y \<longrightarrow> y \<in> set (xs_seen st))
          \<and> (\<forall>m \<le> n. \<forall>e. reached (db_tables d) seeds m e \<longrightarrow> e \<in> set (xs_seen st)))"

lemma walked_mono: "walked d seeds n es st \<Longrightarrow> n \<le> m \<Longrightarrow> walked d seeds m es (st\<lparr>xs_next := next\<rparr>)"
  by (auto simp: walked_def path_of_def elim!: list_all2_mono)

lemma round_step:
  assumes "round_ok d seeds n frontier es st" "\<not> xs_stopped st"
    and run: "res_fold (expand_entity d) frontier (st\<lparr>xs_next := []\<rparr>) = Inr st'"
  shows "\<exists>es'. round_ok d seeds (Suc n) (xs_next st') es' st'"
proof -
  let ?st = "st\<lparr>xs_next := []\<rparr>"
  have w: "walked d seeds n es st" and frontier: "\<And>x. x \<in> set frontier \<Longrightarrow> x \<in> set seeds \<union> set es \<and> length (path_of st x) = n"
    and closed_below: "\<And>x y. x \<in> set seeds \<union> set es \<Longrightarrow> x \<notin> set frontier \<Longrightarrow> linked (db_tables d) x y \<Longrightarrow> y \<in> set (xs_seen st)"
    and covered: "\<And>m e. m \<le> n \<Longrightarrow> reached (db_tables d) seeds m e \<Longrightarrow> e \<in> set (xs_seen st)"
    using assms(1,2) by (auto simp: round_ok_def)
  have seen: "set (xs_seen st) = set seeds \<union> set es" using w assms(2) by (auto simp: walked_def)
  have w0: "walked d seeds (Suc n) es ?st" by (rule walked_mono [OF w]) simp
  have "\<forall>x \<in> set frontier. x \<in> set seeds \<union> set es \<and> Suc (length (path_of ?st x)) = Suc n"
    using frontier by (auto simp: path_of_def)
  from expand_entities_walked [OF w0 run this] obtain es' where es': "walked d seeds (Suc n) es' st'" "expands_to seeds (Suc n) es ?st es' st'"
    and all: "xs_stopped st' \<or> (\<forall>x \<in> set frontier. \<forall>y. linked (db_tables d) x y \<longrightarrow> y \<in> set (xs_seen st'))" by blast
  from es'(2) obtain new where new: "es' = es @ new" "xs_next st' = new" "\<forall>e \<in> set new. length (path_of st' e) = Suc n"
    by (auto simp: expands_to_def)
  have mono: "set (xs_seen st) \<subseteq> set (xs_seen st')" using es'(2) by (simp add: expands_to_def)
  have nbrs: "y \<in> set (xs_seen st')" if "\<not> xs_stopped st'" "x \<in> set seeds \<union> set es" "linked (db_tables d) x y" for x y
    using that all closed_below mono by (cases "x \<in> set frontier") blast+
  have "e \<in> set (xs_seen st')" if go: "\<not> xs_stopped st'" and le: "m \<le> Suc n" and e: "reached (db_tables d) seeds m e" for m e
  proof (cases "m \<le> n")
    case True
    then show ?thesis using covered e mono by blast
  next
    case False
    then have "m = Suc n" using le by simp
    then obtain x where x: "reached (db_tables d) seeds n x" "linked (db_tables d) x e" using e by (auto elim: reached_Suc)
    then have "x \<in> set seeds \<union> set es" using covered seen by blast
    then show ?thesis using nbrs go x(2) by blast
  qed
  moreover have "y \<in> set (xs_seen st')"
    if "\<not> xs_stopped st'" "x \<in> (set seeds \<union> set es') - set (xs_next st')" "linked (db_tables d) x y" for x y
    using that new(1,2) by (intro nbrs) auto
  ultimately show ?thesis using es'(1) new(3) unfolding round_ok_def new(2) by (intro exI [of _ es']) (auto simp: new(1))
qed

lemma reached_closed:
  assumes "\<And>x y. x \<in> S \<Longrightarrow> linked tb x y \<Longrightarrow> y \<in> S" "set seeds \<subseteq> S" "reached tb seeds n e"
  shows "e \<in> S"
  using assms(3,1,2) by (induction) auto

lemma expand_hops_walked:
  "expand_hops d hops frontier st = Inr st' \<Longrightarrow> round_ok d seeds n frontier es st \<Longrightarrow>
     \<exists>es'. walked d seeds (n + hops) es' st'
       \<and> (xs_stopped st' \<or> (\<forall>m \<le> n + hops. \<forall>e. reached (db_tables d) seeds m e \<longrightarrow> e \<in> set (xs_seen st')))"
proof (induction d hops frontier st arbitrary: n es rule: expand_hops.induct)
  case (1 d frontier st)
  then show ?case by (auto simp: round_ok_def)
next
  case (2 d hops frontier st)
  have w: "walked d seeds n es st" using "2.prems"(2) by (simp add: round_ok_def)
  have st: "st\<lparr>xs_next := xs_next st\<rparr> = st" by simp
  have keep: "walked d seeds (n + Suc hops) es st" using walked_mono [OF w, of "n + Suc hops" "xs_next st"] by (simp add: st)
  consider "xs_stopped st" | "\<not> xs_stopped st" "frontier = []" | "\<not> (frontier = [] \<or> xs_stopped st)" by blast
  then show ?case
  proof cases
    case 1
    then show ?thesis using "2.prems"(1) keep by auto
  next
    case 2
    have seen: "set (xs_seen st) = set seeds \<union> set es" using w 2(1) by (auto simp: walked_def)
    then have "e \<in> set (xs_seen st)" if "reached (db_tables d) seeds m e" for m e
      using "2.prems"(2) 2 by (intro reached_closed [OF _ _ that]) (auto simp: round_ok_def)
    then show ?thesis using "2.prems"(1) keep 2 by auto
  next
    case 3
    then obtain st1 where st1: "res_fold (expand_entity d) frontier (st\<lparr>xs_next := []\<rparr>) = Inr st1"
        "expand_hops d hops (xs_next st1) st1 = Inr st'"
      using "2.prems"(1) by (auto simp: res_iff)
    then obtain es1 where "round_ok d seeds (Suc n) (xs_next st1) es1 st1"
      using round_step [OF "2.prems"(2)] 3 by blast
    from "2.IH" [OF 3 st1 this] show ?thesis by simp
  qed
qed

text \<open>
  C29. Expansion is a breadth-first walk of the reference graph: the expanded entities are distinct, none is a seed, each
  comes with a path of references of its length from a seed, no longer than the number of hops; and unless the
  walk was cut at its limit, the seeds and the expanded entities are all that lies within that many hops.
\<close>

theorem expansion_is_breadth_first:
  assumes "expandSearch d seeds hops work = Inr (expanded, trimmed, work')"
  shows "\<exists>es. map sh_entity expanded = map (displayEntity (db_store d)) es \<and> distinct es \<and> set es \<inter> set seeds = {}
    \<and> list_all2 (\<lambda>e h. reached (db_tables d) seeds (length (sh_via h)) e \<and> length (sh_via h) \<le> nat hops) es expanded
    \<and> (trimmed \<or> set seeds \<union> set es = {e. \<exists>n \<le> nat hops. reached (db_tables d) seeds n e})"
proof -
  obtain st where st: "expand_hops d (nat hops) seeds (expand_start seeds work) = Inr st" "expanded = xs_expanded st" "trimmed = xs_stopped st"
    using assms by (auto simp: expandSearch_def res_iff)
  have p: "path_of (expand_start seeds work) e = []" for e
    by (auto simp: path_of_def expand_start_def split: option.split dest!: map_of_SomeD)
  have "round_ok d seeds 0 seeds [] (expand_start seeds work)"
    unfolding round_ok_def walked_def p by (auto simp: expand_start_def reached.seed elim: reached_0)
  from expand_hops_walked [OF st(1) this] obtain es where es: "walked d seeds (nat hops) es st"
    and all: "xs_stopped st \<or> (\<forall>m \<le> nat hops. \<forall>e. reached (db_tables d) seeds m e \<longrightarrow> e \<in> set (xs_seen st))" by auto
  have via: "list_all2 (\<lambda>e h. reached (db_tables d) seeds (length (sh_via h)) e \<and> length (sh_via h) \<le> nat hops) es expanded"
    using es by (simp add: walked_def st(2))
  have "e \<in> {e. \<exists>n \<le> nat hops. reached (db_tables d) seeds n e}" if "e \<in> set seeds \<union> set es" for e
    using that via reached.seed [of e seeds] by (auto simp: list_all2_iff in_set_conv_nth set_zip) blast+
  then have "trimmed \<or> set seeds \<union> set es = {e. \<exists>n \<le> nat hops. reached (db_tables d) seeds n e}"
    using all es by (auto simp: st(3) walked_def)
  then show ?thesis using es via by (intro exI [of _ es]) (auto simp: walked_def st(2))
qed

end
