(* ===== verification/StoreFacts.thy ===== *)
theory StoreFacts
  imports Store
begin

text \<open>
  Facts about the store: the UUID text form, names, the tables after initialisation, and the identity
  allocator.
\<close>

subsection \<open>UUIDs\<close>

lemma hex_digit_byte: "n < 16 \<Longrightarrow> byte_of (digit n) = (if n < 10 then n + 48 else n + 87)"
  by (simp add: digit_def byte_of_char_of)

lemma EncodeHex_chars:
  assumes "c \<in> set (EncodeHex s)"
  shows "c \<noteq> CHR ''-'' \<and> \<not> (65 \<le> byte_of c \<and> byte_of c \<le> 90)"
proof -
  obtain n where "c = digit n" "n < 16"
    using assms by (auto simp: EncodeHex_def hex_byte_def)
  then have "byte_of c = (if n < 10 then n + 48 else n + 87)" "n < 16"
    by (simp_all add: hex_digit_byte)
  moreover have "byte_of (CHR ''-'') = 45" by (simp add: byte_of_def)
  ultimately show ?thesis by (cases "n < 10") auto
qed

lemma filter_EncodeHex: "filter (\<lambda>c. c \<noteq> CHR ''-'') (EncodeHex s) = EncodeHex s"
  using EncodeHex_chars by (auto intro: filter_True)

lemma filter_part:
  assumes "set ys \<subseteq> set (EncodeHex s)"
  shows "filter (\<lambda>c. c \<noteq> CHR ''-'') ys = ys"
  using assms EncodeHex_chars by (auto intro!: filter_True)

lemma formatUUID_filter: "filter (\<lambda>c. c \<noteq> CHR ''-'') (formatUUID g) = EncodeHex g"
proof -
  let ?r = "EncodeHex g"
  have part: "filter (\<lambda>c. c \<noteq> CHR ''-'') (take n (drop m ?r)) = take n (drop m ?r)" for n m
    by (rule filter_part [of _ g]) (meson set_take_subset set_drop_subset subset_trans)
  have "filter (\<lambda>c. c \<noteq> CHR ''-'') (formatUUID g)
      = take 8 ?r @ take 4 (drop 8 ?r) @ take 4 (drop 12 ?r) @ take 4 (drop 16 ?r) @ drop 20 ?r"
    using part [of 8 0] part [of 4 8] part [of 4 12] part [of 4 16] filter_part [of "drop 20 ?r" g]
    by (simp add: formatUUID_def Let_def set_drop_subset)
  also have "\<dots> = ?r"
    using append_take_drop_id [of 4 "drop 16 ?r"] append_take_drop_id [of 4 "drop 12 ?r"]
      append_take_drop_id [of 4 "drop 8 ?r"] append_take_drop_id [of 8 ?r] by simp
  finally show ?thesis .
qed

lemma parseUUID_formatUUID:
  assumes "length g = 16"
  shows "parseUUID (formatUUID g) = Inr g"
proof -
  let ?r = "EncodeHex g"
  have len: "length ?r = 32" using assms by (simp add: length_EncodeHex)
  have up: "\<not> has_upper (formatUUID g)"
    using EncodeHex_chars [of _ g]
    by (auto simp: has_upper_def formatUUID_def Let_def list_ex_iff byte_of_def dest!: in_set_takeD in_set_dropD)
  have pos: "formatUUID g ! 8 = CHR ''-''" "formatUUID g ! 13 = CHR ''-''"
     "formatUUID g ! 18 = CHR ''-''" "formatUUID g ! 23 = CHR ''-''" "length (formatUUID g) = 36"
    using len by (auto simp: formatUUID_def Let_def nth_append)
  show ?thesis
    using up pos assms by (simp add: parseUUID_def formatUUID_filter)
qed

definition uuid_of :: "string \<Rightarrow> string option" where
  "uuid_of s = (case parseUUID s of Inl _ \<Rightarrow> None | Inr g \<Rightarrow> Some g)"

interpretation hex: codec EncodeHex DecodeHex "\<lambda>_. True"
  by unfold_locales simp

interpretation base64: codec EncodeBase64 DecodeBase64 "\<lambda>_. True"
  by unfold_locales simp

interpretation uuid: codec formatUUID uuid_of "\<lambda>g. length g = 16"
  by unfold_locales (simp add: uuid_of_def parseUUID_formatUUID)

text \<open>What the parser accepts is the canonical text of what it returns.\<close>

lemma length_sha_uuid: "length (uuid_version4 i) = length i"
  by (simp add: uuid_version4_def)

text \<open>A generated event id passes the checks that a transaction makes of it: canonical, version 4, RFC variant.\<close>

lemma uuid_version4_bits:
  assumes "length i = 16"
  shows "byte_of (uuid_version4 i ! 6) div 16 = 4" "byte_of (uuid_version4 i ! 8) div 64 = 2"
proof -
  have m: "byte_of (char_of (n mod 16 + 64 :: nat)) = n mod 16 + 64" for n
    by (rule byte_of_char_of) (use mod_less_divisor [of 16 n] in linarith)
  have k: "byte_of (char_of (n mod 64 + 128 :: nat)) = n mod 64 + 128" for n
    by (rule byte_of_char_of) (use mod_less_divisor [of 64 n] in linarith)
  have "(n mod 16 + 64) div 16 = (4::nat)" "(n mod 64 + 128) div 64 = (2::nat)" for n
    by (rule div_nat_eqI; use mod_less_divisor [of 16 n] mod_less_divisor [of 64 n] in simp)+
  then show "byte_of (uuid_version4 i ! 6) div 16 = 4" "byte_of (uuid_version4 i ! 8) div 64 = 2"
    using assms by (simp_all add: uuid_version4_def m k)
qed

lemma deterministicEventID_parses:
  "\<exists>g. parseUUID (deterministicEventID seed tx) = Inr g \<and> length g = 16
       \<and> byte_of (g ! 6) div 16 = 4 \<and> byte_of (g ! 8) div 64 = 2"
  by (auto simp: deterministicEventID_def parseUUID_formatUUID length_sha_uuid length_sha256 uuid_version4_bits)

subsection \<open>Names\<close>

lemma attr_segment_no_slash: "attr_segment s \<Longrightarrow> CHR ''/'' \<notin> set s"
  by (auto simp: attr_segment_def attr_rest_def attr_first_def is_digit_def byte_of_def list_all_iff
      split: list.splits)

lemma attributePattern_iff:
  "attributePattern s \<longleftrightarrow> (\<exists>ns n. s = ns @ CHR ''/'' # n \<and> attr_segment ns \<and> attr_segment n)"
proof
  assume a: "attributePattern s"
  then obtain c r where d: "dropWhile (\<lambda>c. c \<noteq> CHR ''/'') s = c # r"
    and seg: "attr_segment (takeWhile (\<lambda>c. c \<noteq> CHR ''/'') s)" "attr_segment r"
    by (auto simp: attributePattern_def split: list.splits)
  have "c = CHR ''/''" using d by (simp add: dropWhile_eq_Cons_conv)
  then have "s = takeWhile (\<lambda>c. c \<noteq> CHR ''/'') s @ CHR ''/'' # r"
    using d takeWhile_dropWhile_id [of "\<lambda>c. c \<noteq> CHR ''/''" s] by simp
  then show "\<exists>ns n. s = ns @ CHR ''/'' # n \<and> attr_segment ns \<and> attr_segment n" using seg by blast
next
  assume "\<exists>ns n. s = ns @ CHR ''/'' # n \<and> attr_segment ns \<and> attr_segment n"
  then obtain ns n where s: "s = ns @ CHR ''/'' # n" "attr_segment ns" "attr_segment n" by blast
  have t: "takeWhile (\<lambda>c. c \<noteq> CHR ''/'') ns = ns" "dropWhile (\<lambda>c. c \<noteq> CHR ''/'') ns = []"
    using attr_segment_no_slash [OF s(2)] by (auto simp: takeWhile_eq_all_conv dropWhile_eq_Nil_conv)
  show "attributePattern s"
    using s t by (simp add: attributePattern_def takeWhile_tail dropWhile_append)
qed

text \<open>An accepted attribute name has exactly one slash.\<close>

lemma attributePattern_one_slash: "attributePattern s \<Longrightarrow> count_list s (CHR ''/'') = 1"
  using attr_segment_no_slash by (fastforce simp: attributePattern_iff count_list_0_iff)

lemma validateName_ok:
  "validateName name attribute = Inr () \<longleftrightarrow>
     ValidString name \<and> 1 \<le> length name \<and> length name \<le> 512 \<and> \<not> hasControl name
     \<and> (attribute \<longrightarrow> attributePattern name) \<and> (take 7 name = ''fgraph/'' \<longrightarrow> name \<in> set systemNames)"
  by (cases "name = []") (auto simp: validateName_def not_less Suc_le_eq)

subsection \<open>The identity allocator\<close>

text \<open>
  An allocator in use: its pending identities are exactly the consecutive ids from \<open>al_first\<close> up to
  \<open>al_next\<close>, and the counter never leaves the positive 64-bit range.
\<close>

definition alloc_ok :: "allocator \<Rightarrow> bool" where
  "alloc_ok a \<longleftrightarrow>
     FirstUserID \<le> al_first a \<and> al_first a \<le> al_next a \<and> al_next a \<le> MaxInt64
     \<and> map pi_id (al_pending a) = [al_first a .. al_next a - 1]"

lemma newAllocator_ok:
  assumes "newAllocator tb = Inr a" and "case tb_next_id tb of None \<Rightarrow> True | Some n \<Rightarrow> n \<le> MaxInt64"
  shows "alloc_ok a"
  using assms by (auto simp: newAllocator_def alloc_ok_def wrap_def split: option.splits if_splits)

lemma allocate_Inr:
  assumes "allocate kind name a = Inr (i, a')" and "alloc_ok a"
  shows "i = al_next a" "al_next a' = al_next a + 1" "al_first a' = al_first a" "alloc_ok a'"
    "al_ids a' = al_ids a" "al_gids a' = al_gids a"
proof -
  have lt: "al_next a < MaxInt64" and i: "i = al_next a"
    and a': "a' = a\<lparr>al_next := i64_add (al_next a) 1, al_dirty := True,
             al_pending := al_pending a @ [\<lparr>pi_name = name, pi_id = al_next a, pi_kind = kind\<rparr>]\<rparr>"
    using assms by (auto simp: allocate_def alloc_ok_def split: if_splits)
  have add: "i64_add (al_next a) 1 = al_next a + 1"
    using lt assms(2)
    by (intro i64_add_exact) (auto simp: in_int64_def MaxInt64_def MinInt64_def alloc_ok_def FirstUserID_def)
  show "i = al_next a" "al_next a' = al_next a + 1" "al_first a' = al_first a"
    "al_ids a' = al_ids a" "al_gids a' = al_gids a"
    using i a' add by simp_all
  have "[al_first a .. al_next a] = [al_first a .. al_next a - 1] @ [al_next a]"
    using assms(2) by (simp add: alloc_ok_def upto_rec2)
  then show "alloc_ok a'"
    using assms(2) lt unfolding a' alloc_ok_def by (simp add: add)
qed

text \<open>
  The interface of an id source: it returns its counter and moves on by one. Whatever asks it for several ids
  gets consecutive ones.
\<close>

locale id_source =
  fixes alloc :: "'s \<Rightarrow> (int \<times> 's) res"
    and ctr :: "'s \<Rightarrow> int"
    and ok :: "'s \<Rightarrow> bool"
  assumes alloc_id: "ok s \<Longrightarrow> alloc s = Inr (i, s') \<Longrightarrow> i = ctr s"
    and alloc_next: "ok s \<Longrightarrow> alloc s = Inr (i, s') \<Longrightarrow> ctr s' = ctr s + 1"
    and alloc_keeps: "ok s \<Longrightarrow> alloc s = Inr (i, s') \<Longrightarrow> ok s'"
begin

lemma alloc_run:
  assumes "res_maps (\<lambda>_. alloc) xs s = Inr (ids, s')" and "ok s"
  shows "ids = [ctr s .. ctr s + int (length xs) - 1] \<and> ok s' \<and> ctr s' = ctr s + int (length xs)"
  using assms
proof (induction xs arbitrary: s ids)
  case (Cons x xs)
  then obtain i s1 js where 1: "alloc s = Inr (i, s1)" "res_maps (\<lambda>_. alloc) xs s1 = Inr (js, s')" "ids = i # js"
    by (auto simp: res_iff)
  have "js = [ctr s1 .. ctr s1 + int (length xs) - 1] \<and> ok s' \<and> ctr s' = ctr s1 + int (length xs)"
    using Cons.IH [OF 1(2)] alloc_keeps [OF Cons.prems(2) 1(1)] .
  then show ?case
    using alloc_id [OF Cons.prems(2) 1(1)] alloc_next [OF Cons.prems(2) 1(1)] 1(3)
    by (simp add: upto_rec1 algebra_simps)
qed simp

lemma alloc_run_distinct:
  "res_maps (\<lambda>_. alloc) xs s = Inr (ids, s') \<Longrightarrow> ok s \<Longrightarrow> distinct ids"
  by (drule (1) alloc_run) simp

end

interpretation anon: id_source anonymous al_next alloc_ok
  by unfold_locales (auto simp: anonymous_def dest: allocate_Inr)

interpretation events: id_source alloc_tx al_next alloc_ok
  by unfold_locales (auto simp: alloc_tx_def dest: allocate_Inr)

lemma allocate_total: "alloc_ok a \<Longrightarrow> al_next a < MaxInt64 \<Longrightarrow> \<exists>a'. allocate kind name a = Inr (al_next a, a')"
  by (simp add: allocate_def)

lemma allocate_exhausted: "al_next a = MaxInt64 \<Longrightarrow> allocate kind name a = fail ErrTooLarge"
  by (simp add: allocate_def)

text \<open>Resolving a name twice in a transaction gives one id, and looking it up creates nothing.\<close>

lemma alloc_name_stable:
  assumes "alloc_name s name attribute create a = Inr (Some i, a')" "validateName name attribute' = Inr ()"
  shows "alloc_name s name attribute' create' a' = Inr (Some i, a')"
proof -
  have v: "validateName name attribute = Inr ()" using assms(1) by (auto simp: alloc_name_def res_iff)
  show ?thesis
    using assms v
    by (auto simp: alloc_name_def res_iff update_conv' split: option.splits if_splits prod.splits)
qed

lemma alloc_name_lookup_pure:
  "alloc_name s name attribute False a = Inr (r, a') \<Longrightarrow> a' = a"
  by (auto simp: alloc_name_def res_iff split: option.splits)

lemma alloc_name_cases:
  assumes "alloc_name s name attribute create a = Inr (r, a')"
  obtains (known) i where "a' = a" "r = Some i"
  | (unknown) "a' = a" "r = None" "\<not> create" "find_name name (st_tables s) = None" "map_of (al_ids a) name = None"
  | (created) i a1 where "create" "allocate IdentityNamed name a = Inr (i, a1)" "r = Some i"
      "a' = a1\<lparr>al_ids := AList.update name i (al_ids a1)\<rparr>" "find_name name (st_tables s) = None"
      "map_of (al_ids a) name = None"
  using assms by (auto simp: alloc_name_def res_iff split: option.splits if_splits dest: sym)

lemma alloc_name_create_found:
  "alloc_name s name attribute True a = Inr (r, a') \<Longrightarrow> \<exists>i. r = Some i"
  by (erule alloc_name_cases) auto

lemma alloc_ok_ids [simp]: "alloc_ok (a\<lparr>al_ids := m\<rparr>) = alloc_ok a"
  by (simp add: alloc_ok_def)

lemma alloc_name_ok:
  assumes "alloc_name s name attribute create a = Inr (r, a')" "alloc_ok a"
  shows "alloc_ok a'" "al_first a' = al_first a" "al_next a \<le> al_next a'"
  using assms(1) by (cases rule: alloc_name_cases; use assms(2) allocate_Inr in force)+

subsection \<open>Properties\<close>

text \<open>
  The canonical text of a 16-byte identity, as events, snapshots and selectors write it, parses back
  to that identity.
\<close>

theorem uuid_roundtrip: "length g = 16 \<Longrightarrow> parseUUID (formatUUID g) = Inr g"
  by (rule parseUUID_formatUUID)

theorem uuid_roundtrip_witness:
  "length (replicate 16 (CHR ''x'')) = 16
   \<and> parseUUID (formatUUID (replicate 16 (CHR ''x''))) = Inr (replicate 16 (CHR ''x''))"
  using uuid_roundtrip [of "replicate 16 (CHR ''x'')"] by simp

text \<open>
  Under an event seed the event id of a transaction is determined by the seed and the transaction, and it passes
  the checks that a commit makes of it: canonical text, sixteen bytes, version 4, RFC variant.
\<close>

theorem seeded_event_id_is_valid:
  "\<exists>g. parseUUID (deterministicEventID seed tx) = Inr g \<and> length g = 16
       \<and> byte_of (g ! 6) div 16 = 4 \<and> byte_of (g ! 8) div 64 = 2"
  by (rule deterministicEventID_parses)

text \<open>
  Which names are accepted: valid UTF-8 of 1 to 512 bytes without control characters, of the form
  \<^verbatim>\<open>namespace/name\<close> for an attribute, and under \<^verbatim>\<open>fgraph/\<close> only the system names.
\<close>

theorem accepted_names:
  "validateName name attribute = Inr () \<longleftrightarrow>
     ValidString name \<and> 1 \<le> length name \<and> length name \<le> 512 \<and> \<not> hasControl name
     \<and> (\<not> attribute \<or> (\<exists>ns n. name = ns @ CHR ''/'' # n \<and> attr_segment ns \<and> attr_segment n))
     \<and> (take 7 name \<noteq> ''fgraph/'' \<or> name \<in> set systemNames)"
  using validateName_ok attributePattern_iff by blast

theorem accepted_names_witness: "validateName ''a/b'' True = Inr ()"
proof -
  have ok: "ValidString ''a/b''" "\<not> hasControl ''a/b''" and seg: "attr_segment ''a''" "attr_segment ''b''"
    by (simp_all add: ValidString_def runes_def hasControl_def IsControl_def byte_of_def attr_segment_def attr_first_def attr_rest_def is_digit_def)
  have "\<exists>ns n. ''a/b'' = ns @ CHR ''/'' # n \<and> attr_segment ns \<and> attr_segment n"
    by (rule exI [of _ "''a''"], rule exI [of _ "''b''"]) (simp add: seg)
  then have attr: "\<not> True \<or> (\<exists>ns n. ''a/b'' = ns @ CHR ''/'' # n \<and> attr_segment ns \<and> attr_segment n)" by (rule disjI2)
  show ?thesis unfolding accepted_names by (intro conjI ok attr) simp_all
qed

text \<open>
  Within a transaction a name resolves to one id: once it was looked up or created, every later request
  for it, under whatever rule, returns the same id and allocates nothing.
\<close>

theorem name_resolution_is_stable:
  assumes "alloc_name s name attribute create a = Inr (Some i, a')" "validateName name attribute' = Inr ()"
  shows "alloc_name s name attribute' create' a' = Inr (Some i, a')"
  using assms by (rule alloc_name_stable)

theorem name_resolution_is_stable_witness:
  "\<exists>a'. alloc_name \<lparr>st_tables = empty_tables 0, st_names = [], st_idNames = [], st_gids = [], st_dataVersion = 0,
       st_version = 0, st_readOnly = False, st_closed = False\<rparr> ''x/y'' True False a' = Inr (Some 65, a')"
proof -
  let ?s = "\<lparr>st_tables = empty_tables 0, st_names = [], st_idNames = [], st_gids = [], st_dataVersion = 0,
       st_version = 0, st_readOnly = False, st_closed = False\<rparr>"
  let ?a = "\<lparr>al_ids = [], al_gids = [], al_pending = [], al_first = 65, al_next = 65, al_dirty = False\<rparr>"
  have v: "validateName ''x/y'' True = Inr ()"
    by (simp add: validateName_def attributePattern_def ValidString_def runes_def hasControl_def IsControl_def byte_of_def
        attr_segment_def attr_first_def attr_rest_def is_digit_def)
  then have "\<exists>a'. alloc_name ?s ''x/y'' True True ?a = Inr (Some 65, a')"
    by (simp add: alloc_name_def empty_tables_def find_name_def allocate_def MaxInt64_def)
  then show ?thesis using name_resolution_is_stable v by blast
qed

text \<open>
  Anonymous entities get consecutive fresh ids: \<open>n\<close> allocations in a row return the next \<open>n\<close> ids in order,
  and the allocator stays within the 64-bit range.
\<close>

theorem anonymous_ids_are_consecutive:
  assumes "res_maps (\<lambda>_. anonymous) xs a = Inr (ids, a')" "alloc_ok a"
  shows "ids = [al_next a .. al_next a + int (length xs) - 1] \<and> distinct ids \<and> alloc_ok a'"
  using anon.alloc_run [OF assms] anon.alloc_run_distinct [OF assms] by simp

theorem anonymous_ids_are_consecutive_witness:
  "\<exists>a'. res_maps (\<lambda>_. anonymous) [(), ()] \<lparr>al_ids = [], al_gids = [], al_pending = [], al_first = 65, al_next = 65, al_dirty = False\<rparr>
     = Inr ([65, 66], a') \<and> alloc_ok a'"
proof -
  let ?a = "\<lparr>al_ids = [], al_gids = [], al_pending = [], al_first = 65, al_next = 65, al_dirty = False\<rparr>"
  have run: "\<exists>a'. res_maps (\<lambda>_. anonymous) [(), ()] ?a = Inr ([65, 66], a')"
    by (simp add: anonymous_def allocate_def MaxInt64_def i64_add_def i64_wrap_def)
  have "alloc_ok ?a" by (simp add: alloc_ok_def FirstUserID_def MaxInt64_def)
  then show ?thesis using run anonymous_ids_are_consecutive by blast
qed

text \<open>
  The allocator never wraps: at the largest 64-bit id it refuses with the size error.
\<close>

theorem exhausted_allocator_refuses: "al_next a = MaxInt64 \<Longrightarrow> allocate kind name a = fail ErrTooLarge"
  by (rule allocate_exhausted)

theorem exhausted_allocator_refuses_witness:
  "allocate IdentityEvent [] \<lparr>al_ids = [], al_gids = [], al_pending = [], al_first = 65, al_next = MaxInt64, al_dirty = False\<rparr> = fail ErrTooLarge"
  by (rule exhausted_allocator_refuses) simp

end
