(* ===== verification/TableFacts.thy ===== *)
theory TableFacts
  imports Reads StoreFacts
begin

text \<open>
  The invariant of the tables and the effect of each SQL statement of the transactor on it: identities,
  facts with their live index, the full-text index, and content-addressed blobs.
\<close>

subsection \<open>Comparing stored columns\<close>

lemma sql_eq_sym: "sql_eq x y = sql_eq y x"
  by (cases x; cases y) (auto simp: f64_eq_sym)

lemma sql_eq_blob [simp]: "sql_eq (SBlob h) v \<longleftrightarrow> v = SBlob h" "sql_eq v (SBlob h) \<longleftrightarrow> v = SBlob h"
  by (cases v; auto)+

lemma sql_eq_text [simp]: "sql_eq (SText h) v \<longleftrightarrow> v = SText h" "sql_eq v (SText h) \<longleftrightarrow> v = SText h"
  by (cases v; auto)+

subsection \<open>The invariant\<close>

text \<open>Two rows that the live unique index \<^verbatim>\<open>fgraph_eavt\<close> does not allow together.\<close>

definition clash :: "rawFact \<Rightarrow> rawFact \<Rightarrow> bool" where
  "clash f g \<longleftrightarrow> live f \<and> live g \<and> rf_e f = rf_e g \<and> rf_a f = rf_a g \<and> rf_t f = rf_t g \<and> sql_eq (rf_v f) (rf_v g)"

definition ids_ok :: "tables \<Rightarrow> bool" where
  "ids_ok tb \<longleftrightarrow>
     distinct (map id_id (tb_ids tb))
     \<and> distinct (filter (\<lambda>n. n \<noteq> None) (map id_name (tb_ids tb)))
     \<and> distinct (filter (\<lambda>n. n \<noteq> None) (map id_gid (tb_ids tb)))
     \<and> (\<forall>r \<in> set (tb_ids tb). id_row_ok r)"

definition facts_ok :: "tables \<Rightarrow> bool" where
  "facts_ok tb \<longleftrightarrow>
     sorted_wrt (\<lambda>f g. rf_id f < rf_id g) (tb_facts tb)
     \<and> sorted_wrt (\<lambda>f g. \<not> clash f g) (tb_facts tb)
     \<and> (\<forall>f \<in> set (tb_facts tb). rf_id f \<le> tb_seq tb \<and> \<not> sql_null (rf_v f)
          \<and> (case rf_rx f of None \<Rightarrow> True | Some rx \<Rightarrow> rf_tx f < rx))"

text \<open>
  The full-text index has a row for exactly the live facts of a text tag, and the row of an inline text
  holds that text.
\<close>

definition text_tag :: "tag \<Rightarrow> bool" where
  "text_tag t \<longleftrightarrow> t = TagText \<or> t = TagTextRef"

definition live_set :: "tables \<Rightarrow> rawFact set" where
  "live_set tb = {f \<in> set (tb_facts tb). live f}"

definition fts_ok :: "tables \<Rightarrow> bool" where
  "fts_ok tb \<longleftrightarrow>
     distinct (map fst (tb_fts tb))
     \<and> fst ` set (tb_fts tb) = rf_id ` {f \<in> live_set tb. text_tag (rf_t f)}
     \<and> (\<forall>f \<in> live_set tb. \<forall>s. rf_t f = TagText \<longrightarrow> (rf_id f, s) \<in> set (tb_fts tb) \<longrightarrow> rf_v f = SText s)"

definition blob_keys :: "tables \<Rightarrow> string set" where
  "blob_keys tb = fst ` set (tb_blobs tb)"

lemma blob_keys_cong: "tb_blobs tb = tb_blobs tb' \<Longrightarrow> blob_keys tb = blob_keys tb'"
  by (simp add: blob_keys_def)

definition refers :: "string \<Rightarrow> rawFact \<Rightarrow> bool" where
  "refers h f \<longleftrightarrow> indirect_tag (rf_t f) \<and> rf_v f = SBlob h"

text \<open>No indirect fact without its blob, and no blob without a fact, but for the keys \<open>C\<close>.\<close>

definition blobs_ok :: "string set \<Rightarrow> tables \<Rightarrow> bool" where
  "blobs_ok C tb \<longleftrightarrow>
     distinct (map fst (tb_blobs tb))
     \<and> (\<forall>f \<in> set (tb_facts tb). indirect_tag (rf_t f) \<longrightarrow> (\<exists>h \<in> blob_keys tb. rf_v f = SBlob h))
     \<and> (\<forall>h \<in> blob_keys tb. h \<in> C \<or> (\<exists>f \<in> set (tb_facts tb). refers h f))"

definition events_ok :: "tables \<Rightarrow> bool" where
  "events_ok tb \<longleftrightarrow>
     distinct (map ev_tx (tb_events tb))
     \<and> distinct (filter (\<lambda>n. n \<noteq> None) (map ev_op (tb_events tb)))
     \<and> (\<forall>r \<in> set (tb_events tb). event_row_ok r)"

definition content_ok :: "string set \<Rightarrow> tables \<Rightarrow> bool" where
  "content_ok C tb \<longleftrightarrow> facts_ok tb \<and> fts_ok tb \<and> blobs_ok C tb"

text \<open>Every identity and event is below the counter from which ids are taken.\<close>

definition below :: "int \<Rightarrow> tables \<Rightarrow> bool" where
  "below n tb \<longleftrightarrow> (\<forall>r \<in> set (tb_ids tb). id_id r < n) \<and> (\<forall>r \<in> set (tb_events tb). ev_tx r < n)"

definition counter_ok :: "tables \<Rightarrow> bool" where
  "counter_ok tb \<longleftrightarrow>
     (case tb_next_id tb of None \<Rightarrow> False | Some n \<Rightarrow> FirstUserID \<le> n \<and> n \<le> MaxInt64 \<and> below n tb)"

text \<open>The transactions that asserted or retracted a row are in \<open>S\<close>.\<close>

definition txs_in :: "int set \<Rightarrow> tables \<Rightarrow> bool" where
  "txs_in S tb \<longleftrightarrow>
     (\<forall>f \<in> set (tb_facts tb). rf_tx f \<in> S \<and> (case rf_rx f of None \<Rightarrow> True | Some rx \<Rightarrow> rx \<in> S))"

definition recorded :: "tables \<Rightarrow> int set" where
  "recorded tb = ev_tx ` set (tb_events tb)"

definition tables_ok :: "tables \<Rightarrow> bool" where
  "tables_ok tb \<longleftrightarrow>
     ids_ok tb \<and> events_ok tb \<and> counter_ok tb \<and> content_ok {} tb \<and> txs_in (recorded tb) tb"

subsection \<open>Rows by id\<close>

lemma facts_ok_distinct: "facts_ok tb \<Longrightarrow> distinct (map rf_id (tb_facts tb))"
  using strict_sorted_iff [of "map rf_id (tb_facts tb)"] by (simp add: facts_ok_def sorted_wrt_map)

lemma facts_ok_id_inj:
  assumes "facts_ok tb" "f \<in> set (tb_facts tb)" "g \<in> set (tb_facts tb)" "rf_id f = rf_id g"
  shows "f = g"
  using facts_ok_distinct [OF assms(1)] assms(2-4) by (meson distinct_map inj_on_def)

lemma facts_ok_no_clash:
  assumes "facts_ok tb" "f \<in> set (tb_facts tb)" "g \<in> set (tb_facts tb)" "clash f g"
  shows "f = g"
proof -
  have sym: "clash f g = clash g f" for f g by (auto simp: clash_def sql_eq_sym)
  have "sorted_wrt (\<lambda>f g. \<not> clash f g) (tb_facts tb)" using assms(1) by (simp add: facts_ok_def)
  then show ?thesis
    using assms(2-4) by (metis in_set_conv_nth linorder_neqE_nat sorted_wrt_iff_nth_less sym)
qed

subsection \<open>Insertions\<close>

lemma insert_id_ok: "ids_ok tb \<Longrightarrow> insert_id r tb = Inr tb' \<Longrightarrow> ids_ok tb'"
  by (auto simp: ids_ok_def insert_id_def split: if_splits)

interpretation ids: kept_by insert_id ids_ok
  by unfold_locales (rule insert_id_ok)

lemma insert_event_ok: "events_ok tb \<Longrightarrow> insert_event r tb = Inr tb' \<Longrightarrow> events_ok tb'"
  by (auto simp: events_ok_def insert_event_def split: if_splits)

text \<open>What a value must satisfy to be stored: the blob of an indirect value, the text of a text value.\<close>

definition storable :: "storedValue \<Rightarrow> bool" where
  "storable v \<longleftrightarrow>
     sv_storage v \<noteq> SNull
     \<and> (if indirect_tag (sv_tag v)
        then sv_storage v = SBlob (sv_hash v)
             \<and> (case sv_blob v of None \<Rightarrow> False | Some b \<Rightarrow> validIndirectBlob (sv_tag v) (SBlob (sv_hash v)) b)
        else sv_blob v = None)
     \<and> (sv_tag v = TagText \<longrightarrow> (\<exists>s. sv_logical v = AStr s \<and> sv_storage v = SText s))
     \<and> (sv_tag v = TagTextRef \<longrightarrow> (\<exists>s. sv_logical v = AStr s \<and> sv_blob v = Some (SText s)))"

lemma insert_fact_row_Inr:
  assumes "insert_fact_row e a v t tx tb = Inr (i, tb')"
  shows "i = tb_seq tb + 1" "\<not> sql_null v"
    "tb' = tb\<lparr>tb_facts := tb_facts tb @
       [\<lparr>rf_id = i, rf_e = e, rf_a = a, rf_v = v, rf_t = t, rf_tx = tx, rf_rx = None\<rparr>], tb_seq := i\<rparr>"
    "\<And>f. f \<in> set (tb_facts tb) \<Longrightarrow> live f \<Longrightarrow> rf_e f = e \<Longrightarrow> rf_a f = a \<Longrightarrow> rf_t f = t \<Longrightarrow> \<not> sql_eq (rf_v f) v"
  using assms by (auto simp: insert_fact_row_def Let_def list_ex_iff split: if_splits)

lemma insert_fact_row_ok:
  assumes "insert_fact_row e a v t tx tb = Inr (i, tb')" "facts_ok tb"
  shows "facts_ok tb'"
  using assms(2) insert_fact_row_Inr [OF assms(1)]
  by (auto simp: facts_ok_def sorted_wrt_append clash_def)

lemma insert_blob_fields [simp]:
  "tb_facts (insert_blob h d tb) = tb_facts tb" "tb_fts (insert_blob h d tb) = tb_fts tb"
  "tb_seq (insert_blob h d tb) = tb_seq tb" "tb_ids (insert_blob h d tb) = tb_ids tb"
  "tb_events (insert_blob h d tb) = tb_events tb" "tb_next_id (insert_blob h d tb) = tb_next_id tb"
  "tb_created_at (insert_blob h d tb) = tb_created_at tb"
  by (simp_all add: insert_blob_def)

lemma insert_blob_map_of:
  "map_of (tb_blobs (insert_blob h d tb)) k =
    (case map_of (tb_blobs tb) k of Some x \<Rightarrow> Some x | None \<Rightarrow> if k = h then Some d else None)"
proof (cases "h \<in> set (map fst (tb_blobs tb))")
  case True
  then have "map_of (tb_blobs tb) h \<noteq> None" by (auto simp: map_of_eq_None_iff)
  then show ?thesis using True by (auto simp: insert_blob_def split: option.splits)
next
  case False
  then show ?thesis by (auto simp: insert_blob_def map_add_def split: option.splits)
qed

lemma insert_blob_keys [simp]: "blob_keys (insert_blob h d tb) = insert h (blob_keys tb)"
  by (auto simp: insert_blob_def blob_keys_def)

lemma insert_blob_distinct:
  "distinct (map fst (tb_blobs tb)) \<Longrightarrow> distinct (map fst (tb_blobs (insert_blob h d tb)))"
  by (auto simp: insert_blob_def)

lemma blobs_ok_insert:
  assumes "insert_fact_row e a v t tx tb = Inr (i, tb')" "blobs_ok C tb"
    and "indirect_tag t \<Longrightarrow> \<exists>h \<in> blob_keys tb. v = SBlob h"
  shows "blobs_ok C tb'"
  using assms(2,3) insert_fact_row_Inr(3) [OF assms(1)]
  by (auto simp: blobs_ok_def cong: blob_keys_cong)

lemma blobs_ok_insert_blob: "blobs_ok C tb \<Longrightarrow> blobs_ok (insert h C) (insert_blob h d tb)"
  by (auto simp: blobs_ok_def insert_blob_distinct)

text \<open>The row just inserted refers to the blob it came with, so nothing is left over.\<close>

lemma blobs_ok_discharge:
  "blobs_ok (insert h C) tb \<Longrightarrow> f \<in> set (tb_facts tb) \<Longrightarrow> refers h f \<Longrightarrow> blobs_ok C tb"
  by (fastforce simp: blobs_ok_def)

lemma insert_fts_Inr:
  assumes "insert_fts i s tb = Inr tb'"
  shows "tb' = tb\<lparr>tb_fts := tb_fts tb @ [(i, s)]\<rparr>" "i \<notin> fst ` set (tb_fts tb)"
  using assms by (auto simp: insert_fts_def split: if_splits)

subsection \<open>Retractions\<close>

lemma delete_fact_fields [simp]:
  "tb_fts (delete_fact i tb) = tb_fts tb" "tb_blobs (delete_fact i tb) = tb_blobs tb"
  "tb_ids (delete_fact i tb) = tb_ids tb" "tb_events (delete_fact i tb) = tb_events tb"
  "tb_seq (delete_fact i tb) = tb_seq tb" "tb_next_id (delete_fact i tb) = tb_next_id tb"
  "tb_facts (delete_fact i tb) = filter (\<lambda>f. rf_id f \<noteq> i) (tb_facts tb)"
  by (simp_all add: delete_fact_def)

definition close_row :: "int \<Rightarrow> int \<Rightarrow> rawFact \<Rightarrow> rawFact" where
  "close_row tx i f = (if rf_id f = i \<and> live f then f\<lparr>rf_rx := Some tx\<rparr> else f)"

lemma close_row_fields [simp]:
  "rf_id (close_row tx i f) = rf_id f" "rf_e (close_row tx i f) = rf_e f" "rf_a (close_row tx i f) = rf_a f"
  "rf_v (close_row tx i f) = rf_v f" "rf_t (close_row tx i f) = rf_t f" "rf_tx (close_row tx i f) = rf_tx f"
  "live (close_row tx i f) \<longleftrightarrow> live f \<and> rf_id f \<noteq> i"
  by (auto simp: close_row_def live_def)

lemma retract_fact_Inr:
  assumes "retract_fact tx i tb = Inr tb'"
  shows "tb' = tb\<lparr>tb_facts := map (close_row tx i) (tb_facts tb)\<rparr>"
    "\<And>f. f \<in> set (tb_facts tb) \<Longrightarrow> rf_id f = i \<Longrightarrow> live f \<Longrightarrow> rf_tx f < tx"
  using assms by (auto simp: retract_fact_def close_row_def list_all_iff split: if_splits)

lemma facts_ok_delete: "facts_ok tb \<Longrightarrow> facts_ok (delete_fact i tb)"
  by (auto simp: facts_ok_def intro: sorted_wrt_filter)

lemma facts_ok_retract:
  assumes "facts_ok tb" "retract_fact tx i tb = Inr tb'"
  shows "facts_ok tb'"
proof -
  have rx: "case rf_rx (close_row tx i f) of None \<Rightarrow> True | Some rx \<Rightarrow> rf_tx (close_row tx i f) < rx"
    if "f \<in> set (tb_facts tb)" for f
    using assms(1) that retract_fact_Inr(2) [OF assms(2)]
    by (auto simp: facts_ok_def close_row_def split: option.splits)
  have "sorted_wrt (\<lambda>f g. \<not> clash (close_row tx i f) (close_row tx i g)) (tb_facts tb)"
    using assms(1) unfolding facts_ok_def
    by (auto intro: sorted_wrt_mono_rel [rotated] simp: clash_def)
  then show ?thesis
    using assms(1) rx unfolding retract_fact_Inr(1) [OF assms(2)]
    by (auto simp: facts_ok_def sorted_wrt_map)
qed

text \<open>Both ways of retracting a row take exactly that row out of the live set.\<close>

lemma live_set_delete:
  "facts_ok tb \<Longrightarrow> f \<in> set (tb_facts tb) \<Longrightarrow> live_set (delete_fact (rf_id f) tb) = live_set tb - {f}"
  by (auto simp: live_set_def dest: facts_ok_id_inj)

lemma live_set_retract:
  assumes "facts_ok tb" "f \<in> set (tb_facts tb)" "retract_fact tx (rf_id f) tb = Inr tb'"
  shows "live_set tb' = live_set tb - {f}"
proof -
  have same: "close_row tx (rf_id f) g = g" if "rf_id g \<noteq> rf_id f" for g
    using that by (simp add: close_row_def)
  have "live_set tb' = close_row tx (rf_id f) ` {g \<in> set (tb_facts tb). live g \<and> rf_id g \<noteq> rf_id f}"
    unfolding retract_fact_Inr(1) [OF assms(3)] live_set_def by (simp add: image_iff) force
  also have "\<dots> = {g \<in> set (tb_facts tb). live g \<and> rf_id g \<noteq> rf_id f}"
    by (rule trans [OF image_cong [OF refl]]) (auto simp: same)
  also have "\<dots> = live_set tb - {f}"
    using facts_ok_id_inj [OF assms(1) _ assms(2)] by (auto simp: live_set_def)
  finally show ?thesis .
qed

lemma fts_ok_remove:
  assumes "facts_ok tb" "fts_ok tb" "f \<in> live_set tb"
    and "live_set tb' = live_set tb - {f}" "tb_fts tb' = tb_fts tb"
  shows "fts_ok (if text_tag (rf_t f) then delete_fts (rf_id f) tb' else tb')"
proof -
  have inj: "rf_id g = rf_id f \<longleftrightarrow> g = f" if "g \<in> live_set tb" for g
    using that assms(1,3) by (auto simp: live_set_def dest: facts_ok_id_inj)
  have keys: "fst ` set (tb_fts tb) = rf_id ` {f \<in> live_set tb. text_tag (rf_t f)}"
    and dist: "distinct (map fst (tb_fts tb))"
    and texts: "\<forall>f \<in> live_set tb. \<forall>s. rf_t f = TagText \<longrightarrow> (rf_id f, s) \<in> set (tb_fts tb) \<longrightarrow> rf_v f = SText s"
    using assms(2) by (auto simp: fts_ok_def)
  show ?thesis
  proof (cases "text_tag (rf_t f)")
    case True
    have l: "live_set (delete_fts (rf_id f) tb') = live_set tb - {f}"
      using assms(4) by (simp add: live_set_def delete_fts_def)
    have f: "tb_fts (delete_fts (rf_id f) tb') = filter (\<lambda>x. fst x \<noteq> rf_id f) (tb_fts tb)"
      using assms(5) by (simp add: delete_fts_def case_prod_unfold)
    have "fst ` set (filter (\<lambda>x. fst x \<noteq> rf_id f) (tb_fts tb)) = fst ` set (tb_fts tb) - {rf_id f}"
      by (auto simp: image_iff)
    also have "\<dots> = rf_id ` {g \<in> live_set tb - {f}. text_tag (rf_t g)}"
      unfolding keys using inj by auto
    finally show ?thesis
      using True dist texts l f by (auto simp: fts_ok_def distinct_map_filter)
  next
    case False
    have "{g \<in> live_set tb. text_tag (rf_t g)} = {g \<in> live_set tb - {f}. text_tag (rf_t g)}" using False by auto
    then show ?thesis using False assms(4,5) keys dist texts by (simp add: fts_ok_def)
  qed
qed

lemma blobs_ok_delete:
  assumes "blobs_ok C tb" "facts_ok tb" "f \<in> set (tb_facts tb)"
  shows "blobs_ok (C \<union> {h. refers h f}) (delete_fact (rf_id f) tb)"
proof -
  have "h \<in> C \<or> refers h f \<or> (\<exists>g \<in> set (tb_facts tb). rf_id g \<noteq> rf_id f \<and> refers h g)"
    if "h \<in> blob_keys tb" for h
    using assms(1) that facts_ok_id_inj [OF assms(2) _ assms(3)] by (metis blobs_ok_def)
  then show ?thesis
    using assms(1) by (auto simp: blobs_ok_def cong: blob_keys_cong)
qed

lemma blobs_ok_retract:
  assumes "blobs_ok C tb" "retract_fact tx i tb = Inr tb'"
  shows "blobs_ok C tb'"
  using assms(1) unfolding retract_fact_Inr(1) [OF assms(2)]
  by (auto simp: blobs_ok_def refers_def blob_keys_def)

lemma blobs_ok_fts [simp]: "blobs_ok C (delete_fts i tb) = blobs_ok C tb"
  by (simp add: blobs_ok_def delete_fts_def blob_keys_def)

lemma facts_ok_fts [simp]: "facts_ok (delete_fts i tb) = facts_ok tb"
  by (simp add: facts_ok_def delete_fts_def)

lemma live_set_fts [simp]: "live_set (delete_fts i tb) = live_set tb"
  by (simp add: live_set_def delete_fts_def)

subsection \<open>Garbage collection\<close>

lemma gc_blob_fields [simp]:
  "tb_facts (gc_blob h tb) = tb_facts tb" "tb_fts (gc_blob h tb) = tb_fts tb" "tb_ids (gc_blob h tb) = tb_ids tb"
  "tb_events (gc_blob h tb) = tb_events tb" "tb_seq (gc_blob h tb) = tb_seq tb"
  "tb_next_id (gc_blob h tb) = tb_next_id tb"
  by (simp_all add: gc_blob_def)

lemma gc_blob_keys:
  "blob_keys (gc_blob h tb) = (if \<exists>f \<in> set (tb_facts tb). refers h f then blob_keys tb else blob_keys tb - {h})"
  by (auto simp: gc_blob_def blob_keys_def refers_def list_ex_iff image_iff)

lemma gc_blob_distinct:
  "distinct (map fst (tb_blobs tb)) \<Longrightarrow> distinct (map fst (tb_blobs (gc_blob h tb)))"
  by (simp add: gc_blob_def distinct_map_filter)

lemma blobs_ok_gc: "blobs_ok C tb \<Longrightarrow> blobs_ok (C - {h}) (gc_blob h tb)"
  by (auto simp: blobs_ok_def gc_blob_keys refers_def gc_blob_distinct) (metis DiffI empty_iff insert_iff)

lemma blobs_ok_gc_all: "blobs_ok C tb \<Longrightarrow> blobs_ok (C - set hs) (fold gc_blob hs tb)"
proof (induction hs arbitrary: C tb)
  case (Cons h hs)
  have "blobs_ok (C - {h} - set hs) (fold gc_blob hs (gc_blob h tb))"
    by (rule Cons.IH) (rule blobs_ok_gc [OF Cons.prems])
  moreover have "C - {h} - set hs = C - set (h # hs)" by auto
  ultimately show ?case by simp
qed simp

lemma gc_all_fields [simp]:
  "tb_facts (fold gc_blob hs tb) = tb_facts tb" "tb_fts (fold gc_blob hs tb) = tb_fts tb"
  "tb_ids (fold gc_blob hs tb) = tb_ids tb" "tb_events (fold gc_blob hs tb) = tb_events tb"
  "tb_seq (fold gc_blob hs tb) = tb_seq tb" "tb_next_id (fold gc_blob hs tb) = tb_next_id tb"
  by (induction hs arbitrary: tb) simp_all

end
