(* ===== verification/ValueFacts.thy ===== *)
theory ValueFacts
  imports TableFacts
begin

text \<open>
  Facts about values: what the conversion of an input stores can always be stored, and reading it back gives
  the logical value again.
\<close>

lemma length_indirectDigest [simp]: "length (indirectDigest t data) = 32"
  by (simp add: indirectDigest_def length_sha256)

lemma length_le_bytes [simp]: "length (le_bytes w) = 4"
  by (simp add: le_bytes_def)

lemma length_vector_data [simp]: "length (concat (map le_bytes v)) = 4 * length v"
  by (induction v) simp_all

lemma le_word:
  fixes w :: nat
  assumes "w < 4294967296"
  shows "w mod 256 + 256 * (w div 256 mod 256) + 65536 * (w div 65536 mod 256) + 16777216 * (w div 16777216 mod 256) = w"
proof -
  have "w mod 256 + 256 * (w div 256) = w" by (rule mod_mult_div_eq)
  moreover have "w div 256 mod 256 + 256 * (w div 65536) = w div 256"
    using mod_mult_div_eq [of "w div 256" 256] by (simp add: div_mult2_eq [symmetric])
  moreover have "w div 65536 mod 256 + 256 * (w div 16777216) = w div 65536"
    using mod_mult_div_eq [of "w div 65536" 256] by (simp add: div_mult2_eq [symmetric])
  moreover have "w div 16777216 mod 256 = w div 16777216"
    using assms by (simp add: less_mult_imp_div_less)
  ultimately show ?thesis by linarith
qed

lemma byte_of_mod: "byte_of (char_of (n mod 256 :: nat)) = n mod 256"
  by (rule byte_of_char_of) simp

lemma le_floats_le_bytes:
  "\<forall>w \<in> set v. w < 4294967296 \<Longrightarrow> le_floats (concat (map le_bytes v)) = v"
proof (induction v)
  case (Cons w v)
  have "byte_of (char_of (w mod 256)) + 256 * byte_of (char_of (w div 256 mod 256))
      + 65536 * byte_of (char_of (w div 65536 mod 256)) + 16777216 * byte_of (char_of (w div 16777216 mod 256)) = w"
    using Cons.prems by (simp only: byte_of_mod le_word list.set_intros)
  then show ?case using Cons by (simp add: le_bytes_def)
qed simp

subsection \<open>What a conversion stores\<close>

lemma stored_fields [simp]:
  "sv_logical (stored l s t) = l" "sv_storage (stored l s t) = s" "sv_tag (stored l s t) = t"
  "sv_blob (stored l s t) = None"
  by (simp_all add: stored_def)

lemma indirect_fields [simp]:
  "sv_logical (indirect l h t b) = l" "sv_storage (indirect l h t b) = SBlob h" "sv_tag (indirect l h t b) = t"
  "sv_blob (indirect l h t b) = Some b" "sv_hash (indirect l h t b) = h"
  by (simp_all add: indirect_def)

text \<open>
  \<open>reads_back v l\<close>: with its blob in place, the stored columns of \<open>v\<close> have the logical value \<open>l\<close>.
\<close>

definition reads_back :: "storedValue \<Rightarrow> any \<Rightarrow> bool" where
  "reads_back v l \<longleftrightarrow>
     (\<forall>tb. (\<forall>b. sv_blob v = Some b \<longrightarrow> map_of (tb_blobs tb) (sv_hash v) = Some b)
        \<longrightarrow> logicalValue tb (sv_storage v) (sv_tag v) = Inr l)"

lemma textStored_ok:
  "textStored s = Inr v \<Longrightarrow> storable v \<and> text_tag (sv_tag v) \<and> sv_logical v = AStr s \<and> reads_back v (AStr s)"
  by (auto simp: textStored_def storable_def indirect_tag_def text_tag_def validIndirectBlob_def reads_back_def
      logicalValue_def logicalIndirectValue_def split: if_splits)

lemma bytesStored_ok:
  "bytesStored s = Inr v \<Longrightarrow>
     storable v \<and> sv_tag v \<in> {TagBytes, TagBytesRef} \<and> sv_logical v = AByteSlice s \<and> reads_back v (AByteSlice s)"
  by (auto simp: bytesStored_def storable_def indirect_tag_def validIndirectBlob_def reads_back_def
      logicalValue_def logicalIndirectValue_def split: if_splits)

lemma vectorStored_ok:
  assumes "vectorStored ws = Inr v"
  shows "storable v \<and> sv_tag v = TagVector \<and> sv_logical v = AF32s ws
    \<and> ((\<forall>w \<in> set ws. w < 4294967296) \<longrightarrow> reads_back v (AF32s ws))"
proof -
  let ?d = "concat (map le_bytes ws)"
  have v: "v = indirect (AF32s ws) (indirectDigest TagVector ?d) TagVector (SBlob ?d)"
    and len: "ws \<noteq> []" "4 * length ws \<le> MaxValueBytes"
    using assms by (auto simp: vectorStored_def Let_def split: if_splits)
  have valid: "validIndirectBlob TagVector (SBlob (indirectDigest TagVector ?d)) (SBlob ?d)"
    using len by (simp add: validIndirectBlob_def)
  show ?thesis
    using valid unfolding v
    by (auto simp: storable_def indirect_tag_def reads_back_def logicalValue_def logicalIndirectValue_def
        le_floats_le_bytes)
qed

lemma instantStored_ok:
  "instantStored n = Inr v \<Longrightarrow>
     storable v \<and> sv_tag v = TagInstant \<and> sv_logical v = AInt64 n \<and> reads_back v (AInt64 n)
     \<and> minInstantMicros \<le> n \<and> n \<le> maxInstantMicros"
  by (auto simp: instantStored_def validateInstantMicros_def res_iff storable_def indirect_tag_def reads_back_def
      logicalValue_def)

lemma floatStored_ok:
  "floatStored w = Inr v \<Longrightarrow> storable v \<and> sv_tag v = TagFloat \<and> sv_logical v = AF64 w \<and> reads_back v (AF64 w)"
  by (auto simp: floatStored_def storable_def indirect_tag_def reads_back_def logicalValue_def split: if_splits)

lemma jsonStored_ok: "jsonStored x = Inr v \<Longrightarrow> storable v \<and> sv_tag v = TagJSON"
  by (auto simp: jsonStored_def res_iff storable_def indirect_tag_def split: if_splits)

lemma wrappedValue_ok:
  assumes "wrappedValue name x = Inr v"
  shows "(sv_tag v = TagRef \<and> name = ''ref'' \<and> sv_logical v = ARef x \<and> sv_blob v = None) \<or> (sv_tag v \<noteq> TagRef \<and> storable v)"
  using assms
  by (auto simp: wrappedValue_def res_iff split: if_splits any.splits gokind.splits option.splits
      dest!: instantStored_ok bytesStored_ok vectorStored_ok jsonStored_ok)

text \<open>A converted value is a reference still to be resolved, or it can be stored as it is.\<close>

lemma scalarValue_ok:
  assumes "scalarValue input = Inr v"
  shows "(sv_tag v = TagRef \<and> (\<exists>t. sv_logical v = ARef t) \<and> sv_blob v = None) \<or> (sv_tag v \<noteq> TagRef \<and> storable v)"
proof (cases "objectFields input")
  case None
  then show ?thesis
    using assms
    by (auto simp: scalarValue_def storable_def indirect_tag_def text_tag_def split: any.splits if_splits
      dest!: instantStored_ok bytesStored_ok vectorStored_ok jsonStored_ok floatStored_ok textStored_ok)
next
  case (Some fs)
  then obtain k x where "wrappedValue k x = Inr v"
    using assms by (auto simp: scalarValue_def split: list.splits prod.splits)
  then show ?thesis using wrappedValue_ok by blast
qed

lemma reads_back_scalar [simp]:
  "reads_back (stored (ABool True) (SInt 1) TagBool) (ABool True)"
  "reads_back (stored (ABool False) (SInt 0) TagBool) (ABool False)"
  "reads_back (stored (AInt64 n) (SInt n) TagInt) (AInt64 n)"
  by (simp_all add: reads_back_def logicalValue_def)

lemma scalarValue_reads_back:
  assumes "scalarValue input = Inr v" "sv_tag v \<noteq> TagRef" "sv_tag v \<noteq> TagJSON"
    and "\<And>ws. sv_logical v = AF32s ws \<Longrightarrow> \<forall>w \<in> set ws. w < 4294967296"
  shows "reads_back v (sv_logical v)"
proof (cases "objectFields input")
  case None
  then show ?thesis
    using assms
    by (auto simp: scalarValue_def split: any.splits if_splits
      dest!: instantStored_ok bytesStored_ok vectorStored_ok jsonStored_ok floatStored_ok textStored_ok)
next
  case (Some fs)
  then obtain k x where "wrappedValue k x = Inr v"
    using assms(1) by (auto simp: scalarValue_def split: list.splits prod.splits)
  then show ?thesis
    using assms(2-4)
    by (auto simp: wrappedValue_def res_iff split: if_splits any.splits gokind.splits option.splits
      dest!: instantStored_ok bytesStored_ok vectorStored_ok jsonStored_ok)
qed

subsection \<open>Properties\<close>

text \<open>
  C35. Values survive storage: what the conversion of a scalar input stores (with its blob in place when the
  value is kept out of line) reads back as the logical value, for every tag but references, which the
  planner resolves first, and JSON documents.
\<close>

theorem stored_values_read_back:
  assumes "scalarValue input = Inr v" "sv_tag v \<noteq> TagRef" "sv_tag v \<noteq> TagJSON"
    and "\<And>ws. sv_logical v = AF32s ws \<Longrightarrow> \<forall>w \<in> set ws. w < 4294967296"
    and "\<And>b. sv_blob v = Some b \<Longrightarrow> map_of (tb_blobs tb) (sv_hash v) = Some b"
  shows "logicalValue tb (sv_storage v) (sv_tag v) = Inr (sv_logical v)"
  using scalarValue_reads_back [OF assms(1-4)] assms(5) by (simp add: reads_back_def)

theorem stored_values_read_back_witness:
  "\<exists>v. scalarValue (AStr ''hi'') = Inr v \<and> logicalValue (empty_tables 0) (sv_storage v) (sv_tag v) = Inr (AStr ''hi'')"
proof -
  have v: "scalarValue (AStr ''hi'') = Inr (stored (AStr ''hi'') (SText ''hi'') TagText)"
    by (simp add: scalarValue_def textStored_def ValidString_def runes_def byte_of_def BlobThreshold_def MaxValueBytes_def)
  then show ?thesis using stored_values_read_back [OF v, of "empty_tables 0"] by simp
qed

end
