(* ===== verification/PlanFacts.thy ===== *)
theory PlanFacts
  imports Plan ValueFacts
begin

text \<open>
  The invariant of a transaction plan and that every planning step keeps it: the allocator stays
  well formed and starts at the id \<open>n0\<close> it was opened with, every planned fact has an order of its own and a value that can be stored.
\<close>

definition plan_ok :: "int \<Rightarrow> transactionPlan \<Rightarrow> bool" where
  "plan_ok n0 pl \<longleftrightarrow>
     alloc_ok (pl_alloc pl) \<and> al_first (pl_alloc pl) = n0
     \<and> distinct (map pf_order (pl_assertions pl))
     \<and> (\<forall>f \<in> set (pl_assertions pl). pf_order f \<le> pl_order pl \<and> storable (pf_value f))"

named_theorems plan_keeps \<open>planning steps keep the invariant of the plan\<close>

lemma plan_ok_simps [simp]:
  "plan_ok n0 (pl\<lparr>pl_tempids := x\<rparr>) = plan_ok n0 pl"
  "plan_ok n0 (pl\<lparr>pl_cas := y\<rparr>) = plan_ok n0 pl"
  "plan_ok n0 (pl\<lparr>pl_schemas := z\<rparr>) = plan_ok n0 pl"
  "plan_ok n0 (pl\<lparr>pl_retracts := w\<rparr>) = plan_ok n0 pl"
  by (simp_all add: plan_ok_def)

lemma plan_ok_order: "plan_ok n0 pl \<Longrightarrow> pl_order pl \<le> n \<Longrightarrow> plan_ok n0 (pl\<lparr>pl_order := n\<rparr>)"
  by (auto simp: plan_ok_def)

lemma plan_ok_alloc: "plan_ok n0 pl \<Longrightarrow> alloc_ok al \<Longrightarrow> al_first al = n0 \<Longrightarrow> plan_ok n0 (pl\<lparr>pl_alloc := al\<rparr>)"
  by (simp add: plan_ok_def)

lemma plan_ok_append:
  assumes "plan_ok n0 pl" "storable (pf_value f)" "pf_order f \<le> pl_order pl"
    "pf_order f \<notin> pf_order ` set (pl_assertions pl)"
  shows "plan_ok n0 (appendAssertion f pl)"
  using assms by (auto simp: plan_ok_def appendAssertion_def)

lemma plan_ok_fresh: "plan_ok n0 pl \<Longrightarrow> n > pl_order pl \<Longrightarrow> n \<notin> pf_order ` set (pl_assertions pl)"
  by (force simp: plan_ok_def)

lemma planned_fields [simp]:
  "pf_value (planned e a at' v n) = v" "pf_order (planned e a at' v n) = n" "pf_e (planned e a at' v n) = e"
  "pf_a (planned e a at' v n) = a"
  by (simp_all add: planned_def)

lemma plan_assert_ok [plan_keeps]: "plan_ok n0 pl \<Longrightarrow> storable v \<Longrightarrow> plan_ok n0 (plan_assert e a attr v pl)"
  unfolding plan_assert_def
  by (rule plan_ok_append) (auto intro: plan_ok_order dest: plan_ok_fresh [of n0 pl "Suc (pl_order pl)"])

lemma appendRetraction_ok [plan_keeps]: "plan_ok n0 pl \<Longrightarrow> plan_ok n0 (appendRetraction r pl)"
  by (auto simp: appendRetraction_def Let_def plan_ok_def)

lemma schemaForPlan_ok [plan_keeps]: "schemaForPlan d a pl = Inr (sc, pl') \<Longrightarrow> plan_ok n0 pl \<Longrightarrow> plan_ok n0 pl'"
  by (auto simp: schemaForPlan_def res_iff split: option.splits)

lemma in_alloc_ok:
  assumes "in_alloc f pl = Inr (x, pl')" "plan_ok n0 pl"
    and "\<And>al al' x. alloc_ok al \<Longrightarrow> f al = Inr (x, al') \<Longrightarrow> alloc_ok al' \<and> al_first al' = al_first al"
  shows "plan_ok n0 pl'"
proof -
  obtain al where "f (pl_alloc pl) = Inr (x, al)" "pl' = pl\<lparr>pl_alloc := al\<rparr>"
    using assms(1) by (auto simp: in_alloc_def res_iff)
  then show ?thesis using assms(2) assms(3) [of "pl_alloc pl" x al] by (simp add: plan_ok_def)
qed

lemma plan_name_ok [plan_keeps]: "plan_name d n at' c pl = Inr (x, pl') \<Longrightarrow> plan_ok n0 pl \<Longrightarrow> plan_ok n0 pl'"
  unfolding plan_name_def by (erule in_alloc_ok) (auto dest: alloc_name_ok(1,2))

lemma plan_create_name_ok [plan_keeps]: "plan_create_name d n at' pl = Inr (x, pl') \<Longrightarrow> plan_ok n0 pl \<Longrightarrow> plan_ok n0 pl'"
  by (auto simp: plan_create_name_def res_iff dest: plan_name_ok)

lemma plan_anonymous_ok [plan_keeps]: "plan_anonymous pl = Inr (x, pl') \<Longrightarrow> plan_ok n0 pl \<Longrightarrow> plan_ok n0 pl'"
  unfolding plan_anonymous_def by (erule in_alloc_ok) (auto simp: anonymous_def dest: allocate_Inr(3,4))

lemma tempEntity_ok [plan_keeps]: "tempEntity n pl = Inr (x, pl') \<Longrightarrow> plan_ok n0 pl \<Longrightarrow> plan_ok n0 pl'"
  by (auto simp: tempEntity_def res_iff split: option.splits dest: plan_anonymous_ok)

subsection \<open>Values\<close>

lemma checkFactValue_same: "checkFactValue sc v = Inr v' \<Longrightarrow> v' = v"
  by (auto simp: checkFactValue_def res_iff split: if_splits)

lemma resolvedRef_storable: "sv_tag v = TagRef \<Longrightarrow> sv_blob v = None \<Longrightarrow> storable (resolvedRef v i)"
  by (simp add: storable_def resolvedRef_def indirect_tag_def)

lemma factValue_with_ok:
  assumes "factValue_with rslv sc input pl = Inr (v, pl')" "plan_ok n0 pl"
    and "\<And>t pl x pl'. rslv t pl = Inr (x, pl') \<Longrightarrow> plan_ok n0 pl \<Longrightarrow> plan_ok n0 pl'"
  shows "plan_ok n0 pl'" "storable v"
proof -
  obtain v0 where v0: "scalarValue input = Inr v0"
    and rest: "(if sv_tag v0 = TagRef then
        (case sv_logical v0 of
           ARef target \<Rightarrow> res_bind (rslv target pl) (\<lambda>(found, pl').
              case found of None \<Rightarrow> fail ErrNotFound
              | Some i \<Rightarrow> res_bind (checkFactValue sc (resolvedRef v0 i)) (\<lambda>v. Inr (v, pl')))
         | _ \<Rightarrow> fail ErrType)
      else res_bind (checkFactValue sc v0) (\<lambda>v. Inr (v, pl))) = Inr (v, pl')"
    using assms(1) by (auto simp: factValue_with_def res_iff)
  have "plan_ok n0 pl' \<and> storable v"
  proof (cases "sv_tag v0 = TagRef")
    case True
    then obtain t where t: "sv_logical v0 = ARef t" "sv_blob v0 = None" using scalarValue_ok [OF v0] by auto
    then obtain i pl1 where "rslv t pl = Inr (Some i, pl1)" "checkFactValue sc (resolvedRef v0 i) = Inr v" "pl' = pl1"
      using rest True by (auto simp: res_iff split: option.splits)
    then show ?thesis
      using assms(2,3) resolvedRef_storable [OF True t(2)] by (metis checkFactValue_same)
  next
    case False
    then show ?thesis
      using rest scalarValue_ok [OF v0] assms(2) checkFactValue_same by (auto simp: res_iff)
  qed
  then show "plan_ok n0 pl'" "storable v" by auto
qed

lemma lookup_with_ok:
  assumes "lookup_with rv d l w pl = Inr (x, pl')" "plan_ok n0 pl"
    and "\<And>sc i pl v pl'. rv sc i pl = Inr (v, pl') \<Longrightarrow> plan_ok n0 pl \<Longrightarrow> plan_ok n0 pl'"
  shows "plan_ok n0 pl'"
  using assms
  by (auto simp: lookup_with_def res_iff split: list.splits any.splits option.splits if_splits
      dest!: plan_name_ok schemaForPlan_ok)

lemma read_value_plan: "read_value r sc i pl = Inr (v, pl') \<Longrightarrow> pl' = pl"
  by (auto simp: read_value_def res_iff)

lemma reference_fuel_ok: "reference_fuel n d c t pl = Inr (x, pl') \<Longrightarrow> plan_ok n0 pl \<Longrightarrow> plan_ok n0 pl'"
proof (induction n arbitrary: c t pl x pl')
  case (Suc n)
  have rv: "plan_ok n0 pl2"
    if "(if c then factValue_with (reference_fuel n d True) else read_value (resolveReadEntity d)) sc i pl1 = Inr (v, pl2)"
      "plan_ok n0 pl1" for sc i pl1 v pl2
    using that Suc.IH factValue_with_ok(1) [OF _ that(2)] by (auto split: if_splits dest: read_value_plan)
  show ?case
    using Suc.prems
    by (auto simp: reference_with_def res_iff split: any.splits if_splits option.splits
      dest: plan_name_ok [OF _ Suc.prems(2)] tempEntity_ok [OF _ Suc.prems(2)] lookup_with_ok [OF _ Suc.prems(2) rv])
qed simp

lemma resolveReference_ok [plan_keeps]: "resolveReference d c t pl = Inr (x, pl') \<Longrightarrow> plan_ok n0 pl \<Longrightarrow> plan_ok n0 pl'"
  unfolding resolveReference_def by (rule reference_fuel_ok)

lemma resolveFactValue_ok [plan_keeps]:
  "resolveFactValue d sc i pl = Inr (v, pl') \<Longrightarrow> plan_ok n0 pl \<Longrightarrow> plan_ok n0 pl'"
  "resolveFactValue d sc i pl = Inr (v, pl') \<Longrightarrow> plan_ok n0 pl \<Longrightarrow> storable v"
  unfolding resolveFactValue_def by (auto dest: factValue_with_ok resolveReference_ok)

lemma resolveFactValue_keeps:
  "resolveFactValue d sc i pl = Inr (v, pl') \<Longrightarrow> plan_ok n0 pl \<Longrightarrow> plan_ok n0 pl' \<and> storable v"
  using resolveFactValue_ok by blast

lemma resolveLookup_ok [plan_keeps]: "resolveLookup d l w pl = Inr (x, pl') \<Longrightarrow> plan_ok n0 pl \<Longrightarrow> plan_ok n0 pl'"
  unfolding resolveLookup_def
  by (erule lookup_with_ok) (auto split: if_splits dest: resolveFactValue_ok read_value_plan)

lemma resolveWriteEntity_ok [plan_keeps]: "resolveWriteEntity d s pl = Inr (x, pl') \<Longrightarrow> plan_ok n0 pl \<Longrightarrow> plan_ok n0 pl'"
  by (auto simp: resolveWriteEntity_def res_iff split: any.splits if_splits option.splits
      dest: plan_create_name_ok tempEntity_ok resolveLookup_ok plan_anonymous_ok)

lemma resolveOperationEntity_ok [plan_keeps]:
  "resolveOperationEntity d c s pl = Inr (x, pl') \<Longrightarrow> plan_ok n0 pl \<Longrightarrow> plan_ok n0 pl'"
  by (auto simp: resolveOperationEntity_def operation_temp_def res_iff split: any.splits if_splits option.splits
      dest: plan_name_ok tempEntity_ok resolveLookup_ok)

lemma storable_stored:
  "storable (stored x (SInt n) TagInt)" "storable (stored x (SInt n) TagRef)"
  "storable (stored (AStr s) (SText s) TagText)"
  by (simp_all add: storable_def stored_def indirect_tag_def)

subsection \<open>Maps\<close>

lemma ensureVectorDims_ok [plan_keeps]: "ensureVectorDims a n pl = Inr pl' \<Longrightarrow> plan_ok n0 pl \<Longrightarrow> plan_ok n0 pl'"
  by (auto simp: ensureVectorDims_def split: option.splits if_splits intro!: plan_assert_ok storable_stored)

lemma ensureVectorSchema_ok [plan_keeps]: "ensureVectorSchema a n b pl = Inr pl' \<Longrightarrow> plan_ok n0 pl \<Longrightarrow> plan_ok n0 pl'"
  by (auto simp: ensureVectorSchema_def res_iff split: option.splits if_splits
      dest: ensureVectorDims_ok intro!: plan_assert_ok storable_stored elim!: ensureVectorDims_ok)

lemma fix_vector_schema_ok [plan_keeps]: "fix_vector_schema a sc v pl = Inr (sc', pl') \<Longrightarrow> plan_ok n0 pl \<Longrightarrow> plan_ok n0 pl'"
  by (auto simp: fix_vector_schema_def res_iff split: if_splits dest: ensureVectorSchema_ok)

lemma plan_ok_entities:
  assumes "plan_ok n0 pl" "map (\<lambda>f. (pf_order f, pf_value f)) fs = map (\<lambda>f. (pf_order f, pf_value f)) (pl_assertions pl)"
  shows "plan_ok n0 (pl\<lparr>pl_assertions := fs\<rparr>)"
proof -
  have m: "map pf_order fs = map pf_order (pl_assertions pl)" "map pf_value fs = map pf_value (pl_assertions pl)"
    using arg_cong [OF assms(2), of "map fst"] arg_cong [OF assms(2), of "map snd"] by (simp_all add: comp_def)
  have "pf_order ` set fs = pf_order ` set (pl_assertions pl)" "pf_value ` set fs = pf_value ` set (pl_assertions pl)"
    using m by (metis list.set_map)+
  then have "(\<forall>x \<in> pf_order ` set fs. x \<le> pl_order pl)" "(\<forall>x \<in> pf_value ` set fs. storable x)"
    using assms(1) by (simp_all add: plan_ok_def)
  then show ?thesis using assms(1) m(1) by (simp add: plan_ok_def)
qed

lemma redirect_ok [plan_keeps]:
  assumes "plan_ok n0 pl"
  shows "plan_ok n0 (redirect n e w pl)"
proof -
  define g where "g f = (pf_order f, pf_value f)" for f :: plannedFact
  have "map g (take n fs @ map (\<lambda>f. f\<lparr>pf_e := w\<rparr>) (drop n fs)) = map g (take n fs) @ map g (drop n fs)" for fs
    by (simp add: g_def)
  also have "map g (take n fs) @ map g (drop n fs) = map g fs" for fs by (simp flip: map_append)
  finally have "map g (take n fs @ map (\<lambda>f. f\<lparr>pf_e := w\<rparr>) (drop n fs)) = map g fs" for fs .
  then have "plan_ok n0 (pl\<lparr>pl_assertions := take n (pl_assertions pl) @ map (\<lambda>f. f\<lparr>pf_e := w\<rparr>) (drop n (pl_assertions pl))\<rparr>)"
    by (intro plan_ok_entities [OF assms]) (simp only: g_def [abs_def])
  then show ?thesis by (simp add: redirect_def)
qed

text \<open>A planner of nested maps that keeps the invariant.\<close>

definition keeps_plan :: "map_planner \<Rightarrow> bool" where
  "keeps_plan pm \<longleftrightarrow> (\<forall>n0 fs pl e pl'. pm fs pl = Inr (e, pl') \<longrightarrow> plan_ok n0 pl \<longrightarrow> plan_ok n0 pl')"

lemma keeps_planD: "keeps_plan pm \<Longrightarrow> pm fs pl = Inr (e, pl') \<Longrightarrow> plan_ok n0 pl \<Longrightarrow> plan_ok n0 pl'"
  by (auto simp: keeps_plan_def)

lemma expandSingle_with_ok:
  assumes "keeps_plan pm" "expandSingle_with pm d sc i pl = Inr (v, pl')" "plan_ok n0 pl"
  shows "plan_ok n0 pl' \<and> storable v"
  using assms(2,3)
  by (auto simp: expandSingle_with_def res_iff storable_stored split: option.splits if_splits
      dest: keeps_planD [OF assms(1)] resolveFactValue_ok)

lemma expandAttribute_with_ok:
  assumes "keeps_plan pm" "expandAttribute_with pm d sc i pl = Inr (vs, pl')" "plan_ok n0 pl"
  shows "plan_ok n0 pl' \<and> (\<forall>v \<in> set vs. storable v)"
proof -
  have run: "plan_ok n0 pl' \<and> (\<forall>v \<in> set vs. storable v)"
    if "res_maps (expandSingle_with pm d sc) items pl = Inr (vs, pl')" "plan_ok n0 pl" for items pl vs pl'
    using that
  proof (induction items arbitrary: pl vs)
    case (Cons x xs)
    then show ?case by (fastforce simp: res_iff dest: expandSingle_with_ok [OF assms(1)])
  qed simp
  show ?thesis
    using assms(2,3) run
    by (auto simp: expandAttribute_with_def res_iff split: any.splits dest: expandSingle_with_ok [OF assms(1)])
qed

definition prepared_ok :: "(nat \<times> preparedMapField) list \<Rightarrow> bool" where
  "prepared_ok ps \<longleftrightarrow> (\<forall>k p. map_of ps k = Some p \<longrightarrow> (\<forall>v \<in> set (pm_values p). storable v))"

lemma prepared_ok_Nil [simp]: "prepared_ok []"
  by (simp add: prepared_ok_def)

lemma prepared_ok_update:
  "prepared_ok ps \<Longrightarrow> \<forall>v \<in> set vs. storable v \<Longrightarrow> prepared_ok (AList.update k \<lparr>pm_values = vs, pm_schema = sc, pm_attr = a\<rparr> ps)"
  by (auto simp: prepared_ok_def update_conv')

lemma upsert_field_ok:
  assumes "keeps_plan pm" "upsert_field pm d x (w, ps, pl) = Inr (w', ps', pl')" "plan_ok n0 pl" "prepared_ok ps"
  shows "plan_ok n0 pl' \<and> prepared_ok ps'"
  using assms(2-4)
  by (auto simp: upsert_field_def res_iff split: prod.splits option.splits if_splits
      dest!: plan_name_ok schemaForPlan_ok expandAttribute_with_ok [OF assms(1)] intro!: prepared_ok_update)

lemma upsertOwner_with_ok:
  assumes "keeps_plan pm" "upsertOwner_with pm d fs pl = Inr (w, ps, pl')" "plan_ok n0 pl"
  shows "plan_ok n0 pl' \<and> prepared_ok ps"
proof -
  have "(\<lambda>(w, ps, pl). plan_ok n0 pl \<and> prepared_ok ps) (w, ps, pl')"
    by (rule res_fold_invariant [OF assms(2) [unfolded upsertOwner_with_def]])
      (use assms(3) in \<open>auto simp: prepared_ok_def dest!: upsert_field_ok [OF assms(1)]\<close>)
  then show ?thesis by simp
qed

lemma plan_map_value_ok:
  assumes "plan_map_value d p n a at' v (e, sc, pl) = Inr (e', sc', pl')" "plan_ok n0 pl" "storable v"
  shows "plan_ok n0 pl'"
  using assms
  by (auto simp: plan_map_value_def Let_def res_iff split: option.splits if_splits
      intro!: plan_assert_ok dest!: fix_vector_schema_ok intro: redirect_ok)

lemma prepare_field_ok:
  assumes "keeps_plan pm" "prepare_field pm d ps k n v pl = Inr (item, pl')" "plan_ok n0 pl" "prepared_ok ps"
  shows "plan_ok n0 pl' \<and> (\<forall>v \<in> set (pm_values item). storable v)"
  using assms(2-4)
  by (auto simp: prepare_field_def res_iff prepared_ok_def split: option.splits if_splits
      dest!: plan_create_name_ok schemaForPlan_ok expandAttribute_with_ok [OF assms(1)])

lemma plan_map_field_ok:
  assumes "keeps_plan pm" "plan_map_field pm d p n ps x (e, pl) = Inr (e', pl')" "plan_ok n0 pl" "prepared_ok ps"
  shows "plan_ok n0 pl'"
proof (cases "fst (snd x) = ''id''")
  case True
  then show ?thesis using assms(2,3) by (auto simp: plan_map_field_def split: prod.splits)
next
  case False
  obtain k name v where x: "x = (k, name, v)" by (cases x)
  obtain item pl1 sc' where item: "prepare_field pm d ps k name v pl = Inr (item, pl1)"
    and run: "res_fold (plan_map_value d p n (pm_attr item) name) (pm_values item) (e, pm_schema item, pl1) = Inr (e', sc', pl')"
    using assms(2) False by (auto simp: x plan_map_field_def res_iff split: if_splits)
  note ok = prepare_field_ok [OF assms(1) item assms(3,4)]
  have "(\<lambda>(e, sc, pl). plan_ok n0 pl) (e', sc', pl')"
    by (rule res_fold_invariant [OF run]) (use ok in \<open>auto dest!: plan_map_value_ok\<close>)
  then show ?thesis by simp
qed

lemma map_entity_ok:
  assumes "keeps_plan pm" "map_entity pm d fs pl = Inr (e, p, ps, pl')" "plan_ok n0 pl"
  shows "plan_ok n0 pl' \<and> prepared_ok ps"
  using assms(2,3)
  by (auto simp: map_entity_def res_iff split: option.split_asm
      dest: resolveWriteEntity_ok plan_anonymous_ok dest!: upsertOwner_with_ok [OF assms(1)])

lemma planMap_with_ok:
  assumes "keeps_plan pm"
  shows "keeps_plan (planMap_with pm d)"
proof (unfold keeps_plan_def, intro allI impI)
  fix n0 fs pl e pl' assume step: "planMap_with pm d fs pl = Inr (e, pl')" and ok: "plan_ok n0 pl"
  obtain e0 p ps pl1 where ent: "map_entity pm d fs pl = Inr (e0, p, ps, pl1)"
    and run: "res_fold (plan_map_field pm d p (length (pl_assertions pl1)) ps) (enumerate 0 fs) (e0, pl1) = Inr (e, pl')"
    using step by (auto simp: planMap_with_def res_iff)
  have "(\<lambda>(e, pl). plan_ok n0 pl) (e, pl')"
    by (rule res_fold_invariant [OF run])
      (use map_entity_ok [OF assms ent ok] in \<open>auto dest!: plan_map_field_ok [OF assms]\<close>)
  then show "plan_ok n0 pl'" by simp
qed

lemma keeps_planMap_fuel: "keeps_plan (planMap_fuel n d)"
proof (induction n)
  case (Suc n)
  show ?case using planMap_with_ok [OF Suc.IH] by (simp add: keeps_plan_def)
qed (simp add: keeps_plan_def)

lemma keeps_planMap: "keeps_plan (planMap d)"
  unfolding planMap_def keeps_plan_def by (blast intro: keeps_planD [OF keeps_planMap_fuel])

lemmas planMap_ok [plan_keeps] = keeps_planD [OF keeps_planMap]

subsection \<open>Operations and transaction facts\<close>

lemma case_text_Inr:
  "(case v of AStr s \<Rightarrow> f s | _ \<Rightarrow> fail k) = Inr r \<longleftrightarrow> (\<exists>s. v = AStr s \<and> f s = Inr r)"
  by (cases v) auto


lemma planAssert_ok [plan_keeps]: "planAssert d op pl = Inr pl' \<Longrightarrow> plan_ok n0 pl \<Longrightarrow> plan_ok n0 pl'"
  by (auto simp: planAssert_def res_iff case_text_Inr split: option.split_asm if_split_asm
      dest!: resolveOperationEntity_ok plan_create_name_ok schemaForPlan_ok resolveFactValue_keeps fix_vector_schema_ok
      intro!: plan_assert_ok)

lemma planRetract_ok [plan_keeps]: "planRetract d op pl = Inr pl' \<Longrightarrow> plan_ok n0 pl \<Longrightarrow> plan_ok n0 pl'"
  by (auto simp: planRetract_def res_iff case_text_Inr split: option.split_asm if_split_asm
      dest!: resolveOperationEntity_ok plan_name_ok schemaForPlan_ok resolveFactValue_keeps
      intro!: appendRetraction_ok)

lemma cas_expectation_ok [plan_keeps]: "cas_expectation d sc cur x pl = Inr pl' \<Longrightarrow> plan_ok n0 pl \<Longrightarrow> plan_ok n0 pl'"
  by (cases cur rule: remdups_adj.cases)
    (auto simp: cas_expectation_def res_iff split: if_split_asm dest: resolveFactValue_ok)

lemma cas_replacement_ok:
  assumes "cas_replacement d sc x pl = Inr (v, pl')" "plan_ok n0 pl"
  shows "plan_ok n0 pl' \<and> (case v of None \<Rightarrow> True | Some w \<Rightarrow> storable w)"
  using assms by (auto simp: cas_replacement_def res_iff split: if_split_asm dest: resolveFactValue_ok)

lemma cas_apply_ok [plan_keeps]:
  assumes "plan_ok n0 pl" "case v of None \<Rightarrow> True | Some w \<Rightarrow> storable w"
  shows "plan_ok n0 (cas_apply e a at' cur v pl)"
proof -
  have step: "plan_ok n0 (appendAssertion ((planned e a at' w (pl_order p + 1))\<lparr>pf_cas := True\<rparr>) (p\<lparr>pl_order := pl_order p + 1\<rparr>))"
    if "plan_ok n0 p" "storable w" for p w
    by (rule plan_ok_append) (use that plan_ok_fresh [of n0 p "Suc (pl_order p)"] in \<open>auto intro: plan_ok_order\<close>)
  show ?thesis
    using assms by (auto simp: cas_apply_def Let_def split: option.splits intro: step [simplified] appendRetraction_ok)
qed

lemma planCAS_ok [plan_keeps]:
  assumes "planCAS d op pl = Inr pl'" "plan_ok n0 pl"
  shows "plan_ok n0 pl'"
  using assms
  by (auto simp: planCAS_def Let_def res_iff case_text_Inr split: option.split_asm if_split_asm
      dest!: resolveOperationEntity_ok plan_name_ok schemaForPlan_ok cas_expectation_ok cas_replacement_ok
      intro!: cas_apply_ok)

lemma planOperation_ok [plan_keeps]: "planOperation d op pl = Inr pl' \<Longrightarrow> plan_ok n0 pl \<Longrightarrow> plan_ok n0 pl'"
  by (auto simp: planOperation_def split: list.splits any.splits if_splits dest: planAssert_ok planRetract_ok planCAS_ok)

lemma plan_fields_ok [plan_keeps]: "plan_fields d fs pl = Inr pl' \<Longrightarrow> plan_ok n0 pl \<Longrightarrow> plan_ok n0 pl'"
  by (auto simp: plan_fields_def res_iff split: if_splits dest: planMap_ok)

lemma planItem_ok [plan_keeps]: "planItem d item pl = Inr pl' \<Longrightarrow> plan_ok n0 pl \<Longrightarrow> plan_ok n0 pl'"
  by (auto simp: planItem_def split: option.splits any.splits if_splits dest: plan_fields_ok planOperation_ok)

lemma planData_ok [plan_keeps]:
  assumes "planData d data pl = Inr pl'" "plan_ok n0 pl"
  shows "plan_ok n0 pl'"
proof -
  have items: "plan_ok n0 pl'" if "res_fold (planItem d) items pl = Inr pl'" for items
    by (rule res_fold_invariant [where P = "plan_ok n0", OF that assms(2)]) (rule planItem_ok)
  show ?thesis
    using assms items by (auto simp: planData_def split: option.splits any.splits if_splits dest: plan_fields_ok planOperation_ok)
qed

text \<open>Transaction facts take an order of their own each and enter the plan in groups.\<close>

definition pending_ok :: "transactionPlan \<Rightarrow> plannedFact list \<Rightarrow> bool" where
  "pending_ok pl fs \<longleftrightarrow>
     distinct (map pf_order fs)
     \<and> (\<forall>f \<in> set fs. pf_order f \<le> pl_order pl \<and> storable (pf_value f)
          \<and> pf_order f \<notin> pf_order ` set (pl_assertions pl))"

lemma pending_ok_Cons:
  assumes "plan_ok n0 pl" "pending_ok pl (f # fs)"
  shows "plan_ok n0 (appendAssertion f pl) \<and> pending_ok (appendAssertion f pl) fs"
  using assms plan_ok_append [of n0 pl f] by (auto simp: pending_ok_def) (auto simp: appendAssertion_def image_iff)

lemma pending_ok_append: "plan_ok n0 pl \<Longrightarrow> pending_ok pl fs \<Longrightarrow> plan_ok n0 (appendAssertions fs pl)"
  by (induction fs arbitrary: pl) (auto simp: appendAssertions_def dest: pending_ok_Cons)

text \<open>A step that only adds facts, each with an order above those given out before.\<close>

definition plan_grows :: "transactionPlan \<Rightarrow> transactionPlan \<Rightarrow> bool" where
  "plan_grows pl pl' \<longleftrightarrow>
     pl_order pl \<le> pl_order pl'
     \<and> (\<forall>h \<in> set (pl_assertions pl'). h \<in> set (pl_assertions pl) \<or> pl_order pl < pf_order h)"

lemma plan_grows_refl [simp]: "plan_grows pl pl"
  by (simp add: plan_grows_def)

lemma plan_grows_trans: "plan_grows pl pl' \<Longrightarrow> plan_grows pl' pl'' \<Longrightarrow> plan_grows pl pl''"
  by (force simp: plan_grows_def)

lemma plan_assert_grows: "plan_grows pl (plan_assert e a at' v pl)"
  by (auto simp: plan_grows_def plan_assert_def appendAssertion_def)

lemma ensureVectorDims_grows: "ensureVectorDims a n pl = Inr pl' \<Longrightarrow> plan_grows pl pl'"
  by (auto simp: ensureVectorDims_def plan_assert_grows split: option.split_asm if_split_asm)

lemma fix_vector_schema_grows: "fix_vector_schema a sc v pl = Inr (sc', pl') \<Longrightarrow> plan_grows pl pl'"
  by (auto simp: fix_vector_schema_def ensureVectorSchema_def res_iff split: option.split_asm if_split_asm
      dest!: ensureVectorDims_grows intro: plan_grows_trans [OF plan_assert_grows])

lemma finishTxFact_ok:
  assumes "finishTxFact tx a at' sc v pl = Inr (f, pl')" "plan_ok n0 pl" "storable v"
  shows "plan_ok n0 pl'" "pf_order f = pl_order pl'" "storable (pf_value f)" "pl_order pl < pf_order f"
    "\<forall>g \<in> set (pl_assertions pl'). pf_order g < pf_order f" "pf_txTarget f" "pf_value f = v" "pf_a f = a"
proof -
  obtain sc1 pl1 where fx: "fix_vector_schema a sc v pl = Inr (sc1, pl1)"
    and f: "f = (planned tx a at' v (pl_order pl1 + 1))\<lparr>pf_txTarget := True\<rparr>" "pl' = pl1\<lparr>pl_order := pl_order pl1 + 1\<rparr>"
    using assms(1) by (auto simp: finishTxFact_def res_iff)
  have "plan_ok n0 pl1" by (rule fix_vector_schema_ok [OF fx assms(2)])
  moreover have "pl_order pl \<le> pl_order pl1"
    using fix_vector_schema_grows [OF fx] by (simp add: plan_grows_def)
  ultimately show "plan_ok n0 pl'" "pf_order f = pl_order pl'" "storable (pf_value f)" "pl_order pl < pf_order f"
    "\<forall>g \<in> set (pl_assertions pl'). pf_order g < pf_order f" "pf_txTarget f" "pf_value f = v" "pf_a f = a"
    using assms(3) by (auto simp: f intro: plan_ok_order) (auto simp: plan_ok_def less_Suc_eq_le)
qed

lemma finishTxFact_pending:
  assumes "finishTxFact tx a at' sc v pl = Inr (f, pl')" "plan_ok n0 pl" "storable v" "pending_ok pl fs"
  shows "plan_ok n0 pl' \<and> pending_ok pl' (fs @ [f])"
proof -
  note ok = finishTxFact_ok [OF assms(1-3)]
  have "pf_order g \<notin> pf_order ` set (pl_assertions pl')" if "g \<in> set fs" for g
  proof -
    have "h \<in> set (pl_assertions pl) \<or> pl_order pl < pf_order h" if "h \<in> set (pl_assertions pl')" for h
      using assms(1) that by (auto simp: finishTxFact_def res_iff plan_grows_def dest!: fix_vector_schema_grows)
    moreover have "pf_order g \<le> pl_order pl" "pf_order g \<notin> pf_order ` set (pl_assertions pl)"
      using assms(4) that by (auto simp: pending_ok_def)
    ultimately show ?thesis by force
  qed
  moreover have "pf_order g \<noteq> pf_order f \<and> pf_order g \<le> pl_order pl' \<and> storable (pf_value g)" if "g \<in> set fs" for g
    using assms(4) that ok(2,4) by (auto simp: pending_ok_def)
  ultimately show ?thesis
    using ok assms(4) by (auto simp: pending_ok_def image_iff)
qed

lemma planTxFact_ok:
  assumes "planTxFact d tx attr x pl = Inr (fs, pl')" "plan_ok n0 pl"
  shows "plan_ok n0 pl' \<and> pending_ok pl' fs"
  using assms
  by (auto simp: planTxFact_def res_iff split: if_split_asm
      dest!: plan_create_name_ok schemaForPlan_ok resolveFactValue_keeps
      dest!: finishTxFact_pending [where fs = "[]"] simp: pending_ok_def)

lemma planTxMapFacts_ok:
  assumes "planTxMapFacts d tx attr x pl = Inr (fs, pl')" "plan_ok n0 pl"
  shows "plan_ok n0 pl' \<and> pending_ok pl' fs"
proof -
  obtain a pl1 sc pl2 vs pl3 sc' where steps: "plan_create_name d attr True pl = Inr (a, pl1)"
      "schemaForPlan d a pl1 = Inr (sc, pl2)" "expandAttribute_with (planMap d) d sc x pl2 = Inr (vs, pl3)"
    and run: "res_fold (tx_map_value d tx a attr) vs (sc, [], pl3) = Inr (sc', fs, pl')"
    using assms(1) by (auto simp: planTxMapFacts_def expandAttributeValue_def res_iff split: if_split_asm)
  have pl3: "plan_ok n0 pl3 \<and> (\<forall>v \<in> set vs. storable v)"
    using steps assms(2)
    by (auto dest!: plan_create_name_ok schemaForPlan_ok expandAttribute_with_ok [OF keeps_planMap])
  have "(\<lambda>(sc, fs, pl). plan_ok n0 pl \<and> pending_ok pl fs) (sc', fs, pl')"
    by (rule res_fold_invariant [OF run])
      (use pl3 in \<open>auto simp: pending_ok_def [of _ "[]"] tx_map_value_def res_iff split: if_split_asm dest!: finishTxFact_pending\<close>)
  then show ?thesis by simp
qed

lemma tx_steps_ok:
  assumes "res_fold (tx_step step) xs ([], pl) = Inr (fs, pl')" "plan_ok n0 pl"
    and "\<And>x pl fs pl'. step x pl = Inr (fs, pl') \<Longrightarrow> plan_ok n0 pl \<Longrightarrow> plan_ok n0 pl' \<and> pending_ok pl' fs"
  shows "plan_ok n0 pl'"
proof -
  have "(\<lambda>(fs, pl). plan_ok n0 pl) (fs, pl')"
    by (rule res_fold_invariant [OF assms(1)])
      (use assms(2) in \<open>auto simp: tx_step_def res_iff dest!: assms(3) intro: pending_ok_append\<close>)
  then show ?thesis by simp
qed

lemma tx_tuple_ok: "tx_tuple d tx x pl = Inr (fs, pl') \<Longrightarrow> plan_ok n0 pl \<Longrightarrow> plan_ok n0 pl' \<and> pending_ok pl' fs"
  by (auto simp: tx_tuple_def res_iff split: any.splits list.splits dest: planTxFact_ok)

lemma planTxFacts_ok [plan_keeps]:
  assumes "planTxFacts d tx data pl = Inr (fs, pl')" "plan_ok n0 pl"
  shows "plan_ok n0 pl'"
proof (cases "\<exists>ts. data = AList ts")
  case True
  then show ?thesis using assms(1) by (auto simp: planTxFacts_def elim!: tx_steps_ok [OF _ assms(2)] dest: tx_tuple_ok)
next
  case False
  then obtain kvs where "res_fold (tx_step (\<lambda>(name, v) p. if name = ''id'' then fail ErrSchema else planTxMapFacts d tx name v p))
      kvs ([], pl) = Inr (fs, pl')"
    using assms(1) by (auto simp: planTxFacts_def split: any.splits option.splits)
  then show ?thesis by (rule tx_steps_ok) (auto simp: assms(2) split: prod.splits if_splits dest: planTxMapFacts_ok)
qed

lemma preallocate_one_ok [plan_keeps]:
  assumes "preallocate_one d x pl = Inr pl'" "plan_ok n0 pl"
  shows "plan_ok n0 pl'"
proof -
  have upd: "plan_ok n0 (p\<lparr>pl_tempids := ts, pl_alloc := (pl_alloc p)\<lparr>al_ids := m, al_gids := g\<rparr>\<rparr>)" if "plan_ok n0 p" for p ts m g
    using that by (simp add: plan_ok_def alloc_ok_def)
  show ?thesis
    using assms
    by (cases x) (auto simp: preallocate_one_def Let_def res_iff upd split: if_split_asm dest!: plan_name_ok plan_anonymous_ok)
qed

lemma preallocateEventIdentities_ok [plan_keeps]:
  assumes "preallocateEventIdentities d xs pl = Inr pl'" "plan_ok n0 pl"
  shows "plan_ok n0 pl'"
  by (rule res_fold_invariant [where P = "plan_ok n0", OF assms [unfolded preallocateEventIdentities_def]])
    (rule preallocate_one_ok)

end
