(* ===== verification/IdentityFacts.thy ===== *)
theory IdentityFacts
  imports PlanFacts
begin

text \<open>
  Identities of a transaction: finalizing the pending ones, and the compaction that drops those that no net
  assertion uses. Compaction leaves the registry alone, keeps the pending ids consecutive and every
  planned value storable.
\<close>

subsection \<open>Finalizing\<close>

lemma insert_id_Inr:
  "insert_id r tb = Inr tb' \<Longrightarrow> tb' = tb\<lparr>tb_ids := tb_ids tb @ [r]\<rparr>"
  by (auto simp: insert_id_def split: if_splits)

lemma case_wrap_Inr:
  "(case m of Inl e \<Rightarrow> wrap k (Some e) | Inr x \<Rightarrow> f x) = Inr y \<longleftrightarrow> (\<exists>x. m = Inr x \<and> f x = Inr y)"
  by (cases m) (auto simp: wrap_def)

text \<open>One pending identity adds one row to the registry and touches the name caches only.\<close>

lemma finalize_one_Inr:
  assumes "finalize_one en tx ev p (s, a, k) = Inr (s', a', k')"
  obtains r g where "id_id r = pi_id p" "id_created r = tx"
    "insert_id r (st_tables s) = Inr (st_tables s')" "a' = a\<lparr>al_gids := g\<rparr>"
    "st_dataVersion s' = st_dataVersion s" "st_version s' = st_version s"
    "st_readOnly s' = st_readOnly s" "st_closed s' = st_closed s"
proof -
  have same: "\<exists>g. b = b\<lparr>al_gids := g\<rparr>" for b :: allocator by (rule exI [of _ "al_gids b"]) simp
  have "\<exists>r g. id_id r = pi_id p \<and> id_created r = tx \<and> insert_id r (st_tables s) = Inr (st_tables s') \<and> a' = a\<lparr>al_gids := g\<rparr>
    \<and> st_dataVersion s' = st_dataVersion s \<and> st_version s' = st_version s
    \<and> st_readOnly s' = st_readOnly s \<and> st_closed s' = st_closed s"
  proof (cases "pi_kind p")
    case IdentityNamed
    then show ?thesis
      using assms same by (force simp: finalize_one_def wrap_def split: sum.split_asm)
  next
    case IdentityAnonymous
    then obtain gid tb where "insert_id \<lparr>id_id = pi_id p, id_name = None, id_gid = Some gid, id_created = tx\<rparr> (st_tables s) = Inr tb"
      "s' = s\<lparr>st_tables := tb, st_gids := AList.update (pi_id p) (formatUUID gid) (st_gids s)\<rparr>"
      "a' = a\<lparr>al_gids := AList.update (pi_id p) (formatUUID gid) (al_gids a)\<rparr>"
      using assms by (auto simp: finalize_one_def case_wrap_Inr res_bind_Inr_iff)
    then show ?thesis
      by (intro exI [of _ "\<lparr>id_id = pi_id p, id_name = None, id_gid = Some gid, id_created = tx\<rparr>"]
          exI [of _ "AList.update (pi_id p) (formatUUID gid) (al_gids a)"]) simp
  next
    case IdentityEvent
    then show ?thesis
      using assms by (force simp: finalize_one_def wrap_def split: sum.split_asm if_split_asm)
  qed
  then show thesis using that by blast
qed

definition ids_added :: "int list \<Rightarrow> int \<Rightarrow> tables \<Rightarrow> tables \<Rightarrow> bool" where
  "ids_added is tx tb tb' \<longleftrightarrow>
     (\<exists>rows. tb' = tb\<lparr>tb_ids := tb_ids tb @ rows\<rparr> \<and> map id_id rows = is \<and> (\<forall>r \<in> set rows. id_created r = tx))"

lemma finalize_run:
  assumes "res_fold (finalize_one en tx ev) ps (s, a, k) = Inr (s', a', k')" "ids_ok (st_tables s)"
  shows "ids_ok (st_tables s') \<and> ids_added (map pi_id ps) tx (st_tables s) (st_tables s')
    \<and> (\<exists>g. a' = a\<lparr>al_gids := g\<rparr>)"
  using assms
proof (induction ps arbitrary: s a k)
  case Nil
  then show ?case by (auto simp: ids_added_def intro!: exI [of _ "al_gids a"])
next
  case (Cons p ps)
  obtain s1 a1 k1 where one: "finalize_one en tx ev p (s, a, k) = Inr (s1, a1, k1)"
    and run: "res_fold (finalize_one en tx ev) ps (s1, a1, k1) = Inr (s', a', k')"
    using Cons.prems(1) by (auto simp: res_iff)
  obtain r g where r: "id_id r = pi_id p" "id_created r = tx" "insert_id r (st_tables s) = Inr (st_tables s1)"
    "a1 = a\<lparr>al_gids := g\<rparr>"
    using one by (rule finalize_one_Inr)
  have IH: "ids_ok (st_tables s')" "ids_added (map pi_id ps) tx (st_tables s1) (st_tables s')" "\<exists>g. a' = a1\<lparr>al_gids := g\<rparr>"
    using Cons.IH [OF run insert_id_ok [OF Cons.prems(2) r(3)]] by auto
  have "ids_added (map pi_id (p # ps)) tx (st_tables s) (st_tables s')"
  proof -
    obtain rows where "st_tables s' = (st_tables s1)\<lparr>tb_ids := tb_ids (st_tables s1) @ rows\<rparr>" "map id_id rows = map pi_id ps"
      "\<forall>r \<in> set rows. id_created r = tx"
      using IH(2) by (auto simp: ids_added_def)
    then show ?thesis
      using r(1,2) insert_id_Inr [OF r(3)] unfolding ids_added_def by (intro exI [of _ "r # rows"]) simp
  qed
  then show ?case using IH r(4) by auto
qed

lemma finalize_Inr:
  assumes "finalize en tx ev s a = Inr (s', a')" "ids_ok (st_tables s)"
  shows "ids_ok (st_tables s')" "ids_added (map pi_id (al_pending a)) tx (st_tables s) (st_tables s')"
    "\<exists>g. a' = a\<lparr>al_gids := g\<rparr>"
  using assms by (auto simp: finalize_def res_iff dest!: finalize_run)

subsection \<open>Compaction\<close>

text \<open>The ids that stay, in order, and the consecutive ids they become.\<close>

definition kept_order :: "allocator \<Rightarrow> plannedFact list \<Rightarrow> plannedFact list \<Rightarrow> int list" where
  "kept_order al as txf = sort (remdups (kept_ids al as txf))"

lemma kept_order_props:
  "sorted (kept_order al as txf)" "distinct (kept_order al as txf)"
  "x \<in> set (kept_order al as txf) \<Longrightarrow> al_first al \<le> x \<and> x < al_next al"
  by (auto simp: kept_order_def kept_ids_def)

lemma compact_remap_zip:
  "compact_remap al as txf =
     zip (kept_order al as txf) [al_first al .. al_first al + int (length (kept_order al as txf)) - 1]"
  by (rule nth_equalityI)
    (auto simp: compact_remap_def kept_order_def Let_def enumerate_eq_zip)

lemma remap_kept:
  assumes "distinct xs" "length ys = length xs"
  shows "map (remapPendingID (zip xs ys)) xs = ys"
  by (rule nth_equalityI) (use assms in \<open>auto simp: remapPendingID_def map_of_zip_nth\<close>)

lemma map_filter_pending:
  "map pi_id (map (\<lambda>p. p\<lparr>pi_id := g (pi_id p)\<rparr>) (filter (\<lambda>p. P (pi_id p)) ps)) = map g (filter P (map pi_id ps))"
  by (induction ps) auto

lemma compact_pending_ids:
  "map pi_id (al_pending (compact_allocator m al)) =
     map (remapPendingID m)
       (filter (\<lambda>i. map_of m i \<noteq> None \<or> \<not> (al_first al \<le> i \<and> i < al_next al)) (map pi_id (al_pending al)))"
  by (subst map_filter_pending [symmetric]) (simp add: compact_allocator_def)

lemma compact_allocator_ok:
  assumes "alloc_ok al"
  shows "alloc_ok (compact_allocator (compact_remap al as txf) al)"
    "al_first (compact_allocator (compact_remap al as txf) al) = al_first al"
    "al_next (compact_allocator (compact_remap al as txf) al) \<le> al_next al"
proof -
  let ?xs = "kept_order al as txf" let ?ys = "[al_first al .. al_first al + int (length ?xs) - 1]"
  let ?al = "compact_allocator (compact_remap al as txf) al"
  have len: "length ?ys = length ?xs" by simp
  have pend: "map pi_id (al_pending al) = [al_first al .. al_next al - 1]" using assms by (simp add: alloc_ok_def)
  have dom: "map_of (zip ?xs ?ys) x \<noteq> None \<longleftrightarrow> x \<in> set ?xs" for x
    using map_of_zip_is_None [OF len [symmetric], of x] by simp
  have mem: "set ?xs \<subseteq> set [al_first al .. al_next al - 1]" using kept_order_props(3) by force
  have "filter (\<lambda>i. map_of (zip ?xs ?ys) i \<noteq> None \<or> \<not> (al_first al \<le> i \<and> i < al_next al)) [al_first al .. al_next al - 1] = ?xs"
  proof (rule sorted_distinct_set_unique)
    show "set (filter (\<lambda>i. map_of (zip ?xs ?ys) i \<noteq> None \<or> \<not> (al_first al \<le> i \<and> i < al_next al)) [al_first al .. al_next al - 1]) = set ?xs"
      using mem by (auto simp: dom)
  qed (auto simp: kept_order_props intro: sorted_wrt_filter)
  then have "map pi_id (al_pending ?al) = ?ys"
    using remap_kept [OF kept_order_props(2) len] by (simp only: compact_remap_zip compact_pending_ids pend)
  moreover have "length ?xs \<le> nat (al_next al - al_first al)"
    using card_mono [OF _ mem] distinct_card [OF kept_order_props(2) [of al as txf]] by simp
  ultimately show "alloc_ok ?al" "al_first ?al = al_first al" "al_next ?al \<le> al_next al"
    using assms by (auto simp: compact_allocator_def compact_remap_zip alloc_ok_def)
qed

lemma update_id_fresh:
  "\<forall>(old, new) \<in> set m. old \<notin> id_id ` set (tb_ids tb) \<Longrightarrow> res_fold update_id m tb = Inr tb"
  by (induction m) (auto simp: update_id_def)

lemma remap_value_storable: "storable v \<Longrightarrow> storable (remap_value m v)"
  by (auto simp: remap_value_def storable_def indirect_tag_def split: option.splits)

lemma remap_fact_value [simp]: "pf_value (remap_fact m f) = remap_value m (pf_value f)" "pf_txTarget (remap_fact m f) = pf_txTarget f"
  by (simp_all add: remap_fact_def)

lemma remap_fact_Nil: "remap_fact [] f = f"
  by (cases f) (simp add: remap_fact_def remapPendingID_def remap_value_def)

text \<open>
  Every id of the registry is below \<open>al_first\<close>, so that compaction renames pending ids only: the tables do
  not change and the step does not fail.
\<close>

lemma compactPendingAllocations_Inr:
  assumes "plan_ok n pl" "\<forall>r \<in> set (tb_ids tb). id_id r < n"
  obtains as' pl' where "compactPendingAllocations as txf tb pl = Inr (as', tb, pl')"
    "alloc_ok (pl_alloc pl')" "al_first (pl_alloc pl') = n"
    "pl_assertions pl' = pl_assertions pl" "pl_retracts pl' = pl_retracts pl"
    "\<exists>m \<in> {[], compact_remap (pl_alloc pl) as txf}. as' = map (remap_fact m) as"
proof -
  let ?al = "pl_alloc pl" let ?m = "compact_remap ?al as txf"
  have al: "alloc_ok ?al" "al_first ?al = n" using assms(1) by (auto simp: plan_ok_def)
  have "n \<le> old" if "(old, new) \<in> set ?m" for old new
    using that kept_order_props(3) [of old ?al as txf] al(2) by (auto simp: compact_remap_zip dest: set_zip_leftD)
  then have "\<forall>(old, new) \<in> set ?m. old \<notin> id_id ` set (tb_ids tb)" using assms(2) by fastforce
  then have fresh: "res_fold update_id ?m tb = Inr tb" by (rule update_id_fresh)
  show thesis
  proof (cases "al_first ?al = al_next ?al \<or> (int (length ?m) = al_next ?al - al_first ?al \<and> list_all (\<lambda>(old, new). old = new) ?m)")
    case True
    then have same: "compactPendingAllocations as txf tb pl = Inr (as, tb, pl)"
      by (auto simp: compactPendingAllocations_def Let_def)
    have "as = map (remap_fact []) as" by (simp add: map_idI remap_fact_Nil)
    then show thesis using that [OF same al] by blast
  next
    case False
    then have "compactPendingAllocations as txf tb pl = Inr (map (remap_fact ?m) as, tb,
              pl\<lparr>pl_alloc := compact_allocator ?m ?al,
                 pl_tempids := map (\<lambda>(n, i). (n, remapPendingID ?m i))
                   (filter (\<lambda>(_, i). map_of ?m i \<noteq> None \<or> \<not> (al_first ?al \<le> i \<and> i < al_next ?al))
                     (pl_tempids pl))\<rparr>)"
      using fresh by (auto simp: compactPendingAllocations_def Let_def)
    then show thesis using that compact_allocator_ok [OF al(1), of as txf] al(2) by force
  qed
qed

subsection \<open>Properties\<close>























end
