(* ===== verification/DiffFacts.thy ===== *)
theory DiffFacts
  imports Diff TableFacts StoreFacts
begin

text \<open>
  Correctness of \<open>diffPlan\<close>: an abstract semantics of assertions and retractions on the set of live keys, and
  the refinement of the working-set loop to it.
\<close>

subsection \<open>The schema cache of a plan\<close>

definition plan_schema :: "db \<Rightarrow> transactionPlan \<Rightarrow> int \<Rightarrow> attributeSchema res" where
  "plan_schema d pl a =
    (case map_of (pl_schemas pl) a of
       Some sc \<Rightarrow> Inr sc
     | None \<Rightarrow> schemaForChanges d a (activePlanAssertions pl) (pl_retracts pl))"

text \<open>Reading a schema through the cache changes the cache only, and no later answer.\<close>

lemma schemaForPlan_Inr:
  assumes "schemaForPlan d a pl = Inr (sc, pl')"
  shows "plan_schema d pl a = Inr sc" "plan_schema d pl' = plan_schema d pl"
    "\<exists>m. pl' = pl\<lparr>pl_schemas := m\<rparr>"
proof -
  have cases: "(map_of (pl_schemas pl) a = Some sc \<and> pl' = pl) \<or>
     (map_of (pl_schemas pl) a = None
      \<and> schemaForChanges d a (activePlanAssertions pl) (pl_retracts pl) = Inr sc
      \<and> pl' = pl\<lparr>pl_schemas := AList.update a sc (pl_schemas pl)\<rparr>)"
    using assms by (auto simp: schemaForPlan_def res_iff split: option.splits)
  then show "plan_schema d pl a = Inr sc" by (auto simp: plan_schema_def)
  have "activePlanAssertions (pl\<lparr>pl_schemas := m\<rparr>) = activePlanAssertions pl" for m
    by (simp add: activePlanAssertions_def)
  then show "plan_schema d pl' = plan_schema d pl"
    using cases by (auto simp: plan_schema_def fun_eq_iff update_conv' split: option.splits if_splits)
  show "\<exists>m. pl' = pl\<lparr>pl_schemas := m\<rparr>"
    using cases by (metis (no_types, lifting) transactionPlan.surjective transactionPlan.update_convs(4))
qed

subsection \<open>The sequential semantics\<close>

definition key_hits :: "int list \<Rightarrow> retractRequest \<Rightarrow> factKey \<Rightarrow> bool" where
  "key_hits prot q = (\<lambda>(e, a, t, v).
     (e = rr_e q \<or> (rr_a q = None \<and> t = TagRef \<and> asInt64 v = rr_e q \<and> e > GenesisTx \<and> e \<notin> set prot))
     \<and> (case rr_a q of None \<Rightarrow> True | Some b \<Rightarrow> a = b)
     \<and> (case rr_value q of None \<Rightarrow> True | Some x \<Rightarrow> t = sv_tag x \<and> storageEqual v (sv_storage x)))"

definition same_slot :: "plannedFact \<Rightarrow> factKey \<Rightarrow> bool" where
  "same_slot f = (\<lambda>(e, a, _). e = pf_e f \<and> a = pf_a f)"

text \<open>
  What one operation does to the live keys: a retraction removes what it hits, an assertion of an absent key
  adds it and, on an attribute of cardinality one, replaces the old value of the entity.
\<close>

fun spec_step :: "(int \<Rightarrow> bool) \<Rightarrow> int list \<Rightarrow> operation \<Rightarrow> factKey set \<Rightarrow> factKey set" where
  "spec_step many prot (OpAssert f) S =
    (if planned_key f \<in> S then S
     else insert (planned_key f) (if many (pf_a f) then S else {k \<in> S. \<not> same_slot f k}))"
| "spec_step many prot (OpRetract q) S = (if rr_missing q then S else {k \<in> S. \<not> key_hits prot q k})"

definition spec_run :: "(int \<Rightarrow> bool) \<Rightarrow> int list \<Rightarrow> operation list \<Rightarrow> factKey set \<Rightarrow> factKey set" where
  "spec_run many prot ops S = fold (spec_step many prot) ops S"

subsection \<open>The invariant of the working set\<close>

definition working_keys :: "diffState \<Rightarrow> factKey set" where
  "working_keys st = fst ` set (ds_working st)"

text \<open>The entry of an inserted fact.\<close>

definition entry :: "plannedFact \<Rightarrow> factKey \<times> workingFact" where
  "entry f = (planned_key f, \<lparr>wf_origin = Planned f, wf_value = pf_value f, wf_e = pf_e f, wf_a = pf_a f\<rparr>)"

fun origin_ok :: "rawFact list \<Rightarrow> diffState \<Rightarrow> factKey \<Rightarrow> workingFact \<Rightarrow> origin \<Rightarrow> bool" where
  "origin_ok cur st k w (Raw r) \<longleftrightarrow> r \<in> set cur \<and> k = raw_key r \<and> w = raw_working r"
| "origin_ok cur st k w (Planned f) \<longleftrightarrow>
     f \<in> set (ds_inserted st) \<and> pf_order f \<notin> set (ds_canceled st) \<and> k = planned_key f
     \<and> w = snd (entry f)"

text \<open>
  Every entry is under its own key; a touched row is in the working set or in \<open>ds_byID\<close> and \<open>ds_byKey\<close>, never in
  both; an inserted fact is in the working set exactly until it is canceled.
\<close>

definition diff_inv :: "rawFact list \<Rightarrow> diffState \<Rightarrow> bool" where
  "diff_inv cur st \<longleftrightarrow>
     distinct (map fst (ds_working st))
     \<and> (\<forall>(k, w) \<in> set (ds_working st). origin_ok cur st k w (wf_origin w))
     \<and> (\<forall>r \<in> set cur. (raw_key r, raw_working r) \<in> set (ds_working st) \<longleftrightarrow> map_of (ds_byID st) (rf_id r) = None)
     \<and> (\<forall>i r. map_of (ds_byID st) i = Some r \<longrightarrow> r \<in> set cur \<and> rf_id r = i)
     \<and> distinct (map fst (ds_byID st))
     \<and> (\<forall>k i. map_of (ds_byKey st) k = Some i \<longleftrightarrow>
          (\<exists>r \<in> set cur. raw_key r = k \<and> rf_id r = i \<and> map_of (ds_byID st) i = Some r))
     \<and> (\<forall>f \<in> set (ds_inserted st). pf_order f \<notin> set (ds_canceled st) \<longleftrightarrow>
          entry f \<in> set (ds_working st))
     \<and> distinct (map pf_order (ds_inserted st))
     \<and> set (ds_canceled st) \<subseteq> pf_order ` set (ds_inserted st)"

definition rows_ok :: "rawFact list \<Rightarrow> bool" where
  "rows_ok cur \<longleftrightarrow> distinct (map rf_id cur) \<and> distinct (map raw_key cur)"

lemma rows_ok_inj:
  assumes "rows_ok cur" "r \<in> set cur" "r' \<in> set cur"
  shows "rf_id r = rf_id r' \<longleftrightarrow> r = r'" "raw_key r = raw_key r' \<longleftrightarrow> r = r'"
  using assms by (auto simp: rows_ok_def distinct_map inj_on_def)

lemma working_hits:
  assumes "origin_ok cur st k w (wf_origin w)"
  shows "retract_hits prot q w \<longleftrightarrow> key_hits prot q k" "wf_e w = pf_e f \<and> wf_a w = pf_a f \<longleftrightarrow> same_slot f k"
  using assms
  by (cases "wf_origin w"; auto simp: retract_hits_def key_hits_def raw_key_def raw_working_def planned_key_def
      fact_key_def stored_def storedEqual_def same_slot_def entry_def split: option.splits)+

lemma origin_ok_cong:
  "ds_inserted st' = ds_inserted st \<Longrightarrow> ds_canceled st' = ds_canceled st
   \<Longrightarrow> origin_ok cur st' k w x = origin_ok cur st k w x"
  by (cases x) simp_all

subsection \<open>Steps on the working set\<close>

lemma diff_invD:
  assumes "diff_inv cur st"
  shows "distinct (map fst (ds_working st))"
    "\<And>k w. (k, w) \<in> set (ds_working st) \<Longrightarrow> origin_ok cur st k w (wf_origin w)"
    "\<And>r. r \<in> set cur \<Longrightarrow>
       (raw_key r, raw_working r) \<in> set (ds_working st) \<longleftrightarrow> map_of (ds_byID st) (rf_id r) = None"
    "\<And>i r. map_of (ds_byID st) i = Some r \<Longrightarrow> r \<in> set cur \<and> rf_id r = i"
    "distinct (map fst (ds_byID st))"
    "\<And>k i. map_of (ds_byKey st) k = Some i \<longleftrightarrow>
       (\<exists>r \<in> set cur. raw_key r = k \<and> rf_id r = i \<and> map_of (ds_byID st) i = Some r)"
    "\<And>f. f \<in> set (ds_inserted st) \<Longrightarrow> pf_order f \<notin> set (ds_canceled st) \<longleftrightarrow>
       entry f \<in> set (ds_working st)"
    "distinct (map pf_order (ds_inserted st))"
    "set (ds_canceled st) \<subseteq> pf_order ` set (ds_inserted st)"
  using assms unfolding diff_inv_def by (blast | auto)+

lemma diff_invI:
  assumes "distinct (map fst (ds_working st))"
    "\<forall>(k, w) \<in> set (ds_working st). origin_ok cur st k w (wf_origin w)"
    "\<forall>r \<in> set cur. (raw_key r, raw_working r) \<in> set (ds_working st) \<longleftrightarrow> map_of (ds_byID st) (rf_id r) = None"
    "\<forall>i r. map_of (ds_byID st) i = Some r \<longrightarrow> r \<in> set cur \<and> rf_id r = i"
    "distinct (map fst (ds_byID st))"
    "\<forall>k i. map_of (ds_byKey st) k = Some i \<longleftrightarrow>
       (\<exists>r \<in> set cur. raw_key r = k \<and> rf_id r = i \<and> map_of (ds_byID st) i = Some r)"
    "\<forall>f \<in> set (ds_inserted st). pf_order f \<notin> set (ds_canceled st) \<longleftrightarrow>
       entry f \<in> set (ds_working st)"
    "distinct (map pf_order (ds_inserted st))"
    "set (ds_canceled st) \<subseteq> pf_order ` set (ds_inserted st)"
  shows "diff_inv cur st"
  unfolding diff_inv_def using assms by (intro conjI)

lemma set_AList_delete:
  "distinct (map fst xs) \<Longrightarrow> set (AList.delete k xs) = {x \<in> set xs. fst x \<noteq> k}"
  by (auto simp: AList.delete_eq)

lemma remove_working_fields:
  "ds_working (remove_working (k, w) st) = AList.delete k (ds_working st)"
  "ds_inserted (remove_working (k, w) st) = ds_inserted st"
  "ds_plan (remove_working (k, w) st) = ds_plan st"
  by (auto simp: remove_working_def Let_def split: origin.splits)

lemma remove_working_planned:
  "wf_origin w = Planned f \<Longrightarrow> ds_canceled (remove_working (k, w) st) = pf_order f # ds_canceled st"
  "wf_origin w = Planned f \<Longrightarrow> ds_byID (remove_working (k, w) st) = ds_byID st"
  "wf_origin w = Planned f \<Longrightarrow> ds_byKey (remove_working (k, w) st) = ds_byKey st"
  by (simp_all add: remove_working_def Let_def)

lemma remove_working_raw:
  "wf_origin w = Raw r \<Longrightarrow> ds_canceled (remove_working (k, w) st) = ds_canceled st"
  "wf_origin w = Raw r \<Longrightarrow> ds_byID (remove_working (k, w) st) = AList.update (rf_id r) r (ds_byID st)"
  "wf_origin w = Raw r \<Longrightarrow> ds_byKey (remove_working (k, w) st) = AList.update k (rf_id r) (ds_byKey st)"
  by (simp_all add: remove_working_def Let_def)

lemma entry_key_eq:
  assumes "diff_inv cur st" "(k, w) \<in> set (ds_working st)" "entry f \<in> set (ds_working st)" "planned_key f = k"
  shows "wf_origin w = Planned f"
proof -
  have "snd (entry f) = w"
    using assms diff_invD(1) [OF assms(1)] by (metis entry_def eq_key_imp_eq_value snd_conv)
  then show ?thesis by (auto simp: entry_def)
qed

lemma remove_raw_inv:
  assumes inv: "diff_inv cur st" and rows: "rows_ok cur" and mem: "(k, w) \<in> set (ds_working st)"
    and orig: "wf_origin w = Raw r"
  shows "diff_inv cur (remove_working (k, w) st)"
proof -
  note I = diff_invD [OF inv]
  let ?st = "remove_working (k, w) st"
  have kw: "k = raw_key r" "w = raw_working r" "r \<in> set cur" using I(2) [OF mem] orig by auto
  have wk: "set (ds_working ?st) = {x \<in> set (ds_working st). fst x \<noteq> k}"
    by (simp add: remove_working_fields set_AList_delete I(1))
  have byID: "map_of (ds_byID ?st) = (map_of (ds_byID st))(rf_id r \<mapsto> r)"
    using orig by (simp add: remove_working_raw update_conv')
  have byKey: "map_of (ds_byKey ?st) = (map_of (ds_byKey st))(k \<mapsto> rf_id r)"
    using orig by (simp add: remove_working_raw update_conv')
  have inj: "\<And>r'. r' \<in> set cur \<Longrightarrow> rf_id r' = rf_id r \<longleftrightarrow> r' = r" "\<And>r'. r' \<in> set cur \<Longrightarrow> raw_key r' = k \<longleftrightarrow> r' = r"
    using rows_ok_inj [OF rows] kw by auto
  have none: "map_of (ds_byID st) (rf_id r) = None" using I(3) [OF kw(3)] mem kw by simp
  have 1: "\<forall>(k', w') \<in> set (ds_working ?st). origin_ok cur ?st k' w' (wf_origin w')"
    using I(2) wk orig by (auto simp: origin_ok_cong [of ?st st] remove_working_fields remove_working_raw)
  have 2: "\<forall>r' \<in> set cur. (raw_key r', raw_working r') \<in> set (ds_working ?st) \<longleftrightarrow> map_of (ds_byID ?st) (rf_id r') = None"
    using I(3) inj wk byID by auto
  have 3: "\<forall>i r'. map_of (ds_byID ?st) i = Some r' \<longrightarrow> r' \<in> set cur \<and> rf_id r' = i"
    using I(4) kw byID by auto
  have 4: "\<forall>k' i. map_of (ds_byKey ?st) k' = Some i \<longleftrightarrow>
      (\<exists>r' \<in> set cur. raw_key r' = k' \<and> rf_id r' = i \<and> map_of (ds_byID ?st) i = Some r')"
    using I(6) inj kw none unfolding byID byKey by (auto split: if_splits)
  have 5: "\<forall>f \<in> set (ds_inserted ?st). pf_order f \<notin> set (ds_canceled ?st) \<longleftrightarrow> entry f \<in> set (ds_working ?st)"
    using I(7) entry_key_eq [OF inv mem] wk orig
    by (auto simp: remove_working_fields remove_working_raw entry_def)
  show ?thesis
    by (intro diff_invI 1 2 3 4 5)
      (use I(1,5,8,9) orig in \<open>simp_all add: remove_working_fields remove_working_raw distinct_update distinct_delete\<close>)
qed

lemma remove_planned_inv:
  assumes inv: "diff_inv cur st" and mem: "(k, w) \<in> set (ds_working st)" and orig: "wf_origin w = Planned f"
  shows "diff_inv cur (remove_working (k, w) st)"
proof -
  note I = diff_invD [OF inv]
  let ?st = "remove_working (k, w) st"
  have kw: "k = planned_key f" "w = snd (entry f)" "f \<in> set (ds_inserted st)"
    using I(2) [OF mem] orig by (auto simp: entry_def)
  have wk: "set (ds_working ?st) = {x \<in> set (ds_working st). fst x \<noteq> k}"
    by (simp add: remove_working_fields set_AList_delete I(1))
  have uniq: "x = (k, w)" if "x \<in> set (ds_working st)" "fst x = k" for x
    using that mem I(1) by (metis eq_key_imp_eq_value prod.collapse)
  have ord: "pf_order g = pf_order f \<longleftrightarrow> g = f" if "g \<in> set (ds_inserted st)" for g
    using that kw(3) I(8) by (auto simp: distinct_map inj_on_def)
  have 1: "\<forall>(k', w') \<in> set (ds_working ?st). origin_ok cur ?st k' w' (wf_origin w')"
  proof (clarify)
    fix k' w' assume m: "(k', w') \<in> set (ds_working ?st)"
    then have m': "(k', w') \<in> set (ds_working st)" "k' \<noteq> k" using wk by auto
    show "origin_ok cur ?st k' w' (wf_origin w')"
      using I(2) [OF m'(1)] m'(2) kw(1,3) ord orig
      by (cases "wf_origin w'") (auto simp: remove_working_fields remove_working_planned)
  qed
  have 2: "\<forall>r \<in> set cur. (raw_key r, raw_working r) \<in> set (ds_working ?st) \<longleftrightarrow> map_of (ds_byID ?st) (rf_id r) = None"
    using I(3) uniq orig wk by (fastforce simp: remove_working_planned raw_working_def)
  have 5: "\<forall>g \<in> set (ds_inserted ?st). pf_order g \<notin> set (ds_canceled ?st) \<longleftrightarrow> entry g \<in> set (ds_working ?st)"
  proof
    fix g assume g: "g \<in> set (ds_inserted ?st)"
    have "entry g \<in> set (ds_working st) \<Longrightarrow> fst (entry g) = k \<Longrightarrow> g = f"
      using entry_key_eq [OF inv mem, of g] orig by (auto simp: entry_def)
    then show "pf_order g \<notin> set (ds_canceled ?st) \<longleftrightarrow> entry g \<in> set (ds_working ?st)"
      using I(7) [of g] g ord wk orig kw(1,3) by (auto simp: remove_working_fields remove_working_planned entry_def)
  qed
  show ?thesis
    by (intro diff_invI 1 2 5)
      (use I(1,4,5,6,8,9) orig kw(3) in \<open>simp_all add: remove_working_fields remove_working_planned distinct_delete\<close>)
qed

lemma remove_inv:
  "diff_inv cur st \<Longrightarrow> rows_ok cur \<Longrightarrow> x \<in> set (ds_working st) \<Longrightarrow> diff_inv cur (remove_working x st)"
  by (cases x; cases "wf_origin (snd x)") (auto intro: remove_raw_inv remove_planned_inv)

lemma remove_all:
  assumes "diff_inv cur st" "rows_ok cur" "set xs \<subseteq> set (ds_working st)" "distinct (map fst xs)"
  shows "diff_inv cur (fold remove_working xs st)
    \<and> set (ds_working (fold remove_working xs st)) = {x \<in> set (ds_working st). fst x \<notin> fst ` set xs}
    \<and> ds_inserted (fold remove_working xs st) = ds_inserted st \<and> ds_plan (fold remove_working xs st) = ds_plan st"
  using assms
proof (induction xs arbitrary: st)
  case (Cons x xs)
  let ?st = "remove_working x st"
  have inv: "diff_inv cur ?st" using Cons.prems by (auto intro: remove_inv)
  have wk: "set (ds_working ?st) = {y \<in> set (ds_working st). fst y \<noteq> fst x}"
    using diff_invD(1) [OF Cons.prems(1)]
    by (cases x) (simp add: remove_working_fields set_AList_delete)
  have sub: "set xs \<subseteq> set (ds_working ?st)" using Cons.prems(3,4) wk by (auto simp: image_iff)
  show ?case
    using Cons.IH [OF inv Cons.prems(2) sub] Cons.prems(4) wk
    by (cases x) (auto simp: remove_working_fields)
qed simp

lemma filter_remove_all:
  assumes "diff_inv cur st" "rows_ok cur"
    and hit: "\<And>k w. (k, w) \<in> set (ds_working st) \<Longrightarrow> P (k, w) \<longleftrightarrow> Q k"
    and st': "st' = fold remove_working (filter P (ds_working st)) st"
  shows "diff_inv cur st'" "working_keys st' = {k \<in> working_keys st. \<not> Q k}"
    "ds_inserted st' = ds_inserted st" "ds_plan st' = ds_plan st"
proof -
  have dist: "distinct (map fst (filter P (ds_working st)))"
    using diff_invD(1) [OF assms(1)] by (simp add: distinct_map_filter)
  note all = remove_all [OF assms(1,2) _ dist, folded st']
  show "diff_inv cur st'" "ds_inserted st' = ds_inserted st" "ds_plan st' = ds_plan st"
    using all by auto
  have "set (ds_working st') = {x \<in> set (ds_working st). \<not> Q (fst x)}"
    using all hit diff_invD(1) [OF assms(1)] by (fastforce simp: image_iff dest: eq_key_imp_eq_value)
  then show "working_keys st' = {k \<in> working_keys st. \<not> Q k}"
    by (auto simp: working_keys_def)
qed

lemma diff_retract_step:
  assumes "diff_inv cur st" "rows_ok cur" "st' = diff_retract prot q st"
  shows "diff_inv cur st' \<and> working_keys st' = spec_step many prot (OpRetract q) (working_keys st)
      \<and> ds_inserted st' = ds_inserted st \<and> ds_plan st' = ds_plan st"
proof (cases "rr_missing q")
  case False
  have hit: "(\<lambda>(_, w). retract_hits prot q w) (k, w) \<longleftrightarrow> key_hits prot q k" if "(k, w) \<in> set (ds_working st)" for k w
    using working_hits(1) [OF diff_invD(2) [OF assms(1) that]] by simp
  have st': "st' = fold remove_working (filter (\<lambda>(_, w). retract_hits prot q w) (ds_working st)) st"
    using assms(3) False by (simp add: diff_retract_def)
  show ?thesis
    using filter_remove_all [OF assms(1,2) hit st'] False by simp
qed (use assms in \<open>simp add: diff_retract_def\<close>)

lemma displace_step:
  assumes "diff_inv cur st" "rows_ok cur" "displace f st = Inr st'"
  shows "diff_inv cur st'" "working_keys st' = {k \<in> working_keys st. \<not> same_slot f k}"
    "ds_inserted st' = ds_inserted st" "ds_plan st' = ds_plan st"
proof -
  have hit: "(\<lambda>(_, w). wf_e w = pf_e f \<and> wf_a w = pf_a f) (k, w) \<longleftrightarrow> same_slot f k"
    if "(k, w) \<in> set (ds_working st)" for k w
    using working_hits(2) [OF diff_invD(2) [OF assms(1) that]] by simp
  have st': "st' = fold remove_working (filter (\<lambda>(_, w). wf_e w = pf_e f \<and> wf_a w = pf_a f) (ds_working st)) st"
    using assms(3) by (auto simp: displace_def Let_def split: if_splits)
  show "diff_inv cur st'" "working_keys st' = {k \<in> working_keys st. \<not> same_slot f k}"
    "ds_inserted st' = ds_inserted st" "ds_plan st' = ds_plan st"
    using filter_remove_all [OF assms(1,2) hit st'] by simp_all
qed

lemma diff_inv_plan [simp]: "diff_inv cur (st\<lparr>ds_plan := p\<rparr>) = diff_inv cur st"
  unfolding diff_inv_def using origin_ok_cong [of "st\<lparr>ds_plan := p\<rparr>" st] by simp

lemma restore_step:
  assumes inv: "diff_inv cur st" and rows: "rows_ok cur" and absent: "k \<notin> working_keys st"
    and key: "map_of (ds_byKey st) k = Some i" and row: "map_of (ds_byID st) i = Some r"
  shows "diff_inv cur (restore k i r st)" "working_keys (restore k i r st) = insert k (working_keys st)"
    "ds_inserted (restore k i r st) = ds_inserted st" "ds_plan (restore k i r st) = ds_plan st"
proof -
  note I = diff_invD [OF inv]
  let ?st = "restore k i r st"
  have r: "r \<in> set cur" "rf_id r = i" "raw_key r = k"
    using I(4) [OF row] key row by (auto simp: I(6))
  have inj: "\<And>r'. r' \<in> set cur \<Longrightarrow> rf_id r' = i \<longleftrightarrow> r' = r" "\<And>r'. r' \<in> set cur \<Longrightarrow> raw_key r' = k \<longleftrightarrow> r' = r"
    using rows_ok_inj [OF rows] r by auto
  have fields: "ds_inserted ?st = ds_inserted st" "ds_canceled ?st = ds_canceled st" "ds_plan ?st = ds_plan st"
    "ds_byID ?st = AList.delete i (ds_byID st)" "ds_byKey ?st = AList.delete k (ds_byKey st)"
    "ds_working ?st = AList.update k (raw_working r) (ds_working st)"
    by (simp_all add: restore_def)
  have wk: "set (ds_working ?st) = insert (k, raw_working r) (set (ds_working st))"
  proof -
    have "map_of (ds_working st) k = None" using absent by (simp add: working_keys_def map_of_eq_None_iff)
    then show ?thesis unfolding fields by (simp add: update_append_new)
  qed
  show "working_keys ?st = insert k (working_keys st)" using wk by (auto simp: working_keys_def)
  show "ds_inserted ?st = ds_inserted st" "ds_plan ?st = ds_plan st" by (simp_all add: fields)
  have 1: "\<forall>(k', w') \<in> set (ds_working ?st). origin_ok cur ?st k' w' (wf_origin w')"
    using I(2) r wk by (auto simp: origin_ok_cong [of ?st st] fields raw_working_def)
  have 2: "\<forall>r' \<in> set cur. (raw_key r', raw_working r') \<in> set (ds_working ?st) \<longleftrightarrow> map_of (ds_byID ?st) (rf_id r') = None"
    using I(3) inj wk by (auto simp: fields delete_conv')
  have 4: "\<forall>k' j. map_of (ds_byKey ?st) k' = Some j \<longleftrightarrow>
      (\<exists>r' \<in> set cur. raw_key r' = k' \<and> rf_id r' = j \<and> map_of (ds_byID ?st) j = Some r')"
  proof (intro allI)
    fix k' j
    show "map_of (ds_byKey ?st) k' = Some j \<longleftrightarrow>
      (\<exists>r' \<in> set cur. raw_key r' = k' \<and> rf_id r' = j \<and> map_of (ds_byID ?st) j = Some r')"
      using I(6) [of k' j] inj r by (cases "k' = k") (auto simp: fields delete_conv')
  qed
  have 5: "\<forall>f \<in> set (ds_inserted ?st). pf_order f \<notin> set (ds_canceled ?st) \<longleftrightarrow> entry f \<in> set (ds_working ?st)"
    using I(7) wk by (auto simp: fields entry_def raw_working_def)
  show "diff_inv cur ?st"
    by (intro diff_invI 1 2 4 5)
      (use I(1,4,5,8,9) in \<open>auto simp: fields distinct_update distinct_delete delete_conv' split: if_splits\<close>)
qed

lemma insert_step:
  assumes inv: "diff_inv cur st" and absent: "planned_key f \<notin> working_keys st"
    and key: "map_of (ds_byKey st) (planned_key f) = None" and ord: "pf_order f \<notin> pf_order ` set (ds_inserted st)"
  shows "diff_inv cur (insert_working f st)" "working_keys (insert_working f st) = insert (planned_key f) (working_keys st)"
    "ds_inserted (insert_working f st) = ds_inserted st @ [f]" "ds_plan (insert_working f st) = ds_plan st"
proof -
  note I = diff_invD [OF inv]
  let ?st = "insert_working f st"
  have fields: "ds_inserted ?st = ds_inserted st @ [f]" "ds_canceled ?st = ds_canceled st" "ds_plan ?st = ds_plan st"
    "ds_byID ?st = ds_byID st" "ds_byKey ?st = ds_byKey st"
    "ds_working ?st = AList.update (planned_key f) (snd (entry f)) (ds_working st)"
    by (simp_all add: insert_working_def entry_def)
  have wk: "set (ds_working ?st) = insert (entry f) (set (ds_working st))"
  proof -
    have "map_of (ds_working st) (planned_key f) = None"
      using absent by (simp add: working_keys_def map_of_eq_None_iff)
    then show ?thesis unfolding fields by (simp add: update_append_new entry_def)
  qed
  have uncanceled: "pf_order f \<notin> set (ds_canceled st)" using ord I(9) by auto
  show "working_keys ?st = insert (planned_key f) (working_keys st)"
    using wk by (auto simp: working_keys_def entry_def)
  show "ds_inserted ?st = ds_inserted st @ [f]" "ds_plan ?st = ds_plan st" by (simp_all add: fields)
  have 1: "\<forall>(k', w') \<in> set (ds_working ?st). origin_ok cur ?st k' w' (wf_origin w')"
  proof clarify
    fix k' w' assume "(k', w') \<in> set (ds_working ?st)"
    then consider "(k', w') = entry f" | "(k', w') \<in> set (ds_working st)" using wk by auto
    then show "origin_ok cur ?st k' w' (wf_origin w')"
    proof cases
      case 2
      then show ?thesis using I(2) [OF 2] by (cases "wf_origin w'") (auto simp: fields)
    qed (use uncanceled in \<open>auto simp: entry_def fields\<close>)
  qed
  have 2: "\<forall>r \<in> set cur. (raw_key r, raw_working r) \<in> set (ds_working ?st) \<longleftrightarrow> map_of (ds_byID ?st) (rf_id r) = None"
    using I(3) wk by (auto simp: fields entry_def raw_working_def)
  have 5: "\<forall>g \<in> set (ds_inserted ?st). pf_order g \<notin> set (ds_canceled ?st) \<longleftrightarrow> entry g \<in> set (ds_working ?st)"
    using I(7) wk uncanceled ord by (auto simp: fields entry_def)
  show "diff_inv cur ?st"
    by (intro diff_invI 1 2 5) (use I(1,4,5,6,8,9) ord in \<open>auto simp: fields distinct_update\<close>)
qed

subsection \<open>The loop\<close>

definition many_of :: "db \<Rightarrow> transactionPlan \<Rightarrow> int \<Rightarrow> bool" where
  "many_of d pl a = (case plan_schema d pl a of Inr sc \<Rightarrow> sc_many sc | Inl _ \<Rightarrow> False)"

lemma absent_iff: "map_of (ds_working st) k \<noteq> None \<longleftrightarrow> k \<in> working_keys st"
  by (auto simp: working_keys_def map_of_eq_None_iff)

lemma working_keys_plan [simp]: "working_keys (st\<lparr>ds_plan := p\<rparr>) = working_keys st"
  by (simp add: working_keys_def)

lemma diff_assert_step:
  assumes inv: "diff_inv cur st" and rows: "rows_ok cur" and step: "diff_assert d f st = Inr st'"
    and ord: "pf_order f \<notin> pf_order ` set (ds_inserted st)" and sch: "plan_schema d (ds_plan st) = plan_schema d pl"
  shows "diff_inv cur st' \<and> working_keys st' = spec_step (many_of d pl) prot (OpAssert f) (working_keys st)
     \<and> plan_schema d (ds_plan st') = plan_schema d pl \<and> set (ds_inserted st') \<subseteq> insert f (set (ds_inserted st))"
proof (cases "planned_key f \<in> working_keys st")
  case True
  then show ?thesis using step inv sch absent_iff [of st "planned_key f"] by (auto simp: diff_assert_def)
next
  case False
  then obtain sc pl' st1 where s: "schemaForPlan d (pf_a f) (ds_plan st) = Inr (sc, pl')"
    and st1: "(if sc_many sc then Inr (st\<lparr>ds_plan := pl'\<rparr>) else displace f (st\<lparr>ds_plan := pl'\<rparr>)) = Inr st1"
    and cont: "(case map_of (ds_byKey st1) (planned_key f) of
           Some i \<Rightarrow> (case map_of (ds_byID st1) i of
               Some r \<Rightarrow> Inr (restore (planned_key f) i r st1) | None \<Rightarrow> Inr (restore (planned_key f) i zero_fact st1))
         | None \<Rightarrow> if sc_unique sc \<and> unique_conflict f st1 then fail ErrConflict else Inr (insert_working f st1)) = Inr st'"
    using step absent_iff [of st "planned_key f"] by (auto simp: diff_assert_def res_iff Let_def)
  have many: "sc_many sc = many_of d pl (pf_a f)" "plan_schema d pl' = plan_schema d pl"
    using schemaForPlan_Inr(1,2) [OF s] sch by (auto simp: many_of_def)
  let ?S = "if many_of d pl (pf_a f) then working_keys st else {k \<in> working_keys st. \<not> same_slot f k}"
  have inv1: "diff_inv cur st1" and keys1: "working_keys st1 = ?S" and ins1: "ds_inserted st1 = ds_inserted st"
    and plan1: "ds_plan st1 = pl'"
    using st1 inv displace_step [OF _ rows, of "st\<lparr>ds_plan := pl'\<rparr>" f st1] many(1) by (auto split: if_splits)
  have absent1: "planned_key f \<notin> working_keys st1" using False keys1 by auto
  show ?thesis
  proof (cases "map_of (ds_byKey st1) (planned_key f)")
    case None
    then have st': "st' = insert_working f st1" using cont by (auto split: if_splits)
    show ?thesis
      using insert_step [OF inv1 absent1 None] ord ins1 keys1 plan1 many(2) False unfolding st' by auto
  next
    case (Some i)
    then obtain r where r: "map_of (ds_byID st1) i = Some r" using diff_invD(6) [OF inv1] by blast
    then have st': "st' = restore (planned_key f) i r st1" using cont Some by simp
    show ?thesis
      using restore_step [OF inv1 rows absent1 Some r] ins1 keys1 plan1 many(2) False unfolding st' by auto
  qed
qed

fun op_fact :: "operation \<Rightarrow> plannedFact list" where
  "op_fact (OpAssert f) = [f]"
| "op_fact (OpRetract q) = []"

lemma diff_run:
  assumes "diff_inv cur st" "rows_ok cur" "res_fold (diff_step d prot) ops st = Inr st'"
    "distinct (map pf_order (concat (map op_fact ops)))"
    "pf_order ` set (concat (map op_fact ops)) \<inter> pf_order ` set (ds_inserted st) = {}"
    "plan_schema d (ds_plan st) = plan_schema d pl"
  shows "diff_inv cur st' \<and> working_keys st' = spec_run (many_of d pl) prot ops (working_keys st)"
  using assms
proof (induction ops arbitrary: st)
  case Nil
  then show ?case by (simp add: spec_run_def)
next
  case (Cons x ops)
  then obtain st1 where st1: "diff_step d prot x st = Inr st1" "res_fold (diff_step d prot) ops st1 = Inr st'"
    by (auto simp: res_iff)
  have one: "diff_inv cur st1 \<and> working_keys st1 = spec_step (many_of d pl) prot x (working_keys st)
     \<and> plan_schema d (ds_plan st1) = plan_schema d pl
     \<and> set (ds_inserted st1) \<subseteq> set (op_fact x) \<union> set (ds_inserted st)"
  proof (cases x)
    case (OpAssert f)
    then show ?thesis
      using diff_assert_step [OF Cons.prems(1,2), of d f st1 pl prot] st1(1) Cons.prems(5,6) by auto
  next
    case (OpRetract q)
    then show ?thesis
      using diff_retract_step [OF Cons.prems(1,2), of st1 prot q "many_of d pl"] st1(1) Cons.prems(6) by auto
  qed
  let ?rest = "pf_order ` set (concat (map op_fact ops))"
  have "pf_order ` set (ds_inserted st1) \<subseteq> pf_order ` set (op_fact x) \<union> pf_order ` set (ds_inserted st)"
    using one by (metis image_Un image_mono)
  moreover have "?rest \<inter> pf_order ` set (op_fact x) = {}" "?rest \<inter> pf_order ` set (ds_inserted st) = {}"
    "distinct (map pf_order (concat (map op_fact ops)))"
    using Cons.prems(4,5) by (simp_all add: image_Un Int_Un_distrib Int_commute)
  ultimately have dis: "?rest \<inter> pf_order ` set (ds_inserted st1) = {}"
    and dist: "distinct (map pf_order (concat (map op_fact ops)))" by blast+
  have "diff_inv cur st' \<and> working_keys st' = spec_run (many_of d pl) prot ops (working_keys st1)"
    using Cons.IH [OF _ Cons.prems(2) st1(2) dist dis] one by blast
  then show ?case using one by (simp add: spec_run_def)
qed

subsection \<open>The net rows\<close>

lemma diff_init_inv:
  assumes "rows_ok cur"
  shows "diff_inv cur (diff_init cur pl)" "working_keys (diff_init cur pl) = raw_key ` set cur"
proof -
  have dist: "distinct (map fst (map (\<lambda>f. (raw_key f, raw_working f)) cur))"
    using assms by (simp add: rows_ok_def comp_def)
  have put: "put_all kvs m = m @ kvs" if "distinct (map fst (m @ kvs))" for kvs and m :: "(factKey \<times> workingFact) list"
    using that
  proof (induction kvs arbitrary: m)
    case (Cons x kvs)
    then have "AList.update (fst x) (snd x) m = m @ [x]"
      by (simp add: update_append_new map_of_eq_None_iff)
    moreover have "put_all kvs (m @ [x]) = (m @ [x]) @ kvs" by (rule Cons.IH) (use Cons.prems in simp)
    ultimately show ?case by (cases x) (simp add: put_all_def)
  qed (simp add: put_all_def)
  have wk: "ds_working (diff_init cur pl) = map (\<lambda>f. (raw_key f, raw_working f)) cur"
    using put [of "[]", simplified, OF dist] by (simp add: diff_init_def initial_working_def)
  show "working_keys (diff_init cur pl) = raw_key ` set cur"
    by (auto simp: working_keys_def wk image_iff)
  show "diff_inv cur (diff_init cur pl)"
    using dist wk by (intro diff_invI) (auto simp: diff_init_def raw_working_def)
qed

lemma diff_result_rows:
  assumes inv: "diff_inv cur st" and rows: "rows_ok cur" and res: "diff_result st = (ins, rets, pl')"
  shows "set rets \<subseteq> set cur" "distinct (map rf_id rets)" "set ins \<subseteq> set (ds_inserted st)"
    "distinct (map planned_key ins)" "planned_key ` set ins \<inter> (raw_key ` set cur - raw_key ` set rets) = {}"
    "(raw_key ` set cur - raw_key ` set rets) \<union> planned_key ` set ins = working_keys st"
proof -
  note I = diff_invD [OF inv]
  have ins: "ins = filter (\<lambda>f. pf_order f \<notin> set (ds_canceled st)) (ds_inserted st)"
    and rets: "rets = sort_key rf_id (map snd (ds_byID st))"
    using res by (auto simp: diff_result_def)
  have mem: "r \<in> set rets \<longleftrightarrow> r \<in> set cur \<and> map_of (ds_byID st) (rf_id r) \<noteq> None" for r
  proof
    assume "r \<in> set rets"
    then obtain i where "(i, r) \<in> set (ds_byID st)" by (auto simp: rets)
    then have "map_of (ds_byID st) i = Some r" using I(5) by simp
    then show "r \<in> set cur \<and> map_of (ds_byID st) (rf_id r) \<noteq> None" using I(4) by blast
  next
    assume r: "r \<in> set cur \<and> map_of (ds_byID st) (rf_id r) \<noteq> None"
    then obtain r' where r': "map_of (ds_byID st) (rf_id r) = Some r'" by blast
    then have "r' = r" using I(4) [OF r'] r rows_ok_inj(1) [OF rows] by blast
    then show "r \<in> set rets" using map_of_SomeD [OF r'] by (force simp: rets)
  qed
  show "set rets \<subseteq> set cur" using mem by auto
  have ids: "map (rf_id \<circ> snd) (ds_byID st) = map fst (ds_byID st)"
    using I(4,5) by (auto intro!: map_cong simp: map_of_eq_Some_iff)
  show "distinct (map rf_id rets)" unfolding rets distinct_map_sort_key map_map ids by (rule I(5))
  show "set ins \<subseteq> set (ds_inserted st)" by (simp add: ins)
  have entries: "entry ` set ins \<subseteq> set (ds_working st)" using I(7) by (auto simp: ins)
  have keyinj: "f = g" if "f \<in> set ins" "g \<in> set ins" "planned_key f = planned_key g" for f g
  proof -
    have "entry f \<in> set (ds_working st)" "(planned_key g, snd (entry g)) \<in> set (ds_working st)"
      using that(1,2) entries by (auto simp: entry_def image_subset_iff)
    then show ?thesis using entry_key_eq [OF inv, of "planned_key g" "snd (entry g)" f] that(3)
      by (simp add: entry_def)
  qed
  have "distinct ins" using I(8) by (auto simp: ins distinct_map)
  then show "distinct (map planned_key ins)" using keyinj by (auto simp: distinct_map inj_on_def)
  have kept: "raw_key ` set cur - raw_key ` set rets = raw_key ` {r \<in> set cur. map_of (ds_byID st) (rf_id r) = None}"
  proof -
    have "inj_on raw_key (set cur)" using rows by (simp add: rows_ok_def distinct_map)
    moreover have "{r \<in> set cur. map_of (ds_byID st) (rf_id r) = None} = set cur - set rets" using mem by blast
    ultimately show ?thesis using mem by (metis (no_types, lifting) Diff_subset inj_on_image_set_diff subsetI)
  qed
  show "planned_key ` set ins \<inter> (raw_key ` set cur - raw_key ` set rets) = {}"
  proof -
    have False if "f \<in> set ins" "r \<in> set cur" "map_of (ds_byID st) (rf_id r) = None" "raw_key r = planned_key f" for f r
    proof -
      have "entry f \<in> set (ds_working st)" "(raw_key r, raw_working r) \<in> set (ds_working st)"
        using that(1-3) entries I(3) by auto
      then have "wf_origin (raw_working r) = Planned f" using entry_key_eq [OF inv] that(4) by simp
      then show False by (simp add: raw_working_def)
    qed
    then show ?thesis unfolding kept by auto
  qed
  show "(raw_key ` set cur - raw_key ` set rets) \<union> planned_key ` set ins = working_keys st"
  proof
    show "working_keys st \<subseteq> (raw_key ` set cur - raw_key ` set rets) \<union> planned_key ` set ins"
    proof
      fix k assume "k \<in> working_keys st"
      then obtain w where w: "(k, w) \<in> set (ds_working st)" by (auto simp: working_keys_def)
      show "k \<in> (raw_key ` set cur - raw_key ` set rets) \<union> planned_key ` set ins"
        using I(2) [OF w] w I(3) unfolding kept by (cases "wf_origin w") (auto simp: ins)
    qed
    show "(raw_key ` set cur - raw_key ` set rets) \<union> planned_key ` set ins \<subseteq> working_keys st"
      using entries I(3) unfolding kept by (force simp: working_keys_def entry_def image_subset_iff)
  qed
qed

text \<open>
  The rows that \<open>workingFactsForPlan\<close> loads are live rows of the table, and reading the schemas of the
  assertions leaves everything of the plan but its cache.
\<close>

lemma unique_assertions:
  assumes "res_fold (unique_assertion d) fs (out, pl) = Inr (uniq, pl')"
  shows "plan_schema d pl' = plan_schema d pl \<and> (\<exists>m. pl' = pl\<lparr>pl_schemas := m\<rparr>)
    \<and> set uniq = set out \<union> {f \<in> set fs. \<exists>sc. plan_schema d pl (pf_a f) = Inr sc \<and> sc_unique sc}
    \<and> (\<forall>f \<in> set fs. \<exists>sc. plan_schema d pl (pf_a f) = Inr sc)"
  using assms
proof (induction fs arbitrary: out pl)
  case Nil
  then show ?case by (auto intro: exI [of _ "pl_schemas pl"])
next
  case (Cons f fs)
  then obtain x where x: "unique_assertion d f (out, pl) = Inr x"
    and 0: "res_fold (unique_assertion d) fs x = Inr (uniq, pl')" by (auto simp: res_iff)
  then obtain sc pl1 where 1: "schemaForPlan d (pf_a f) pl = Inr (sc, pl1)"
    and "x = (if sc_unique sc then out @ [f] else out, pl1)"
    by (auto simp: unique_assertion_def res_iff)
  then have 2: "res_fold (unique_assertion d) fs (if sc_unique sc then out @ [f] else out, pl1) = Inr (uniq, pl')"
    using 0 by simp
  note s = schemaForPlan_Inr [OF 1]
  show ?case using Cons.IH [OF 2] s by (auto split: if_splits)
qed

lemma workingFacts_Inr:
  assumes "workingFactsForPlan d pl = Inr (cur, pl1)"
  shows "plan_schema d pl1 = plan_schema d pl" "\<exists>m. pl1 = pl\<lparr>pl_schemas := m\<rparr>"
    "\<exists>uniq. cur = select_facts (working_row d pl uniq) (db_tables d)
       \<and> set uniq = {f \<in> set (pl_assertions pl). \<exists>sc. plan_schema d pl (pf_a f) = Inr sc \<and> sc_unique sc}"
  using assms by (auto simp: workingFactsForPlan_def res_iff dest!: unique_assertions)

lemma concat_op_fact_sort:
  "mset (concat (map op_fact (plan_operations pl))) = mset (pl_assertions pl)"
proof -
  have m: "mset (concat (map op_fact xs)) = sum_mset (image_mset (mset \<circ> op_fact) (mset xs))" for xs
    by (induction xs) simp_all
  have a: "concat (map op_fact (map OpAssert fs)) = fs" "concat (map op_fact (map OpRetract qs)) = []" for fs qs
    by (induction fs; simp) (induction qs; simp)
  have "mset (concat (map op_fact (plan_operations pl)))
      = mset (concat (map op_fact (map OpAssert (pl_assertions pl) @ map OpRetract (pl_retracts pl))))"
    by (simp only: m plan_operations_def mset_sort)
  also have "\<dots> = mset (pl_assertions pl)" by (simp only: map_append concat_append a append_Nil2)
  finally show ?thesis .
qed

lemma plan_operations_schemas [simp]: "plan_operations (pl\<lparr>pl_schemas := m\<rparr>) = plan_operations pl"
  by (simp add: plan_operations_def)

lemma diffPlan_net:
  assumes run: "diffPlan d pl = Inr (ins, rets, pl')" and ord: "distinct (map pf_order (pl_assertions pl))"
    and work: "workingFactsForPlan d pl = Inr (cur, pl1)" and rows: "rows_ok cur"
  shows "(raw_key ` set cur - raw_key ` set rets) \<union> planned_key ` set ins
      = spec_run (many_of d pl) (protected_owners cur) (plan_operations pl) (raw_key ` set cur)"
    "set rets \<subseteq> set cur" "distinct (map rf_id rets)" "distinct (map planned_key ins)"
    "planned_key ` set ins \<inter> (raw_key ` set cur - raw_key ` set rets) = {}"
proof -
  obtain m where m: "pl1 = pl\<lparr>pl_schemas := m\<rparr>" using workingFacts_Inr(2) [OF work] by blast
  obtain st where st: "res_fold (diff_step d (protected_owners cur)) (plan_operations pl) (diff_init cur pl1) = Inr st"
    and res: "diff_result st = (ins, rets, pl')"
    using run work m by (auto simp: diffPlan_def res_iff)
  have dist: "distinct (map pf_order (concat (map op_fact (plan_operations pl))))"
    using ord by (metis concat_op_fact_sort mset_map mset_eq_imp_distinct_iff)
  have sch: "plan_schema d (ds_plan (diff_init cur pl1)) = plan_schema d pl"
    using workingFacts_Inr(1) [OF work] by (simp add: diff_init_def)
  have run: "diff_inv cur st \<and> working_keys st
      = spec_run (many_of d pl) (protected_owners cur) (plan_operations pl) (working_keys (diff_init cur pl1))"
    by (rule diff_run [OF diff_init_inv(1) [OF rows] rows st dist _ sch]) (simp add: diff_init_def)
  note rows' = diff_result_rows [OF conjunct1 [OF run] rows res]
  show "(raw_key ` set cur - raw_key ` set rets) \<union> planned_key ` set ins
      = spec_run (many_of d pl) (protected_owners cur) (plan_operations pl) (raw_key ` set cur)"
    using run rows'(6) diff_init_inv(2) [OF rows, of pl1] by simp
  show "set rets \<subseteq> set cur" "distinct (map rf_id rets)" "distinct (map planned_key ins)"
    "planned_key ` set ins \<inter> (raw_key ` set cur - raw_key ` set rets) = {}"
    using rows' by blast+
qed

subsection \<open>What a diff leaves alone\<close>

definition diff_frame :: "plannedFact set \<Rightarrow> transactionPlan \<Rightarrow> diffState \<Rightarrow> bool" where
  "diff_frame A pl st \<longleftrightarrow> set (ds_inserted st) \<subseteq> A \<and> (\<exists>m. ds_plan st = pl\<lparr>pl_schemas := m\<rparr>)"

lemma remove_working_frame:
  "ds_inserted (fold remove_working xs st) = ds_inserted st \<and> ds_plan (fold remove_working xs st) = ds_plan st"
proof (induction xs arbitrary: st)
  case (Cons x xs)
  then show ?case using remove_working_fields [of "fst x" "snd x" st] by simp
qed simp

lemma displace_frame: "displace f st = Inr st' \<Longrightarrow> ds_inserted st' = ds_inserted st \<and> ds_plan st' = ds_plan st"
  using remove_working_frame by (auto simp: displace_def Let_def split: if_splits)

lemma diff_step_frame:
  assumes "diff_step d prot x st = Inr st'" "diff_frame A pl st" "set (op_fact x) \<subseteq> A"
  shows "diff_frame A pl st'"
proof (cases x)
  case (OpRetract q)
  then show ?thesis
    using assms(1,2) by (cases "rr_missing q") (auto simp: diff_frame_def diff_retract_def remove_working_frame)
next
  case (OpAssert f)
  show ?thesis
  proof (cases "map_of (ds_working st) (planned_key f)")
    case None
    then obtain sc pl' st1 where sch: "schemaForPlan d (pf_a f) (ds_plan st) = Inr (sc, pl')"
      and st1: "(if sc_many sc then Inr (st\<lparr>ds_plan := pl'\<rparr>) else displace f (st\<lparr>ds_plan := pl'\<rparr>)) = Inr st1"
      and rest: "(case map_of (ds_byKey st1) (planned_key f) of
           Some i \<Rightarrow>
            (case map_of (ds_byID st1) i of
               Some r \<Rightarrow> Inr (restore (planned_key f) i r st1)
             | None \<Rightarrow> Inr (restore (planned_key f) i zero_fact st1))
         | None \<Rightarrow>
            if sc_unique sc \<and> unique_conflict f st1 then fail ErrConflict
            else Inr (insert_working f st1)) = Inr st'"
      using assms(1) OpAssert by (auto simp: diff_assert_def Let_def res_bind_Inr_iff)
    have fin: "st' = insert_working f st1 \<or> (\<exists>i r. st' = restore (planned_key f) i r st1)"
      using rest by (auto split: option.splits if_splits)
    have "ds_inserted st1 = ds_inserted st \<and> ds_plan st1 = pl'"
      using st1 displace_frame by (fastforce split: if_splits)
    then show ?thesis
      using fin assms(2,3) OpAssert schemaForPlan_Inr(3) [OF sch]
      by (auto simp: diff_frame_def insert_working_def restore_def)
  qed (use assms OpAssert in \<open>simp add: diff_assert_def\<close>)
qed

lemma diffPlan_frame:
  assumes "diffPlan d pl = Inr (ins, rets, pl')"
  shows "set ins \<subseteq> set (pl_assertions pl)" "\<exists>m. pl' = pl\<lparr>pl_schemas := m\<rparr>"
proof -
  obtain cur pl1 st where w: "workingFactsForPlan d pl = Inr (cur, pl1)"
    and run: "res_fold (diff_step d (protected_owners cur)) (plan_operations pl1) (diff_init cur pl1) = Inr st"
    and res: "diff_result st = (ins, rets, pl')"
    using assms by (auto simp: diffPlan_def res_iff)
  obtain m where m: "pl1 = pl\<lparr>pl_schemas := m\<rparr>" using workingFacts_Inr(2) [OF w] by blast
  have facts: "set (op_fact x) \<subseteq> set (pl_assertions pl)" if "x \<in> set (plan_operations pl1)" for x
    using that by (auto simp: plan_operations_def m)
  have "diff_frame (set (pl_assertions pl)) pl st"
  proof (rule res_fold_invariant [where P = "diff_frame (set (pl_assertions pl)) pl", OF run])
    show "diff_frame (set (pl_assertions pl)) pl (diff_init cur pl1)" by (auto simp: diff_frame_def diff_init_def m)
  qed (use facts diff_step_frame in blast)
  then show "set ins \<subseteq> set (pl_assertions pl)" "\<exists>m. pl' = pl\<lparr>pl_schemas := m\<rparr>"
    using res by (auto simp: diff_frame_def diff_result_def)
qed

text \<open>The loaded rows are live rows of the table, told apart by their ids and by their keys.\<close>

lemma sql_eq_refl: "\<not> sql_null v \<Longrightarrow> sql_eq v v"
  by (cases v) (auto simp: f64_eq_def)

lemma workingFacts_rows:
  assumes "workingFactsForPlan d pl = Inr (cur, pl1)" "facts_ok (db_tables d)"
  shows "rows_ok cur" "set cur \<subseteq> live_set (db_tables d)"
proof -
  obtain uniq where cur: "cur = select_facts (working_row d pl uniq) (db_tables d)"
    using workingFacts_Inr(3) [OF assms(1)] by blast
  show live: "set cur \<subseteq> live_set (db_tables d)" by (auto simp: cur select_facts_def live_set_def working_row_def)
  have ids: "distinct (map rf_id cur)"
    using facts_ok_distinct [OF assms(2)] by (simp add: cur select_facts_def distinct_map_filter)
  have "inj_on raw_key (set cur)"
  proof (rule inj_onI)
    fix f g assume fg: "f \<in> set cur" "g \<in> set cur" "raw_key f = raw_key g"
    then have mem: "f \<in> set (tb_facts (db_tables d))" "g \<in> set (tb_facts (db_tables d))" "live f" "live g"
      using live by (auto simp: live_set_def)
    then have "clash f g"
      using fg(3) assms(2) by (auto simp: clash_def raw_key_def facts_ok_def intro: sql_eq_refl)
    then show "f = g" using facts_ok_no_clash [OF assms(2)] mem by blast
  qed
  then show "rows_ok cur" using ids by (auto simp: rows_ok_def distinct_map)
qed

end
