(* ===== verification/CommitFacts.thy ===== *)
theory CommitFacts
  imports Commit IdentityFacts DiffFacts
begin

text \<open>
  The writes of a transaction and the invariant of the tables: inserting and retracting facts, finalizing and
  compacting identities, collecting blobs, recording the event. A committed transaction takes the retracted
  rows out of the live facts, adds one row per net assertion, and keeps every table invariant.
\<close>

subsection \<open>Inserting a fact\<close>

definition new_row :: "int \<Rightarrow> int \<Rightarrow> plannedFact \<Rightarrow> rawFact" where
  "new_row tx i f =
    \<lparr>rf_id = i, rf_e = pf_e f, rf_a = pf_a f, rf_v = sv_storage (pf_value f), rf_t = sv_tag (pf_value f),
     rf_tx = tx, rf_rx = None\<rparr>"

lemma new_row_fields [simp]:
  "rf_id (new_row tx i f) = i" "rf_tx (new_row tx i f) = tx" "rf_rx (new_row tx i f) = None"
  "rf_t (new_row tx i f) = sv_tag (pf_value f)" "rf_v (new_row tx i f) = sv_storage (pf_value f)"
  "raw_key (new_row tx i f) = planned_key f" "live (new_row tx i f)"
  by (simp_all add: new_row_def raw_key_def planned_key_def fact_key_def live_def)

lemma res_wrap_Inr [simp]: "res_wrap k m = Inr x \<longleftrightarrow> m = Inr x"
  by (auto simp: res_wrap_def split: sum.splits)

lemma insert_fts_iff:
  "insert_fts i s tb = Inr tb' \<longleftrightarrow> i \<notin> fst ` set (tb_fts tb) \<and> tb' = tb\<lparr>tb_fts := tb_fts tb @ [(i, s)]\<rparr>"
  by (auto simp: insert_fts_def)

definition with_blob :: "storedValue \<Rightarrow> tables \<Rightarrow> tables" where
  "with_blob v tb = (case sv_blob v of None \<Rightarrow> tb | Some b \<Rightarrow> insert_blob (sv_hash v) b tb)"

lemma with_blob_fields [simp]:
  "tb_facts (with_blob v tb) = tb_facts tb" "tb_fts (with_blob v tb) = tb_fts tb" "tb_ids (with_blob v tb) = tb_ids tb"
  "tb_seq (with_blob v tb) = tb_seq tb" "tb_events (with_blob v tb) = tb_events tb"
  "tb_next_id (with_blob v tb) = tb_next_id tb"
  by (simp_all add: with_blob_def split: option.splits)

text \<open>The tables after \<open>insertFact\<close>, and what its success implies.\<close>

lemma insertFact_Inr:
  assumes "insertFact tx f tb = Inr (i, tb')" "storable (pf_value f)"
  shows "i = tb_seq tb + 1"
    "insert_fact_row (pf_e f) (pf_a f) (sv_storage (pf_value f)) (sv_tag (pf_value f)) tx (with_blob (pf_value f) tb)
       = Inr (i, (with_blob (pf_value f) tb)\<lparr>tb_facts := tb_facts tb @ [new_row tx i f], tb_seq := i\<rparr>)"
    "if text_tag (sv_tag (pf_value f))
     then \<exists>s. sv_logical (pf_value f) = AStr s \<and> i \<notin> fst ` set (tb_fts tb) \<and>
       tb' = (with_blob (pf_value f) tb)\<lparr>tb_facts := tb_facts tb @ [new_row tx i f], tb_seq := i, tb_fts := tb_fts tb @ [(i, s)]\<rparr>
     else tb' = (with_blob (pf_value f) tb)\<lparr>tb_facts := tb_facts tb @ [new_row tx i f], tb_seq := i\<rparr>"
proof -
  obtain j tb2 where row: "insert_fact_row (pf_e f) (pf_a f) (sv_storage (pf_value f)) (sv_tag (pf_value f)) tx (with_blob (pf_value f) tb) = Inr (j, tb2)"
    and rest: "(if text_tag (sv_tag (pf_value f))
      then (case sv_logical (pf_value f) of AStr text \<Rightarrow> res_bind (res_wrap ErrFormat (insert_fts j text tb2)) (\<lambda>tb3. Inr (j, tb3)) | _ \<Rightarrow> fail ErrFormat)
      else Inr (j, tb2)) = Inr (i, tb')"
    using assms(1) by (auto simp: insertFact_def Let_def with_blob_def text_tag_def res_iff)
  note r = insert_fact_row_Inr [OF row]
  have j: "j = i" using rest by (auto simp: res_iff split: if_splits any.splits)
  have tb2: "tb2 = (with_blob (pf_value f) tb)\<lparr>tb_facts := tb_facts tb @ [new_row tx i f], tb_seq := i\<rparr>"
    using r(1,3) j by (simp add: new_row_def)
  show "i = tb_seq tb + 1" using r(1) j by simp
  show "insert_fact_row (pf_e f) (pf_a f) (sv_storage (pf_value f)) (sv_tag (pf_value f)) tx (with_blob (pf_value f) tb)
       = Inr (i, (with_blob (pf_value f) tb)\<lparr>tb_facts := tb_facts tb @ [new_row tx i f], tb_seq := i\<rparr>)"
    using row tb2 j by simp
  show "if text_tag (sv_tag (pf_value f))
     then \<exists>s. sv_logical (pf_value f) = AStr s \<and> i \<notin> fst ` set (tb_fts tb) \<and>
       tb' = (with_blob (pf_value f) tb)\<lparr>tb_facts := tb_facts tb @ [new_row tx i f], tb_seq := i, tb_fts := tb_fts tb @ [(i, s)]\<rparr>
     else tb' = (with_blob (pf_value f) tb)\<lparr>tb_facts := tb_facts tb @ [new_row tx i f], tb_seq := i\<rparr>"
    using rest tb2 j by (auto simp: res_iff insert_fts_iff split: any.splits) force
qed

lemma insertFact_fields:
  assumes "insertFact tx f tb = Inr (i, tb')" "storable (pf_value f)"
  shows "tb_facts tb' = tb_facts tb @ [new_row tx i f]" "tb_seq tb' = i" "tb_ids tb' = tb_ids tb"
    "tb_events tb' = tb_events tb" "tb_next_id tb' = tb_next_id tb" "tb_blobs tb' = tb_blobs (with_blob (pf_value f) tb)"
  using insertFact_Inr(3) [OF assms] by (auto split: if_splits)

lemma insertFact_live:
  "insertFact tx f tb = Inr (i, tb') \<Longrightarrow> storable (pf_value f) \<Longrightarrow> live_set tb' = insert (new_row tx i f) (live_set tb)"
  by (auto simp: live_set_def insertFact_fields)

lemma insertFact_blobs:
  assumes "insertFact tx f tb = Inr (i, tb')" "storable (pf_value f)" "blobs_ok C tb"
  shows "blobs_ok C tb'"
proof -
  let ?v = "pf_value f"
  let ?w = "(with_blob ?v tb)\<lparr>tb_facts := tb_facts tb @ [new_row tx i f], tb_seq := i\<rparr>"
  note row = insertFact_Inr(2) [OF assms(1,2)]
  have w: "blobs_ok C ?w"
  proof (cases "indirect_tag (sv_tag ?v)")
    case True
    then obtain b where b: "sv_blob ?v = Some b" "sv_storage ?v = SBlob (sv_hash ?v)"
      using assms(2) by (auto simp: storable_def split: option.splits)
    have "blobs_ok (insert (sv_hash ?v) C) ?w"
      by (rule blobs_ok_insert [OF row]) (use assms(3) b in \<open>auto simp: with_blob_def intro: blobs_ok_insert_blob\<close>)
    then show ?thesis by (rule blobs_ok_discharge [where f = "new_row tx i f"]) (use True b in \<open>auto simp: refers_def\<close>)
  next
    case False
    then have "with_blob ?v tb = tb" using assms(2) by (auto simp: storable_def with_blob_def)
    then show ?thesis using False assms(3) by (intro blobs_ok_insert [OF row]) simp_all
  qed
  have "tb_facts tb' = tb_facts ?w" "tb_blobs tb' = tb_blobs ?w" using insertFact_fields [OF assms(1,2)] by simp_all
  then show ?thesis using w by (simp add: blobs_ok_def blob_keys_def)
qed

lemma insertFact_facts:
  assumes "insertFact tx f tb = Inr (i, tb')" "storable (pf_value f)" "facts_ok tb"
  shows "facts_ok tb'"
proof -
  have "facts_ok ((with_blob (pf_value f) tb)\<lparr>tb_facts := tb_facts tb @ [new_row tx i f], tb_seq := i\<rparr>)"
    by (rule insert_fact_row_ok [OF insertFact_Inr(2) [OF assms(1,2)]]) (use assms(3) in \<open>simp add: facts_ok_def\<close>)
  then show ?thesis using insertFact_fields [OF assms(1,2)] by (simp add: facts_ok_def)
qed

lemma insertFact_fts:
  assumes "insertFact tx f tb = Inr (i, tb')" "storable (pf_value f)" "facts_ok tb" "fts_ok tb"
  shows "fts_ok tb'"
proof -
  note live = insertFact_live [OF assms(1,2)]
  have i: "rf_id g \<noteq> i" if "g \<in> live_set tb" for g
    using that assms(3) insertFact_Inr(1) [OF assms(1,2)] by (fastforce simp: live_set_def facts_ok_def)
  have ftsrow: "j \<noteq> i" if "(j, s) \<in> set (tb_fts tb)" for j s
  proof -
    have "j \<in> rf_id ` {f \<in> live_set tb. text_tag (rf_t f)}"
      using that assms(4) by (force simp: fts_ok_def)
    then show ?thesis using i by auto
  qed
  show ?thesis
  proof (cases "text_tag (sv_tag (pf_value f))")
    case True
    then obtain s where s: "sv_logical (pf_value f) = AStr s" "i \<notin> fst ` set (tb_fts tb)" "tb_fts tb' = tb_fts tb @ [(i, s)]"
      using insertFact_Inr(3) [OF assms(1,2)] by auto
    have "{g \<in> live_set tb'. text_tag (rf_t g)} = insert (new_row tx i f) {g \<in> live_set tb. text_tag (rf_t g)}"
      using live True by auto
    moreover have "sv_storage (pf_value f) = SText s" if "sv_tag (pf_value f) = TagText"
      using that assms(2) s(1) by (auto simp: storable_def)
    ultimately show ?thesis using assms(4) s i live by (auto simp: fts_ok_def dest: ftsrow)
  next
    case False
    have "{g \<in> live_set tb'. text_tag (rf_t g)} = {g \<in> live_set tb. text_tag (rf_t g)}"
      using live False by auto
    moreover have "tb_fts tb' = tb_fts tb" using insertFact_Inr(3) [OF assms(1,2)] False by auto
    ultimately show ?thesis using assms(4) live False ftsrow by (auto simp: fts_ok_def text_tag_def)
  qed
qed

lemma insertFact_content:
  "insertFact tx f tb = Inr (i, tb') \<Longrightarrow> storable (pf_value f) \<Longrightarrow> content_ok C tb \<Longrightarrow> content_ok C tb'"
  by (auto simp: content_ok_def intro: insertFact_facts insertFact_fts insertFact_blobs)

subsection \<open>Retracting a row\<close>

text \<open>A retracted row leaves the live facts; it stays as history unless its attribute keeps none.\<close>

lemma retract_row_cases:
  assumes "retract_row d tx f = Inr tb'"
  obtains (delete) sc where "schemaFor d (rf_a f) = Inr sc" "deletesHistory sc"
      "tb' = (if text_tag (rf_t f) then delete_fts (rf_id f) (delete_fact (rf_id f) (db_tables d))
              else delete_fact (rf_id f) (db_tables d))"
  | (close) sc tb1 where "schemaFor d (rf_a f) = Inr sc" "\<not> deletesHistory sc"
      "retract_fact tx (rf_id f) (db_tables d) = Inr tb1"
      "tb' = (if text_tag (rf_t f) then delete_fts (rf_id f) tb1 else tb1)"
proof -
  obtain sc tb1 where sc: "schemaFor d (rf_a f) = Inr sc"
    and tb1: "(if deletesHistory sc then Inr (delete_fact (rf_id f) (db_tables d))
       else res_wrap ErrFormat (retract_fact tx (rf_id f) (db_tables d))) = Inr tb1"
    and tb': "tb' = (if text_tag (rf_t f) then delete_fts (rf_id f) tb1 else tb1)"
    using assms by (auto simp: retract_row_def text_tag_def res_iff)
  show thesis
  proof (cases "deletesHistory sc")
    case True
    then show thesis using delete [OF sc] tb1 tb' by simp
  next
    case False
    then show thesis using close [OF sc] tb1 tb' by simp
  qed
qed

lemma retract_row_fields:
  assumes "retract_row d tx f = Inr tb'"
  shows "tb_ids tb' = tb_ids (db_tables d)" "tb_events tb' = tb_events (db_tables d)"
    "tb_next_id tb' = tb_next_id (db_tables d)" "tb_seq tb' = tb_seq (db_tables d)"
    "tb_blobs tb' = tb_blobs (db_tables d)"
  using assms
  by (cases rule: retract_row_cases; force simp: delete_fts_def delete_fact_def dest!: retract_fact_Inr(1))+

lemma retract_row_content:
  assumes "retract_row d tx f = Inr tb'" "content_ok C (db_tables d)" "f \<in> live_set (db_tables d)"
  shows "content_ok (C \<union> {h. refers h f}) tb'" "live_set tb' = live_set (db_tables d) - {f}"
proof -
  let ?tb = "db_tables d"
  have ok: "facts_ok ?tb" "fts_ok ?tb" "blobs_ok C ?tb" and mem: "f \<in> set (tb_facts ?tb)"
    using assms(2,3) by (auto simp: content_ok_def live_set_def)
  have weak: "blobs_ok (C \<union> D) tb" if "blobs_ok C tb" for D tb
    using that by (auto simp: blobs_ok_def)
  have "content_ok (C \<union> {h. refers h f}) tb' \<and> live_set tb' = live_set ?tb - {f}"
    using assms(1)
  proof (cases rule: retract_row_cases)
    case (delete sc)
    show ?thesis
      unfolding delete(3) content_ok_def
      using facts_ok_delete [OF ok(1)] fts_ok_remove [OF ok(1,2) assms(3) live_set_delete [OF ok(1) mem]]
        blobs_ok_delete [OF ok(3,1) mem] live_set_delete [OF ok(1) mem] by simp
  next
    case (close sc tb1)
    have "tb_fts tb1 = tb_fts ?tb" using retract_fact_Inr(1) [OF close(3)] by simp
    then show ?thesis
      unfolding close(4) content_ok_def
      using facts_ok_retract [OF ok(1) close(3)] fts_ok_remove [OF ok(1,2) assms(3) live_set_retract [OF ok(1) mem close(3)]]
        weak [OF blobs_ok_retract [OF ok(3) close(3)]] live_set_retract [OF ok(1) mem close(3)] by simp
  qed
  then show "content_ok (C \<union> {h. refers h f}) tb'" "live_set tb' = live_set ?tb - {f}" by auto
qed


lemma refers_garbage: "{h. refers h f} = set (garbage_candidate f)"
proof -
  have "refers h f \<longleftrightarrow> h \<in> set (garbage_candidate f)" for h
    unfolding refers_def garbage_candidate_def
    by (cases "indirect_tag (rf_t f)"; cases "rf_v f") auto
  then show ?thesis by blast
qed

subsection \<open>The runs of the writer\<close>

text \<open>Tables that differ in facts, full text and blobs only.\<close>

definition same_registry :: "tables \<Rightarrow> tables \<Rightarrow> bool" where
  "same_registry tb tb' \<longleftrightarrow>
     tb_ids tb' = tb_ids tb \<and> tb_events tb' = tb_events tb \<and> tb_next_id tb' = tb_next_id tb"

lemma insert_planned_Inr:
  "insert_planned al tx f (s, out) = Inr x \<longleftrightarrow>
     (\<exists>i tb. insertFact tx f (st_tables s) = Inr (i, tb) \<and>
        x = (s\<lparr>st_tables := tb\<rparr>, out @ [renderPlanned (s\<lparr>st_tables := tb\<rparr>) al i f tx]))"
  by (auto simp: insert_planned_def Let_def res_iff)

lemma insert_run:
  assumes "res_fold (insert_planned al tx) fs (s, out) = Inr (s', out')"
    and "\<forall>f \<in> set fs. storable (pf_value f)" "content_ok C (st_tables s)"
  shows "content_ok C (st_tables s') \<and> same_registry (st_tables s) (st_tables s')
    \<and> (\<exists>rows. tb_facts (st_tables s') = tb_facts (st_tables s) @ rows \<and> map raw_key rows = map planned_key fs
         \<and> (\<forall>r \<in> set rows. rf_tx r = tx \<and> live r))
    \<and> (\<exists>tb. s' = s\<lparr>st_tables := tb\<rparr>)"
  using assms
proof (induction fs arbitrary: s out)
  case Nil
  then show ?case by (auto simp: same_registry_def intro!: exI [of _ "st_tables s"])
next
  case (Cons f fs)
  obtain i tb where ins: "insertFact tx f (st_tables s) = Inr (i, tb)"
    and run: "res_fold (insert_planned al tx) fs (s\<lparr>st_tables := tb\<rparr>, out @ [renderPlanned (s\<lparr>st_tables := tb\<rparr>) al i f tx]) = Inr (s', out')"
    using Cons.prems(1) by (auto simp: res_iff insert_planned_Inr)
  have f: "storable (pf_value f)" using Cons.prems(2) by simp
  note fields = insertFact_fields [OF ins f]
  have "content_ok C (st_tables (s\<lparr>st_tables := tb\<rparr>))"
    using insertFact_content [OF ins f Cons.prems(3)] by simp
  from Cons.IH [OF run _ this] Cons.prems(2) obtain rows where rows:
      "content_ok C (st_tables s')" "same_registry tb (st_tables s')"
      "tb_facts (st_tables s') = tb_facts tb @ rows" "map raw_key rows = map planned_key fs"
      "\<forall>r \<in> set rows. rf_tx r = tx \<and> live r" "\<exists>tb. s' = s\<lparr>st_tables := tb\<rparr>"
    by auto
  have "\<exists>rows. tb_facts (st_tables s') = tb_facts (st_tables s) @ rows \<and> map raw_key rows = map planned_key (f # fs)
         \<and> (\<forall>r \<in> set rows. rf_tx r = tx \<and> live r)"
    using rows fields by (intro exI [of _ "new_row tx i f # rows"]) simp
  then show ?case using rows fields by (simp add: same_registry_def)
qed

text \<open>The rows as a view at transaction \<open>t\<close> shows them, without the later retraction.\<close>

definition history :: "int \<Rightarrow> tables \<Rightarrow> rawFact set" where
  "history t tb = (\<lambda>f. f\<lparr>rf_rx := None\<rparr>) ` {f \<in> set (tb_facts tb). visible (Some t) f}"

lemma history_close:
  assumes "retract_fact tx i tb = Inr tb'" "t < tx"
  shows "history t tb' = history t tb"
proof -
  have vis: "visible (Some t) (close_row tx i f) \<longleftrightarrow> visible (Some t) f" for f
    using assms(2) by (auto simp: visible_def close_row_def live_def)
  have same: "(close_row tx i f)\<lparr>rf_rx := None\<rparr> = f\<lparr>rf_rx := None\<rparr>" for f
    by (simp add: close_row_def)
  have "{f \<in> set (tb_facts tb'). visible (Some t) f} = close_row tx i ` {f \<in> set (tb_facts tb). visible (Some t) f}"
    unfolding retract_fact_Inr(1) [OF assms(1)] by (auto simp: vis)
  then show ?thesis by (simp add: history_def image_image same)
qed

lemma history_fts [simp]: "history t (delete_fts i tb) = history t tb"
  by (simp add: history_def delete_fts_def)

lemma retract_row_history:
  assumes "retract_row d tx f = Inr tb'" "t < tx"
  shows "history t tb' \<subseteq> history t (db_tables d)"
    "schemaFor d (rf_a f) = Inr sc \<Longrightarrow> \<not> deletesHistory sc \<Longrightarrow> history t tb' = history t (db_tables d)"
proof -
  have del: "history t (delete_fact i tb) \<subseteq> history t tb" for i tb by (auto simp: history_def)
  show "history t tb' \<subseteq> history t (db_tables d)"
    by (rule retract_row_cases [OF assms(1)]) (use del in \<open>auto simp: history_close [OF _ assms(2)]\<close>)
  show "schemaFor d (rf_a f) = Inr sc \<Longrightarrow> \<not> deletesHistory sc \<Longrightarrow> history t tb' = history t (db_tables d)"
    by (rule retract_row_cases [OF assms(1)]) (auto simp: history_close [OF _ assms(2)])
qed

text \<open>The other rows stay as they are.\<close>

lemma retract_row_rest:
  assumes "retract_row d tx f = Inr tb'" "content_ok C (db_tables d)" "f \<in> live_set (db_tables d)"
  shows "set (tb_facts (db_tables d)) - {f} \<subseteq> set (tb_facts tb')"
proof
  fix g assume g: "g \<in> set (tb_facts (db_tables d)) - {f}"
  have "rf_id g \<noteq> rf_id f"
    using facts_ok_id_inj [of "db_tables d" g f] g assms(2,3) by (auto simp: content_ok_def live_set_def)
  then have "close_row tx (rf_id f) g = g" by (simp add: close_row_def)
  then have "g \<in> set (tb_facts tb1)" if "retract_fact tx (rf_id f) (db_tables d) = Inr tb1" for tb1
    using g unfolding retract_fact_Inr(1) [OF that] by (simp add: image_iff) metis
  then show "g \<in> set (tb_facts tb')"
    using assms(1) g \<open>rf_id g \<noteq> rf_id f\<close> by (elim retract_row_cases) (simp_all add: delete_fts_def)
qed

text \<open>A retracted row is marked with the transaction that retracts it.\<close>

lemma retract_row_txs:
  assumes "retract_row d tx f = Inr tb'" "txs_in S (db_tables d)" "tx \<in> S"
  shows "txs_in S tb'"
proof -
  have close: "txs_in S tb1" if "retract_fact tx (rf_id f) (db_tables d) = Inr tb1" for tb1
    using assms(2,3) unfolding retract_fact_Inr(1) [OF that]
    by (auto simp: txs_in_def close_row_def split: option.splits)
  have fts: "txs_in S (delete_fts i tb) = txs_in S tb" for i tb by (simp add: txs_in_def delete_fts_def)
  have "txs_in S (delete_fact (rf_id f) (db_tables d))" using assms(2) by (simp add: txs_in_def)
  then show ?thesis using assms(1) close by (elim retract_row_cases) (simp_all add: fts)
qed

lemma retract_one_Inr:
  "retract_one tx f (d, out) = Inr x \<longleftrightarrow>
     (\<exists>tb r. retract_row d tx f = Inr tb \<and> renderRaw ((db_store d)\<lparr>st_tables := tb\<rparr>) f (Some tx) = Inr r \<and>
        x = (d\<lparr>db_store := (db_store d)\<lparr>st_tables := tb\<rparr>\<rparr>, out @ [r]))"
  by (auto simp: retract_one_def Let_def res_iff)

lemma retract_run:
  assumes "res_fold (retract_one tx) fs (d, out) = Inr (d', out')"
    and "content_ok C (db_tables d)" "set fs \<subseteq> live_set (db_tables d)" "distinct fs"
  shows "content_ok (C \<union> set (concat (map garbage_candidate fs))) (db_tables d')
    \<and> live_set (db_tables d') = live_set (db_tables d) - set fs
    \<and> same_registry (db_tables d) (db_tables d')
    \<and> (txs_in S (db_tables d) \<and> tx \<in> S \<longrightarrow> txs_in S (db_tables d'))
    \<and> (t < tx \<longrightarrow> history t (db_tables d') \<subseteq> history t (db_tables d))
    \<and> set (tb_facts (db_tables d)) - set fs \<subseteq> set (tb_facts (db_tables d'))
    \<and> (\<exists>tb. d' = d\<lparr>db_store := (db_store d)\<lparr>st_tables := tb\<rparr>\<rparr>)"
  using assms
proof (induction fs arbitrary: d out C)
  case Nil
  then show ?case by (auto simp: same_registry_def intro!: exI [of _ "db_tables d"])
next
  case (Cons f fs)
  obtain tb r where row: "retract_row d tx f = Inr tb"
    and run: "res_fold (retract_one tx) fs (d\<lparr>db_store := (db_store d)\<lparr>st_tables := tb\<rparr>\<rparr>, out @ [r]) = Inr (d', out')"
    using Cons.prems(1) by (auto simp: res_iff retract_one_Inr)
  have f: "f \<in> live_set (db_tables d)" using Cons.prems(3) by simp
  note step = retract_row_content [OF row Cons.prems(2) f]
  have mem: "set fs \<subseteq> live_set tb" "distinct fs"
    using Cons.prems(3,4) step(2) by auto
  have "content_ok (C \<union> set (garbage_candidate f)) tb" using step(1) by (simp only: refers_garbage)
  then have IH: "content_ok (C \<union> set (garbage_candidate f) \<union> set (concat (map garbage_candidate fs))) (db_tables d')
    \<and> live_set (db_tables d') = live_set tb - set fs \<and> same_registry tb (db_tables d')
    \<and> (txs_in S tb \<and> tx \<in> S \<longrightarrow> txs_in S (db_tables d'))
    \<and> (t < tx \<longrightarrow> history t (db_tables d') \<subseteq> history t tb)
    \<and> set (tb_facts tb) - set fs \<subseteq> set (tb_facts (db_tables d'))
    \<and> (\<exists>tb. d' = d\<lparr>db_store := (db_store d)\<lparr>st_tables := tb\<rparr>\<rparr>)"
    using Cons.IH [OF run, of "C \<union> set (garbage_candidate f)"] mem by simp
  have "set (tb_facts (db_tables d)) - set (f # fs) \<subseteq> set (tb_facts (db_tables d'))"
    using IH retract_row_rest [OF row Cons.prems(2) f] by auto
  moreover have "t < tx \<longrightarrow> history t (db_tables d') \<subseteq> history t (db_tables d)"
    using IH retract_row_history(1) [OF row, of t] by (meson order_trans)
  ultimately show ?case
    using IH step(2) retract_row_fields [OF row] retract_row_txs [OF row, of S]
    by (auto simp: same_registry_def Un_assoc)
qed

subsection \<open>The commit\<close>

text \<open>
  What a transaction \<open>tx\<close> that retracts \<open>rets\<close> and asserts \<open>facts\<close> does to the fact table: the live rows lose
  the retracted ones and gain one row per assertion, the other rows stay, and no view at an earlier transaction
  gains a row.
\<close>

definition committed :: "int \<Rightarrow> rawFact list \<Rightarrow> plannedFact list \<Rightarrow> tables \<Rightarrow> tables \<Rightarrow> bool" where
  "committed tx rets facts tb tb' \<longleftrightarrow>
     (\<exists>rows. live_set tb' = (live_set tb - set rets) \<union> set rows
        \<and> map raw_key rows = map planned_key facts \<and> (\<forall>r \<in> set rows. rf_tx r = tx))
     \<and> set (tb_facts tb) - set rets \<subseteq> set (tb_facts tb')
     \<and> (\<forall>t < tx. history t tb' \<subseteq> history t tb)"

lemma committed_cong:
  "tb_facts tb1 = tb_facts tb \<Longrightarrow> tb_facts tb1' = tb_facts tb' \<Longrightarrow> committed tx rets facts tb1 tb1' = committed tx rets facts tb tb'"
  by (simp add: committed_def live_set_def history_def)

lemma content_ok_cong:
  assumes "tb_facts tb' = tb_facts tb" "tb_fts tb' = tb_fts tb" "tb_blobs tb' = tb_blobs tb" "tb_seq tb' = tb_seq tb"
  shows "content_ok C tb' = content_ok C tb"
  using assms by (simp add: content_ok_def facts_ok_def fts_ok_def live_set_def blobs_ok_def blob_keys_def)

lemma history_append:
  assumes "tb_facts tb' = tb_facts tb @ rows" "\<forall>r \<in> set rows. rf_tx r = tx" "t < tx"
  shows "history t tb' = history t tb"
proof -
  have "{f \<in> set (tb_facts tb'). visible (Some t) f} = {f \<in> set (tb_facts tb). visible (Some t) f}"
    using assms by (auto simp: visible_def)
  then show ?thesis by (simp add: history_def)
qed

lemma write_facts_Inr:
  assumes run: "write_facts tx pl al facts rets d = Inr (d', asserted, retracted)"
    and st: "\<forall>f \<in> set facts. storable (pf_value f)" and ok: "content_ok {} (db_tables d)"
    and rets: "set rets \<subseteq> live_set (db_tables d)" "distinct rets"
    and txs: "txs_in S (db_tables d)" "tx \<in> S"
  shows "content_ok {} (db_tables d')" "committed tx rets facts (db_tables d) (db_tables d')"
    "txs_in S (db_tables d')" "tb_ids (db_tables d') = tb_ids (db_tables d)"
    "tb_events (db_tables d') = tb_events (db_tables d)"
    "tb_next_id (db_tables d') = (if al_dirty al then map_option (\<lambda>_. al_next al) (tb_next_id (db_tables d)) else tb_next_id (db_tables d))"
proof -
  let ?tb = "db_tables d"
  obtain s1 out1 d2 out2 where ins: "res_fold (insert_planned al tx) facts (db_store d, []) = Inr (s1, out1)"
    and ret: "res_fold (retract_one tx) rets (d\<lparr>db_store := s1\<rparr>, []) = Inr (d2, out2)"
    and d': "db_tables d' = flush al (fold gc_blob (remdups (concat (map garbage_candidate rets))) (db_tables d2))"
    using run by (auto simp: write_facts_def Let_def res_iff)
  let ?tb1 = "st_tables s1" let ?tb2 = "db_tables d2" let ?gc = "remdups (concat (map garbage_candidate rets))"
  obtain rows where 1: "content_ok {} ?tb1" "same_registry ?tb ?tb1" "tb_facts ?tb1 = tb_facts ?tb @ rows"
      "map raw_key rows = map planned_key facts" "\<forall>r \<in> set rows. rf_tx r = tx \<and> live r"
    using insert_run [OF ins st ok] by auto
  have live1: "live_set ?tb1 = live_set ?tb \<union> set rows" using 1(3,5) by (auto simp: live_set_def)
  have "distinct (tb_facts ?tb1)"
    using 1(1) facts_ok_distinct by (auto simp: content_ok_def distinct_map)
  then have disj: "set rows \<inter> set rets = {}" using rets(1) 1(3) by (auto simp: live_set_def)
  have t1: "txs_in S ?tb1" using txs 1(3,5) by (auto simp: txs_in_def live_def)
  have 2: "content_ok (set (concat (map garbage_candidate rets))) ?tb2" "live_set ?tb2 = live_set ?tb1 - set rets"
      "same_registry ?tb1 ?tb2" "txs_in S ?tb2" "\<And>t. t < tx \<Longrightarrow> history t ?tb2 \<subseteq> history t ?tb1"
      "set (tb_facts ?tb1) - set rets \<subseteq> set (tb_facts ?tb2)"
    using retract_run [OF ret, of "{}" S] 1(1) rets live1 t1 txs(2) by auto
  have same: "tb_facts (db_tables d') = tb_facts ?tb2" "tb_fts (db_tables d') = tb_fts ?tb2" "tb_seq (db_tables d') = tb_seq ?tb2"
      "tb_blobs (db_tables d') = tb_blobs (fold gc_blob ?gc ?tb2)" "tb_ids (db_tables d') = tb_ids ?tb2" "tb_events (db_tables d') = tb_events ?tb2"
    by (simp_all add: d' flush_def)
  have "blobs_ok ({} :: string set) (fold gc_blob ?gc ?tb2)"
    using blobs_ok_gc_all [of "set ?gc" ?tb2 ?gc] 2(1) by (simp add: content_ok_def)
  then have "content_ok {} (fold gc_blob ?gc ?tb2)"
    using 2(1) by (simp add: content_ok_def facts_ok_def fts_ok_def live_set_def)
  then show "content_ok {} (db_tables d')" using same by (subst content_ok_cong [of _ "fold gc_blob ?gc ?tb2"]) simp_all
  have "history t ?tb2 \<subseteq> history t ?tb" if "t < tx" for t
    using 2(5) [OF that] history_append [OF 1(3) _ that] 1(5) by simp
  moreover have "live_set ?tb2 = (live_set ?tb - set rets) \<union> set rows" using 2(2) live1 disj by auto
  moreover have "set (tb_facts ?tb) - set rets \<subseteq> set (tb_facts ?tb2)" using 2(6) 1(3) by auto
  ultimately have "committed tx rets facts ?tb ?tb2" using 1(4,5) by (auto simp: committed_def)
  then show "committed tx rets facts ?tb (db_tables d')" using committed_cong [OF refl same(1)] by simp
  show "txs_in S (db_tables d')" using 2(4) same(1) by (simp add: txs_in_def)
  show "tb_ids (db_tables d') = tb_ids ?tb" "tb_events (db_tables d') = tb_events ?tb"
    "tb_next_id (db_tables d') = (if al_dirty al then map_option (\<lambda>_. al_next al) (tb_next_id ?tb) else tb_next_id ?tb)"
    using 1(2) 2(3) same by (simp_all add: same_registry_def d' flush_def)
qed

lemma insert_event_Inr:
  "insert_event r tb = Inr tb' \<Longrightarrow> tb' = tb\<lparr>tb_events := tb_events tb @ [r]\<rparr>"
  by (auto simp: insert_event_def split: if_splits)

lemma record_event_Inr:
  assumes "record_event tx now c h s = Inr s'"
  obtains r where "ev_tx r = tx" "ev_op r = to_operationID c" "ev_req r = (if to_operationID c = None then None else h)"
    "insert_event r (st_tables s) = Inr (st_tables s')"
    "s' = s\<lparr>st_tables := (st_tables s)\<lparr>tb_events := tb_events (st_tables s) @ [r]\<rparr>\<rparr>"
proof -
  obtain a b tb where ev: "insert_event \<lparr>ev_tx = tx, ev_hash = b, ev_data = Some a, ev_op = to_operationID c,
      ev_req = (if to_operationID c = None then None else h)\<rparr> (st_tables s) = Inr tb" and "s' = s\<lparr>st_tables := tb\<rparr>"
    using assms by (auto simp: record_event_def res_iff)
  then show thesis using insert_event_Inr [OF ev] that by force
qed

text \<open>The tables between two transactions: what a commit needs and gives.\<close>

lemma tables_okD:
  assumes "tables_ok tb"
  obtains n where "tb_next_id tb = Some n" "FirstUserID \<le> n" "n \<le> MaxInt64" "below n tb"
    "ids_ok tb" "events_ok tb" "content_ok {} tb" "txs_in (recorded tb) tb"
  using assms by (auto simp: tables_ok_def counter_ok_def split: option.splits)

lemma metadata_storable:
  assumes "metadata_value textStored a = Inr av" "metadata_value textStored b = Inr bv" "metadata_value jsonStored m = Inr mv"
    and "f \<in> set (metadata_fact tx 1 (Some (stored (AInt64 now) (SInt now) TagInstant))
          @ metadata_fact tx 2 av @ metadata_fact tx 3 bv @ metadata_fact tx 4 mv)"
  shows "storable (pf_value f)"
proof -
  have "storable (stored (AInt64 now) (SInt now) TagInstant)"
    by (simp add: storable_def stored_def indirect_tag_def)
  then show ?thesis
    using assms by (auto simp: metadata_value_def metadata_fact_def res_iff split: option.splits
        dest!: textStored_ok jsonStored_ok)
qed

lemma alloc_tx_Inr:
  assumes "alloc_tx a = Inr (tx, a')" "alloc_ok a"
  shows "tx = al_next a" "al_next a' = tx + 1" "tx + 1 \<le> MaxInt64" "al_dirty a'" "al_first a \<le> tx"
    "map pi_id (al_pending a') = [al_first a .. tx]"
proof -
  note al = allocate_Inr [OF assms(1) [unfolded alloc_tx_def] assms(2)]
  show "tx = al_next a" "al_next a' = tx + 1" using al by simp_all
  show "tx + 1 \<le> MaxInt64" "al_first a \<le> tx" "map pi_id (al_pending a') = [al_first a .. tx]"
    using al assms(2) by (auto simp: alloc_ok_def)
  show "al_dirty a'" using assms(1) by (auto simp: alloc_tx_def allocate_def split: if_splits)
qed

text \<open>The registry and the counter after the ids of a transaction were added.\<close>

lemma ids_added_below:
  assumes "ids_added [n .. tx] tx tb tb'" "\<forall>r \<in> set (tb_ids tb). id_id r < n" "n \<le> tx"
  shows "\<forall>r \<in> set (tb_ids tb'). id_id r < tx + 1"
proof -
  obtain rows where rows: "tb' = tb\<lparr>tb_ids := tb_ids tb @ rows\<rparr>" "map id_id rows = [n .. tx]"
    using assms(1) by (auto simp: ids_added_def)
  have "id_id ` set rows = {n .. tx}" using arg_cong [OF rows(2), of set] by simp
  then have "\<forall>r \<in> set rows. id_id r < tx + 1" by (metis add1_zle_eq atLeastAtMost_iff image_eqI zle_add1_eq_le)
  then show ?thesis using assms(2,3) rows(1) by fastforce
qed

lemma ids_added_append:
  assumes "ids_added is tx tb (tb\<lparr>tb_ids := ids\<rparr>)"
  obtains rows where "ids = tb_ids tb @ rows" "map id_id rows = is" "\<forall>r \<in> set rows. id_created r = tx"
proof -
  obtain rows where rows: "tb\<lparr>tb_ids := ids\<rparr> = tb\<lparr>tb_ids := tb_ids tb @ rows\<rparr>" "map id_id rows = is"
      "\<forall>r \<in> set rows. id_created r = tx"
    using assms by (auto simp: ids_added_def)
  have "ids = tb_ids tb @ rows" using arg_cong [OF rows(1), of tb_ids] by simp
  then show thesis using that rows(2,3) by blast
qed

lemma ids_added_same: "ids_added js tx tb tb' \<Longrightarrow> \<exists>ids. tb' = tb\<lparr>tb_ids := ids\<rparr>"
  by (auto simp: ids_added_def)

text \<open>The event row closes the transaction: with it the invariant of the tables holds again.\<close>

lemma tables_ok_after:
  assumes "content_ok {} tb" "txs_in (insert tx (recorded tb)) tb" "ids_ok tb" "\<forall>r \<in> set (tb_ids tb). id_id r < tx + 1"
    and "events_ok tb" "\<forall>r \<in> set (tb_events tb). ev_tx r < tx + 1" "insert_event r tb = Inr tb'" "ev_tx r = tx"
    and "tb_next_id tb = Some (tx + 1)" "FirstUserID \<le> tx + 1" "tx + 1 \<le> MaxInt64"
  shows "tables_ok tb'"
proof -
  note tb' = insert_event_Inr [OF assms(7)]
  have "events_ok tb'" by (rule insert_event_ok [OF assms(5,7)])
  moreover have "ids_ok tb'" using assms(3) by (simp add: tb' ids_ok_def)
  moreover have "content_ok {} tb'" using assms(1) by (subst content_ok_cong [of _ tb]) (simp_all add: tb')
  moreover have "counter_ok tb'" using assms(4,6,8-11) by (auto simp: tb' counter_ok_def below_def)
  moreover have "recorded tb' = insert tx (recorded tb)" using assms(8) by (simp add: tb' recorded_def)
  then have "txs_in (recorded tb') tb'" using assms(2) by (simp add: tb' txs_in_def)
  ultimately show ?thesis by (simp add: tables_ok_def)
qed

lemma commit_writes:
  assumes ok: "tables_ok (db_tables d)" and al: "alloc_ok a" "tb_next_id (db_tables d) = Some (al_first a)"
    and tx: "alloc_tx a = Inr (tx, al)" and fin: "finalize en tx uuid (db_store d) al = Inr (s1, al1)"
    and wr: "write_facts tx pl al1 facts rets (d\<lparr>db_store := s1\<rparr>) = Inr (d2, asserted, retracted)"
    and ev: "record_event tx now c h (db_store d2) = Inr s'"
    and st: "\<forall>f \<in> set facts. storable (pf_value f)" and rets: "set rets \<subseteq> live_set (db_tables d)" "distinct rets"
  shows "tables_ok (st_tables s')" "committed tx rets facts (db_tables d) (st_tables s')"
    "tb_next_id (st_tables s') = Some (tx + 1)"
    "\<exists>r. tb_events (st_tables s') = tb_events (db_tables d) @ [r] \<and> ev_tx r = tx \<and> ev_op r = to_operationID c
       \<and> ev_req r = (if to_operationID c = None then None else h)"
    "ids_added [al_first a .. tx] tx (db_tables d) ((db_tables d)\<lparr>tb_ids := tb_ids (st_tables s')\<rparr>)"
proof -
  let ?tb = "db_tables d"
  note t = alloc_tx_Inr [OF tx al(1)]
  have D: "below (al_first a) ?tb" "ids_ok ?tb" "events_ok ?tb" "content_ok {} ?tb" "FirstUserID \<le> al_first a"
      "txs_in (recorded ?tb) ?tb"
    using ok al(2) by (auto elim: tables_okD)
  note F = finalize_Inr [OF fin D(2)]
  obtain ids where s1: "st_tables s1 = ?tb\<lparr>tb_ids := ids\<rparr>" using ids_added_same [OF F(2)] by blast
  have al1: "al_dirty al1" "al_next al1 = tx + 1" using F(3) t by auto
  have below1: "\<forall>r \<in> set (tb_ids (st_tables s1)). id_id r < tx + 1"
    by (rule ids_added_below [OF F(2) [unfolded t(6)] _ t(5)]) (use D(1) in \<open>simp add: below_def\<close>)
  have live: "live_set (st_tables s1) = live_set ?tb" by (simp add: s1 live_set_def)
  have content1: "content_ok {} (st_tables s1)" using D(4) by (subst content_ok_cong [of _ ?tb]) (simp_all add: s1)
  have txs: "txs_in (insert tx (recorded ?tb)) (st_tables s1)"
    using D(6) by (auto simp: s1 txs_in_def split: option.splits)
  note W = write_facts_Inr [OF wr st, simplified, OF content1 rets(1) [folded live] rets(2) txs, simplified]
  obtain r where r: "ev_tx r = tx" "ev_op r = to_operationID c" "insert_event r (db_tables d2) = Inr (st_tables s')"
      "st_tables s' = (db_tables d2)\<lparr>tb_events := tb_events (db_tables d2) @ [r]\<rparr>"
      "ev_req r = (if to_operationID c = None then None else h)"
    using ev by (rule record_event_Inr) auto
  have next_id: "tb_next_id (db_tables d2) = Some (tx + 1)" using W(6) al1 al(2) by (simp add: s1)
  show "tables_ok (st_tables s')"
  proof (rule tables_ok_after [OF W(1) _ _ _ _ _ r(3,1) next_id])
    show "txs_in (insert tx (recorded (db_tables d2))) (db_tables d2)" using W(3,5) by (simp add: s1 recorded_def)
    show "ids_ok (db_tables d2)" "\<forall>r \<in> set (tb_ids (db_tables d2)). id_id r < tx + 1"
      using F(1) below1 W(4) by (simp_all add: ids_ok_def)
    show "events_ok (db_tables d2)" "\<forall>r \<in> set (tb_events (db_tables d2)). ev_tx r < tx + 1"
      using D(1,3) t(5) W(5) by (fastforce simp: s1 events_ok_def below_def)+
  qed (use D(5) t in auto)
  show "committed tx rets facts ?tb (st_tables s')"
    using W(2) by (subst committed_cong [of _ "st_tables s1" _ "db_tables d2"]) (simp_all add: s1 r(4))
  show "tb_next_id (st_tables s') = Some (tx + 1)" using next_id r(4) by simp
  show "\<exists>r. tb_events (st_tables s') = tb_events ?tb @ [r] \<and> ev_tx r = tx \<and> ev_op r = to_operationID c
       \<and> ev_req r = (if to_operationID c = None then None else h)"
    using r W(5) by (auto simp: s1)
  show "ids_added [al_first a .. tx] tx ?tb (?tb\<lparr>tb_ids := tb_ids (st_tables s')\<rparr>)"
    using F(2) W(4) t(6) by (simp add: r(4) s1)
qed

definition metadata_facts :: "int \<Rightarrow> int \<Rightarrow> storedValue option \<Rightarrow> storedValue option \<Rightarrow> storedValue option \<Rightarrow> plannedFact list" where
  "metadata_facts tx now bv sv mv =
     metadata_fact tx 1 (Some (stored (AInt64 now) (SInt now) TagInstant))
     @ metadata_fact tx 2 bv @ metadata_fact tx 3 sv @ metadata_fact tx 4 mv"

text \<open>The steps of a commit that did not fail.\<close>

lemma commit_transactionE:
  assumes "commit_transaction en d basis c h as rets pl = Inr (report, s')"
  obtains bv sv mv tx al now uuid s1 al1 d2 asserted retracted where
    "metadata_value textStored (to_by c) = Inr bv" "metadata_value textStored (to_source c) = Inr sv"
    "metadata_value jsonStored (to_meta c) = Inr mv"
    "alloc_tx (pl_alloc pl) = Inr (tx, al)" "nextTimestamp en (db_tables d) (to_at c) = Inr now"
    "finalize en tx uuid (db_store d) al = Inr (s1, al1)"
    "write_facts tx pl al1 (metadata_facts tx now bv sv mv @ map (target_tx tx) as) rets (d\<lparr>db_store := s1\<rparr>) = Inr (d2, asserted, retracted)"
    "record_event tx now c h (db_store d2) = Inr s'"
    "tr_tx report = tx" "tr_basis report = basis" "tr_status report = ''applied''" "tr_at report = now"
  using assms by (auto simp: commit_transaction_def metadata_facts_def Let_def res_iff)

lemma commit_transaction_Inr:
  assumes run: "commit_transaction en d basis c h as rets pl = Inr (report, s')"
    and ok: "tables_ok (db_tables d)" and al: "alloc_ok (pl_alloc pl)" "tb_next_id (db_tables d) = Some (al_first (pl_alloc pl))"
    and st: "\<forall>f \<in> set as. storable (pf_value f)"
    and rets: "set rets \<subseteq> live_set (db_tables d)" "distinct rets"
  obtains meta where "tables_ok (st_tables s')" "tr_tx report = al_next (pl_alloc pl)"
    "committed (tr_tx report) rets (meta @ map (target_tx (tr_tx report)) as) (db_tables d) (st_tables s')"
    "\<forall>f \<in> set meta. pf_e f = tr_tx report \<and> 1 \<le> pf_a f \<and> pf_a f \<le> 4"
    "tb_next_id (st_tables s') = Some (tr_tx report + 1)"
    "\<exists>r. tb_events (st_tables s') = tb_events (db_tables d) @ [r] \<and> ev_tx r = tr_tx report \<and> ev_op r = to_operationID c
       \<and> ev_req r = (if to_operationID c = None then None else h)"
    "tr_basis report = basis" "tr_status report = ''applied''"
    "nextTimestamp en (db_tables d) (to_at c) = Inr (tr_at report)"
    "ids_added [al_first (pl_alloc pl) .. tr_tx report] (tr_tx report) (db_tables d)
       ((db_tables d)\<lparr>tb_ids := tb_ids (st_tables s')\<rparr>)"
proof -
  obtain bv sv mv tx al now uuid s1 al1 d2 asserted retracted where
      v: "metadata_value textStored (to_by c) = Inr bv" "metadata_value textStored (to_source c) = Inr sv"
         "metadata_value jsonStored (to_meta c) = Inr mv"
    and tx: "alloc_tx (pl_alloc pl) = Inr (tx, al)" and now: "nextTimestamp en (db_tables d) (to_at c) = Inr now"
    and fin: "finalize en tx uuid (db_store d) al = Inr (s1, al1)"
    and wr: "write_facts tx pl al1 (metadata_facts tx now bv sv mv @ map (target_tx tx) as) rets (d\<lparr>db_store := s1\<rparr>)
          = Inr (d2, asserted, retracted)"
    and ev: "record_event tx now c h (db_store d2) = Inr s'"
    and rep: "tr_tx report = tx" "tr_basis report = basis" "tr_status report = ''applied''" "tr_at report = now"
    using run by (rule commit_transactionE)
  define meta where "meta = metadata_facts tx now bv sv mv"
  have "\<forall>f \<in> set (meta @ map (target_tx tx) as). storable (pf_value f)"
    using st metadata_storable [OF v] by (auto simp: meta_def metadata_facts_def target_tx_def)
  note W = commit_writes [OF ok al tx fin wr [folded meta_def] ev this rets]
  have "\<forall>f \<in> set meta. pf_e f = tx \<and> 1 \<le> pf_a f \<and> pf_a f \<le> 4"
    by (auto simp: meta_def metadata_facts_def metadata_fact_def split: option.splits)
  then show thesis
    using that [of "metadata_facts tx now bv sv mv"] W rep now alloc_tx_Inr(1) [OF tx al(1)] by (simp add: meta_def)
qed

subsection \<open>Properties\<close>

text \<open>
  C33. Time moves forward: the timestamp that a commit takes from the clock is later than every recorded one,
  also when the clock stands still or goes back, and it is inside the instant range; where the 64-bit sum would
  wrap around, the commit is refused instead.
\<close>

theorem timestamps_increase:
  assumes "nextTimestamp en tb None = Inr t" "latest_timestamp tb = Some l" "in_int64 l"
  shows "l < t \<and> minInstantMicros \<le> t \<and> t \<le> maxInstantMicros"
proof (cases "en_clock en \<le> l")
  case True
  then have t: "t = i64_add l 1000000" "minInstantMicros \<le> t" "t \<le> maxInstantMicros"
    using assms(1,2) by (auto simp: nextTimestamp_def Let_def res_bind_Inr_iff validateInstantMicros_def)
  have "in_int64 (l + 1000000)"
  proof (rule ccontr)
    assume "\<not> in_int64 (l + 1000000)"
    then have l: "9223372036853775807 < l" "l \<le> 9223372036854775807"
      using assms(3) by (simp_all add: in_int64_def MinInt64_def MaxInt64_def)
    then have "(l + 1000000 + 9223372036854775808) mod 18446744073709551616
        = l + 1000000 + 9223372036854775808 - 18446744073709551616"
      using minus_mod_self2 [of "l + 1000000 + 9223372036854775808" "18446744073709551616 :: int"] by (simp add: mod_pos_pos_trivial)
    then have "i64_add l 1000000 = l + 1000000 - 18446744073709551616"
      by (simp add: i64_add_def i64_wrap_def)
    then show False using t assms(3) by (simp add: minInstantMicros_def in_int64_def MaxInt64_def)
  qed
  then show ?thesis using t by (simp add: i64_add_exact)
next
  case False
  then show ?thesis
    using assms(1,2) by (auto simp: nextTimestamp_def Let_def res_bind_Inr_iff validateInstantMicros_def)
qed

theorem timestamps_increase_witness:
  "nextTimestamp \<lparr>en_clock = 3, en_eventIDs = Inr [], en_eventSeed = None, en_uuid5 = \<lambda>_ _. []\<rparr>
     ((empty_tables 0)\<lparr>tb_facts := [\<lparr>rf_id = 1, rf_e = 64, rf_a = 1, rf_v = SInt 7, rf_t = TagInstant, rf_tx = 64, rf_rx = None\<rparr>]\<rparr>) None
     = Inr 1000007 \<and> (7 :: int) < 1000007"
proof -
  let ?en = "\<lparr>en_clock = 3, en_eventIDs = Inr [], en_eventSeed = None, en_uuid5 = \<lambda>_ _. []\<rparr>"
  let ?tb = "(empty_tables 0)\<lparr>tb_facts := [\<lparr>rf_id = 1, rf_e = 64, rf_a = 1, rf_v = SInt 7, rf_t = TagInstant, rf_tx = 64, rf_rx = None\<rparr>]\<rparr>"
  have l: "latest_timestamp ?tb = Some 7" by (simp add: latest_timestamp_def live_def)
  have t: "nextTimestamp ?en ?tb None = Inr 1000007"
    by (simp add: nextTimestamp_def l i64_add_def i64_wrap_def validateInstantMicros_def minInstantMicros_def maxInstantMicros_def check_def)
  show ?thesis using timestamps_increase [OF t l] t by (simp add: in_int64_def MinInt64_def MaxInt64_def)
qed

end
