(* ===== verification/PlanFuel.thy ===== *)
theory PlanFuel
  imports Plan ValueFacts
begin

text \<open>
  The recursion of the planner terminates: the fuel that the entry points pass is enough, so the fuel-bounded
  functions satisfy the recursion equations of the code. A reference nested in a lookup and a map nested in
  a field are smaller than the value they come from.
\<close>

subsection \<open>References\<close>

lemma scalarValue_ref_size:
  assumes "scalarValue i = Inr v" "sv_tag v = TagRef" "sv_logical v = ARef t"
  shows "size t < size i"
proof (cases "objectFields i")
  case None
  then show ?thesis
    using assms
    by (auto simp: scalarValue_def stored_def split: any.splits if_splits
      dest!: instantStored_ok bytesStored_ok vectorStored_ok jsonStored_ok floatStored_ok textStored_ok
      simp: text_tag_def)
next
  case (Some fs)
  then obtain k x where "fs = [(k, x)]" "wrappedValue k x = Inr v"
    using assms by (auto simp: scalarValue_def split: list.splits prod.splits)
  then show ?thesis
    using size_objectFields_single [of i k x] Some wrappedValue_ok [of k x v] assms(2,3) by auto
qed

lemma readFactValue_with_cong:
  assumes "\<And>t. size t < size i \<Longrightarrow> f t = g t"
  shows "readFactValue_with f sc i = readFactValue_with g sc i"
  unfolding readFactValue_with_def
  using assms scalarValue_ref_size [of i] by (auto intro!: res_bind_cong split: any.splits)

lemma factValue_with_cong:
  assumes "\<And>t pl. size t < size i \<Longrightarrow> f t pl = g t pl"
  shows "factValue_with f sc i pl = factValue_with g sc i pl"
  unfolding factValue_with_def
  using assms scalarValue_ref_size [of i] by (auto intro!: res_bind_cong split: any.splits)

lemma lookup_with_cong:
  assumes "\<And>sc i pl. size i < size (AList l) \<Longrightarrow> f sc i pl = g sc i pl"
  shows "lookup_with f d l w pl = lookup_with g d l w pl"
  unfolding lookup_with_def
  by (auto intro!: res_bind_cong assms split: list.splits any.splits option.splits)

lemma readEntity_with_cong:
  assumes "\<And>t. size t < size r \<Longrightarrow> f t = g t"
  shows "readEntity_with f d r = readEntity_with g d r"
proof (cases r)
  case (AList l)
  have "lookup_with (read_value f) d l False lookup_plan = lookup_with (read_value g) d l False lookup_plan"
    using assms AList
    by (intro lookup_with_cong) (auto simp: read_value_def intro!: res_bind_cong readFactValue_with_cong)
  then show ?thesis by (simp add: AList readEntity_with_def)
qed (simp_all add: readEntity_with_def)

lemma readEntity_fuel_same: "size r < n \<Longrightarrow> size r < m \<Longrightarrow> readEntity_fuel n d r = readEntity_fuel m d r"
proof (induction n arbitrary: m r)
  case (Suc n)
  then obtain m' where m: "m = Suc m'" by (cases m) auto
  show ?case
    unfolding m readEntity_fuel.simps
    by (rule readEntity_with_cong) (rule Suc.IH; use Suc.prems m in linarith)
qed simp

lemma resolveReadEntity_unfold: "resolveReadEntity d r = readEntity_with (resolveReadEntity d) d r"
proof -
  have "readEntity_fuel (Suc (size r)) d r = readEntity_with (\<lambda>t. readEntity_fuel (Suc (size t)) d t) d r"
    unfolding readEntity_fuel.simps(2) [of "size r"] by (rule readEntity_with_cong) (rule readEntity_fuel_same; simp)
  then show ?thesis by (simp only: resolveReadEntity_def [abs_def])
qed

lemma reference_with_cong:
  assumes "\<And>t pl. size t < size r \<Longrightarrow> f t pl = g t pl"
  shows "reference_with f d c r pl = reference_with g d c r pl"
proof (cases r)
  case (AList l)
  have "lookup_with (factValue_with f) d l w pl = lookup_with (factValue_with g) d l w pl" for w
    using assms AList by (intro lookup_with_cong) (auto intro!: factValue_with_cong)
  then show ?thesis by (simp add: AList reference_with_def)
qed (simp_all add: reference_with_def)

lemma reference_fuel_same:
  "size r < n \<Longrightarrow> size r < m \<Longrightarrow> reference_fuel n d c r pl = reference_fuel m d c r pl"
proof (induction n arbitrary: m r c pl)
  case (Suc n)
  then obtain m' where m: "m = Suc m'" by (cases m) auto
  show ?case
    unfolding m reference_fuel.simps
    by (rule reference_with_cong) (rule Suc.IH; use Suc.prems m in linarith)
qed simp

lemma resolveReference_unfold:
  "resolveReference d c r pl = reference_with (resolveReference d True) d c r pl"
proof -
  have "reference_fuel (Suc (size r)) d c r pl = reference_with (\<lambda>t. reference_fuel (Suc (size t)) d True t) d c r pl"
    unfolding reference_fuel.simps(2) [of "size r"] by (rule reference_with_cong) (rule reference_fuel_same; simp)
  then show ?thesis by (simp only: resolveReference_def [abs_def])
qed

subsection \<open>Maps\<close>

lemma nested_map_size: "nested_map i = Some fs \<Longrightarrow> fields_size fs < size i"
  using size_objectFields [of i fs] by (auto simp: nested_map_def fields_size_def split: option.splits list.splits if_splits prod.splits)

lemma expandSingle_with_cong:
  assumes "\<And>fs pl. fields_size fs < size i \<Longrightarrow> f fs pl = g fs pl"
  shows "expandSingle_with f d sc i pl = expandSingle_with g d sc i pl"
  unfolding expandSingle_with_def
  using assms nested_map_size [of i] by (auto intro!: res_bind_cong split: option.splits)

lemma expandAttribute_with_cong:
  assumes "\<And>fs pl. fields_size fs < size i \<Longrightarrow> f fs pl = g fs pl"
  shows "expandAttribute_with f d sc i pl = expandAttribute_with g d sc i pl"
proof (cases "\<exists>items. i = AList items")
  case True
  then obtain items where i: "i = AList items" by auto
  have "size x < size i" if "x \<in> set items" for x
    using that size_list_estimation' [of x items "size x" size] by (simp add: i less_Suc_eq_le)
  then have "res_maps (expandSingle_with f d sc) items pl = res_maps (expandSingle_with g d sc) items pl"
    by (intro res_maps_cong expandSingle_with_cong assms) (meson less_trans)
  then show ?thesis by (simp add: expandAttribute_with_def i)
next
  case False
  have "expandSingle_with f d sc i pl = expandSingle_with g d sc i pl"
    by (rule expandSingle_with_cong) (rule assms)
  then show ?thesis using False by (auto simp: expandAttribute_with_def split: any.splits)
qed

lemma field_size: "(k, n, v) \<in> set (enumerate j fs) \<Longrightarrow> size v < fields_size fs"
proof -
  assume "(k, n, v) \<in> set (enumerate j fs)"
  then have "(n, v) \<in> set fs" by (auto simp: enumerate_eq_zip dest: set_zip_rightD)
  then show ?thesis
    using size_list_estimation' [of "(n, v)" fs "Suc (size v)" "size_prod (\<lambda>_. 0) size"]
    by (simp add: fields_size_def less_eq_Suc_le)
qed

lemma planMap_with_cong:
  assumes "\<And>gs pl. fields_size gs < fields_size fs \<Longrightarrow> f gs pl = g gs pl"
  shows "planMap_with f d fs pl = planMap_with g d fs pl"
proof -
  have expand: "expandAttribute_with f d sc v pl = expandAttribute_with g d sc v pl"
    if "(k, n, v) \<in> set (enumerate 0 fs)" for k n v sc pl
    by (rule expandAttribute_with_cong) (metis assms field_size [OF that] less_trans)
  have "upsertOwner_with f d fs pl = upsertOwner_with g d fs pl" for pl
    unfolding upsertOwner_with_def upsert_field_def
    by (rule res_fold_cong) (auto simp: expand cong: if_cong option.case_cong)
  then have ent: "map_entity f d fs pl = map_entity g d fs pl"
    unfolding map_entity_def by (simp only:)
  have "res_fold (plan_map_field f d p n ps) (enumerate 0 fs) s = res_fold (plan_map_field g d p n ps) (enumerate 0 fs) s"
    for p n ps s
    unfolding plan_map_field_def prepare_field_def
    by (rule res_fold_cong) (auto simp: expand cong: if_cong option.case_cong)
  then show ?thesis unfolding planMap_with_def ent by (simp only:)
qed

lemma planMap_fuel_same:
  "fields_size fs < n \<Longrightarrow> fields_size fs < m \<Longrightarrow> planMap_fuel n d fs pl = planMap_fuel m d fs pl"
proof (induction n arbitrary: m fs pl)
  case (Suc n)
  then obtain m' where m: "m = Suc m'" by (cases m) auto
  show ?case
    unfolding m planMap_fuel.simps
    by (rule planMap_with_cong) (rule Suc.IH; use Suc.prems m in linarith)
qed simp

lemma planMap_unfold: "planMap d fs pl = planMap_with (planMap d) d fs pl"
proof -
  have "planMap_fuel (Suc (fields_size fs)) d fs pl = planMap_with (\<lambda>gs. planMap_fuel (Suc (fields_size gs)) d gs) d fs pl"
    unfolding planMap_fuel.simps(2) [of "fields_size fs"] by (rule planMap_with_cong) (rule planMap_fuel_same; simp)
  then show ?thesis by (simp only: planMap_def [abs_def])
qed

subsection \<open>Properties\<close>

text \<open>
  The planner of nested maps terminates: \<^verbatim>\<open>planMap\<close> satisfies the recursion of the code on every input, with no
  bound on the depth of nesting, since a nested map is smaller than the map that holds it.
\<close>

theorem planMap_terminates: "planMap d fs pl = planMap_with (planMap d) d fs pl"
  by (rule planMap_unfold)

text \<open>
  The resolution of references in writes terminates: a lookup reference nested in the value of a lookup
  reference, to any depth, is resolved by the recursion of the code.
\<close>

theorem resolveReference_terminates: "resolveReference d c r pl = reference_with (resolveReference d True) d c r pl"
  by (rule resolveReference_unfold)

text \<open>
  The resolution of references in reads terminates in the same way.
\<close>

theorem resolveReadEntity_terminates: "resolveReadEntity d r = readEntity_with (resolveReadEntity d) d r"
  by (rule resolveReadEntity_unfold)

end
