(* ===== verification/TransactFacts.thy ===== *)
theory TransactFacts
  imports CommitFacts PlanFuel
begin

text \<open>
  The whole transaction: which of its three outcomes it has (an earlier receipt, no change, a commit), that
  every outcome keeps the invariant of the tables, and what a commit does to the live facts.
\<close>

subsection \<open>Planning\<close>

lemma res_bindE: "res_bind m f = Inr y \<Longrightarrow> (\<And>x. m = Inr x \<Longrightarrow> f x = Inr y \<Longrightarrow> P) \<Longrightarrow> P"
  by (auto simp: res_bind_Inr_iff)

lemma new_plan_ok: "alloc_ok al \<Longrightarrow> al_first al = n \<Longrightarrow> plan_ok n (new_plan al)"
  by (simp add: plan_ok_def new_plan_def)

lemma newAllocator_Inr:
  assumes "newAllocator tb = Inr al" "tb_next_id tb = Some n" "n \<le> MaxInt64"
  shows "alloc_ok al" "al_first al = n"
  using assms newAllocator_ok [OF assms(1)] by (auto simp: newAllocator_def split: if_splits)

lemma plan_transaction_Inr:
  assumes "plan_transaction d data c = Inr (as, rets, txf, pl)" "tb_next_id (db_tables d) = Some n" "n \<le> MaxInt64"
  obtains pl3 where "plan_ok n pl3" "validateCASIsolation pl3 = Inr ()" "validatePlannedDeclarations d pl3 = Inr ()"
    "diffPlan d pl3 = Inr (as, rets, pl)"
proof -
  obtain al pl1 pl2 pl3 where al: "newAllocator (db_tables d) = Inr al"
    and 1: "preallocateEventIdentities d (to_preallocated c) (new_plan al) = Inr pl1" and 2: "planData d data pl1 = Inr pl2"
    and 3: "(case to_txFacts c of None \<Rightarrow> Inr ([], pl2) | Some facts \<Rightarrow> planTxFacts d 0 facts pl2) = Inr (txf, pl3)"
    and rest: "validatePlannedDeclarations d pl3 = Inr ()" "validateCASIsolation pl3 = Inr ()" "diffPlan d pl3 = Inr (as, rets, pl)"
    using assms(1) by (auto simp: plan_transaction_def res_bind_Inr_iff)
  have "plan_ok n pl2"
    using planData_ok [OF 2 preallocateEventIdentities_ok [OF 1 new_plan_ok [OF newAllocator_Inr [OF al assms(2,3)]]]] .
  then have "plan_ok n pl3" using 3 planTxFacts_ok by (auto split: option.splits)
  then show thesis using that rest by blast
qed

lemma plan_ok_schemas: "plan_ok n pl \<Longrightarrow> pl' = pl\<lparr>pl_schemas := m\<rparr> \<Longrightarrow> plan_ok n pl'"
  by simp

lemma plan_transaction_ok:
  assumes "plan_transaction d data c = Inr (as, rets, txf, pl)" "tables_ok (db_tables d)" "tb_next_id (db_tables d) = Some n"
  shows "plan_ok n pl" "\<forall>f \<in> set as. storable (pf_value f)" "set rets \<subseteq> live_set (db_tables d)" "distinct rets"
proof -
  have n: "n \<le> MaxInt64" and facts: "facts_ok (db_tables d)"
    using assms(2,3) by (auto simp: content_ok_def elim: tables_okD)
  obtain pl3 where pl3: "plan_ok n pl3" "diffPlan d pl3 = Inr (as, rets, pl)"
    using plan_transaction_Inr [OF assms(1,3) n] by blast
  obtain cur pl1 where w: "workingFactsForPlan d pl3 = Inr (cur, pl1)"
    using pl3(2) by (auto simp: diffPlan_def res_bind_Inr_iff)
  have ord: "distinct (map pf_order (pl_assertions pl3))" using pl3(1) by (simp add: plan_ok_def)
  note rows = workingFacts_rows [OF w facts] note net = diffPlan_net [OF pl3(2) ord w rows(1)]
  show "plan_ok n pl" using diffPlan_frame(2) [OF pl3(2)] pl3(1) plan_ok_schemas by blast
  show "\<forall>f \<in> set as. storable (pf_value f)" using diffPlan_frame(1) [OF pl3(2)] pl3(1) by (auto simp: plan_ok_def)
  show "set rets \<subseteq> live_set (db_tables d)" "distinct rets" using net(2,3) rows(2) by (auto simp: distinct_map)
qed

subsection \<open>Outcomes\<close>

lemma refreshNames_tables: "refreshNames s = Inr s' \<Longrightarrow> st_tables s' = st_tables s"
  by (auto simp: refreshNames_def split: if_splits)

lemma flush_noop:
  assumes "alloc_ok al" "al_pending al = []" "tb_next_id tb = Some (al_first al)"
  shows "flush al tb = tb"
proof -
  have "al_next al = al_first al"
    using assms(1,2) by (auto simp: alloc_ok_def dest: sym)
  then show ?thesis using assms(3) by (simp add: flush_def)
qed

lemma transactOn_check:
  assumes "transactOn en d data c = Inr (report, s')"
  obtains answer where "operation_check (db_store d) data c = Inr answer"
  using assms unfolding transactOn_def Let_def by (rule res_bindE)

lemma transactOn_prior:
  "operation_check (db_store d) data c = Inr (Prior r) \<Longrightarrow> transactOn en d data c = Inr (r, db_store d)"
  by (simp only: transactOn_def Let_def res_bind_simps receipt.case)

text \<open>The handle and the data that a transaction plans on: names refreshed, the data prepared if the caller asks so.\<close>

definition planned_on :: "db \<Rightarrow> any \<Rightarrow> txOptions \<Rightarrow> db \<Rightarrow> any \<Rightarrow> bool" where
  "planned_on d data c d0 input \<longleftrightarrow>
     (\<exists>s0. refreshNames (db_store d) = Inr s0 \<and> d0 = d\<lparr>db_store := s0\<rparr>
        \<and> (case to_prepareData c of None \<Rightarrow> Inr data | Some prepare \<Rightarrow> prepare s0) = Inr input)"

lemma planned_on_tables: "planned_on d data c d0 input \<Longrightarrow> db_tables d0 = db_tables d"
  by (auto simp: planned_on_def refreshNames_tables)

text \<open>The three outcomes of a transaction that does not fail.\<close>

lemma transactOn_cases:
  assumes run: "transactOn en d data c = Inr (report, s')" and ok: "tables_ok (db_tables d)"
  obtains (prior) "operation_check (db_store d) data c = Inr (Prior report)" "s' = db_store d"
  | (noop) "st_tables s' = db_tables d" "tr_status report = ''noop''" "tr_basis report = basisOn (db_tables d)"
      "to_operationID c = None" "refreshNames (db_store d) = Inr s'"
  | (commit) h input d0 as0 rets txf pl0 as pl n where
      "operation_check (db_store d) data c = Inr (Fresh h)" "to_ifBasisTx c \<in> {None, Some (basisOn (db_tables d))}"
      "planned_on d data c d0 input" "plan_transaction d0 input c = Inr (as0, rets, txf, pl0)" "tb_next_id (db_tables d) = Some n"
      "alloc_ok (pl_alloc pl)" "al_first (pl_alloc pl) = n" "pl_assertions pl = pl_assertions pl0"
      "pl_retracts pl = pl_retracts pl0" "\<exists>m \<in> {[], compact_remap (pl_alloc pl0) as0 txf}. as = map (remap_fact m) as0"
      "commit_transaction en d0 (basisOn (db_tables d)) c h as rets pl = Inr (report, s')"
proof -
  obtain answer where answer: "operation_check (db_store d) data c = Inr answer"
    using run by (rule transactOn_check)
  show thesis
  proof (cases answer)
    case (Prior r)
    have "report = r" "s' = db_store d" using transactOn_prior [OF answer [unfolded Prior], of en] run by simp_all
    then show thesis using answer Prior by (intro prior) simp_all
  next
    case (Fresh h)
    let ?basis = "basisOn (db_tables d)"
    obtain s0 input as0 rets txf pl0 as tb1 pl where basis: "to_ifBasisTx c \<in> {None, Some ?basis}"
      and s0: "refreshNames (db_store d) = Inr s0" and on: "planned_on d data c (d\<lparr>db_store := s0\<rparr>) input"
      and plan: "plan_transaction (d\<lparr>db_store := s0\<rparr>) input c = Inr (as0, rets, txf, pl0)"
      and comp: "compactPendingAllocations as0 txf (st_tables s0) pl0 = Inr (as, tb1, pl)"
      and fin: "(if as = [] \<and> rets = [] \<and> \<not> to_force c \<and> \<not> has_metadata c txf \<and> al_pending (pl_alloc pl) = []
         then Inr (noop_report ?basis (pl_alloc pl) pl, s0\<lparr>st_tables := flush (pl_alloc pl) tb1\<rparr>)
         else commit_transaction en (d\<lparr>db_store := s0\<lparr>st_tables := tb1\<rparr>\<rparr>) ?basis c h as rets pl) = Inr (report, s')"
      using run answer Fresh
      by (auto simp: transactOn_def planned_on_def Let_def res_bind_Inr_iff split: if_split_asm option.split_asm)
    have tb: "st_tables s0 = db_tables d" by (rule refreshNames_tables [OF s0])
    obtain n where n: "tb_next_id (db_tables d) = Some n" "below n (db_tables d)" using ok by (rule tables_okD)
    have "plan_ok n pl0" using plan_transaction_ok(1) [OF plan] ok n(1) tb by simp
    moreover have "\<forall>r \<in> set (tb_ids (st_tables s0)). id_id r < n" using n(2) tb by (simp add: below_def)
    ultimately obtain as' pl' where c: "compactPendingAllocations as0 txf (st_tables s0) pl0 = Inr (as', st_tables s0, pl')"
        "alloc_ok (pl_alloc pl')" "al_first (pl_alloc pl') = n" "pl_assertions pl' = pl_assertions pl0"
        "pl_retracts pl' = pl_retracts pl0" "\<exists>m \<in> {[], compact_remap (pl_alloc pl0) as0 txf}. as' = map (remap_fact m) as0"
      by (rule compactPendingAllocations_Inr [where as = as0 and txf = txf])
    then have eq: "as' = as" "tb1 = db_tables d" "pl' = pl" using comp tb by auto
    show thesis
    proof (cases "as = [] \<and> rets = [] \<and> \<not> to_force c \<and> \<not> has_metadata c txf \<and> al_pending (pl_alloc pl) = []")
      case True
      then have "flush (pl_alloc pl) (db_tables d) = db_tables d" using c eq n(1) flush_noop by auto
      moreover have "s0\<lparr>st_tables := db_tables d\<rparr> = s0" using tb by simp
      ultimately show thesis
        using fin True eq(2) noop s0 tb by (auto simp: noop_report_def has_metadata_def)
    next
      case False
      have "commit_transaction en (d\<lparr>db_store := s0\<lparr>st_tables := tb1\<rparr>\<rparr>) ?basis c h as rets pl = Inr (report, s')"
        using fin False by (simp split: if_splits)
      moreover have "s0\<lparr>st_tables := tb1\<rparr> = s0" using tb eq(2) by simp
      ultimately show thesis
        using commit [OF answer [unfolded Fresh] basis on plan n(1)] c eq by simp
    qed
  qed
qed

subsection \<open>Every transaction keeps the invariant\<close>

lemma transactOn_ok:
  assumes "transactOn en d data c = Inr (report, s')" "tables_ok (db_tables d)"
  shows "tables_ok (st_tables s')"
  using assms
proof (cases rule: transactOn_cases)
  case (commit h input d0 as0 rets txf pl0 as pl n)
  note P = plan_transaction_ok [OF commit(4)] 
  obtain m where m: "m \<in> {[], compact_remap (pl_alloc pl0) as0 txf}" and as: "as = map (remap_fact m) as0"
    using commit(10) by blast
  note tb = planned_on_tables [OF commit(3)]
  have "\<forall>f \<in> set as. storable (pf_value f)"
    using P(2) tb commit(5) assms(2) by (auto simp: as remap_value_storable)
  then show ?thesis
    using commit_transaction_Inr [OF commit(11)] P(3,4) tb commit(5,6,7) assms(2) by auto
qed (use assms in auto)

lemma keep_caches_fields [simp]:
  "st_tables (keep_caches left s) = st_tables s" "st_version (keep_caches left s) = st_version s"
  "st_readOnly (keep_caches left s) = st_readOnly s" "st_closed (keep_caches left s) = st_closed s"
  by (simp_all add: keep_caches_def)

lemma TransactCommitting_ok:
  "tables_ok (db_tables d) \<Longrightarrow> tables_ok (db_tables (snd (TransactCommitting commits en d data c)))"
  by (auto simp: TransactCommitting_def Let_def split: sum.splits dest: transactOn_ok)

subsection \<open>What a commit did\<close>

lemma operationReceipt_Some:
  assumes "operationReceipt s op h = Inr (Some report)"
  obtains row where "find (\<lambda>r. ev_op r = Some op) (tb_events (st_tables s)) = Some row" "ev_req row = Some h"
    "tr_status report = ''already_applied''" "tr_tx report = ev_tx row"
proof (cases "find (\<lambda>r. ev_op r = Some op) (tb_events (st_tables s))")
  case (Some row)
  then show thesis
    using assms that [OF Some]
    by (auto simp: operationReceipt_def alreadyAppliedReport_def eventReceipt_def Let_def res_bind_Inr_iff split: if_split_asm)
qed (use assms in \<open>simp add: operationReceipt_def\<close>)

lemma operation_check_Inr:
  assumes "operation_check s data c = Inr answer"
  obtains (unnamed) "to_operationID c = None" "answer = Fresh None"
  | (fresh) op h where "to_operationID c = Some op" "request_hash data c = Inr h" "operationReceipt s op h = Inr None"
      "answer = Fresh (Some h)"
  | (prior) op h report where "to_operationID c = Some op" "request_hash data c = Inr h"
      "operationReceipt s op h = Inr (Some report)" "answer = Prior report"
proof (cases "to_operationID c")
  case None
  then show thesis using assms unnamed by (simp add: operation_check_def split: if_split_asm)
next
  case (Some op)
  then obtain h p where "request_hash data c = Inr h" "operationReceipt s op h = Inr p"
    "answer = (case p of Some r \<Rightarrow> Prior r | None \<Rightarrow> Fresh (Some h))"
    using assms by (auto simp: operation_check_def res_bind_Inr_iff split: if_split_asm)
  then show thesis using Some fresh prior by (cases p) auto
qed

lemma prior_status:
  assumes "operation_check s data c = Inr (Prior report)"
  shows "tr_status report = ''already_applied''"
  using assms by (rule operation_check_Inr) (auto elim: operationReceipt_Some)

lemma applied_cases:
  assumes run: "transactOn en d data c = Inr (report, s')" and ok: "tables_ok (db_tables d)"
    and status: "tr_status report = ''applied''"
  obtains (applied) h d0 input as0 rets txf pl0 m meta n where
    "operation_check (db_store d) data c = Inr (Fresh h)" "to_ifBasisTx c \<in> {None, Some (basisOn (db_tables d))}"
    "planned_on d data c d0 input" "plan_transaction d0 input c = Inr (as0, rets, txf, pl0)"
    "committed (tr_tx report) rets (meta @ map (\<lambda>f. target_tx (tr_tx report) (remap_fact m f)) as0)
       (db_tables d) (st_tables s')"
    "\<forall>f \<in> set meta. pf_e f = tr_tx report \<and> 1 \<le> pf_a f \<and> pf_a f \<le> 4"
    "tb_next_id (db_tables d) = Some n" "tb_next_id (st_tables s') = Some (tr_tx report + 1)" "n \<le> tr_tx report"
    "\<exists>r. tb_events (st_tables s') = tb_events (db_tables d) @ [r] \<and> ev_tx r = tr_tx report
       \<and> ev_op r = to_operationID c \<and> ev_req r = (if to_operationID c = None then None else h)"
    "tr_basis report = basisOn (db_tables d)" "nextTimestamp en (db_tables d) (to_at c) = Inr (tr_at report)"
    "ids_added [n .. tr_tx report] (tr_tx report) (db_tables d) ((db_tables d)\<lparr>tb_ids := tb_ids (st_tables s')\<rparr>)"
    "m \<in> {[], compact_remap (pl_alloc pl0) as0 txf}"
  using run ok
proof (cases rule: transactOn_cases)
  case prior
  then show thesis using status prior_status by fastforce
next
  case noop
  then show thesis using status by simp
next
  case (commit h input d0 as0 rets txf pl0 as pl n)
  obtain m where m: "m \<in> {[], compact_remap (pl_alloc pl0) as0 txf}" and as: "as = map (remap_fact m) as0"
    using commit(10) by blast
  note tb = planned_on_tables [OF commit(3)]
  note P = plan_transaction_ok [OF commit(4)]
  have st: "\<forall>f \<in> set as. storable (pf_value f)"
    using P(2) tb commit(5) ok by (auto simp: as remap_value_storable)
  have hyps: "tables_ok (db_tables d0)" "tb_next_id (db_tables d0) = Some (al_first (pl_alloc pl))"
    "set rets \<subseteq> live_set (db_tables d0)" "distinct rets"
    using ok tb commit(5,7) P(3,4) by simp_all
  show thesis
  proof (rule commit_transaction_Inr [OF commit(11) hyps(1) commit(6) hyps(2) st hyps(3,4)], goal_cases)
    case (1 meta)
    then show thesis
      unfolding tb using that [OF commit(1-4), of meta m n] commit(5-7) m by (simp add: as comp_def alloc_ok_def)
  qed
qed

lemma fold_max_less: "fold max ts t < x \<longleftrightarrow> t < x \<and> (\<forall>y \<in> set ts. y < x)" for t x :: int
  by (induction ts arbitrary: t) auto

lemma basisOn_below:
  assumes "\<forall>q \<in> set (tb_events tb). ev_tx q < n" "0 < n"
  shows "basisOn tb < n"
proof -
  have "\<forall>t \<in> set (map ev_tx (tb_events tb)). t < n" using assms(1) by simp
  then show ?thesis
    using assms(2) unfolding basisOn_def by (cases "map ev_tx (tb_events tb)") (simp_all add: fold_max_less)
qed

lemma recorded_le_basis:
  assumes "t \<in> recorded tb"
  shows "t \<le> basisOn tb"
proof -
  have le: "x \<in> insert u (set ts) \<Longrightarrow> x \<le> fold max ts u" for ts and x u :: int
    using fold_max_less [of ts u x] by (auto simp: not_less [symmetric])
  show ?thesis
  proof (cases "map ev_tx (tb_events tb)")
    case (Cons u ts)
    have "t \<in> set (map ev_tx (tb_events tb))" using assms by (simp add: recorded_def)
    then show ?thesis using le [of t u ts] by (simp add: Cons basisOn_def)
  qed (use assms in \<open>simp add: recorded_def\<close>)
qed

lemma basisOn_append:
  assumes "tb_events tb' = tb_events tb @ [r]" "\<forall>q \<in> set (tb_events tb). ev_tx q < ev_tx r"
  shows "basisOn tb' = ev_tx r"
proof (cases "tb_events tb")
  case (Cons z zs)
  then have "fold max (map ev_tx zs) (ev_tx z) < ev_tx r" using assms(2) by (simp add: fold_max_less)
  then show ?thesis by (simp add: basisOn_def assms(1) Cons)
qed (simp add: basisOn_def assms(1))

subsection \<open>Consequences\<close>

text \<open>A commit takes a transaction id above every event, and that id is the new basis.\<close>

lemma applied_basis:
  assumes "transactOn en d data c = Inr (report, s')" "tables_ok (db_tables d)" "tr_status report = ''applied''"
  shows "basisOn (st_tables s') = tr_tx report" "basisOn (db_tables d) < tr_tx report"
    "tr_basis report = basisOn (db_tables d)"
proof -
  have "basisOn (st_tables s') = tr_tx report \<and> basisOn (db_tables d) < tr_tx report \<and> tr_basis report = basisOn (db_tables d)"
    using assms
  proof (cases rule: applied_cases)
    case (applied h d0 input as0 rets txf pl0 m meta n)
    have "below n (db_tables d)" "FirstUserID \<le> n" using assms(2) applied(7) by (auto elim: tables_okD)
    then have "\<forall>q \<in> set (tb_events (db_tables d)). ev_tx q < tr_tx report" "0 < tr_tx report"
      using applied(9) by (auto simp: below_def FirstUserID_def)
    then show ?thesis using applied(10,11) basisOn_append basisOn_below by metis
  qed
  then show "basisOn (st_tables s') = tr_tx report" "basisOn (db_tables d) < tr_tx report"
    "tr_basis report = basisOn (db_tables d)" by auto
qed

lemma find_Some_append: "find P xs = None \<Longrightarrow> find P (xs @ ys) = find P ys"
  by (induction xs) (auto split: if_splits)

end
