(* ===== verification/CacheFacts.thy ===== *)
theory CacheFacts
  imports TransactFacts
begin

text \<open>
  The name caches of a store (store.go, \<^verbatim>\<open>refreshNames\<close>): after a refresh they say what the identity table
  says, and a transaction keeps them in step with the rows it adds.
\<close>

subsection \<open>What the caches say\<close>

definition named_in :: "tables \<Rightarrow> string \<Rightarrow> int \<Rightarrow> bool" where
  "named_in tb n i \<longleftrightarrow> (\<exists>r \<in> set (tb_ids tb). id_name r = Some n \<and> id_id r = i)"

definition anonymous_in :: "tables \<Rightarrow> int \<Rightarrow> string \<Rightarrow> bool" where
  "anonymous_in tb i u \<longleftrightarrow> (\<exists>r \<in> set (tb_ids tb). id_name r = None \<and> id_id r = i \<and> map_option formatUUID (id_gid r) = Some u)"

definition cached :: "store \<Rightarrow> bool" where
  "cached s \<longleftrightarrow>
     (\<forall>n i. map_of (st_names s) n = Some i \<longleftrightarrow> named_in (st_tables s) n i)
     \<and> (\<forall>n i. map_of (st_idNames s) i = Some n \<longleftrightarrow> named_in (st_tables s) n i)
     \<and> (\<forall>i u. map_of (st_gids s) i = Some u \<longleftrightarrow> anonymous_in (st_tables s) i u)"

lemma cachedD:
  assumes "cached s"
  shows "map_of (st_names s) n = Some i \<longleftrightarrow> named_in (st_tables s) n i"
    "map_of (st_idNames s) i = Some n \<longleftrightarrow> named_in (st_tables s) n i"
    "map_of (st_gids s) i = Some u \<longleftrightarrow> anonymous_in (st_tables s) i u"
  using assms by (simp_all add: cached_def)

text \<open>
  The state of the caches between two calls: a store whose marker equals the version of the file and whose
  cache is loaded is right about the names, and a version is never the marker -1.
\<close>

definition cache_ok :: "store \<Rightarrow> bool" where
  "cache_ok s \<longleftrightarrow> 0 \<le> st_version s \<and> (st_version s = st_dataVersion s \<and> st_names s \<noteq> [] \<longrightarrow> cached s)"

subsection \<open>Refreshing\<close>

definition keyed :: "('a \<Rightarrow> 'k option) \<Rightarrow> ('a \<Rightarrow> 'v) \<Rightarrow> 'a list \<Rightarrow> ('k \<times> 'v) list" where
  "keyed k v xs = concat (map (\<lambda>x. case k x of None \<Rightarrow> [] | Some a \<Rightarrow> [(a, v x)]) xs)"

lemma set_keyed: "(a, b) \<in> set (keyed k v xs) \<longleftrightarrow> (\<exists>x \<in> set xs. k x = Some a \<and> b = v x)"
  by (induction xs) (auto simp: keyed_def split: option.splits)

lemma fst_keyed: "map Some (map fst (keyed k v xs)) = filter (\<lambda>a. a \<noteq> None) (map k xs)"
  by (induction xs) (auto simp: keyed_def split: option.splits)

lemma distinct_keyed: "distinct (map fst (keyed k v xs)) \<longleftrightarrow> distinct (filter (\<lambda>a. a \<noteq> None) (map k xs))"
proof -
  have "distinct (map fst (keyed k v xs)) = distinct (map Some (map fst (keyed k v xs)))"
    by (simp only: distinct_map inj_on_def) auto
  then show ?thesis by (simp only: fst_keyed)
qed

lemma distinct_keyed_sort:
  "distinct (map fst (keyed k v (sort_key f xs))) \<longleftrightarrow> distinct (filter (\<lambda>a. a \<noteq> None) (map k xs))"
proof -
  have "mset (filter (\<lambda>a. a \<noteq> None) (map k (sort_key f xs))) = mset (filter (\<lambda>a. a \<noteq> None) (map k xs))" by simp
  then have "distinct (filter (\<lambda>a. a \<noteq> None) (map k (sort_key f xs))) = distinct (filter (\<lambda>a. a \<noteq> None) (map k xs))"
    by (rule mset_eq_imp_distinct_iff)
  then show ?thesis by (simp add: distinct_keyed)
qed

lemma map_of_keyed_sort:
  assumes "distinct (filter (\<lambda>a. a \<noteq> None) (map k xs))"
  shows "map_of (keyed k v (sort_key f xs)) a = Some b \<longleftrightarrow> (\<exists>x \<in> set xs. k x = Some a \<and> b = v x)"
  using assms by (subst map_of_eq_Some_iff) (simp_all add: distinct_keyed_sort set_keyed)

definition named_id :: "idRow \<Rightarrow> int option" where
  "named_id r = (if id_name r = None then None else Some (id_id r))"

definition anonymous_id :: "idRow \<Rightarrow> int option" where
  "anonymous_id r = (if id_name r = None \<and> id_gid r \<noteq> None then Some (id_id r) else None)"

lemma caches_keyed:
  "cache_names tb = keyed id_name id_id (sort_key id_id (tb_ids tb))"
  "cache_idNames tb = keyed named_id (\<lambda>r. the (id_name r)) (sort_key id_id (tb_ids tb))"
  "cache_gids tb = keyed anonymous_id (\<lambda>r. formatUUID (the (id_gid r))) (sort_key id_id (tb_ids tb))"
  by (auto simp: cache_names_def cache_idNames_def cache_gids_def keyed_def map_concat named_id_def anonymous_id_def
      intro!: arg_cong [where f = concat] split: option.splits)

lemma distinct_filtered:
  assumes "distinct (map g xs)" "\<And>x. k x = None \<or> k x = Some (g x)"
  shows "distinct (filter (\<lambda>a. a \<noteq> None) (map k xs))"
  using assms(1)
proof (induction xs)
  case (Cons x xs)
  have "k x \<notin> set (filter (\<lambda>a. a \<noteq> None) (map k xs))" if "k x \<noteq> None"
  proof
    assume "k x \<in> set (filter (\<lambda>a. a \<noteq> None) (map k xs))"
    then obtain y where "y \<in> set xs" "k y = k x" by auto
    then show False using Cons.prems assms(2) [of x] assms(2) [of y] that by auto
  qed
  then show ?case using Cons by simp
qed simp

lemma refreshed:
  assumes "ids_ok tb"
  shows "cached (s\<lparr>st_tables := tb, st_names := cache_names tb, st_idNames := cache_idNames tb, st_gids := cache_gids tb,
     st_dataVersion := v\<rparr>)"
proof -
  have d: "distinct (filter (\<lambda>a. a \<noteq> None) (map id_name (tb_ids tb)))"
    "distinct (filter (\<lambda>a. a \<noteq> None) (map named_id (tb_ids tb)))"
    "distinct (filter (\<lambda>a. a \<noteq> None) (map anonymous_id (tb_ids tb)))"
    using assms by (simp_all add: ids_ok_def) (rule distinct_filtered [where g = id_id, simplified]; simp add: named_id_def anonymous_id_def)+
  show ?thesis
    unfolding cached_def caches_keyed
    by (auto simp: d [THEN map_of_keyed_sort] named_in_def anonymous_in_def named_id_def anonymous_id_def split: if_splits)
qed

lemma refreshNames_cached:
  assumes "refreshNames s = Inr s'" "cache_ok s" "ids_ok (st_tables s)"
  shows "cached s' \<and> st_version s' = st_version s \<and> st_dataVersion s' = st_version s"
  using assms refreshed [OF assms(3), of "st_version s" s]
  by (auto simp: refreshNames_def cache_ok_def split: if_splits)

text \<open>On tables that satisfy the invariant a refresh does not fail.\<close>

lemma refreshNames_total: "ids_ok (st_tables s) \<Longrightarrow> \<exists>s'. refreshNames s = Inr s'"
  by (auto simp: refreshNames_def ids_ok_def id_row_ok_def list_ex_iff split: option.splits)

subsection \<open>Adding identities\<close>

lemma insert_id_fresh:
  assumes "insert_id r tb = Inr tb'"
  shows "tb_ids tb' = tb_ids tb @ [r]" "q \<in> set (tb_ids tb) \<Longrightarrow> id_id q \<noteq> id_id r"
    "q \<in> set (tb_ids tb) \<Longrightarrow> id_name r \<noteq> None \<Longrightarrow> id_name q \<noteq> id_name r"
  using assms by (auto simp: insert_id_def image_iff split: if_splits)

lemma cached_named:
  assumes "insert_id \<lparr>id_id = i, id_name = Some n, id_gid = None, id_created = tx\<rparr> (st_tables s) = Inr tb" "cached s"
  shows "cached (s\<lparr>st_tables := tb, st_names := AList.update n i (st_names s), st_idNames := AList.update i n (st_idNames s)\<rparr>)"
proof -
  note fresh = insert_id_fresh [OF assms(1), simplified]
  show ?thesis
    using cachedD [OF assms(2)] fresh(2,3) unfolding cached_def
    by (auto simp: update_conv named_in_def anonymous_in_def fresh(1))
qed

lemma cached_anonymous:
  assumes "insert_id \<lparr>id_id = i, id_name = None, id_gid = Some g, id_created = tx\<rparr> (st_tables s) = Inr tb" "cached s"
  shows "cached (s\<lparr>st_tables := tb, st_gids := AList.update i (formatUUID g) (st_gids s)\<rparr>)"
proof -
  note fresh = insert_id_fresh [OF assms(1), simplified]
  show ?thesis
    using cachedD [OF assms(2)] fresh(2) unfolding cached_def
    by (auto simp: update_conv named_in_def anonymous_in_def fresh(1))
qed

lemma finalize_one_cached:
  assumes "finalize_one en tx ev p (s, a, k) = Inr (s', a', k')" "cached s"
  shows "cached s'"
  using assms
  by (cases "pi_kind p")
    (auto simp: finalize_one_def case_wrap_Inr res_bind_Inr_iff cached_named cached_anonymous split: if_splits)

interpretation finalized: kept_by "\<lambda>p st. finalize_one en tx ev p st" "\<lambda>(s, a, k). cached s"
  by unfold_locales (auto dest: finalize_one_cached)

lemma finalize_cached:
  assumes "finalize en tx ev s a = Inr (s', a')" "cached s"
  shows "cached s'"
  using assms finalized.run_keeps [of "(s, a, 0)"] by (fastforce simp: finalize_def res_bind_Inr_iff)

definition same_cache :: "store \<Rightarrow> store \<Rightarrow> bool" where
  "same_cache s s' \<longleftrightarrow> (\<exists>tb. s' = s\<lparr>st_tables := tb\<rparr> \<and> tb_ids tb = tb_ids (st_tables s))"

lemma registry_cong:
  "tb_ids tb = tb_ids tb' \<Longrightarrow> named_in tb = named_in tb'" "tb_ids tb = tb_ids tb' \<Longrightarrow> anonymous_in tb = anonymous_in tb'"
  by (simp_all add: named_in_def anonymous_in_def fun_eq_iff)

lemma cached_same:
  assumes "same_cache s s'" "cached s"
  shows "cached s'"
proof -
  obtain tb where s': "s' = s\<lparr>st_tables := tb\<rparr>" and ids: "tb_ids tb = tb_ids (st_tables s)"
    using assms(1) by (auto simp: same_cache_def)
  show ?thesis using assms(2) registry_cong [OF ids] by (simp add: s' cached_def)
qed

lemma same_cache_refl: "same_cache s s"
  unfolding same_cache_def by (intro exI [of _ "st_tables s"]) simp

lemma same_cache_step: "same_cache s s' \<Longrightarrow> tb_ids tb = tb_ids (st_tables s') \<Longrightarrow> same_cache s (s'\<lparr>st_tables := tb\<rparr>)"
  by (auto simp: same_cache_def)

subsection \<open>Writing facts\<close>

lemma insertFact_ids: "insertFact tx f tb = Inr (i, tb') \<Longrightarrow> tb_ids tb' = tb_ids tb"
  by (auto simp: insertFact_def Let_def res_bind_Inr_iff dest!: insert_fact_row_Inr(3) insert_fts_Inr(1)
      split: if_splits any.splits option.splits)

interpretation inserting: kept_by "insert_planned al tx" "\<lambda>(s, out). same_cache s0 s"
  by unfold_locales (auto simp: insert_planned_Inr elim!: same_cache_step insertFact_ids)

interpretation retracting: kept_by "retract_one tx" "\<lambda>(d, out). same_cache s0 (db_store d)"
  by unfold_locales (auto simp: retract_one_Inr elim!: same_cache_step retract_row_fields(1))

lemma write_facts_cache:
  assumes "write_facts tx pl al facts rets d = Inr (d', asserted, retracted)"
  shows "same_cache (db_store d) (db_store d')"
proof -
  obtain s1 out1 d2 out2 where ins: "res_fold (insert_planned al tx) facts (db_store d, []) = Inr (s1, out1)"
    and ret: "res_fold (retract_one tx) rets (d\<lparr>db_store := s1\<rparr>, []) = Inr (d2, out2)"
    and d': "db_store d' = (db_store d2)\<lparr>st_tables := flush al (fold gc_blob (remdups (concat (map garbage_candidate rets))) (db_tables d2))\<rparr>"
    using assms by (auto simp: write_facts_def Let_def res_bind_Inr_iff)
  have "same_cache (db_store d) s1" using inserting.run_keeps [OF _ ins] same_cache_refl by simp
  then have "same_cache (db_store d) (db_store d2)" using retracting.run_keeps [OF _ ret] by simp
  then show ?thesis unfolding d' by (rule same_cache_step) (simp add: flush_def)
qed

lemma record_event_cache: "record_event tx now c h s = Inr s' \<Longrightarrow> same_cache s s'"
  by (erule record_event_Inr) (auto simp: same_cache_def)

lemma commit_transaction_cached:
  assumes "commit_transaction en d basis c h as rets pl = Inr (report, s')" "cached (db_store d)"
  shows "cached s'"
proof -
  obtain tx al uuid s1 al1 now facts d2 asserted retracted where
      fin: "finalize en tx uuid (db_store d) al = Inr (s1, al1)"
    and wr: "write_facts tx pl al1 facts rets (d\<lparr>db_store := s1\<rparr>) = Inr (d2, asserted, retracted)"
    and ev: "record_event tx now c h (db_store d2) = Inr s'"
    using assms(1) by (rule commit_transactionE)
  have "cached s1" using fin assms(2) by (rule finalize_cached)
  then have "cached (db_store d2)" using write_facts_cache [OF wr] cached_same by simp
  then show ?thesis using record_event_cache [OF ev] cached_same by blast
qed

text \<open>A transaction that does not fail leaves loaded caches that agree with the table.\<close>

lemma finalize_version:
  assumes "finalize en tx uuid s al = Inr (s1, al1)"
  shows "st_version s1 = st_version s"
  using assms res_fold_invariant [where P = "\<lambda>(s', a, k). st_version s' = st_version s"
      and f = "finalize_one en tx uuid" and xs = "al_pending al"]
  by (fastforce simp: finalize_def res_bind_Inr_iff elim: finalize_one_Inr)

lemma commit_transaction_versions:
  assumes "commit_transaction en d basis c h as rets pl = Inr (report, s')"
  shows "st_version s' = st_version (db_store d)"
proof -
  obtain tx al uuid s1 al1 now facts d2 asserted retracted where
      fin: "finalize en tx uuid (db_store d) al = Inr (s1, al1)"
    and wr: "write_facts tx pl al1 facts rets (d\<lparr>db_store := s1\<rparr>) = Inr (d2, asserted, retracted)"
    and ev: "record_event tx now c h (db_store d2) = Inr s'"
    using assms(1) by (rule commit_transactionE)
  have "st_version s1 = st_version (db_store d)" by (rule finalize_version [OF fin])
  then show ?thesis
    using write_facts_cache [OF wr] record_event_cache [OF ev] by (auto simp: same_cache_def)
qed

lemma transactOn_caches:
  assumes "transactOn en d data c = Inr (report, s')" "tables_ok (db_tables d)" "cache_ok (db_store d)"
  shows "cache_ok s'"
  using assms(1,2)
proof (cases rule: transactOn_cases)
  case prior
  then show ?thesis using assms(3) by simp
next
  case noop
  then show ?thesis
    using refreshNames_cached [OF noop(5) assms(3)] assms(2,3) by (auto simp: cache_ok_def tables_ok_def)
next
  case (commit h input d0 as0 rets txf pl0 as pl n)
  then obtain s1 where s1: "refreshNames (db_store d) = Inr s1" "d0 = d\<lparr>db_store := s1\<rparr>" by (auto simp: planned_on_def)
  have c: "cached s1" "st_version s1 = st_version (db_store d)"
    using refreshNames_cached [OF s1(1) assms(3)] assms(2) by (auto simp: tables_ok_def)
  show ?thesis
    using commit_transaction_cached [OF commit(11)] commit_transaction_versions [OF commit(11)] c assms(3) s1(2)
    by (simp add: cache_ok_def)
qed

lemma cache_ok_stale: "0 \<le> st_version s \<Longrightarrow> cache_ok (s\<lparr>st_dataVersion := -1\<rparr>)"
  by (simp add: cache_ok_def)

lemma TransactCommitting_caches:
  assumes "tables_ok (db_tables d)" "cache_ok (db_store d)"
  shows "cache_ok (db_store (snd (TransactCommitting commits en d data c)))"
  using assms cache_ok_stale [of "keep_caches left (db_store d)" for left]
  by (auto simp: TransactCommitting_def Let_def cache_ok_def split: sum.splits dest: transactOn_caches [unfolded cache_ok_def])

text \<open>
  The caches of the residue are those that the transaction really leaves: if it does not fail, they are the caches of
  its result.
\<close>

lemma finalize_reached_ok:
  "res_fold (finalize_one en tx ev) ps st = Inr (s', a', k') \<Longrightarrow> finalize_reached en tx ev ps st = s'"
proof (induction ps arbitrary: st)
  case (Cons p ps)
  then show ?case by (auto simp: res_iff)
qed simp

lemma commit_residue_done:
  assumes "commit_transaction en d basis c h as rets pl = Inr (report, s')"
  shows "same_cache (commit_residue en d c pl) s'"
proof -
  obtain bv sv mv tx al now uuid eid s1 al1 d2 asserted retracted facts where
      vals: "metadata_value textStored (to_by c) = Inr bv" "metadata_value textStored (to_source c) = Inr sv"
      "metadata_value jsonStored (to_meta c) = Inr mv" "alloc_tx (pl_alloc pl) = Inr (tx, al)"
      "nextTimestamp en (db_tables d) (to_at c) = Inr now" "event_identity en c tx = Inr (eid, uuid)"
    and fin: "finalize en tx uuid (db_store d) al = Inr (s1, al1)"
    and wr: "write_facts tx pl al1 facts rets (d\<lparr>db_store := s1\<rparr>) = Inr (d2, asserted, retracted)"
    and ev: "record_event tx now c h (db_store d2) = Inr s'"
    using assms by (auto simp: commit_transaction_def Let_def res_iff)
  obtain k where "res_fold (finalize_one en tx uuid) (al_pending al) (db_store d, al, 0) = Inr (s1, al1, k)"
    using fin by (auto simp: finalize_def res_iff)
  then have "commit_residue en d c pl = s1"
    by (simp add: commit_residue_def vals finalize_reached_ok)
  then show ?thesis
    using write_facts_cache [OF wr] record_event_cache [OF ev] by (auto simp: same_cache_def)
qed

lemma transact_residue_done:
  assumes "transactOn en d data c = Inr (report, s')"
  shows "keep_caches (transact_residue en d data c) s = keep_caches s' s"
proof -
  obtain answer where answer: "operation_check (db_store d) data c = Inr answer"
    using assms by (rule transactOn_check)
  show ?thesis
  proof (cases answer)
    case (Prior r)
    then show ?thesis using answer transactOn_prior [OF answer [unfolded Prior], of en] assms
      by (simp add: transact_residue_def)
  next
    case (Fresh h)
    then obtain s0 input as0 rets txf pl0 as tb1 pl where
        basis: "\<not> (case to_ifBasisTx c of None \<Rightarrow> False | Some b \<Rightarrow> b \<noteq> basisOn (db_tables d))"
      and s0: "refreshNames (db_store d) = Inr s0"
      and input: "(case to_prepareData c of None \<Rightarrow> Inr data | Some prepare \<Rightarrow> prepare s0) = Inr input"
      and plan: "plan_transaction (d\<lparr>db_store := s0\<rparr>) input c = Inr (as0, rets, txf, pl0)"
      and comp: "compactPendingAllocations as0 txf (st_tables s0) pl0 = Inr (as, tb1, pl)"
      and fin: "(if as = [] \<and> rets = [] \<and> \<not> to_force c \<and> \<not> has_metadata c txf \<and> al_pending (pl_alloc pl) = []
         then Inr (noop_report (basisOn (db_tables d)) (pl_alloc pl) pl, s0\<lparr>st_tables := flush (pl_alloc pl) tb1\<rparr>)
         else commit_transaction en (d\<lparr>db_store := s0\<lparr>st_tables := tb1\<rparr>\<rparr>) (basisOn (db_tables d)) c h as rets pl) = Inr (report, s')"
      using assms answer by (auto simp: transactOn_def Let_def res_iff split: if_split_asm)
    have residue: "transact_residue en d data c = planned_residue en d data c s0"
      using answer Fresh basis s0 by (simp add: transact_residue_def)
    show ?thesis
      using fin by (auto simp: residue planned_residue_def input plan comp keep_caches_def same_cache_def
          split: if_split_asm dest!: commit_residue_done)
  qed
qed

end
