(* ===== verification/QueryFacts.thy ===== *)
theory QueryFacts
  imports QueryResult CacheFacts
begin

text \<open>
  Facts about the evaluator: what the folding steps of query.go have in common (\<open>collector\<close>), deduplication
  by keys, the work that evaluation charges, and which bindings a pattern answers.
\<close>

subsection \<open>Steps that collect\<close>

text \<open>
  A step reads one element, appends what it \<open>emits\<close> to the output and charges work up to \<open>limit\<close>. The loops of
  the evaluator are folds of such steps.
\<close>

locale collector =
  fixes step :: "'a \<Rightarrow> 'b list \<times> int \<Rightarrow> ('b list \<times> int) res"
    and emits :: "'a \<Rightarrow> 'b list \<Rightarrow> bool"
    and limit :: int
  assumes step_emits:
    "step x (out, w) = Inr (out', w') \<Longrightarrow> \<exists>ys. emits x ys \<and> out' = out @ ys \<and> w \<le> w' \<and> w' \<le> max w limit"
begin

lemma run_emits:
  assumes "res_fold step xs (out, w) = Inr (out', w')"
  shows "\<exists>yss. list_all2 emits xs yss \<and> out' = out @ concat yss \<and> w \<le> w' \<and> w' \<le> max w limit"
  using assms
proof (induction xs arbitrary: out w)
  case (Cons x xs)
  then obtain out1 w1 where 1: "step x (out, w) = Inr (out1, w1)" "res_fold step xs (out1, w1) = Inr (out', w')"
    by (auto simp: res_bind_Inr_iff)
  from step_emits [OF 1(1)] obtain ys where ys: "emits x ys" "out1 = out @ ys" "w \<le> w1" "w1 \<le> max w limit"
    by blast
  from Cons.IH [OF 1(2)] obtain yss where yss: "list_all2 emits xs yss" "out' = out1 @ concat yss" "w1 \<le> w'" "w' \<le> max w1 limit"
    by blast
  have "list_all2 emits (x # xs) (ys # yss)" "out' = out @ concat (ys # yss)" using ys yss by simp_all
  moreover have "w \<le> w'" "w' \<le> max w limit" using ys(3,4) yss(3,4) by auto
  ultimately show ?case by blast
qed (auto intro: exI [of _ "[]"])

lemma run_sound:
  assumes "res_fold step xs ([], w) = Inr (out, w')" "y \<in> set out"
  obtains x ys where "x \<in> set xs" "emits x ys" "y \<in> set ys"
proof -
  from run_emits [OF assms(1)] obtain yss where "list_all2 emits xs yss" "out = concat yss" by auto
  with assms(2) that show ?thesis by (auto simp: list_all2_conv_all_nth in_set_conv_nth) (metis nth_mem)
qed

lemma run_complete:
  assumes "res_fold step xs ([], w) = Inr (out, w')" "x \<in> set xs"
  obtains ys where "emits x ys" "set ys \<subseteq> set out"
proof -
  from run_emits [OF assms(1)] obtain yss where *: "list_all2 emits xs yss" "out = concat yss" by auto
  from assms(2) obtain i where "i < length xs" "xs ! i = x" by (auto simp: in_set_conv_nth)
  with * have "emits x (yss ! i)" "yss ! i \<in> set yss" by (auto simp: list_all2_conv_all_nth)
  with * that show ?thesis by (metis concat.simps Union_upper set_concat image_eqI subsetI UN_I)
qed

lemma run_work: "res_fold step xs (out, w) = Inr (out', w') \<Longrightarrow> w \<le> w' \<and> w' \<le> max w limit"
  using run_emits by blast

end

lemma spend_Inr: "spend e w = Inr w' \<longleftrightarrow> w < work_limit e \<and> w' = w + 1"
  by (auto simp: spend_def)

text \<open>The option of a match as a list of bindings.\<close>

definition matched :: "binding option \<Rightarrow> binding list" where
  "matched m = (case m of None \<Rightarrow> [] | Some b \<Rightarrow> [b])"

lemma matched_append [simp]: "(case m of None \<Rightarrow> out | Some b \<Rightarrow> out @ [b]) = out @ matched m"
  by (simp add: matched_def split: option.split)

lemma matched_member [simp]: "b \<in> set (matched m) \<longleftrightarrow> m = Some b"
  by (auto simp: matched_def split: option.splits)

definition row_match :: "evaluator \<Rightarrow> any list \<Rightarrow> binding \<Rightarrow> drow \<Rightarrow> binding option \<Rightarrow> bool" where
  "row_match e pattern b r m \<longleftrightarrow>
    (\<exists>logical. scan_logical e r = Inr logical \<and> match_terms e (pattern_row pattern r logical) b = Inr m)"

interpretation indexed: collector "indexed_row e pattern b" "\<lambda>r ys. \<exists>m. row_match e pattern b r m \<and> ys = matched m" "work_limit e"
  by unfold_locales (auto simp: indexed_row_def res_bind_Inr_iff spend_Inr row_match_def)

interpretation batched: collector "batch_match e pattern r logical"
  "\<lambda>b ys. \<exists>m. match_terms e (pattern_row pattern r logical) b = Inr m \<and> ys = matched m" "work_limit e"
  by unfold_locales (auto simp: batch_match_def res_bind_Inr_iff spend_Inr)

interpretation predicates: collector "predicate_binding e op clause"
  "\<lambda>b ys. \<exists>p. predicate_holds e op clause b = Inr p \<and> ys = (if p then [b] else [])" "work_limit e"
  by unfold_locales (auto simp: predicate_binding_def res_bind_Inr_iff spend_Inr)

interpretation tuples: collector "rule_tuple e ts b"
  "\<lambda>tuple ys. \<exists>m. match_terms e (rule_terms ts tuple) b = Inr m \<and> ys = matched m" "work_limit e"
  by unfold_locales (auto simp: rule_tuple_def res_bind_Inr_iff spend_Inr)

interpretation batches: collector "batch_row e pattern v input"
  "\<lambda>r ys. \<exists>logical yss. scan_logical e r = Inr logical
     \<and> list_all2 (\<lambda>b ys. \<exists>m. match_terms e (pattern_row pattern r logical) b = Inr m \<and> ys = matched m)
         (filter (\<lambda>b. bound_entity v b = Some (rf_e (dr_fact r))) input) yss \<and> ys = concat yss" "work_limit e"
proof unfold_locales
  fix r out w out' w'
  assume "batch_row e pattern v input r (out, w) = Inr (out', w')"
  then obtain logical where l: "scan_logical e r = Inr logical"
    "res_fold (batch_match e pattern r logical)
       (filter (\<lambda>b. bound_entity v b = Some (rf_e (dr_fact r))) input) (out, w) = Inr (out', w')"
    by (auto simp: batch_row_def res_bind_Inr_iff)
  from batched.run_emits [OF l(2)] l(1)
  show "\<exists>ys. (\<exists>logical yss. scan_logical e r = Inr logical
     \<and> list_all2 (\<lambda>b ys. \<exists>m. match_terms e (pattern_row pattern r logical) b = Inr m \<and> ys = matched m)
         (filter (\<lambda>b. bound_entity v b = Some (rf_e (dr_fact r))) input) yss \<and> ys = concat yss)
     \<and> out' = out @ ys \<and> w \<le> w' \<and> w' \<le> max w (work_limit e)" by blast
qed


subsection \<open>Keys\<close>

lemma keep_new_Inr:
  "keep_new key x (seen, out) = Inr st \<longleftrightarrow>
   (\<exists>k. key x = Inr k \<and> st = (if k \<in> set seen then (seen, out) else (k # seen, out @ [x])))"
  by (auto simp: keep_new_def res_bind_Inr_iff)

lemma keep_new_run:
  assumes "res_fold (keep_new key) xs (seen, out) = Inr (seen', out')"
  shows "\<exists>new. out' = out @ new \<and> set new \<subseteq> set xs \<and> (\<exists>ks. map key new = map Inr ks \<and> distinct ks \<and> set ks \<inter> set seen = {}
            \<and> set seen' = set seen \<union> set ks)
          \<and> (\<forall>x \<in> set xs. \<exists>k. key x = Inr k \<and> k \<in> set seen')"
  using assms
proof (induction xs arbitrary: seen out)
  case (Cons x xs)
  then obtain k where k: "key x = Inr k"
    and run: "res_fold (keep_new key) xs (if k \<in> set seen then (seen, out) else (k # seen, out @ [x])) = Inr (seen', out')"
    unfolding res_fold.simps res_bind_Inr_iff keep_new_Inr by blast
  show ?case
  proof (cases "k \<in> set seen")
    case True
    with Cons.IH [of seen out] run obtain new ks where n: "out' = out @ new" "set new \<subseteq> set xs"
      "map key new = map Inr ks" "distinct ks" "set ks \<inter> set seen = {}" "set seen' = set seen \<union> set ks"
      "\<forall>x \<in> set xs. \<exists>k. key x = Inr k \<and> k \<in> set seen'" by auto
    with k True show ?thesis by (intro exI [of _ new]) auto
  next
    case False
    with Cons.IH [of "k # seen" "out @ [x]"] run obtain new ks where n: "out' = out @ x # new" "set new \<subseteq> set xs"
      "map key new = map Inr ks" "distinct ks" "set ks \<inter> set (k # seen) = {}" "set seen' = set (k # seen) \<union> set ks"
      "\<forall>x \<in> set xs. \<exists>k. key x = Inr k \<and> k \<in> set seen'" by auto
    show ?thesis
      by (intro exI [of _ "x # new"] conjI exI [of _ "k # ks"]) (use n k False in auto)
  qed
qed auto

text \<open>Deduplication: a part of the list with distinct keys, in which every key of the list occurs.\<close>

lemma distinct_by_Inr:
  assumes "distinct_by key xs = Inr ys"
  shows "set ys \<subseteq> set xs" "\<exists>ks. map key ys = map Inr ks \<and> distinct ks"
    "x \<in> set xs \<Longrightarrow> \<exists>y \<in> set ys. key y = key x"
proof -
  from assms obtain seen' where run: "res_fold (keep_new key) xs ([], []) = Inr (seen', ys)"
    by (auto simp: distinct_by_def res_bind_Inr_iff)
  from keep_new_run [OF run] obtain ks where ks: "set ys \<subseteq> set xs" "map key ys = map Inr ks" "distinct ks"
    "set seen' = set ks" "\<forall>x \<in> set xs. \<exists>k. key x = Inr k \<and> k \<in> set seen'" by auto
  then show "set ys \<subseteq> set xs" "\<exists>ks. map key ys = map Inr ks \<and> distinct ks" by blast+
  assume "x \<in> set xs"
  with ks obtain k where "key x = Inr k" "Inr k \<in> set (map Inr ks :: string res list)" by auto
  with ks(2) show "\<exists>y \<in> set ys. key y = key x" by (metis (no_types) imageE set_map)
qed

lemmas distinctBindings_Inr = distinct_by_Inr [of bindingKey, folded distinctBindings_def]

subsection \<open>Work\<close>

definition charges :: "int \<Rightarrow> int \<Rightarrow> int \<Rightarrow> bool" where
  "charges limit w w' \<longleftrightarrow> w \<le> w' \<and> w' \<le> max w limit"

lemma charges_refl [simp]: "charges limit w w"
  by (simp add: charges_def)

lemma charges_trans: "charges limit u v \<Longrightarrow> charges limit v w \<Longrightarrow> charges limit u w"
  by (auto simp: charges_def)

lemma spend_charges: "spend e w = Inr w' \<Longrightarrow> charges (work_limit e) w w'"
  by (auto simp: spend_Inr charges_def)

lemma res_fold_charges:
  assumes "res_fold f xs st = Inr st'"
    and "\<And>x st st'. x \<in> set xs \<Longrightarrow> f x st = Inr st' \<Longrightarrow> charges limit (snd st) (snd st')"
  shows "charges limit (snd st) (snd st')"
  using assms
proof (induction xs arbitrary: st)
  case (Cons x xs)
  then obtain st1 where 1: "f x st = Inr st1" "res_fold f xs st1 = Inr st'" by (auto simp: res_bind_Inr_iff)
  have "charges limit (snd st) (snd st1)" by (rule Cons.prems(2) [OF _ 1(1)]) simp
  moreover have "charges limit (snd st1) (snd st')" by (rule Cons.IH [OF 1(2)]) (auto intro: Cons.prems(2))
  ultimately show ?case by (rule charges_trans)
qed simp

lemma step_charges:
  "indexed_row e pattern b r st = Inr st' \<Longrightarrow> charges (work_limit e) (snd st) (snd st')"
  "batch_match e pattern r logical b st = Inr st' \<Longrightarrow> charges (work_limit e) (snd st) (snd st')"
  "batch_row e pattern v input r st = Inr st' \<Longrightarrow> charges (work_limit e) (snd st) (snd st')"
  "predicate_binding e op clause b st = Inr st' \<Longrightarrow> charges (work_limit e) (snd st) (snd st')"
  using batches.step_emits [folded charges_def, of e pattern v input r "fst st" "snd st" "fst st'" "snd st'"]
  by (auto simp: indexed_row_def batch_match_def predicate_binding_def res_bind_Inr_iff charges_def
      split: prod.splits dest: spend_charges [unfolded charges_def])

lemmas collector_charges =
  indexed.run_work [folded charges_def] batches.run_work [folded charges_def]
  predicates.run_work [folded charges_def] tuples.run_work [folded charges_def]

lemma evalIndexedPattern_charges:
  "evalIndexedPattern e pattern b w = Inr (out, w') \<Longrightarrow> charges (work_limit e) w w'"
  by (auto simp: evalIndexedPattern_def res_bind_Inr_iff split: option.splits dest: collector_charges(1))

lemma indexed_binding_charges:
  "indexed_binding e pattern b st = Inr st' \<Longrightarrow> charges (work_limit e) (snd st) (snd st')"
  by (auto simp: indexed_binding_def res_bind_Inr_iff split: prod.splits dest: evalIndexedPattern_charges)

lemma evalBoundEntityBatch_charges:
  assumes "evalBoundEntityBatch e pattern input w = Inr (Some (out, w'))"
  shows "charges (work_limit e) w w'"
proof -
  have "charges (work_limit e) (snd st) (snd st')"
    if "res_fold (\<lambda>chunk. res_fold (batch_row e pattern v input) (batch_rows e a chunk)) cs st = Inr st'" for st st' v a cs
    using that by (rule res_fold_charges) (metis collector_charges(2) prod.collapse)
  from this [of _ _ _ "([], w)"] assms show ?thesis
    by (auto simp: evalBoundEntityBatch_def res_bind_Inr_iff split: option.splits if_splits)
qed

lemma evalIndexedPattern_cases:
  assumes "evalIndexedPattern e pattern b w = Inr (out, w')"
  obtains (unknown) "pattern_cells e b 0 pattern = Inr None" "out = []" "w' = w"
    | (scan) cs added sv where "pattern_cells e b 0 pattern = Inr (Some cs)" "added_term cs = Inr added"
      "value_term cs = Inr sv"
      "res_fold (indexed_row e pattern b)
         (sort_key datom_order (qe_scan e (bound_columns cs) (filter (row_condition cs added sv) (patternSQLBase e))))
         ([], w) = Inr (out, w')"
proof -
  obtain c where c: "pattern_cells e b 0 pattern = Inr c"
    using assms by (auto simp: evalIndexedPattern_def res_bind_Inr_iff)
  with assms that show thesis by (cases c) (auto simp: evalIndexedPattern_def res_bind_Inr_iff)
qed

lemma evalBoundEntityBatch_cases:
  assumes "evalBoundEntityBatch e pattern input w = Inr (Some (out, w'))"
  obtains (unknown) v a where "batch_plan e pattern input = Some (v, a)" "name_id e a = None" "out = []" "w' = w"
    | (batch) v a attribute o1 where "batch_plan e pattern input = Some (v, a)" "name_id e a = Some attribute"
      "batch_value (pattern ! 2) input" "list_all (\<lambda>b. bound_entity v b \<noteq> None) input"
      "res_fold (\<lambda>chunk. res_fold (batch_row e pattern v input) (batch_rows e attribute chunk))
         (chunks 400 (batch_entities v input)) ([], w) = Inr (o1, w')"
      "distinctBindings o1 = Inr out"
  using assms by (auto simp: evalBoundEntityBatch_def res_bind_Inr_iff split: option.split_asm if_split_asm)

lemma evalPattern_cases:
  assumes "evalPattern e pattern input w = Inr (out, w')"
  obtains (unknown) attr where "3 \<le> length pattern" "length pattern \<le> 5" "attribute_term (pattern ! 1) = Inr attr"
      "attributePattern attr" "name_id e attr = None" "out = []" "w' = w"
    | (batch) attr where "3 \<le> length pattern" "length pattern \<le> 5" "attribute_term (pattern ! 1) = Inr attr"
      "\<not> (attributePattern attr \<and> name_id e attr = None)" "added_term_ok pattern"
      "evalBoundEntityBatch e pattern input w = Inr (Some (out, w'))"
    | (each) attr o1 where "3 \<le> length pattern" "length pattern \<le> 5" "attribute_term (pattern ! 1) = Inr attr"
      "\<not> (attributePattern attr \<and> name_id e attr = None)" "added_term_ok pattern"
      "evalBoundEntityBatch e pattern input w = Inr None"
      "res_fold (indexed_binding e pattern) input ([], w) = Inr (o1, w')" "distinctBindings o1 = Inr out"
proof -
  have len: "3 \<le> length pattern" "length pattern \<le> 5" using assms by (auto simp: evalPattern_def split: if_splits)
  obtain attr where a: "attribute_term (pattern ! 1) = Inr attr"
    using assms by (auto simp: evalPattern_def res_bind_Inr_iff split: if_splits)
  show thesis
  proof (cases "attributePattern attr \<and> name_id e attr = None")
    case True
    with assms a len have "out = []" "w' = w" by (simp_all add: evalPattern_def)
    with True a len show ?thesis by (intro unknown) auto
  next
    case False
    then have ok: "added_term_ok pattern" using assms a len by (auto simp: evalPattern_def split: if_splits)
    from assms False ok a len obtain h where h: "evalBoundEntityBatch e pattern input w = Inr h"
      by (auto simp: evalPattern_def res_bind_Inr_iff)
    show ?thesis
    proof (cases h)
      case None
      with assms False ok a len h obtain o1 where "res_fold (indexed_binding e pattern) input ([], w) = Inr (o1, w')"
        "distinctBindings o1 = Inr out" by (auto simp: evalPattern_def res_bind_Inr_iff)
      with None False ok a len h show ?thesis by (intro each) auto
    next
      case (Some r)
      with assms False ok a len h have "r = (out, w')" by (auto simp: evalPattern_def)
      with Some False ok a len h show ?thesis by (intro batch) auto
    qed
  qed
qed

lemma evalPattern_charges:
  assumes "evalPattern e pattern input w = Inr (out, w')"
  shows "charges (work_limit e) w w'"
proof -
  have "charges (work_limit e) w v" if "res_fold (indexed_binding e pattern) input ([], w) = Inr (y, v)" for y v
    using res_fold_charges [OF that indexed_binding_charges] by simp
  with assms show ?thesis by (cases rule: evalPattern_cases) (auto dest: evalBoundEntityBatch_charges)
qed

lemma evalPredicate_charges: "evalPredicate e c input w = Inr (out, w') \<Longrightarrow> charges (work_limit e) w w'"
  by (auto simp: evalPredicate_def res_bind_Inr_iff split: any.splits dest: collector_charges(3))

lemma evalRule_charges:
  assumes "evalRule e c input w = Inr (out, w')"
  shows "charges (work_limit e) w w'"
proof -
  have "charges (work_limit e) (snd st) (snd st')"
    if "res_fold (\<lambda>b. res_fold (rule_tuple e ts b) rows) input st = Inr st'" for st st' ts rows
    using that by (rule res_fold_charges) (metis collector_charges(4) prod.collapse)
  from this [of _ _ "([], w)"] assms show ?thesis
    by (auto simp: evalRule_def res_bind_Inr_iff split: list.splits any.splits option.splits if_splits)
qed

text \<open>The bodies of negation and disjunction: \<open>recurse\<close> charges what it is shown to charge.\<close>

lemma evalNot_charges:
  assumes "evalNot recurse c input w = Inr (out, w')"
    and "\<And>bs w out w'. recurse c bs w = Inr (out, w') \<Longrightarrow> charges limit w w'"
  shows "charges limit w w'"
proof -
  have "res_fold (not_binding recurse c) input ([], w) = Inr (out, w')"
    using assms(1) by (simp add: evalNot_def split: if_splits)
  from res_fold_charges [OF this] have "charges limit (snd ([] :: binding list, w)) (snd (out, w'))"
    using assms(2) by (fastforce simp: not_binding_def res_bind_Inr_iff split: prod.splits)
  then show ?thesis by simp
qed

lemma evalOr_charges:
  assumes "evalOr recurse branches input w = Inr (out, w')"
    and "\<And>c bs w out w'. AList c \<in> set branches \<Longrightarrow> recurse c bs w = Inr (out, w') \<Longrightarrow> charges limit w w'"
  shows "charges limit w w'"
proof -
  obtain o1 where run: "res_fold (or_branch recurse input) branches ([], w) = Inr (o1, w')"
    using assms(1) by (auto simp: evalOr_def res_bind_Inr_iff split: if_splits)
  have "charges limit (snd ([] :: binding list, w)) (snd (o1, w'))"
    by (rule res_fold_charges [OF run])
      (use assms(2) in \<open>fastforce simp: or_branch_def clause_items_def res_bind_Inr_iff split: option.splits any.splits prod.splits\<close>)
  then show ?thesis by simp
qed

lemma eval_planned_charges:
  assumes "eval_planned step cs bs w = Inr (out, w')"
    and "\<And>c bs w out w'. c \<in> set cs \<Longrightarrow> step c bs w = Inr (out, w') \<Longrightarrow> charges limit w w'"
  shows "charges limit w w'"
  using assms by (induction cs arbitrary: bs w) (fastforce simp: res_bind_Inr_iff split: if_splits intro: charges_trans)+

lemma eval_clause_charges:
  assumes "eval_clause recurse e c bs w = Inr (out, w')"
    and "\<And>inner bs w out w'. clause_size inner < size c \<Longrightarrow> recurse inner bs w = Inr (out, w') \<Longrightarrow> charges (work_limit e) w w'"
  shows "charges (work_limit e) w w'"
proof (cases "clause_object c")
  case (Some p)
  obtain name body where p: "clause_object c = Some (name, body)" using Some by (cases p) auto
  have inner: "clause_size b < size c" if "AList b \<in> set body" for b
    using clause_size_branch [OF that] clause_size_body [OF p] by simp
  show ?thesis
    using assms(1) p
    by (auto simp: eval_clause_def split: option.splits if_splits
        intro: evalPredicate_charges evalPattern_charges evalRule_charges
          evalNot_charges [OF _ assms(2)] evalOr_charges [OF _ assms(2)] clause_size_body [OF p] inner)
qed (use assms(1) in \<open>auto simp: eval_clause_def split: option.splits if_splits
      intro: evalPredicate_charges evalPattern_charges\<close>)

lemma evalClauses_charges:
  "evalClauses e clauses input w = Inr (out, w') \<Longrightarrow> charges (work_limit e) w w'"
proof (induction e clauses input w arbitrary: out w' rule: evalClauses.induct)
  case (1 e clauses input work)
  from 1(2) show ?case
    unfolding evalClauses.simps [of e clauses]
    by (rule eval_planned_charges) (rule eval_clause_charges, assumption, rule 1(1))
qed

end
