(* ===== verification/PatternFacts.thy ===== *)
theory PatternFacts
  imports QueryFacts
begin

text \<open>
  What a pattern answers: the conditions of the indexed statement never exclude a row that the terms of the
  pattern match, and the batched statement reads every row that the bindings can use.
\<close>

subsection \<open>Equality of values\<close>

lemma valueEqual_scalars [simp]:
  "valueEqual v (ANum k n) \<longleftrightarrow> v = ANum k n"
  "valueEqual v (ABool b) \<longleftrightarrow> v = ABool b"
  "valueEqual v (AStr s) \<longleftrightarrow> v = AStr s"
  "valueEqual v (AByteSlice d) \<longleftrightarrow> v = AByteSlice d"
  by (cases v; simp add: valueEqual_def deepEqual.simps)+

lemma valueEqual_float: "valueEqual v (AF64 y) \<longleftrightarrow> (\<exists>x. v = AF64 x \<and> f64_eq x y)"
  by (cases v) (simp_all add: valueEqual_def deepEqual.simps)

lemma any_int64_Int64 [simp]: "any_int64 (AInt64 n) = n"
  by simp

subsection \<open>Terms\<close>

lemma matchTerm_extends:
  assumes "matchTerm e t actual b entity = Inr (Some b')"
  shows "map_of b \<subseteq>\<^sub>m map_of b'"
  using assms
  by (auto simp: matchTerm_def match_constant_def res_bind_Inr_iff map_le_def update_conv'
      split: any.splits if_splits option.splits)

lemma match_terms_extends: "match_terms e ts b = Inr (Some b') \<Longrightarrow> map_of b \<subseteq>\<^sub>m map_of b'"
proof (induction e ts b rule: match_terms.induct)
  case (2 e t actual entity rest b)
  then obtain b1 where "matchTerm e t actual b entity = Inr (Some b1)" "match_terms e rest b1 = Inr (Some b')"
    by (auto simp: res_bind_Inr_iff split: option.splits)
  with 2 show ?case by (metis matchTerm_extends map_le_trans)
qed simp

text \<open>A cell agrees with the cell of a row: by the id at an entity position, as values elsewhere.\<close>

definition agrees :: "bool \<Rightarrow> cell \<Rightarrow> cell \<Rightarrow> bool" where
  "agrees entity c actual \<longleftrightarrow>
    (if entity then any_int64 (cl_value c) = any_int64 (cl_value actual) else cellsEqual c actual)"

lemma agrees_equal: "cellsEqual c actual \<Longrightarrow> (entity \<Longrightarrow> \<exists>n. actual = Cell (AInt64 n) TagRef) \<Longrightarrow> agrees entity c actual"
  by (auto simp: agrees_def cellsEqual_def)

lemma resolve_name:
  assumes "resolveReadEntity d (AStr name) = Inr (Some i)"
  shows "named_in (db_tables d) name i"
  using assms
  by (auto simp: resolveReadEntity_def readEntity_with_def named_in_def find_Some_iff)

lemma resolve_number:
  assumes "resolveReadEntity d (ANum k n) = Inr (Some i)"
  shows "i = n"
  using assms
  by (auto simp: resolveReadEntity_def readEntity_with_def resolveNumericEntity_def split: if_splits)

lemma scalarValue_objects:
  assumes "resolveReadEntity d t = Inr (Some i)" "constantCell e t = Inr c" "\<forall>s. t \<noteq> AStr s" "\<forall>k n. t \<noteq> ANum k n"
  shows "\<exists>x. t = AF64 x"
  using assms
  by (cases t)
    (auto simp: resolveReadEntity_def readEntity_with_def constantCell_def scalarValue_def wrappedValue_def fail_def
      split: option.splits list.splits if_splits prod.splits)

lemma entity_constant_agrees:
  assumes "resolveReadEntity (qe_db e) t = Inr (Some i)" "match_constant e t actual b True = Inr (Some b')"
    and "\<forall>s. t \<noteq> AStr s" "actual = Cell (AInt64 n) TagRef"
  shows "i = n"
proof -
  obtain c c' where c: "constantCell e t = Inr c" and eq: "cellsEqual c' actual"
    and conv: "(if cl_tag c \<noteq> Some TagRef
                then (if cl_tag c = Some TagInt then Inr (c\<lparr>cl_tag := Some TagRef\<rparr>) else fail ErrQuery) else Inr c) = Inr c'"
    using assms(2) by (auto simp: match_constant_def res_bind_Inr_iff split: if_splits)
  show ?thesis
  proof (cases "\<exists>k m. t = ANum k m")
    case True
    then obtain k m where t: "t = ANum k m" by blast
    with c conv eq assms(4) have "m = n"
      by (auto simp: constantCell_def scalarValue_def cellsEqual_def stored_def fail_def split: if_splits)
    with resolve_number assms(1) t show ?thesis by blast
  next
    case False
    with scalarValue_objects [OF assms(1) c assms(3)] obtain x where "t = AF64 x" by blast
    with c conv show ?thesis
      by (auto simp: constantCell_def scalarValue_def floatStored_def stored_def fail_def split: if_splits)
  qed
qed

lemma term_agrees:
  assumes "patternTermCell e t b entity = Inr (Some (Some c))" "matchTerm e t actual b1 entity = Inr (Some b2)"
    and "map_of b \<subseteq>\<^sub>m map_of b1" "cached (db_store (qe_db e))"
    and actual: "entity \<Longrightarrow> \<exists>n. actual = Cell (AInt64 n) TagRef"
  shows "agrees entity c actual"
proof (cases "\<exists>v. t = AStr v")
  case True
  then obtain v where t: "t = AStr v" by blast
  show ?thesis
  proof (cases "is_variable v")
    case True
    then have "v \<noteq> ''_''" by (auto simp: is_variable_def)
    with assms(1) t True have "map_of b v = Some c" by (simp add: patternTermCell_def)
    with assms(3) have "map_of b1 v = Some c" by (auto simp: map_le_def dom_def)
    with assms(2) t True \<open>v \<noteq> ''_''\<close> have "cellsEqual c actual" by (simp add: matchTerm_def split: if_splits)
    then show ?thesis by (rule agrees_equal) (rule actual)
  next
    case var: False
    with assms(1) t have v: "v \<noteq> ''_''" "preparePatternTerm e t entity = Inr (Some c)"
      by (auto simp: patternTermCell_def res_bind_Inr_iff split: if_splits)
    show ?thesis
    proof (cases entity)
      case True
      from v(2) True obtain i where "resolveReadEntity (qe_db e) t = Inr (Some i)" and c: "c = Cell (AInt64 i) TagRef"
        by (auto simp: preparePatternTerm_def wrap_def split: sum.splits option.splits)
      then have "named_in (db_tables (qe_db e)) v i" using resolve_name t by blast
      then have "name_id e v = Some i" using cachedD(1) [OF assms(4)] by (simp add: name_id_def)
      with assms(2) t v(1) var True have "any_int64 (cl_value actual) = i" by (auto simp: matchTerm_def split: if_splits)
      with True c show ?thesis by (simp add: agrees_def)
    next
      case False
      with v(2) have "constantCell e t = Inr c"
        by (auto simp: preparePatternTerm_def res_bind_Inr_iff Let_def split: if_splits)
      with assms(2) t v(1) var False have "cellsEqual c actual"
        by (auto simp: matchTerm_def match_constant_def split: if_splits)
      with False show ?thesis by (simp add: agrees_def)
    qed
  qed
next
  case False
  then have m: "match_constant e t actual b1 entity = Inr (Some b2)" and p: "preparePatternTerm e t entity = Inr (Some c)"
    using assms(1,2) by (auto simp: matchTerm_def patternTermCell_def res_bind_Inr_iff split: any.splits)
  show ?thesis
  proof (cases entity)
    case True
    then obtain n where n: "actual = Cell (AInt64 n) TagRef" using actual by blast
    from p True obtain i where i: "resolveReadEntity (qe_db e) t = Inr (Some i)" and c: "c = Cell (AInt64 i) TagRef"
      by (auto simp: preparePatternTerm_def wrap_def split: sum.splits option.splits)
    from entity_constant_agrees [OF i, of actual b1 b2 n] m True False n have "i = n" by auto
    with True c n show ?thesis by (simp add: agrees_def)
  next
    case False
    with p have "constantCell e t = Inr c"
      by (auto simp: preparePatternTerm_def res_bind_Inr_iff Let_def split: if_splits)
    with m False have "cellsEqual c actual" by (auto simp: match_constant_def split: if_splits)
    with False show ?thesis by (simp add: agrees_def)
  qed
qed

text \<open>The cells of a pattern and the cells of a row that its terms match agree position by position.\<close>

lemma pattern_cells_agree:
  assumes "pattern_cells e b i ts = Inr (Some cs)"
    and "match_terms e (zip ts (zip acts (map entity_position [i..<i + length acts]))) b1 = Inr (Some b2)"
    and "map_of b \<subseteq>\<^sub>m map_of b1" "cached (db_store (qe_db e))" "length ts \<le> length acts"
    and "\<And>j. j < length acts \<Longrightarrow> entity_position (i + j) \<Longrightarrow> \<exists>n. acts ! j = Cell (AInt64 n) TagRef"
    and "j < length ts" "cs ! j = Some c"
  shows "agrees (entity_position (i + j)) c (acts ! j)"
  using assms
proof (induction ts arbitrary: i cs acts b1 j)
  case (Cons t ts)
  then obtain act acts' where acts: "acts = act # acts'" by (cases acts) auto
  have pos: "map entity_position [i..<i + length acts] = entity_position i # map entity_position [Suc i..<Suc i + length acts']"
    by (simp add: acts upt_conv_Cons del: upt_Suc)
  from Cons.prems(1) obtain c0 cs' where cs: "cs = c0 # cs'" "patternTermCell e t b (entity_position i) = Inr (Some c0)"
    "pattern_cells e b (Suc i) ts = Inr (Some cs')"
    by (auto simp: res_bind_Inr_iff split: option.splits)
  from Cons.prems(2) [unfolded pos] obtain b3 where m: "matchTerm e t act b1 (entity_position i) = Inr (Some b3)"
    "match_terms e (zip ts (zip acts' (map entity_position [Suc i..<Suc i + length acts']))) b3 = Inr (Some b2)"
    by (auto simp: acts res_bind_Inr_iff split: option.splits simp del: upt_Suc)
  have le: "map_of b \<subseteq>\<^sub>m map_of b3" by (rule map_le_trans [OF Cons.prems(3) matchTerm_extends [OF m(1)]])
  show ?case
  proof (cases j)
    case 0
    with Cons.prems(8) cs(1) have "c0 = Some c" by simp
    with cs(2) have "patternTermCell e t b (entity_position i) = Inr (Some (Some c))" by simp
    from term_agrees [OF this m(1) Cons.prems(3,4)] Cons.prems(6) [of 0] 0 acts show ?thesis by simp
  next
    case (Suc k)
    have "agrees (entity_position (Suc i + k)) c (acts' ! k)"
      by (rule Cons.IH [OF cs(3) m(2) le Cons.prems(4)])
        (use Cons.prems(5,7,8) Cons.prems(6) [of "Suc _"] acts cs(1) Suc in auto)
    with Suc acts show ?thesis by simp
  qed
qed simp

lemma pattern_cells_length: "pattern_cells e b i ts = Inr (Some cs) \<Longrightarrow> length cs = length ts"
  by (induction ts arbitrary: i cs) (auto simp: res_bind_Inr_iff split: option.splits)

lemma length_row_cells: "length (row_cells r logical) = 5"
  by (simp add: row_cells_def)

lemma row_agrees:
  assumes "pattern_cells e b 0 pattern = Inr (Some cs)" "length pattern \<le> 5" "cached (db_store (qe_db e))"
    and "match_terms e (pattern_row pattern r logical) b = Inr (Some b')" "bound_at cs j = Some c"
  shows "agrees (entity_position j) c (row_cells r logical ! j)"
proof -
  have j: "j < length pattern" "cs ! j = Some c"
    using assms(5) pattern_cells_length [OF assms(1)] by (auto simp: bound_at_def split: if_splits)
  have "agrees (entity_position (0 + j)) c (row_cells r logical ! j)"
  proof (rule pattern_cells_agree [OF assms(1) _ map_le_refl assms(3) _ _ j])
    show "match_terms e (zip pattern (zip (row_cells r logical) (map entity_position [0..<0 + length (row_cells r logical)]))) b = Inr (Some b')"
      using assms(4) by (simp add: pattern_row_def length_row_cells)
    show "\<exists>n. row_cells r logical ! k = Cell (AInt64 n) TagRef" if "entity_position (0 + k)" for k
      using that by (auto simp: entity_position_def row_cells_def)
  qed (use assms(2) in \<open>simp add: row_cells_def\<close>)
  then show ?thesis by simp
qed

subsection \<open>The stored form of a value\<close>

lemma stored_cell_selects:
  assumes "logicalValue tb raw t = Inr l" "cellsEqual c (Cell l t)" "storedCell c = Inr sv" "t \<noteq> TagVector" "t \<noteq> TagJSON"
  shows "sql_eq raw (sv_storage sv) \<and> t = sv_tag sv"
proof -
  have tag: "cl_tag c = Some t" and eq: "valueEqual (cl_value c) l" using assms(2) by (simp_all add: cellsEqual_def)
  show ?thesis
  proof (cases t)
    case TagFloat
    with assms(1) obtain x where x: "raw = SReal x" "l = AF64 x"
      by (auto simp: logicalValue_def split: sval.splits if_splits)
    with eq obtain y where "cl_value c = AF64 y" "f64_eq y x" by (auto simp: valueEqual_float)
    with assms(3) tag TagFloat x show ?thesis
      by (auto simp: storedCell_def numeric_def floatStored_def stored_def f64_eq_sym split: if_splits)
  next
    case TagText
    with assms(1) obtain s where s: "raw = SText s" "l = AStr s" "\<not> length s > BlobThreshold"
      by (auto simp: logicalValue_def split: sval.splits if_splits)
    with assms(3) tag TagText eq show ?thesis
      by (auto simp: storedCell_def textStored_def stored_def split: if_splits)
  next
    case TagTextRef
    with assms(1) obtain h data s where h: "raw = SBlob h" "l = AStr s" "data = SText s" "validIndirectBlob TagTextRef raw data"
      by (auto simp: logicalValue_def logicalIndirectValue_def wrap_def split: sval.splits if_splits option.splits)
    with assms(3) tag TagTextRef eq show ?thesis
      by (auto simp: storedCell_def textStored_def stored_def indirect_def validIndirectBlob_def split: if_splits)
  next
    case TagBytesRef
    with assms(1) obtain h data s where h: "raw = SBlob h" "l = AByteSlice s" "data = SBlob s" "validIndirectBlob TagBytesRef raw data"
      by (auto simp: logicalValue_def logicalIndirectValue_def wrap_def split: sval.splits if_splits option.splits)
    with assms(3) tag TagBytesRef eq show ?thesis
      by (auto simp: storedCell_def bytesStored_def stored_def indirect_def validIndirectBlob_def split: if_splits)
  next
    case TagBytes
    with assms(1) obtain s where s: "raw = SBlob s" "l = AByteSlice s" "\<not> length s > BlobThreshold"
      by (auto simp: logicalValue_def split: sval.splits if_splits)
    with assms(3) tag TagBytes eq show ?thesis
      by (auto simp: storedCell_def bytesStored_def stored_def split: if_splits)
  next
    case TagInstant
    with assms(1,3) tag eq show ?thesis
      by (auto simp: logicalValue_def storedCell_def instantStored_def stored_def res_bind_Inr_iff split: sval.splits if_splits)
  next
    case TagBool
    with assms(1) obtain n where "raw = SInt n" "l = ABool (n \<noteq> 0)" "n = 0 \<or> n = 1"
      by (auto simp: logicalValue_def split: sval.splits if_splits)
    with assms(3) tag TagBool eq show ?thesis by (auto simp: storedCell_def stored_def)
  qed (use assms tag eq in \<open>auto simp: logicalValue_def storedCell_def stored_def split: sval.splits if_splits\<close>)
qed

subsection \<open>Indexed patterns\<close>

text \<open>
  The constants of the pattern are known entities, and the row is not compared by a vector or JSON value in the
  index, where the stored bytes are finer than the equality of values.
\<close>

definition pattern_known :: "evaluator \<Rightarrow> any list \<Rightarrow> binding \<Rightarrow> drow \<Rightarrow> bool" where
  "pattern_known e pattern b r \<longleftrightarrow>
    (\<exists>cs. pattern_cells e b 0 pattern = Inr (Some cs)
      \<and> (bound_at cs 2 = None \<or> rf_t (dr_fact r) \<notin> {TagVector, TagJSON}))"

definition scan_permutes :: "evaluator \<Rightarrow> bool" where
  "scan_permutes e \<longleftrightarrow> (\<forall>cols rows. mset (qe_scan e cols rows) = mset rows)"

lemma scan_set: "scan_permutes e \<Longrightarrow> set (qe_scan e cols rows) = set rows"
  unfolding scan_permutes_def by (metis set_mset_mset)

lemma row_match_fun: "row_match e pattern b r m \<Longrightarrow> row_match e pattern b r m' \<Longrightarrow> m = m'"
  by (auto simp: row_match_def)

lemma row_condition_complete:
  assumes "pattern_cells e b 0 pattern = Inr (Some cs)" "added_term cs = Inr added" "value_term cs = Inr sv"
    and "length pattern \<le> 5" "cached (db_store (qe_db e))" "row_match e pattern b r (Some b')"
    and "bound_at cs 2 = None \<or> rf_t (dr_fact r) \<notin> {TagVector, TagJSON}"
  shows "row_condition cs added sv r"
proof -
  from assms(6) obtain logical where l: "scan_logical e r = Inr logical"
    "match_terms e (pattern_row pattern r logical) b = Inr (Some b')" unfolding row_match_def by blast
  note agree = row_agrees [OF assms(1,4,5) l(2)]
  have col: "column_condition cs i n" if "entity_position i" "row_cells r logical ! i = Cell (AInt64 n) TagRef" for i n
    using agree [of i] that by (auto simp: column_condition_def agrees_def split: option.split)
  have "column_condition cs 0 (rf_e (dr_fact r))" "column_condition cs 1 (rf_a (dr_fact r))" "column_condition cs 3 (dr_tx r)"
    by (rule col; simp add: entity_position_def row_cells_def)+
  moreover have "case added of None \<Rightarrow> True | Some x \<Rightarrow> dr_added r = x"
    using assms(2) agree [of 4]
    by (auto simp: added_term_def agrees_def entity_position_def row_cells_def cellsEqual_def split: option.splits any.splits)
  moreover have "case sv of None \<Rightarrow> True | Some x \<Rightarrow> sql_eq (rf_v (dr_fact r)) (sv_storage x) \<and> rf_t (dr_fact r) = sv_tag x"
  proof (cases sv)
    case (Some x)
    with assms(3) obtain c where c: "bound_at cs 2 = Some c" "storedCell c = Inr x"
      by (auto simp: value_term_def res_bind_Inr_iff split: option.splits)
    then have "cellsEqual c (Cell logical (rf_t (dr_fact r)))"
      using agree [of 2] by (simp add: agrees_def entity_position_def row_cells_def)
    moreover have "logicalValue (db_tables (qe_db e)) (rf_v (dr_fact r)) (rf_t (dr_fact r)) = Inr logical"
      using l(1) by (auto simp: scan_logical_def Let_def res_bind_Inr_iff)
    ultimately show ?thesis using stored_cell_selects c Some assms(7) by auto
  qed simp
  ultimately show ?thesis by (simp add: row_condition_def Let_def)
qed

lemma evalIndexedPattern_answers:
  assumes "evalIndexedPattern e pattern b w = Inr (out, w')" "length pattern \<le> 5"
    and "cached (db_store (qe_db e))" "scan_permutes e"
  shows "b' \<in> set out \<Longrightarrow> \<exists>r \<in> set (patternSQLBase e). row_match e pattern b r (Some b')"
    "r \<in> set (patternSQLBase e) \<Longrightarrow> row_match e pattern b r (Some b') \<Longrightarrow> pattern_known e pattern b r \<Longrightarrow> b' \<in> set out"
proof -
  show "\<exists>r \<in> set (patternSQLBase e). row_match e pattern b r (Some b')" if "b' \<in> set out"
    using assms(1)
  proof (cases rule: evalIndexedPattern_cases)
    case (scan cs added sv)
    from indexed.run_sound [OF scan(4) that] obtain r m where
      r: "r \<in> set (sort_key datom_order (qe_scan e (bound_columns cs) (filter (row_condition cs added sv) (patternSQLBase e))))"
      and "row_match e pattern b r m" "b' \<in> set (matched m)" by blast
    moreover from r have "r \<in> set (patternSQLBase e)" by (simp add: scan_set [OF assms(4)])
    ultimately show ?thesis by auto
  qed (use that in simp)
  show "b' \<in> set out" if r: "r \<in> set (patternSQLBase e)" "row_match e pattern b r (Some b')" "pattern_known e pattern b r"
    using assms(1)
  proof (cases rule: evalIndexedPattern_cases)
    case (scan cs added sv)
    have "row_condition cs added sv r"
      by (rule row_condition_complete [OF scan(1,2,3) assms(2,3) r(2)]) (use r(3) scan(1) in \<open>auto simp: pattern_known_def\<close>)
    then have "r \<in> set (sort_key datom_order (qe_scan e (bound_columns cs) (filter (row_condition cs added sv) (patternSQLBase e))))"
      using r(1) by (simp add: scan_set [OF assms(4)])
    from indexed.run_complete [OF scan(4) this] obtain m where "row_match e pattern b r m" "set (matched m) \<subseteq> set out" by blast
    with row_match_fun [OF r(2)] show ?thesis by (auto simp: matched_def)
  qed (use r(3) in \<open>auto simp: pattern_known_def\<close>)
qed

subsection \<open>Batched patterns\<close>

lemma res_fold_concat: "res_fold (\<lambda>x. res_fold f (g x)) xs s = res_fold f (concat (map g xs)) s"
proof (induction xs arbitrary: s)
  case (Cons x xs)
  then have "res_fold (\<lambda>x. res_fold f (g x)) xs = res_fold f (concat (map g xs))" by blast
  then show ?case by (simp add: res_fold_append)
qed simp

lemma concat_chunks: "0 < n \<Longrightarrow> concat (chunks n xs) = xs"
  by (induction n xs rule: chunks.induct) (subst chunks.simps, simp)

lemma batch_rows_set:
  "set (concat (map (batch_rows e a) (chunks 400 es))) =
   {r \<in> set (patternSQLBase e). rf_a (dr_fact r) = a \<and> rf_e (dr_fact r) \<in> set es}"
proof -
  have "set (concat (map (batch_rows e a) cs)) =
      {r \<in> set (patternSQLBase e). rf_a (dr_fact r) = a \<and> rf_e (dr_fact r) \<in> set (concat cs)}" for cs
    by (auto simp: batch_rows_def)
  from this [of "chunks 400 es"] show ?thesis by (simp only: concat_chunks [OF zero_less_numeral])
qed

lemma batch_entities_member: "b \<in> set input \<Longrightarrow> bound_entity v b = Some i \<Longrightarrow> i \<in> set (batch_entities v input)"
  by (force simp: batch_entities_def)

lemma attributePattern_name: "attributePattern a \<Longrightarrow> a \<noteq> ''_'' \<and> \<not> is_variable a"
  by (cases a) (auto simp: attributePattern_def is_variable_def attr_segment_def attr_first_def is_digit_def byte_of_def
      split: list.splits if_splits)

text \<open>A row that the pattern of a batch matches is one of the attribute, for the entity of the binding.\<close>

lemma batch_match_row:
  assumes "batch_plan e pattern input = Some (v, a)" "row_match e pattern b r (Some b')"
  shows "name_id e a = Some (rf_a (dr_fact r))" "bound_entity v b = Some i \<Longrightarrow> i = rf_e (dr_fact r)"
proof -
  from assms(1) obtain t where p: "pattern = [AStr v, AStr a, t]" "is_variable v" "attributePattern a"
    by (cases pattern) (auto simp: batch_plan_def length_Suc_conv numeral_3_eq_3 split: if_splits any.splits)
  from assms(2) p(1) obtain logical b1 b2 where
    m: "matchTerm e (AStr v) (Cell (AInt64 (rf_e (dr_fact r))) TagRef) b True = Inr (Some b1)"
       "matchTerm e (AStr a) (Cell (AInt64 (rf_a (dr_fact r))) TagRef) b1 True = Inr (Some b2)"
    by (auto simp: row_match_def pattern_row_def row_cells_def entity_position_def upt_rec res_bind_Inr_iff split: option.splits)
  from m(2) attributePattern_name [OF p(3)] show "name_id e a = Some (rf_a (dr_fact r))"
    by (auto simp: matchTerm_def split: if_splits)
  assume "bound_entity v b = Some i"
  then obtain c where c: "map_of b v = Some c" "any_int64 (cl_value c) = i"
    by (auto simp: bound_entity_def split: option.splits if_splits)
  have "v \<noteq> ''_''" using p(2) by (auto simp: is_variable_def)
  with m(1) c p(2) show "i = rf_e (dr_fact r)" by (auto simp: matchTerm_def cellsEqual_def split: if_splits)
qed

lemma evalBoundEntityBatch_sound:
  assumes "evalBoundEntityBatch e pattern input w = Inr (Some (out, w'))" "b' \<in> set out"
  shows "\<exists>b \<in> set input. \<exists>r \<in> set (patternSQLBase e). row_match e pattern b r (Some b')"
  using assms(1)
proof (cases rule: evalBoundEntityBatch_cases)
  case (batch v a attribute o1)
  have "b' \<in> set o1" using distinctBindings_Inr(1) [OF batch(6)] assms(2) by blast
  from batches.run_sound [OF batch(5) [unfolded res_fold_concat] this] obtain r logical yss where
    r: "r \<in> set (concat (map (batch_rows e attribute) (chunks 400 (batch_entities v input))))" "scan_logical e r = Inr logical"
    and yss: "list_all2 (\<lambda>b ys. \<exists>m. match_terms e (pattern_row pattern r logical) b = Inr m \<and> ys = matched m)
       (filter (\<lambda>b. bound_entity v b = Some (rf_e (dr_fact r))) input) yss" "b' \<in> set (concat yss)" by blast
  from yss(2) obtain ys where "ys \<in> set yss" "b' \<in> set ys" by auto
  then obtain k where k: "k < length yss" "b' \<in> set (yss ! k)" by (metis in_set_conv_nth)
  let ?b = "filter (\<lambda>b. bound_entity v b = Some (rf_e (dr_fact r))) input ! k"
  have "k < length (filter (\<lambda>b. bound_entity v b = Some (rf_e (dr_fact r))) input)"
    using k(1) yss(1) by (simp add: list_all2_lengthD)
  then have "?b \<in> set input" using nth_mem by fastforce
  moreover have "match_terms e (pattern_row pattern r logical) ?b = Inr (Some b')"
    using list_all2_nthD2 [OF yss(1) k(1)] k(2) by auto
  ultimately show ?thesis using r batch_rows_set [of e attribute] unfolding row_match_def by blast
qed (use assms(2) in simp)

lemma evalBoundEntityBatch_complete:
  assumes "evalBoundEntityBatch e pattern input w = Inr (Some (out, w'))"
    and "b \<in> set input" "r \<in> set (patternSQLBase e)" "row_match e pattern b r (Some b')"
  shows "\<exists>b'' \<in> set out. bindingKey b'' = bindingKey b'"
  using assms(1)
proof (cases rule: evalBoundEntityBatch_cases)
  case (unknown v a)
  then show ?thesis using batch_match_row(1) [OF _ assms(4)] by fastforce
next
  case (batch v a attribute o1)
  from batch(4) assms(2) obtain i where "bound_entity v b = Some i" by (auto simp: list_all_iff)
  with batch_match_row(2) [OF batch(1) assms(4)] have i: "bound_entity v b = Some (rf_e (dr_fact r))" by simp
  have "r \<in> set (concat (map (batch_rows e attribute) (chunks 400 (batch_entities v input))))"
    unfolding batch_rows_set
    using assms(3) batch(2) batch_match_row(1) [OF batch(1) assms(4)] batch_entities_member [OF assms(2) i] by auto
  from batches.run_complete [OF batch(5) [unfolded res_fold_concat] this] obtain logical yss where
    l: "scan_logical e r = Inr logical"
    and yss: "list_all2 (\<lambda>b ys. \<exists>m. match_terms e (pattern_row pattern r logical) b = Inr m \<and> ys = matched m)
       (filter (\<lambda>b. bound_entity v b = Some (rf_e (dr_fact r))) input) yss" "set (concat yss) \<subseteq> set o1" by blast
  have "b \<in> set (filter (\<lambda>b. bound_entity v b = Some (rf_e (dr_fact r))) input)" using assms(2) i by simp
  then obtain k where k: "k < length (filter (\<lambda>b. bound_entity v b = Some (rf_e (dr_fact r))) input)"
    "filter (\<lambda>b. bound_entity v b = Some (rf_e (dr_fact r))) input ! k = b" by (metis in_set_conv_nth)
  from list_all2_nthD [OF yss(1) k(1)] k(2) obtain m where m: "match_terms e (pattern_row pattern r logical) b = Inr m"
    "yss ! k = matched m" by auto
  have "m = Some b'" using m(1) l row_match_fun [OF _ assms(4)] unfolding row_match_def by blast
  moreover have "yss ! k \<in> set yss" using k(1) yss(1) by (simp add: list_all2_lengthD)
  ultimately have "b' \<in> set o1" using yss(2) m(2) by (force simp: matched_def)
  then show ?thesis by (rule distinctBindings_Inr(3) [OF batch(6)])
qed

subsection \<open>Patterns\<close>

interpretation each: collector "indexed_binding e pattern"
  "\<lambda>b ys. \<exists>v v'. evalIndexedPattern e pattern b v = Inr (ys, v')" "work_limit e"
proof unfold_locales
  fix b out u out' u'
  assume st: "indexed_binding e pattern b (out, u) = Inr (out', u')"
  then obtain ys where "evalIndexedPattern e pattern b u = Inr (ys, u')" "out' = out @ ys"
    by (auto simp: indexed_binding_def res_bind_Inr_iff)
  with indexed_binding_charges [OF st]
  show "\<exists>ys. (\<exists>v v'. evalIndexedPattern e pattern b v = Inr (ys, v')) \<and> out' = out @ ys \<and> u \<le> u' \<and> u' \<le> max u (work_limit e)"
    by (auto simp: charges_def)
qed

lemma evalPattern_sound:
  assumes "evalPattern e pattern input w = Inr (out, w')" "cached (db_store (qe_db e))" "scan_permutes e" "b' \<in> set out"
  shows "\<exists>b \<in> set input. \<exists>r \<in> set (patternSQLBase e). row_match e pattern b r (Some b')"
  using assms(1)
proof (cases rule: evalPattern_cases)
  case (batch attr)
  then show ?thesis using evalBoundEntityBatch_sound assms(4) by blast
next
  case (each attr o1)
  have "b' \<in> set o1" using distinctBindings_Inr(1) [OF each(8)] assms(4) by blast
  then obtain b ys where b: "b \<in> set input" "\<exists>v v'. evalIndexedPattern e pattern b v = Inr (ys, v')" "b' \<in> set ys"
    by (rule each.run_sound [OF each(7)])
  from b(2) obtain v v' where "evalIndexedPattern e pattern b v = Inr (ys, v')" by (elim exE)
  from evalIndexedPattern_answers(1) [OF this each(2) assms(2,3) b(3)] b(1) show ?thesis by (rule bexI)
qed (use assms(4) in simp)

lemma evalPattern_complete:
  assumes "evalPattern e pattern input w = Inr (out, w')" "cached (db_store (qe_db e))" "scan_permutes e"
    and "b \<in> set input" "r \<in> set (patternSQLBase e)" "row_match e pattern b r (Some b')" "pattern_known e pattern b r"
  shows "\<exists>b'' \<in> set out. bindingKey b'' = bindingKey b'"
  using assms(1)
proof (cases rule: evalPattern_cases)
  case (unknown attr)
  then have "pattern ! 1 = AStr attr" by (auto simp: attribute_term_def split: any.splits if_splits)
  moreover obtain t0 t1 ts where p: "pattern = t0 # t1 # ts" using unknown(1) by (cases pattern; cases "tl pattern") auto
  ultimately have "pattern = t0 # AStr attr # ts" by simp
  with assms(7) obtain c where "patternTermCell e (AStr attr) b True = Inr (Some c)"
    by (auto simp: pattern_known_def res_bind_Inr_iff entity_position_def split: option.splits)
  then obtain i where "resolveReadEntity (qe_db e) (AStr attr) = Inr (Some i)"
    using attributePattern_name [OF unknown(4)]
    by (auto simp: patternTermCell_def preparePatternTerm_def wrap_def res_bind_Inr_iff split: sum.splits option.splits)
  then have "name_id e attr = Some i" using resolve_name cachedD(1) [OF assms(2)] by (simp add: name_id_def)
  with unknown(5) show ?thesis by simp
next
  case (batch attr)
  then show ?thesis using evalBoundEntityBatch_complete assms(4-6) by blast
next
  case (each attr o1)
  obtain ys where ys: "\<exists>v v'. evalIndexedPattern e pattern b v = Inr (ys, v')" "set ys \<subseteq> set o1"
    by (rule each.run_complete [OF each(7) assms(4)])
  from ys(1) obtain v v' where "evalIndexedPattern e pattern b v = Inr (ys, v')" by (elim exE)
  from evalIndexedPattern_answers(2) [OF this each(2) assms(2,3,5-7)] ys(2) have "b' \<in> set o1" by (rule rev_subsetD)
  then show ?thesis by (rule distinctBindings_Inr(3) [OF each(8)])
qed

end
