(* ===== verification/QueryRuleFacts.thy ===== *)
theory QueryRuleFacts
  imports QueryFacts
begin

text \<open>
  Facts about derived relations: evaluation that charges no work has not looked at the relation being derived,
  so that after its first pass the loop of \<open>deriveRelation\<close> either charges the budget or stops; and the
  relation it returns is closed under its rules.
\<close>

subsection \<open>Evaluation without relations\<close>

definition with_relations :: "(string \<times> cell list list) list \<Rightarrow> evaluator \<Rightarrow> evaluator" where
  "with_relations R e = e\<lparr>qe_relations := R\<rparr>"

named_theorems relation_free \<open>operations that do not read the relations\<close>

lemma with_relations_simps [simp, relation_free]:
  "qe_db (with_relations R e) = qe_db e" "qe_rules (with_relations R e) = qe_rules e"
  "qe_source (with_relations R e) = qe_source e" "qe_budget (with_relations R e) = qe_budget e"
  "qe_scan (with_relations R e) = qe_scan e" "qe_relations (with_relations R e) = R"
  by (simp_all add: with_relations_def)

lemma basic_free [relation_free]:
  "work_limit (with_relations R e) = work_limit e"
  "spend (with_relations R e) = spend e"
  "name_id (with_relations R e) = name_id e"
  "patternSQLBase (with_relations R e) = patternSQLBase e"
  "scan_logical (with_relations R e) = scan_logical e"
  by (simp_all add: fun_eq_iff work_limit_def spend_def name_id_def patternSQLBase_def scan_logical_def)

lemma term_free [relation_free]:
  "constantCell (with_relations R e) = constantCell e"
  "match_constant (with_relations R e) = match_constant e"
  "matchTerm (with_relations R e) = matchTerm e"
  "preparePatternTerm (with_relations R e) = preparePatternTerm e"
  "patternTermCell (with_relations R e) = patternTermCell e"
  "termValue (with_relations R e) = termValue e"
proof -
  show 1: "constantCell (with_relations R e) = constantCell e"
    by (unfold constantCell_def [abs_def] relation_free) (rule refl)+
  show 2: "match_constant (with_relations R e) = match_constant e"
    by (unfold match_constant_def [abs_def] 1 relation_free) (rule refl)+
  show "matchTerm (with_relations R e) = matchTerm e"
    by (unfold matchTerm_def [abs_def] 2 relation_free) (rule refl)+
  show 3: "preparePatternTerm (with_relations R e) = preparePatternTerm e"
    by (unfold preparePatternTerm_def [abs_def] 1 relation_free) (rule refl)+
  show "patternTermCell (with_relations R e) = patternTermCell e"
    by (unfold patternTermCell_def [abs_def] 3 relation_free) (rule refl)+
  show "termValue (with_relations R e) = termValue e"
    by (unfold termValue_def [abs_def] 1 relation_free) (rule refl)+
qed

lemma match_terms_free [relation_free]: "match_terms (with_relations R e) = match_terms e"
proof (intro ext)
  show "match_terms (with_relations R e) ts b = match_terms e ts b" for ts b
    by (induction e ts b rule: match_terms.induct) (simp_all add: relation_free cong: res_bind_cong option.case_cong)
qed

lemma pattern_cells_free [relation_free]: "pattern_cells (with_relations R e) = pattern_cells e"
proof (intro ext)
  show "pattern_cells (with_relations R e) b i ts = pattern_cells e b i ts" for b i ts
    by (induction ts arbitrary: i) (simp_all add: relation_free)
qed

lemma pattern_free [relation_free]:
  "evalPattern (with_relations R e) = evalPattern e"
proof -
  have 1: "indexed_row (with_relations R e) = indexed_row e" "batch_match (with_relations R e) = batch_match e"
    by (unfold indexed_row_def [abs_def] batch_match_def [abs_def] relation_free) (rule refl)+
  have 2: "evalIndexedPattern (with_relations R e) = evalIndexedPattern e"
    by (unfold evalIndexedPattern_def [abs_def] 1 relation_free) (rule refl)+
  have 3: "indexed_binding (with_relations R e) = indexed_binding e" "batch_row (with_relations R e) = batch_row e"
    by (unfold indexed_binding_def [abs_def] batch_row_def [abs_def] 1 2 relation_free) (rule refl)+
  have 4: "evalBoundEntityBatch (with_relations R e) = evalBoundEntityBatch e"
    by (unfold evalBoundEntityBatch_def [abs_def] batch_plan_def [abs_def] batch_rows_def [abs_def] 3 relation_free) (rule refl)+
  show ?thesis by (unfold 4 evalPattern_def [abs_def] 3 relation_free) (rule refl)+
qed

lemma predicate_free [relation_free]: "evalPredicate (with_relations R e) = evalPredicate e"
proof -
  have 4: "predicate_binding (with_relations R e) = predicate_binding e"
    by (unfold predicate_binding_def [abs_def] predicate_holds_def [abs_def] relation_free) (rule refl)+
  show ?thesis by (unfold 4 evalPredicate_def [abs_def] relation_free) (rule refl)+
qed

subsection \<open>Idle evaluation\<close>

text \<open>
  A fold that charges nothing in total charges nothing at any step. If every idle step of \<open>f\<close> is a step of \<open>g\<close>,
  at any counter, then so is the idle fold.
\<close>

lemma res_fold_idle:
  assumes "res_fold f xs (out, w) = Inr (out', w)"
    and "\<And>x st st'. x \<in> set xs \<Longrightarrow> f x st = Inr st' \<Longrightarrow> charges limit (snd st) (snd st')"
    and "\<And>x out out'. x \<in> set xs \<Longrightarrow> f x (out, w) = Inr (out', w) \<Longrightarrow> g x (out, v) = Inr (out', v)"
  shows "res_fold g xs (out, v) = Inr (out', v)"
  using assms
proof (induction xs arbitrary: out)
  case (Cons x xs)
  then obtain out1 w1 where 1: "f x (out, w) = Inr (out1, w1)" "res_fold f xs (out1, w1) = Inr (out', w)"
    by (auto simp: res_bind_Inr_iff)
  have "charges limit w w1" using Cons.prems(2) [OF _ 1(1)] by simp
  moreover have "charges limit (snd (out1, w1)) (snd (out', w))"
    by (rule res_fold_charges [OF 1(2)]) (auto intro: Cons.prems(2))
  ultimately have w1: "w1 = w" by (simp add: charges_def)
  have "g x (out, v) = Inr (out1, v)" using Cons.prems(3) 1(1) w1 by simp
  moreover have "res_fold g xs (out1, v) = Inr (out', v)"
    by (rule Cons.IH [OF 1(2) [unfolded w1]]) (auto intro: Cons.prems(2,3))
  ultimately show ?case by simp
qed simp

text \<open>\<open>f\<close> does without relations what it does idly with them.\<close>

definition idle_below :: "clause_eval \<Rightarrow> clause_eval \<Rightarrow> any list \<Rightarrow> bool" where
  "idle_below f g c \<longleftrightarrow> (\<forall>bs w out v. f c bs w = Inr (out, w) \<longrightarrow> g c bs v = Inr (out, v))"

definition charging :: "int \<Rightarrow> clause_eval \<Rightarrow> any list \<Rightarrow> bool" where
  "charging limit f c \<longleftrightarrow> (\<forall>bs w out w'. f c bs w = Inr (out, w') \<longrightarrow> charges limit w w')"

lemma evalNot_idle:
  assumes "evalNot f c input w = Inr (out, w)" "idle_below f g c" "charging limit f c"
  shows "evalNot g c input v = Inr (out, v)"
proof -
  have ok: "list_all (correlated (clauseVariables c)) input"
    and run: "res_fold (not_binding f c) input ([], w) = Inr (out, w)"
    using assms(1) by (auto simp: evalNot_def split: if_splits)
  have "res_fold (not_binding g c) input ([], v) = Inr (out, v)"
  proof (rule res_fold_idle [OF run])
    show "not_binding f c x st = Inr st' \<Longrightarrow> charges limit (snd st) (snd st')" for x st st'
      using assms(3) by (fastforce simp: charging_def not_binding_def res_bind_Inr_iff split: prod.splits)
    show "not_binding f c x (out, w) = Inr (out', w) \<Longrightarrow> not_binding g c x (out, v) = Inr (out', v)" for x out out'
      using assms(2) by (auto simp: idle_below_def not_binding_def res_bind_Inr_iff)
  qed
  with ok show ?thesis by (simp add: evalNot_def)
qed

lemma evalOr_idle:
  assumes "evalOr f branches input w = Inr (out, w)"
    and "\<And>c. AList c \<in> set branches \<Longrightarrow> idle_below f g c \<and> charging limit f c"
  shows "evalOr g branches input v = Inr (out, v)"
proof -
  obtain o1 where run: "res_fold (or_branch f input) branches ([], w) = Inr (o1, w)"
    and dist: "branches \<noteq> []" "distinctBindings o1 = Inr out"
    using assms(1) by (auto simp: evalOr_def res_bind_Inr_iff split: if_splits)
  have "res_fold (or_branch g input) branches ([], v) = Inr (o1, v)"
  proof (rule res_fold_idle [OF run])
    show "x \<in> set branches \<Longrightarrow> or_branch f input x st = Inr st' \<Longrightarrow> charges limit (snd st) (snd st')" for x st st'
      using assms(2) by (fastforce simp: charging_def or_branch_def clause_items_def res_bind_Inr_iff
          split: prod.splits option.splits any.splits)
    show "x \<in> set branches \<Longrightarrow> or_branch f input x (out, w) = Inr (out', w) \<Longrightarrow>
        or_branch g input x (out, v) = Inr (out', v)" for x out out'
      using assms(2) by (fastforce simp: idle_below_def or_branch_def clause_items_def res_bind_Inr_iff
          split: option.splits any.splits)
  qed
  with dist show ?thesis by (simp add: evalOr_def)
qed

lemma eval_planned_idle:
  assumes "eval_planned f cs bs w = Inr (out, w)"
    and "\<And>c bs w out w'. c \<in> set cs \<Longrightarrow> f c bs w = Inr (out, w') \<Longrightarrow> charges limit w w'"
    and "\<And>c bs out. c \<in> set cs \<Longrightarrow> f c bs w = Inr (out, w) \<Longrightarrow> g c bs v = Inr (out, v)"
  shows "eval_planned g cs bs v = Inr (out, v)"
  using assms
proof (induction cs arbitrary: bs)
  case (Cons c cs)
  then obtain b1 w1 where 1: "f c bs w = Inr (b1, w1)"
    "(if b1 = [] then Inr ([], w1) else eval_planned f cs b1 w1) = Inr (out, w)"
    by (auto simp: res_bind_Inr_iff)
  have "charges limit w w1" by (rule Cons.prems(2) [OF _ 1(1)]) simp
  moreover have "charges limit w1 w"
  proof (cases "b1 = []")
    case False
    with 1(2) have "eval_planned f cs b1 w1 = Inr (out, w)" by simp
    then show ?thesis by (rule eval_planned_charges) (auto intro: Cons.prems(2))
  qed (use 1(2) in simp)
  ultimately have w1: "w1 = w" by (simp add: charges_def)
  have g: "g c bs v = Inr (b1, v)" using Cons.prems(3) 1(1) w1 by simp
  show ?case
  proof (cases "b1 = []")
    case False
    with 1(2) w1 have "eval_planned f cs b1 w = Inr (out, w)" by simp
    then have "eval_planned g cs b1 v = Inr (out, v)" by (rule Cons.IH) (auto intro: Cons.prems(2,3))
    with g False show ?thesis by simp
  qed (use 1(2) g in simp)
qed simp

text \<open>A rule call on a nonempty relation charges the budget unless there is no binding to extend.\<close>

lemma rule_rows_charge:
  assumes "res_fold (\<lambda>b. res_fold (rule_tuple e ts b) rows) input (out, w) = Inr (out', w)" "rows \<noteq> []"
  shows "input = []"
proof (rule ccontr)
  assume "input \<noteq> []"
  then obtain b input' r rows' where eq: "input = b # input'" "rows = r # rows'"
    using assms(2) by (metis neq_Nil_conv)
  have step: "charges (work_limit e) (snd st) (snd st')"
    if "res_fold (rule_tuple e ts b) rows st = Inr st'" for b st st' rows
    using that by (metis collector_charges(4) prod.collapse)
  from assms(1) obtain o1 w1 o2 w2 where 1: "rule_tuple e ts b r (out, w) = Inr (o1, w1)"
    "res_fold (rule_tuple e ts b) rows' (o1, w1) = Inr (o2, w2)"
    "res_fold (\<lambda>b. res_fold (rule_tuple e ts b) rows) input' (o2, w2) = Inr (out', w)"
    by (auto simp: eq res_bind_Inr_iff)
  have "w1 = w + 1" using 1(1) by (auto simp: rule_tuple_def res_bind_Inr_iff spend_Inr)
  moreover have "w1 \<le> w2" using step [OF 1(2)] by (simp add: charges_def)
  moreover have "w2 \<le> w" using res_fold_charges [OF 1(3) step] by (simp add: charges_def)
  ultimately show False by simp
qed

lemma set_relation_with: "set_relation name rows e = with_relations (AList.update name rows (qe_relations e)) e"
  by (simp add: set_relation_def with_relations_def)

lemma relation_rows_set: "relation_rows (set_relation name rows e) n = (if n = name then rows else relation_rows e n)"
  by (simp add: relation_rows_def set_relation_def update_conv')

lemma rule_tuple_set: "rule_tuple (set_relation name rows e) = rule_tuple e"
  by (unfold set_relation_with rule_tuple_def [abs_def] relation_free) (rule refl)

lemma qe_rules_set [simp]: "qe_rules (set_relation name rows e) = qe_rules e"
  by (simp add: set_relation_def)

lemma work_limit_set [simp]: "work_limit (set_relation name rows e) = work_limit e"
  by (simp add: set_relation_with relation_free)

lemma evalRule_Inr:
  "evalRule (set_relation name rows e) c input w = Inr (out, w') \<longleftrightarrow>
   (\<exists>n ts r rs o1. c = AStr n # ts \<and> map_of (qe_rules e) n = Some (r # rs) \<and> length ts = length (rd_args r)
      \<and> res_fold (\<lambda>b. res_fold (rule_tuple e ts b) (if n = name then rows else relation_rows e n)) input ([], w) = Inr (o1, w')
      \<and> distinctBindings o1 = Inr out)"
  unfolding evalRule_def relation_rows_set rule_tuple_set qe_rules_set
  by (auto simp: res_bind_Inr_iff split: list.split any.split option.split if_split)

lemma evalRule_idle:
  assumes "evalRule (set_relation name rows e) c input w = Inr (out, w)" "rows \<noteq> []"
  shows "evalRule (set_relation name [] e) c input v = Inr (out, v)"
proof -
  let ?f = "\<lambda>ts b. res_fold (rule_tuple e ts b)"
  obtain n ts r rs o1 where c: "c = AStr n # ts" "map_of (qe_rules e) n = Some (r # rs)" "length ts = length (rd_args r)"
    and run: "res_fold (\<lambda>b. ?f ts b (if n = name then rows else relation_rows e n)) input ([], w) = Inr (o1, w)"
    and dist: "distinctBindings o1 = Inr out"
    using assms(1) unfolding evalRule_Inr by blast
  have charge: "charges (work_limit e) (snd st) (snd st')" if "?f ts b rows st = Inr st'" for b rows st st'
    using that by (metis collector_charges(4) prod.collapse)
  have "res_fold (\<lambda>b. ?f ts b (if n = name then [] else relation_rows e n)) input ([], v) = Inr (o1, v)"
  proof (cases "n = name")
    case True
    then have "input = []" using rule_rows_charge [of e ts rows input] run assms(2) by simp
    then show ?thesis using run by simp
  next
    case False
    then have "res_fold (\<lambda>b. ?f ts b (relation_rows e n)) input ([], w) = Inr (o1, w)" using run by simp
    then have "res_fold (\<lambda>b. ?f ts b (relation_rows e n)) input ([], v) = Inr (o1, v)"
    proof (rule res_fold_idle [OF _ charge])
      show "?f ts b (relation_rows e n) (out, v) = Inr (out', v)"
        if "?f ts b (relation_rows e n) (out, w) = Inr (out', w)" for b out out'
        using that by (rule res_fold_idle [where limit = "work_limit e"])
          (auto simp: rule_tuple_def res_bind_Inr_iff spend_Inr charges_def split: prod.splits)
    qed assumption
    with False show ?thesis by simp
  qed
  with c dist show ?thesis unfolding evalRule_Inr by blast
qed

lemma busy_steps:
  "indexed_row e pattern b r (out, w) = Inr (out', w') \<Longrightarrow> w' = w + 1"
  "batch_match e pattern r logical b (out, w) = Inr (out', w') \<Longrightarrow> w' = w + 1"
  "predicate_binding e op clause b (out, w) = Inr (out', w') \<Longrightarrow> w' = w + 1"
  by (auto simp: indexed_row_def batch_match_def predicate_binding_def res_bind_Inr_iff spend_Inr)

lemma evalPredicate_idle:
  assumes "evalPredicate e c bs w = Inr (out, w)"
  shows "evalPredicate e c bs v = Inr (out, v)"
proof -
  obtain op o1 where op: "c ! 0 = AStr op" "distinctBindings o1 = Inr out"
    and run: "res_fold (predicate_binding e op c) bs ([], w) = Inr (o1, w)"
    using assms by (auto simp: evalPredicate_def res_bind_Inr_iff split: any.splits)
  have "res_fold (predicate_binding e op c) bs ([], v) = Inr (o1, v)"
    using run by (rule res_fold_idle [OF _ step_charges(4)]) (auto dest: busy_steps)
  with op show ?thesis by (simp add: evalPredicate_def)
qed

lemma evalIndexedPattern_idle:
  assumes "evalIndexedPattern e pattern b w = Inr (out, w)"
  shows "evalIndexedPattern e pattern b v = Inr (out, v)"
proof -
  have "res_fold (indexed_row e pattern b) rows ([], v) = Inr (out, v)"
    if "res_fold (indexed_row e pattern b) rows ([], w) = Inr (out, w)" for rows
    using that by (rule res_fold_idle [OF _ step_charges(1)]) (auto dest: busy_steps)
  with assms show ?thesis
    by (cases rule: evalIndexedPattern_cases) (simp_all add: evalIndexedPattern_def)
qed

lemma evalBoundEntityBatch_idle:
  assumes "evalBoundEntityBatch e pattern bs w = Inr (Some (out, w))"
  shows "evalBoundEntityBatch e pattern bs v = Inr (Some (out, v))"
proof -
  have 1: "batch_row e pattern x bs r (o1, v) = Inr (o2, v)"
    if "batch_row e pattern x bs r (o1, w) = Inr (o2, w)" for x r o1 o2
  proof -
    have "res_fold (batch_match e pattern r l) xs (o1, v) = Inr (o2, v)"
      if "res_fold (batch_match e pattern r l) xs (o1, w) = Inr (o2, w)" for l xs
      using that by (rule res_fold_idle [OF _ step_charges(2)]) (auto dest: busy_steps)
    then show ?thesis using that by (auto simp: batch_row_def res_bind_Inr_iff)
  qed
  have charge: "charges (work_limit e) (snd st) (snd st')"
    if "res_fold (batch_row e pattern x bs) rows st = Inr st'" for x rows st st'
    using that by (metis collector_charges(2) prod.collapse)
  have 2: "res_fold (batch_row e pattern x bs) rows (o1, v) = Inr (o2, v)"
    if "res_fold (batch_row e pattern x bs) rows (o1, w) = Inr (o2, w)" for x rows o1 o2
    using that by (rule res_fold_idle [where limit = "work_limit e"]) (rule step_charges(3) 1, assumption)+
  have "res_fold (\<lambda>chunk. res_fold (batch_row e pattern x bs) (batch_rows e a chunk)) cs ([], v) = Inr (o1, v)"
    if "res_fold (\<lambda>chunk. res_fold (batch_row e pattern x bs) (batch_rows e a chunk)) cs ([], w) = Inr (o1, w)" for x a cs o1
    using that by (rule res_fold_idle [where limit = "work_limit e"]) (rule charge 2, assumption)+
  with assms show ?thesis
    by (cases rule: evalBoundEntityBatch_cases) (simp_all add: evalBoundEntityBatch_def)
qed

lemma evalBoundEntityBatch_unhandled:
  "evalBoundEntityBatch e pattern bs w = Inr None \<Longrightarrow> evalBoundEntityBatch e pattern bs v = Inr None"
  by (auto simp: evalBoundEntityBatch_def res_bind_Inr_iff split: option.splits if_splits)

lemma evalPattern_idle:
  assumes "evalPattern e pattern bs w = Inr (out, w)"
  shows "evalPattern e pattern bs v = Inr (out, v)"
proof -
  have "res_fold (indexed_binding e pattern) bs ([], v) = Inr (o1, v)"
    if "res_fold (indexed_binding e pattern) bs ([], w) = Inr (o1, w)" for o1
    using that
  proof (rule res_fold_idle [OF _ indexed_binding_charges])
    show "indexed_binding e pattern b (o1, w) = Inr (o2, w) \<Longrightarrow> indexed_binding e pattern b (o1, v) = Inr (o2, v)" for b o1 o2
      by (auto simp: indexed_binding_def res_bind_Inr_iff dest: evalIndexedPattern_idle)
  qed
  note run = this
  from assms show ?thesis
  proof (cases rule: evalPattern_cases)
    case (batch attr)
    from evalBoundEntityBatch_idle [OF batch(6), of v] batch show ?thesis by (auto simp: evalPattern_def)
  next
    case (each attr o1)
    from evalBoundEntityBatch_unhandled [OF each(6), of v] run [OF each(7)] each
    show ?thesis by (auto simp: evalPattern_def)
  qed (auto simp: evalPattern_def)
qed

lemma evalClauses_charging: "charging (work_limit e) (evalClauses e) c"
  by (auto simp: charging_def dest: evalClauses_charges)

lemma eval_clause_idle:
  assumes "eval_clause f (set_relation name rows e) c bs w = Inr (out, w)" "rows \<noteq> []"
    and "\<And>inner. clause_size inner < size c \<Longrightarrow> idle_below f g inner"
    and "\<And>inner. charging limit f inner"
  shows "eval_clause g (set_relation name [] e) c bs v = Inr (out, v)"
proof (cases "clause_items c")
  case (Some items)
  have eq: "eval_clause f (set_relation name rows e) c bs w
      = (if isPredicateClause items then evalPredicate e items bs w else evalPattern e items bs w)" for f rows w
    by (simp add: eval_clause_def set_relation_with relation_free Some)
  show ?thesis
    using assms(1) unfolding eq
    by (cases "isPredicateClause items"; simp) (erule evalPredicate_idle evalPattern_idle)+
next
  case None
  then obtain n body where p: "clause_object c = Some (n, body)"
    using assms(1) by (auto simp: eval_clause_def split: option.splits)
  have not: "evalNot f body bs w = Inr (out, w) \<Longrightarrow> evalNot g body bs v = Inr (out, v)"
    by (rule evalNot_idle [OF _ assms(3,4)]) (auto intro: clause_size_body [OF p])
  have or: "evalOr f body bs w = Inr (out, w) \<Longrightarrow> evalOr g body bs v = Inr (out, v)"
    by (erule evalOr_idle [where limit = limit])
      (intro conjI assms(3,4), rule less_trans [OF clause_size_branch clause_size_body [OF p]])
  show ?thesis
    using assms(1) None p not or evalRule_idle [OF _ assms(2)]
    by (simp add: eval_clause_def split: if_splits)
qed

lemma evalClauses_idle:
  assumes "evalClauses (set_relation name rows e) c bs w = Inr (out, w)" "rows \<noteq> []"
  shows "evalClauses (set_relation name [] e) c bs v = Inr (out, v)"
  using assms(1)
proof (induction "clause_size c" arbitrary: c bs w out v rule: less_induct)
  case less
  have below: "idle_below (evalClauses (set_relation name rows e)) (evalClauses (set_relation name [] e)) inner"
    if "clause_size inner < size d" "d \<in> set c" for inner d
    using less.hyps [of inner] that clause_size_member [of d c] by (auto simp: idle_below_def)
  show ?case
    unfolding evalClauses.simps [of "set_relation name [] e" c]
  proof (rule eval_planned_idle [OF less.prems [unfolded evalClauses.simps [of "set_relation name rows e" c]]])
    fix d bs1 u out1 u'
    assume "eval_clause (evalClauses (set_relation name rows e)) (set_relation name rows e) d bs1 u = Inr (out1, u')"
    then show "charges (work_limit e) u u'"
      using eval_clause_charges [of "evalClauses (set_relation name rows e)" "set_relation name rows e" d bs1 u out1 u']
        evalClauses_charges [of "set_relation name rows e"] by simp
  next
    fix d bs1 out1
    assume d: "d \<in> set (map oq_value (orderQueryClauses c (initialBindingNames bs)))"
      "eval_clause (evalClauses (set_relation name rows e)) (set_relation name rows e) d bs1 w = Inr (out1, w)"
    show "eval_clause (evalClauses (set_relation name [] e)) (set_relation name [] e) d bs1 v = Inr (out1, v)"
      by (rule eval_clause_idle [OF d(2) assms(2) below evalClauses_charging]) (use d(1) in \<open>simp_all add: orderQueryClauses_set\<close>)
  qed
qed

subsection \<open>The rows and keys of a derivation\<close>

definition derived_key :: "string list \<Rightarrow> binding \<Rightarrow> string \<Rightarrow> bool" where
  "derived_key args b k \<longleftrightarrow> (\<exists>t. head_cells args b = Inr t \<and> tuple_key t = Inr k)"

text \<open>The keys are those of the rows, none twice.\<close>

definition keyed_rows :: "cell list list \<Rightarrow> string list \<Rightarrow> bool" where
  "keyed_rows rows seen \<longleftrightarrow> map tuple_key rows = map Inr (rev seen) \<and> distinct seen"

lemma keyed_rows_member: "keyed_rows rows seen \<Longrightarrow> k \<in> set seen \<Longrightarrow> \<exists>t \<in> set rows. tuple_key t = Inr k"
proof -
  assume "keyed_rows rows seen" "k \<in> set seen"
  then have "Inr k \<in> set (map tuple_key rows)" unfolding keyed_rows_def by simp
  then show ?thesis by auto
qed

lemma keyed_rows_Nil [simp]: "keyed_rows [] []"
  by (simp add: keyed_rows_def)

definition grows :: "derivation \<Rightarrow> derivation \<Rightarrow> bool" where
  "grows st st' \<longleftrightarrow>
    (case (st, st') of ((rows, seen, changed), (rows', seen', changed')) \<Rightarrow>
      set seen \<subseteq> set seen' \<and> (keyed_rows rows seen \<longrightarrow> keyed_rows rows' seen')
      \<and> (changed' \<and> \<not> changed \<longrightarrow> rows' \<noteq> []) \<and> (rows \<noteq> [] \<longrightarrow> rows' \<noteq> [])
      \<and> (\<not> changed' \<longrightarrow> st' = st))"

lemma grows_refl [simp]: "grows st st"
  by (cases st) (simp add: grows_def)

lemma grows_trans: "grows st st1 \<Longrightarrow> grows st1 st2 \<Longrightarrow> grows st st2"
  by (cases st; cases st1; cases st2) (auto simp: grows_def)

lemma derive_binding_Inr:
  "derive_binding args b (rows, seen, changed) = Inr st \<longleftrightarrow>
   (\<exists>t k. head_cells args b = Inr t \<and> tuple_key t = Inr k
      \<and> st = (if k \<in> set seen then (rows, seen, changed) else (rows @ [t], k # seen, True)))"
  by (auto simp: derive_binding_def res_bind_Inr_iff)

lemma derive_binding_grows:
  assumes "derive_binding args b (rows, seen, changed) = Inr (rows', seen', changed')"
  shows "grows (rows, seen, changed) (rows', seen', changed')" "\<exists>k \<in> set seen'. derived_key args b k"
  using assms unfolding derive_binding_Inr
  by (auto simp: grows_def keyed_rows_def derived_key_def split: if_splits)

lemma derive_bindings_grow:
  assumes "res_fold (derive_binding args) bs (rows, seen, changed) = Inr (rows', seen', changed')"
  shows "grows (rows, seen, changed) (rows', seen', changed') \<and> (\<forall>b \<in> set bs. \<exists>k \<in> set seen'. derived_key args b k)"
  using assms
proof (induction bs arbitrary: rows seen changed)
  case (Cons b bs)
  then obtain rows1 seen1 changed1 where 1: "derive_binding args b (rows, seen, changed) = Inr (rows1, seen1, changed1)"
    "res_fold (derive_binding args) bs (rows1, seen1, changed1) = Inr (rows', seen', changed')"
    by (auto simp: res_bind_Inr_iff)
  have "set seen1 \<subseteq> set seen'" using Cons.IH [OF 1(2)] by (simp add: grows_def)
  with derive_binding_grows [OF 1(1)] Cons.IH [OF 1(2)] show ?case by (auto intro: grows_trans)
qed simp

lemma derive_bindings_seen:
  assumes "res_fold (derive_binding args) bs (rows, seen, changed) = Inr st"
    and "\<forall>b \<in> set bs. \<exists>k \<in> set seen. derived_key args b k"
  shows "st = (rows, seen, changed)"
  using assms by (induction bs) (auto simp: res_bind_Inr_iff derive_binding_Inr derived_key_def)

lemma derive_rule_Inr:
  "derive_rule e r (dv, w) = Inr (dv', w') \<longleftrightarrow>
   (\<exists>bs. evalClauses e (rd_body r) [[]] w = Inr (bs, w') \<and> res_fold (derive_binding (rd_args r)) bs dv = Inr dv')"
  by (cases dv') (auto simp: derive_rule_def res_bind_Inr_iff)

lemma derive_rule_charges: "derive_rule e r st = Inr st' \<Longrightarrow> charges (work_limit e) (snd st) (snd st')"
  by (cases st; cases st') (auto simp: derive_rule_Inr dest: evalClauses_charges)

lemma derive_rules_charge:
  assumes "res_fold (derive_rule e) rs (dv, w) = Inr (dv', w')"
  shows "charges (work_limit e) w w'"
proof -
  have "charges (work_limit e) (snd (dv, w)) (snd (dv', w'))"
    by (rule res_fold_charges [OF assms]) (rule derive_rule_charges)
  then show ?thesis by simp
qed

text \<open>What a run over the definitions of a rule has established: every definition was evaluated, and the keys are there.\<close>

definition covers :: "evaluator \<Rightarrow> ruleDef \<Rightarrow> string list \<Rightarrow> bool" where
  "covers e r seen \<longleftrightarrow>
    (\<exists>w w' bs. evalClauses e (rd_body r) [[]] w = Inr (bs, w') \<and> (\<forall>b \<in> set bs. \<exists>k \<in> set seen. derived_key (rd_args r) b k))"

lemma derive_rules_grow:
  assumes "res_fold (derive_rule e) rs ((rows, seen, changed), w) = Inr ((rows', seen', changed'), w')"
  shows "grows (rows, seen, changed) (rows', seen', changed') \<and> (\<forall>r \<in> set rs. covers e r seen')"
  using assms
proof (induction rs arbitrary: rows seen changed w)
  case (Cons r rs)
  then obtain rows1 seen1 changed1 w1 where 1: "derive_rule e r ((rows, seen, changed), w) = Inr ((rows1, seen1, changed1), w1)"
    "res_fold (derive_rule e) rs ((rows1, seen1, changed1), w1) = Inr ((rows', seen', changed'), w')"
    by (auto simp: res_bind_Inr_iff)
  note IH = Cons.IH [OF 1(2)]
  from 1(1) obtain bs where bs: "evalClauses e (rd_body r) [[]] w = Inr (bs, w1)"
    "res_fold (derive_binding (rd_args r)) bs (rows, seen, changed) = Inr (rows1, seen1, changed1)"
    unfolding derive_rule_Inr by blast
  note g = derive_bindings_grow [OF bs(2)]
  have "set seen1 \<subseteq> set seen'" using IH by (simp add: grows_def)
  with g bs(1) have "covers e r seen'" unfolding covers_def by blast
  with g IH show ?case by (auto intro: grows_trans)
qed simp

lemma derive_pass_grows:
  assumes "derive_pass e name rows seen w = Inr ((rows', seen', changed), w')"
  shows "grows (rows, seen, False) (rows', seen', changed)"
    "r \<in> set (rules_named (qe_rules e) name) \<Longrightarrow> covers (set_relation name rows e) r seen'"
    "charges (work_limit e) w w'"
proof -
  have run: "res_fold (derive_rule (set_relation name rows e)) (rules_named (qe_rules e) name) ((rows, seen, False), w)
      = Inr ((rows', seen', changed), w')" using assms by (simp add: derive_pass_def)
  from derive_rules_grow [OF run] show "grows (rows, seen, False) (rows', seen', changed)"
    "r \<in> set (rules_named (qe_rules e) name) \<Longrightarrow> covers (set_relation name rows e) r seen'" by simp_all
  from derive_rules_charge [OF run] show "charges (work_limit e) w w'" by simp
qed

subsection \<open>The loop stops\<close>

text \<open>
  The keys cover what the rules derive without looking at the relation: what evaluation finds, at any counter,
  when the relation is empty and nothing is charged.
\<close>

definition idle_covered :: "evaluator \<Rightarrow> string \<Rightarrow> string list \<Rightarrow> bool" where
  "idle_covered e name seen \<longleftrightarrow>
    (\<forall>r \<in> set (rules_named (qe_rules e) name). \<forall>bs.
      (\<forall>v. evalClauses (set_relation name [] e) (rd_body r) [[]] v = Inr (bs, v)) \<longrightarrow>
      (\<forall>b \<in> set bs. \<exists>k \<in> set seen. derived_key (rd_args r) b k))"

lemma idle_covered_mono: "idle_covered e name seen \<Longrightarrow> set seen \<subseteq> set seen' \<Longrightarrow> idle_covered e name seen'"
  unfolding idle_covered_def by blast

lemma first_pass_covers:
  assumes "derive_pass e name [] [] w = Inr ((rows, seen, changed), w')"
  shows "idle_covered e name seen"
  unfolding idle_covered_def
proof (intro ballI allI impI)
  fix r bs b
  assume r: "r \<in> set (rules_named (qe_rules e) name)" and b: "b \<in> set bs"
    and idle: "\<forall>v. evalClauses (set_relation name [] e) (rd_body r) [[]] v = Inr (bs, v)"
  from derive_pass_grows(2) [OF assms r] obtain u u' bs' where
    "evalClauses (set_relation name [] e) (rd_body r) [[]] u = Inr (bs', u')"
    "\<forall>b \<in> set bs'. \<exists>k \<in> set seen. derived_key (rd_args r) b k" unfolding covers_def by blast
  moreover from idle have "evalClauses (set_relation name [] e) (rd_body r) [[]] u = Inr (bs, u)" by blast
  ultimately show "\<exists>k \<in> set seen. derived_key (rd_args r) b k" using b by auto
qed

lemma derive_rules_idle:
  assumes "res_fold (derive_rule (set_relation name rows e)) rs ((rows, seen, changed), w) = Inr (st, w)"
    and "idle_covered e name seen" "rows \<noteq> []" "set rs \<subseteq> set (rules_named (qe_rules e) name)"
  shows "st = (rows, seen, changed)"
  using assms(1,4)
proof (induction rs)
  case (Cons r rs)
  then obtain st1 w1 where 1: "derive_rule (set_relation name rows e) r ((rows, seen, changed), w) = Inr (st1, w1)"
    "res_fold (derive_rule (set_relation name rows e)) rs (st1, w1) = Inr (st, w)"
    by (auto simp: res_bind_Inr_iff)
  have "charges (work_limit e) w w1" "charges (work_limit e) w1 w"
    using derive_rule_charges [OF 1(1)] derive_rules_charge [OF 1(2)] by simp_all
  then have w1: "w1 = w" by (simp add: charges_def)
  from 1(1) obtain bs where bs: "evalClauses (set_relation name rows e) (rd_body r) [[]] w = Inr (bs, w)"
    "res_fold (derive_binding (rd_args r)) bs (rows, seen, changed) = Inr st1"
    unfolding derive_rule_Inr w1 by blast
  have "\<forall>b \<in> set bs. \<exists>k \<in> set seen. derived_key (rd_args r) b k"
    using assms(2) evalClauses_idle [OF bs(1) assms(3)] Cons.prems(2) unfolding idle_covered_def by auto
  from derive_bindings_seen [OF bs(2) this] 1(2) w1 Cons show ?case by simp
qed simp

lemma later_pass:
  assumes "derive_pass e name rows seen w = Inr ((rows', seen', True), w')" "rows \<noteq> []" "idle_covered e name seen"
  shows "w < w'" "w' \<le> work_limit e" "rows' \<noteq> []" "idle_covered e name seen'"
proof -
  note g = derive_pass_grows [OF assms(1)]
  have "w \<noteq> w'"
    using derive_rules_idle [of name rows e _ seen False w "(rows', seen', True)"] assms by (auto simp: derive_pass_def)
  with g(3) show "w < w'" "w' \<le> work_limit e" by (auto simp: charges_def)
  from g(1) assms(2) show "rows' \<noteq> []" by (simp add: grows_def)
  from g(1) show "idle_covered e name seen'" by (auto simp: grows_def intro: idle_covered_mono [OF assms(3)])
qed

text \<open>The loop of \<open>deriveRelation\<close> as it runs, without fuel: it ends after a pass that fails or adds nothing.\<close>

inductive derive_runs ::
    "evaluator \<Rightarrow> string \<Rightarrow> cell list list \<Rightarrow> string list \<Rightarrow> int \<Rightarrow> (cell list list \<times> int) res \<Rightarrow> bool"
  for e name where
  fails: "derive_pass e name rows seen w = Inl er \<Longrightarrow> derive_runs e name rows seen w (Inl er)"
| stops: "derive_pass e name rows seen w = Inr ((rows', seen', False), w') \<Longrightarrow> derive_runs e name rows seen w (Inr (rows', w'))"
| goes_on: "derive_pass e name rows seen w = Inr ((rows', seen', True), w') \<Longrightarrow> derive_runs e name rows' seen' w' res
    \<Longrightarrow> derive_runs e name rows seen w res"

inductive_cases derive_runs_elim: "derive_runs e name rows seen w res"

text \<open>Where the rest of the loop ends for every result of the pass, the loop ends.\<close>

lemma derive_runs_pass:
  assumes "\<And>rows' seen' w'. derive_pass e name rows seen w = Inr ((rows', seen', True), w')
      \<Longrightarrow> derive_runs e name rows' seen' w' (derive_loop n e name rows' seen' w')"
  shows "derive_runs e name rows seen w (derive_loop (Suc n) e name rows seen w)"
proof (cases "derive_pass e name rows seen w")
  case (Inl er)
  then show ?thesis by (simp add: fails)
next
  case (Inr p)
  obtain rows' seen' changed w' where p: "p = ((rows', seen', changed), w')" by (cases p) auto
  show ?thesis
  proof (cases changed)
    case True
    with Inr p have pass: "derive_pass e name rows seen w = Inr ((rows', seen', True), w')" by simp
    from goes_on [OF pass assms [OF pass]] pass show ?thesis by simp
  qed (use Inr p in \<open>simp add: stops\<close>)
qed

lemma later_runs:
  assumes "rows \<noteq> []" "idle_covered e name seen" "nat (work_limit e - w) < n"
  shows "derive_runs e name rows seen w (derive_loop n e name rows seen w)"
  using assms
proof (induction n arbitrary: rows seen w)
  case (Suc n)
  show ?case
  proof (rule derive_runs_pass)
    fix rows' seen' w'
    assume "derive_pass e name rows seen w = Inr ((rows', seen', True), w')"
    note l = later_pass [OF this Suc.prems(1,2)]
    show "derive_runs e name rows' seen' w' (derive_loop n e name rows' seen' w')"
      by (rule Suc.IH [OF l(3,4)]) (use l(1,2) Suc.prems(3) in linarith)
  qed
qed simp

lemma derive_loop_runs:
  assumes "derive_fuel e w \<le> n"
  shows "derive_runs e name [] [] w (derive_loop n e name [] [] w)"
proof -
  obtain k where n: "n = Suc k" and k: "nat (work_limit e - w) < k"
    using assms by (cases n) (auto simp: derive_fuel_def)
  show ?thesis unfolding n
  proof (rule derive_runs_pass)
    fix rows seen w'
    assume pass: "derive_pass e name [] [] w = Inr ((rows, seen, True), w')"
    have "rows \<noteq> []" using derive_pass_grows(1) [OF pass] by (simp add: grows_def)
    moreover have "w \<le> w'" using derive_pass_grows(3) [OF pass] by (simp add: charges_def)
    ultimately show "derive_runs e name rows seen w' (derive_loop k e name rows seen w')"
      using later_runs [OF _ first_pass_covers [OF pass]] k by simp
  qed
qed

lemma derive_runs_unique: "derive_runs e name rows seen w res \<Longrightarrow> derive_runs e name rows seen w res' \<Longrightarrow> res' = res"
  by (induction rule: derive_runs.induct) (erule derive_runs_elim; simp)+

subsection \<open>The relation is closed\<close>

lemma derive_runs_last:
  assumes "derive_runs e name rows seen w res" "keyed_rows rows seen" "res = Inr (rows', w')"
  shows "\<exists>seen' u. keyed_rows rows' seen' \<and> derive_pass e name rows' seen' u = Inr ((rows', seen', False), w')"
  using assms
proof (induction rule: derive_runs.induct)
  case (stops rows seen w rows1 seen1 w1)
  with derive_pass_grows(1) [OF stops(1)] show ?case by (auto simp: grows_def)
next
  case (goes_on rows seen w rows1 seen1 w1 res)
  with derive_pass_grows(1) [OF goes_on(1)] show ?case by (simp add: grows_def)
qed simp

text \<open>A definition of the rule, evaluated with \<open>base\<close> as the relation, has \<open>t\<close> as the head of one of its bindings.\<close>

definition yields :: "evaluator \<Rightarrow> string \<Rightarrow> cell list list \<Rightarrow> cell list \<Rightarrow> bool" where
  "yields e name base t \<longleftrightarrow>
    (\<exists>r \<in> set (rules_named (qe_rules e) name). \<exists>w bs w'. \<exists>b \<in> set bs.
      evalClauses (set_relation name base e) (rd_body r) [[]] w = Inr (bs, w') \<and> head_cells (rd_args r) b = Inr t)"

text \<open>A row is supported by rows in front of it alone, so that its derivation goes back to nothing.\<close>

definition supported :: "evaluator \<Rightarrow> string \<Rightarrow> cell list list \<Rightarrow> nat \<Rightarrow> bool" where
  "supported e name rows i \<longleftrightarrow> (\<exists>k \<le> i. yields e name (take k rows) (rows ! i))"

definition extends :: "evaluator \<Rightarrow> string \<Rightarrow> cell list list \<Rightarrow> cell list list \<Rightarrow> cell list list \<Rightarrow> bool" where
  "extends e name base rows rows' \<longleftrightarrow> (\<exists>more. rows' = rows @ more \<and> (\<forall>t \<in> set more. yields e name base t))"

lemma extends_refl: "extends e name base rows rows"
  by (simp add: extends_def)

lemma extends_trans: "extends e name base r1 r2 \<Longrightarrow> extends e name base r2 r3 \<Longrightarrow> extends e name base r1 r3"
  by (auto simp: extends_def)

lemma derive_bindings_extend:
  assumes "res_fold (derive_binding (rd_args r)) bs (rows, seen, changed) = Inr (rows', seen', changed')"
    and "set bs \<subseteq> set all" "evalClauses (set_relation name base e) (rd_body r) [[]] w = Inr (all, w')"
    and "r \<in> set (rules_named (qe_rules e) name)"
  shows "extends e name base rows rows'"
  using assms(1,2)
proof (induction bs arbitrary: rows seen changed)
  case (Cons b bs)
  then obtain st where st: "derive_binding (rd_args r) b (rows, seen, changed) = Inr st"
    "res_fold (derive_binding (rd_args r)) bs st = Inr (rows', seen', changed')"
    by (auto simp: res_bind_Inr_iff)
  then obtain t k where t: "head_cells (rd_args r) b = Inr t"
    "st = (if k \<in> set seen then (rows, seen, changed) else (rows @ [t], k # seen, True))"
    by (auto simp: derive_binding_def res_bind_Inr_iff)
  have "yields e name base t" using t(1) Cons.prems(2) assms(3,4) unfolding yields_def by fastforce
  then have "extends e name base rows (rows @ [t])" by (simp add: extends_def)
  with st(2) t(2) Cons.prems(2) Cons.IH [of rows seen changed] Cons.IH [of "rows @ [t]" "k # seen" True] show ?case
    by (auto split: if_split_asm intro: extends_trans)
qed (simp add: extends_refl)

lemma derive_rules_extend:
  assumes "res_fold (derive_rule (set_relation name base e)) rs ((rows, seen, changed), w) = Inr ((rows', seen', changed'), w')"
    and "set rs \<subseteq> set (rules_named (qe_rules e) name)"
  shows "extends e name base rows rows'"
  using assms
proof (induction rs arbitrary: rows seen changed w)
  case (Cons r rs)
  then obtain rows1 seen1 changed1 w1 where 1: "derive_rule (set_relation name base e) r ((rows, seen, changed), w) = Inr ((rows1, seen1, changed1), w1)"
    "res_fold (derive_rule (set_relation name base e)) rs ((rows1, seen1, changed1), w1) = Inr ((rows', seen', changed'), w')"
    by (auto simp: res_bind_Inr_iff)
  from 1(1) obtain bs where "evalClauses (set_relation name base e) (rd_body r) [[]] w = Inr (bs, w1)"
    "res_fold (derive_binding (rd_args r)) bs (rows, seen, changed) = Inr (rows1, seen1, changed1)"
    unfolding derive_rule_Inr by blast
  with Cons.prems(2) have "extends e name base rows rows1" by (intro derive_bindings_extend [where bs = bs and all = bs]) auto
  moreover have "extends e name base rows1 rows'" by (rule Cons.IH [OF 1(2)]) (use Cons.prems(2) in simp)
  ultimately show ?case by (rule extends_trans)
qed (simp add: extends_refl)

lemma extends_supported:
  assumes "extends e name rows rows rows'" "\<forall>i < length rows. supported e name rows i"
  shows "\<forall>i < length rows'. supported e name rows' i"
proof (intro allI impI)
  fix i
  assume i: "i < length rows'"
  from assms(1) obtain more where more: "rows' = rows @ more" "\<forall>t \<in> set more. yields e name rows t"
    unfolding extends_def by blast
  show "supported e name rows' i"
  proof (cases "i < length rows")
    case True
    then obtain k where "k \<le> i" "yields e name (take k rows) (rows ! i)" using assms(2) unfolding supported_def by blast
    moreover from this True have "take k rows' = take k rows" "rows' ! i = rows ! i" by (simp_all add: more(1) nth_append)
    ultimately show ?thesis unfolding supported_def by metis
  next
    case False
    then have "yields e name (take (length rows) rows') (rows' ! i)" using i more by (simp add: nth_append)
    with False show ?thesis unfolding supported_def by (meson not_less)
  qed
qed

lemma derive_pass_supported:
  assumes "derive_pass e name rows seen w = Inr ((rows', seen', changed), w')" "\<forall>i < length rows. supported e name rows i"
  shows "\<forall>i < length rows'. supported e name rows' i"
proof -
  from assms(1) have "extends e name rows rows rows'" unfolding derive_pass_def by (rule derive_rules_extend) simp
  then show ?thesis by (rule extends_supported [OF _ assms(2)])
qed

lemma derive_runs_supported:
  assumes "derive_runs e name rows seen w res" "\<forall>i < length rows. supported e name rows i" "res = Inr (rows', w')"
  shows "\<forall>i < length rows'. supported e name rows' i"
  using assms
proof (induction rule: derive_runs.induct)
  case (stops rows seen w rows1 seen1 w1)
  with derive_pass_supported [OF stops(1,2)] show ?case by simp
next
  case (goes_on rows seen w rows1 seen1 w1 res)
  show ?case by (rule goes_on.IH [OF derive_pass_supported [OF goes_on(1) goes_on.prems(1)] goes_on.prems(2)])
qed simp

end
