(* ===== verification/QueryResultFacts.thy ===== *)
theory QueryResultFacts
  imports QueryFacts
begin

text \<open>
  Facts about the planner and about results: reordering stays inside runs of patterns, the stable sort sorts,
  slicing, and what aggregates compute.
\<close>

subsection \<open>The planner\<close>

text \<open>
  In an order of clauses the ordinals name each clause once, and a barrier is at its own place with exactly
  the clauses before it in front.
\<close>

definition keeps_barriers :: "any list \<Rightarrow> nat \<Rightarrow> orderedQueryClause list \<Rightarrow> bool" where
  "keeps_barriers cs n ordered \<longleftrightarrow>
    mset (map oq_ordinal ordered) = mset [n..<n + length cs]
    \<and> (\<forall>c \<in> set ordered. cs ! (oq_ordinal c - n) = oq_value c)
    \<and> (\<forall>i < length cs. clause_pattern (cs ! i) = None \<longrightarrow>
         oq_ordinal (ordered ! i) = n + i \<and> oq_ordinal ` set (take i ordered) = {n..<n + i})"

lemma number_block_ordinals: "map oq_ordinal (number_block n cs) = [n..<n + length cs]"
  by (simp add: number_block_def case_prod_unfold comp_def flip: map_fst_enumerate)

lemma number_block_value:
  assumes "c \<in> set (number_block n cs)"
  shows "n \<le> oq_ordinal c" "oq_ordinal c < n + length cs" "cs ! (oq_ordinal c - n) = oq_value c"
  using assms by (auto simp: number_block_def in_set_enumerate_eq)

lemma keeps_barriers_length: "keeps_barriers cs n ordered \<Longrightarrow> length ordered = length cs"
  unfolding keeps_barriers_def by (metis (no_types, lifting) add_diff_cancel_left' length_map length_upt size_mset)

lemma keeps_barriers_range:
  "keeps_barriers cs n ordered \<Longrightarrow> c \<in> set ordered \<Longrightarrow> n \<le> oq_ordinal c \<and> oq_ordinal c < n + length cs"
proof -
  assume "keeps_barriers cs n ordered" "c \<in> set ordered"
  then have "oq_ordinal c \<in> set [n..<n + length cs]"
    unfolding keeps_barriers_def by (metis image_eqI set_map set_mset_mset)
  then show ?thesis by simp
qed

text \<open>A run of clauses without barriers in front of an order.\<close>

lemma keeps_barriers_append:
  assumes run: "\<forall>c \<in> set run. clause_pattern c \<noteq> None" "mset block = mset (number_block n run)"
    and rest: "keeps_barriers cs (n + length run) ordered"
  shows "keeps_barriers (run @ cs) n (block @ ordered)"
proof -
  have len: "length block = length run"
    using arg_cong [OF run(2), of size] number_block_ordinals [of n run] by (metis length_map size_mset diff_add_inverse length_upt)
  have ords: "mset (map oq_ordinal block) = mset [n..<n + length run]"
    using arg_cong [OF run(2), of "image_mset oq_ordinal"] number_block_ordinals [of n run] by (metis mset_map)
  then have set: "oq_ordinal ` set block = {n..<n + length run}"
    by (metis atLeastLessThan_upt set_map set_mset_mset)
  have vals: "run ! (oq_ordinal c - n) = oq_value c \<and> n \<le> oq_ordinal c \<and> oq_ordinal c < n + length run" if "c \<in> set block" for c
    using that number_block_value [of c n run] mset_eq_setD [OF run(2)] by auto
  show ?thesis
    unfolding keeps_barriers_def
  proof (intro conjI ballI allI impI)
    show "mset (map oq_ordinal (block @ ordered)) = mset [n..<n + length (run @ cs)]"
    proof -
      have "mset (map oq_ordinal ordered) = mset [n + length run..<n + length run + length cs]"
        using rest by (simp only: keeps_barriers_def)
      with ords have "mset (map oq_ordinal (block @ ordered)) = mset ([n..<n + length run] @ [n + length run..<n + length run + length cs])"
        by (simp only: map_append mset_append)
      then show ?thesis
        using upt_add_eq_append [of n "n + length run" "length cs"] by (simp only: length_append add.assoc le_add1)
    qed
    show "(run @ cs) ! (oq_ordinal c - n) = oq_value c" if "c \<in> set (block @ ordered)" for c
    proof (cases "c \<in> set block")
      case True
      then show ?thesis using vals [of c] by (auto simp: nth_append less_diff_conv2 add.commute)
    next
      case False
      with that have "c \<in> set ordered" by simp
      then have "n + length run \<le> oq_ordinal c" using keeps_barriers_range [OF rest] by blast
      then have "\<not> oq_ordinal c - n < length run" "oq_ordinal c - n - length run = oq_ordinal c - (n + length run)" by auto
      with rest \<open>c \<in> set ordered\<close> show ?thesis by (simp add: keeps_barriers_def nth_append)
    qed
    fix i assume i: "i < length (run @ cs)" "clause_pattern ((run @ cs) ! i) = None"
    then have ge: "length run \<le> i" using run(1) by (metis linorder_not_less nth_append nth_mem)
    define j where "j = i - length run"
    have j: "i = length run + j" "j < length cs" using ge i(1) by (auto simp: j_def)
    have bar: "oq_ordinal (ordered ! j) = n + length run + j" "oq_ordinal ` set (take j ordered) = {n + length run..<n + length run + j}"
      using rest i(2) j by (auto simp: keeps_barriers_def nth_append)
    show "oq_ordinal ((block @ ordered) ! i) = n + i" using bar(1) j len by (simp add: nth_append)
    show "oq_ordinal ` set (take i (block @ ordered)) = {n..<n + i}"
      using bar(2) j(1) len set by (auto simp: image_Un)
  qed
qed

lemma keeps_barriers_barrier:
  assumes "keeps_barriers cs (n + 1) ordered" "oq_ordinal c = n" "oq_value c = x"
  shows "keeps_barriers (x # cs) n (c # ordered)"
  unfolding keeps_barriers_def
proof (intro conjI ballI allI impI)
  show "mset (map oq_ordinal (c # ordered)) = mset [n..<n + length (x # cs)]"
    using assms by (simp add: keeps_barriers_def upt_conv_Cons del: upt_Suc)
  show "(x # cs) ! (oq_ordinal d - n) = oq_value d" if "d \<in> set (c # ordered)" for d
  proof (cases "d = c")
    case False
    with that have d: "d \<in> set ordered" by simp
    with keeps_barriers_range [OF assms(1) d] assms(1) show ?thesis
      by (auto simp: keeps_barriers_def nth_Cons' Suc_diff_le)
  qed (use assms in simp)
  fix i assume i: "i < length (x # cs)" "clause_pattern ((x # cs) ! i) = None"
  show "oq_ordinal ((c # ordered) ! i) = n + i"
    using i assms by (cases i) (auto simp: keeps_barriers_def)
  show "oq_ordinal ` set (take i (c # ordered)) = {n..<n + i}"
  proof (cases i)
    case (Suc j)
    with i assms(1) have "oq_ordinal ` set (take j ordered) = {n + 1..<n + 1 + j}" by (simp add: keeps_barriers_def)
    with Suc assms(2) show ?thesis by auto
  qed simp
qed

lemma order_from_keeps: "keeps_barriers cs n (order_from cs n bound)"
proof (induction cs n bound rule: order_from.induct)
  case (1 n bound)
  then show ?case by (simp add: keeps_barriers_def)
next
  case (2 c cs n bound)
  let ?P = "\<lambda>x. clause_pattern x \<noteq> None"
  show ?case
  proof (cases "clause_pattern c")
    case None
    then show ?thesis using 2(1) [OF None] by (auto intro: keeps_barriers_barrier)
  next
    case (Some p)
    let ?run = "takeWhile ?P (c # cs)"
    let ?d = "drain (number_block n ?run) bound"
    have "keeps_barriers (dropWhile ?P (c # cs)) (n + length ?run)
        (order_from (dropWhile ?P (c # cs)) (n + length ?run) (snd ?d))"
      by (rule 2(2) [OF Some refl refl prod.collapse])
    then have "keeps_barriers (?run @ dropWhile ?P (c # cs)) n
        (fst ?d @ order_from (dropWhile ?P (c # cs)) (n + length ?run) (snd ?d))"
      by (rule keeps_barriers_append [rotated 2]) (auto dest: set_takeWhileD simp: drain_mset simp del: takeWhile.simps)
    then show ?thesis
      by (simp add: Some Let_def case_prod_unfold del: takeWhile.simps dropWhile.simps)
  qed
qed

subsection \<open>The stable sort\<close>

text \<open>A comparison that never fails on \<open>good\<close> elements and is the strict part of a total preorder.\<close>

locale slice_order =
  fixes lt :: "'a \<Rightarrow> 'a \<Rightarrow> bool res"
    and le :: "'a \<Rightarrow> 'a \<Rightarrow> bool"
    and good :: "'a \<Rightarrow> bool"
  assumes lt_le: "good x \<Longrightarrow> good y \<Longrightarrow> lt x y = Inr (\<not> le y x)"
    and le_total: "good x \<Longrightarrow> good y \<Longrightarrow> le x y \<or> le y x"
    and le_trans: "good x \<Longrightarrow> good y \<Longrightarrow> good z \<Longrightarrow> le x y \<Longrightarrow> le y z \<Longrightarrow> le x z"
begin

lemma insert_back_sorts:
  assumes "good x" "list_all good ys" "sorted_wrt (\<lambda>a b. le b a) ys"
  shows "\<exists>zs. insert_back lt x ys = Inr zs \<and> mset zs = add_mset x (mset ys) \<and> sorted_wrt (\<lambda>a b. le b a) zs"
  using assms
proof (induction ys)
  case (Cons y ys)
  then have good: "good x" "good y" by simp_all
  show ?case
  proof (cases "le y x")
    case True
    then have "insert_back lt x (y # ys) = Inr (x # y # ys)" using lt_le [OF good] by simp
    moreover have "sorted_wrt (\<lambda>a b. le b a) (x # y # ys)"
      using True Cons.prems good by (auto simp: list_all_iff intro: le_trans)
    ultimately show ?thesis by simp
  next
    case False
    then have "le x y" using le_total [OF good] by blast
    from Cons obtain zs where zs: "insert_back lt x ys = Inr zs" "mset zs = add_mset x (mset ys)" "sorted_wrt (\<lambda>a b. le b a) zs"
      by auto
    have "set zs = insert x (set ys)" using zs(2) by (metis set_mset_add_mset_insert set_mset_mset)
    with zs(3) Cons.prems(3) \<open>le x y\<close> have "sorted_wrt (\<lambda>a b. le b a) (y # zs)" by auto
    with zs(1,2) False lt_le [OF good] show ?thesis by (simp add: add_mset_commute)
  qed
qed simp

lemma fold_sorts:
  assumes "list_all good xs" "list_all good ys" "sorted_wrt (\<lambda>a b. le b a) ys"
  shows "\<exists>zs. res_fold (insert_back lt) xs ys = Inr zs \<and> mset zs = mset xs + mset ys \<and> sorted_wrt (\<lambda>a b. le b a) zs"
  using assms
proof (induction xs arbitrary: ys)
  case (Cons x xs)
  then obtain zs where zs: "insert_back lt x ys = Inr zs" "mset zs = add_mset x (mset ys)" "sorted_wrt (\<lambda>a b. le b a) zs"
    using insert_back_sorts [of x ys] by auto
  have "list_all good zs"
    using Cons.prems mset_eq_setD [of zs "x # ys"] zs(2) by (simp add: list_all_iff)
  with Cons.IH [of zs] Cons.prems(1) zs show ?case by auto
qed simp

lemma SliceStable_sorts:
  assumes "list_all good xs"
  shows "\<exists>ys. SliceStable lt xs = Inr ys \<and> mset ys = mset xs \<and> sorted_wrt le ys"
  using fold_sorts [of xs "[]"] assms by (auto simp: SliceStable_def sorted_wrt_rev)

lemma insert_back_stable:
  assumes "good a" "good x" "list_all good ys" "insert_back lt x ys = Inr zs"
  shows "filter (\<lambda>z. le a z \<and> le z a) zs = filter (\<lambda>z. le a z \<and> le z a) (x # ys) \<and> list_all good zs"
  using assms
proof (induction ys arbitrary: zs)
  case (Cons y ys)
  have good: "good x" "good y" using Cons.prems by simp_all
  have "\<not> (le a x \<and> le y a)" if "\<not> le y x" using that le_trans [OF good(2) \<open>good a\<close> good(1)] by blast
  with Cons lt_le [OF good] show ?case by (cases "le y x") (auto simp: res_bind_Inr_iff)
qed auto

lemma fold_stable:
  assumes "good a" "list_all good xs" "list_all good ys" "res_fold (insert_back lt) xs ys = Inr zs"
  shows "filter (\<lambda>z. le a z \<and> le z a) zs = filter (\<lambda>z. le a z \<and> le z a) (rev xs @ ys)"
  using assms
proof (induction xs arbitrary: ys)
  case (Cons x xs)
  then obtain ws where "insert_back lt x ys = Inr ws" "res_fold (insert_back lt) xs ws = Inr zs" by (auto simp: res_bind_Inr_iff)
  with Cons insert_back_stable [of a x ys ws] show ?case by (auto simp: Cons.IH [of ws])
qed simp

lemma SliceStable_stable:
  assumes "good a" "list_all good xs" "SliceStable lt xs = Inr ys"
  shows "filter (\<lambda>z. le a z \<and> le z a) ys = filter (\<lambda>z. le a z \<and> le z a) xs"
  using fold_stable [of a xs "[]"] assms
  by (auto simp: SliceStable_def res_bind_Inr_iff rev_filter [symmetric])

end

text \<open>The order of rendered values as the order of keys: the category first, then the value inside it.\<close>

definition orderable :: "evaluator \<Rightarrow> cell \<Rightarrow> bool" where
  "orderable e c \<longleftrightarrow>
    (let x = render_cell e c in
     (renderedOrderCategory x = 1 \<longrightarrow> numericRat x \<noteq> None)
     \<and> (renderedOrderCategory x = 3 \<longrightarrow> (\<exists>s. canonicalJSON x = Inr s)))"

definition order_key :: "evaluator \<Rightarrow> cell \<Rightarrow> int \<times> rat \<times> bool \<times> string" where
  "order_key e c =
    (let x = render_cell e c in
     (renderedOrderCategory x,
      if renderedOrderCategory x = 1 then the (numericRat x) else 0,
      x = ABool True,
      case x of AStr s \<Rightarrow> s | _ \<Rightarrow> if renderedOrderCategory x = 3 then projr (canonicalJSON x) else []))"

lemma three_way_sign: "three_way x y < 0 \<longleftrightarrow> x < y" "three_way x y = 0 \<longleftrightarrow> x = y"
  by (auto simp: three_way_def)

lemma category_cases:
  obtains (bool) b where "x = ABool b" "renderedOrderCategory x = 0"
    | (number) "renderedOrderCategory x = 1" "\<forall>s. x \<noteq> AStr s" "\<forall>b. x \<noteq> ABool b"
    | (string) s where "x = AStr s" "renderedOrderCategory x = 2"
    | (other) "renderedOrderCategory x = 3" "\<forall>s. x \<noteq> AStr s" "\<forall>b. x \<noteq> ABool b"
proof -
  have "(\<exists>b. x = ABool b \<and> renderedOrderCategory x = 0) \<or> (\<exists>s. x = AStr s \<and> renderedOrderCategory x = 2)
      \<or> renderedOrderCategory x \<in> {1, 3} \<and> (\<forall>s. x \<noteq> AStr s) \<and> (\<forall>b. x \<noteq> ABool b)"
    by (cases x) (simp_all add: renderedOrderCategory_def)
  with that show thesis by blast
qed

lemma compareOrderCells_key:
  assumes "orderable e l" "orderable e r"
  obtains c where "compareOrderCells e l r = Inr c" "c < 0 \<longleftrightarrow> order_key e l < order_key e r" "c = 0 \<longleftrightarrow> order_key e l = order_key e r"
proof -
  define x y where "x = render_cell e l" and "y = render_cell e r"
  have ord: "renderedOrderCategory x = 1 \<Longrightarrow> numericRat x \<noteq> None" "renderedOrderCategory y = 1 \<Longrightarrow> numericRat y \<noteq> None"
    "renderedOrderCategory x = 3 \<Longrightarrow> \<exists>s. canonicalJSON x = Inr s" "renderedOrderCategory y = 3 \<Longrightarrow> \<exists>s. canonicalJSON y = Inr s"
    using assms by (simp_all add: orderable_def Let_def x_def y_def)
  have "\<exists>c. compareOrderCells e l r = Inr c \<and> (c < 0 \<longleftrightarrow> order_key e l < order_key e r) \<and> (c = 0 \<longleftrightarrow> order_key e l = order_key e r)"
    unfolding compareOrderCells_def order_key_def x_def [symmetric] y_def [symmetric] Let_def
    by (cases x rule: category_cases; cases y rule: category_cases)
      (use ord in \<open>auto simp: less_prod_def three_way_sign orderedNumericCompare_def res_wrap_def split: any.splits\<close>)
  with that show ?thesis by blast
qed

text \<open>The reference order of rows: the keys of the order items one after the other, each in its direction.\<close>

fun row_le :: "evaluator \<Rightarrow> orderItem list \<Rightarrow> result_row \<Rightarrow> result_row \<Rightarrow> bool" where
  "row_le e [] l r \<longleftrightarrow> True"
| "row_le e (item # items) l r \<longleftrightarrow>
    (let x = order_key e (order_cell item l); y = order_key e (order_cell item r) in
     (if oi_desc item then y < x else x < y) \<or> x = y \<and> row_le e items l r)"

definition row_orderable :: "evaluator \<Rightarrow> orderItem list \<Rightarrow> result_row \<Rightarrow> bool" where
  "row_orderable e items r \<longleftrightarrow> list_all (\<lambda>item. orderable e (order_cell item r)) items"

lemma row_le_total: "row_le e items l r \<or> row_le e items r l"
  by (induction items) (auto simp: Let_def)

lemma row_le_trans: "row_le e items l r \<Longrightarrow> row_le e items r t \<Longrightarrow> row_le e items l t"
  by (induction items) (auto simp: Let_def split: if_split_asm)

lemma compare_rows_le:
  assumes "row_orderable e items l" "row_orderable e items r"
  shows "\<exists>c. compare_rows e items l r = Inr c \<and> (c < 0 \<longleftrightarrow> \<not> row_le e items r l)"
  using assms
proof (induction items)
  case (Cons item items)
  then have ok: "orderable e (order_cell item l)" "orderable e (order_cell item r)"
    and rest: "row_orderable e items l" "row_orderable e items r"
    by (simp_all add: row_orderable_def)
  obtain c where c: "compareOrderCells e (order_cell item l) (order_cell item r) = Inr c"
    "c < 0 \<longleftrightarrow> order_key e (order_cell item l) < order_key e (order_cell item r)"
    "c = 0 \<longleftrightarrow> order_key e (order_cell item l) = order_key e (order_cell item r)"
    by (rule compareOrderCells_key [OF ok])
  from Cons.IH [OF rest] obtain c' where "compare_rows e items l r = Inr c'" "c' < 0 \<longleftrightarrow> \<not> row_le e items r l" by blast
  with c show ?case by (auto simp: Let_def)
qed simp

interpretation rows: slice_order "row_less e items" "row_le e items" "row_orderable e items"
  for e items
proof unfold_locales
  fix x y
  assume "row_orderable e items x" "row_orderable e items y"
  from compare_rows_le [OF this] show "row_less e items x y = Inr (\<not> row_le e items y x)"
    by (auto simp: row_less_def)
qed (use row_le_total row_le_trans in blast)+

subsection \<open>Extremes\<close>

definition exact_value :: "cell \<Rightarrow> rat" where
  "exact_value c = the (numericRat (cl_value c))"

lemma finite_exact: "isFiniteNumericCell c \<Longrightarrow> numericRat (cl_value c) = Some (exact_value c)"
  by (auto simp: isFiniteNumericCell_def numeric_def numericRat_def rat_of_float_def exact_value_def
      split: option.splits any.splits if_splits)

lemma extreme_step_Inr:
  assumes "extreme_step beats c best = Inr best'" "isFiniteNumericCell best"
  shows "isFiniteNumericCell c \<and> best' = (if beats (three_way (exact_value c) (exact_value best)) then c else best)"
proof -
  have fin: "isFiniteNumericCell c" using assms(1) by (auto simp: extreme_step_def split: if_splits)
  have "orderedCompare (cl_value c) (cl_value best) = Some (three_way (exact_value c) (exact_value best))"
    using finite_exact [OF fin] finite_exact [OF assms(2)] by (simp add: orderedCompare_def orderedNumericCompare_def)
  with assms(1) fin show ?thesis by (auto simp: extreme_step_def split: if_splits)
qed

text \<open>A relation on values that \<open>beats\<close> decides: the extreme is related to every value.\<close>

lemma extreme_fold:
  assumes "res_fold (extreme_step beats) cs best = Inr c" "isFiniteNumericCell best" "reflp R" "transp R"
    and "\<And>x y :: rat. beats (three_way x y) \<Longrightarrow> R x y" "\<And>x y :: rat. \<not> beats (three_way x y) \<Longrightarrow> R y x"
  shows "c \<in> set (best # cs) \<and> (\<forall>v \<in> set (best # cs). isFiniteNumericCell v \<and> R (exact_value c) (exact_value v))"
  using assms(1,2)
proof (induction cs arbitrary: best)
  case Nil
  then show ?case using assms(3) by (auto dest: reflpD)
next
  case (Cons c1 cs)
  then obtain best' where step: "extreme_step beats c1 best = Inr best'" "res_fold (extreme_step beats) cs best' = Inr c"
    by (auto simp: res_bind_Inr_iff)
  note e = extreme_step_Inr [OF step(1) Cons.prems(2)]
  with Cons.prems(2) have "isFiniteNumericCell best'" by auto
  note IH = Cons.IH [OF step(2) this]
  have "R (exact_value best') (exact_value c1)" "R (exact_value best') (exact_value best)"
    using e assms(3,5,6) by (auto dest: reflpD)
  with IH e Cons.prems(2) show ?case by (auto intro: transpD [OF assms(4)])
qed

lemma extreme_Inr:
  assumes "extreme beats values = Inr c" "values \<noteq> []" "reflp R" "transp R"
    and "\<And>x y :: rat. beats (three_way x y) \<Longrightarrow> R x y" "\<And>x y :: rat. \<not> beats (three_way x y) \<Longrightarrow> R y x"
  shows "c \<in> set values \<and> (\<forall>v \<in> set values. isFiniteNumericCell v \<and> R (exact_value c) (exact_value v))"
proof -
  obtain best cs where v: "values = best # cs" using assms(2) by (auto simp: neq_Nil_conv)
  have "res_fold (extreme_step beats) cs best = Inr c" "isFiniteNumericCell best"
    using assms(1) by (auto simp: extreme_def v split: if_splits)
  from extreme_fold [OF this assms(3-6)] show ?thesis by (simp add: v)
qed

subsection \<open>Windows\<close>

lemma i64_add_wraps: "MaxInt64 < a + b \<Longrightarrow> a + b \<le> 2 * MaxInt64 \<Longrightarrow> i64_add a b = a + b - 18446744073709551616"
  using minus_mod_self2 [of "a + b + 9223372036854775808" "18446744073709551616 :: int"]
  by (simp add: i64_add_def i64_wrap_def MaxInt64_def mod_pos_pos_trivial)

lemma slice_rows_window:
  assumes "0 \<le> q_offset query" "q_limit query = Some l" "0 \<le> l" "q_offset query + l \<le> MaxInt64"
  shows "slice_rows query rows = Inr (take (nat l) (drop (nat (q_offset query)) rows))"
proof -
  define start where "start = min (q_offset query) (int (length rows))"
  have b: "0 \<le> start" "start \<le> int (length rows)" "start + l \<le> MaxInt64" using assms by (auto simp: start_def)
  then have add: "i64_add start l = start + l" using assms(3) by (intro i64_add_exact) (simp add: in_int64_def MinInt64_def)
  have drop: "drop (nat start) rows = drop (nat (q_offset query)) rows" using assms(1) by (auto simp: start_def min_def)
  have "slice_rows query rows =
      Inr (take (nat ((if l = 0 then start else if start + l < int (length rows) then start + l else int (length rows)) - start))
        (drop (nat start) rows))"
    unfolding slice_rows_def Let_def start_def [symmetric] slice_end_def
    using assms b(1,2) by (simp add: add)
  moreover have "take (nat (int (length rows) - start)) (drop (nat start) rows) = take (nat l) (drop (nat start) rows)"
    if "int (length rows) \<le> start + l"
    using that b by (simp add: nat_diff_distrib)
  ultimately show ?thesis using drop by (simp split: if_split_asm)
qed

subsection \<open>The work of projection\<close>

lemma res_maps_charges:
  assumes "res_maps f xs w = Inr (ys, w')" "\<And>x w y w'. x \<in> set xs \<Longrightarrow> f x w = Inr (y, w') \<Longrightarrow> charges limit w w'"
  shows "charges limit w w'"
  using assms
proof (induction xs arbitrary: w ys)
  case (Cons x xs)
  then obtain y w1 ys1 where 1: "f x w = Inr (y, w1)" "res_maps f xs w1 = Inr (ys1, w')" by (auto simp: res_bind_Inr_iff)
  have "charges limit w w1" by (rule Cons.prems(2) [OF _ 1(1)]) simp
  moreover have "charges limit w1 w'" by (rule Cons.IH [OF 1(2)]) (auto intro: Cons.prems(2))
  ultimately show ?case by (rule charges_trans)
qed simp

lemma fold_pair_charges:
  assumes "res_fold f xs (a, w) = Inr (b, w')" "\<And>x st st'. f x st = Inr st' \<Longrightarrow> charges limit (snd st) (snd st')"
  shows "charges limit w w'"
  using res_fold_charges [OF assms(1), of limit] assms(2) by simp

lemma scanPullFacts_charges:
  assumes "scanPullFacts e entity attribute reference w = Inr (facts, w')"
  shows "charges (work_limit e) w w'"
proof (cases "name_id e attribute")
  case (Some a)
  show ?thesis
    by (rule fold_pair_charges [OF assms [unfolded scanPullFacts_def Some option.case]])
      (auto simp: res_bind_Inr_iff intro: spend_charges)
qed (use assms in \<open>simp add: scanPullFacts_def\<close>)

lemma pull_item_charges:
  "pull_item e item st = Inr st' \<Longrightarrow> charges (work_limit e) (snd (snd st)) (snd (snd st'))"
  by (auto simp: pull_item_def pull_nested_check_def res_bind_Inr_iff Let_def
      split: prod.splits any.splits option.splits list.splits if_splits dest: scanPullFacts_charges)

lemma pull_items_charge:
  assumes "res_fold (pull_item e) items (every, attrs, w) = Inr (every', attrs', w')"
  shows "charges (work_limit e) w w'"
  using assms
proof (induction items arbitrary: every attrs w)
  case (Cons item items)
  then obtain every1 attrs1 w1 where 1: "pull_item e item (every, attrs, w) = Inr (every1, attrs1, w1)"
    "res_fold (pull_item e) items (every1, attrs1, w1) = Inr (every', attrs', w')" by (auto simp: res_bind_Inr_iff)
  from pull_item_charges [OF 1(1)] Cons.IH [OF 1(2)] show ?case by (auto intro: charges_trans)
qed simp

lemma pull_full_charges:
  assumes "pull_full e i w = Inr (m, w')"
  shows "charges (work_limit e) w w'"
proof -
  obtain a where "res_fold (\<lambda>f (m, work). res_bind (spend e work) (\<lambda>work'.
        res_bind (pull_row None (qe_db e) [i] f m) (\<lambda>m'. Inr (m', work'))))
      (sort_key rf_a (select_facts (\<lambda>f. rf_e f = i \<and> visible (db_asOf (qe_db e)) f
        \<and> find_id (rf_a f) (db_tables (qe_db e)) \<noteq> None) (db_tables (qe_db e)))) ([], w) = Inr (a, w')"
    using assms unfolding pull_full_def Let_def res_bind_Inr_iff by auto
  then show ?thesis by (rule fold_pair_charges) (auto simp: res_bind_Inr_iff intro: spend_charges)
qed

definition pulls_charge :: "int \<Rightarrow> puller \<Rightarrow> bool" where
  "pulls_charge limit pull \<longleftrightarrow> (\<forall>i items seen w m w'. pull i items seen w = Inr (m, w') \<longrightarrow> charges limit w w')"

lemma pull_attribute_charges:
  assumes "pull_attribute deeper e entity seen full field st = Inr st'"
    and "\<And>pull. deeper = Some pull \<Longrightarrow> pulls_charge (work_limit e) pull"
  shows "charges (work_limit e) (snd st) (snd st')"
proof -
  have refs: "charges (work_limit e) w w'" if "pull_refs deeper e sub seen refs w = Inr (xs, w')" for sub refs w xs w'
    using that assms(2) unfolding pull_refs_def
    by (rule_tac res_maps_charges) (auto simp: res_bind_Inr_iff pulls_charge_def split: option.splits if_splits)
  show ?thesis using assms(1)
    by (auto simp: pull_attribute_def pull_subpattern_def res_bind_Inr_iff
        split: prod.splits if_splits option.splits any.splits dest!: scanPullFacts_charges refs intro: charges_trans)
qed

lemma pull_pattern_with_charges:
  assumes "\<And>pull. deeper = Some pull \<Longrightarrow> pulls_charge (work_limit e) pull"
  shows "pulls_charge (work_limit e) (pull_pattern_with deeper e)"
  unfolding pulls_charge_def
proof (intro allI impI)
  fix i items seen w m w'
  assume "pull_pattern_with deeper e i items seen w = Inr (m, w')"
  then obtain every attrs w1 full w2 where 1: "res_fold (pull_item e) items (False, [], w) = Inr (every, attrs, w1)"
    "pull_full e i w1 = Inr (full, w2)"
    "res_fold (pull_attribute deeper e i (removeAll i seen) full) attrs (if every then full else Some [], w2) = Inr (m, w')"
    by (auto simp: pull_pattern_with_def res_bind_Inr_iff)
  have "charges (work_limit e) (snd (if every then full else Some [], w2)) (snd (m, w'))"
    by (rule res_fold_charges [OF 1(3)]) (rule pull_attribute_charges, assumption, rule assms)
  with pull_items_charge [OF 1(1)] pull_full_charges [OF 1(2)] show "charges (work_limit e) w w'"
    by (auto intro: charges_trans)
qed

lemma pullPattern_charges: "pulls_charge (work_limit e) (pullPattern n e)"
  by (induction n) (auto intro: pull_pattern_with_charges)

lemma project_item_charges: "project_item e values item w = Inr (x, w') \<Longrightarrow> charges (work_limit e) w w'"
  using pullPattern_charges [of e 1]
  by (auto simp: project_item_def res_bind_Inr_iff Let_def pulls_charge_def
      split: any.splits list.splits option.splits if_splits)

lemma aggregate_item_charges: "aggregate_item e members item w = Inr (x, w') \<Longrightarrow> charges (work_limit e) w w'"
  by (auto simp: aggregate_item_def res_bind_Inr_iff
      split: any.splits list.splits if_splits dest: project_item_charges)

lemma row_charges:
  "project_group e items members st = Inr st' \<Longrightarrow> charges (work_limit e) (snd st) (snd st')"
  "project_binding e items b st = Inr st' \<Longrightarrow> charges (work_limit e) (snd st) (snd st')"
  by (cases st; auto simp: project_group_def project_binding_def aggregateRow_def projectRow_def res_bind_Inr_iff
      elim!: res_maps_charges intro: aggregate_item_charges project_item_charges)+

lemma project_rows_charges:
  assumes "project_rows e items bindings w = Inr (rows, w')"
  shows "charges (work_limit e) w w'"
proof -
  consider groups st where "res_fold (project_group e items) groups (([], []), w) = Inr (st, w')"
    | st where "res_fold (project_binding e items) bindings (([], []), w) = Inr (st, w')"
    using assms by (auto simp: project_rows_def res_bind_Inr_iff split: if_splits)
  then show ?thesis by cases (erule fold_pair_charges, erule row_charges)+
qed

end
