(* ===== verification/Apply.thy ===== *)
theory Apply
  imports SearchText
begin

text \<open>
  Applying a portable event/1 stream (apply.go): the lines of the stream, the operations that an event asks for, the
  check against the events that the store already has, and the one transaction around the whole stream.
\<close>

subsection \<open>Lines\<close>

text \<open>What an \<^verbatim>\<open>io.Reader\<close> delivers: some bytes, then the end of the stream or another error.\<close>

record reader =
  rd_bytes :: string
  rd_fails :: bool

text \<open>
  The fragments of the buffered reader make up the line; the newline does not count. The answer has the line,
  whether the stream ended with it, and the rest of the stream.
\<close>

definition readPortableLineLimit :: "nat \<Rightarrow> reader \<Rightarrow> (string \<times> bool \<times> reader) res" where
  "readPortableLineLimit maxBytes rd =
    (let line = takeWhile (\<lambda>c. byte_of c \<noteq> 10) (rd_bytes rd); rest = dropWhile (\<lambda>c. byte_of c \<noteq> 10) (rd_bytes rd) in
     if length line > maxBytes then fail ErrTooLarge
     else case rest of
       [] \<Rightarrow> if rd_fails rd then Inl External else Inr (line, True, rd\<lparr>rd_bytes := []\<rparr>)
     | _ # later \<Rightarrow> Inr (line, False, rd\<lparr>rd_bytes := later\<rparr>))"

definition readPortableLine :: "reader \<Rightarrow> (string \<times> bool \<times> reader) res" where
  "readPortableLine = readPortableLineLimit maxPortableLineBytes"

definition read_failed :: "ferror \<Rightarrow> 'a res" where
  "read_failed e = (if errorIs e ErrTooLarge then Inl e else wrap ErrFormat (Some e))"

lemma readPortableLineLimit_shrinks:
  "readPortableLineLimit n rd = Inr (line, False, rd') \<Longrightarrow> length (rd_bytes rd') < length (rd_bytes rd)"
  using length_dropWhile_le [of "\<lambda>c. byte_of c \<noteq> 10" "rd_bytes rd"]
  by (auto simp: readPortableLineLimit_def Let_def split: if_split_asm list.split_asm)

text \<open>The loop over the lines: a line of white space is skipped, and the first error ends it.\<close>

function each_line :: "nat \<Rightarrow> (string \<Rightarrow> 's \<Rightarrow> 's res) \<Rightarrow> reader \<Rightarrow> 's \<Rightarrow> 's res" where
  "each_line maxBytes step rd s =
    (case readPortableLineLimit maxBytes rd of
       Inl e \<Rightarrow> read_failed e
     | Inr (line, True, _) \<Rightarrow> if blank line then Inr s else step line s
     | Inr (line, False, rd') \<Rightarrow> res_bind (if blank line then Inr s else step line s) (each_line maxBytes step rd'))"
  by pat_completeness auto
termination
  by (relation "measure (\<lambda>(_, _, rd, _). length (rd_bytes rd))") (auto intro: readPortableLineLimit_shrinks)

text \<open>
  The state that the loop leaves when it ends: the one after the last line, or what the failing line left of its own.
\<close>

function each_line_left :: "nat \<Rightarrow> (string \<Rightarrow> 's \<Rightarrow> 's res) \<Rightarrow> (string \<Rightarrow> 's \<Rightarrow> 's) \<Rightarrow> reader \<Rightarrow> 's \<Rightarrow> 's" where
  "each_line_left maxBytes step left rd s =
    (case readPortableLineLimit maxBytes rd of
       Inl _ \<Rightarrow> s
     | Inr (line, end_of_stream, rd') \<Rightarrow>
        (case (if blank line then Inr s else step line s) of
           Inl _ \<Rightarrow> left line s
         | Inr s' \<Rightarrow> if end_of_stream then s' else each_line_left maxBytes step left rd' s'))"
  by pat_completeness auto
termination
  by (relation "measure (\<lambda>(_, _, _, rd, _). length (rd_bytes rd))") (auto intro: readPortableLineLimit_shrinks)

declare each_line.simps [simp del] each_line_left.simps [simp del]

subsection \<open>The operations of an event\<close>

definition applySelector :: "tables \<Rightarrow> any \<Rightarrow> any res" where
  "applySelector tb value =
    (case value of
       AStr name \<Rightarrow> res_bind (validateName name False) (\<lambda>_. Inr (AStr name))
     | _ \<Rightarrow>
       res_bind (selectorUUID value) (\<lambda>(eid, uuid).
         Inr (case find_gid uuid tb of Some i \<Rightarrow> AInt64 i | None \<Rightarrow> ATmp (''event:'' @ eid))))"

definition applyWireValue :: "tables \<Rightarrow> any \<Rightarrow> string \<Rightarrow> any res" where
  "applyWireValue tb value t =
    (if t \<noteq> ''ref'' then taggedInput value t
     else case objectFields value of
       Some [(name, v)] \<Rightarrow>
         if name \<noteq> ''ref'' then fail ErrType else res_bind (applySelector tb v) (\<lambda>target. Inr (ARef target))
     | _ \<Rightarrow> fail ErrType)"

text \<open>\<^verbatim>\<open>wrap(ErrorKind(err), err, ...)\<close>\<close>

definition rewrap :: "'a res \<Rightarrow> 'a res" where
  "rewrap m = (case m of Inl e \<Rightarrow> wrap (ErrorKind e) (Some e) | Inr x \<Rightarrow> Inr x)"

definition event_operation :: "tables \<Rightarrow> string \<Rightarrow> any \<Rightarrow> any res" where
  "event_operation tb kind rawTuple =
    (case rawTuple of
       AList [selector, a, v, t] \<Rightarrow>
         (case (a, t) of
            (AStr attribute, AStr tagName) \<Rightarrow>
              res_bind (rewrap (applySelector tb selector)) (\<lambda>entity.
              res_bind (rewrap (applyWireValue tb v tagName)) (\<lambda>value.
                Inr (AList [AStr kind, entity, AStr attribute, value])))
          | _ \<Rightarrow> fail ErrType)
     | _ \<Rightarrow> fail ErrType)"

definition event_tx_fact :: "tables \<Rightarrow> any \<Rightarrow> any res" where
  "event_tx_fact tb rawTuple =
    (case rawTuple of
       AList [a, v, t] \<Rightarrow>
         (case (a, t) of
            (AStr attribute, AStr tagName) \<Rightarrow>
              res_bind (rewrap (applyWireValue tb v tagName)) (\<lambda>value. Inr (AList [AStr attribute, value, AStr tagName]))
          | _ \<Rightarrow> fail ErrType)
     | _ \<Rightarrow> fail ErrType)"

text \<open>A field of type \<^verbatim>\<open>[]any\<close>, an optional text, and the transaction facts.\<close>

definition list_field :: "fields \<Rightarrow> string \<Rightarrow> any list res" where
  "list_field rec k = (case map_of rec k of Some (AList xs) \<Rightarrow> Inr xs | _ \<Rightarrow> fail ErrType)"

definition text_field :: "fields \<Rightarrow> string \<Rightarrow> string option res" where
  "text_field rec k = (case map_of rec k of None \<Rightarrow> Inr None | Some (AStr s) \<Rightarrow> Inr (Some s) | _ \<Rightarrow> fail ErrType)"

definition event_tx_facts :: "tables \<Rightarrow> fields \<Rightarrow> any list res" where
  "event_tx_facts tb rec =
    (case map_of rec ''tx_facts'' of
       None \<Rightarrow> Inr []
     | Some (AList tuples) \<Rightarrow> res_map (event_tx_fact tb) tuples
     | _ \<Rightarrow> fail ErrType)"

subsection \<open>One event\<close>

definition event_fields :: "string list" where
  "event_fields = [''fgraph'', ''event'', ''at'', ''created'', ''by'', ''source'', ''meta'', ''tx_facts'', ''asserted'', ''retracted'']"

text \<open>The event id: a canonical UUID of version 1 to 5. Then the record of a line with its identity and its hash.\<close>

definition event_id :: "fields \<Rightarrow> (string \<times> string) res" where
  "event_id rec =
    (case map_of rec ''event'' of
       Some (AStr eventID) \<Rightarrow>
         (case parseUUID eventID of
            Inl _ \<Rightarrow> fail ErrType
          | Inr uuid \<Rightarrow>
             if byte_of (uuid ! 8) div 64 \<noteq> 2 \<or> byte_of (uuid ! 6) div 16 < 1 \<or> byte_of (uuid ! 6) div 16 > 5 then fail ErrType
             else Inr (eventID, uuid))
     | _ \<Rightarrow> fail ErrType)"

definition event_line :: "string \<Rightarrow> (fields \<times> string \<times> string \<times> string) res" where
  "event_line raw =
    res_bind (res_wrap ErrType (DecodeJSON raw)) (\<lambda>decoded.
    case objectMap decoded of
      None \<Rightarrow> fail ErrType
    | Some rec \<Rightarrow>
       if map_of rec ''fgraph'' \<noteq> Some (AStr ''event/1'') then fail ErrType
       else if \<not> list_all (\<lambda>(k, _). k \<in> set event_fields) rec then fail ErrType
       else
         res_bind (event_id rec) (\<lambda>(eventID, uuid).
         res_bind (res_wrap ErrType (canonicalEventData (AMap rec))) (\<lambda>(_, eventHash).
           Inr (rec, eventID, uuid, eventHash))))"

text \<open>The transaction that an event asks for: its operations, retractions first, and its options.\<close>

definition event_request :: "tables \<Rightarrow> fields \<Rightarrow> string \<Rightarrow> string \<Rightarrow> (any \<times> txOptions) res" where
  "event_request tb rec eventID eventHash =
    res_bind (case map_of rec ''at'' of Some (ANum k n) \<Rightarrow> if k = KInt64 then Inr n else fail ErrType | _ \<Rightarrow> fail ErrType) (\<lambda>now.
    res_bind (res_wrap ErrType (validateInstantMicros now)) (\<lambda>_.
    res_bind (list_field rec ''created'') (\<lambda>created.
    res_bind (list_field rec ''asserted'') (\<lambda>asserted.
    res_bind (list_field rec ''retracted'') (\<lambda>retracted.
    res_bind (res_map (event_operation tb ''retract'') retracted) (\<lambda>retracts.
    res_bind (res_map (event_operation tb ''assert'') asserted) (\<lambda>asserts.
    res_bind (event_tx_facts tb rec) (\<lambda>txFacts.
    res_bind (text_field rec ''by'') (\<lambda>by.
    res_bind (text_field rec ''source'') (\<lambda>source.
      Inr (AList (retracts @ asserts),
           noOptions\<lparr>to_force := True, to_eventID := Some eventID, to_eventHash := Some eventHash,
             to_preallocated := created, to_by := by, to_source := source, to_meta := map_of rec ''meta'',
             to_txFacts := Some (AList (txFacts @ [AList [AStr (systemNames ! 13), AInstant now, AStr ''instant'']]))\<rparr>)))))))))))"

text \<open>
  An event that the store has is answered from its receipt if the stored hash is the same. (The option
  \<^verbatim>\<open>originAt\<close>, which nothing reads in a transaction, is left aside.)
\<close>

definition applyEventLine :: "env \<Rightarrow> store \<Rightarrow> string \<Rightarrow> (TxReport \<times> store) res" where
  "applyEventLine en s raw =
    res_bind (event_line raw) (\<lambda>(rec, eventID, uuid, eventHash).
    let tb = st_tables s in
    case find_gid uuid tb of
      Some i \<Rightarrow>
        if map_option ev_hash (find (\<lambda>r. ev_tx r = i) (tb_events tb)) \<noteq> Some eventHash then fail ErrConflict
        else res_bind (eventReceipt s i) (\<lambda>report. Inr (alreadyAppliedReport report, s))
    | None \<Rightarrow>
        res_bind (event_request tb rec eventID eventHash) (\<lambda>(operations, config).
          rewrap (transactOn en \<lparr>db_store = s, db_asOf = None\<rparr> operations config)))"

subsection \<open>The stream\<close>

text \<open>The caches that a failing event leaves.\<close>

definition event_residue :: "env \<Rightarrow> store \<Rightarrow> string \<Rightarrow> store" where
  "event_residue en s raw =
    (case event_line raw of
       Inl _ \<Rightarrow> s
     | Inr (rec, eventID, uuid, eventHash) \<Rightarrow>
        if find_gid uuid (st_tables s) \<noteq> None then s
        else (case event_request (st_tables s) rec eventID eventHash of
                Inl _ \<Rightarrow> s
              | Inr (operations, config) \<Rightarrow> transact_residue en \<lparr>db_store = s, db_asOf = None\<rparr> operations config))"

text \<open>
  \<^verbatim>\<open>atomicPortableWrite\<close> outside a running transaction: BEGIN IMMEDIATE, then COMMIT or ROLLBACK; \<open>commits\<close> says
  whether SQLite's COMMIT goes through, and \<open>left\<close> has the name caches that a failing operation leaves. They are
  marked stale after an error and after a COMMIT, but not when the COMMIT itself fails.
\<close>

definition atomicPortableWrite ::
    "bool \<Rightarrow> db \<Rightarrow> (store \<Rightarrow> ('a \<times> store) res) \<Rightarrow> (store \<Rightarrow> store) \<Rightarrow> 'a res \<times> db" where
  "atomicPortableWrite commits d operation left =
    (case operation (db_store d) of
       Inl e \<Rightarrow> (Inl e, d\<lparr>db_store := (keep_caches (left (db_store d)) (db_store d))\<lparr>st_dataVersion := -1\<rparr>\<rparr>)
     | Inr (x, s) \<Rightarrow>
        if commits then (Inr x, d\<lparr>db_store := s\<lparr>st_dataVersion := -1\<rparr>\<rparr>)
        else (wrap ErrFormat (Some External), d\<lparr>db_store := keep_caches s (db_store d)\<rparr>))"

definition apply_line :: "env \<Rightarrow> string \<Rightarrow> TxReport list \<times> store \<Rightarrow> (TxReport list \<times> store) res" where
  "apply_line en line = (\<lambda>(reports, s).
    res_bind (applyEventLine en s line) (\<lambda>(report, s1).
    res_bind (refreshNames (s1\<lparr>st_dataVersion := -1\<rparr>)) (\<lambda>s2. Inr (reports @ [report], s2))))"

definition apply_line_left :: "env \<Rightarrow> string \<Rightarrow> TxReport list \<times> store \<Rightarrow> TxReport list \<times> store" where
  "apply_line_left en line = (\<lambda>(reports, s).
    case applyEventLine en s line of
      Inl _ \<Rightarrow> (reports, event_residue en s line)
    | Inr (report, s1) \<Rightarrow> (reports @ [report], s1))"

definition applyStreamCommitting :: "bool \<Rightarrow> env \<Rightarrow> db \<Rightarrow> reader option \<Rightarrow> TxReport list res \<times> db" where
  "applyStreamCommitting commits en d reader =
    (case reader of
       None \<Rightarrow> (fail ErrType, d)
     | Some rd \<Rightarrow>
       (case checkUsable True d of
          Inl e \<Rightarrow> (Inl e, d)
        | Inr _ \<Rightarrow>
           atomicPortableWrite commits d
             (\<lambda>s. each_line maxPortableLineBytes (apply_line en) rd ([], s))
             (\<lambda>s. snd (each_line_left maxPortableLineBytes (apply_line en) (apply_line_left en) rd ([], s)))))"

definition applyStream :: "env \<Rightarrow> db \<Rightarrow> reader option \<Rightarrow> TxReport list res \<times> db" where
  "applyStream = applyStreamCommitting True"

definition Apply :: "env \<Rightarrow> db \<Rightarrow> reader option \<Rightarrow> TxReport list res \<times> db" where
  "Apply = applyStream"

record ApplySummary =
  as_events :: nat
  as_applied :: nat
  as_alreadyApplied :: nat
  as_noop :: nat
  as_basis :: int

definition count_status :: "string \<Rightarrow> TxReport list \<Rightarrow> nat" where
  "count_status status reports = length (filter (\<lambda>r. tr_status r = status) reports)"

definition summarize :: "env \<Rightarrow> db \<Rightarrow> reader option \<Rightarrow> ApplySummary res \<times> db" where
  "summarize en d reader =
    (case applyStream en d reader of
       (Inl e, d') \<Rightarrow> (Inl e, d')
     | (Inr reports, d') \<Rightarrow>
        (case latestTx d' of
           (Inl e, d'') \<Rightarrow> (Inl e, d'')
         | (Inr basis, d'') \<Rightarrow>
            (Inr \<lparr>as_events = length reports, as_applied = count_status ''applied'' reports,
                  as_alreadyApplied = count_status ''already_applied'' reports, as_noop = count_status ''noop'' reports,
                  as_basis = basis\<rparr>, d'')))"

end
