(* ===== verification/Excision.thy ===== *)
theory Excision
  imports Commit
begin

text \<open>
  Excision (maintenance.go, \<^verbatim>\<open>Excise\<close>): the physical removal of every fact that mentions an entity, of the texts and
  blobs that only they used, and of the payload of every event that mentions it, under an audited event that keeps
  none of the erased values.
\<close>

subsection \<open>Stored events\<close>

definition event_field :: "fields \<Rightarrow> string \<Rightarrow> any" where
  "event_field rec k = (case map_of rec k of None \<Rightarrow> ANil | Some v \<Rightarrow> v)"

definition decodeStoredEventData :: "string \<Rightarrow> string \<Rightarrow> fields res" where
  "decodeStoredEventData data storedHash =
    (if length data > maxPortableLineBytes then fail ErrTooLarge
     else
       res_bind (DecodeJSON data) (\<lambda>decoded.
       case objectMap decoded of
         None \<Rightarrow> fail ErrFormat
       | Some rec \<Rightarrow>
          if event_field rec ''fgraph'' \<noteq> AStr ''event/1'' then fail ErrFormat
          else
            res_bind (canonicalJSON (AMap rec)) (\<lambda>canonical.
              if data \<noteq> canonical then fail ErrFormat
              else if sha256 canonical \<noteq> storedHash then fail ErrFormat
              else Inr rec)))"

definition eventIDForTx :: "tables \<Rightarrow> int \<Rightarrow> string res" where
  "eventIDForTx tb tx = res_bind (event_uuid tb tx) (\<lambda>uuid. Inr (formatUUID uuid))"

subsection \<open>Events that mention a selector\<close>

definition eventSelectorKey :: "any \<Rightarrow> string option" where
  "eventSelectorKey value = (case canonicalJSON value of Inl _ \<Rightarrow> None | Inr encoded \<Rightarrow> Some encoded)"

definition selects :: "string \<Rightarrow> any \<Rightarrow> bool" where
  "selects target value \<longleftrightarrow> eventSelectorKey value = Some target"

definition eventValueReferencesSelector :: "any \<Rightarrow> string \<Rightarrow> bool" where
  "eventValueReferencesSelector value target =
    (case objectFields value of
       Some [(name, v)] \<Rightarrow> name = ''ref'' \<and> selects target v
     | _ \<Rightarrow> False)"

text \<open>Whether a tuple of the wanted length mentions the target: by its selectors or by the value after them.\<close>

definition tuple_mentions :: "nat \<Rightarrow> string \<Rightarrow> any \<Rightarrow> bool res" where
  "tuple_mentions selectors target item =
    (case item of
       AList tuple \<Rightarrow>
         if length tuple \<noteq> selectors + 2 then fail ErrFormat
         else Inr (list_ex (selects target) (take selectors tuple) \<or> eventValueReferencesSelector (tuple ! selectors) target)
     | _ \<Rightarrow> fail ErrFormat)"

fun tuples_mention :: "nat \<Rightarrow> string \<Rightarrow> any list \<Rightarrow> bool res" where
  "tuples_mention selectors target [] = Inr False"
| "tuples_mention selectors target (item # items) =
    res_bind (tuple_mentions selectors target item) (\<lambda>found.
      if found then Inr True else tuples_mention selectors target items)"

definition field_mentions :: "nat \<Rightarrow> string \<Rightarrow> any \<Rightarrow> bool res" where
  "field_mentions selectors target v =
    (case v of AList tuples \<Rightarrow> tuples_mention selectors target tuples | _ \<Rightarrow> fail ErrFormat)"

definition eventRecordReferencesSelector :: "fields \<Rightarrow> string \<Rightarrow> bool res" where
  "eventRecordReferencesSelector rec target =
    (case event_field rec ''created'' of
       AList created \<Rightarrow>
         if list_ex (selects target) created then Inr True
         else
           res_bind (field_mentions 2 target (event_field rec ''asserted'')) (\<lambda>asserted.
           if asserted then Inr True
           else
             res_bind (field_mentions 2 target (event_field rec ''retracted'')) (\<lambda>retracted.
             if retracted then Inr True
             else case map_of rec ''tx_facts'' of None \<Rightarrow> Inr False | Some v \<Rightarrow> field_mentions 1 target v))
     | _ \<Rightarrow> fail ErrFormat)"

definition payload_mentions :: "string \<Rightarrow> eventRow \<Rightarrow> bool res" where
  "payload_mentions target r =
    (case ev_data r of
       None \<Rightarrow> Inr False
     | Some data \<Rightarrow>
         res_wrap ErrFormat (res_bind (decodeStoredEventData data (ev_hash r)) (\<lambda>rec.
           eventRecordReferencesSelector rec target)))"

definition eventPayloadTransactionsForSelector :: "tables \<Rightarrow> any \<Rightarrow> int \<Rightarrow> int list res" where
  "eventPayloadTransactionsForSelector tb selector before =
    (case eventSelectorKey selector of
       None \<Rightarrow> fail ErrFormat
     | Some target \<Rightarrow>
         res_fold (\<lambda>r txs. res_bind (payload_mentions target r) (\<lambda>found. Inr (if found then txs @ [ev_tx r] else txs)))
           (sort_key ev_tx (filter (\<lambda>r. ev_tx r < before \<and> ev_data r \<noteq> None) (tb_events tb))) [])"

subsection \<open>The removal\<close>

text \<open>\<^verbatim>\<open>WHERE e=? OR a=? OR (t=0 AND v=?)\<close>.\<close>

definition mentions :: "int \<Rightarrow> rawFact \<Rightarrow> bool" where
  "mentions entity f \<longleftrightarrow> rf_e f = entity \<or> rf_a f = entity \<or> (rf_t f = TagRef \<and> sql_eq (rf_v f) (SInt entity))"

definition remove_text :: "rawFact \<Rightarrow> tables \<Rightarrow> tables" where
  "remove_text f tb = (if rf_t f = TagText \<or> rf_t f = TagTextRef then delete_fts (rf_id f) tb else tb)"

definition redact_events :: "int list \<Rightarrow> tables \<Rightarrow> tables" where
  "redact_events txs tb =
    tb\<lparr>tb_events := map (\<lambda>r. if ev_tx r \<in> set txs then r\<lparr>ev_data := None\<rparr> else r) (tb_events tb)\<rparr>"

definition delete_mentions :: "int \<Rightarrow> tables \<Rightarrow> tables" where
  "delete_mentions entity tb = tb\<lparr>tb_facts := filter (\<lambda>f. \<not> mentions entity f) (tb_facts tb)\<rparr>"

definition delete_orphans :: "tables \<Rightarrow> tables" where
  "delete_orphans tb =
    tb\<lparr>tb_blobs := filter (\<lambda>(h, _). list_ex (\<lambda>f. indirect_tag (rf_t f) \<and> sql_eq (rf_v f) (SBlob h)) (tb_facts tb)) (tb_blobs tb)\<rparr>"

text \<open>The transactions that asserted or retracted the rows.\<close>

definition touching :: "rawFact list \<Rightarrow> int list" where
  "touching rows = concat (map (\<lambda>f. rf_tx f # (case rf_rx f of None \<Rightarrow> [] | Some rx \<Rightarrow> [rx])) rows)"

definition excise_tables :: "int \<Rightarrow> rawFact list \<Rightarrow> int list \<Rightarrow> tables \<Rightarrow> tables" where
  "excise_tables entity rows redacted tb =
    delete_orphans (delete_mentions entity (redact_events redacted (fold remove_text rows tb)))"

definition excision_marker :: "int \<Rightarrow> int \<Rightarrow> int \<Rightarrow> plannedFact list" where
  "excision_marker tx now entity =
    [planned tx 1 (systemNames ! 1) (stored (AInt64 now) (SInt now) TagInstant) 0,
     planned tx 11 (systemNames ! 11) (stored (AInt64 entity) (SInt entity) TagRef) 0]"

definition excision_record :: "string \<Rightarrow> int \<Rightarrow> string list \<Rightarrow> any" where
  "excision_record eventID now redacts =
    AMap [(''fgraph'', AStr ''event/1''), (''event'', AStr eventID), (''at'', AInt64 now),
          (''created'', AList []), (''asserted'', AList []), (''retracted'', AList []),
          (''redacted'', ABool True), (''redacts'', AList (map AStr redacts))]"

definition excise_entity ::
    "env \<Rightarrow> db \<Rightarrow> int \<Rightarrow> int \<Rightarrow> (string \<times> string) option \<Rightarrow> (TxReport \<times> store) res" where
  "excise_entity en d entity basis operation =
    res_bind (newAllocator (db_tables d)) (\<lambda>al0.
    res_bind (alloc_tx al0) (\<lambda>(tx, al).
    res_bind (nextTimestamp en (db_tables d) None) (\<lambda>now.
    res_bind (event_identity en noOptions tx) (\<lambda>(eventID, uuid).
    res_bind (finalize en tx uuid (db_store d) al) (\<lambda>(s1, al1).
    let tb1 = st_tables s1; rows = select_facts (mentions entity) tb1 in
    res_bind (res_map (\<lambda>f. renderRaw s1 f (Some tx)) rows) (\<lambda>retracted.
    res_bind (identitySelector tb1 entity) (\<lambda>selector.
    res_bind (eventPayloadTransactionsForSelector tb1 selector tx) (\<lambda>payloads.
    let redacted = sort (remdups (touching rows @ payloads)) in
    res_bind (res_map (eventIDForTx tb1) redacted) (\<lambda>redacts.
    let s2 = s1\<lparr>st_tables := excise_tables entity rows redacted tb1\<rparr> in
    res_bind (res_fold (insert_planned al1 tx) (excision_marker tx now entity) (s2, [])) (\<lambda>(s3, asserted).
    let tb3 = flush al1 (st_tables s3) in
    res_bind (canonicalEventData (excision_record eventID now (sort redacts))) (\<lambda>(eventData, eventHash).
    res_bind (res_wrap ErrFormat (insert_event
        \<lparr>ev_tx = tx, ev_hash = eventHash, ev_data = Some eventData, ev_op = map_option fst operation,
         ev_req = map_option snd operation\<rparr> tb3)) (\<lambda>tb4.
      Inr (\<lparr>tr_ids = [], tr_status = ''applied'', tr_event = eventID, tr_asserted = asserted, tr_retracted = retracted,
            tr_basis = basis, tr_tx = tx, tr_at = now\<rparr>,
           s3\<lparr>st_tables := tb4, st_dataVersion := -1\<rparr>)))))))))))))"

text \<open>Only \<^verbatim>\<open>WithOperationID\<close> and \<^verbatim>\<open>IfBasis\<close> are accepted.\<close>

definition check_excision :: "txOptions \<Rightarrow> unit res" where
  "check_excision c =
    (if to_by c \<noteq> None \<or> to_source c \<noteq> None \<or> to_meta c \<noteq> None \<or> to_txFacts c \<noteq> None \<or> to_at c \<noteq> None
        \<or> to_declaration c \<noteq> None \<or> to_force c \<or> to_eventID c \<noteq> None \<or> to_eventHash c \<noteq> None \<or> to_preallocated c \<noteq> []
     then fail ErrType
     else case to_operationID c of None \<Rightarrow> Inr () | Some op \<Rightarrow> validateOperationID op)"

definition excision_hash :: "any \<Rightarrow> string res" where
  "excision_hash ref =
    (case canonicalJSON (AMap [(''operation'', AStr ''excise''), (''ref'', wireValue ref)]) of
       Inl e \<Rightarrow> wrap ErrType (Some e)
     | Inr encoded \<Rightarrow> Inr (sha256 encoded))"

text \<open>The entity to excise: neither of the system nor a transaction.\<close>

definition excisable :: "db \<Rightarrow> any \<Rightarrow> int res" where
  "excisable d ref =
    res_bind (resolveReadEntity d ref) (\<lambda>found.
    case found of
      None \<Rightarrow> fail ErrNotFound
    | Some entity \<Rightarrow>
        if entity \<le> GenesisTx then fail ErrUnsupported
        else if list_ex (\<lambda>r. ev_tx r = entity) (tb_events (db_tables d)) then fail ErrUnsupported
        else Inr entity)"

definition excise_on :: "env \<Rightarrow> db \<Rightarrow> any \<Rightarrow> txOptions \<Rightarrow> string \<Rightarrow> (TxReport \<times> store) res" where
  "excise_on en d ref c requestHash =
    res_bind (refreshNames (db_store d)) (\<lambda>s0.
    let d0 = d\<lparr>db_store := s0\<rparr>; basis = basisOn (db_tables d) in
    res_bind (case to_operationID c of None \<Rightarrow> Inr None | Some op \<Rightarrow> operationReceipt s0 op requestHash) (\<lambda>prior.
    case prior of
      Some report \<Rightarrow> Inr (report, s0)
    | None \<Rightarrow>
        if (case to_ifBasisTx c of None \<Rightarrow> False | Some b \<Rightarrow> b \<noteq> basis) then fail ErrConflict
        else
          res_bind (excisable d0 ref) (\<lambda>entity.
            excise_entity en d0 entity basis (map_option (\<lambda>op. (op, requestHash)) (to_operationID c)))))"

text \<open>
  An error rolls the tables back. (The names that were refreshed stay so; the cache of UUIDs, which nothing reads,
  is left aside.)
\<close>

definition Excise :: "env \<Rightarrow> db \<Rightarrow> any \<Rightarrow> txOptions \<Rightarrow> TxReport res \<times> db" where
  "Excise en d ref c =
    (case res_bind (checkUsable True d) (\<lambda>_. res_bind (check_excision c) (\<lambda>_. excision_hash ref)) of
       Inl e \<Rightarrow> (Inl e, d)
     | Inr requestHash \<Rightarrow>
        (case excise_on en d ref c requestHash of
           Inl e \<Rightarrow> (Inl e, case refreshNames (db_store d) of Inl _ \<Rightarrow> d | Inr s0 \<Rightarrow> d\<lparr>db_store := s0\<rparr>)
         | Inr (report, s) \<Rightarrow> (Inr report, d\<lparr>db_store := s\<rparr>)))"

end
