(* ===== verification/Doctor.thy ===== *)
theory Doctor
  imports Excision
begin

text \<open>
  The doctor (maintenance.go, \<^verbatim>\<open>Doctor\<close>): every count and check of its report over the tables, the verification of the
  retained events against the facts, and the repair, which rebuilds the full-text index and removes orphaned blobs.
  A problem of the report is a value with the arguments of its message. The columns of the model are typed, so that
  the counts of ill-typed columns, such as an unknown tag, have nothing to count.
\<close>

datatype problem =
    IntegrityCheck string
  | AllocatorExhausted
  | NextID int "int option"
  | InvalidIdentityIDs nat
  | InvalidSystemIdentities nat
  | InvalidFactIdentifiers nat
  | NamedTransactions nat
  | MissingAssertingTransactions nat
  | MissingRetractingTransactions nat
  | GenesisReceipt
  | CreatedAt int int
  | InvalidGenesisFacts nat
  | MissingRegistry nat
  | InvalidTemporalIdentities nat
  | InvalidEventRows nat
  | DanglingAttributes nat
  | InvalidPhysicalValues nat
  | MissingBlobs nat
  | InvalidIndirectBlobs nat
  | InvalidIntervals nat
  | EventWithoutUUID int
  | EventOperationID int
  | EventPayload int
  | EventOtherIdentity int
  | EventNoTimestamp int
  | EventOriginTimestamp int
  | EventTimestampDiffers int
  | EventMalformedRedaction int
  | EventNoMarker int
  | EventNotReconstructed int
  | EventNotCanonical int
  | EventHistoryPolicy int
  | EventFactsDiffer int
  | RedactedTargetKept string
  | RedactionNotPrior int string
  | PayloadMissing string
  | SchemaInvariants nat
  | ShapeInvariants nat
  | FullTextDiffers
  | OrphanedBlobsFound nat

record DoctorReport =
  dr_integrity :: string
  dr_problems :: "problem list"
  dr_ftsRows :: nat
  dr_expectedFTSRows :: nat
  dr_orphanedBlobs :: nat
  dr_ftsRowsRebuilt :: nat
  dr_orphanedBlobsRemoved :: nat
  dr_unverifiableEvents :: nat
  dr_schemaProblems :: nat
  dr_shapeViolations :: nat
  dr_ok :: bool
  dr_repairNeeded :: bool
  dr_repaired :: bool

subsection \<open>Identifiers\<close>

definition count_rows :: "('a \<Rightarrow> bool) \<Rightarrow> 'a list \<Rightarrow> nat" where
  "count_rows p xs = length (filter p xs)"

text \<open>A count that is not zero is a problem.\<close>

definition counted :: "(nat \<Rightarrow> problem) \<Rightarrow> nat \<Rightarrow> problem list" where
  "counted p n = (if n > 0 then [p n] else [])"

text \<open>
  \<^verbatim>\<open>CAST(v AS INTEGER)\<close>: a real is cut towards zero, a text or a blob is read as far as it is an integer, and what does
  not fit is clamped.
\<close>

definition clamp64 :: "int \<Rightarrow> int" where
  "clamp64 n = max MinInt64 (min MaxInt64 n)"

definition digits_value :: "string \<Rightarrow> int" where
  "digits_value s = fold (\<lambda>c n. 10 * n + int (byte_of c - 48)) (takeWhile is_digit s) 0"

definition cast_text :: "string \<Rightarrow> int" where
  "cast_text s =
    (let t = dropWhile (\<lambda>c. byte_of c = 32 \<or> (9 \<le> byte_of c \<and> byte_of c \<le> 13)) s in
     clamp64 (case t of
       [] \<Rightarrow> 0
     | c # r \<Rightarrow> if c = CHR ''-'' then - digits_value r else if c = CHR ''+'' then digits_value r else digits_value t))"

fun cast_integer :: "sval \<Rightarrow> int" where
  "cast_integer SNull = 0"
| "cast_integer (SInt n) = n"
| "cast_integer (SReal x) =
    (if IsNaN x then 0 else if IsInf x then (if f64_neg x then MinInt64 else MaxInt64)
     else let r = f64_rat x in clamp64 (if r < 0 then - \<lfloor>- r\<rfloor> else \<lfloor>r\<rfloor>))"
| "cast_integer (SText s) = cast_text s"
| "cast_integer (SBlob s) = cast_text s"

definition reference_of :: "rawFact \<Rightarrow> int list" where
  "reference_of f = (if rf_t f = TagRef then [cast_integer (rf_v f)] else [])"

definition retraction_of :: "rawFact \<Rightarrow> int list" where
  "retraction_of f = (case rf_rx f of None \<Rightarrow> [] | Some rx \<Rightarrow> [rx])"

definition fact_identifiers :: "rawFact \<Rightarrow> int list" where
  "fact_identifiers f = [rf_e f, rf_a f, rf_tx f] @ retraction_of f @ reference_of f"

definition identifiers :: "tables \<Rightarrow> int list" where
  "identifiers tb = map id_id (tb_ids tb) @ concat (map fact_identifiers (tb_facts tb))"

definition allocator_problems :: "tables \<Rightarrow> problem list" where
  "allocator_problems tb =
    (let ids = identifiers tb; wantNext = (if ids = [] then GenesisTx + 1 else fold max ids (hd ids) + 1) in
     if ids \<noteq> [] \<and> fold max ids (hd ids) = MaxInt64 then [AllocatorExhausted]
     else if tb_next_id tb = Some wantNext then [] else [NextID wantNext (tb_next_id tb)])"

definition invalid_identity :: "idRow \<Rightarrow> bool" where
  "invalid_identity r \<longleftrightarrow> id_id r \<le> 0 \<or> (id_id r > int (length systemNames) - 1 \<and> id_id r < GenesisTx)"

definition system_row :: "idRow \<Rightarrow> bool" where
  "system_row r \<longleftrightarrow> 1 \<le> id_id r \<and> id_id r \<le> int (length systemNames) - 1"

definition countInvalidSystemIdentities :: "tables \<Rightarrow> nat" where
  "countInvalidSystemIdentities tb =
    (let rows = sort_key id_id (filter system_row (tb_ids tb)) in
     count_rows (\<lambda>r. (case id_gid r of None \<Rightarrow> False | Some g \<Rightarrow> g \<noteq> []) \<or> id_created r \<noteq> GenesisTx) rows
     + count_rows (\<lambda>i. map_of (rev (map (\<lambda>r. (id_id r, id_name r)) rows)) (int i) \<noteq> Some (Some (systemNames ! i)))
         [1..<length systemNames])"

definition invalid_fact :: "rawFact \<Rightarrow> bool" where
  "invalid_fact f \<longleftrightarrow> rf_id f \<le> 0 \<or> rf_e f \<le> 0 \<or> rf_a f \<le> 0 \<or> rf_tx f < GenesisTx
     \<or> (case rf_rx f of None \<Rightarrow> False | Some rx \<Rightarrow> rx < GenesisTx) \<or> (rf_t f = TagRef \<and> cast_integer (rf_v f) \<le> 0)"

definition has_event :: "tables \<Rightarrow> int \<Rightarrow> bool" where
  "has_event tb tx \<longleftrightarrow> list_ex (\<lambda>r. ev_tx r = tx) (tb_events tb)"

definition named_transaction :: "tables \<Rightarrow> idRow \<Rightarrow> bool" where
  "named_transaction tb r \<longleftrightarrow> id_name r \<noteq> None \<and> has_event tb (id_id r)"

definition missing_retraction :: "tables \<Rightarrow> rawFact \<Rightarrow> bool" where
  "missing_retraction tb f \<longleftrightarrow> (case rf_rx f of None \<Rightarrow> False | Some rx \<Rightarrow> \<not> has_event tb rx)"

definition registered :: "tables \<Rightarrow> int \<Rightarrow> bool" where
  "registered tb i \<longleftrightarrow> list_ex (\<lambda>r. id_id r = i) (tb_ids tb)"

definition missing_registry :: "tables \<Rightarrow> nat" where
  "missing_registry tb = count_rows (\<lambda>i. \<not> registered tb i) (remdups (concat (map fact_identifiers (tb_facts tb))))"

text \<open>The first transaction that used an identity as a subject, attribute or reference.\<close>

definition first_use :: "tables \<Rightarrow> int \<Rightarrow> int option" where
  "first_use tb i =
    (case map rf_tx (filter (\<lambda>f. i \<in> set ([rf_e f, rf_a f] @ reference_of f)) (tb_facts tb)) of
       [] \<Rightarrow> None
     | t # ts \<Rightarrow> Some (fold min ts t))"

definition invalid_registry_time :: "tables \<Rightarrow> idRow \<Rightarrow> bool" where
  "invalid_registry_time tb r \<longleftrightarrow>
     \<not> has_event tb (id_created r) \<or> (case first_use tb (id_id r) of None \<Rightarrow> False | Some t \<Rightarrow> t < id_created r)"

definition invalid_event :: "tables \<Rightarrow> eventRow \<Rightarrow> bool" where
  "invalid_event tb r \<longleftrightarrow>
     (case find_id (ev_tx r) tb of
        None \<Rightarrow> True
      | Some i \<Rightarrow> id_name i \<noteq> None \<or> (case id_gid i of None \<Rightarrow> False | Some g \<Rightarrow> length g \<noteq> 16) \<or> id_created i \<noteq> ev_tx r)
     \<or> length (ev_hash r) \<noteq> 32 \<or> (ev_op r = None) \<noteq> (ev_req r = None)
     \<or> (case ev_data r of None \<Rightarrow> False | Some data \<Rightarrow> length data > maxPortableLineBytes)
     \<or> (case ev_op r of None \<Rightarrow> False | Some op \<Rightarrow> length op < 1 \<or> length op > 512)
     \<or> (case ev_req r of None \<Rightarrow> False | Some h \<Rightarrow> length h \<noteq> 32)"

subsection \<open>The genesis transaction\<close>

text \<open>The receipt: how many rows, and the time and validity of the last of them.\<close>

definition readGenesisReceipt :: "tables \<Rightarrow> nat \<times> int \<times> bool" where
  "readGenesisReceipt tb =
    (let rows = select_facts (\<lambda>f. rf_e f = GenesisTx \<and> rf_a f = 1) tb in
     fold (\<lambda>f (n, _, _).
         case rf_v f of
           SInt t \<Rightarrow> (n + 1, t, rf_t f = TagInstant \<and> rf_tx f = GenesisTx \<and> live f)
         | _ \<Rightarrow> (n + 1, 0, False))
       rows (0, 0, False))"

definition genesis_problems :: "tables \<Rightarrow> problem list" where
  "genesis_problems tb =
    (case readGenesisReceipt tb of (n, t, valid) \<Rightarrow>
       if n \<noteq> 1 \<or> \<not> valid then [GenesisReceipt]
       else if tb_created_at tb \<noteq> t then [CreatedAt t (tb_created_at tb)] else [])"

definition GenesisFactCount :: int where "GenesisFactCount = 39"

definition matchesGenesisFact :: "rawFact option \<Rightarrow> int \<Rightarrow> int \<Rightarrow> sval \<Rightarrow> tag \<Rightarrow> bool" where
  "matchesGenesisFact found entity attribute value t \<longleftrightarrow>
    (case found of
       None \<Rightarrow> False
     | Some f \<Rightarrow> rf_e f = entity \<and> rf_a f = attribute \<and> rf_v f = value \<and> rf_t f = t \<and> rf_tx f = GenesisTx \<and> live f)"

text \<open>The facts that the genesis transaction makes after its receipt, by fact id.\<close>

definition genesis_facts :: "(int \<times> int \<times> int \<times> sval \<times> tag) list" where
  "genesis_facts =
    map (\<lambda>i. (int i + 1, int i, 8, SText (systemTypes ! i), TagText)) [1..<length systemTypes]
    @ map (\<lambda>i. (int i + int (length systemTypes), int i, 10, SText (systemDocs ! i), TagText)) [1..<length systemDocs]
    @ [(38, 16, 5, SInt 1, TagBool), (39, 17, 5, SInt 1, TagBool)]"

definition countInvalidGenesisFacts :: "tables \<Rightarrow> nat" where
  "countInvalidGenesisFacts tb =
    (let rows = select_facts (\<lambda>f. (2 \<le> rf_id f \<and> rf_id f \<le> GenesisFactCount)
           \<or> (rf_tx f = GenesisTx \<and> \<not> (1 \<le> rf_id f \<and> rf_id f \<le> GenesisFactCount))) tb in
     count_rows (\<lambda>(i, e, a, v, t). \<not> matchesGenesisFact (find (\<lambda>f. rf_id f = i) rows) e a v t) genesis_facts
     + count_rows (\<lambda>f. rf_id f \<notin> set (map fst genesis_facts)) rows)"

subsection \<open>Values and blobs\<close>

definition validPhysicalValue :: "tag \<Rightarrow> sval \<Rightarrow> bool" where
  "validPhysicalValue t v =
    (case t of
       TagRef \<Rightarrow> (case v of SInt n \<Rightarrow> n > 0 | _ \<Rightarrow> False)
     | TagBool \<Rightarrow> (case v of SInt n \<Rightarrow> n = 0 \<or> n = 1 | _ \<Rightarrow> False)
     | TagInt \<Rightarrow> (case v of SInt n \<Rightarrow> True | _ \<Rightarrow> False)
     | TagFloat \<Rightarrow> (case v of SReal x \<Rightarrow> \<not> IsNaN x \<and> \<not> IsInf x | _ \<Rightarrow> False)
     | TagText \<Rightarrow> (case v of SText s \<Rightarrow> length s \<le> BlobThreshold \<and> ValidString s | _ \<Rightarrow> False)
     | TagInstant \<Rightarrow> (case v of SInt n \<Rightarrow> minInstantMicros \<le> n \<and> n \<le> maxInstantMicros | _ \<Rightarrow> False)
     | TagBytes \<Rightarrow> (case v of SBlob b \<Rightarrow> length b \<le> BlobThreshold | _ \<Rightarrow> False)
     | TagJSON \<Rightarrow>
        (case v of
           SText s \<Rightarrow> length s \<le> MaxValueBytes \<and> ValidString s
             \<and> (case decodeInternalJSON s of Inl _ \<Rightarrow> False | Inr decoded \<Rightarrow> canonicalJSON decoded = Inr s)
         | _ \<Rightarrow> False)
     | _ \<Rightarrow> True)"

definition missing_blob :: "tables \<Rightarrow> rawFact \<Rightarrow> bool" where
  "missing_blob tb f \<longleftrightarrow> indirect_tag (rf_t f) \<and> \<not> list_ex (\<lambda>(h, _). sql_eq (SBlob h) (rf_v f)) (tb_blobs tb)"

definition invalid_blob :: "tables \<Rightarrow> string \<times> sval \<Rightarrow> bool" where
  "invalid_blob tb = (\<lambda>(h, data).
     list_ex (\<lambda>f. indirect_tag (rf_t f) \<and> sql_eq (rf_v f) (SBlob h) \<and> \<not> validIndirectBlob (rf_t f) (SBlob h) data) (tb_facts tb))"

definition orphaned :: "tables \<Rightarrow> string \<times> sval \<Rightarrow> bool" where
  "orphaned tb = (\<lambda>(h, _). \<not> list_ex (\<lambda>f. indirect_tag (rf_t f) \<and> sql_eq (rf_v f) (SBlob h)) (tb_facts tb))"

definition invalid_interval :: "rawFact \<Rightarrow> bool" where
  "invalid_interval f \<longleftrightarrow> (case rf_rx f of None \<Rightarrow> False | Some rx \<Rightarrow> rx \<le> rf_tx f)"

subsection \<open>Retained events\<close>

definition exactKeys :: "fields \<Rightarrow> string list \<Rightarrow> bool" where
  "exactKeys rec names \<longleftrightarrow> length rec = length names \<and> list_all (\<lambda>n. map_of rec n \<noteq> None) names"

text \<open>The targets of a redaction: UUIDs in strictly ascending order.\<close>

fun ascending_uuids :: "string option \<Rightarrow> any list \<Rightarrow> string list option" where
  "ascending_uuids prev [] = Some []"
| "ascending_uuids prev (AStr target # items) =
    (if \<not> isl (parseUUID target) \<and> (case prev of None \<Rightarrow> True | Some l \<Rightarrow> l < target)
     then map_option ((#) target) (ascending_uuids (Some target) items) else None)"
| "ascending_uuids prev (_ # items) = None"

definition validateExcisionEventRecord :: "fields \<Rightarrow> string list option" where
  "validateExcisionEventRecord rec =
    (if \<not> exactKeys rec [''fgraph'', ''event'', ''at'', ''created'', ''asserted'', ''retracted'', ''redacted'', ''redacts''] then None
     else if event_field rec ''fgraph'' \<noteq> AStr ''event/1'' \<or> event_field rec ''redacted'' \<noteq> ABool True then None
     else if \<not> list_all (\<lambda>k. event_field rec k = AList []) [''created'', ''asserted'', ''retracted''] then None
     else case event_field rec ''redacts'' of AList raw \<Rightarrow> ascending_uuids None raw | _ \<Rightarrow> None)"

text \<open>
  The attributes of an event, and whether one of them deletes history. (The code looks at them in the order of a map;
  it stops at the first one that deletes history or has no name.)
\<close>

definition tuple_attribute :: "nat \<Rightarrow> nat \<Rightarrow> any \<Rightarrow> string list" where
  "tuple_attribute n i raw =
    (case raw of
       AList tuple \<Rightarrow> if length tuple = n then (case tuple ! i of AStr attr \<Rightarrow> [attr] | _ \<Rightarrow> []) else []
     | _ \<Rightarrow> [])"

definition field_attributes :: "nat \<Rightarrow> nat \<Rightarrow> any \<Rightarrow> string list" where
  "field_attributes n i v = (case v of AList tuples \<Rightarrow> concat (map (tuple_attribute n i) tuples) | _ \<Rightarrow> [])"

definition event_attributes :: "fields \<Rightarrow> string list" where
  "event_attributes rec =
    remdups (field_attributes 4 1 (event_field rec ''asserted'') @ field_attributes 4 1 (event_field rec ''retracted'')
      @ field_attributes 3 0 (event_field rec ''tx_facts''))"

definition keeps_no_history :: "tables \<Rightarrow> int \<Rightarrow> bool" where
  "keeps_no_history tb attr \<longleftrightarrow>
     list_ex (\<lambda>f. rf_e f = attr \<and> ((rf_a f = 7 \<and> rf_t f = TagBool \<and> sql_eq (rf_v f) (SInt 1))
       \<or> (rf_a f = 8 \<and> (rf_t f = TagText \<or> rf_t f = TagJSON) \<and> rf_v f = SText ''vector''))) (tb_facts tb)"

fun may_lose :: "tables \<Rightarrow> string list \<Rightarrow> bool res" where
  "may_lose tb [] = Inr False"
| "may_lose tb (attr # attrs) =
    (case find_name attr tb of
       None \<Rightarrow> wrap ErrFormat (Some External)
     | Some i \<Rightarrow> if keeps_no_history tb i then Inr True else may_lose tb attrs)"

definition eventMayLoseHistory :: "tables \<Rightarrow> fields \<Rightarrow> bool res" where
  "eventMayLoseHistory tb rec = may_lose tb (event_attributes rec)"

text \<open>The time that the event of a transaction carries: its own, or the original time of an imported one.\<close>

definition imported_at :: "tables \<Rightarrow> int \<Rightarrow> int option res" where
  "imported_at tb tx =
    (case find (\<lambda>f. rf_e f = tx \<and> rf_a f = 13 \<and> rf_tx f = tx) (tb_facts tb) of
       None \<Rightarrow> Inr None
     | Some f \<Rightarrow> (case rf_v f of SInt n \<Rightarrow> Inr (Some n) | _ \<Rightarrow> Inl External))"

definition has_marker :: "tables \<Rightarrow> int \<Rightarrow> bool" where
  "has_marker tb tx \<longleftrightarrow> list_ex (\<lambda>f. rf_e f = tx \<and> rf_a f = 11 \<and> rf_tx f = tx \<and> live f) (tb_facts tb)"

text \<open>The facts that are left must give the payload again, unless they may have been deleted.\<close>

definition reconstruct_event :: "store \<Rightarrow> int \<Rightarrow> int \<Rightarrow> string \<Rightarrow> fields \<Rightarrow> problem list" where
  "reconstruct_event s tx now data rec =
    (if tx = GenesisTx then []
     else case exportTransaction s tx now of
       Inl _ \<Rightarrow> [EventNotReconstructed tx]
     | Inr reconstructed \<Rightarrow>
        (case canonicalEventData reconstructed of
           Inl _ \<Rightarrow> [EventNotCanonical tx]
         | Inr (reconstructedData, _) \<Rightarrow>
            if reconstructedData = data then []
            else case eventMayLoseHistory (st_tables s) rec of
              Inl _ \<Rightarrow> [EventHistoryPolicy tx]
            | Inr mayLose \<Rightarrow> if mayLose then [] else [EventFactsDiffer tx]))"

text \<open>One event with a payload: its problems, and the events that it redacted.\<close>

definition inspect_payload :: "store \<Rightarrow> eventRow \<Rightarrow> string \<Rightarrow> string \<Rightarrow> problem list \<times> string list" where
  "inspect_payload s r eventID data =
    (let tb = st_tables s; tx = ev_tx r in
     case decodeStoredEventData data (ev_hash r) of
       Inl _ \<Rightarrow> ([EventPayload tx], [])
     | Inr rec \<Rightarrow>
        if event_field rec ''event'' \<noteq> AStr eventID then ([EventOtherIdentity tx], [])
        else case event_at tb tx of
          Inl _ \<Rightarrow> ([EventNoTimestamp tx], [])
        | Inr now \<Rightarrow>
           (case imported_at tb tx of
              Inl _ \<Rightarrow> ([EventOriginTimestamp tx], [])
            | Inr imported \<Rightarrow>
               if event_field rec ''at'' \<noteq> AInt64 (case imported of None \<Rightarrow> now | Some t \<Rightarrow> t) then ([EventTimestampDiffers tx], [])
               else if event_field rec ''redacted'' = ABool True then
                 (case validateExcisionEventRecord rec of
                    None \<Rightarrow> ([EventMalformedRedaction tx], [])
                  | Some targets \<Rightarrow> if has_marker tb tx then ([], targets) else ([EventNoMarker tx], []))
               else (reconstruct_event s tx now data rec, [])))"

text \<open>
  The state of the loop: the problems, the events without a payload, and the redactions by target. (The code keeps the
  last two in maps; here they are in the order of the events.)
\<close>

type_synonym inspection = "problem list \<times> (string \<times> int) list \<times> (string \<times> int) list"

definition inspect_event :: "store \<Rightarrow> eventRow \<Rightarrow> inspection \<Rightarrow> inspection" where
  "inspect_event s r = (\<lambda>(problems, nulls, redactions).
    case find_id (ev_tx r) (st_tables s) of
      None \<Rightarrow> (problems, nulls, redactions)
    | Some i \<Rightarrow>
       (case id_gid i of
          Some gid \<Rightarrow>
            if length gid \<noteq> 16 then (problems @ [EventWithoutUUID (ev_tx r)], nulls, redactions)
            else
              let eventID = formatUUID gid;
                  problems1 = problems @ (case ev_op r of None \<Rightarrow> []
                    | Some op \<Rightarrow> if isl (validateOperationID op) then [EventOperationID (ev_tx r)] else []) in
              (case ev_data r of
                 None \<Rightarrow> (problems1, AList.update eventID (ev_tx r) nulls, redactions)
               | Some data \<Rightarrow>
                  (case inspect_payload s r eventID data of (found, targets) \<Rightarrow>
                     (problems1 @ found, nulls, redactions @ map (\<lambda>target. (target, ev_tx r)) targets)))
        | None \<Rightarrow> (problems @ [EventWithoutUUID (ev_tx r)], nulls, redactions)))"

definition redaction_problems :: "(string \<times> int) list \<Rightarrow> (string \<times> int) list \<Rightarrow> string \<Rightarrow> problem list" where
  "redaction_problems nulls redactions target =
    (case map_of nulls target of
       None \<Rightarrow> [RedactedTargetKept target]
     | Some targetTx \<Rightarrow>
        concat (map (\<lambda>(t, tx). if t = target \<and> targetTx \<ge> tx then [RedactionNotPrior tx target] else []) redactions))"

definition inspectEventHashes :: "store \<Rightarrow> nat \<times> problem list" where
  "inspectEventHashes s =
    (case fold (inspect_event s) (sort_key ev_tx (tb_events (st_tables s))) ([], [], []) of (problems, nulls, redactions) \<Rightarrow>
       (length nulls,
        problems @ concat (map (redaction_problems nulls redactions) (remdups (map fst redactions)))
        @ concat (map (\<lambda>(target, _). if target \<in> set (map fst redactions) then [] else [PayloadMissing target]) nulls)))"

subsection \<open>Schemas and shapes\<close>

text \<open>
  The problems of one attribute: a declared type that is unknown or broken, more values than one, a unique attribute
  of an unfit type or with two owners of a value, dimensions that do not hold, a model without vectors.
\<close>

definition type_broken :: "attributeSchema \<Rightarrow> rawFact list \<Rightarrow> bool" where
  "type_broken sc facts \<longleftrightarrow> sc_type sc \<noteq> [] \<and>
     \<not> (parseTagName (sc_type sc) \<noteq> None \<and> sc_type sc \<noteq> ''text_ref'' \<and> sc_type sc \<noteq> ''bytes_ref''
        \<and> list_all (\<lambda>f. tagCompatible (sc_type sc) (rf_t f)) facts)"

definition many_broken :: "attributeSchema \<Rightarrow> rawFact list \<Rightarrow> bool" where
  "many_broken sc facts \<longleftrightarrow> \<not> sc_many sc \<and> \<not> distinct (map rf_e facts)"

text \<open>\<^verbatim>\<open>fmt.Sprintf("%d:%v", fact.t, storageKey(fact.v))\<close>: a blob counts as its hexadecimal text.\<close>

definition owner_key :: "rawFact \<Rightarrow> tag \<times> sval" where
  "owner_key f = (rf_t f, case rf_v f of SBlob b \<Rightarrow> SText (EncodeHex b) | v \<Rightarrow> v)"

definition owners_clash :: "rawFact list \<Rightarrow> bool" where
  "owners_clash facts \<longleftrightarrow> list_ex (\<lambda>f. list_ex (\<lambda>g. owner_key f = owner_key g \<and> rf_e f \<noteq> rf_e g) facts) facts"

definition dims_broken :: "tables \<Rightarrow> attributeSchema \<Rightarrow> rawFact list \<Rightarrow> bool" where
  "dims_broken tb sc facts \<longleftrightarrow> sc_dimsSet sc \<and>
     (sc_type sc \<noteq> ''vector'' \<or> sc_dims sc \<le> 0
      \<or> list_ex (\<lambda>f. rf_t f = TagVector \<and>
          (case logicalValue tb (rf_v f) (rf_t f) of Inr (AF32s ws) \<Rightarrow> int (length ws) \<noteq> sc_dims sc | _ \<Rightarrow> True)) facts)"

definition schema_problems :: "db \<Rightarrow> int \<Rightarrow> nat" where
  "schema_problems d attr =
    (case schemaFor d attr of
       Inl _ \<Rightarrow> 1
     | Inr sc \<Rightarrow>
        (let facts = select_facts (\<lambda>f. rf_a f = attr \<and> live f) (db_tables d) in
         count_rows id
           [type_broken sc facts, many_broken sc facts,
            sc_unique sc \<and> (sc_type sc = [] \<or> sc_type sc = ''json'' \<or> sc_type sc = ''vector''),
            sc_unique sc \<and> owners_clash facts, dims_broken (db_tables d) sc facts,
            sc_model sc \<noteq> [] \<and> sc_type sc \<noteq> ''vector'']))"

definition countGlobalSchemaProblems :: "db \<Rightarrow> nat" where
  "countGlobalSchemaProblems d =
    sum_list (map (schema_problems d) (sort (remdups (map rf_a (tb_facts (db_tables d))))))"

definition entity_violations :: "db \<Rightarrow> int \<Rightarrow> nat" where
  "entity_violations d entity = (case shapeIssues d [entity] of Inl _ \<Rightarrow> 1 | Inr issues \<Rightarrow> length issues)"

definition countGlobalShapeViolations :: "db \<Rightarrow> nat" where
  "countGlobalShapeViolations d =
    sum_list (map (entity_violations d)
      (sort (remdups (map rf_e (filter (\<lambda>f. rf_a f = 15 \<and> live f) (tb_facts (db_tables d)))))))"

subsection \<open>The full-text index\<close>

definition readFTSRows :: "tables \<Rightarrow> (int \<times> string) list" where
  "readFTSRows tb = sort_key fst (tb_fts tb)"

definition live_text :: "rawFact \<Rightarrow> bool" where
  "live_text f \<longleftrightarrow> live f \<and> (rf_t f = TagText \<or> rf_t f = TagTextRef)"

definition fts_source :: "tables \<Rightarrow> rawFact \<Rightarrow> sval" where
  "fts_source tb f =
    (if rf_t f = TagTextRef
     then (case find (\<lambda>(h, _). sql_eq (SBlob h) (rf_v f)) (tb_blobs tb) of None \<Rightarrow> SNull | Some (_, data) \<Rightarrow> data)
     else rf_v f)"

definition readExpectedFTSRows :: "tables \<Rightarrow> (int \<times> string) list res" where
  "readExpectedFTSRows tb =
    res_map (\<lambda>f. case fts_source tb f of SText text \<Rightarrow> Inr (rf_id f, text) | _ \<Rightarrow> fail ErrFormat) (select_facts live_text tb)"

subsection \<open>The report\<close>

text \<open>
  What SQLite itself answers: the messages of \<^verbatim>\<open>PRAGMA integrity_check\<close>, and whether the objects of the file are
  those of the format (\<^verbatim>\<open>validateSchemaLayoutOn\<close>).
\<close>

record physical =
  ph_integrity :: "string list"
  ph_layout :: "unit res"

definition integrity_problems :: "string list \<Rightarrow> problem list" where
  "integrity_problems messages = map IntegrityCheck (filter (\<lambda>m. m \<noteq> ''ok'') messages)"

definition identifier_problems :: "tables \<Rightarrow> problem list" where
  "identifier_problems tb =
    allocator_problems tb
    @ counted InvalidIdentityIDs (count_rows invalid_identity (tb_ids tb))
    @ counted InvalidSystemIdentities (countInvalidSystemIdentities tb)
    @ counted InvalidFactIdentifiers (count_rows invalid_fact (tb_facts tb))
    @ counted NamedTransactions (count_rows (named_transaction tb) (tb_ids tb))
    @ counted MissingAssertingTransactions (count_rows (\<lambda>f. \<not> has_event tb (rf_tx f)) (tb_facts tb))
    @ counted MissingRetractingTransactions (count_rows (missing_retraction tb) (tb_facts tb))"

definition registry_problems :: "tables \<Rightarrow> problem list" where
  "registry_problems tb =
    genesis_problems tb
    @ counted InvalidGenesisFacts (countInvalidGenesisFacts tb)
    @ counted MissingRegistry (missing_registry tb)
    @ counted InvalidTemporalIdentities (count_rows (invalid_registry_time tb) (tb_ids tb))
    @ counted InvalidEventRows (count_rows (invalid_event tb) (tb_events tb))
    @ counted DanglingAttributes (count_rows (\<lambda>f. \<not> registered tb (rf_a f)) (tb_facts tb))"

definition value_problems :: "tables \<Rightarrow> problem list" where
  "value_problems tb =
    counted InvalidPhysicalValues (count_rows (\<lambda>f. \<not> validPhysicalValue (rf_t f) (rf_v f)) (tb_facts tb))
    @ counted MissingBlobs (count_rows (missing_blob tb) (tb_facts tb))
    @ counted InvalidIndirectBlobs (count_rows (invalid_blob tb) (tb_blobs tb))"

definition doctorReport :: "physical \<Rightarrow> db \<Rightarrow> (DoctorReport \<times> problem list) res" where
  "doctorReport ph d =
    (let tb = db_tables d; (unverifiable, eventProblems) = inspectEventHashes (db_store d);
         schemaProblems = countGlobalSchemaProblems d; shapeViolations = countGlobalShapeViolations d;
         fatal = integrity_problems (ph_integrity ph) @ identifier_problems tb @ registry_problems tb @ value_problems tb
           @ counted InvalidIntervals (count_rows invalid_interval (tb_facts tb)) @ eventProblems
           @ counted SchemaInvariants schemaProblems @ counted ShapeInvariants shapeViolations;
         orphans = count_rows (orphaned tb) (tb_blobs tb); actual = readFTSRows tb; unsafe = value_problems tb \<noteq> [] in
     res_bind (if unsafe then Inr [] else readExpectedFTSRows tb) (\<lambda>expected.
       let repairs = (if unsafe \<or> actual \<noteq> expected then [FullTextDiffers] else []) @ counted OrphanedBlobsFound orphans in
       Inr (\<lparr>dr_integrity = (case ph_integrity ph of [] \<Rightarrow> ''missing result'' | m # _ \<Rightarrow> m), dr_problems = fatal @ repairs,
             dr_ftsRows = length actual, dr_expectedFTSRows = count_rows live_text (tb_facts tb), dr_orphanedBlobs = orphans,
             dr_ftsRowsRebuilt = 0, dr_orphanedBlobsRemoved = 0, dr_unverifiableEvents = unverifiable,
             dr_schemaProblems = schemaProblems, dr_shapeViolations = shapeViolations, dr_ok = (fatal @ repairs = []),
             dr_repairNeeded = (repairs \<noteq> []), dr_repaired = False\<rparr>, fatal)))"

subsection \<open>Repairs\<close>

text \<open>
  The rebuilt index. (The report before the repair found every source to be a text: a file where one is not has a
  fatal problem.)
\<close>

definition rebuild_fts :: "tables \<Rightarrow> tables" where
  "rebuild_fts tb =
    tb\<lparr>tb_fts := concat (map (\<lambda>f. case fts_source tb f of SText text \<Rightarrow> [(rf_id f, text)] | _ \<Rightarrow> []) (select_facts live_text tb))\<rparr>"

definition repair_tables :: "tables \<Rightarrow> tables" where
  "repair_tables tb = delete_orphans (rebuild_fts tb)"

text \<open>\<^verbatim>\<open>Doctor\<close> with and without a repair; an error of the repair rolls it back.\<close>

definition Doctor :: "physical \<Rightarrow> db \<Rightarrow> bool list \<Rightarrow> DoctorReport res \<times> db" where
  "Doctor ph d repair =
    (if length repair > 1 then (fail ErrType, d)
     else
       let requested = (repair = [True]) in
       case res_bind (checkUsable requested d) (\<lambda>_. res_bind (ph_layout ph) (\<lambda>_. doctorReport ph d)) of
         Inl e \<Rightarrow> (Inl e, d)
       | Inr (before, fatal) \<Rightarrow>
          if \<not> requested then (Inr before, d)
          else if fatal \<noteq> [] then (fail ErrFormat, d)
          else
            let d' = d\<lparr>db_store := (db_store d)\<lparr>st_tables := repair_tables (db_tables d)\<rparr>\<rparr> in
            case doctorReport ph d' of
              Inl e \<Rightarrow> (Inl e, d)
            | Inr (report, fatal') \<Rightarrow>
               if fatal' \<noteq> [] \<or> dr_repairNeeded report then (fail ErrFormat, d)
               else (Inr (report\<lparr>dr_repaired := True, dr_ftsRowsRebuilt := dr_expectedFTSRows before,
                            dr_orphanedBlobsRemoved := count_rows (orphaned (db_tables d)) (tb_blobs (db_tables d))\<rparr>), d'))"

end
