(* ===== verification/Snapshot.thy ===== *)
theory Snapshot
  imports Apply Doctor
begin

text \<open>
  Portable snapshots (snapshot.go): a header, a receipt per transaction, the retained facts and a footer with the
  SHA-256 of all that precedes it, as lines of canonical JSON; and their restoration into a pristine database, in one
  transaction that ends with the checks of the doctor.
\<close>

definition maxPortableSnapshotLineBytes :: nat where
  "maxPortableSnapshotLineBytes = 2 * maxPortableLineBytes + 64 * 1024"

subsection \<open>Writing\<close>

text \<open>An \<^verbatim>\<open>io.Writer\<close>: the bytes that it took, and how many more it takes before it fails, if it does.\<close>

record writer =
  wr_bytes :: string
  wr_room :: "nat option"

definition writeFull :: "string \<Rightarrow> writer \<Rightarrow> writer res" where
  "writeFull value w =
    (case wr_room w of
       None \<Rightarrow> Inr (w\<lparr>wr_bytes := wr_bytes w @ value\<rparr>)
     | Some n \<Rightarrow>
        if length value \<le> n then Inr (w\<lparr>wr_bytes := wr_bytes w @ value, wr_room := Some (n - length value)\<rparr>)
        else Inl External)"

text \<open>A record of the body, with the text that was hashed so far.\<close>

definition write_body :: "any \<Rightarrow> writer \<times> string \<Rightarrow> (writer \<times> string) res" where
  "write_body rec = (\<lambda>(w, hashed).
    res_bind (canonicalJSON rec) (\<lambda>encoded.
      if length encoded > maxPortableSnapshotLineBytes then fail ErrTooLarge
      else
        res_bind (res_wrap ErrFormat (writeFull (encoded @ [CHR 0x0A]) w)) (\<lambda>w'.
          Inr (w', hashed @ encoded @ [CHR 0x0A]))))"

definition createdSelectors :: "tables \<Rightarrow> int \<Rightarrow> any list res" where
  "createdSelectors tb tx =
    res_map (\<lambda>r. identitySelector tb (id_id r)) (sort_key id_id (filter (\<lambda>r. id_created r = tx \<and> id_id r \<noteq> tx) (tb_ids tb)))"

definition snapshot_receipt :: "tables \<Rightarrow> eventRow \<times> string \<Rightarrow> any res" where
  "snapshot_receipt tb = (\<lambda>(r, gid).
    if length (ev_hash r) \<noteq> 32 \<or> length gid \<noteq> 16 \<or> (case ev_req r of None \<Rightarrow> False | Some h \<Rightarrow> length h \<noteq> 32) then fail ErrFormat
    else
      res_bind (event_at tb (ev_tx r)) (\<lambda>now.
      res_bind (res_wrap ErrFormat (imported_at tb (ev_tx r))) (\<lambda>imported.
      res_bind (createdSelectors tb (ev_tx r)) (\<lambda>created.
      res_bind (case ev_data r of
          None \<Rightarrow> Inr ANil
        | Some data \<Rightarrow> res_wrap ErrFormat (res_bind (decodeStoredEventData data (ev_hash r)) (\<lambda>rec. Inr (AMap rec)))) (\<lambda>portableData.
        Inr (AMap [(''receipt'', AMap
          [(''event'', AStr (formatUUID gid)), (''at'', AInt64 now),
           (''origin_at'', AInt64 (case imported of None \<Rightarrow> now | Some t \<Rightarrow> t)), (''event_hash'', AStr (EncodeHex (ev_hash r))),
           (''event_data'', portableData), (''operation_id'', case ev_op r of None \<Rightarrow> ANil | Some op \<Rightarrow> AStr op),
           (''request_hash'', case ev_op r of None \<Rightarrow> ANil
              | Some _ \<Rightarrow> AStr (EncodeHex (case ev_req r of None \<Rightarrow> [] | Some h \<Rightarrow> h))),
           (''created'', AList created)])]))))))"

text \<open>The events after genesis up to the basis, joined with their identities.\<close>

definition receipt_rows :: "tables \<Rightarrow> int \<Rightarrow> (eventRow \<times> string) list" where
  "receipt_rows tb basis =
    concat (map (\<lambda>r. case find_id (ev_tx r) tb of None \<Rightarrow> [] | Some i \<Rightarrow> [(r, case id_gid i of None \<Rightarrow> [] | Some g \<Rightarrow> g)])
      (sort_key ev_tx (filter (\<lambda>r. GenesisTx < ev_tx r \<and> ev_tx r \<le> basis) (tb_events tb))))"

definition write_all :: "('a \<Rightarrow> any res) \<Rightarrow> 'a list \<Rightarrow> writer \<times> string \<Rightarrow> (writer \<times> string) res" where
  "write_all rec = res_fold (\<lambda>x st. res_bind (rec x) (\<lambda>v. write_body v st))"

definition snapshotReceipts :: "tables \<Rightarrow> int \<Rightarrow> writer \<times> string \<Rightarrow> (nat \<times> writer \<times> string) res" where
  "snapshotReceipts tb basis st =
    res_bind (write_all (snapshot_receipt tb) (receipt_rows tb basis) st) (\<lambda>st'. Inr (length (receipt_rows tb basis), st'))"

definition snapshot_fact :: "store \<Rightarrow> int \<Rightarrow> rawFact \<Rightarrow> any res" where
  "snapshot_fact s basis f =
    (let tb = st_tables s in
     res_bind (logicalValue tb (rf_v f) (rf_t f)) (\<lambda>logical.
     res_bind (exportTuple s f logical) (\<lambda>tuple.
     res_bind (eventIDForTx tb (rf_tx f)) (\<lambda>assertEvent.
     res_bind (case rf_rx f of
         None \<Rightarrow> Inr ANil
       | Some rx \<Rightarrow> if rx \<le> basis then res_bind (eventIDForTx tb rx) (\<lambda>e. Inr (AStr e)) else Inr ANil) (\<lambda>retractEvent.
       Inr (AMap [(''fact'', AList ((case tuple of AList xs \<Rightarrow> xs | _ \<Rightarrow> []) @ [AStr assertEvent, retractEvent]))]))))))"

definition snapshotFacts :: "store \<Rightarrow> int \<Rightarrow> writer \<times> string \<Rightarrow> (nat \<times> writer \<times> string) res" where
  "snapshotFacts s basis st =
    (let facts = select_facts (\<lambda>f. GenesisTx < rf_tx f \<and> rf_tx f \<le> basis) (st_tables s) in
     res_bind (write_all (snapshot_fact s basis) facts st) (\<lambda>st'. Inr (length facts, st')))"

definition snapshot_footer :: "string \<Rightarrow> nat \<Rightarrow> nat \<Rightarrow> any" where
  "snapshot_footer hashed receipts facts =
    AMap [(''fgraph'', AStr ''end''), (''sha256'', AStr (EncodeHex (sha256 hashed))),
          (''receipts'', AInt64 (int receipts)), (''facts'', AInt64 (int facts))]"

definition snapshot_on :: "writer \<Rightarrow> db \<Rightarrow> writer res" where
  "snapshot_on w d =
    (let tb = db_tables d; basis = view_basis d in
     res_bind (eventIDForTx tb basis) (\<lambda>basisEvent.
     res_bind (write_body (AMap [(''fgraph'', AStr ''snapshot/1''), (''format'', AInt64 FormatVersion),
         (''created_at'', AInt64 (tb_created_at tb)), (''basis'', AStr basisEvent)]) (w, [])) (\<lambda>st0.
     res_bind (snapshotReceipts tb basis st0) (\<lambda>(receipts, st1).
     res_bind (snapshotFacts (db_store d) basis st1) (\<lambda>(facts, w2, hashed).
     res_bind (canonicalJSON (snapshot_footer hashed receipts facts)) (\<lambda>footer.
       res_wrap ErrFormat (writeFull (footer @ [CHR 0x0A]) w2)))))))"

definition Snapshot :: "db \<Rightarrow> writer option \<Rightarrow> writer res \<times> db" where
  "Snapshot d w = (case w of None \<Rightarrow> (fail ErrType, d) | Some w0 \<Rightarrow> withRead d (snapshot_on w0))"

subsection \<open>The state of a restoration\<close>

record snapshotReceipt =
  rc_event :: string
  rc_at :: int
  rc_originAt :: int

record snapshotRestoreState =
  rs_identities :: "(string \<times> int) list"
  rs_events :: "(string \<times> int) list"
  rs_receipts :: "(int \<times> snapshotReceipt) list"
  rs_lastEvent :: string
  rs_next :: int
  rs_receiptN :: int
  rs_factN :: int
  rs_phaseFacts :: bool

definition snapshotSelectorKey :: "any \<Rightarrow> string res" where
  "snapshotSelectorKey selector =
    (case selector of
       AStr name \<Rightarrow> res_bind (validateName name False) (\<lambda>_. Inr (''name:'' @ name))
     | _ \<Rightarrow> res_bind (selectorUUID selector) (\<lambda>(eid, _). Inr (''eid:'' @ eid)))"

definition row_selector :: "idRow \<Rightarrow> any" where
  "row_selector r =
    (case id_name r of
       Some name \<Rightarrow> AStr name
     | None \<Rightarrow> AMap [(''eid'', AStr (formatUUID (take 16 ((case id_gid r of None \<Rightarrow> [] | Some g \<Rightarrow> g) @ replicate 16 (CHR 0x00)))))])"

definition newSnapshotRestoreState :: "tables \<Rightarrow> snapshotRestoreState res" where
  "newSnapshotRestoreState tb =
    res_bind (res_fold (\<lambda>r known. res_bind (snapshotSelectorKey (row_selector r)) (\<lambda>key. Inr (AList.update key (id_id r) known)))
      (sort_key id_id (tb_ids tb)) []) (\<lambda>known.
      Inr \<lparr>rs_identities = known, rs_events = [(genesisEventID, GenesisTx)], rs_receipts = [], rs_lastEvent = [],
           rs_next = FirstUserID, rs_receiptN = 0, rs_factN = 0, rs_phaseFacts = False\<rparr>)"

definition resolveSelector :: "snapshotRestoreState \<Rightarrow> any \<Rightarrow> int res" where
  "resolveSelector rs selector =
    res_bind (snapshotSelectorKey selector) (\<lambda>key.
      case map_of (rs_identities rs) key of None \<Rightarrow> fail ErrNotFound | Some i \<Rightarrow> Inr i)"

text \<open>\<^verbatim>\<open>hex.DecodeString\<close> refuses whatever \<^verbatim>\<open>strings.ToLower\<close> would change but for the letters A to F.\<close>

definition decodeLowerHex :: "any \<Rightarrow> nat \<Rightarrow> string res" where
  "decodeLowerHex value n =
    (case value of
       AStr t \<Rightarrow>
         if length t \<noteq> n * 2 \<or> has_upper t then fail ErrType
         else (case DecodeHex t of None \<Rightarrow> fail ErrType | Some decoded \<Rightarrow> Inr decoded)
     | _ \<Rightarrow> fail ErrType)"

subsection \<open>The header\<close>

text \<open>\<^verbatim>\<open>UPDATE fgraph_facts SET v=?\<close>, under the unique index of the live rows.\<close>

fun unique_live :: "rawFact list \<Rightarrow> bool" where
  "unique_live [] \<longleftrightarrow> True"
| "unique_live (f # fs) \<longleftrightarrow>
    \<not> list_ex (\<lambda>g. live f \<and> live g \<and> rf_e f = rf_e g \<and> rf_a f = rf_a g \<and> rf_t f = rf_t g \<and> sql_eq (rf_v f) (rf_v g)) fs
    \<and> unique_live fs"

definition update_genesis_time :: "int \<Rightarrow> tables \<Rightarrow> tables res" where
  "update_genesis_time now tb =
    (let facts = map (\<lambda>f. if rf_e f = GenesisTx \<and> rf_a f = 1 \<and> rf_tx f = GenesisTx then f\<lparr>rf_v := SInt now\<rparr> else f) (tb_facts tb) in
     if unique_live facts then Inr (tb\<lparr>tb_facts := facts\<rparr>) else Inl External)"

definition update_genesis_event :: "string \<Rightarrow> string \<Rightarrow> tables \<Rightarrow> tables res" where
  "update_genesis_event data hash tb =
    (if length hash \<noteq> 32 then Inl External
     else Inr (tb\<lparr>tb_events := map (\<lambda>r. if ev_tx r = GenesisTx then r\<lparr>ev_hash := hash, ev_data := Some data\<rparr> else r) (tb_events tb)\<rparr>))"

definition restoreSnapshotHeader :: "tables \<Rightarrow> fields \<Rightarrow> (string \<times> tables) res" where
  "restoreSnapshotHeader tb rec =
    (if \<not> exactKeys rec [''fgraph'', ''format'', ''created_at'', ''basis''] \<or> event_field rec ''fgraph'' \<noteq> AStr ''snapshot/1''
        \<or> event_field rec ''format'' \<noteq> AInt64 FormatVersion then fail ErrType
     else
       res_bind (case event_field rec ''created_at'' of ANum k n \<Rightarrow> if k = KInt64 then Inr n else fail ErrType | _ \<Rightarrow> fail ErrType) (\<lambda>createdAt.
       res_bind (validateInstantMicros createdAt) (\<lambda>_.
       res_bind (case event_field rec ''basis'' of AStr b \<Rightarrow> Inr b | _ \<Rightarrow> fail ErrType) (\<lambda>basis.
       res_bind (parseUUID basis) (\<lambda>_.
       res_bind (genesisEventData createdAt) (\<lambda>(genesisData, genesisHash).
       res_bind (res_wrap ErrFormat (update_genesis_time createdAt (tb\<lparr>tb_created_at := createdAt\<rparr>))) (\<lambda>tb1.
       res_bind (res_wrap ErrFormat (update_genesis_event genesisData genesisHash tb1)) (\<lambda>tb2.
         Inr (basis, tb2)))))))))"

subsection \<open>Receipts\<close>

text \<open>What a receipt says, after its own checks.\<close>

record parsedReceipt =
  pr_event :: string
  pr_uuid :: string
  pr_at :: int
  pr_originAt :: int
  pr_hash :: string
  pr_data :: "(string \<times> fields) option"
  pr_operation :: "(string \<times> string) option"
  pr_created :: "any list"

definition int_field :: "fields \<Rightarrow> string \<Rightarrow> int res" where
  "int_field rec k = (case event_field rec k of ANum kind n \<Rightarrow> if kind = KInt64 then Inr n else fail ErrType | _ \<Rightarrow> fail ErrType)"

definition receipt_data :: "fields \<Rightarrow> string \<Rightarrow> (string \<times> fields) option res" where
  "receipt_data receipt eventHash =
    (if event_field receipt ''event_data'' = ANil then Inr None
     else case objectMap (event_field receipt ''event_data'') of
       None \<Rightarrow> fail ErrType
     | Some rec \<Rightarrow>
         res_bind (canonicalEventData (AMap rec)) (\<lambda>(canonical, digest).
           if digest \<noteq> eventHash then fail ErrConflict else Inr (Some (canonical, rec))))"

definition receipt_operation :: "fields \<Rightarrow> (string \<times> string) option res" where
  "receipt_operation receipt =
    (if event_field receipt ''operation_id'' = ANil \<and> event_field receipt ''request_hash'' = ANil then Inr None
     else case event_field receipt ''operation_id'' of
       AStr operation \<Rightarrow>
         res_bind (validateOperationID operation) (\<lambda>_.
         res_bind (decodeLowerHex (event_field receipt ''request_hash'') 32) (\<lambda>request. Inr (Some (operation, request))))
     | _ \<Rightarrow> fail ErrType)"

text \<open>The payload must agree with its receipt on the identity, the origin time and the created identities.\<close>

definition payload_agrees :: "string \<Rightarrow> int \<Rightarrow> any list \<Rightarrow> (string \<times> fields) option \<Rightarrow> unit res" where
  "payload_agrees eventID originAt created data =
    (case data of
       None \<Rightarrow> Inr ()
     | Some (_, rec) \<Rightarrow>
        if event_field rec ''event'' \<noteq> AStr eventID \<or> event_field rec ''at'' \<noteq> AInt64 originAt then fail ErrConflict
        else case event_field rec ''created'' of
          AList payloadCreated \<Rightarrow>
            (case (canonicalJSON (AList payloadCreated), canonicalJSON (AList created)) of
               (Inr payloadJSON, Inr receiptJSON) \<Rightarrow> if payloadJSON = receiptJSON then Inr () else fail ErrConflict
             | _ \<Rightarrow> fail ErrConflict)
        | _ \<Rightarrow> fail ErrType)"

definition parse_receipt :: "snapshotRestoreState \<Rightarrow> fields \<Rightarrow> parsedReceipt res" where
  "parse_receipt rs wrapper =
    (if \<not> exactKeys wrapper [''receipt''] then fail ErrType
     else case objectMap (event_field wrapper ''receipt'') of
       None \<Rightarrow> fail ErrType
     | Some receipt \<Rightarrow>
        if \<not> exactKeys receipt [''event'', ''at'', ''origin_at'', ''event_hash'', ''event_data'', ''operation_id'', ''request_hash'', ''created'']
        then fail ErrType
        else
          res_bind (case event_field receipt ''event'' of AStr e \<Rightarrow> Inr e | _ \<Rightarrow> fail ErrType) (\<lambda>eventID.
          res_bind (parseUUID eventID) (\<lambda>eventUUID.
          if map_of (rs_events rs) eventID \<noteq> None then fail ErrConflict
          else
            res_bind (int_field receipt ''at'') (\<lambda>now.
            res_bind (int_field receipt ''origin_at'') (\<lambda>originAt.
            res_bind (validateInstantMicros now) (\<lambda>_.
            res_bind (validateInstantMicros originAt) (\<lambda>_.
            res_bind (decodeLowerHex (event_field receipt ''event_hash'') 32) (\<lambda>eventHash.
            res_bind (receipt_data receipt eventHash) (\<lambda>data.
            res_bind (receipt_operation receipt) (\<lambda>operation.
            res_bind (case event_field receipt ''created'' of AList xs \<Rightarrow> Inr xs | _ \<Rightarrow> fail ErrType) (\<lambda>created.
            res_bind (payload_agrees eventID originAt created data) (\<lambda>_.
              Inr \<lparr>pr_event = eventID, pr_uuid = eventUUID, pr_at = now, pr_originAt = originAt, pr_hash = eventHash,
                   pr_data = data, pr_operation = operation, pr_created = created\<rparr>))))))))))))"

text \<open>The created identities take the next ids, then the transaction.\<close>

definition reserve_identity ::
    "any \<Rightarrow> snapshotRestoreState \<times> (any \<times> int) list \<Rightarrow> (snapshotRestoreState \<times> (any \<times> int) list) res" where
  "reserve_identity selector = (\<lambda>(rs, reserved).
    res_bind (snapshotSelectorKey selector) (\<lambda>key.
      if map_of (rs_identities rs) key \<noteq> None then fail ErrConflict
      else
        Inr (rs\<lparr>rs_identities := AList.update key (rs_next rs) (rs_identities rs), rs_next := i64_add (rs_next rs) 1\<rparr>,
             reserved @ [(selector, rs_next rs)])))"

definition install_identity :: "int \<Rightarrow> any \<times> int \<Rightarrow> tables \<Rightarrow> tables res" where
  "install_identity tx = (\<lambda>(selector, i) tb.
    case selector of
      AStr name \<Rightarrow> res_wrap ErrConflict (insert_id \<lparr>id_id = i, id_name = Some name, id_gid = None, id_created = tx\<rparr> tb)
    | _ \<Rightarrow>
        res_bind (selectorUUID selector) (\<lambda>(_, gid).
          res_wrap ErrConflict (insert_id \<lparr>id_id = i, id_name = None, id_gid = Some gid, id_created = tx\<rparr> tb)))"

definition restoreSnapshotReceipt ::
    "snapshotRestoreState \<times> tables \<Rightarrow> fields \<Rightarrow> (snapshotRestoreState \<times> tables) res" where
  "restoreSnapshotReceipt = (\<lambda>(rs, tb) wrapper.
    res_bind (parse_receipt rs wrapper) (\<lambda>p.
    res_bind (res_fold reserve_identity (pr_created p) (rs, [])) (\<lambda>(rs1, reserved).
    let tx = rs_next rs1 in
    res_bind (res_fold (install_identity tx) reserved tb) (\<lambda>tb1.
    res_bind (res_wrap ErrConflict (insert_id \<lparr>id_id = tx, id_name = None, id_gid = Some (pr_uuid p), id_created = tx\<rparr> tb1)) (\<lambda>tb2.
    res_bind (res_wrap ErrConflict (insert_event
        \<lparr>ev_tx = tx, ev_hash = pr_hash p, ev_data = map_option fst (pr_data p), ev_op = map_option fst (pr_operation p),
         ev_req = map_option snd (pr_operation p)\<rparr> tb2)) (\<lambda>tb3.
      Inr (rs1\<lparr>rs_next := i64_add tx 1, rs_identities := AList.update (''eid:'' @ pr_event p) tx (rs_identities rs1),
               rs_events := AList.update (pr_event p) tx (rs_events rs1),
               rs_receipts := AList.update tx \<lparr>rc_event = pr_event p, rc_at = pr_at p, rc_originAt = pr_originAt p\<rparr> (rs_receipts rs1),
               rs_lastEvent := pr_event p, rs_receiptN := rs_receiptN rs1 + 1\<rparr>,
           tb3)))))))"

subsection \<open>Facts\<close>

definition snapshotStoredValue :: "any \<Rightarrow> string \<Rightarrow> snapshotRestoreState \<Rightarrow> storedValue res" where
  "snapshotStoredValue value t rs =
    (if t = ''ref'' then
       (case objectFields value of
          Some [(name, v)] \<Rightarrow>
            if name \<noteq> ''ref'' then fail ErrType
            else res_bind (resolveSelector rs v) (\<lambda>ref. Inr (stored (AInt64 ref) (SInt ref) TagRef))
        | _ \<Rightarrow> fail ErrType)
     else
       res_bind (taggedInput value t) (\<lambda>input.
       res_bind (scalarValue input) (\<lambda>v. if logicalTag (sv_tag v) \<noteq> t then fail ErrType else Inr v)))"

text \<open>\<^verbatim>\<open>UPDATE fgraph_facts SET rx=? WHERE id=?\<close>\<close>

definition close_fact :: "int \<Rightarrow> int \<Rightarrow> tables \<Rightarrow> tables" where
  "close_fact rx i tb = tb\<lparr>tb_facts := map (\<lambda>f. if rf_id f = i then f\<lparr>rf_rx := Some rx\<rparr> else f) (tb_facts tb)\<rparr>"

definition restore_retraction :: "snapshotRestoreState \<Rightarrow> any \<Rightarrow> int \<Rightarrow> int \<Rightarrow> tag \<Rightarrow> tables \<Rightarrow> tables res" where
  "restore_retraction rs retraction tx i t tb =
    (case retraction of
       ANil \<Rightarrow> Inr tb
     | AStr retractEvent \<Rightarrow>
        (case map_of (rs_events rs) retractEvent of
           None \<Rightarrow> fail ErrConflict
         | Some rx \<Rightarrow>
            if rx \<le> tx then fail ErrConflict
            else Inr (if t = TagText \<or> t = TagTextRef then delete_fts i (close_fact rx i tb) else close_fact rx i tb))
     | _ \<Rightarrow> fail ErrType)"

definition restoreSnapshotFact ::
    "snapshotRestoreState \<times> tables \<Rightarrow> fields \<Rightarrow> (snapshotRestoreState \<times> tables) res" where
  "restoreSnapshotFact = (\<lambda>(rs, tb) wrapper.
    if \<not> exactKeys wrapper [''fact''] then fail ErrType
    else case event_field wrapper ''fact'' of
      AList [selector, a, v, t, assertion, retraction] \<Rightarrow>
        res_bind (resolveSelector rs selector) (\<lambda>entity.
        res_bind (resolveSelector rs a) (\<lambda>attribute.
        case (a, t, assertion) of
          (AStr attr, AStr tagName, AStr assertEvent) \<Rightarrow>
            (case map_of (rs_events rs) assertEvent of
               None \<Rightarrow> fail ErrNotFound
             | Some tx \<Rightarrow>
                if tx = GenesisTx then fail ErrNotFound
                else
                  res_bind (snapshotStoredValue v tagName rs) (\<lambda>value.
                  res_bind (insertFact tx (planned entity attribute attr value 0) tb) (\<lambda>(i, tb1).
                  res_bind (restore_retraction rs retraction tx i (sv_tag value) tb1) (\<lambda>tb2.
                    Inr (rs\<lparr>rs_factN := rs_factN rs + 1\<rparr>, tb2)))))
        | _ \<Rightarrow> fail ErrType))
    | _ \<Rightarrow> fail ErrType)"

subsection \<open>The stream\<close>

definition validateSnapshotFooter :: "fields \<Rightarrow> string \<Rightarrow> snapshotRestoreState \<Rightarrow> unit res" where
  "validateSnapshotFooter rec hashed rs =
    (if \<not> exactKeys rec [''fgraph'', ''sha256'', ''receipts'', ''facts''] \<or> event_field rec ''fgraph'' \<noteq> AStr ''end'' then fail ErrType
     else
       res_bind (decodeLowerHex (event_field rec ''sha256'') 32) (\<lambda>want.
         if want \<noteq> sha256 hashed then fail ErrConflict
         else if event_field rec ''receipts'' \<noteq> AInt64 (rs_receiptN rs) \<or> event_field rec ''facts'' \<noteq> AInt64 (rs_factN rs)
         then fail ErrType else Inr ()))"

record restoration =
  rn_state :: snapshotRestoreState
  rn_tables :: tables
  rn_hashed :: string
  rn_header :: "string option"
  rn_footer :: bool

definition restore_body :: "fields \<Rightarrow> restoration \<Rightarrow> restoration res" where
  "restore_body rec rn =
    (case rn_header rn of
       None \<Rightarrow>
         res_bind (restoreSnapshotHeader (rn_tables rn) rec) (\<lambda>(basis, tb).
           Inr (rn\<lparr>rn_tables := tb, rn_header := Some basis\<rparr>))
     | Some _ \<Rightarrow>
        if map_of rec ''receipt'' \<noteq> None then
          (if rs_phaseFacts (rn_state rn) then fail ErrType
           else res_bind (restoreSnapshotReceipt (rn_state rn, rn_tables rn) rec) (\<lambda>(rs, tb).
             Inr (rn\<lparr>rn_state := rs, rn_tables := tb\<rparr>)))
        else if map_of rec ''fact'' \<noteq> None then
          res_bind (restoreSnapshotFact ((rn_state rn)\<lparr>rs_phaseFacts := True\<rparr>, rn_tables rn) rec) (\<lambda>(rs, tb).
            Inr (rn\<lparr>rn_state := rs, rn_tables := tb\<rparr>))
        else fail ErrType)"

definition restore_line :: "string \<Rightarrow> restoration \<Rightarrow> restoration res" where
  "restore_line raw rn =
    (if rn_footer rn then fail ErrType
     else
       res_bind (res_wrap ErrType (DecodeJSON raw)) (\<lambda>decoded.
       case objectMap decoded of
         None \<Rightarrow> fail ErrType
       | Some rec \<Rightarrow>
          if event_field rec ''fgraph'' = AStr ''end'' then
            (if rn_header rn = None then fail ErrType
             else res_bind (validateSnapshotFooter rec (rn_hashed rn) (rn_state rn)) (\<lambda>_. Inr (rn\<lparr>rn_footer := True\<rparr>)))
          else
            res_bind (canonicalJSON (AMap rec)) (\<lambda>canonical.
              restore_body rec (rn\<lparr>rn_hashed := rn_hashed rn @ canonical @ [CHR 0x0A]\<rparr>))))"

text \<open>The times of the receipts are those of the facts. (The code looks at the receipts in the order of a map.)\<close>

definition check_receipt_time :: "tables \<Rightarrow> int \<times> snapshotReceipt \<Rightarrow> unit res" where
  "check_receipt_time tb = (\<lambda>(tx, receipt).
    case event_at tb tx of
      Inl _ \<Rightarrow> fail ErrConflict
    | Inr now \<Rightarrow>
       if now \<noteq> rc_at receipt then fail ErrConflict
       else
         res_bind (res_wrap ErrFormat (imported_at tb tx)) (\<lambda>imported.
           if (case imported of None \<Rightarrow> now | Some t \<Rightarrow> t) \<noteq> rc_originAt receipt then fail ErrConflict else Inr ()))"

definition validateRestoredReceiptTimes :: "tables \<Rightarrow> snapshotRestoreState \<Rightarrow> unit res" where
  "validateRestoredReceiptTimes tb rs = res_bind (res_map (check_receipt_time tb) (rs_receipts rs)) (\<lambda>_. Inr ())"

definition restore_checked :: "physical \<Rightarrow> db \<Rightarrow> restoration \<Rightarrow> (unit \<times> store) res" where
  "restore_checked ph d rn =
    (let rs = rn_state rn in
     if rn_header rn = None \<or> \<not> rn_footer rn then fail ErrType
     else if rn_header rn \<noteq> Some (if rs_receiptN rs > 0 then rs_lastEvent rs else genesisEventID) then fail ErrConflict
     else
       let tb = (rn_tables rn)\<lparr>tb_next_id := map_option (\<lambda>_. rs_next rs) (tb_next_id (rn_tables rn))\<rparr> in
       res_bind (refreshNames ((db_store d)\<lparr>st_tables := tb, st_dataVersion := -1\<rparr>)) (\<lambda>s.
       res_bind (validateRestoredReceiptTimes tb rs) (\<lambda>_.
       res_bind (doctorReport ph (d\<lparr>db_store := s\<rparr>)) (\<lambda>(report, fatal).
         if fatal \<noteq> [] \<or> \<not> dr_ok report then fail ErrFormat else Inr ((), s)))))"

definition restoreSnapshotStream :: "physical \<Rightarrow> db \<Rightarrow> reader \<Rightarrow> (unit \<times> store) res" where
  "restoreSnapshotStream ph d rd =
    res_bind (newSnapshotRestoreState (db_tables d)) (\<lambda>rs.
    res_bind (each_line maxPortableSnapshotLineBytes restore_line rd
      \<lparr>rn_state = rs, rn_tables = db_tables d, rn_hashed = [], rn_header = None, rn_footer = False\<rparr>) (\<lambda>rn.
      restore_checked ph d rn))"

text \<open>The caches that a failing restoration leaves: they are reloaded only after the last line.\<close>

definition restore_left :: "db \<Rightarrow> reader \<Rightarrow> store" where
  "restore_left d rd =
    (case res_bind (newSnapshotRestoreState (db_tables d)) (\<lambda>rs.
          each_line maxPortableSnapshotLineBytes restore_line rd
            \<lparr>rn_state = rs, rn_tables = db_tables d, rn_hashed = [], rn_header = None, rn_footer = False\<rparr>) of
       Inl _ \<Rightarrow> db_store d
     | Inr rn \<Rightarrow>
        let rs = rn_state rn; tb = (rn_tables rn)\<lparr>tb_next_id := map_option (\<lambda>_. rs_next rs) (tb_next_id (rn_tables rn))\<rparr> in
        if rn_header rn = None \<or> \<not> rn_footer rn
           \<or> rn_header rn \<noteq> Some (if rs_receiptN rs > 0 then rs_lastEvent rs else genesisEventID) then db_store d
        else (case refreshNames ((db_store d)\<lparr>st_tables := tb, st_dataVersion := -1\<rparr>) of Inl _ \<Rightarrow> db_store d | Inr s \<Rightarrow> s))"

definition RestoreCommitting :: "bool \<Rightarrow> physical \<Rightarrow> db \<Rightarrow> reader option \<Rightarrow> unit res \<times> db" where
  "RestoreCommitting commits ph d reader =
    (case reader of
       None \<Rightarrow> (fail ErrType, d)
     | Some rd \<Rightarrow>
       (case checkUsable True d of
          Inl e \<Rightarrow> (Inl e, d)
        | Inr _ \<Rightarrow>
            atomicPortableWrite commits d
              (\<lambda>s. if basisOn (st_tables s) \<noteq> GenesisTx then fail ErrConflict
                   else restoreSnapshotStream ph (d\<lparr>db_store := s\<rparr>) rd)
              (\<lambda>s. if basisOn (st_tables s) \<noteq> GenesisTx then s else restore_left (d\<lparr>db_store := s\<rparr>) rd)))"

definition Restore :: "physical \<Rightarrow> db \<Rightarrow> reader option \<Rightarrow> unit res \<times> db" where
  "Restore = RestoreCommitting True"

end
