(* ===== verification/ExcisionFacts.thy ===== *)
theory ExcisionFacts
  imports Excision CacheFacts
begin

text \<open>
  What an excision does to the tables: the invariant holds again, nothing but the audit marker mentions the entity,
  and everything else stays.
\<close>

subsection \<open>The removal\<close>

lemma remove_texts:
  "fold remove_text rows tb =
    tb\<lparr>tb_fts := filter (\<lambda>(j, _). j \<notin> rf_id ` {f \<in> set rows. text_tag (rf_t f)}) (tb_fts tb)\<rparr>"
proof (induction rows arbitrary: tb)
  case (Cons f rows)
  have "{g \<in> set (f # rows). text_tag (rf_t g)} = (if text_tag (rf_t f) then insert f {g \<in> set rows. text_tag (rf_t g)} else {g \<in> set rows. text_tag (rf_t g)})"
    by auto
  moreover have "remove_text f tb = (if text_tag (rf_t f) then delete_fts (rf_id f) tb else tb)"
    by (simp add: remove_text_def text_tag_def)
  ultimately show ?case by (auto simp: Cons.IH delete_fts_def case_prod_beta intro!: filter_cong)
qed (simp add: case_prod_beta)

lemma excise_tables_fields:
  "tb_facts (excise_tables entity rows txs tb) = filter (\<lambda>f. \<not> mentions entity f) (tb_facts tb)"
  "tb_ids (excise_tables entity rows txs tb) = tb_ids tb" "tb_next_id (excise_tables entity rows txs tb) = tb_next_id tb"
  "tb_seq (excise_tables entity rows txs tb) = tb_seq tb"
  "tb_events (excise_tables entity rows txs tb) =
     map (\<lambda>r. if ev_tx r \<in> set txs then r\<lparr>ev_data := None\<rparr> else r) (tb_events tb)"
  "tb_fts (excise_tables entity rows txs tb) = filter (\<lambda>(j, _). j \<notin> rf_id ` {f \<in> set rows. text_tag (rf_t f)}) (tb_fts tb)"
  "tb_blobs (excise_tables entity rows txs tb) =
     filter (\<lambda>(h, _). list_ex (\<lambda>f. indirect_tag (rf_t f) \<and> sql_eq (rf_v f) (SBlob h)) (filter (\<lambda>f. \<not> mentions entity f) (tb_facts tb)))
       (tb_blobs tb)"
  by (simp_all add: excise_tables_def delete_orphans_def delete_mentions_def redact_events_def remove_texts)

lemma excise_facts_ok: "facts_ok tb \<Longrightarrow> facts_ok (excise_tables entity rows txs tb)"
  by (auto simp: facts_ok_def excise_tables_fields intro: sorted_wrt_filter)

lemma excise_fts_ok:
  assumes "facts_ok tb" "fts_ok tb" "set rows = {f \<in> set (tb_facts tb). mentions entity f}"
  shows "fts_ok (excise_tables entity rows txs tb)"
proof -
  let ?tb = "excise_tables entity rows txs tb"
  define gone where "gone = rf_id ` {f \<in> set rows. text_tag (rf_t f)}"
  have fts: "tb_fts ?tb = filter (\<lambda>(j, _). j \<notin> gone) (tb_fts tb)" by (simp add: excise_tables_fields gone_def)
  have live: "live_set ?tb = {f \<in> live_set tb. \<not> mentions entity f}" by (auto simp: live_set_def excise_tables_fields)
  have gone: "rf_id f \<in> gone \<longleftrightarrow> mentions entity f" if "f \<in> live_set tb" "text_tag (rf_t f)" for f
    using that assms(1,3) by (auto simp: gone_def live_set_def dest: facts_ok_id_inj)
  have keys: "fst ` set (tb_fts ?tb) = fst ` set (tb_fts tb) - gone" unfolding fts by force
  have "distinct (map fst (tb_fts ?tb))" using assms(2) unfolding fts fts_ok_def by (simp add: distinct_map_filter)
  moreover have "fst ` set (tb_fts ?tb) = rf_id ` {f \<in> live_set ?tb. text_tag (rf_t f)}"
    using assms(2) gone unfolding keys live fts_ok_def by auto
  moreover have "set (tb_fts ?tb) \<subseteq> set (tb_fts tb)" unfolding fts by auto
  ultimately show ?thesis using assms(2) unfolding fts_ok_def live by blast
qed

lemma excise_blobs_ok:
  assumes "blobs_ok {} tb"
  shows "blobs_ok {} (excise_tables entity rows txs tb)"
proof -
  let ?tb = "excise_tables entity rows txs tb"
  have keys: "blob_keys ?tb = {h \<in> blob_keys tb. \<exists>f \<in> set (tb_facts ?tb). refers h f}"
    by (force simp: blob_keys_def excise_tables_fields list_ex_iff refers_def)
  have "distinct (map fst (tb_blobs ?tb))"
    using assms by (simp add: blobs_ok_def excise_tables_fields distinct_map_filter)
  moreover have "\<exists>h \<in> blob_keys ?tb. rf_v f = SBlob h" if f: "f \<in> set (tb_facts ?tb)" "indirect_tag (rf_t f)" for f
  proof -
    obtain h where h: "h \<in> blob_keys tb" "rf_v f = SBlob h" using assms f by (auto simp: blobs_ok_def excise_tables_fields)
    then have "refers h f" using f(2) by (simp add: refers_def)
    then show ?thesis using h f(1) unfolding keys by blast
  qed
  ultimately show ?thesis unfolding blobs_ok_def keys by auto
qed

lemma excise_events_ok:
  "events_ok tb \<Longrightarrow> events_ok (excise_tables entity rows txs tb)"
  "recorded (excise_tables entity rows txs tb) = recorded tb"
proof -
  let ?g = "\<lambda>r. if ev_tx r \<in> set txs then r\<lparr>ev_data := None\<rparr> else r"
  have same: "map ev_tx (map ?g rs) = map ev_tx rs" "map ev_op (map ?g rs) = map ev_op rs" for rs by (induction rs) auto
  have "event_row_ok (r\<lparr>ev_data := None\<rparr>) = event_row_ok r" for r by (simp add: event_row_ok_def)
  then show "events_ok tb \<Longrightarrow> events_ok (excise_tables entity rows txs tb)"
    unfolding events_ok_def excise_tables_fields same by auto
  show "recorded (excise_tables entity rows txs tb) = recorded tb"
    using arg_cong [OF same(1) [of "tb_events tb"], of set] unfolding recorded_def excise_tables_fields by (simp only: set_map)
qed

lemma marker_storable: "\<forall>f \<in> set (excision_marker tx now entity). storable (pf_value f)"
  by (simp add: excision_marker_def planned_def storable_def indirect_tag_def)

subsection \<open>The whole excision\<close>

text \<open>The steps of an excision that did not fail.\<close>

lemma excise_entityE:
  assumes "excise_entity en d entity basis op = Inr (report, s')"
  obtains al0 tx al now eventID uuid s1 al1 selector payloads rows txs s3 asserted r tb4 where
    "newAllocator (db_tables d) = Inr al0" "alloc_tx al0 = Inr (tx, al)" "finalize en tx uuid (db_store d) al = Inr (s1, al1)"
    "rows = select_facts (mentions entity) (st_tables s1)" "identitySelector (st_tables s1) entity = Inr selector"
    "eventPayloadTransactionsForSelector (st_tables s1) selector tx = Inr payloads" "set txs = set (touching rows @ payloads)"
    "res_fold (insert_planned al1 tx) (excision_marker tx now entity)
       (s1\<lparr>st_tables := excise_tables entity rows txs (st_tables s1)\<rparr>, []) = Inr (s3, asserted)"
    "ev_tx r = tx" "insert_event r (flush al1 (st_tables s3)) = Inr tb4" "st_tables s' = tb4" "tr_tx report = tx"
    "tr_status report = ''applied''" "s' = s3\<lparr>st_tables := tb4, st_dataVersion := -1\<rparr>"
proof -
  from assms obtain al0 tx al now eventID uuid s1 al1 retracted selector payloads redacts s3 asserted eventData eventHash tb4 where
    steps: "newAllocator (db_tables d) = Inr al0" "alloc_tx al0 = Inr (tx, al)" "finalize en tx uuid (db_store d) al = Inr (s1, al1)"
    "identitySelector (st_tables s1) entity = Inr selector"
    "eventPayloadTransactionsForSelector (st_tables s1) selector tx = Inr payloads"
    "res_fold (insert_planned al1 tx) (excision_marker tx now entity)
       (s1\<lparr>st_tables := excise_tables entity (select_facts (mentions entity) (st_tables s1))
         (sort (remdups (touching (select_facts (mentions entity) (st_tables s1)) @ payloads))) (st_tables s1)\<rparr>, []) = Inr (s3, asserted)"
    "insert_event \<lparr>ev_tx = tx, ev_hash = eventHash, ev_data = Some eventData, ev_op = map_option fst op,
         ev_req = map_option snd op\<rparr> (flush al1 (st_tables s3)) = Inr tb4"
    "report = \<lparr>tr_ids = [], tr_status = ''applied'', tr_event = eventID, tr_asserted = asserted, tr_retracted = retracted,
            tr_basis = basis, tr_tx = tx, tr_at = now\<rparr>" "s' = s3\<lparr>st_tables := tb4, st_dataVersion := -1\<rparr>"
    unfolding excise_entity_def Let_def by (auto simp: res_iff)
  show thesis
    by (rule that [OF steps(1-3) refl steps(4,5) _ steps(6) _ steps(7)]) (simp_all add: steps(8,9))
qed

lemma payload_fold:
  assumes "res_fold (\<lambda>r txs. res_bind (payload_mentions target r) (\<lambda>found. Inr (if found then txs @ [ev_tx r] else txs))) rows start = Inr txs"
  shows "set start \<subseteq> set txs \<and> (\<forall>r \<in> set rows. \<exists>found. payload_mentions target r = Inr found \<and> (found \<longrightarrow> ev_tx r \<in> set txs))"
  using assms
proof (induction rows arbitrary: start)
  case (Cons r rows)
  obtain found where found: "payload_mentions target r = Inr found"
    and rest: "res_fold (\<lambda>r txs. res_bind (payload_mentions target r) (\<lambda>found. Inr (if found then txs @ [ev_tx r] else txs))) rows
      (if found then start @ [ev_tx r] else start) = Inr txs"
    using Cons.prems by (auto simp: res_bind_Inr_iff)
  from Cons.IH [OF rest] found show ?case by (cases found) auto
qed simp

lemma payloads_found:
  assumes "eventPayloadTransactionsForSelector tb selector before = Inr txs" "r \<in> set (tb_events tb)" "ev_tx r < before" "ev_data r \<noteq> None"
    and target: "eventSelectorKey selector = Some target"
  obtains found where "payload_mentions target r = Inr found" "found \<longrightarrow> ev_tx r \<in> set txs"
proof -
  have "r \<in> set (sort_key ev_tx (filter (\<lambda>r. ev_tx r < before \<and> ev_data r \<noteq> None) (tb_events tb)))" using assms(2-4) by simp
  with payload_fold [OF assms(1) [unfolded eventPayloadTransactionsForSelector_def target option.case]] that show thesis by blast
qed

text \<open>
  An event of the tables after an excision, other than its own: its payload is gone, or it neither touched a
  row that mentions the entity nor names it.
\<close>

definition clean_event :: "tables \<Rightarrow> int \<Rightarrow> string \<Rightarrow> eventRow \<Rightarrow> bool" where
  "clean_event tb entity target r \<longleftrightarrow>
     ev_data r = None
     \<or> list_all (\<lambda>f. mentions entity f \<longrightarrow> rf_tx f \<noteq> ev_tx r \<and> rf_rx f \<noteq> Some (ev_tx r)) (tb_facts tb)
       \<and> payload_mentions target r = Inr False"

lemma touching_rows:
  assumes "f \<in> set rows" "rf_tx f = t \<or> rf_rx f = Some t"
  shows "t \<in> set (touching rows)"
  using assms by (force simp: touching_def split: option.splits)

lemma excise_content_ok:
  assumes "content_ok {} tb" "rows = select_facts (mentions entity) tb"
  shows "content_ok {} (excise_tables entity rows txs tb)"
proof -
  have "set rows = {f \<in> set (tb_facts tb). mentions entity f}" by (auto simp: assms(2) select_facts_def)
  then show ?thesis using assms(1) by (auto simp: content_ok_def intro: excise_facts_ok excise_fts_ok excise_blobs_ok)
qed

text \<open>The events that an excision keeps, with the payloads that it found.\<close>

lemma excise_events_clean:
  assumes found: "eventPayloadTransactionsForSelector tb selector tx = Inr payloads" "eventSelectorKey selector = Some target"
    and rows: "rows = select_facts (mentions entity) tb" and txs: "set txs = set (touching rows @ payloads)"
    and old: "\<forall>r \<in> set (tb_events tb). ev_tx r < tx" and r: "r \<in> set (tb_events (excise_tables entity rows txs tb))"
  shows "clean_event tb entity target r"
proof -
  obtain r0 where r0: "r0 \<in> set (tb_events tb)" "r = (if ev_tx r0 \<in> set txs then r0\<lparr>ev_data := None\<rparr> else r0)"
    using r by (auto simp: excise_tables_fields)
  show ?thesis
  proof (cases "ev_tx r0 \<in> set txs \<or> ev_data r0 = None")
    case True
    then show ?thesis by (auto simp: clean_event_def r0(2))
  next
    case False
    from False r0 old obtain b where b: "payload_mentions target r0 = Inr b" "b \<longrightarrow> ev_tx r0 \<in> set payloads"
      using payloads_found [OF found(1) r0(1) _ _ found(2)] by blast
    have "\<not> (rf_tx f = ev_tx r0 \<or> rf_rx f = Some (ev_tx r0))" if "f \<in> set (tb_facts tb)" "mentions entity f" for f
      using touching_rows [of f rows "ev_tx r0"] that False txs by (auto simp: rows select_facts_def)
    then show ?thesis using b False txs by (auto simp: clean_event_def r0(2) list_all_iff)
  qed
qed

text \<open>
  The tables of a successful excision just before its receipt: the identities registered, the rows that mention the
  entity gone, the marker's rows appended.
\<close>

lemma excise_entity_tablesE:
  assumes run: "excise_entity en d entity basis op = Inr (report, s')" and ok: "tables_ok (db_tables d)"
  obtains tx n ids selector payloads rows txs new r tb5 where
    "tb_next_id (db_tables d) = Some n" "FirstUserID \<le> n" "n \<le> tx" "tx + 1 \<le> MaxInt64" "below n (db_tables d)"
    "rows = select_facts (mentions entity) (db_tables d\<lparr>tb_ids := ids\<rparr>)"
    "identitySelector (db_tables d\<lparr>tb_ids := ids\<rparr>) entity = Inr selector"
    "eventPayloadTransactionsForSelector (db_tables d\<lparr>tb_ids := ids\<rparr>) selector tx = Inr payloads"
    "set txs = set (touching rows @ payloads)" "tb_ids tb5 = ids" "ids_ok tb5" "\<forall>r \<in> set ids. id_id r < tx + 1"
    "tb_facts tb5 = filter (\<lambda>f. \<not> mentions entity f) (tb_facts (db_tables d)) @ new" "\<forall>f \<in> set new. rf_tx f = tx \<and> live f"
    "tb_next_id tb5 = Some (tx + 1)" "tb_events tb5 = tb_events (excise_tables entity rows txs (db_tables d\<lparr>tb_ids := ids\<rparr>))"
    "content_ok {} tb5" "insert_event r tb5 = Inr (st_tables s')" "ev_tx r = tx" "tr_tx report = tx"
proof -
  let ?tb = "db_tables d"
  from run obtain al0 tx al now uuid s1 al1 selector payloads rows txs s3 asserted r tb4 where
    e: "newAllocator ?tb = Inr al0" "alloc_tx al0 = Inr (tx, al)" "finalize en tx uuid (db_store d) al = Inr (s1, al1)"
    "rows = select_facts (mentions entity) (st_tables s1)" "identitySelector (st_tables s1) entity = Inr selector"
    "eventPayloadTransactionsForSelector (st_tables s1) selector tx = Inr payloads" "set txs = set (touching rows @ payloads)"
    "res_fold (insert_planned al1 tx) (excision_marker tx now entity)
       (s1\<lparr>st_tables := excise_tables entity rows txs (st_tables s1)\<rparr>, []) = Inr (s3, asserted)"
    "ev_tx r = tx" "insert_event r (flush al1 (st_tables s3)) = Inr tb4" "st_tables s' = tb4" "tr_tx report = tx"
    by (rule excise_entityE)
  obtain n where n: "tb_next_id ?tb = Some n" "FirstUserID \<le> n" "n \<le> MaxInt64" "below n ?tb"
    "ids_ok ?tb" "events_ok ?tb" "content_ok {} ?tb" "txs_in (recorded ?tb) ?tb"
    using ok by (rule tables_okD)
  note al0 = newAllocator_Inr [OF e(1) n(1,3)]
  note t = alloc_tx_Inr [OF e(2) al0(1), unfolded al0(2)]
  note F = finalize_Inr [OF e(3) n(5)]
  obtain ids where s1: "st_tables s1 = ?tb\<lparr>tb_ids := ids\<rparr>" using ids_added_same [OF F(2)] by blast
  define tb2 where "tb2 = excise_tables entity rows txs (st_tables s1)"
  have "content_ok {} (st_tables s1)" using n(7) by (subst content_ok_cong [of _ ?tb]) (simp_all add: s1)
  then have "content_ok {} tb2" unfolding tb2_def by (rule excise_content_ok [OF _ e(4)])
  then have I: "content_ok {} (st_tables s3)" "same_registry tb2 (st_tables s3)"
    "\<exists>new. tb_facts (st_tables s3) = tb_facts tb2 @ new \<and> (\<forall>f \<in> set new. rf_tx f = tx \<and> live f)"
    using insert_run [OF e(8) marker_storable, of "{}"] by (auto simp: tb2_def)
  then obtain new where new: "tb_facts (st_tables s3) = tb_facts tb2 @ new" "\<forall>f \<in> set new. rf_tx f = tx \<and> live f" by blast
  have tb2: "tb_facts tb2 = filter (\<lambda>f. \<not> mentions entity f) (tb_facts ?tb)" "tb_ids tb2 = ids" "tb_next_id tb2 = Some n"
    by (simp_all add: tb2_def excise_tables_fields s1 n(1))
  define tb5 where "tb5 = flush al1 (st_tables s3)"
  have tb5: "tb_facts tb5 = tb_facts tb2 @ new" "tb_ids tb5 = ids" "tb_next_id tb5 = Some (tx + 1)" "tb_events tb5 = tb_events tb2"
    using I(2) new(1) tb2 F(3) t by (auto simp: tb5_def flush_def same_registry_def)
  have "content_ok {} tb5" using I(1) by (subst content_ok_cong [of _ "st_tables s3"]) (simp_all add: tb5_def flush_def)
  moreover have "ids_ok tb5" "\<forall>r \<in> set ids. id_id r < tx + 1"
    using F(1) ids_added_below [OF F(2) [unfolded t(6)] _ t(5)] n(4) by (simp_all add: ids_ok_def tb5 s1 below_def)
  ultimately show thesis
    using that [OF n(1,2) t(5,3) n(4) e(4-6) [unfolded s1] e(7) tb5(2) _ _ tb5(1) [unfolded tb2(1)] new(2) tb5(3)
        tb5(4) [unfolded tb2_def s1] _ _ e(9,12)] e(10,11) by (simp add: tb5_def)
qed

lemma excise_entity_ok:
  assumes run: "excise_entity en d entity basis op = Inr (report, s')" and ok: "tables_ok (db_tables d)"
  shows "tables_ok (st_tables s')
    \<and> {f \<in> set (tb_facts (st_tables s')). rf_tx f \<noteq> tr_tx report} = {f \<in> set (tb_facts (db_tables d)). \<not> mentions entity f}
    \<and> (\<exists>selector target. identitySelector (st_tables s') entity = Inr selector \<and> eventSelectorKey selector = Some target
       \<and> list_all (\<lambda>r. ev_tx r = tr_tx report \<or> clean_event (db_tables d) entity target r) (tb_events (st_tables s')))"
proof -
  let ?tb = "db_tables d"
  from run ok obtain tx n ids selector payloads rows txs new r tb5 where
    n: "tb_next_id ?tb = Some n" "FirstUserID \<le> n" "n \<le> tx" "tx + 1 \<le> MaxInt64" "below n ?tb"
    and e: "rows = select_facts (mentions entity) (?tb\<lparr>tb_ids := ids\<rparr>)"
    "identitySelector (?tb\<lparr>tb_ids := ids\<rparr>) entity = Inr selector"
    "eventPayloadTransactionsForSelector (?tb\<lparr>tb_ids := ids\<rparr>) selector tx = Inr payloads" "set txs = set (touching rows @ payloads)"
    and ids: "tb_ids tb5 = ids" "ids_ok tb5" "\<forall>r \<in> set ids. id_id r < tx + 1"
    and facts: "tb_facts tb5 = filter (\<lambda>f. \<not> mentions entity f) (tb_facts ?tb) @ new" "\<forall>f \<in> set new. rf_tx f = tx \<and> live f"
    and tb5: "tb_next_id tb5 = Some (tx + 1)" "tb_events tb5 = tb_events (excise_tables entity rows txs (?tb\<lparr>tb_ids := ids\<rparr>))"
    "content_ok {} tb5" "insert_event r tb5 = Inr (st_tables s')" "ev_tx r = tx" "tr_tx report = tx"
    by (rule excise_entity_tablesE)
  have oks: "events_ok ?tb" "txs_in (recorded ?tb) ?tb" using ok by (simp_all add: tables_ok_def)
  have old: "t < tx" if "t \<in> recorded ?tb" for t using that n by (fastforce simp: below_def recorded_def)
  have "recorded tb5 = recorded ?tb" "events_ok tb5"
    using oks(1) excise_events_ok [where tb = "?tb\<lparr>tb_ids := ids\<rparr>" and entity = entity and rows = rows and txs = txs] by (simp_all add: recorded_def events_ok_def tb5(2))
  note events5 = this
  have txs5: "txs_in (insert tx (recorded tb5)) tb5"
    using oks(2) facts(2) unfolding txs_in_def facts(1) events5(1) by (auto simp: live_def split: option.splits)
  have below5: "\<forall>r \<in> set (tb_events tb5). ev_tx r < tx + 1" using old events5(1) by (force simp: recorded_def)
  have "tables_ok (st_tables s')"
    by (rule tables_ok_after [OF tb5(3) txs5 ids(2) ids(3) [folded ids(1)] events5(2) below5 tb5(4,5,1)]) (use n in auto)
  moreover have tb4: "st_tables s' = tb5\<lparr>tb_events := tb_events tb5 @ [r]\<rparr>" by (rule insert_event_Inr [OF tb5(4)])
  have "rf_tx f \<noteq> tx" if "f \<in> set (tb_facts ?tb)" for f using old oks(2) that by (force simp: txs_in_def)
  then have "{f \<in> set (tb_facts (st_tables s')). rf_tx f \<noteq> tx} = {f \<in> set (tb_facts ?tb). \<not> mentions entity f}"
    using facts(2) by (auto simp: tb4 facts(1))
  moreover obtain target where target: "eventSelectorKey selector = Some target"
    using e(3) by (cases "eventSelectorKey selector") (auto simp: eventPayloadTransactionsForSelector_def)
  have "clean_event ?tb entity target q" if "q \<in> set (tb_events tb5)" for q
    using excise_events_clean [OF e(3) target e(1,4)] old that by (auto simp: tb5(2) clean_event_def recorded_def)
  then have "list_all (\<lambda>q. ev_tx q = tx \<or> clean_event ?tb entity target q) (tb_events (st_tables s'))"
    by (simp add: tb4 list_all_iff tb5(5))
  moreover have "identitySelector (st_tables s') entity = Inr selector"
    using e(2) by (simp add: identitySelector_def find_id_def tb4 ids(1))
  ultimately show ?thesis using target unfolding tb5(6) by blast
qed

lemma excise_entity_registry:
  assumes run: "excise_entity en d entity basis op = Inr (report, s')" and ok: "tables_ok (db_tables d)"
  shows "st_version s' = st_version (db_store d) \<and> st_dataVersion s' = -1
    \<and> (\<exists>new. tb_ids (st_tables s') = tb_ids (db_tables d) @ new)"
proof -
  from run obtain tx al now uuid s1 al1 rows txs s3 asserted r tb4 where
    e: "finalize en tx uuid (db_store d) al = Inr (s1, al1)"
    "res_fold (insert_planned al1 tx) (excision_marker tx now entity)
       (s1\<lparr>st_tables := excise_tables entity rows txs (st_tables s1)\<rparr>, []) = Inr (s3, asserted)"
    "insert_event r (flush al1 (st_tables s3)) = Inr tb4" "s' = s3\<lparr>st_tables := tb4, st_dataVersion := -1\<rparr>"
    by (rule excise_entityE) blast
  have "st_version (fst (s3, asserted)) = st_version s1 \<and> tb_ids (st_tables (fst (s3, asserted))) = tb_ids (st_tables s1)"
    by (rule res_fold_invariant [OF e(2), where P = "\<lambda>p. st_version (fst p) = st_version s1 \<and> tb_ids (st_tables (fst p)) = tb_ids (st_tables s1)"])
      (use insertFact_ids in \<open>fastforce simp: excise_tables_fields insert_planned_def res_bind_Inr_iff Let_def\<close>)+
  moreover have "tb_ids tb4 = tb_ids (st_tables s3)" using insert_event_Inr [OF e(3)] by (simp add: flush_def)
  moreover have "ids_ok (db_tables d)" using ok by (simp add: tables_ok_def)
  from finalize_Inr(2) [OF e(1) this] obtain new where "tb_ids (st_tables s1) = tb_ids (db_tables d) @ new"
    by (auto simp: ids_added_def)
  ultimately show ?thesis using finalize_version [OF e(1)] by (simp add: e(4))
qed

text \<open>An excision, like a transaction, keeps the invariant and never removes an identity, whether it succeeds or not.\<close>

lemma Excise_ok:
  assumes "tables_ok (db_tables d)" "cache_ok (db_store d)"
  shows "tables_ok (db_tables (snd (Excise en d ref c))) \<and> cache_ok (db_store (snd (Excise en d ref c)))
    \<and> (\<exists>new. tb_ids (db_tables (snd (Excise en d ref c))) = tb_ids (db_tables d) @ new)"
proof -
  have ids: "ids_ok (db_tables d)" using assms(1) by (simp add: tables_ok_def)
  obtain s0 where s0: "refreshNames (db_store d) = Inr s0" using refreshNames_total [OF ids] by blast
  have same: "st_tables s0 = db_tables d" using refreshNames_tables [OF s0] .
  have cached: "cached s0" "st_version s0 = st_version (db_store d)"
    using refreshNames_cached [OF s0 assms(2) ids] by auto
  then have ok0: "cache_ok s0" using assms(2) by (simp add: cache_ok_def)
  have run: "tables_ok (st_tables s') \<and> cache_ok s' \<and> (\<exists>new. tb_ids (st_tables s') = tb_ids (db_tables d) @ new)"
    if on: "excise_on en d ref c h = Inr (report, s')" for h report s'
  proof -
    consider "s' = s0" | entity basis op where "excise_entity en (d\<lparr>db_store := s0\<rparr>) entity basis op = Inr (report, s')"
      using on s0 by (auto simp: excise_on_def res_iff Let_def split: option.split_asm if_split_asm)
    then show ?thesis
    proof cases
      case 1
      then show ?thesis using assms(1) ok0 same by simp
    next
      case 2
      have ok: "tables_ok (db_tables (d\<lparr>db_store := s0\<rparr>))" using assms(1) by (simp add: same)
      show ?thesis
        using excise_entity_ok [OF 2 ok] excise_entity_registry [OF 2 ok] ok0 by (auto simp: same cache_ok_def)
    qed
  qed
  show ?thesis
    using assms s0 same ok0 run by (auto simp: Excise_def split: sum.split)
qed

text \<open>
  C6. Excision erases an entity and nothing else. The rows of other transactions are exactly the earlier rows that do
  not mention the entity as their subject, attribute or reference; every other event has lost its payload, or it
  neither touched a row that mentions the entity nor names it; and the invariant of the tables holds again, so that
  no text or blob of an erased row is left.
\<close>

theorem excision_erases:
  assumes "Excise en d ref c = (Inr r, d')" "tables_ok (db_tables d)" "tr_status r = ''applied''"
  shows "\<exists>s0 entity selector target. refreshNames (db_store d) = Inr s0 \<and> excisable (d\<lparr>db_store := s0\<rparr>) ref = Inr entity
    \<and> tables_ok (db_tables d')
    \<and> {f \<in> set (tb_facts (db_tables d')). rf_tx f \<noteq> tr_tx r} = {f \<in> set (tb_facts (db_tables d)). \<not> mentions entity f}
    \<and> identitySelector (db_tables d') entity = Inr selector \<and> eventSelectorKey selector = Some target
    \<and> list_all (\<lambda>q. ev_tx q = tr_tx r \<or> clean_event (db_tables d) entity target q) (tb_events (db_tables d'))"
proof -
  obtain h s' where run: "excise_on en d ref c h = Inr (r, s')" and d': "d' = d\<lparr>db_store := s'\<rparr>"
    using assms(1) by (auto simp: Excise_def split: sum.split_asm)
  obtain s0 where s0: "refreshNames (db_store d) = Inr s0" using run by (auto simp: excise_on_def res_iff)
  let ?d0 = "d\<lparr>db_store := s0\<rparr>"
  have same: "st_tables s0 = db_tables d" using refreshNames_tables [OF s0] .
  from run s0 obtain prior where prior: "(case to_operationID c of None \<Rightarrow> Inr None | Some op \<Rightarrow> operationReceipt s0 op h) = Inr prior"
    by (auto simp: excise_on_def res_iff Let_def)
  have none: "prior = None"
  proof (cases prior)
    case (Some report)
    then have "operationReceipt s0 (the (to_operationID c)) h = Inr (Some report)" "r = report"
      using prior run s0 by (auto simp: excise_on_def Let_def split: option.split_asm)
    then show ?thesis using assms(3) operationReceipt_Some by fastforce
  qed simp
  have "\<exists>entity. excisable ?d0 ref = Inr entity
      \<and> excise_entity en ?d0 entity (basisOn (db_tables d)) (map_option (\<lambda>op. (op, h)) (to_operationID c)) = Inr (r, s')"
    using run s0 prior none by (auto simp: excise_on_def Let_def res_iff split: if_split_asm)
  then obtain entity where entity: "excisable ?d0 ref = Inr entity"
    "excise_entity en ?d0 entity (basisOn (db_tables d)) (map_option (\<lambda>op. (op, h)) (to_operationID c)) = Inr (r, s')" by blast
  have "tables_ok (db_tables ?d0)" using assms(2) by (simp add: same)
  from excise_entity_ok [OF entity(2) this] s0 entity(1) show ?thesis by (simp add: d' same)
qed

end
