(* ===== verification/DoctorFacts.thy ===== *)
theory DoctorFacts
  imports Doctor ExcisionFacts
begin

text \<open>
  What the doctor promises: the values that the conversions make are the ones that it accepts, and a repair that
  succeeds re-establishes the invariant of the index and of the blobs from the facts alone.
\<close>

subsection \<open>Physical values\<close>

definition physical_value :: "storedValue \<Rightarrow> bool" where
  "physical_value v \<longleftrightarrow> validPhysicalValue (sv_tag v) (sv_storage v)
     \<and> (indirect_tag (sv_tag v) \<longrightarrow> (\<exists>b. sv_blob v = Some b \<and> validIndirectBlob (sv_tag v) (sv_storage v) b))"

lemma indirect_physical: "storable v \<Longrightarrow> indirect_tag (sv_tag v) \<Longrightarrow> physical_value v"
  by (cases "sv_tag v") (auto simp: physical_value_def storable_def validPhysicalValue_def indirect_tag_def split: option.splits)

lemma textStored_physical:
  assumes "textStored s = Inr v"
  shows "physical_value v"
proof (cases "indirect_tag (sv_tag v)")
  case True
  then show ?thesis using textStored_ok [OF assms] indirect_physical by blast
next
  case False
  then show ?thesis using assms
    by (auto simp: textStored_def physical_value_def validPhysicalValue_def indirect_tag_def split: if_splits)
qed

lemma bytesStored_physical:
  assumes "bytesStored s = Inr v"
  shows "physical_value v"
proof (cases "indirect_tag (sv_tag v)")
  case True
  then show ?thesis using bytesStored_ok [OF assms] indirect_physical by blast
next
  case False
  then show ?thesis using assms
    by (auto simp: bytesStored_def physical_value_def validPhysicalValue_def indirect_tag_def split: if_splits)
qed

lemma vectorStored_physical: "vectorStored ws = Inr v \<Longrightarrow> physical_value v"
  using vectorStored_ok [of ws v] indirect_physical [of v] by (auto simp: indirect_tag_def)

lemma instantStored_physical: "instantStored n = Inr v \<Longrightarrow> physical_value v"
  by (auto simp: instantStored_def validateInstantMicros_def res_iff physical_value_def validPhysicalValue_def indirect_tag_def)

lemma floatStored_physical: "floatStored w = Inr v \<Longrightarrow> physical_value v"
  by (auto simp: floatStored_def physical_value_def validPhysicalValue_def indirect_tag_def split: if_splits)

lemma jsonStored_tag: "jsonStored x = Inr v \<Longrightarrow> sv_tag v = TagJSON"
  using jsonStored_ok by blast

lemmas stored_physical =
  textStored_physical bytesStored_physical vectorStored_physical instantStored_physical floatStored_physical jsonStored_tag

text \<open>
  C37. Converted values have the physical type of their tag: what the conversion of a scalar input stores, for every
  tag but references, which the planner resolves first, and JSON documents, passes the doctor's check of physical
  values, and a value kept out of line comes with a blob that passes the check of blobs.
\<close>

theorem converted_values_are_physical:
  assumes "scalarValue input = Inr v" "sv_tag v \<noteq> TagRef" "sv_tag v \<noteq> TagJSON"
  shows "validPhysicalValue (sv_tag v) (sv_storage v)
    \<and> (indirect_tag (sv_tag v) \<longrightarrow> (\<exists>b. sv_blob v = Some b \<and> validIndirectBlob (sv_tag v) (sv_storage v) b))"
proof (cases "objectFields input")
  case None
  then have "physical_value v"
    using assms by (auto simp: scalarValue_def split: any.splits if_splits dest!: stored_physical)
      (auto simp: physical_value_def validPhysicalValue_def indirect_tag_def)
  then show ?thesis by (simp add: physical_value_def)
next
  case (Some fs)
  then obtain k x where "wrappedValue k x = Inr v"
    using assms(1) by (auto simp: scalarValue_def split: list.splits prod.splits)
  then have "physical_value v"
    using assms(2,3)
    by (auto simp: wrappedValue_def res_iff split: if_splits any.splits gokind.splits option.splits dest!: stored_physical)
  then show ?thesis by (simp add: physical_value_def)
qed

theorem converted_values_are_physical_witness:
  "\<exists>v. scalarValue (AStr ''hi'') = Inr v \<and> validPhysicalValue (sv_tag v) (sv_storage v) \<and> sv_tag v = TagText"
proof -
  have v: "scalarValue (AStr ''hi'') = Inr (stored (AStr ''hi'') (SText ''hi'') TagText)"
    by (simp add: scalarValue_def textStored_def ValidString_def runes_def byte_of_def BlobThreshold_def MaxValueBytes_def)
  then show ?thesis using converted_values_are_physical [OF v] by simp
qed

subsection \<open>Repairs\<close>

lemma count_rows_0 [simp]: "count_rows p xs = 0 \<longleftrightarrow> (\<forall>x \<in> set xs. \<not> p x)"
  by (induction xs) (auto simp: count_rows_def)

lemma counted_Nil [simp]: "counted p n = [] \<longleftrightarrow> n = 0"
  by (simp add: counted_def)

lemma repair_tables_fields [simp]:
  "tb_facts (repair_tables tb) = tb_facts tb" "tb_ids (repair_tables tb) = tb_ids tb" "tb_events (repair_tables tb) = tb_events tb"
  "tb_next_id (repair_tables tb) = tb_next_id tb" "tb_seq (repair_tables tb) = tb_seq tb"
  "tb_created_at (repair_tables tb) = tb_created_at tb" "set (tb_blobs (repair_tables tb)) \<subseteq> set (tb_blobs tb)"
  by (auto simp: repair_tables_def delete_orphans_def rebuild_fts_def)

lemma expected_rows:
  assumes "readExpectedFTSRows tb = Inr rows"
  shows "map fst rows = map rf_id (select_facts live_text tb)"
    "(i, s) \<in> set rows \<Longrightarrow> \<exists>f \<in> set (tb_facts tb). live_text f \<and> rf_id f = i \<and> fts_source tb f = SText s"
proof -
  let ?row = "\<lambda>f. case fts_source tb f of SText text \<Rightarrow> Inr (rf_id f, text) | _ \<Rightarrow> fail ErrFormat"
  have rows: "list_all2 (\<lambda>f y. ?row f = Inr y) (select_facts live_text tb) rows"
    using assms by (simp add: readExpectedFTSRows_def res_map_Inr_iff)
  have row: "y = (rf_id f, t) \<and> fts_source tb f = SText t" if "?row f = Inr y" "y = (j, t)" for f y j t
    using that by (auto split: sval.split_asm)
  have "list_all2 (\<lambda>f y. fst y = rf_id f) (select_facts live_text tb) rows"
    by (rule list_all2_mono [OF rows]) (auto split: sval.split_asm)
  then show "map fst rows = map rf_id (select_facts live_text tb)" by (induction rule: list_all2_induct) simp_all
  show "\<exists>f \<in> set (tb_facts tb). live_text f \<and> rf_id f = i \<and> fts_source tb f = SText s" if "(i, s) \<in> set rows"
  proof -
    obtain k where k: "k < length rows" "rows ! k = (i, s)" using \<open>(i, s) \<in> set rows\<close> by (auto simp: in_set_conv_nth)
    then have "select_facts live_text tb ! k \<in> set (select_facts live_text tb)" "?row (select_facts live_text tb ! k) = Inr (i, s)"
      using rows k(1) unfolding list_all2_conv_all_nth by (simp_all only: k(2) [symmetric] nth_mem)
    then obtain f where "f \<in> set (select_facts live_text tb)" "?row f = Inr (i, s)" by blast
    then show ?thesis using row [of f "(i, s)"] by (auto simp: select_facts_def)
  qed
qed

lemma ids_distinct: "facts_ok tb \<Longrightarrow> distinct (map rf_id (select_facts P tb))"
  using facts_ok_distinct [of tb] by (auto simp: select_facts_def distinct_map inj_on_def)

text \<open>An index that reads as the doctor expects has exactly the live texts.\<close>

lemma expected_index_ok:
  assumes ok: "facts_ok tb" and rows: "readExpectedFTSRows tb = Inr (readFTSRows tb)"
  shows "fts_ok tb"
proof -
  note E = expected_rows [OF rows]
  have "{f \<in> live_set tb. text_tag (rf_t f)} = {f \<in> set (tb_facts tb). live_text f}"
    by (auto simp: live_set_def live_text_def text_tag_def)
  moreover have "set (map fst (readFTSRows tb)) = set (map rf_id (select_facts live_text tb))" by (simp only: E(1))
  ultimately have "fst ` set (tb_fts tb) = rf_id ` {f \<in> live_set tb. text_tag (rf_t f)}"
    by (simp add: readFTSRows_def select_facts_def)
  note keys = ids_distinct [OF ok, of live_text, folded E(1)] this
  have "distinct (map fst (tb_fts tb))" using keys(1) by (simp add: readFTSRows_def distinct_map)
  moreover have "rf_v f = SText s" if f: "f \<in> live_set tb" "rf_t f = TagText" "(rf_id f, s) \<in> set (tb_fts tb)" for f s
  proof -
    obtain g where "g \<in> set (tb_facts tb)" "rf_id g = rf_id f" "fts_source tb g = SText s"
      using E(2) [of "rf_id f" s] f(3) by (auto simp: readFTSRows_def)
    moreover from this(1,2) f(1) have "g = f" using facts_ok_id_inj [OF ok] by (auto simp: live_set_def)
    ultimately show ?thesis using f(2) by (simp add: fts_source_def)
  qed
  ultimately show ?thesis using keys(2) by (simp add: fts_ok_def)
qed

lemma value_problems_Nil:
  assumes "value_problems tb = []" "f \<in> set (tb_facts tb)"
  shows "validPhysicalValue (rf_t f) (rf_v f)" "indirect_tag (rf_t f) \<Longrightarrow> \<exists>h \<in> blob_keys tb. rf_v f = SBlob h"
proof -
  show "validPhysicalValue (rf_t f) (rf_v f)" using assms by (simp add: value_problems_def)
  assume "indirect_tag (rf_t f)"
  with assms obtain h data where "(h, data) \<in> set (tb_blobs tb)" "sql_eq (SBlob h) (rf_v f)"
    by (auto simp: value_problems_def missing_blob_def list_ex_iff)
  then show "\<exists>h \<in> blob_keys tb. rf_v f = SBlob h" by (cases "rf_v f") (force simp: blob_keys_def)+
qed

text \<open>A report without problems: the tables hold what they should.\<close>

lemma doctorReport_ok:
  assumes run: "doctorReport ph d = Inr (report, fatal)" and good: "fatal = []" "\<not> dr_repairNeeded report"
    and ok: "facts_ok (db_tables d)" "distinct (map fst (tb_blobs (db_tables d)))"
  shows "content_ok {} (db_tables d)" "dr_ok report"
    "\<forall>f \<in> set (tb_facts (db_tables d)). validPhysicalValue (rf_t f) (rf_v f)"
proof -
  let ?tb = "db_tables d"
  have safe: "value_problems ?tb = []" using run good by (auto simp: doctorReport_def Let_def res_iff split: prod.split_asm)
  then have rows: "readExpectedFTSRows ?tb = Inr (readFTSRows ?tb)" and orphans: "\<forall>b \<in> set (tb_blobs ?tb). \<not> orphaned ?tb b"
    and okay: "dr_ok report"
    using run good by (auto simp: doctorReport_def Let_def res_iff split: prod.split_asm if_split_asm)
  have "\<exists>f \<in> set (tb_facts ?tb). refers h f" if "h \<in> blob_keys ?tb" for h
    using orphans that by (fastforce simp: blob_keys_def orphaned_def list_ex_iff refers_def)
  then have "blobs_ok {} ?tb" using ok(2) value_problems_Nil [OF safe] unfolding blobs_ok_def by blast
  then show "content_ok {} ?tb" using ok(1) expected_index_ok [OF ok(1) rows] by (simp add: content_ok_def)
  show "dr_ok report" by (rule okay)
  show "\<forall>f \<in> set (tb_facts ?tb). validPhysicalValue (rf_t f) (rf_v f)" using value_problems_Nil [OF safe] by blast
qed

lemma Doctor_repairs:
  assumes "Doctor ph d [True] = (Inr report, d')" "facts_ok (db_tables d)" "distinct (map fst (tb_blobs (db_tables d)))"
  shows "d' = d\<lparr>db_store := (db_store d)\<lparr>st_tables := repair_tables (db_tables d)\<rparr>\<rparr> \<and> content_ok {} (db_tables d') \<and> dr_ok report"
proof -
  let ?d = "d\<lparr>db_store := (db_store d)\<lparr>st_tables := repair_tables (db_tables d)\<rparr>\<rparr>"
  obtain report' where run: "doctorReport ph ?d = Inr (report', [])" "\<not> dr_repairNeeded report'" and d': "d' = ?d"
    and report: "dr_ok report = dr_ok report'"
    using assms(1) by (auto simp: Doctor_def Let_def split: sum.split_asm if_split_asm)
  have "facts_ok (db_tables ?d)" "distinct (map fst (tb_blobs (db_tables ?d)))"
    using assms(2,3) by (simp_all add: facts_ok_def)
      (simp add: repair_tables_def delete_orphans_def rebuild_fts_def distinct_map_filter)
  from doctorReport_ok [OF run(1) refl run(2) this] show ?thesis by (simp add: d' report)
qed

subsection \<open>What a repair does\<close>

text \<open>The text that belongs into the index for a fact whose value passed the checks.\<close>

definition source_text :: "tables \<Rightarrow> rawFact \<Rightarrow> string" where
  "source_text tb f = (case fts_source tb f of SText s \<Rightarrow> s | _ \<Rightarrow> [])"

lemma blob_found:
  assumes "value_problems tb = []" "f \<in> set (tb_facts tb)" "indirect_tag (rf_t f)"
  obtains h data where "find (\<lambda>(h, _). sql_eq (SBlob h) (rf_v f)) (tb_blobs tb) = Some (h, data)" "rf_v f = SBlob h"
    "validIndirectBlob (rf_t f) (SBlob h) data"
proof -
  obtain h0 where h0: "h0 \<in> blob_keys tb" "rf_v f = SBlob h0" using value_problems_Nil(2) [OF assms(1,2)] assms(3) by blast
  then obtain b where b: "find (\<lambda>(h, _). sql_eq (SBlob h) (rf_v f)) (tb_blobs tb) = Some b"
    by (cases "find (\<lambda>(h, _). sql_eq (SBlob h) (rf_v f)) (tb_blobs tb)") (auto simp: find_None_iff blob_keys_def)
  obtain data where data: "b = (h0, data)" "(h0, data) \<in> set (tb_blobs tb)"
    using b h0(2) by (cases b) (auto simp: find_Some_iff dest: nth_mem)
  then have "\<not> invalid_blob tb (h0, data)" using assms(1) by (simp add: value_problems_def)
  then have "validIndirectBlob (rf_t f) (SBlob h0) data"
    using assms(2,3) h0(2) by (auto simp: invalid_blob_def list_ex_iff)
  then show thesis using that b data(1) h0(2) by simp
qed

lemma source_is_text:
  assumes "value_problems tb = []" "f \<in> set (tb_facts tb)" "live_text f"
  shows "fts_source tb f = SText (source_text tb f)"
proof (cases "rf_t f = TagTextRef")
  case True
  then have "indirect_tag (rf_t f)" by (simp add: indirect_tag_def)
  with assms(1,2) obtain h data where "find (\<lambda>(h, _). sql_eq (SBlob h) (rf_v f)) (tb_blobs tb) = Some (h, data)"
    "validIndirectBlob (rf_t f) (SBlob h) data"
    by (rule blob_found)
  then show ?thesis using True
    by (auto simp: source_text_def fts_source_def validIndirectBlob_def split: sval.split_asm)
next
  case False
  then show ?thesis using value_problems_Nil(1) [OF assms(1,2)] assms(3)
    by (auto simp: source_text_def fts_source_def live_text_def validPhysicalValue_def split: sval.split_asm)
qed

text \<open>The rows that a rebuilt index has, in the order of their ids.\<close>

definition index_rows :: "tables \<Rightarrow> (int \<times> string) list" where
  "index_rows tb = map (\<lambda>f. (rf_id f, source_text tb f)) (select_facts live_text tb)"

lemma expected_total: "value_problems tb = [] \<Longrightarrow> readExpectedFTSRows tb = Inr (index_rows tb)"
  unfolding readExpectedFTSRows_def index_rows_def
  by (rule res_map_total) (simp add: source_is_text select_facts_def)

lemma rebuilt_rows: "value_problems tb = [] \<Longrightarrow> tb_fts (repair_tables tb) = index_rows tb"
proof -
  assume safe: "value_problems tb = []"
  have "concat (map (\<lambda>f. case fts_source tb f of SText text \<Rightarrow> [(rf_id f, text)] | _ \<Rightarrow> []) xs)
      = map (\<lambda>f. (rf_id f, source_text tb f)) xs" if "set xs \<subseteq> {f \<in> set (tb_facts tb). live_text f}" for xs
    using that by (induction xs) (simp_all add: source_is_text [OF safe])
  from this [of "select_facts live_text tb"] show ?thesis
    by (auto simp: repair_tables_def delete_orphans_def rebuild_fts_def index_rows_def select_facts_def)
qed

lemma index_rows_sorted: "sort_key fst (index_rows tb) = index_rows tb"
  by (rule sort_key_id_if_sorted) (simp add: index_rows_def select_facts_def comp_def)

lemma find_filter: "(\<And>x. P x \<Longrightarrow> Q x) \<Longrightarrow> find P (filter Q xs) = find P xs"
  by (induction xs) auto

text \<open>The blobs that facts refer to stay, so that nothing else changes for the checks.\<close>

lemma repaired_sources:
  assumes "f \<in> set (tb_facts tb)"
  shows "fts_source (repair_tables tb) f = fts_source tb f"
proof (cases "rf_t f = TagTextRef")
  case True
  have "find (\<lambda>(h, _). sql_eq (SBlob h) (rf_v f)) (tb_blobs (repair_tables tb)) = find (\<lambda>(h, _). sql_eq (SBlob h) (rf_v f)) (tb_blobs tb)"
    unfolding repair_tables_def delete_orphans_def rebuild_fts_def
    by (simp, rule find_filter) (use assms True in \<open>cases "rf_v f"; force simp: list_ex_iff indirect_tag_def\<close>)
  then show ?thesis by (simp add: fts_source_def)
qed (simp add: fts_source_def)

lemma repaired_index: "index_rows (repair_tables tb) = index_rows tb"
  unfolding index_rows_def select_facts_def source_text_def by (simp add: repaired_sources)

lemma repaired_orphans: "count_rows (orphaned (repair_tables tb)) (tb_blobs (repair_tables tb)) = 0"
  by (auto simp: repair_tables_def delete_orphans_def rebuild_fts_def orphaned_def)

lemma repaired_values:
  assumes "value_problems tb = []"
  shows "value_problems (repair_tables tb) = []"
proof -
  have "\<not> missing_blob (repair_tables tb) f" if f: "f \<in> set (tb_facts tb)" for f
  proof
    assume "missing_blob (repair_tables tb) f"
    then have gone: "indirect_tag (rf_t f)" "\<not> (\<exists>(h, _) \<in> set (tb_blobs (repair_tables tb)). sql_eq (SBlob h) (rf_v f))"
      by (auto simp: missing_blob_def list_ex_iff)
    then obtain h where h: "h \<in> blob_keys tb" "rf_v f = SBlob h" using value_problems_Nil(2) [OF assms f] by blast
    then show False using gone f
      by (fastforce simp: blob_keys_def repair_tables_def delete_orphans_def rebuild_fts_def list_ex_iff)
  qed
  moreover have "\<not> invalid_blob (repair_tables tb) b" if "b \<in> set (tb_blobs (repair_tables tb))" for b
  proof -
    have "b \<in> set (tb_blobs tb)" using that repair_tables_fields(7) by blast
    then have "\<not> invalid_blob tb b" using assms by (simp add: value_problems_def)
    then show ?thesis by (cases b) (simp add: invalid_blob_def)
  qed
  ultimately show ?thesis using assms by (auto simp: value_problems_def)
qed

text \<open>
  C13. A repair always restores the index and the blobs. Whatever rows the full-text index and the blob table had, if
  the stored values pass the doctor's checks, a repair leaves the facts, the identities, the events and the counters
  as they are; then the index has exactly the live texts, every blob is referenced and every indirect value has its
  blob, and the doctor, which looks again, finds nothing to repair.
\<close>

theorem repairs_restore_the_index:
  assumes "facts_ok (db_tables d)" "distinct (map fst (tb_blobs (db_tables d)))" "value_problems (db_tables d) = []"
    and "d' = d\<lparr>db_store := (db_store d)\<lparr>st_tables := repair_tables (db_tables d)\<rparr>\<rparr>"
  shows "content_ok {} (db_tables d')
    \<and> tb_facts (db_tables d') = tb_facts (db_tables d) \<and> tb_ids (db_tables d') = tb_ids (db_tables d)
    \<and> tb_events (db_tables d') = tb_events (db_tables d) \<and> tb_next_id (db_tables d') = tb_next_id (db_tables d)
    \<and> (\<exists>report fatal. doctorReport ph d' = Inr (report, fatal) \<and> \<not> dr_repairNeeded report \<and> dr_orphanedBlobs report = 0
       \<and> dr_ftsRows report = dr_expectedFTSRows report)"
proof -
  let ?tb = "repair_tables (db_tables d)"
  note safe = repaired_values [OF assms(3)]
  have rows: "readExpectedFTSRows ?tb = Inr (readFTSRows ?tb)"
    using expected_total [OF safe] by (simp add: readFTSRows_def rebuilt_rows [OF assms(3)] index_rows_sorted repaired_index)
  have ok: "facts_ok ?tb" "distinct (map fst (tb_blobs ?tb))"
    using assms(1,2) by (simp_all add: facts_ok_def)
      (simp add: repair_tables_def delete_orphans_def rebuild_fts_def distinct_map_filter)
  have "length (readFTSRows ?tb) = count_rows live_text (tb_facts ?tb)"
    by (simp add: readFTSRows_def rebuilt_rows [OF assms(3)] index_rows_def select_facts_def count_rows_def)
  then have "\<exists>report fatal. doctorReport ph d' = Inr (report, fatal) \<and> \<not> dr_repairNeeded report
      \<and> dr_orphanedBlobs report = 0 \<and> dr_ftsRows report = dr_expectedFTSRows report"
    using rows safe repaired_orphans [of "db_tables d"]
    by (cases "inspectEventHashes (db_store d')") (simp add: doctorReport_def Let_def assms(4))
  note report = this
  have "\<exists>f \<in> set (tb_facts ?tb). refers h f" if "h \<in> blob_keys ?tb" for h
    using repaired_orphans [of "db_tables d"] that unfolding count_rows_0
    by (fastforce simp: blob_keys_def orphaned_def list_ex_iff refers_def)
  then have "blobs_ok {} ?tb" using ok(2) value_problems_Nil [OF safe] unfolding blobs_ok_def by blast
  then have "content_ok {} ?tb" using ok(1) expected_index_ok [OF ok(1) rows] by (simp add: content_ok_def)
  then show ?thesis using report by (simp add: assms(4))
qed

lemma Doctor_ok:
  assumes "tables_ok (db_tables d)" "cache_ok (db_store d)"
  shows "tables_ok (db_tables (snd (Doctor ph d repair))) \<and> cache_ok (db_store (snd (Doctor ph d repair)))
    \<and> tb_ids (db_tables (snd (Doctor ph d repair))) = tb_ids (db_tables d)"
proof -
  obtain r d' where run: "Doctor ph d repair = (r, d')" by fastforce
  show ?thesis
  proof (cases "d' = d")
    case False
    then obtain report where r: "r = Inr report" "repair = [True]"
      using run by (auto simp: Doctor_def Let_def split: sum.split_asm if_split_asm)
    have "facts_ok (db_tables d)" "distinct (map fst (tb_blobs (db_tables d)))"
      using assms(1) by (simp_all add: tables_ok_def content_ok_def blobs_ok_def)
    from Doctor_repairs [OF run [unfolded r] this]
    have d': "d' = d\<lparr>db_store := (db_store d)\<lparr>st_tables := repair_tables (db_tables d)\<rparr>\<rparr>"
      and content: "content_ok {} (repair_tables (db_tables d))" by auto
    have "ids_ok (repair_tables tb) = ids_ok tb" "events_ok (repair_tables tb) = events_ok tb" "counter_ok (repair_tables tb) = counter_ok tb"
      "recorded (repair_tables tb) = recorded tb" "txs_in S (repair_tables tb) = txs_in S tb" for tb S
      by (simp_all add: ids_ok_def events_ok_def counter_ok_def below_def recorded_def txs_in_def split: option.split)
    then show ?thesis
      using assms content by (simp add: run d' tables_ok_def cache_ok_def cached_def named_in_def anonymous_in_def)
  qed (use assms run in simp)
qed

definition ex_damaged :: tables where
  "ex_damaged =
    (empty_tables 0)\<lparr>tb_facts := [\<lparr>rf_id = 1, rf_e = 65, rf_a = 10, rf_v = SText ''hi'', rf_t = TagText, rf_tx = 64, rf_rx = None\<rparr>],
      tb_seq := 1, tb_fts := [(9, ''stale'')], tb_blobs := [(''k'', SBlob ''x'')]\<rparr>"

theorem repairs_restore_the_index_witness:
  "\<exists>d d'. db_tables d = ex_damaged \<and> db_tables d' = repair_tables ex_damaged \<and> content_ok {} (db_tables d')
    \<and> tb_fts (db_tables d') = [(1, ''hi'')] \<and> tb_blobs (db_tables d') = []
    \<and> (\<exists>report fatal. doctorReport \<lparr>ph_integrity = [''ok''], ph_layout = Inr ()\<rparr> d' = Inr (report, fatal) \<and> \<not> dr_repairNeeded report)"
proof -
  define s where "s = \<lparr>st_tables = ex_damaged, st_names = [], st_idNames = [], st_gids = [], st_dataVersion = 0, st_version = 1,
    st_readOnly = False, st_closed = False\<rparr>"
  define d where "d = \<lparr>db_store = s, db_asOf = None\<rparr>"
  define d' where "d' = d\<lparr>db_store := (db_store d)\<lparr>st_tables := repair_tables (db_tables d)\<rparr>\<rparr>"
  have d: "db_tables d = ex_damaged" by (simp add: d_def s_def)
  have ok: "facts_ok ex_damaged" "distinct (map fst (tb_blobs ex_damaged))"
    by (simp_all add: ex_damaged_def facts_ok_def)
  have safe: "value_problems ex_damaged = []"
    by (simp add: ex_damaged_def value_problems_def validPhysicalValue_def missing_blob_def invalid_blob_def indirect_tag_def
        BlobThreshold_def ValidString_def runes_def byte_of_def)
  have rows: "tb_fts (repair_tables ex_damaged) = [(1, ''hi'')]" "tb_blobs (repair_tables ex_damaged) = []"
    by (simp_all add: ex_damaged_def repair_tables_def delete_orphans_def rebuild_fts_def select_facts_def live_text_def live_def
        fts_source_def indirect_tag_def)
  have d': "db_tables d' = repair_tables ex_damaged" by (simp add: d'_def d)
  note T = repairs_restore_the_index [OF ok [folded d] safe [folded d] d'_def]
  then show ?thesis using d d' rows by metis
qed

end
