(* ===== verification/DoctorSound.thy ===== *)
theory DoctorSound
  imports DoctorFacts
begin

text \<open>
  What the verdict of the doctor is worth: the constraints of the SQL schema and a report without problems give the
  invariant of the tables.
\<close>

text \<open>What SQLite guarantees of a file by its constraints: keys, unique columns, checks of rows, 64-bit ids.\<close>

definition sql_ok :: "tables \<Rightarrow> bool" where
  "sql_ok tb \<longleftrightarrow> ids_ok tb \<and> events_ok tb \<and> facts_ok tb \<and> distinct (map fst (tb_blobs tb))
     \<and> (\<forall>r \<in> set (tb_ids tb). id_id r \<le> MaxInt64)"

lemma doctorReport_fatal:
  assumes "doctorReport ph d = Inr (report, fatal)" "dr_ok report"
  shows "fatal = []" "\<not> dr_repairNeeded report" "identifier_problems (db_tables d) = []" "registry_problems (db_tables d) = []"
  using assms by (auto simp: doctorReport_def Let_def res_bind_Inr_iff simp del: count_rows_0 split: prod.split_asm)

lemma fold_max_Max:
  fixes m :: int
  shows "fold max xs m = Max (insert m (set xs))"
  by (metis List.finite_set Max.set_eq_fold list.simps(15))

lemma registered_iff: "registered tb i \<longleftrightarrow> i \<in> set (map id_id (tb_ids tb))"
  by (auto simp: registered_def list_ex_iff)

lemma accepted_counter:
  assumes "identifier_problems tb = []" "registry_problems tb = []" "\<forall>r \<in> set (tb_ids tb). id_id r \<le> MaxInt64"
  shows "counter_ok tb"
proof -
  let ?ids = "identifiers tb"
  let ?max = "fold max ?ids (hd ?ids)"
  have facts: "i \<in> set (map id_id (tb_ids tb))" if "f \<in> set (tb_facts tb)" "i \<in> set (fact_identifiers f)" for f i
    using assms(2) that by (auto simp: registry_problems_def missing_registry_def registered_iff)
  have "select_facts (\<lambda>f. rf_e f = GenesisTx \<and> rf_a f = 1) tb \<noteq> []"
    using assms(2) by (auto simp: registry_problems_def genesis_problems_def readGenesisReceipt_def)
  then have "hd (select_facts (\<lambda>f. rf_e f = GenesisTx \<and> rf_a f = 1) tb) \<in> set (select_facts (\<lambda>f. rf_e f = GenesisTx \<and> rf_a f = 1) tb)"
    by (rule hd_in_set)
  then have gen: "\<exists>f \<in> set (tb_facts tb). rf_e f = GenesisTx" by (auto simp: select_facts_def)
  then have 64: "GenesisTx \<in> set (map id_id (tb_ids tb))" using facts by (fastforce simp: fact_identifiers_def)
  then have ne: "?ids \<noteq> []" by (auto simp: identifiers_def)
  have sub: "set ?ids = set (map id_id (tb_ids tb))" using facts by (auto simp: identifiers_def)
  have next_id: "tb_next_id tb = Some (?max + 1)" "?max \<noteq> MaxInt64"
    using assms(1) ne by (auto simp: identifier_problems_def allocator_problems_def Let_def split: if_split_asm)
  have max: "?max = Max (set ?ids)" using fold_max_Max [of ?ids "hd ?ids"] hd_in_set [OF ne] by (simp add: insert_absorb)
  then have "?max \<in> set ?ids" using ne by simp
  then have "?max \<le> MaxInt64" using assms(3) sub by auto
  moreover have below: "id_id r \<le> ?max" if "r \<in> set (tb_ids tb)" for r
    unfolding max using sub that by (intro Max_ge) auto
  moreover have "ev_tx r \<le> ?max" if "r \<in> set (tb_events tb)" for r
  proof -
    have "\<not> invalid_event tb r" using assms(2) that by (simp add: registry_problems_def)
    then obtain i where "find_id (ev_tx r) tb = Some i" by (cases "find_id (ev_tx r) tb") (simp_all add: invalid_event_def)
    then have "i \<in> set (tb_ids tb)" "id_id i = ev_tx r" by (auto simp: find_id_def find_Some_iff)
    then show ?thesis using below by force
  qed
  moreover have "GenesisTx \<le> ?max" unfolding max using 64 sub by (intro Max_ge) auto
  ultimately show ?thesis
    using next_id by (force simp: counter_ok_def below_def FirstUserID_def GenesisTx_def zless_add1_eq order_le_less)
qed

lemma accepted_txs: "identifier_problems tb = [] \<Longrightarrow> txs_in (recorded tb) tb"
proof -
  assume "identifier_problems tb = []"
  then have tx: "has_event tb (rf_tx f)" "\<not> missing_retraction tb f" if "f \<in> set (tb_facts tb)" for f
    using that by (simp_all add: identifier_problems_def)
  have rec: "has_event tb t \<longleftrightarrow> t \<in> recorded tb" for t by (auto simp: has_event_def recorded_def list_ex_iff)
  show ?thesis unfolding txs_in_def
  proof
    fix f assume "f \<in> set (tb_facts tb)"
    from tx [OF this] show "rf_tx f \<in> recorded tb \<and> (case rf_rx f of None \<Rightarrow> True | Some rx \<Rightarrow> rx \<in> recorded tb)"
      by (cases "rf_rx f") (simp_all add: rec missing_retraction_def)
  qed
qed

lemma doctor_sound:
  assumes "doctorReport ph d = Inr (report, fatal)" "dr_ok report" "sql_ok (db_tables d)"
  shows "tables_ok (db_tables d)"
proof -
  note healthy = doctorReport_fatal [OF assms(1,2)]
  have "content_ok {} (db_tables d)"
    using doctorReport_ok(1) [OF assms(1) healthy(1,2)] assms(3) by (simp add: sql_ok_def)
  then show ?thesis
    using accepted_counter [OF healthy(3,4)] accepted_txs [OF healthy(3)] assms(3) by (simp add: sql_ok_def tables_ok_def)
qed

text \<open>
  C15. The doctor is sound: if it finds a file healthy that satisfies the constraints of its SQL schema, then also what
  those constraints do not express holds: the identity counter is inside its range and above every identity and
  event, the full-text index has exactly the live texts, the blobs are exactly those that facts refer to, and every
  row was asserted and retracted by recorded transactions.
\<close>

theorem doctor_is_sound:
  assumes "doctorReport ph d = Inr (report, fatal)" "dr_ok report" "sql_ok (db_tables d)"
  shows "counter_ok (db_tables d) \<and> fts_ok (db_tables d) \<and> blobs_ok {} (db_tables d)
    \<and> txs_in (recorded (db_tables d)) (db_tables d)"
  using doctor_sound [OF assms] by (simp add: tables_ok_def content_ok_def)

end
