(* ===== verification/ReceiptFacts.thy ===== *)
theory ReceiptFacts
  imports TransactFacts
begin

text \<open>
  Receipts (receipt.go, transact.go): a transaction that committed under an operation id can be read back, so
  that repeating the request is answered from the event table.
\<close>

subsection \<open>Where the new rows are\<close>

lemma retract_row_suffix:
  assumes "retract_row d tx f = Inr tb'" "facts_ok (db_tables d)" "tb_facts (db_tables d) = xs @ rows" "f \<in> set xs"
  obtains ys where "tb_facts tb' = ys @ rows" "rf_tx ` set ys \<subseteq> rf_tx ` set xs" "set xs - {f} \<subseteq> set ys"
proof -
  have "distinct (map rf_id (xs @ rows))" using facts_ok_distinct [OF assms(2)] assms(3) by simp
  then have rows: "rf_id g \<noteq> rf_id f" if "g \<in> set rows" for g using that assms(4) by auto
  have other: "g = f" if "g \<in> set xs" "rf_id g = rf_id f" for g
    using facts_ok_id_inj [OF assms(2)] assms(3,4) that by auto
  show thesis using assms(1)
  proof (cases rule: retract_row_cases)
    case (delete sc)
    then have "tb_facts tb' = filter (\<lambda>g. rf_id g \<noteq> rf_id f) xs @ rows"
      using rows by (simp add: assms(3) delete_fts_def)
    then show thesis using other by (intro that) auto
  next
    case (close sc tb1)
    have same: "map (close_row tx (rf_id f)) rows = rows" using rows by (intro map_idI) (simp add: close_row_def)
    have eq: "tb_facts tb' = map (close_row tx (rf_id f)) xs @ rows"
      using close(4) retract_fact_Inr(1) [OF close(3)] same by (simp add: assms(3) delete_fts_def)
    have "g \<in> close_row tx (rf_id f) ` set xs" if "g \<in> set xs" "g \<noteq> f" for g
      using that other by (intro image_eqI [of _ _ g]) (auto simp: close_row_def)
    then have "set xs - {f} \<subseteq> set (map (close_row tx (rf_id f)) xs)" by auto
    then show thesis by (intro that [OF eq]) (auto simp: image_image)
  qed
qed

lemma retract_run_suffix:
  assumes "res_fold (retract_one tx) fs (d, out) = Inr (d', out')" "content_ok C (db_tables d)"
    and "set fs \<subseteq> live_set (db_tables d)" "distinct fs" "tb_facts (db_tables d) = xs @ rows" "set fs \<subseteq> set xs"
  shows "\<exists>ys. tb_facts (db_tables d') = ys @ rows \<and> rf_tx ` set ys \<subseteq> rf_tx ` set xs"
  using assms
proof (induction fs arbitrary: d out C xs)
  case (Cons f fs)
  obtain tb r where row: "retract_row d tx f = Inr tb"
    and run: "res_fold (retract_one tx) fs (d\<lparr>db_store := (db_store d)\<lparr>st_tables := tb\<rparr>\<rparr>, out @ [r]) = Inr (d', out')"
    using Cons.prems(1) by (auto simp: res_iff retract_one_Inr)
  have f: "f \<in> live_set (db_tables d)" "f \<in> set xs" using Cons.prems(3,6) by auto
  have ok: "facts_ok (db_tables d)" using Cons.prems(2) by (simp add: content_ok_def)
  note step = retract_row_content [OF row Cons.prems(2) f(1)]
  obtain ys where ys: "tb_facts tb = ys @ rows" "rf_tx ` set ys \<subseteq> rf_tx ` set xs" "set xs - {f} \<subseteq> set ys"
    using retract_row_suffix [OF row ok Cons.prems(5) f(2)] .
  have "set fs \<subseteq> live_set tb" "set fs \<subseteq> set ys" using Cons.prems(3,4,6) step(2) ys(3) by auto
  then have "\<exists>zs. tb_facts (db_tables d') = zs @ rows \<and> rf_tx ` set zs \<subseteq> rf_tx ` set ys"
    using Cons.IH [OF run, of "C \<union> {h. refers h f}" ys] step(1) ys(1) Cons.prems(4) by simp
  then show ?case using ys(2) by (meson order_trans)
qed auto

lemma write_facts_suffix:
  assumes run: "write_facts tx pl al facts rets d = Inr (d', asserted, retracted)"
    and st: "\<forall>f \<in> set facts. storable (pf_value f)" and ok: "content_ok {} (db_tables d)"
    and rets: "set rets \<subseteq> live_set (db_tables d)" "distinct rets"
  shows "\<exists>ys rows. tb_facts (db_tables d') = ys @ rows \<and> rf_tx ` set ys \<subseteq> rf_tx ` set (tb_facts (db_tables d))
     \<and> map raw_key rows = map planned_key facts \<and> (\<forall>r \<in> set rows. rf_tx r = tx)"
proof -
  obtain s1 out1 d2 out2 where ins: "res_fold (insert_planned al tx) facts (db_store d, []) = Inr (s1, out1)"
    and ret: "res_fold (retract_one tx) rets (d\<lparr>db_store := s1\<rparr>, []) = Inr (d2, out2)"
    and d': "db_tables d' = flush al (fold gc_blob (remdups (concat (map garbage_candidate rets))) (db_tables d2))"
    using run by (auto simp: write_facts_def Let_def res_iff)
  obtain rows where 1: "content_ok {} (st_tables s1)" "tb_facts (st_tables s1) = tb_facts (db_tables d) @ rows"
      "map raw_key rows = map planned_key facts" "\<forall>r \<in> set rows. rf_tx r = tx \<and> live r"
    using insert_run [OF ins st ok] by auto
  have "set rets \<subseteq> live_set (st_tables s1)" "set rets \<subseteq> set (tb_facts (db_tables d))"
    using rets(1) 1(2) by (auto simp: live_set_def)
  then obtain ys where "tb_facts (db_tables d2) = ys @ rows" "rf_tx ` set ys \<subseteq> rf_tx ` set (tb_facts (db_tables d))"
    using retract_run_suffix [OF ret, of "{}" "tb_facts (db_tables d)" rows] 1(1,2) rets(2) by auto
  then show ?thesis using 1(3,4) unfolding d' by (intro exI [of _ ys] exI [of _ rows]) (simp add: flush_def)
qed

subsection \<open>Reading an event back\<close>

text \<open>The attributes of transaction metadata have names.\<close>

definition system_named :: "tables \<Rightarrow> bool" where
  "system_named tb \<longleftrightarrow> (\<forall>k \<in> {1, 2, 3, 4, 13}. \<exists>n. attributeName tb k = Inr n)"

lemma export_run:
  assumes "res_fold (export_assertion s tx) fs st = Inr st'" "system_named (st_tables s)" "f \<in> set fs"
  shows "\<exists>r. renderRaw s f None = Inr r"
  using assms
proof (induction fs arbitrary: st)
  case (Cons g fs)
  obtain st1 where one: "export_assertion s tx g st = Inr st1" and run: "res_fold (export_assertion s tx) fs st1 = Inr st'"
    using Cons.prems(1) by (auto simp: res_bind_Inr_iff)
  obtain line tuples txFacts where st: "st = (line, tuples, txFacts)" by (cases st)
  have "\<exists>r. renderRaw s g None = Inr r"
  proof (cases "rf_e g = tx \<and> rf_a g \<in> {1, 2, 3, 4, 13}")
    case True
    then have "\<exists>n. attributeName (st_tables s) (rf_a g) = Inr n" using Cons.prems(2) by (auto simp: system_named_def)
    then show ?thesis
      using one by (auto simp: st export_assertion_def renderRaw_def renderRawLogical_def res_bind_Inr_iff)
  next
    case False
    then show ?thesis
      using one by (auto simp: st export_assertion_def exportTuple_def renderRaw_def renderRawLogical_def res_bind_Inr_iff split: if_splits)
  qed
  then show ?case using Cons.IH [OF run Cons.prems(2)] Cons.prems(3) by auto
qed simp

lemma export_renders:
  assumes "exportTransaction s tx now = Inr rec" "system_named (st_tables s)"
  shows "\<exists>g. event_uuid (st_tables s) tx = Inr g"
    "\<exists>xs. res_map (\<lambda>f. renderRaw s f None) (select_facts (\<lambda>f. rf_tx f = tx) (st_tables s)) = Inr xs"
    "\<exists>xs. res_map (\<lambda>f. renderRaw s f (Some tx)) (select_facts (\<lambda>f. rf_rx f = Some tx) (st_tables s)) = Inr xs"
proof -
  let ?tb = "st_tables s"
  obtain g st0 st1 rets where uuid: "event_uuid ?tb tx = Inr g"
    and run: "res_fold (export_assertion s tx) (select_facts (\<lambda>f. rf_tx f = tx) ?tb) st0 = Inr st1"
    and ret: "res_map (\<lambda>f. res_bind (logicalValue ?tb (rf_v f) (rf_t f)) (exportTuple s f)) (select_facts (\<lambda>f. rf_rx f = Some tx) ?tb) = Inr rets"
    using assms(1) by (auto simp: exportTransaction_def Let_def res_bind_Inr_iff)
  have total: "\<exists>xs. res_map h fs = Inr xs" if "\<forall>f \<in> set fs. \<exists>r. h f = Inr r" for h :: "rawFact \<Rightarrow> Fact res" and fs
    using that by (induction fs) (auto simp: res_bind_Inr_iff)
  show "\<exists>g. event_uuid ?tb tx = Inr g" using uuid by blast
  show "\<exists>xs. res_map (\<lambda>f. renderRaw s f None) (select_facts (\<lambda>f. rf_tx f = tx) ?tb) = Inr xs"
    by (rule total) (use export_run [OF run assms(2)] in blast)
  have "\<exists>r. renderRaw s f (Some tx) = Inr r" if "f \<in> set (select_facts (\<lambda>f. rf_rx f = Some tx) ?tb)" for f
  proof -
    have "\<exists>y. res_bind (logicalValue ?tb (rf_v f) (rf_t f)) (exportTuple s f) = Inr y"
      using res_map_member [OF ret that] by metis
    then show ?thesis by (auto simp: exportTuple_def renderRaw_def renderRawLogical_def res_bind_Inr_iff)
  qed
  then show "\<exists>xs. res_map (\<lambda>f. renderRaw s f (Some tx)) (select_facts (\<lambda>f. rf_rx f = Some tx) ?tb) = Inr xs"
    by (intro total) blast
qed

lemma event_at_found:
  assumes "tb_facts tb = ys @ r # rows" "tx \<notin> rf_tx ` set ys" "raw_key r = (tx, 1, t, SInt now)" "rf_tx r = tx"
  shows "event_at tb tx = Inr now"
proof -
  have "find (\<lambda>f. rf_e f = tx \<and> rf_a f = 1 \<and> rf_tx f = tx) ys = None" using assms(2) by (force simp: find_None_iff)
  then show ?thesis using assms by (simp add: event_at_def find_Some_append raw_key_def)
qed

text \<open>Recording the event row changes nothing that a receipt reads but the event table.\<close>

lemma logicalValue_cong: "tb_blobs tb' = tb_blobs tb \<Longrightarrow> logicalValue tb' = logicalValue tb"
  unfolding logicalValue_def by (rule ext)+ presburger

lemma renderRaw_cong:
  assumes "tb_blobs tb = tb_blobs (st_tables s)" "tb_ids tb = tb_ids (st_tables s)"
  shows "renderRaw (s\<lparr>st_tables := tb\<rparr>) = renderRaw s"
proof -
  have disp: "displayEntity (s\<lparr>st_tables := tb\<rparr>) = displayEntity s"
    by (simp add: displayEntity_def fun_eq_iff)
  have alloc: "displayEntityAllocated (s\<lparr>st_tables := tb\<rparr>) = displayEntityAllocated s"
    unfolding displayEntityAllocated_def disp ..
  have "renderLogical (s\<lparr>st_tables := tb\<rparr>) = renderLogical s"
    unfolding renderLogical_def renderLogicalAllocated_def alloc ..
  then show ?thesis
    using logicalValue_cong [OF assms(1)] assms(2)
    by (simp add: fun_eq_iff renderRaw_def renderRawLogical_def attributeName_def find_id_def disp)
qed

lemma with_event_same:
  "renderRaw (s\<lparr>st_tables := (st_tables s)\<lparr>tb_events := evs\<rparr>\<rparr>) = renderRaw s"
  "event_uuid (tb\<lparr>tb_events := evs\<rparr>) = event_uuid tb" "event_at (tb\<lparr>tb_events := evs\<rparr>) = event_at tb"
  "select_facts P (tb\<lparr>tb_events := evs\<rparr>) = select_facts P tb"
  by (simp_all add: renderRaw_cong fun_eq_iff find_id_def event_uuid_def event_at_def select_facts_def)

lemma find_append: "find P (xs @ ys) = (case find P xs of Some x \<Rightarrow> Some x | None \<Rightarrow> find P ys)"
  by (induction xs) auto

lemma system_named_grows:
  assumes "tb_ids tb' = tb_ids tb @ rows" "system_named tb"
  shows "system_named tb'"
proof -
  have "attributeName tb' k = Inr n" if "attributeName tb k = Inr n" for k n
    using that by (auto simp: attributeName_def find_id_def assms(1) find_append wrap_def split: option.splits)
  then show ?thesis using assms(2) unfolding system_named_def by blast
qed

lemma commit_receipt:
  assumes run: "commit_transaction en d basis c h as rets pl = Inr (report, s')"
    and ok: "tables_ok (db_tables d)" and al: "alloc_ok (pl_alloc pl)" "tb_next_id (db_tables d) = Some (al_first (pl_alloc pl))"
    and st: "\<forall>f \<in> set as. storable (pf_value f)"
    and rets: "set rets \<subseteq> live_set (db_tables d)" "distinct rets" and named: "system_named (db_tables d)"
  shows "\<exists>r. eventReceipt s' (tr_tx report) = Inr r \<and> tr_tx r = tr_tx report \<and> tr_at r = tr_at report"
proof -
  obtain bv sv mv tx al' now uuid s1 al1 d2 asserted retracted where
      v: "metadata_value textStored (to_by c) = Inr bv" "metadata_value textStored (to_source c) = Inr sv"
         "metadata_value jsonStored (to_meta c) = Inr mv"
    and tx: "alloc_tx (pl_alloc pl) = Inr (tx, al')"
    and fin: "finalize en tx uuid (db_store d) al' = Inr (s1, al1)"
    and wr: "write_facts tx pl al1 (metadata_facts tx now bv sv mv @ map (target_tx tx) as) rets (d\<lparr>db_store := s1\<rparr>)
          = Inr (d2, asserted, retracted)"
    and ev: "record_event tx now c h (db_store d2) = Inr s'" and rep: "tr_tx report = tx" "tr_at report = now"
    using run by (rule commit_transactionE)
  let ?tb = "db_tables d" let ?facts = "metadata_facts tx now bv sv mv @ map (target_tx tx) as"
  have st': "\<forall>f \<in> set ?facts. storable (pf_value f)"
    using st metadata_storable [OF v] by (auto simp: metadata_facts_def target_tx_def)
  note W = commit_writes [OF ok al tx fin wr ev st' rets]
  have D: "below (al_first (pl_alloc pl)) ?tb" "ids_ok ?tb" "content_ok {} ?tb" "txs_in (recorded ?tb) ?tb"
    using ok al(2) by (auto elim: tables_okD)
  obtain ids where s1: "st_tables s1 = ?tb\<lparr>tb_ids := ids\<rparr>" using ids_added_same [OF finalize_Inr(2) [OF fin D(2)]] by blast
  have content1: "content_ok {} (st_tables s1)" using D(3) by (subst content_ok_cong [of _ ?tb]) (simp_all add: s1)
  have live1: "set rets \<subseteq> live_set (st_tables s1)" using rets(1) by (simp add: s1 live_set_def)
  obtain ys rows where rows: "tb_facts (db_tables d2) = ys @ rows" "rf_tx ` set ys \<subseteq> rf_tx ` set (tb_facts ?tb)"
      "map raw_key rows = map planned_key ?facts" "\<forall>r \<in> set rows. rf_tx r = tx"
    using write_facts_suffix [OF wr st'] content1 live1 rets(2) by (auto simp: s1)
  obtain r where s': "s' = (db_store d2)\<lparr>st_tables := (db_tables d2)\<lparr>tb_events := tb_events (db_tables d2) @ [r]\<rparr>\<rparr>"
    using ev by (rule record_event_Inr)
  obtain rec where rec: "exportTransaction (db_store d2) tx now = Inr rec"
    using ev by (auto simp: record_event_def res_bind_Inr_iff)
  obtain new where new: "tb_ids (db_tables d2) = tb_ids ?tb @ new"
    using ids_added_append [OF W(5)] by (auto simp: s')
  note E = export_renders [OF rec system_named_grows [OF new named]]
  have "rf_tx f < tx" if "f \<in> set (tb_facts ?tb)" for f
    using that D(1,4) alloc_tx_Inr(5) [OF tx al(1)] by (fastforce simp: txs_in_def recorded_def below_def)
  then have fresh: "tx \<notin> rf_tx ` set ys" using rows(2) by fastforce
  obtain r0 rows' where r0: "rows = r0 # rows'" "raw_key r0 = (tx, 1, TagInstant, SInt now)"
    using rows(3) by (auto simp: metadata_facts_def metadata_fact_def planned_key_def fact_key_def)
  have now: "event_at (db_tables d2) tx = Inr now"
    by (rule event_at_found [OF _ fresh r0(2)]) (use rows(1,4) r0(1) in auto)
  show ?thesis
    using E now unfolding s' rep by (auto simp: eventReceipt_def Let_def with_event_same res_bind_Inr_iff)
qed

text \<open>The row that a committed request with an operation id leaves, and its receipt.\<close>

lemma operation_check_fresh:
  assumes "operation_check s data c = Inr (Fresh h)" "to_operationID c = Some op"
  obtains hash where "h = Some hash" "validateOperationID op = Inr ()" "request_hash data c = Inr hash"
    "operationReceipt s op hash = Inr None"
    "\<not> (case to_requestHash c of None \<Rightarrow> False | Some h \<Rightarrow> length h \<noteq> 32)" "\<not> (to_requestHash c \<noteq> None \<and> to_requestHashBase c \<noteq> None)"
  using assms by (auto simp: operation_check_def res_bind_Inr_iff split: if_split_asm option.split_asm)

lemma recorded_request:
  assumes run: "transactOn en d data c = Inr (report, s')" and ok: "tables_ok (db_tables d)"
    and status: "tr_status report = ''applied''" and op: "to_operationID c = Some op"
  obtains row hash where "find (\<lambda>r. ev_op r = Some op) (tb_events (st_tables s')) = Some row" "ev_tx row = tr_tx report"
    "ev_req row = Some hash" "request_hash data c = Inr hash" "validateOperationID op = Inr ()"
    "\<not> (case to_requestHash c of None \<Rightarrow> False | Some h \<Rightarrow> length h \<noteq> 32)" "\<not> (to_requestHash c \<noteq> None \<and> to_requestHashBase c \<noteq> None)"
  using run ok
proof (cases rule: transactOn_cases)
  case prior
  then show thesis using status prior_status by fastforce
next
  case (commit h input d0 as0 rets txf pl0 as pl n)
  obtain m where as: "as = map (remap_fact m) as0" using commit(10) by blast
  note tb = planned_on_tables [OF commit(3)] note P = plan_transaction_ok [OF commit(4)]
  have st: "\<forall>f \<in> set as. storable (pf_value f)" using P(2) tb commit(5) ok by (auto simp: as remap_value_storable)
  have hyps: "tables_ok (db_tables d0)" "tb_next_id (db_tables d0) = Some (al_first (pl_alloc pl))"
    "set rets \<subseteq> live_set (db_tables d0)" "distinct rets"
    using ok tb commit(5,7) P(3,4) by simp_all
  obtain hash where h: "h = Some hash" "validateOperationID op = Inr ()" "request_hash data c = Inr hash"
    "operationReceipt (db_store d) op hash = Inr None"
    "\<not> (case to_requestHash c of None \<Rightarrow> False | Some h \<Rightarrow> length h \<noteq> 32)" "\<not> (to_requestHash c \<noteq> None \<and> to_requestHashBase c \<noteq> None)"
    using commit(1) op by (rule operation_check_fresh)
  obtain row where row: "tb_events (st_tables s') = tb_events (db_tables d) @ [row]" "ev_tx row = tr_tx report"
      "ev_op row = Some op" "ev_req row = Some hash"
    by (rule commit_transaction_Inr [OF commit(11) hyps(1) commit(6) hyps(2) st hyps(3,4)]) (use op h(1) tb in auto)
  have "find (\<lambda>r. ev_op r = Some op) (tb_events (db_tables d)) = None"
    using h(4) by (auto simp: operationReceipt_def res_bind_Inr_iff split: option.split_asm if_split_asm)
  then show thesis using that [of row hash] row h by (simp add: find_Some_append)
qed (use status in simp)

lemma receipt_after_commit:
  assumes run: "transactOn en d data c = Inr (report, s')" and ok: "tables_ok (db_tables d)"
    and status: "tr_status report = ''applied''" and named: "system_named (db_tables d)"
  obtains r where "eventReceipt s' (tr_tx report) = Inr r" "tr_tx r = tr_tx report" "tr_at r = tr_at report"
  using run ok
proof (cases rule: transactOn_cases)
  case prior
  then show thesis using status prior_status by fastforce
next
  case (commit h input d0 as0 rets txf pl0 as pl n)
  obtain m where as: "as = map (remap_fact m) as0" using commit(10) by blast
  note tb = planned_on_tables [OF commit(3)] note P = plan_transaction_ok [OF commit(4)]
  have st: "\<forall>f \<in> set as. storable (pf_value f)" using P(2) tb commit(5) ok by (auto simp: as remap_value_storable)
  have hyps: "tables_ok (db_tables d0)" "tb_next_id (db_tables d0) = Some (al_first (pl_alloc pl))"
    "set rets \<subseteq> live_set (db_tables d0)" "distinct rets"
    using ok tb commit(5,7) P(3,4) by simp_all
  show thesis
    using commit_receipt [OF commit(11) hyps(1) commit(6) hyps(2) st hyps(3,4)] named tb that by auto
qed (use status in simp)

text \<open>
  A request that was committed under an operation id is answered from its receipt: whatever the state of the
  environment, the second run changes nothing and reports the first transaction.
\<close>

lemma retry_answered:
  assumes run: "transactOn en d data c = Inr (report, s')" and ok: "tables_ok (db_tables d)"
    and status: "tr_status report = ''applied''" and op: "to_operationID c = Some op" and named: "system_named (db_tables d)"
  shows "\<exists>report2. transactOn en' (d'\<lparr>db_store := s'\<rparr>) data c = Inr (report2, s')
     \<and> tr_status report2 = ''already_applied'' \<and> tr_tx report2 = tr_tx report \<and> tr_at report2 = tr_at report"
proof -
  obtain r where r: "eventReceipt s' (tr_tx report) = Inr r" "tr_tx r = tr_tx report" "tr_at r = tr_at report"
    using run ok status named by (rule receipt_after_commit)
  obtain row hash where row: "find (\<lambda>r. ev_op r = Some op) (tb_events (st_tables s')) = Some row" "ev_tx row = tr_tx report"
      "ev_req row = Some hash"
    and h: "request_hash data c = Inr hash" "validateOperationID op = Inr ()"
      "\<not> (case to_requestHash c of None \<Rightarrow> False | Some h \<Rightarrow> length h \<noteq> 32)" "\<not> (to_requestHash c \<noteq> None \<and> to_requestHashBase c \<noteq> None)"
    using run ok status op by (rule recorded_request)
  have "operation_check s' data c = Inr (Prior (alreadyAppliedReport r))"
    using op row h r(1) by (simp add: operation_check_def operationReceipt_def)
  then have "transactOn en' (d'\<lparr>db_store := s'\<rparr>) data c = Inr (alreadyAppliedReport r, s')"
    using transactOn_prior [of "d'\<lparr>db_store := s'\<rparr>"] by simp
  then show ?thesis using r(2,3) by (simp add: alreadyAppliedReport_def)
qed

text \<open>Another request under the operation id of a recorded one is refused, however many events came after it.\<close>

lemma reuse_refused:
  assumes "transactOn en d data c = Inr (report, s')" "tables_ok (db_tables d)" "tr_status report = ''applied''"
    and "to_operationID c = Some op" "request_hash data c = Inr h" "tb_events (db_tables d2) = tb_events (st_tables s') @ later"
    and "to_operationID c2 = Some op" "request_hash data2 c2 = Inr h2" "h2 \<noteq> h"
    and "to_requestHash c2 = None \<or> length h2 = 32 \<and> to_requestHashBase c2 = None"
  shows "transactOn en2 d2 data2 c2 = fail ErrConflict"
proof -
  obtain row where row: "find (\<lambda>r. ev_op r = Some op) (tb_events (st_tables s')) = Some row" "ev_req row = Some h"
    and op: "validateOperationID op = Inr ()"
    by (rule recorded_request [OF assms(1-4)]) (use assms(5) in auto)
  have "find (\<lambda>r. ev_op r = Some op) (tb_events (db_tables d2)) = Some row"
    using row(1) by (simp add: assms(6) find_append)
  then have "operationReceipt (db_store d2) op h2 = fail ErrConflict"
    using row(2) assms(9) by (simp add: operationReceipt_def)
  moreover have "\<not> (case to_requestHash c2 of None \<Rightarrow> False | Some g \<Rightarrow> length g \<noteq> 32)"
    "\<not> (to_requestHash c2 \<noteq> None \<and> to_requestHashBase c2 \<noteq> None)"
    using assms(8,10) by (auto simp: request_hash_def split: option.split)
  ultimately show ?thesis
    using assms(7,8) op by (simp add: transactOn_def operation_check_def)
qed

end
