(* ===== verification/ApplyFacts.thy ===== *)
theory ApplyFacts
  imports Apply CacheFacts ReceiptFacts
begin

text \<open>
  Applied events: an event that was applied is recognised by its identity and its hash and answered from its receipt,
  and a stream keeps the invariant of the tables and of the name caches whether it commits or not.
\<close>

subsection \<open>Lines\<close>

text \<open>What every step of a loop keeps, the loop over the lines of a stream keeps.\<close>

locale kept_by_lines = kept_by step inv
  for step :: "string \<Rightarrow> 's \<Rightarrow> 's res" and inv :: "'s \<Rightarrow> bool"
begin

lemma lines_keep: "each_line n step rd s = Inr s' \<Longrightarrow> inv s \<Longrightarrow> inv s'"
proof (induction "length (rd_bytes rd)" arbitrary: rd s rule: less_induct)
  case less
  show ?case
  proof (cases "readPortableLineLimit n rd")
    case (Inl e)
    then show ?thesis using less(2) by (simp add: each_line.simps read_failed_def wrap_def split: if_split_asm)
  next
    case (Inr p)
    obtain line eof rd' where p: "p = (line, eof, rd')" by (cases p)
    obtain s1 where s1: "(if blank line then Inr s else step line s) = Inr s1" "if eof then s' = s1 else each_line n step rd' s1 = Inr s'"
      using less(2) Inr p by (cases eof) (auto simp: each_line.simps [of n] res_bind_Inr_iff)
    have "inv s1" using s1(1) less(3) step_keeps by (auto split: if_split_asm)
    moreover have "length (rd_bytes rd') < length (rd_bytes rd)" if "\<not> eof"
      using readPortableLineLimit_shrinks Inr p that by simp
    ultimately show ?thesis using s1(2) less(1) by (cases eof) auto
  qed
qed

end

subsection \<open>The identity and the hash of a committed event\<close>

lemma finalize_event_row:
  assumes "res_fold (finalize_one en tx ev) ps (s, a, k) = Inr (s', a', k')" "ids_ok (st_tables s)"
    and "p \<in> set ps" "pi_kind p = IdentityEvent"
  shows "\<lparr>id_id = tx, id_name = None, id_gid = Some ev, id_created = tx\<rparr> \<in> set (tb_ids (st_tables s'))"
  using assms
proof (induction ps arbitrary: s a k)
  case (Cons q ps)
  obtain s1 a1 k1 where one: "finalize_one en tx ev q (s, a, k) = Inr (s1, a1, k1)"
    and run: "res_fold (finalize_one en tx ev) ps (s1, a1, k1) = Inr (s', a', k')"
    using Cons.prems(1) by (auto simp: res_iff)
  obtain r g where r: "insert_id r (st_tables s) = Inr (st_tables s1)" using one by (rule finalize_one_Inr)
  have ok: "ids_ok (st_tables s1)" by (rule insert_id_ok [OF Cons.prems(2) r])
  show ?case
  proof (cases "p \<in> set ps")
    case True
    then show ?thesis using Cons.IH [OF run ok _ Cons.prems(4)] by simp
  next
    case False
    with Cons.prems(3,4) have q: "pi_kind q = IdentityEvent" by auto
    from one q have "\<lparr>id_id = tx, id_name = None, id_gid = Some ev, id_created = tx\<rparr> \<in> set (tb_ids (st_tables s1))"
      by (auto simp: finalize_one_def wrap_def split: if_split_asm sum.split_asm dest!: insert_id_Inr)
    then show ?thesis using finalize_run [OF run ok] by (auto simp: ids_added_def)
  qed
qed simp

lemma find_key:
  "distinct (filter (\<lambda>a. a \<noteq> None) (map k xs)) \<Longrightarrow> x \<in> set xs \<Longrightarrow> k x = Some g \<Longrightarrow> find (\<lambda>y. k y = Some g) xs = Some x"
  by (induction xs) (force split: if_split_asm)+

lemma find_gid_row: "ids_ok tb \<Longrightarrow> r \<in> set (tb_ids tb) \<Longrightarrow> id_gid r = Some g \<Longrightarrow> find_gid g tb = Some (id_id r)"
  by (simp add: find_gid_def ids_ok_def find_key)

lemma find_event_row: "events_ok tb \<Longrightarrow> r \<in> set (tb_events tb) \<Longrightarrow> find (\<lambda>q. ev_tx q = ev_tx r) (tb_events tb) = Some r"
  unfolding events_ok_def by (cases "find (\<lambda>q. ev_tx q = ev_tx r) (tb_events tb)")
    (auto simp: find_None_iff find_Some_iff distinct_map inj_on_def)

lemma commit_event:
  assumes run: "commit_transaction en d basis c h as rets pl = Inr (report, s')"
    and ok: "ids_ok (db_tables d)" "ids_ok (st_tables s')" "events_ok (st_tables s')"
    and c: "to_eventID c = Some e" "parseUUID e = Inr uuid" "to_eventHash c = Some hash"
  shows "find_gid uuid (st_tables s') = Some (tr_tx report)
    \<and> map_option ev_hash (find (\<lambda>r. ev_tx r = tr_tx report) (tb_events (st_tables s'))) = Some hash"
proof -
  obtain facts tx al now e' u s1 al1 d2 asserted retracted where
      tx: "alloc_tx (pl_alloc pl) = Inr (tx, al)" and id: "event_identity en c tx = Inr (e', u)"
    and fin0: "finalize en tx u (db_store d) al = Inr (s1, al1)"
    and wr: "write_facts tx pl al1 facts rets (d\<lparr>db_store := s1\<rparr>) = Inr (d2, asserted, retracted)"
    and ev: "record_event tx now c h (db_store d2) = Inr s'" and rep: "tr_tx report = tx"
    using run by (auto simp: commit_transaction_def Let_def res_iff)
  have "u = uuid" using id c by (simp add: event_identity_def split: if_split_asm)
  note fin = fin0 [unfolded this]
  let ?row = "\<lparr>id_id = tx, id_name = None, id_gid = Some uuid, id_created = tx\<rparr>"
  have "\<lparr>pi_name = [], pi_id = tx, pi_kind = IdentityEvent\<rparr> \<in> set (al_pending al)"
    using tx by (auto simp: alloc_tx_def allocate_def split: if_split_asm)
  then have "?row \<in> set (tb_ids (st_tables s1))"
    using fin ok(1) by (auto simp: finalize_def res_iff intro: finalize_event_row)
  moreover have "same_cache s1 (db_store d2)" using write_facts_cache [OF wr] by simp
  then have "tb_ids (db_tables d2) = tb_ids (st_tables s1)" by (auto simp: same_cache_def)
  moreover have "tb_ids (st_tables s') = tb_ids (db_tables d2)" using record_event_cache [OF ev] by (auto simp: same_cache_def)
  ultimately have "?row \<in> set (tb_ids (st_tables s'))" by simp
  from find_gid_row [OF ok(2) this] have gid: "find_gid uuid (st_tables s') = Some tx" by simp
  from ev c(3) have "\<exists>r \<in> set (tb_events (st_tables s')). ev_tx r = tx \<and> ev_hash r = hash"
    by (auto simp: record_event_def res_iff check_def split: if_split_asm dest!: insert_event_Inr)
  with gid find_event_row [OF ok(3)] show ?thesis by (fastforce simp: rep)
qed

subsection \<open>Applying an event twice\<close>

text \<open>An event is committed, never answered as a no-op: the options force it and name no operation.\<close>

lemma event_request_options:
  assumes "event_request tb rec e h = Inr (operations, c)"
  shows "to_force c" "to_operationID c = None" "to_eventID c = Some e" "to_eventHash c = Some h" "to_requestHash c = None"
    "to_txFacts c \<noteq> None"
  using assms by (auto simp: event_request_def res_iff noOptions_def)

lemma event_id_uuid: "event_id rec = Inr (e, uuid) \<Longrightarrow> parseUUID e = Inr uuid"
  by (auto simp: event_id_def split: option.split_asm any.split_asm sum.split_asm if_split_asm)

lemma event_line_uuid:
  assumes "event_line line = Inr (rec, e, uuid, hash)"
  shows "parseUUID e = Inr uuid"
proof -
  obtain decoded where decoded: "DecodeJSON line = Inr decoded" using assms by (auto simp: event_line_def res_bind_Inr_iff)
  have "event_id rec = Inr (e, uuid)"
    using assms decoded
    by (cases "objectMap decoded") (auto simp: event_line_def res_bind_Inr_iff res_wrap_def split: if_split_asm)
  then show ?thesis by (rule event_id_uuid)
qed

lemma rewrap_Inr [simp]: "rewrap m = Inr x \<longleftrightarrow> m = Inr x"
  by (cases m) (simp_all add: rewrap_def wrap_def)

lemma transactOn_forced:
  assumes "transactOn en d data c = Inr (report, s')" "to_force c"
  shows "tr_status report \<noteq> ''noop''"
proof -
  obtain answer where answer: "operation_check (db_store d) data c = Inr answer" using assms(1) by (rule transactOn_check)
  show ?thesis
  proof (cases answer)
    case (Prior r)
    then show ?thesis using transactOn_prior [of d data c r en] prior_status answer assms(1) by fastforce
  next
    case (Fresh h)
    then obtain d0 as rets pl where "commit_transaction en d0 (basisOn (db_tables d)) c h as rets pl = Inr (report, s')"
      using assms answer by (auto simp: transactOn_def Let_def res_bind_Inr_iff split: if_split_asm)
    then show ?thesis by (rule commit_transactionE) simp
  qed
qed

lemma commit_answered:
  assumes run: "transactOn en d data c = Inr (report, s')" and ok: "tables_ok (db_tables d)" and named: "system_named (db_tables d)"
    and c: "to_force c" "to_operationID c = None" "to_eventID c = Some e" "parseUUID e = Inr uuid" "to_eventHash c = Some hash"
  shows "\<exists>r. find_gid uuid (st_tables s') = Some (tr_tx report)
    \<and> map_option ev_hash (find (\<lambda>r. ev_tx r = tr_tx report) (tb_events (st_tables s'))) = Some hash
    \<and> eventReceipt s' (tr_tx report) = Inr r \<and> tr_tx r = tr_tx report \<and> tr_at r = tr_at report"
  using run ok
proof (cases rule: transactOn_cases)
  case prior
  then show ?thesis using c(2) by (auto simp: operation_check_def split: if_split_asm)
next
  case noop
  then show ?thesis using transactOn_forced [OF run c(1)] by simp
next
  case (commit h input d0 as0 rets txf pl0 as pl n)
  obtain m where as: "as = map (remap_fact m) as0" using commit(10) by blast
  note tb = planned_on_tables [OF commit(3)] note P = plan_transaction_ok [OF commit(4)]
  have st: "\<forall>f \<in> set as. storable (pf_value f)" using P(2) tb commit(5) ok by (auto simp: as remap_value_storable)
  have hyps: "tables_ok (db_tables d0)" "tb_next_id (db_tables d0) = Some (al_first (pl_alloc pl))"
    "set rets \<subseteq> live_set (db_tables d0)" "distinct rets" "system_named (db_tables d0)"
    using ok tb named commit(5,7) P(3,4) by simp_all
  have "tables_ok (st_tables s')" using transactOn_ok [OF run ok] .
  then show ?thesis
    using commit_event [OF commit(11) _ _ _ c(3-5)] commit_receipt [OF commit(11) hyps(1) commit(6) hyps(2) st hyps(3-5)] hyps(1)
    by (auto simp: tables_ok_def)
qed

text \<open>
  C7. Applying an event is idempotent: after a line was applied, and whatever the environment, the same line changes
  nothing and is answered \<^verbatim>\<open>already_applied\<close>, with the transaction and the time under which the store has the event.
\<close>

theorem events_apply_once:
  assumes "applyEventLine en s line = Inr (report, s')" "tables_ok (st_tables s)" "system_named (st_tables s)"
  shows "\<exists>report2. applyEventLine en' s' line = Inr (report2, s') \<and> tr_status report2 = ''already_applied''
     \<and> tr_tx report2 = tr_tx report \<and> tr_at report2 = tr_at report"
proof -
  obtain rec e uuid hash where line: "event_line line = Inr (rec, e, uuid, hash)"
    using assms(1) by (auto simp: applyEventLine_def res_iff)
  show ?thesis
  proof (cases "find_gid uuid (st_tables s)")
    case (Some i)
    then show ?thesis using assms(1) line
      by (auto simp: applyEventLine_def alreadyAppliedReport_def res_iff split: if_split_asm)
  next
    case None
    then obtain operations c where c: "event_request (st_tables s) rec e hash = Inr (operations, c)"
      "transactOn en \<lparr>db_store = s, db_asOf = None\<rparr> operations c = Inr (report, s')"
      using assms(1) line by (auto simp: applyEventLine_def res_iff)
    note uuid = event_line_uuid [OF line]
    from commit_answered [OF c(2) _ _ event_request_options(1-3) [OF c(1)] uuid event_request_options(4) [OF c(1)]] assms(2,3)
    show ?thesis using line by (auto simp: applyEventLine_def alreadyAppliedReport_def)
  qed
qed

subsection \<open>Streams\<close>

text \<open>Identities are only ever added, so that the names of the system attributes stay.\<close>

lemma transactOn_ids_grow:
  assumes "transactOn en d data c = Inr (report, s')" "tables_ok (db_tables d)"
  shows "\<exists>rows. tb_ids (st_tables s') = tb_ids (db_tables d) @ rows"
  using assms
proof (cases rule: transactOn_cases)
  case (commit h input d0 as0 rets txf pl0 as pl n)
  then have "tr_status report = ''applied''" by (elim commit_transactionE) simp
  with assms show ?thesis
  proof (cases rule: applied_cases)
    case (applied h d0 input as0 rets txf pl0 m meta n)
    then show ?thesis using ids_added_append [OF applied(13)] by metis
  qed
qed simp_all

lemma transactOn_named:
  "transactOn en d data c = Inr (report, s') \<Longrightarrow> tables_ok (db_tables d) \<Longrightarrow> system_named (db_tables d) \<Longrightarrow> system_named (st_tables s')"
  using transactOn_ids_grow system_named_grows by blast

text \<open>The invariant of a store, which a line keeps, so that a stream does.\<close>

definition store_ok :: "store \<Rightarrow> bool" where
  "store_ok s \<longleftrightarrow> tables_ok (st_tables s) \<and> cache_ok s \<and> system_named (st_tables s)"

lemma refreshNames_ok: "store_ok s \<Longrightarrow> refreshNames s = Inr s' \<Longrightarrow> store_ok s'"
  using refreshNames_cached [of s s'] refreshNames_tables [of s s'] by (auto simp: store_ok_def cache_ok_def tables_ok_def)

lemma store_ok_kept: "store_ok s \<Longrightarrow> store_ok ((keep_caches left s)\<lparr>st_dataVersion := -1\<rparr>)"
  by (simp add: store_ok_def cache_ok_def)

lemma store_ok_stale: "store_ok s \<Longrightarrow> store_ok (s\<lparr>st_dataVersion := -1\<rparr>)"
  by (simp add: store_ok_def cache_ok_def)

lemma transactOn_store_ok:
  assumes "transactOn en \<lparr>db_store = s, db_asOf = None\<rparr> data c = Inr (report, s')" "store_ok s"
  shows "store_ok s'"
  using transactOn_ok [OF assms(1)] transactOn_caches [OF assms(1)] transactOn_named [OF assms(1)] assms(2)
  by (simp add: store_ok_def)

lemma applyEventLine_ok:
  assumes "applyEventLine en s line = Inr (report, s')" "store_ok s"
  shows "store_ok s'"
proof -
  obtain rec e uuid hash where line: "event_line line = Inr (rec, e, uuid, hash)"
    using assms(1) by (auto simp: applyEventLine_def res_bind_Inr_iff)
  show ?thesis
    using assms line transactOn_store_ok
    by (cases "find_gid uuid (st_tables s)") (auto simp: applyEventLine_def Let_def res_bind_Inr_iff split: if_split_asm)
qed

interpretation stream: kept_by_lines "apply_line en" "\<lambda>(reports, s). store_ok s"
proof
  fix p p' :: "TxReport list \<times> store" and line
  assume ok: "case p of (reports, s) \<Rightarrow> store_ok s" and run: "apply_line en line p = Inr p'"
  obtain reports s where p: "p = (reports, s)" by (cases p)
  obtain report s1 s2 where "applyEventLine en s line = Inr (report, s1)" "refreshNames (s1\<lparr>st_dataVersion := -1\<rparr>) = Inr s2"
    "p' = (reports @ [report], s2)"
    using run by (auto simp: p apply_line_def res_bind_Inr_iff)
  then show "case p' of (reports, s) \<Rightarrow> store_ok s"
    using ok refreshNames_ok [OF store_ok_stale [OF applyEventLine_ok]] by (simp add: p)
qed

lemma applyStream_ok:
  assumes "store_ok (db_store d)"
  shows "store_ok (db_store (snd (applyStream en d reader)))"
proof -
  have "store_ok s'" if "each_line n (apply_line en) rd ([], db_store d) = Inr (reports, s')" for n rd reports s'
    using stream.lines_keep [OF that] assms by simp
  then show ?thesis
    using assms store_ok_stale store_ok_kept by (auto simp: applyStream_def applyStreamCommitting_def atomicPortableWrite_def split: option.split sum.split)
qed

text \<open>
  The one path that does not mark the caches stale: if the COMMIT of a portable write fails, the tables are as
  before, but the caches are those of the work that was rolled back, and a refresh takes them for current.
\<close>

lemma failed_commit_keeps_caches:
  assumes "operation (db_store d) = Inr (x, s)" "st_dataVersion s = st_version (db_store d)" "st_names s \<noteq> []"
    and "atomicPortableWrite False d operation left = (r, d')"
  shows "db_tables d' = db_tables d \<and> st_names (db_store d') = st_names s \<and> refreshNames (db_store d') = Inr (db_store d')"
proof -
  have "db_store d' = keep_caches s (db_store d)" using assms(1,4) by (auto simp: atomicPortableWrite_def)
  then show ?thesis using assms(2,3) by (simp add: refreshNames_def keep_caches_def)
qed

end
