(* ===== verification/SnapshotFacts.thy ===== *)
theory SnapshotFacts
  imports Snapshot DoctorSound ApplyFacts
begin

text \<open>
  Restored snapshots: every record keeps the constraints of the SQL schema and the counters in step with the rows; the
  digest and the counts of the footer and the final visit of the doctor do the rest.
\<close>

subsection \<open>Records\<close>

lemma unique_live_iff: "unique_live fs \<longleftrightarrow> sorted_wrt (\<lambda>f g. \<not> clash f g) fs"
  by (induction fs) (auto simp: clash_def list_ex_iff)

lemma restoreSnapshotHeader_ok:
  assumes "restoreSnapshotHeader tb rec = Inr (basis, tb')" "sql_ok tb"
  shows "sql_ok tb' \<and> tb_ids tb' = tb_ids tb \<and> length (tb_events tb') = length (tb_events tb) \<and> length (tb_facts tb') = length (tb_facts tb)"
proof -
  obtain now data hash tb1 where run: "update_genesis_time now (tb\<lparr>tb_created_at := now\<rparr>) = Inr tb1" "update_genesis_event data hash tb1 = Inr tb'"
    using assms(1) by (auto simp: restoreSnapshotHeader_def res_iff split: if_split_asm any.split_asm)
  let ?f = "\<lambda>f. if rf_e f = GenesisTx \<and> rf_a f = 1 \<and> rf_tx f = GenesisTx then f\<lparr>rf_v := SInt now\<rparr> else f"
  let ?e = "\<lambda>r. if ev_tx r = GenesisTx then r\<lparr>ev_hash := hash, ev_data := Some data\<rparr> else r"
  have tb1: "tb1 = tb\<lparr>tb_created_at := now, tb_facts := map ?f (tb_facts tb)\<rparr>" "unique_live (map ?f (tb_facts tb))"
    using run(1) by (auto simp: update_genesis_time_def Let_def split: if_split_asm)
  have tb': "tb' = tb1\<lparr>tb_events := map ?e (tb_events tb)\<rparr>" "length hash = 32"
    using run(2) by (auto simp: update_genesis_event_def tb1 split: if_split_asm)
  have "facts_ok tb1"
    using assms(2) tb1(2) unfolding sql_ok_def facts_ok_def tb1(1) unique_live_iff by (auto simp: sorted_wrt_map sorted_wrt_iff_nth_less split: option.splits)
  moreover have "map ev_tx (map ?e (tb_events tb)) = map ev_tx (tb_events tb)" "map ev_op (map ?e (tb_events tb)) = map ev_op (tb_events tb)" by simp_all
  then have "events_ok tb'"
    using assms(2) tb'(2) by (auto simp: sql_ok_def events_ok_def tb'(1) event_row_ok_def simp del: map_map)
  ultimately show ?thesis using assms(2) by (simp add: sql_ok_def tb' tb1 ids_ok_def facts_ok_def)
qed

lemma sql_ok_insert_id:
  "insert_id r tb = Inr tb' \<Longrightarrow> sql_ok tb \<Longrightarrow> id_id r \<le> MaxInt64 \<Longrightarrow> sql_ok tb'"
  using insert_id_ok [of tb r tb'] insert_id_Inr [of r tb tb'] by (auto simp: sql_ok_def events_ok_def facts_ok_def)

lemma sql_ok_insert_event: "insert_event r tb = Inr tb' \<Longrightarrow> sql_ok tb \<Longrightarrow> sql_ok tb'"
  using insert_event_ok [of tb r tb'] insert_event_Inr [of r tb tb'] by (auto simp: sql_ok_def ids_ok_def facts_ok_def)

lemma i64_add_le: "i64_add a b \<le> MaxInt64"
  using i64_wrap_in [of "a + b"] by (simp add: i64_add_def in_int64_def)

text \<open>The ids that a receipt reserves are 64-bit ones; nothing else of the state changes.\<close>

lemma reserve_identities:
  assumes "res_fold reserve_identity sels (rs, reserved) = Inr (rs', reserved')"
    "rs_next rs \<le> MaxInt64" "\<forall>(s, i) \<in> set reserved. i \<le> MaxInt64"
  shows "rs_next rs' \<le> MaxInt64 \<and> (\<forall>(s, i) \<in> set reserved'. i \<le> MaxInt64) \<and> rs_receiptN rs' = rs_receiptN rs \<and> rs_factN rs' = rs_factN rs"
  using assms
proof (induction sels arbitrary: rs reserved)
  case (Cons sel sels)
  obtain rs1 reserved1 where 1: "reserve_identity sel (rs, reserved) = Inr (rs1, reserved1)" "res_fold reserve_identity sels (rs1, reserved1) = Inr (rs', reserved')"
    using Cons.prems(1) by (auto simp: res_iff)
  then have "rs_next rs1 \<le> MaxInt64 \<and> (\<forall>(s, i) \<in> set reserved1. i \<le> MaxInt64) \<and> rs_receiptN rs1 = rs_receiptN rs \<and> rs_factN rs1 = rs_factN rs"
    using Cons.prems(2,3) by (auto simp: reserve_identity_def res_iff i64_add_le split: if_split_asm)
  then show ?case using Cons.IH [OF 1(2)] by simp
qed simp

text \<open>What the statements of a receipt keep: everything but the identities and events, which grow.\<close>

definition extends_registry :: "tables \<Rightarrow> tables \<Rightarrow> bool" where
  "extends_registry tb tb' \<longleftrightarrow> sql_ok tb' \<and> (\<exists>rows. tb_ids tb' = tb_ids tb @ rows) \<and> length (tb_facts tb') = length (tb_facts tb)"

lemma install_identities:
  assumes "res_fold (install_identity tx) reserved tb = Inr tb'" "sql_ok tb" "\<forall>(s, i) \<in> set reserved. i \<le> MaxInt64"
  shows "extends_registry tb tb' \<and> tb_events tb' = tb_events tb"
  using assms
proof (induction reserved arbitrary: tb)
  case (Cons p reserved)
  obtain tb1 where 1: "install_identity tx p tb = Inr tb1" "res_fold (install_identity tx) reserved tb1 = Inr tb'"
    using Cons.prems(1) by (auto simp: res_iff)
  obtain r where r: "insert_id r tb = Inr tb1" "id_id r = snd p"
    using 1(1) by (auto simp: install_identity_def res_wrap_Inr res_iff split: prod.split_asm any.split_asm)
  have "sql_ok tb1" using sql_ok_insert_id [OF r(1) Cons.prems(2)] r(2) Cons.prems(3) by auto
  then show ?case using Cons.IH [OF 1(2)] Cons.prems(3) insert_id_Inr [OF r(1)] by (auto simp: extends_registry_def)
qed (simp add: extends_registry_def)

lemma restoreSnapshotReceipt_ok:
  assumes "restoreSnapshotReceipt (rs, tb) rec = Inr (rs', tb')" "sql_ok tb" "rs_next rs \<le> MaxInt64"
  shows "extends_registry tb tb' \<and> rs_next rs' \<le> MaxInt64 \<and> rs_receiptN rs' = rs_receiptN rs + 1 \<and> rs_factN rs' = rs_factN rs
    \<and> length (tb_events tb') = length (tb_events tb) + 1"
proof -
  obtain p where p: "parse_receipt rs rec = Inr p"
    using assms(1) by (auto simp: restoreSnapshotReceipt_def res_iff)
  obtain rs1 reserved where 1: "res_fold reserve_identity (pr_created p) (rs, []) = Inr (rs1, reserved)"
    using assms(1) p by (auto simp: restoreSnapshotReceipt_def res_iff)
  let ?row = "\<lparr>id_id = rs_next rs1, id_name = None, id_gid = Some (pr_uuid p), id_created = rs_next rs1\<rparr>"
  obtain tb1 tb2 e where run: "res_fold (install_identity (rs_next rs1)) reserved tb = Inr tb1" "insert_id ?row tb1 = Inr tb2" "insert_event e tb2 = Inr tb'"
    using assms(1) p 1 by (auto simp: restoreSnapshotReceipt_def Let_def res_iff)
  have rs': "rs_next rs' = i64_add (rs_next rs1) 1" "rs_receiptN rs' = rs_receiptN rs1 + 1" "rs_factN rs' = rs_factN rs1"
    using assms(1) p 1 by (auto simp: restoreSnapshotReceipt_def Let_def res_iff)
  note res = reserve_identities [OF 1 assms(3)]
  have ext: "extends_registry tb tb1" "tb_events tb1 = tb_events tb" using install_identities [OF run(1) assms(2)] res by auto
  then have "sql_ok tb2" using sql_ok_insert_id [OF run(2)] res by (simp add: extends_registry_def)
  then have "sql_ok tb'" by (rule sql_ok_insert_event [OF run(3)])
  then show ?thesis
    using ext rs' res i64_add_le insert_id_Inr [OF run(2)] insert_event_Inr [OF run(3)] by (auto simp: extends_registry_def)
qed

lemma snapshotStoredValue_storable: "snapshotStoredValue v t rs = Inr value \<Longrightarrow> storable value"
proof (cases "t = ''ref''")
  case False
  assume "snapshotStoredValue v t rs = Inr value"
  then obtain input where input: "scalarValue input = Inr value" "logicalTag (sv_tag value) = t"
    using False by (auto simp: snapshotStoredValue_def res_iff split: if_split_asm)
  then have "sv_tag value \<noteq> TagRef" using False by (auto simp: tagNames_def)
  then show ?thesis using scalarValue_ok [OF input(1)] by blast
qed (auto simp: snapshotStoredValue_def res_iff storable_def indirect_tag_def stored_def split: option.split_asm list.split_asm prod.split_asm if_split_asm)

lemma close_new_row:
  assumes "facts_ok tb" "\<forall>f \<in> set (tb_facts tb). rf_id f = i \<longrightarrow> rf_tx f = tx" "tx < rx"
  shows "facts_ok (close_fact rx i tb)"
proof -
  let ?c = "\<lambda>f. if rf_id f = i then f\<lparr>rf_rx := Some rx\<rparr> else f"
  have keep: "\<not> clash f g \<Longrightarrow> \<not> clash (?c f) (?c g)" for f g by (auto simp: clash_def live_def)
  have "sorted_wrt (\<lambda>f g. \<not> clash f g) (tb_facts tb)" using assms(1) by (simp add: facts_ok_def)
  then have "sorted_wrt (\<lambda>f g. \<not> clash (?c f) (?c g)) (tb_facts tb)"
    by (rule sorted_wrt_mono_rel [rotated]) (rule keep)
  moreover have "sorted_wrt (\<lambda>f g. rf_id (?c f) < rf_id (?c g)) (tb_facts tb)"
    using assms(1) by (auto simp: facts_ok_def intro: sorted_wrt_mono_rel [rotated])
  ultimately show ?thesis using assms by (auto simp: facts_ok_def close_fact_def sorted_wrt_map)
qed

lemma restore_retraction_ok:
  assumes "restore_retraction rs retraction tx i t tb = Inr tb'" "sql_ok tb" "\<forall>f \<in> set (tb_facts tb). rf_id f = i \<longrightarrow> rf_tx f = tx"
  shows "sql_ok tb' \<and> tb_ids tb' = tb_ids tb \<and> tb_events tb' = tb_events tb \<and> length (tb_facts tb') = length (tb_facts tb)"
proof -
  have "facts_ok tb" using assms(2) by (simp add: sql_ok_def)
  note close = close_new_row [OF this assms(3)]
  have "tb' = tb \<or> (\<exists>rx. tx < rx \<and> (tb' = close_fact rx i tb \<or> tb' = delete_fts i (close_fact rx i tb)))"
    using assms(1) by (auto simp: restore_retraction_def not_le split: any.split_asm option.split_asm if_split_asm)
  then show ?thesis
  proof (elim disjE exE conjE)
    fix rx assume "tx < rx" and tb': "tb' = close_fact rx i tb"
    then show ?thesis using close [of rx] assms(2) by (simp add: sql_ok_def ids_ok_def events_ok_def) (simp add: close_fact_def)
  next
    fix rx assume "tx < rx" and tb': "tb' = delete_fts i (close_fact rx i tb)"
    then show ?thesis using close [of rx] assms(2)
      by (simp add: sql_ok_def ids_ok_def events_ok_def delete_fts_def facts_ok_def) (simp add: close_fact_def)
  qed (use assms(2) in simp)
qed

lemma restoreSnapshotFact_ok:
  assumes "restoreSnapshotFact (rs, tb) rec = Inr (rs', tb')" "sql_ok tb"
  shows "sql_ok tb' \<and> tb_ids tb' = tb_ids tb \<and> rs_next rs' = rs_next rs \<and> rs_receiptN rs' = rs_receiptN rs
    \<and> rs_factN rs' = rs_factN rs + 1 \<and> length (tb_events tb') = length (tb_events tb) \<and> length (tb_facts tb') = length (tb_facts tb) + 1"
proof -
  obtain sel a v t asserted retraction where w: "event_field rec ''fact'' = AList [sel, a, v, t, asserted, retraction]"
    using assms(1) by (auto simp: restoreSnapshotFact_def split: any.split_asm list.split_asm if_split_asm)
  then obtain entity attribute where ids: "resolveSelector rs sel = Inr entity" "resolveSelector rs a = Inr attribute"
    using assms(1) by (auto simp: restoreSnapshotFact_def res_iff split: if_split_asm)
  have texts: "\<exists>x. a = AStr x" "\<exists>x. t = AStr x" "\<exists>x. asserted = AStr x"
    using assms(1) w ids by (auto simp: restoreSnapshotFact_def split: if_split_asm any.split_asm)
  then obtain attr tagName assertEvent where texts: "a = AStr attr" "t = AStr tagName" "asserted = AStr assertEvent" by blast
  obtain tx where tx: "map_of (rs_events rs) assertEvent = Some tx" "tx \<noteq> GenesisTx"
    using assms(1) w ids texts by (auto simp: restoreSnapshotFact_def split: if_split_asm option.split_asm)
  obtain sv where sv: "snapshotStoredValue v tagName rs = Inr sv"
    using assms(1) w ids texts tx by (auto simp: restoreSnapshotFact_def res_iff split: if_split_asm)
  define f where "f = planned entity attribute attr sv 0"
  obtain i tb1 where run: "insertFact tx f tb = Inr (i, tb1)" "restore_retraction rs retraction tx i (sv_tag sv) tb1 = Inr tb'"
    and rs': "rs_next rs' = rs_next rs" "rs_receiptN rs' = rs_receiptN rs" "rs_factN rs' = rs_factN rs + 1"
    using assms(1) w ids texts tx sv by (auto simp: restoreSnapshotFact_def f_def res_iff split: if_split_asm)
  have st: "storable (pf_value f)" using snapshotStoredValue_storable [OF sv] by (simp add: f_def planned_def)
  note new = insertFact_fields [OF run(1) st] and rows = insertFact_facts [OF run(1) st]
  have blobs: "distinct (map fst (tb_blobs (with_blob (pf_value f) tb)))"
    using assms(2) by (auto simp: sql_ok_def with_blob_def insert_blob_def split: option.split)
  have ok1: "sql_ok tb1" using assms(2) rows blobs new by (simp add: sql_ok_def ids_ok_def events_ok_def)
  have new_tx: "\<forall>g \<in> set (tb_facts tb1). rf_id g = i \<longrightarrow> rf_tx g = tx"
    using assms(2) insertFact_Inr(1) [OF run(1) st] by (fastforce simp: new(1) new_row_def sql_ok_def facts_ok_def)
  show ?thesis using restore_retraction_ok [OF run(2) ok1 new_tx] rs' new by simp
qed

subsection \<open>The lines of a stream\<close>

definition stream_lines :: "nat \<Rightarrow> reader \<Rightarrow> string list \<Rightarrow> string list res" where
  "stream_lines n = each_line n (\<lambda>l ls. Inr (ls @ [l]))"

lemma each_line_fold:
  "each_line n step rd s = Inr s' \<Longrightarrow> \<exists>ls. stream_lines n rd acc = Inr (acc @ ls) \<and> res_fold step ls s = Inr s'"
proof (induction "length (rd_bytes rd)" arbitrary: rd s acc rule: less_induct)
  case less
  show ?case
  proof (cases "readPortableLineLimit n rd")
    case (Inl e)
    then show ?thesis using less(2) by (simp add: each_line.simps read_failed_def wrap_def split: if_split_asm)
  next
    case (Inr p)
    obtain l eof rd' where p: "p = (l, eof, rd')" by (cases p)
    obtain s1 where s1: "(if blank l then Inr s else step l s) = Inr s1" "if eof then s' = s1 else each_line n step rd' s1 = Inr s'"
      using less(2) Inr p by (cases eof) (auto simp: each_line.simps [of n] res_bind_Inr_iff)
    let ?here = "if blank l then [] else [l]"
    have here: "res_fold step ?here s = Inr s1" using s1(1) by (auto split: if_split_asm)
    have lines: "stream_lines n rd acc = (if eof then Inr (acc @ ?here) else stream_lines n rd' (acc @ ?here))"
      using Inr p by (simp add: stream_lines_def each_line.simps [of n _ rd])
    show ?thesis
    proof (cases eof)
      case True
      then show ?thesis using lines here s1(2) by (intro exI [of _ ?here]) simp
    next
      case False
      have "length (rd_bytes rd') < length (rd_bytes rd)" using readPortableLineLimit_shrinks Inr p False by simp
      from less(1) [OF this, of s1 "acc @ ?here"] s1(2) False obtain ls
        where "stream_lines n rd' (acc @ ?here) = Inr ((acc @ ?here) @ ls)" "res_fold step ls s1 = Inr s'" by auto
      then show ?thesis using lines here False by (intro exI [of _ "?here @ ls"]) (simp add: res_fold_append)
    qed
  qed
qed

subsection \<open>Restoring\<close>

text \<open>What the records of the body keep: the constraints, and that counters and rows grow together.\<close>

definition restoring :: "tables \<Rightarrow> restoration \<Rightarrow> bool" where
  "restoring tb0 rn \<longleftrightarrow> sql_ok (rn_tables rn) \<and> rs_next (rn_state rn) \<le> MaxInt64 \<and> (\<exists>rows. tb_ids (rn_tables rn) = tb_ids tb0 @ rows)
     \<and> int (length (tb_events (rn_tables rn))) = int (length (tb_events tb0)) + rs_receiptN (rn_state rn)
     \<and> int (length (tb_facts (rn_tables rn))) = int (length (tb_facts tb0)) + rs_factN (rn_state rn)"

lemma restore_body_restoring:
  assumes "restore_body rec rn = Inr rn'" "restoring tb0 rn"
  shows "restoring tb0 rn' \<and> rn_hashed rn' = rn_hashed rn \<and> rn_footer rn' = rn_footer rn \<and> rn_header rn' \<noteq> None"
proof (cases "rn_header rn")
  case None
  then obtain basis tb where tb: "restoreSnapshotHeader (rn_tables rn) rec = Inr (basis, tb)" "rn' = rn\<lparr>rn_tables := tb, rn_header := Some basis\<rparr>"
    using assms(1) by (auto simp: restore_body_def res_iff)
  from restoreSnapshotHeader_ok [OF tb(1)] assms(2) show ?thesis by (auto simp: tb(2) restoring_def)
next
  case (Some h)
  show ?thesis
  proof (cases "map_of rec ''receipt'' = None")
    case False
    then obtain rs tb where tb: "restoreSnapshotReceipt (rn_state rn, rn_tables rn) rec = Inr (rs, tb)" "rn' = rn\<lparr>rn_state := rs, rn_tables := tb\<rparr>"
      using assms(1) Some by (auto simp: restore_body_def res_iff split: if_split_asm)
    from restoreSnapshotReceipt_ok [OF tb(1)] assms(2) Some show ?thesis by (auto simp: tb(2) restoring_def extends_registry_def)
  next
    case True
    then obtain rs tb where tb: "restoreSnapshotFact ((rn_state rn)\<lparr>rs_phaseFacts := True\<rparr>, rn_tables rn) rec = Inr (rs, tb)"
        "rn' = rn\<lparr>rn_state := rs, rn_tables := tb\<rparr>"
      using assms(1) Some by (auto simp: restore_body_def res_iff split: if_split_asm)
    from restoreSnapshotFact_ok [OF tb(1)] assms(2) Some show ?thesis by (auto simp: tb(2) restoring_def)
  qed
qed

text \<open>The record of a line, its canonical text, and a footer that closes a body.\<close>

definition record_of :: "string \<Rightarrow> fields \<Rightarrow> bool" where
  "record_of l rec \<longleftrightarrow> (\<exists>v. DecodeJSON l = Inr v \<and> objectMap v = Some rec)"

definition canonical_line :: "string \<Rightarrow> string \<Rightarrow> bool" where
  "canonical_line l t \<longleftrightarrow> (\<exists>rec json. record_of l rec \<and> canonicalJSON (AMap rec) = Inr json \<and> t = json @ [CHR 0x0A])"

definition closes :: "string \<Rightarrow> int \<Rightarrow> int \<Rightarrow> string \<Rightarrow> bool" where
  "closes hashed receipts facts l \<longleftrightarrow>
    (\<exists>rec. record_of l rec \<and> event_field rec ''fgraph'' = AStr ''end''
      \<and> decodeLowerHex (event_field rec ''sha256'') 32 = Inr (sha256 hashed)
      \<and> event_field rec ''receipts'' = AInt64 receipts \<and> event_field rec ''facts'' = AInt64 facts)"

lemma restore_line_cases:
  assumes "restore_line l rn = Inr rn'" "restoring tb0 rn"
  shows "\<not> rn_footer rn \<and> restoring tb0 rn'
    \<and> (if rn_footer rn' then rn' = rn\<lparr>rn_footer := True\<rparr> \<and> closes (rn_hashed rn) (rs_receiptN (rn_state rn)) (rs_factN (rn_state rn)) l
       else \<exists>t. canonical_line l t \<and> rn_hashed rn' = rn_hashed rn @ t)"
proof -
  obtain v rec where rec: "DecodeJSON l = Inr v" "objectMap v = Some rec" and open': "\<not> rn_footer rn"
    using assms(1) by (auto simp: restore_line_def res_iff split: if_split_asm option.split_asm)
  show ?thesis
  proof (cases "event_field rec ''fgraph'' = AStr ''end''")
    case True
    then show ?thesis using assms rec open'
      by (auto simp: restore_line_def validateSnapshotFooter_def res_iff restoring_def closes_def record_of_def split: if_split_asm)
  next
    case False
    then obtain json where json: "canonicalJSON (AMap rec) = Inr json" "restore_body rec (rn\<lparr>rn_hashed := rn_hashed rn @ json @ [CHR 0x0A]\<rparr>) = Inr rn'"
      using assms(1) rec open' by (auto simp: restore_line_def res_iff split: if_split_asm)
    have "restoring tb0 (rn\<lparr>rn_hashed := rn_hashed rn @ json @ [CHR 0x0A]\<rparr>)" using assms(2) by (simp add: restoring_def)
    from restore_body_restoring [OF json(2) this] show ?thesis
      using open' json(1) rec by (auto simp: canonical_line_def record_of_def)
  qed
qed

lemma restore_lines:
  assumes "res_fold restore_line ls rn = Inr rn'" "restoring tb0 rn" "\<not> rn_footer rn" "rn_footer rn'"
  shows "\<exists>body footer ts. ls = body @ [footer] \<and> list_all2 canonical_line body ts \<and> restoring tb0 rn'
    \<and> closes (rn_hashed rn @ concat ts) (rs_receiptN (rn_state rn')) (rs_factN (rn_state rn')) footer"
  using assms
proof (induction ls arbitrary: rn)
  case (Cons l ls)
  obtain rn1 where rn1: "restore_line l rn = Inr rn1" "res_fold restore_line ls rn1 = Inr rn'" using Cons.prems(1) by (auto simp: res_iff)
  note step = restore_line_cases [OF rn1(1) Cons.prems(2)]
  show ?case
  proof (cases "rn_footer rn1")
    case True
    then have "ls = []" using rn1(2) by (cases ls) (auto simp: res_iff restore_line_def)
    then show ?thesis using step True rn1(2) by (force intro: exI [where x = "[] :: string list"])
  next
    case False
    with step obtain t where t: "canonical_line l t" "rn_hashed rn1 = rn_hashed rn @ t" "restoring tb0 rn1" by auto
    from Cons.IH [OF rn1(2) t(3) False Cons.prems(4)] obtain body footer ts where
      "ls = body @ [footer]" "list_all2 canonical_line body ts" "restoring tb0 rn'"
      "closes (rn_hashed rn1 @ concat ts) (rs_receiptN (rn_state rn')) (rs_factN (rn_state rn')) footer" by blast
    then have "l # ls = (l # body) @ [footer] \<and> list_all2 canonical_line (l # body) (t # ts) \<and> restoring tb0 rn'
      \<and> closes (rn_hashed rn @ concat (t # ts)) (rs_receiptN (rn_state rn')) (rs_factN (rn_state rn')) footer" using t by simp
    then show ?thesis by blast
  qed
qed simp

lemma sql_ok_tables_ok: "tables_ok tb \<Longrightarrow> sql_ok tb"
  by (fastforce simp: tables_ok_def sql_ok_def counter_ok_def below_def content_ok_def blobs_ok_def split: option.split_asm)

lemma newSnapshotRestoreState_fields:
  "newSnapshotRestoreState tb = Inr rs \<Longrightarrow> rs_next rs = FirstUserID \<and> rs_receiptN rs = 0 \<and> rs_factN rs = 0"
  by (auto simp: newSnapshotRestoreState_def res_iff)

text \<open>The whole restoration: what it installed, and the stream that it accepted.\<close>

lemma Restore_Inr:
  assumes "Restore ph d (Some rd) = (Inr (), d')" "tables_ok (db_tables d)"
  shows "basisOn (db_tables d) = GenesisTx \<and> tables_ok (db_tables d') \<and> (\<exists>rows. tb_ids (db_tables d') = tb_ids (db_tables d) @ rows)
    \<and> st_version (db_store d') = st_version (db_store d) \<and> st_dataVersion (db_store d') = -1
    \<and> (\<exists>body footer ts. stream_lines maxPortableSnapshotLineBytes rd [] = Inr (body @ [footer]) \<and> list_all2 canonical_line body ts
      \<and> closes (concat ts) (int (length (tb_events (db_tables d'))) - int (length (tb_events (db_tables d))))
          (int (length (tb_facts (db_tables d'))) - int (length (tb_facts (db_tables d)))) footer)"
proof -
  let ?start = "\<lambda>rs. \<lparr>rn_state = rs, rn_tables = db_tables d, rn_hashed = [], rn_header = None, rn_footer = False\<rparr>"
  obtain s where s: "basisOn (db_tables d) = GenesisTx" "restoreSnapshotStream ph d rd = Inr ((), s)" "d' = d\<lparr>db_store := s\<lparr>st_dataVersion := -1\<rparr>\<rparr>"
    using assms(1) by (auto simp: Restore_def RestoreCommitting_def atomicPortableWrite_def split: sum.split_asm if_split_asm)
  then obtain rs rn where rs: "newSnapshotRestoreState (db_tables d) = Inr rs"
      and lines: "each_line maxPortableSnapshotLineBytes restore_line rd (?start rs) = Inr rn" and checked: "restore_checked ph d rn = Inr ((), s)"
    by (auto simp: restoreSnapshotStream_def res_iff)
  define tb where "tb = (rn_tables rn)\<lparr>tb_next_id := map_option (\<lambda>_. rs_next (rn_state rn)) (tb_next_id (rn_tables rn))\<rparr>"
  obtain report fatal where fin: "rn_footer rn" "refreshNames ((db_store d)\<lparr>st_tables := tb, st_dataVersion := -1\<rparr>) = Inr s"
      "doctorReport ph (d\<lparr>db_store := s\<rparr>) = Inr (report, fatal)" "dr_ok report"
    using checked by (auto simp: restore_checked_def Let_def res_iff tb_def split: if_split_asm)
  obtain ls where ls: "stream_lines maxPortableSnapshotLineBytes rd [] = Inr ls" "res_fold restore_line ls (?start rs) = Inr rn"
    using each_line_fold [OF lines, of "[]"] by auto
  have "restoring (db_tables d) (?start rs)"
    using newSnapshotRestoreState_fields [OF rs] sql_ok_tables_ok [OF assms(2)] by (simp add: restoring_def FirstUserID_def MaxInt64_def)
  from restore_lines [OF ls(2) this] fin(1) obtain body footer ts where body: "ls = body @ [footer]" "list_all2 canonical_line body ts"
      "restoring (db_tables d) rn" "closes (concat ts) (rs_receiptN (rn_state rn)) (rs_factN (rn_state rn)) footer" by auto
  have same: "st_tables s = tb" using refreshNames_tables [OF fin(2)] by simp
  have version: "st_version s = st_version (db_store d)" using fin(2) by (auto simp: refreshNames_def split: if_split_asm)
  have "sql_ok tb" using body(3) by (simp add: restoring_def tb_def sql_ok_def ids_ok_def events_ok_def facts_ok_def)
  then have "tables_ok tb" using doctor_sound [OF fin(3,4)] same by simp
  moreover have "rs_receiptN (rn_state rn) = int (length (tb_events tb)) - int (length (tb_events (db_tables d)))"
    "rs_factN (rn_state rn) = int (length (tb_facts tb)) - int (length (tb_facts (db_tables d)))" "\<exists>rows. tb_ids tb = tb_ids (db_tables d) @ rows"
    using body(3) by (simp_all add: restoring_def tb_def)
  ultimately show ?thesis using s ls(1) body(1,2,4) same version by auto
qed

lemma Restore_ok: "store_ok (db_store d) \<Longrightarrow> store_ok (db_store (snd (Restore ph d reader)))"
proof -
  assume ok: "store_ok (db_store d)"
  obtain r d' where run: "Restore ph d reader = (r, d')" by fastforce
  show ?thesis
  proof (cases "r = Inr ()")
    case True
    then obtain rd where "Restore ph d (Some rd) = (Inr (), d')" using run by (auto simp: Restore_def RestoreCommitting_def split: option.split_asm)
    then show ?thesis using Restore_Inr [of ph d rd d'] ok system_named_grows run by (auto simp: store_ok_def cache_ok_def)
  next
    case False
    then show ?thesis using run ok store_ok_stale store_ok_kept
      by (auto simp: Restore_def RestoreCommitting_def atomicPortableWrite_def split: option.split_asm sum.split_asm if_split_asm)
  qed
qed

text \<open>
  C14. A restoration installs a sound state or nothing. If it succeeds, the database was pristine and its tables satisfy
  the invariant; the last line of the stream is a footer, whose digest is the SHA-256 of the canonical text of all the
  lines before it and whose counts are the numbers of events and facts that were added: a stream that was cut or
  changed is refused. If it fails, the tables are as they were.
\<close>

theorem restore_is_sound:
  assumes "Restore ph d (Some rd) = (r, d')" "tables_ok (db_tables d)"
  shows "if r = Inr () then
      basisOn (db_tables d) = GenesisTx \<and> tables_ok (db_tables d')
      \<and> (\<exists>body footer ts. stream_lines maxPortableSnapshotLineBytes rd [] = Inr (body @ [footer]) \<and> list_all2 canonical_line body ts
        \<and> closes (concat ts) (int (length (tb_events (db_tables d'))) - int (length (tb_events (db_tables d))))
            (int (length (tb_facts (db_tables d'))) - int (length (tb_facts (db_tables d)))) footer)
    else db_tables d' = db_tables d"
proof (cases "r = Inr ()")
  case True
  then show ?thesis using Restore_Inr [OF _ assms(2)] assms(1) by simp
next
  case False
  then show ?thesis using assms(1)
    by (auto simp: Restore_def RestoreCommitting_def atomicPortableWrite_def split: sum.split_asm if_split_asm)
qed
end
