(* ===== verification/JsonFacts.thy ===== *)
theory JsonFacts
  imports Json Store
begin

text \<open>
  When the canonical writer succeeds, and how long its text is: plain values with valid text, within the
  nesting limit. This is what the recording of an event relies on.
\<close>

text \<open>Values that \<open>plainJSON\<close> leaves as they are and the writer accepts.\<close>

fun printable :: "any \<Rightarrow> bool" where
  "printable ANil \<longleftrightarrow> True"
| "printable (ABool b) \<longleftrightarrow> True"
| "printable (ANum k i) \<longleftrightarrow> i \<le> MaxInt64"
| "printable (AStr s) \<longleftrightarrow> ValidString s"
| "printable (AF64 w) \<longleftrightarrow> \<not> IsNaN w \<and> \<not> IsInf w"
| "printable (AList xs) \<longleftrightarrow> list_all printable xs"
| "printable (AMap m) \<longleftrightarrow> list_all (\<lambda>p. ValidString (fst p) \<and> printable (snd p)) m"
| "printable _ \<longleftrightarrow> False"

fun nesting :: "any \<Rightarrow> nat" where
  "nesting (AList xs) = Suc (Max (insert 0 (set (map nesting xs))))"
| "nesting (AMap m) = Suc (Max (insert 0 (set (map (\<lambda>p. nesting (snd p)) m))))"
| "nesting _ = 0"

lemma nesting_child:
  "x \<in> set xs \<Longrightarrow> nesting x < nesting (AList xs)" "p \<in> set m \<Longrightarrow> nesting (snd p) < nesting (AMap m)"
  by (auto simp: less_Suc_eq_le)

lemma plain_printable: "printable v \<Longrightarrow> nesting v + d \<le> n \<Longrightarrow> plainJSONDepth v d n = Inr v"
proof (induction v d n rule: plainJSONDepth.induct)
  case (2 xs d n)
  have "res_map (\<lambda>x. plainJSONDepth x (d + 1) n) xs = Inr (map id xs)"
    by (rule res_map_total) (use 2 nesting_child(1) in \<open>fastforce simp: list_all_iff\<close>)
  then show ?case using 2(3) by simp
next
  case (5 m d n)
  have "res_map (\<lambda>p. res_bind (plainJSONDepth (snd p) (d + 1) n) (\<lambda>v. Inr (fst p, v))) m = Inr (map id m)"
    by (rule res_map_total) (use 5 nesting_child(2) in \<open>fastforce simp: list_all_iff\<close>)
  then show ?case using 5(3) by simp
qed auto

lemma validate_printable: "printable v \<Longrightarrow> nesting v + d \<le> n \<Longrightarrow> validateJSONDepth v d n = Inr ()"
proof (induction v d n rule: validateJSONDepth.induct)
  case (7 xs d n)
  have "res_map (\<lambda>x. validateJSONDepth x (d + 1) n) xs = Inr (map (\<lambda>_. ()) xs)"
    by (rule res_map_total) (use 7 nesting_child(1) in \<open>fastforce simp: list_all_iff\<close>)
  then show ?case using 7(3) by simp
next
  case (9 m d n)
  have "res_map (\<lambda>p. res_bind (check (ValidString (fst p)) ErrType) (\<lambda>_. validateJSONDepth (snd p) (d + 1) n)) m
      = Inr (map (\<lambda>_. ()) m)"
    by (rule res_map_total) (use 9 nesting_child(2) in \<open>fastforce simp: list_all_iff check_def\<close>)
  then show ?case using 9(3) by simp
qed (auto simp: check_def)

text \<open>The text itself, without the error paths.\<close>

fun json_text :: "any \<Rightarrow> string" where
  "json_text (ABool b) = (if b then ''true'' else ''false'')"
| "json_text (AStr s) = writeCanonicalString s"
| "json_text (ANum k i) = FormatInt i"
| "json_text (AF64 w) = canonicalFloat w (f64_shortest w)"
| "json_text (AList xs) = ''['' @ commas (map json_text xs) @ '']''"
| "json_text (AMap m) =
    ''{'' @ commas (map (\<lambda>(k, t). writeCanonicalString k @ '':'' @ t)
                    (sort_key fst (map (\<lambda>p. (fst p, json_text (snd p))) m))) @ ''}''"
| "json_text _ = ''null''"

lemma sort_key_map_fst: "sort_key fst (map (\<lambda>p. (fst p, g (snd p))) m) = map (\<lambda>p. (fst p, g (snd p))) (sort_key fst m)"
proof -
  have ins: "insort_key fst (fst p, g (snd p)) (map (\<lambda>p. (fst p, g (snd p))) m) = map (\<lambda>p. (fst p, g (snd p))) (insort_key fst p m)" for p m
    by (induction m) auto
  show ?thesis by (induction m) (simp_all add: ins)
qed

lemma write_printable: "printable v \<Longrightarrow> nesting v + d \<le> n \<Longrightarrow> writeCanonicalJSONDepth v d n = Inr (json_text v)"
proof (induction v d n rule: writeCanonicalJSONDepth.induct)
  case (7 xs d n)
  have "res_map (\<lambda>x. writeCanonicalJSONDepth x (d + 1) n) xs = Inr (map json_text xs)"
    by (rule res_map_total) (use 7 nesting_child(1) in \<open>fastforce simp: list_all_iff\<close>)
  then show ?case using 7(3) by simp
next
  case (8 m d n)
  have "res_map (\<lambda>p. if ValidString (fst p)
             then res_bind (writeCanonicalJSONDepth (snd p) (d + 1) n) (\<lambda>t. Inr (writeCanonicalString (fst p) @ '':'' @ t))
             else fail ErrType) (sort_key fst m)
      = Inr (map (\<lambda>p. writeCanonicalString (fst p) @ '':'' @ json_text (snd p)) (sort_key fst m))"
    by (rule res_map_total) (use 8 nesting_child(2) in \<open>fastforce simp: list_all_iff\<close>)
  then show ?case using 8(3) by (simp add: sort_key_map_fst comp_def)
qed auto

lemma canonicalJSON_printable:
  "printable v \<Longrightarrow> nesting v \<le> MaxJSONDocumentDepth \<Longrightarrow> canonicalJSON v = Inr (json_text v)"
  by (simp add: canonicalJSON_def plain_printable validate_printable write_printable)

subsection \<open>Length\<close>

lemma length_escape_byte: "length (escape_byte c) \<le> 6"
  by (simp add: escape_byte_def Let_def)

lemma length_writeCanonicalString: "length (writeCanonicalString s) \<le> 6 * length s + 2"
proof -
  have "length (concat (map escape_byte s)) \<le> 6 * length s"
    using length_escape_byte by (induction s) (auto simp: add_mono)
  then show ?thesis by (simp add: writeCanonicalString_def)
qed

lemma length_dec_digits: "n < 10 ^ k \<Longrightarrow> 0 < k \<Longrightarrow> length (dec_digits n) \<le> k"
proof (induction k arbitrary: n)
  case (Suc k)
  show ?case
  proof (cases "n < 10")
    case False
    then have "0 < k" using Suc.prems(1) by (cases k) auto
    then have "length (dec_digits (n div 10)) \<le> k"
      using Suc.IH [of "n div 10"] Suc.prems(1) by (simp add: less_mult_imp_div_less mult.commute)
    then show ?thesis using False by (subst dec_digits.simps) simp
  qed (subst dec_digits.simps, simp)
qed simp

lemma length_FormatInt: "in_int64 i \<Longrightarrow> length (FormatInt i) \<le> 20"
proof -
  assume i: "in_int64 i"
  have "nat i < 10 ^ 19" "nat (- i) < 10 ^ 19"
    using i by (simp_all add: in_int64_def MinInt64_def MaxInt64_def) linarith+
  then have "length (dec_digits (nat i)) \<le> 19" "length (dec_digits (nat (- i))) \<le> 19"
    by (simp_all add: length_dec_digits)
  then show ?thesis by (simp add: FormatInt_def)
qed

lemma length_commas: "length (commas ts) \<le> sum_list (map length ts) + length ts"
  by (induction ts rule: commas.induct) auto

text \<open>A bound on the length of the text that adds up over the parts.\<close>

fun json_bound :: "any \<Rightarrow> nat" where
  "json_bound (AStr s) = 6 * length s + 2"
| "json_bound (ANum k i) = 20"
| "json_bound (AList xs) = 2 + sum_list (map (\<lambda>x. json_bound x + 1) xs)"
| "json_bound (AMap m) = 2 + sum_list (map (\<lambda>p. 6 * length (fst p) + 4 + json_bound (snd p)) m)"
| "json_bound _ = 5"

fun int_json :: "any \<Rightarrow> bool" where
  "int_json ANil \<longleftrightarrow> True"
| "int_json (ABool b) \<longleftrightarrow> True"
| "int_json (ANum k i) \<longleftrightarrow> in_int64 i"
| "int_json (AStr s) \<longleftrightarrow> ValidString s"
| "int_json (AList xs) \<longleftrightarrow> list_all int_json xs"
| "int_json (AMap m) \<longleftrightarrow> list_all (\<lambda>p. ValidString (fst p) \<and> int_json (snd p)) m"
| "int_json _ \<longleftrightarrow> False"

lemma int_json_printable: "int_json v \<Longrightarrow> printable v"
  by (induction v rule: int_json.induct) (auto simp: list_all_iff in_int64_def)

lemma length_json_text: "int_json v \<Longrightarrow> length (json_text v) \<le> json_bound v"
proof (induction v rule: json_text.induct)
  case (5 xs)
  have "sum_list (map length (map json_text xs)) + length (map json_text xs) \<le> sum_list (map (\<lambda>x. json_bound x + 1) xs)"
    using 5
  proof (induction xs)
    case (Cons x xs)
    then show ?case by fastforce
  qed simp
  then show ?case using length_commas [of "map json_text xs"] by simp
next
  case (6 m)
  let ?f = "\<lambda>p. writeCanonicalString (fst p) @ '':'' @ json_text (snd p)"
  have "sum_list (map length (map ?f m)) + length (map ?f m)
      \<le> sum_list (map (\<lambda>p. 6 * length (fst p) + 4 + json_bound (snd p)) m)"
    using 6
  proof (induction m)
    case (Cons p m)
    then show ?case using length_writeCanonicalString [of "fst p"] by fastforce
  qed simp
  moreover have "mset (map length (map ?f (sort_key fst m))) = mset (map length (map ?f m))" by simp
  then have "sum_list (map length (map ?f (sort_key fst m))) = sum_list (map length (map ?f m))"
    unfolding sum_mset_sum_list [symmetric] by (rule arg_cong)
  ultimately show ?case
    using length_commas [of "map ?f (sort_key fst m)"] by (simp add: sort_key_map_fst comp_def)
qed (use length_writeCanonicalString in \<open>auto simp: length_FormatInt\<close>)

text \<open>Recording succeeds on every such value below the line limit of the portable format.\<close>

lemma canonicalEventData_total:
  assumes "int_json v" "nesting v \<le> MaxJSONDocumentDepth" "json_bound v \<le> maxPortableLineBytes"
  shows "canonicalEventData v = Inr (json_text v, sha256 (json_text v))"
  using canonicalJSON_printable [OF int_json_printable [OF assms(1)] assms(2)] length_json_text [OF assms(1)] assms(3)
  by (simp add: canonicalEventData_def)

end
