(* ===== verification/GenesisFacts.thy ===== *)
theory GenesisFacts
  imports TransactFacts JsonFacts
begin

text \<open>
  The genesis transaction: on every valid clock reading it succeeds, and the tables it builds satisfy the
  invariant that the transactions keep.
\<close>

definition genesis_ok :: "tables \<Rightarrow> bool" where
  "genesis_ok tb \<longleftrightarrow>
     ids_ok tb \<and> events_ok tb \<and> content_ok {} tb \<and> tb_next_id tb = Some 65 \<and> below 65 tb
     \<and> txs_in {64} tb"

lemma genesis_name_ok: "genesis_ok tb \<Longrightarrow> genesis_name i tb = Inr tb' \<Longrightarrow> i < 65 \<Longrightarrow> genesis_ok tb'"
  using insert_id_ok [of tb _ tb'] content_ok_cong [of tb' tb "{}"]
  by (auto simp: genesis_ok_def genesis_name_def events_ok_def below_def txs_in_def dest!: insert_id_Inr)

text \<open>A row of the genesis transaction is a fact that \<open>insertFact\<close> would write.\<close>

lemma insertFact_genesis:
  assumes "insertFact 64 f tb = Inr (i, tb')" "genesis_ok tb" "storable (pf_value f)"
  shows "genesis_ok tb'"
  using assms(2) insertFact_content [OF assms(1,3)] insertFact_fields [OF assms(1,3)]
  by (auto simp: genesis_ok_def ids_ok_def events_ok_def below_def txs_in_def)

lemma genesis_text_ok:
  assumes "genesis_ok tb" "genesis_text a ts i tb = Inr tb'"
  shows "genesis_ok tb'"
proof -
  obtain f tb1 where row: "insert_fact_row (int i) a (SText (ts ! i)) TagText GenesisTx tb = Inr (f, tb1)"
    and fts: "insert_fts f (ts ! i) tb1 = Inr tb'"
    using assms(2) by (auto simp: genesis_text_def res_bind_Inr_iff)
  have "insertFact 64 (planned (int i) a [] (stored (AStr (ts ! i)) (SText (ts ! i)) TagText) 0) tb = Inr (f, tb')"
    using row fts by (simp add: insertFact_def planned_def stored_def GenesisTx_def res_wrap_def)
  then show ?thesis using assms(1) by (rule insertFact_genesis) (simp_all add: storable_stored)
qed

lemma genesis_many_ok:
  assumes "genesis_ok tb" "genesis_many i tb = Inr tb'"
  shows "genesis_ok tb'"
proof -
  obtain f where row: "insert_fact_row i 5 (SInt 1) TagBool GenesisTx tb = Inr (f, tb')"
    using assms(2) by (auto simp: genesis_many_def res_bind_Inr_iff)
  have "insertFact 64 (planned i 5 [] (stored (ABool True) (SInt 1) TagBool) 0) tb = Inr (f, tb')"
    using row by (simp add: insertFact_def planned_def stored_def GenesisTx_def res_wrap_def)
  then show ?thesis
    using assms(1) by (rule insertFact_genesis) (simp_all add: storable_def stored_def indirect_tag_def)
qed

lemma genesis_at_ok:
  assumes "genesis_ok tb" "insert_fact_row 64 1 (SInt now) TagInstant 64 tb = Inr (f, tb')"
  shows "genesis_ok tb'"
proof -
  have "insertFact 64 (planned 64 1 [] (stored (AInt64 now) (SInt now) TagInstant) 0) tb = Inr (f, tb')"
    using assms(2) by (simp add: insertFact_def planned_def stored_def res_wrap_def)
  then show ?thesis
    using assms(1) by (rule insertFact_genesis) (simp_all add: storable_def stored_def indirect_tag_def)
qed

lemma empty_genesis: "genesis_ok (empty_tables now)"
  by (simp add: genesis_ok_def empty_tables_def ids_ok_def events_ok_def content_ok_def facts_ok_def fts_ok_def
      blobs_ok_def live_set_def blob_keys_def below_def txs_in_def)

interpretation genesis_texts: kept_by "genesis_text a ts" genesis_ok
  by unfold_locales (rule genesis_text_ok)

interpretation genesis_manys: kept_by genesis_many genesis_ok
  by unfold_locales (rule genesis_many_ok)

lemma initializeTransactionE:
  assumes "initializeTransaction now = Inr tb"
  obtains tb1 u tb2 i tb3 tb4 tb5 tb6 data h where
    "res_fold genesis_name [1..<length systemNames] (empty_tables now) = Inr tb1"
    "insert_id \<lparr>id_id = GenesisTx, id_name = None, id_gid = Some u, id_created = GenesisTx\<rparr> tb1 = Inr tb2"
    "insert_fact_row 64 1 (SInt now) TagInstant 64 tb2 = Inr (i, tb3)"
    "res_fold (genesis_text 8 systemTypes) [1..<length systemTypes] tb3 = Inr tb4"
    "res_fold (genesis_text 10 systemDocs) [1..<length systemDocs] tb4 = Inr tb5"
    "res_fold genesis_many [16, 17] tb5 = Inr tb6"
    "insert_event \<lparr>ev_tx = GenesisTx, ev_hash = h, ev_data = Some data, ev_op = None, ev_req = None\<rparr> tb6 = Inr tb"
  using assms unfolding initializeTransaction_def by (elim res_bindE) (auto elim!: res_bindE)

lemma initializeTransaction_ok:
  assumes "initializeTransaction now = Inr tb"
  shows "tables_ok tb"
proof -
  obtain tb1 u tb2 i tb3 tb4 tb5 tb6 data h where
      1: "res_fold genesis_name [1..<length systemNames] (empty_tables now) = Inr tb1"
    and 2: "insert_id \<lparr>id_id = GenesisTx, id_name = None, id_gid = Some u, id_created = GenesisTx\<rparr> tb1 = Inr tb2"
    and 3: "insert_fact_row 64 1 (SInt now) TagInstant 64 tb2 = Inr (i, tb3)"
    and 4: "res_fold (genesis_text 8 systemTypes) [1..<length systemTypes] tb3 = Inr tb4"
    and 5: "res_fold (genesis_text 10 systemDocs) [1..<length systemDocs] tb4 = Inr tb5"
    and 6: "res_fold genesis_many [16, 17] tb5 = Inr tb6"
    and 7: "insert_event \<lparr>ev_tx = GenesisTx, ev_hash = h, ev_data = Some data, ev_op = None, ev_req = None\<rparr> tb6 = Inr tb"
    using assms by (rule initializeTransactionE)
  have "genesis_ok tb1"
    by (rule res_fold_invariant [where P = genesis_ok, OF 1 empty_genesis])
      (auto simp: systemNames_def intro: genesis_name_ok)
  then have "genesis_ok tb2"
    using insert_id_ok [OF _ 2] content_ok_cong [of tb2 tb1 "{}"] insert_id_Inr [OF 2]
    by (auto simp: genesis_ok_def events_ok_def below_def txs_in_def GenesisTx_def)
  then have "genesis_ok tb3" using 3 by (rule genesis_at_ok)
  then have "genesis_ok tb6"
    using 4 5 6 genesis_texts.run_keeps genesis_manys.run_keeps by blast
  then show ?thesis
    using insert_event_ok [OF _ 7] content_ok_cong [of tb tb6 "{}"] insert_event_Inr [OF 7]
    by (auto simp: genesis_ok_def tables_ok_def counter_ok_def ids_ok_def below_def txs_in_def recorded_def FirstUserID_def MaxInt64_def GenesisTx_def
        split: option.splits)
qed

subsection \<open>Genesis succeeds\<close>

text \<open>The slots that are taken, and a full-text index below the row counter.\<close>

definition slots :: "tables \<Rightarrow> (int \<times> int) set" where
  "slots tb = (\<lambda>f. (rf_e f, rf_a f)) ` set (tb_facts tb)"

definition fts_low :: "tables \<Rightarrow> bool" where
  "fts_low tb \<longleftrightarrow> (\<forall>(i, s) \<in> set (tb_fts tb). i \<le> tb_seq tb)"

lemma insert_row_total:
  assumes "(e, a) \<notin> slots tb" "\<not> sql_null v" "fts_low tb"
  obtains tb' where "insert_fact_row e a v t tx tb = Inr (tb_seq tb + 1, tb')" "slots tb' = insert (e, a) (slots tb)"
    "fts_low tb'" "tb_events tb' = tb_events tb" "tb_seq tb' = tb_seq tb + 1" "tb_fts tb' = tb_fts tb"
    "length (tb_facts tb') = Suc (length (tb_facts tb))"
proof -
  have "\<not> list_ex (\<lambda>f. live f \<and> rf_e f = e \<and> rf_a f = a \<and> sql_eq (rf_v f) v \<and> rf_t f = t) (tb_facts tb)"
    using assms(1) by (auto simp: slots_def list_ex_iff)
  then show thesis
    using assms(2,3)
    by (intro that [of "tb\<lparr>tb_facts := tb_facts tb @
         [\<lparr>rf_id = tb_seq tb + 1, rf_e = e, rf_a = a, rf_v = v, rf_t = t, rf_tx = tx, rf_rx = None\<rparr>], tb_seq := tb_seq tb + 1\<rparr>"])
      (auto simp: insert_fact_row_def Let_def slots_def fts_low_def)
qed

lemma genesis_text_total:
  assumes "(int i, a) \<notin> slots tb" "fts_low tb"
  obtains tb' where "genesis_text a ts i tb = Inr tb'" "slots tb' = insert (int i, a) (slots tb)" "fts_low tb'"
    "tb_events tb' = tb_events tb" "length (tb_facts tb') = Suc (length (tb_facts tb))"
proof -
  obtain tb1 where 1: "insert_fact_row (int i) a (SText (ts ! i)) TagText GenesisTx tb = Inr (tb_seq tb + 1, tb1)"
      "slots tb1 = insert (int i, a) (slots tb)" "fts_low tb1" "tb_events tb1 = tb_events tb" "tb_seq tb1 = tb_seq tb + 1"
      "tb_fts tb1 = tb_fts tb" "length (tb_facts tb1) = Suc (length (tb_facts tb))"
    by (rule insert_row_total [OF assms(1) _ assms(2), where v = "SText (ts ! i)" and t = TagText and tx = GenesisTx]) auto
  have "tb_seq tb + 1 \<notin> fst ` set (tb_fts tb1)" using assms(2) 1(6) by (force simp: fts_low_def)
  then show thesis
    using 1 by (intro that [of "tb1\<lparr>tb_fts := tb_fts tb1 @ [(tb_seq tb + 1, ts ! i)]\<rparr>"])
      (auto simp: genesis_text_def insert_fts_def res_wrap_def slots_def fts_low_def)
qed

lemma genesis_texts_total:
  assumes "distinct is" "\<forall>i \<in> set is. (int i, a) \<notin> slots tb" "fts_low tb"
  obtains tb' where "res_fold (genesis_text a ts) is tb = Inr tb'" "slots tb' = slots tb \<union> (\<lambda>i. (int i, a)) ` set is"
    "fts_low tb'" "tb_events tb' = tb_events tb" "length (tb_facts tb') = length (tb_facts tb) + length is"
  using assms
proof (induction "is" arbitrary: tb thesis)
  case (Cons i "is")
  obtain tb1 where 1: "genesis_text a ts i tb = Inr tb1" "slots tb1 = insert (int i, a) (slots tb)" "fts_low tb1"
    "tb_events tb1 = tb_events tb" "length (tb_facts tb1) = Suc (length (tb_facts tb))"
    using Cons.prems by (auto intro: genesis_text_total [of i a tb ts])
  obtain tb2 where "res_fold (genesis_text a ts) is tb1 = Inr tb2" "slots tb2 = slots tb1 \<union> (\<lambda>i. (int i, a)) ` set is"
    "fts_low tb2" "tb_events tb2 = tb_events tb1" "length (tb_facts tb2) = length (tb_facts tb1) + length is"
    using Cons.IH [of tb1] Cons.prems 1 by auto
  then show ?case using Cons.prems(1) [of tb2] 1 by simp
qed simp

lemma genesis_names_total:
  obtains tb where "res_fold genesis_name [1..<length systemNames] (empty_tables now) = Inr tb"
    "tb_facts tb = []" "tb_fts tb = []" "tb_events tb = []" "\<forall>r \<in> set (tb_ids tb). id_id r < 64 \<and> id_gid r = None"
proof -
  have weak: "m = m' \<Longrightarrow> res_bind m f = res_bind m' f" for m m' :: "tables res" and f :: "tables \<Rightarrow> tables res" by simp
  have "\<exists>tb. res_fold genesis_name [1..<length systemNames] (empty_tables now) = Inr tb
    \<and> tb_facts tb = [] \<and> tb_fts tb = [] \<and> tb_events tb = [] \<and> (\<forall>r \<in> set (tb_ids tb). id_id r < 64 \<and> id_gid r = None)"
    by (simp add: systemNames_def upt_rec empty_tables_def genesis_name_def insert_id_def id_row_ok_def GenesisTx_def
        res_wrap_def cong: weak)
  then show thesis using that by blast
qed

lemma genesis_uuid:
  "parseUUID genesisEventID = Inr (replicate 6 (CHR 0x00) @ [CHR 0x40, CHR 0x00, CHR 0x80] @ replicate 6 (CHR 0x00) @ [CHR 0x40])"
  by code_simp

lemma genesis_data:
  assumes "validateInstantMicros now = Inr ()"
  shows "genesisEventData now = Inr (json_text (genesisEventRecord now), sha256 (json_text (genesisEventRecord now)))"
  unfolding genesisEventData_def
proof (rule canonicalEventData_total)
  show "int_json (genesisEventRecord now)"
    using assms
    by (simp add: genesisEventRecord_def validateInstantMicros_def systemNames_def genesisEventID_def ValidString_def
        runes_def byte_of_def in_int64_def MinInt64_def MaxInt64_def minInstantMicros_def maxInstantMicros_def)
qed (simp_all add: genesisEventRecord_def systemNames_def genesisEventID_def MaxJSONDocumentDepth_def
      maxPortableLineBytes_def MaxValueBytes_def)

lemma initializeTransaction_total:
  assumes "validateInstantMicros now = Inr ()"
  shows "\<exists>tb. initializeTransaction now = Inr tb \<and> basisOn tb = GenesisTx \<and> length (tb_facts tb) = 39"
proof -
  obtain tb1 where 1: "res_fold genesis_name [1..<length systemNames] (empty_tables now) = Inr tb1"
      "tb_facts tb1 = []" "tb_fts tb1 = []" "tb_events tb1 = []" "\<forall>r \<in> set (tb_ids tb1). id_id r < 64 \<and> id_gid r = None"
    by (rule genesis_names_total)
  obtain u where u: "parseUUID genesisEventID = Inr u" "length u = 16" using genesis_uuid by simp
  let ?r = "\<lparr>id_id = GenesisTx, id_name = None, id_gid = Some u, id_created = GenesisTx\<rparr>"
  define tb2 where "tb2 = tb1\<lparr>tb_ids := tb_ids tb1 @ [?r]\<rparr>"
  have 2: "insert_id ?r tb1 = Inr tb2"
    using 1(5) u(2) by (force simp: insert_id_def id_row_ok_def GenesisTx_def tb2_def)
  have s2: "slots tb2 = {}" "fts_low tb2" "tb_events tb2 = []" "length (tb_facts tb2) = 0"
    using 1 by (simp_all add: tb2_def slots_def fts_low_def)
  obtain tb3 where 3: "insert_fact_row 64 1 (SInt now) TagInstant 64 tb2 = Inr (tb_seq tb2 + 1, tb3)"
      "slots tb3 = {(64, 1)}" "fts_low tb3" "tb_events tb3 = []" "length (tb_facts tb3) = 1"
    by (rule insert_row_total [of 64 1 tb2 "SInt now" TagInstant 64]) (simp_all add: s2)
  obtain tb4 where 4: "res_fold (genesis_text 8 systemTypes) [1..<length systemTypes] tb3 = Inr tb4"
      "slots tb4 = slots tb3 \<union> (\<lambda>i. (int i, 8)) ` set [1..<length systemTypes]" "fts_low tb4" "tb_events tb4 = []"
      "length (tb_facts tb4) = 1 + length [1..<length systemTypes]"
    by (rule genesis_texts_total [of "[1..<length systemTypes]" 8 tb3 systemTypes]) (use 3 in auto)
  obtain tb5 where 5: "res_fold (genesis_text 10 systemDocs) [1..<length systemDocs] tb4 = Inr tb5"
      "slots tb5 = slots tb4 \<union> (\<lambda>i. (int i, 10)) ` set [1..<length systemDocs]" "fts_low tb5" "tb_events tb5 = []"
      "length (tb_facts tb5) = length (tb_facts tb4) + length [1..<length systemDocs]"
    by (rule genesis_texts_total [of "[1..<length systemDocs]" 10 tb4 systemDocs]) (use 3 4 in auto)
  have free: "(k, 5) \<notin> slots tb5" for k using 3(2) 4(2) 5(2) by auto
  obtain tb6 where 6: "insert_fact_row 16 5 (SInt 1) TagBool GenesisTx tb5 = Inr (tb_seq tb5 + 1, tb6)"
      "slots tb6 = insert (16, 5) (slots tb5)" "fts_low tb6" "tb_events tb6 = []" "length (tb_facts tb6) = Suc (length (tb_facts tb5))"
    by (rule insert_row_total [of 16 5 tb5 "SInt 1" TagBool GenesisTx]) (simp_all add: free 5(3,4))
  obtain tb7 where 7: "insert_fact_row 17 5 (SInt 1) TagBool GenesisTx tb6 = Inr (tb_seq tb6 + 1, tb7)"
      "tb_events tb7 = []" "length (tb_facts tb7) = Suc (length (tb_facts tb6))"
    by (rule insert_row_total [of 17 5 tb6 "SInt 1" TagBool GenesisTx]) (simp_all add: free 6(2-5))
  have len: "length (tb_facts tb7) = 39"
    using 4(5) 5(5) 6(5) 7(3) by (simp add: systemTypes_def systemDocs_def)
  let ?e = "\<lparr>ev_tx = GenesisTx, ev_hash = sha256 (json_text (genesisEventRecord now)),
     ev_data = Some (json_text (genesisEventRecord now)), ev_op = None, ev_req = None\<rparr>"
  have run: "initializeTransaction now = res_wrap ErrFormat (insert_event ?e tb7)"
    by (simp only: initializeTransaction_def assms 1(1) u(1) 2 3(1) 4(1) 5(1) 6(1) 7(1) genesis_many_def genesis_data [OF assms]
        res_fold.simps res_bind_simps res_wrap_def sum.case prod.case)
  have "insert_event ?e tb7 = Inr (tb7\<lparr>tb_events := [?e]\<rparr>)"
    by (simp add: insert_event_def event_row_ok_def 7(2))
  then show ?thesis using run len by (simp add: res_wrap_def basisOn_def)
qed

end
