(* ===== verification/Reachability.thy ===== *)
theory Reachability
  imports SnapshotFacts ExcisionFacts GenesisFacts
begin

text \<open>
  Databases as a client sees them: a file that was initialised, the transactions, excisions, applied event streams,
  repairs and restorations of this connection with their failures (for a
  transaction also that of its COMMIT), the commits of other connections to the same file, and historical
  handles. Every state reached satisfies the invariant of the tables, and its name caches never mislead.
\<close>

definition opened :: "tables \<Rightarrow> int \<Rightarrow> bool \<Rightarrow> db" where
  "opened tb version readOnly =
    \<lparr>db_store = \<lparr>st_tables = tb, st_names = [], st_idNames = [], st_gids = [], st_dataVersion = 0,
                 st_version = version, st_readOnly = readOnly, st_closed = False\<rparr>,
     db_asOf = None\<rparr>"

text \<open>
  A commit of another connection changes the answer of \<^verbatim>\<open>PRAGMA data_version\<close>: it is neither the version this
  connection saw last nor the one it remembers.
\<close>

definition other_commit :: "tables \<Rightarrow> int \<Rightarrow> db \<Rightarrow> db" where
  "other_commit tb version d = d\<lparr>db_store := (db_store d)\<lparr>st_tables := tb, st_version := version\<rparr>\<rparr>"

inductive reachable :: "db \<Rightarrow> bool" where
  opens: "initializeTransaction now = Inr tb \<Longrightarrow> 0 \<le> version \<Longrightarrow> reachable (opened tb version readOnly)"
| transacts: "reachable d \<Longrightarrow> reachable (snd (TransactCommitting commits en d data c))"
| excises: "reachable d \<Longrightarrow> reachable (snd (Excise en d ref c))"
| applies: "reachable d \<Longrightarrow> reachable (snd (applyStream en d stream))"
| repairs: "reachable d \<Longrightarrow> reachable (snd (Doctor ph d repair))"
| restores: "reachable d \<Longrightarrow> reachable (snd (Restore ph d stream))"
| other: "reachable d \<Longrightarrow> db_tables d2 = db_tables d \<Longrightarrow> transactOn en d2 data c = Inr (report, s2)
    \<Longrightarrow> 0 \<le> version \<Longrightarrow> version \<notin> {st_version (db_store d), st_dataVersion (db_store d)}
    \<Longrightarrow> reachable (other_commit (st_tables s2) version d)"
| view: "reachable d \<Longrightarrow> reachable (d\<lparr>db_asOf := t\<rparr>)"

lemma other_commit_ok:
  assumes "transactOn en d2 data c = Inr (report, s2)" "db_tables d2 = db_tables d" "tables_ok (db_tables d)"
    and "0 \<le> version" "version \<noteq> st_dataVersion (db_store d)"
  shows "tables_ok (db_tables (other_commit (st_tables s2) version d)) \<and> cache_ok (db_store (other_commit (st_tables s2) version d))"
  using assms transactOn_ok [OF assms(1)] by (simp add: other_commit_def cache_ok_def)

lemma TransactCommitting_named:
  "tables_ok (db_tables d) \<Longrightarrow> system_named (db_tables d)
     \<Longrightarrow> system_named (db_tables (snd (TransactCommitting commits en d data c)))"
  by (auto simp: TransactCommitting_def Let_def split: sum.splits dest: transactOn_named)

lemma genesis_name_ids:
  "res_fold genesis_name ks tb = Inr tb' \<Longrightarrow>
     tb_ids tb' = tb_ids tb @ map (\<lambda>i. \<lparr>id_id = int i, id_name = Some (systemNames ! i), id_gid = None, id_created = GenesisTx\<rparr>) ks"
  by (induction ks arbitrary: tb) (auto simp: res_bind_Inr_iff genesis_name_def dest!: insert_id_Inr)

interpretation genesis_texts_ids: kept_by "genesis_text a ts" "\<lambda>tb. tb_ids tb = ids"
  by unfold_locales (auto simp: genesis_text_def res_bind_Inr_iff dest!: insert_fact_row_Inr(3) insert_fts_Inr(1))

interpretation genesis_manys_ids: kept_by genesis_many "\<lambda>tb. tb_ids tb = ids"
  by unfold_locales (auto simp: genesis_many_def res_bind_Inr_iff dest!: insert_fact_row_Inr(3))

lemma genesis_ids:
  assumes "initializeTransaction now = Inr tb"
  shows "\<exists>rows. tb_ids tb = map (\<lambda>i. \<lparr>id_id = int i, id_name = Some (systemNames ! i), id_gid = None, id_created = GenesisTx\<rparr>) [1..<length systemNames] @ rows"
proof -
  obtain tb1 u tb2 i tb3 tb4 tb5 tb6 data h where
      1: "res_fold genesis_name [1..<length systemNames] (empty_tables now) = Inr tb1"
    and 2: "insert_id \<lparr>id_id = GenesisTx, id_name = None, id_gid = Some u, id_created = GenesisTx\<rparr> tb1 = Inr tb2"
    and 3: "insert_fact_row 64 1 (SInt now) TagInstant 64 tb2 = Inr (i, tb3)"
    and 4: "res_fold (genesis_text 8 systemTypes) [1..<length systemTypes] tb3 = Inr tb4"
    and 5: "res_fold (genesis_text 10 systemDocs) [1..<length systemDocs] tb4 = Inr tb5"
    and 6: "res_fold genesis_many [16, 17] tb5 = Inr tb6"
    and 7: "insert_event \<lparr>ev_tx = GenesisTx, ev_hash = h, ev_data = Some data, ev_op = None, ev_req = None\<rparr> tb6 = Inr tb"
    using assms by (rule initializeTransactionE)
  have "tb_ids tb3 = tb_ids tb2" using insert_fact_row_Inr(3) [OF 3] by simp
  then have "tb_ids tb4 = tb_ids tb2" using 4 by (rule genesis_texts_ids.run_keeps)
  then have "tb_ids tb5 = tb_ids tb2" using 5 by (rule genesis_texts_ids.run_keeps)
  then have "tb_ids tb6 = tb_ids tb2" using 6 by (rule genesis_manys_ids.run_keeps)
  then show ?thesis
    using genesis_name_ids [OF 1] insert_id_Inr [OF 2] insert_event_Inr [OF 7] by (simp add: empty_tables_def)
qed

lemma genesis_named:
  assumes "initializeTransaction now = Inr tb"
  shows "system_named tb"
proof -
  let ?row = "\<lambda>i. \<lparr>id_id = int i, id_name = Some (systemNames ! i), id_gid = None, id_created = GenesisTx\<rparr>"
  obtain rows where ids: "tb_ids tb = map ?row [1..<length systemNames] @ rows" using genesis_ids [OF assms] by blast
  have "[1..<length systemNames] = [1, 2, 3, 4, 5, 6, 7, 8, 9, 10, 11, 12, 13, 14, 15, 16, 17, 18]" by code_simp
  then have "find_id k tb = Some (?row (nat k))" if "k \<in> {1, 2, 3, 4, 13}" for k
    using that by (auto simp: find_id_def ids find_append)
  then show ?thesis by (simp add: system_named_def attributeName_def)
qed

lemma reachable_store_ok: "reachable d \<Longrightarrow> store_ok (db_store d)"
proof (induction rule: reachable.induct)
  case (opens now tb version readOnly)
  then show ?case using initializeTransaction_ok genesis_named by (simp add: opened_def cache_ok_def store_ok_def)
next
  case (transacts d commits en data c)
  then show ?case using TransactCommitting_ok TransactCommitting_caches TransactCommitting_named unfolding store_ok_def by blast
next
  case (excises d en ref c)
  then show ?case using Excise_ok system_named_grows unfolding store_ok_def by blast
next
  case (applies d en stream)
  then show ?case using applyStream_ok by blast
next
  case (repairs d ph repair)
  then show ?case using Doctor_ok system_named_grows [where rows = "[]"] unfolding store_ok_def by fastforce
next
  case (restores d ph stream)
  then show ?case using Restore_ok by blast
next
  case (other d d2 en data c report s2 version)
  then show ?case using other_commit_ok transactOn_named by (auto simp: other_commit_def store_ok_def)
qed simp

lemma reachable_ok: "reachable d \<Longrightarrow> tables_ok (db_tables d) \<and> cache_ok (db_store d)"
  using reachable_store_ok by (simp add: store_ok_def)

lemma reachable_named: "reachable d \<Longrightarrow> system_named (db_tables d)"
  using reachable_store_ok by (simp add: store_ok_def)

end
