(* ===== verification/HistoryFacts.thy ===== *)
theory HistoryFacts
  imports TransactFacts
begin

text \<open>
  What a commit does to the past: the rows of an attribute that keeps history are visible at every earlier
  transaction as they were.
\<close>

definition history_of :: "int \<Rightarrow> int \<Rightarrow> tables \<Rightarrow> rawFact set" where
  "history_of a t tb = {f \<in> history t tb. rf_a f = a}"

definition declaration_rows :: "int \<Rightarrow> tables \<Rightarrow> rawFact set" where
  "declaration_rows a tb = {f \<in> live_set tb. rf_e f = a}"

lemma history_of_alt:
  "history_of a t tb = (\<lambda>f. f\<lparr>rf_rx := None\<rparr>) ` {f \<in> set (tb_facts tb). visible (Some t) f \<and> rf_a f = a}"
  by (auto simp: history_of_def history_def)

subsection \<open>Schemas\<close>

text \<open>The schema of an attribute is a function of the live rows whose entity is the attribute.\<close>

lemma schemaFor_cong:
  assumes "filter (\<lambda>f. rf_e f = a \<and> live f) (tb_facts (db_tables d')) = filter (\<lambda>f. rf_e f = a \<and> live f) (tb_facts (db_tables d))"
    and "db_asOf d = None" "db_asOf d' = None"
  shows "schemaFor d' a = schemaFor d a"
proof -
  have split: "filter (\<lambda>f. rf_e f = a \<and> isSchemaAttribute (rf_a f) \<and> visible None f) xs
      = filter (\<lambda>f. isSchemaAttribute (rf_a f)) (filter (\<lambda>f. rf_e f = a \<and> live f) xs)" for xs
    by (induction xs) (auto simp: visible_def live_def)
  show ?thesis
    using assms by (simp add: schemaFor_def schemaForChanges_def select_facts_def split)
qed

lemma filter_delete:
  assumes "distinct (map rf_id xs)" "f \<in> set xs" "\<not> P f"
  shows "filter P (filter (\<lambda>g. rf_id g \<noteq> rf_id f) xs) = filter P xs"
  using assms by (simp only: filter_filter, intro filter_cong refl) (metis distinct_map inj_on_def)

lemma filter_close:
  assumes "distinct (map rf_id xs)" "f \<in> set xs" "rf_e f \<noteq> a"
  shows "filter (\<lambda>g. rf_e g = a \<and> live g) (map (close_row tx (rf_id f)) xs) = filter (\<lambda>g. rf_e g = a \<and> live g) xs"
proof -
  have "rf_e g \<noteq> a" if "g \<in> set xs" "rf_id g = rf_id f" for g
    using assms that by (metis distinct_map inj_on_def)
  then have "filter (\<lambda>g. rf_e g = a \<and> live g \<and> rf_id g \<noteq> rf_id f) xs = filter (\<lambda>g. rf_e g = a \<and> live g) xs"
    by (intro filter_cong) auto
  moreover have "map (close_row tx (rf_id f)) (filter (\<lambda>g. rf_e g = a \<and> live g \<and> rf_id g \<noteq> rf_id f) xs)
      = filter (\<lambda>g. rf_e g = a \<and> live g \<and> rf_id g \<noteq> rf_id f) xs"
    by (rule map_idI) (auto simp: close_row_def)
  ultimately show ?thesis by (simp add: filter_map comp_def)
qed

subsection \<open>The writer\<close>

lemma retract_row_schema:
  assumes "retract_row d tx f = Inr tb'" "facts_ok (db_tables d)" "f \<in> set (tb_facts (db_tables d))" "rf_e f \<noteq> a"
    and "db_asOf d = None"
  shows "schemaFor (d\<lparr>db_store := (db_store d)\<lparr>st_tables := tb'\<rparr>\<rparr>) a = schemaFor d a"
proof (rule schemaFor_cong)
  note dist = facts_ok_distinct [OF assms(2)]
  show "filter (\<lambda>f. rf_e f = a \<and> live f) (tb_facts (db_tables (d\<lparr>db_store := (db_store d)\<lparr>st_tables := tb'\<rparr>\<rparr>)))
      = filter (\<lambda>f. rf_e f = a \<and> live f) (tb_facts (db_tables d))"
    using assms(1)
  proof (cases rule: retract_row_cases)
    case (delete sc)
    then show ?thesis using filter_delete [OF dist assms(3), of "\<lambda>f. rf_e f = a \<and> live f"] assms(4)
      by (simp add: delete_fts_def)
  next
    case (close sc tb1)
    then show ?thesis using filter_close [OF dist assms(3,4)] retract_fact_Inr(1) [OF close(3)]
      by (simp add: delete_fts_def)
  qed
qed (use assms(5) in simp_all)

lemma retract_row_history_of:
  assumes "retract_row d tx f = Inr tb'" "facts_ok (db_tables d)" "f \<in> set (tb_facts (db_tables d))" "t < tx"
    and "schemaFor d a = Inr sc" "\<not> deletesHistory sc"
  shows "history_of a t tb' = history_of a t (db_tables d)"
proof (cases "rf_a f = a")
  case True
  then show ?thesis using retract_row_history(2) [OF assms(1,4)] assms(5,6) by (simp add: history_of_def)
next
  case False
  show ?thesis using assms(1)
  proof (cases rule: retract_row_cases)
    case (delete sc)
    have "{g \<in> set (tb_facts tb'). visible (Some t) g \<and> rf_a g = a} = {g \<in> set (tb_facts (db_tables d)). visible (Some t) g \<and> rf_a g = a}"
      using False facts_ok_id_inj [OF assms(2) _ assms(3)] by (auto simp: delete(3) delete_fts_def)
    then show ?thesis by (simp add: history_of_alt)
  next
    case (close sc tb1)
    have "history t tb' = history t (db_tables d)" using close(4) history_close [OF close(3) assms(4)] by simp
    then show ?thesis by (simp add: history_of_def)
  qed
qed

lemma retract_run_history_of:
  assumes "res_fold (retract_one tx) fs (d, out) = Inr (d', out')" "content_ok C (db_tables d)"
    and "set fs \<subseteq> live_set (db_tables d)" "distinct fs" "\<forall>f \<in> set fs. rf_e f \<noteq> a"
    and "t < tx" "db_asOf d = None" "schemaFor d a = Inr sc" "\<not> deletesHistory sc"
  shows "history_of a t (db_tables d') = history_of a t (db_tables d)"
  using assms
proof (induction fs arbitrary: d out C)
  case (Cons f fs)
  obtain tb r where row: "retract_row d tx f = Inr tb"
    and run: "res_fold (retract_one tx) fs (d\<lparr>db_store := (db_store d)\<lparr>st_tables := tb\<rparr>\<rparr>, out @ [r]) = Inr (d', out')"
    using Cons.prems(1) by (auto simp: res_iff retract_one_Inr)
  have f: "f \<in> live_set (db_tables d)" "f \<in> set (tb_facts (db_tables d))" and ok: "facts_ok (db_tables d)"
    using Cons.prems(2,3) by (auto simp: live_set_def content_ok_def)
  note step = retract_row_content [OF row Cons.prems(2) f(1)]
  have mem: "set fs \<subseteq> live_set tb" using Cons.prems(3,4) step(2) by auto
  have sc: "schemaFor (d\<lparr>db_store := (db_store d)\<lparr>st_tables := tb\<rparr>\<rparr>) a = Inr sc"
    using retract_row_schema [OF row ok f(2)] Cons.prems(5,7,8) by simp
  have "history_of a t (db_tables d') = history_of a t tb"
    using Cons.IH [OF run, of "C \<union> {h. refers h f}"] step mem Cons.prems(4-9) sc by simp
  then show ?case using retract_row_history_of [OF row ok f(2) Cons.prems(6,8,9)] by simp
qed simp

lemma write_facts_history_of:
  assumes run: "write_facts tx pl al facts rets d = Inr (d', asserted, retracted)"
    and st: "\<forall>f \<in> set facts. storable (pf_value f)" and ok: "content_ok {} (db_tables d)"
    and rets: "set rets \<subseteq> live_set (db_tables d)" "distinct rets"
    and untouched: "\<forall>f \<in> set facts. pf_e f \<noteq> a" "\<forall>f \<in> set rets. rf_e f \<noteq> a"
    and sc: "t < tx" "db_asOf d = None" "schemaFor d a = Inr sc" "\<not> deletesHistory sc"
  shows "history_of a t (db_tables d') = history_of a t (db_tables d)"
proof -
  let ?tb = "db_tables d"
  obtain s1 out1 d2 out2 where ins: "res_fold (insert_planned al tx) facts (db_store d, []) = Inr (s1, out1)"
    and ret: "res_fold (retract_one tx) rets (d\<lparr>db_store := s1\<rparr>, []) = Inr (d2, out2)"
    and d': "db_tables d' = flush al (fold gc_blob (remdups (concat (map garbage_candidate rets))) (db_tables d2))"
    using run by (auto simp: write_facts_def Let_def res_iff)
  obtain rows where 1: "content_ok {} (st_tables s1)" "tb_facts (st_tables s1) = tb_facts ?tb @ rows"
      "map raw_key rows = map planned_key facts" "\<forall>r \<in> set rows. rf_tx r = tx \<and> live r"
    using insert_run [OF ins st ok] by auto
  have "fst ` raw_key ` set rows = fst ` planned_key ` set facts"
    using arg_cong [OF 1(3), of set] by (metis list.set_map)
  then have "\<forall>r \<in> set rows. rf_e r \<noteq> a"
    using untouched(1) by (force simp: image_image raw_key_def planned_key_def fact_key_def)
  then have "filter (\<lambda>f. rf_e f = a \<and> live f) (tb_facts (st_tables s1)) = filter (\<lambda>f. rf_e f = a \<and> live f) (tb_facts ?tb)"
    by (simp add: 1(2) filter_empty_conv)
  then have sc1: "schemaFor (d\<lparr>db_store := s1\<rparr>) a = Inr sc"
    using schemaFor_cong [of a "d\<lparr>db_store := s1\<rparr>" d] sc(2,3) by simp
  have live1: "set rets \<subseteq> live_set (st_tables s1)" using rets(1) 1(2) by (auto simp: live_set_def)
  have "history_of a t (db_tables d2) = history_of a t (st_tables s1)"
    using retract_run_history_of [OF ret, of "{}"] 1(1) live1 rets(2) untouched(2) sc sc1 by simp
  moreover have "history_of a t (st_tables s1) = history_of a t ?tb"
    using history_append [OF 1(2) _ sc(1)] 1(4) by (simp add: history_of_def)
  moreover have "history_of a t (db_tables d') = history_of a t (db_tables d2)"
    by (simp add: history_of_alt d' flush_def)
  ultimately show ?thesis by simp
qed

subsection \<open>The transaction\<close>

lemma commit_untouched:
  assumes "committed tx rets facts tb tb'" "declaration_rows a tb' = declaration_rows a tb"
    and "set rets \<subseteq> live_set tb" "tx \<notin> rf_tx ` set (tb_facts tb)"
  shows "\<forall>f \<in> set facts. pf_e f \<noteq> a" "\<forall>f \<in> set rets. rf_e f \<noteq> a"
proof -
  obtain rows where rows: "live_set tb' = (live_set tb - set rets) \<union> set rows" "map raw_key rows = map planned_key facts"
      "\<forall>r \<in> set rows. rf_tx r = tx"
    using assms(1) by (auto simp: committed_def)
  have new: "r \<notin> live_set tb" if "r \<in> set rows" for r
    using that rows(3) assms(4) by (auto simp: live_set_def)
  have e: "r \<in> live_set tb' \<longleftrightarrow> r \<in> live_set tb" if "rf_e r = a" for r
    using assms(2) that by (auto simp: declaration_rows_def)
  then have "\<forall>r \<in> set rows. rf_e r \<noteq> a" using rows(1) new by blast
  then have "\<forall>k \<in> set (map raw_key rows). fst k \<noteq> a" by (simp add: raw_key_def)
  then show "\<forall>f \<in> set facts. pf_e f \<noteq> a" unfolding rows(2) by (simp add: planned_key_def fact_key_def)
  show "\<forall>f \<in> set rets. rf_e f \<noteq> a" using e rows(1) new assms(3) by blast
qed

lemma commit_history_of:
  assumes run: "commit_transaction en d basis c h as rets pl = Inr (report, s')"
    and ok: "tables_ok (db_tables d)" and al: "alloc_ok (pl_alloc pl)" "tb_next_id (db_tables d) = Some (al_first (pl_alloc pl))"
    and st: "\<forall>f \<in> set as. storable (pf_value f)"
    and rets: "set rets \<subseteq> live_set (db_tables d)" "distinct rets"
    and decl: "declaration_rows a (st_tables s') = declaration_rows a (db_tables d)"
    and sc: "db_asOf d = None" "schemaFor d a = Inr sc" "\<not> deletesHistory sc" and t: "t < tr_tx report"
  shows "history_of a t (st_tables s') = history_of a t (db_tables d)"
proof -
  obtain bv sv mv tx al' now uuid s1 al1 d2 asserted retracted where
      v: "metadata_value textStored (to_by c) = Inr bv" "metadata_value textStored (to_source c) = Inr sv"
         "metadata_value jsonStored (to_meta c) = Inr mv"
    and tx: "alloc_tx (pl_alloc pl) = Inr (tx, al')"
    and fin: "finalize en tx uuid (db_store d) al' = Inr (s1, al1)"
    and wr: "write_facts tx pl al1 (metadata_facts tx now bv sv mv @ map (target_tx tx) as) rets (d\<lparr>db_store := s1\<rparr>)
          = Inr (d2, asserted, retracted)"
    and ev: "record_event tx now c h (db_store d2) = Inr s'" and rep: "tr_tx report = tx"
    using run by (rule commit_transactionE)
  let ?tb = "db_tables d" let ?facts = "metadata_facts tx now bv sv mv @ map (target_tx tx) as"
  have st': "\<forall>f \<in> set ?facts. storable (pf_value f)"
    using st metadata_storable [OF v] by (auto simp: metadata_facts_def target_tx_def)
  note W = commit_writes [OF ok al tx fin wr ev st' rets]
  have D: "below (al_first (pl_alloc pl)) ?tb" "ids_ok ?tb" "content_ok {} ?tb" "txs_in (recorded ?tb) ?tb"
    using ok al(2) by (auto elim: tables_okD)
  have "tx \<notin> rf_tx ` set (tb_facts ?tb)"
    using D(1,4) alloc_tx_Inr(5) [OF tx al(1)] by (fastforce simp: txs_in_def recorded_def below_def)
  note untouched = commit_untouched [OF W(2) decl rets(1) this]
  obtain ids where s1: "st_tables s1 = ?tb\<lparr>tb_ids := ids\<rparr>" using ids_added_same [OF finalize_Inr(2) [OF fin D(2)]] by blast
  have sc1: "schemaFor (d\<lparr>db_store := s1\<rparr>) a = Inr sc"
    using schemaFor_cong [of a "d\<lparr>db_store := s1\<rparr>" d] sc(1,2) by (simp add: s1)
  have content1: "content_ok {} (st_tables s1)" using D(3) by (subst content_ok_cong [of _ ?tb]) (simp_all add: s1)
  have live1: "set rets \<subseteq> live_set (st_tables s1)" using rets(1) by (simp add: s1 live_set_def)
  have "history_of a t (db_tables d2) = history_of a t (st_tables s1)"
    using write_facts_history_of [OF wr st', of a t sc] content1 live1 rets(2) untouched sc sc1 t rep by simp
  moreover have "tb_facts (st_tables s') = tb_facts (db_tables d2)" using ev by (rule record_event_Inr) simp
  ultimately show ?thesis by (simp add: history_of_alt s1)
qed

lemma transactOn_history_of:
  assumes run: "transactOn en d data c = Inr (report, s')" and ok: "tables_ok (db_tables d)" and "tr_status report = ''applied''"
    and decl: "declaration_rows a (st_tables s') = declaration_rows a (db_tables d)"
    and sc: "db_asOf d = None" "schemaFor d a = Inr sc" "\<not> deletesHistory sc" and t: "t < tr_tx report"
  shows "history_of a t (st_tables s') = history_of a t (db_tables d)"
  using run ok
proof (cases rule: transactOn_cases)
  case prior
  then show ?thesis using assms(3) prior_status by fastforce
next
  case (commit h input d0 as0 rets txf pl0 as pl n)
  obtain m where as: "as = map (remap_fact m) as0" using commit(10) by blast
  note tb = planned_on_tables [OF commit(3)] note P = plan_transaction_ok [OF commit(4)]
  have d0: "db_asOf d0 = None" "schemaFor d0 a = Inr sc"
    using commit(3) sc(1,2) schemaFor_cong [of a d0 d] tb by (auto simp: planned_on_def)
  have "\<forall>f \<in> set as. storable (pf_value f)" using P(2) tb commit(5) ok by (auto simp: as remap_value_storable)
  then show ?thesis
    using commit_history_of [OF commit(11) _ commit(6)] P(3,4) tb commit(5,7) ok decl d0 sc(3) t by simp
qed (use assms in simp)

end
