(* ===== verification/ShapeFacts.thy ===== *)
theory ShapeFacts
  imports Shapes
begin

text \<open>
  Shapes: what the validation at the end of a transaction establishes for the entities it looks at.
\<close>

lemma no_violations:
  assumes "shape_violations entity info attrs = []"
  shows "set (sh_required info) \<subseteq> set attrs"
    "sh_closed info \<Longrightarrow> set (sh_required info) \<subseteq> set (sh_allowed info)"
    "sh_closed info \<Longrightarrow> a \<in> set attrs \<Longrightarrow> take 7 a = ''fgraph/'' \<or> a \<in> set (sh_allowed info)"
  using assms by (auto simp: shape_violations_def Let_def filter_empty_conv split: if_splits)

text \<open>The attributes that an entity has in a view, as the validation reads them.\<close>

definition entity_attributes :: "db \<Rightarrow> int \<Rightarrow> string list res" where
  "entity_attributes d i = res_bind (pullEntity 1 d [] i) (\<lambda>p. Inr (map fst (case p of None \<Rightarrow> [] | Some m \<Rightarrow> m)))"

definition conforms :: "ShapeInfo \<Rightarrow> string list \<Rightarrow> bool" where
  "conforms info attrs \<longleftrightarrow>
     set (sh_required info) \<subseteq> set attrs
     \<and> (sh_closed info \<longrightarrow> set (sh_required info) \<subseteq> set (sh_allowed info)
          \<and> (\<forall>a \<in> set attrs. take 7 a = ''fgraph/'' \<or> a \<in> set (sh_allowed info)))"

lemma membership_conforms:
  assumes "membership_issues d (entity, shape) = Inr []"
  obtains info attrs where "readShape d shape = Inr info" "entity_attributes d entity = Inr attrs" "conforms info attrs"
proof -
  obtain info pulled where i: "readShape d shape = Inr info" "pullEntity 1 d [] entity = Inr pulled"
      "shape_violations (displayEntity (db_store d) entity) info (map fst (case pulled of None \<Rightarrow> [] | Some m \<Rightarrow> m)) = []"
    using assms by (auto simp: membership_issues_def res_bind_Inr_iff)
  then show thesis
    using that [OF i(1)] no_violations [OF i(3)] by (auto simp: entity_attributes_def conforms_def)
qed

lemma validated_membership:
  assumes "validateTouchedShapes d pl = Inr ()" "f \<in> set (tb_facts (db_tables d))" "rf_a f = 15" "rf_t f = TagRef"
    and "visible (db_asOf d) f" "rf_e f \<in> set (shape_targets (db_tables d) pl)"
  obtains shape where "rf_v f = SInt shape" "membership_issues d (rf_e f, shape) = Inr []"
proof -
  let ?sel = "sort_key rf_e (select_facts (\<lambda>f. rf_a f = 15 \<and> rf_t f = TagRef \<and> visible (db_asOf d) f) (db_tables d))"
  let ?P = "\<lambda>(entity, _). shape_targets (db_tables d) pl = [] \<or> entity \<in> set (shape_targets (db_tables d) pl)"
  obtain rows issues where rows: "res_map membership_row ?sel = Inr rows"
    and iss: "res_map (membership_issues d) (filter ?P rows) = Inr issues" "concat issues = []"
    using assms(1) by (auto simp: validateTouchedShapes_def shapeIssues_def res_bind_Inr_iff)
  have "f \<in> set ?sel" using assms(2-5) by (simp add: select_facts_def)
  then obtain row where row: "membership_row f = Inr row" "row \<in> set rows"
    by (rule res_map_member [OF rows])
  then obtain shape where shape: "rf_v f = SInt shape" "row = (rf_e f, shape)"
    by (auto simp: membership_row_def wrap_def split: sval.splits)
  have "row \<in> set (filter ?P rows)" using row(2) assms(6) shape(2) by simp
  then obtain vs where "membership_issues d row = Inr vs" "vs \<in> set issues"
    by (rule res_map_member [OF iss(1)])
  then show thesis using that [OF shape(1)] shape(2) iss(2) by auto
qed

end
