(* ===== verification/Examples.thy ===== *)
theory Examples
  imports Reachability HistoryFacts ShapeFacts
begin

text \<open>
  Running the model in the kernel: a small database, and the transactions on it that the witnesses of the
  properties use. The simplifier unfolds the definitions of the transactor, evaluating the first
  argument of a bind before its continuation; digests stay symbolic.
\<close>

lemma res_bind_first: "m = m' \<Longrightarrow> res_bind m f = res_bind m' f"
  by simp

lemmas run_defs =
   wide_unsigned_def sortedFields_def objectMap_def
   BlobThreshold_def MaxValueBytes_def minInstantMicros_def maxInstantMicros_def tagNames_def parseTagName_def
   tagCompatible_def stored_def indirect_def indirectDigest_def validateInstantMicros_def instantStored_def
   textStored_def bytesStored_def le_bytes_def vectorStored_def jsonStored_def floatStored_def leap_year_def
   days_in_month_def days_before_year_def days_before_month_def civil_to_micros_def digits_at_def frac_micros_def
   zone_start_def char_at_def rfc3339_shape_def zone_offset_seconds_def parseRFC3339_def year_of_days_def pad_def
   formatInstant_def vector_component_def wrappedValue_def scalarValue_def isValueWrapper_def sqliteBool_def
   storedEqual_def vectorDimensions_def
   GenesisTx_def FirstUserID_def maxPortableLineBytes_def live_def id_row_ok_def insert_id_def
   insert_fact_row_def insert_blob_def insert_fts_def event_row_ok_def insert_event_def delete_fact_def
   retract_fact_def delete_fts_def indirect_tag_def gc_blob_def find_name_def find_id_def find_gid_def
   systemNames_def systemTypes_def systemDocs_def attr_first_def attr_rest_def attr_segment_def
   attributePattern_def validateName_def validateOperationID_def genesisEventID_def formatUUID_def has_upper_def
   uuid_version4_def deterministicEventID_def nextEventID_def genesisEventRecord_def genesisEventData_def
   cache_names_def cache_idNames_def cache_gids_def refreshNames_def newAllocator_def allocate_def anonymous_def
   alloc_tx_def alloc_name_def finalize_one_def finalize_def flush_def res_wrap_def ApplicationID_def
   FormatVersion_def empty_tables_def genesis_name_def genesis_text_def genesis_many_def
   initializeTransaction_def recheckInitialization_def checkOrInit_def checkUsable_def
   visible_def select_facts_def liveFacts_def uniqueOwner_def id_visible_def resolveNumericEntity_def basisOn_def
   validIndirectBlob_def logicalIndirectValue_def logicalJSON_def logicalValue_def displayEntity_def
   displayEntityAllocated_def renderLogicalAllocated_def renderLogical_def attributeName_def renderRawLogical_def
   renderRaw_def renderViewRaw_def
   noSchema_def deletesHistory_def planned_def request_def missing_request_def isSchemaAttribute_def
   appendAssertion_def appendAssertions_def appendRetraction_def plan_assert_def retractMatchesPlanned_def
   activePlanAssertions_def rawRetracted_def applySchemaFact_def schema_of_facts_def schemaForChanges_def
   schemaFor_def schemaForPlan_def finalSchemaForPlan_def noDeclaration_def validateDeclarationOptions_def
   duplicate_live_values_def several_live_values_def unique_type_check_def validateDeclarationOn_def
   declaration_of_def collect_declaration_def declarationEntityName_def collect_retraction_def
   merge_assertion_def check_final_fact_def validateFinalAttribute_def validate_declaration_of_def
   validatePlannedDeclarations_def
   in_alloc_def plan_name_def plan_create_name_def plan_anonymous_def tempEntity_def tmp_object_def
   uniqueOwnerIncludingPlan_def is_receipt_def validateUserWriteTarget_def checkFactValue_def resolvedRef_def
   readFactValue_with_def factValue_with_def lookup_with_def read_value_def lookup_plan_def resolveEid_def
   readEntity_with_def resolveReadEntity_def resolveReadFactValue_def reference_with_def resolveReference_def
   resolveFactValue_def resolveLookup_def resolvePinnedWriteID_def resolveWriteEntity_def
   resolveOperationNumeric_def operation_temp_def resolveOperationEntity_def ensureVectorDims_def
   ensureVectorSchema_def fix_vector_schema_def nested_map_def expandSingle_with_def expandAttribute_with_def
   owner_candidate_def upsert_field_def upsertOwner_with_def redirect_def plan_map_value_def prepare_field_def
   plan_map_field_def map_entity_def planMap_with_def fields_size_def planMap_def expandAttributeValue_def
   planAssert_def planRetract_def missingCASValue_def cas_expectation_def cas_replacement_def cas_apply_def
   planCAS_def planOperation_def isOperation_def identityOnlyTempID_def plan_fields_def planItem_def planData_def
   cas_keys_def validateCASIsolation_def wrapper_tag_def unwrap_tagged_def tagged_logical_def taggedInput_def
   reserved_tx_attr_def finishTxFact_def unique_tx_check_def planTxFact_def tx_map_value_def planTxMapFacts_def
   tx_tuple_def tx_step_def planTxFacts_def selectorUUID_def preallocate_one_def preallocateEventIdentities_def
   remapPendingID_def remap_value_def remap_fact_def fact_refs_def kept_ids_def update_id_def compact_remap_def
   compact_allocator_def compactPendingAllocations_def reportIDs_def
   unique_rows_def entity_rows_def unique_assertion_def touched_entities_def working_row_def
   workingFactsForPlan_def fact_key_def raw_working_def raw_key_def planned_key_def initial_working_def
   protected_owners_def retract_hits_def remove_working_def diff_retract_def displace_def restore_def
   insert_working_def zero_fact_def unique_conflict_def diff_assert_def plan_operations_def diff_init_def
   diff_result_def diffPlan_def
   add_pulled_def pulled_any_def pull_row_def pull_with_def Entity_def shape_attribute_def ref_name_def
   readShape_def shape_violations_def membership_row_def membership_issues_def shapeIssues_def
   changedShapeMembers_def changed_shapes_def shape_targets_def validateTouchedShapes_def sortedUniqueStrings_def
   normalizeShapeAttributes_def shape_transaction_def
   canonicalLogicalRequestHash_def option_field_def canonicalRequestHash_def identitySelector_def eventValue_def
   exportTuple_def created_identity_def export_assertion_def event_uuid_def exportTransaction_def
   alreadyAppliedReport_def event_at_def prior_basis_def eventReceipt_def operationReceipt_def
   noOptions_def insertFact_def renderPlanned_def insert_planned_def retract_row_def garbage_candidate_def
   retract_one_def latest_timestamp_def nextTimestamp_def event_identity_def request_hash_def operation_check_def
   new_plan_def plan_transaction_def metadata_value_def metadata_fact_def target_tx_def write_facts_def
   record_event_def noop_report_def commit_transaction_def has_metadata_def transactOn_def TransactCommitting_def Transact_def
   declaration_fields_def declareWithTxOptions_def Retract_def DeclareShape_def
  Let_def put_all_def check_def wrap_def byte_of_def MaxInt64_def MinInt64_def i64_add_def i64_wrap_def ValidString_def runes_def
  hasControl_def IsControl_def is_digit_def in_int64_def FormatInt_def digit_def EncodeHex_def hex_byte_def

text \<open>Recording an event, on the values that the examples record.\<close>

lemmas run_event = canonicalEventData_total MaxJSONDocumentDepth_def

definition ex_uuid :: string where
  "ex_uuid = ''00000000-0000-4000-8000-0000000000ff''"

lemma ex_uuid_bytes:
  "parseUUID ex_uuid = Inr [CHR 0x00, CHR 0x00, CHR 0x00, CHR 0x00, CHR 0x00, CHR 0x00, CHR 0x40, CHR 0x00,
     CHR 0x80, CHR 0x00, CHR 0x00, CHR 0x00, CHR 0x00, CHR 0x00, CHR 0x00, CHR 0xFF]"
  by code_simp

definition ex_env :: env where
  "ex_env = \<lparr>en_clock = 9, en_eventIDs = Inr ex_uuid, en_eventSeed = None, en_uuid5 = (\<lambda>ev n. take 15 ev @ [char_of n])\<rparr>"

text \<open>
  An attribute \<^verbatim>\<open>a/b\<close> (id 65) with the value 7 on entity 66, asserted by transaction 67 at time 5 under the
  operation id \<^verbatim>\<open>op\<close>.
\<close>

definition ex_tables :: "string \<Rightarrow> tables" where
  "ex_tables req =
    \<lparr>tb_next_id = Some 68, tb_created_at = 0,
     tb_ids = [\<lparr>id_id = 1, id_name = Some ''fgraph/at'', id_gid = None, id_created = 64\<rparr>,
               \<lparr>id_id = 2, id_name = Some ''fgraph/by'', id_gid = None, id_created = 64\<rparr>,
               \<lparr>id_id = 3, id_name = Some ''fgraph/source'', id_gid = None, id_created = 64\<rparr>,
               \<lparr>id_id = 4, id_name = Some ''fgraph/meta'', id_gid = None, id_created = 64\<rparr>,
               \<lparr>id_id = 13, id_name = Some ''fgraph/imported-at'', id_gid = None, id_created = 64\<rparr>,
               \<lparr>id_id = 65, id_name = Some ''a/b'', id_gid = None, id_created = 67\<rparr>,
               \<lparr>id_id = 66, id_name = None, id_gid = Some ''eeeeeeeeeeeeeeee'', id_created = 67\<rparr>,
               \<lparr>id_id = 67, id_name = None, id_gid = Some ''tttttttttttttttt'', id_created = 67\<rparr>],
     tb_events = [\<lparr>ev_tx = 67, ev_hash = ''hhhhhhhhhhhhhhhhhhhhhhhhhhhhhhhh'', ev_data = None, ev_op = Some ''op'', ev_req = Some req\<rparr>],
     tb_facts = [\<lparr>rf_id = 1, rf_e = 67, rf_a = 1, rf_v = SInt 5, rf_t = TagInstant, rf_tx = 67, rf_rx = None\<rparr>,
                 \<lparr>rf_id = 2, rf_e = 66, rf_a = 65, rf_v = SInt 7, rf_t = TagInt, rf_tx = 67, rf_rx = None\<rparr>],
     tb_blobs = [], tb_fts = [], tb_seq = 2\<rparr>"

definition ex_db :: "string \<Rightarrow> db" where
  "ex_db req =
    \<lparr>db_store = \<lparr>st_tables = ex_tables req, st_names = [], st_idNames = [], st_gids = [], st_dataVersion = 0,
                 st_version = 0, st_readOnly = False, st_closed = False\<rparr>,
     db_asOf = None\<rparr>"

lemma ex_db_tables [simp]: "db_tables (ex_db req) = ex_tables req"
  by (simp add: ex_db_def)

lemma ex_tables_ok: "length req = 32 \<Longrightarrow> tables_ok (ex_tables req)"
proof -
  assume "length req = 32"
  moreover have "facts_ok (ex_tables req)" by (simp add: facts_ok_def ex_tables_def clash_def)
  moreover have "fts_ok (ex_tables req)" by (auto simp: fts_ok_def ex_tables_def live_set_def text_tag_def)
  ultimately show ?thesis
    by (simp add: tables_ok_def ids_ok_def events_ok_def content_ok_def blobs_ok_def counter_ok_def below_def txs_in_def recorded_def
        ex_tables_def id_row_ok_def event_row_ok_def FirstUserID_def MaxInt64_def indirect_tag_def blob_keys_def)
qed

definition ex_assert :: "int \<Rightarrow> any" where
  "ex_assert n = AList [AStr ''assert'', AInt64 66, AStr ''a/b'', AInt64 n]"

lemmas run_example = run_defs run_event ex_env_def ex_db_def ex_tables_def ex_assert_def ex_uuid_bytes

text \<open>The value 7 is replaced by 8: one row is closed, one is inserted, and the transaction is 68.\<close>

lemma ex_applied:
  "\<exists>r s. transactOn ex_env (ex_db req) (ex_assert 8) noOptions = Inr (r, s) \<and> tr_status r = ''applied'' \<and> tr_tx r = 68"
  by (simp add: run_example cong: res_bind_first let_weak_cong)

lemma ex_noop:
  "\<exists>r s. transactOn ex_env (ex_db req) (ex_assert 7) noOptions = Inr (r, s) \<and> tr_status r = ''noop''"
  by (simp add: run_example cong: res_bind_first let_weak_cong)

text \<open>A request hash, with which the tables satisfy the invariant.\<close>

definition ex_req :: string where
  "ex_req = replicate 32 (CHR ''q'')"

lemma ex_ok: "tables_ok (db_tables (ex_db ex_req))" "tables_ok (ex_tables ex_req)"
  by (simp_all add: ex_tables_ok ex_req_def)

lemma ex_basis: "basisOn (ex_tables req) = 67"
  by (simp add: ex_tables_def basisOn_def)

text \<open>A precondition on an older basis fails, before anything is planned.\<close>

lemma ex_stale:
  "transactOn ex_env (ex_db req) (ex_assert 8) (noOptions\<lparr>to_ifBasisTx := Some 64\<rparr>) = fail ErrConflict"
  by (simp add: run_example cong: res_bind_first let_weak_cong)

text \<open>The plan that asserts 8, and the plan that asserts 8, retracts the entity and asserts 7 again.\<close>

definition ex_fact :: "int \<Rightarrow> nat \<Rightarrow> plannedFact" where
  "ex_fact n k = planned 66 65 ''a/b'' (stored (AInt64 n) (SInt n) TagInt) k"

definition ex_plan :: "plannedFact list \<Rightarrow> retractRequest list \<Rightarrow> transactionPlan" where
  "ex_plan as rs =
    (new_plan \<lparr>al_ids = [], al_gids = [], al_pending = [], al_first = 68, al_next = 68, al_dirty = False\<rparr>)
      \<lparr>pl_assertions := as, pl_retracts := rs, pl_order := 3\<rparr>"

lemma ex_working:
  "\<exists>pl1. workingFactsForPlan (ex_db req) (ex_plan [ex_fact 8 1] []) =
     Inr ([\<lparr>rf_id = 2, rf_e = 66, rf_a = 65, rf_v = SInt 7, rf_t = TagInt, rf_tx = 67, rf_rx = None\<rparr>], pl1)"
  by (simp add: run_example ex_fact_def ex_plan_def cong: res_bind_first let_weak_cong)

lemma ex_diff:
  "\<exists>pl1. diffPlan (ex_db req) (ex_plan [ex_fact 8 1] []) =
     Inr ([ex_fact 8 1], [\<lparr>rf_id = 2, rf_e = 66, rf_a = 65, rf_v = SInt 7, rf_t = TagInt, rf_tx = 67, rf_rx = None\<rparr>], pl1)"
  by (simp add: run_example ex_fact_def ex_plan_def cong: res_bind_first let_weak_cong)

lemma ex_named: "system_named (ex_tables req)"
  by (auto simp: system_named_def attributeName_def find_id_def ex_tables_def)

text \<open>The same assertion under an operation id, with the request hash given.\<close>

definition ex_op :: txOptions where
  "ex_op = noOptions\<lparr>to_operationID := Some ''k'', to_requestHash := Some ex_req\<rparr>"

lemma ex_op_applied:
  "\<exists>r s. transactOn ex_env (ex_db req) (ex_assert 8) ex_op = Inr (r, s) \<and> tr_status r = ''applied'' \<and> tr_tx r = 68"
  by (simp add: run_example ex_op_def ex_req_def cong: res_bind_first let_weak_cong)

text \<open>The commit of 8 leaves the declaration of the attribute alone.\<close>

lemma ex_applied_rows:
  "\<exists>r s. transactOn ex_env (ex_db req) (ex_assert 8) noOptions = Inr (r, s) \<and> tr_status r = ''applied'' \<and> tr_tx r = 68
     \<and> declaration_rows 65 (st_tables s) = declaration_rows 65 (db_tables (ex_db req))"
  by (simp add: run_example declaration_rows_def live_set_def cong: res_bind_first let_weak_cong) auto

subsection \<open>Compare and set\<close>

definition ex_cas :: "any \<Rightarrow> any list" where
  "ex_cas expected = [AStr ''cas'', AInt64 66, AStr ''a/b'', expected, AInt64 8]"

lemma ex_cas_planned: "\<exists>pl'. planCAS (ex_db req) (ex_cas (AInt64 7)) (ex_plan [] []) = Inr pl'"
  by (simp add: run_example ex_cas_def ex_plan_def cong: res_bind_first let_weak_cong)

subsection \<open>A reachable database\<close>

lemma ex_reachable: "\<exists>d. reachable d"
proof -
  obtain tb where "initializeTransaction 0 = Inr tb"
    using initializeTransaction_total [of 0] by (auto simp: validateInstantMicros_def minInstantMicros_def maxInstantMicros_def)
  then have "reachable (opened tb 1 False)" by (rule reachable.opens) simp
  then show ?thesis by blast
qed

end
