(* ===== verification/QuerySpec.thy ===== *)
theory QuerySpec
  imports PatternFacts QueryRuleFacts QueryResultFacts Examples
begin

text \<open>
  What the query engine promises: the planner, patterns against the datoms of the view, the work budget, derived
  relations, and the order and the window of the result; with the runs on the small database that the
  witnesses use.
\<close>

subsection \<open>A small run\<close>

lemmas query_defs = evalPattern_def attribute_term_def is_variable_def name_id_def added_term_ok_def
  evalBoundEntityBatch_def batch_plan_def indexed_binding_def evalIndexedPattern_def patternTermCell_def
  preparePatternTerm_def entity_position_def added_term_def value_term_def bound_at_def bound_columns_def
  column_condition_def row_condition_def patternSQLBase_def indexed_row_def spend_def work_limit_def
  DefaultQueryBudget_def scan_logical_def pattern_row_def row_cells_def upt_rec matchTerm_def datom_order_def
  distinctBindings_def distinct_by_def keep_new_def bindingKey_def structuralCellKey_def storageKey_def matched_def

definition ex_query_db :: db where
  "ex_query_db = (ex_db ex_req)\<lparr>db_store := (db_store (ex_db ex_req))
    \<lparr>st_tables := ex_tables ex_req, st_names := cache_names (ex_tables ex_req),
     st_idNames := cache_idNames (ex_tables ex_req), st_gids := cache_gids (ex_tables ex_req), st_dataVersion := 0\<rparr>\<rparr>"

text \<open>The rule \<^verbatim>\<open>r\<close> has the entities with a value of \<^verbatim>\<open>a/b\<close> and that value.\<close>

definition ex_pattern :: "any list" where
  "ex_pattern = [AStr ''?e'', AStr ''a/b'', AStr ''?v'']"

definition ex_evaluator :: evaluator where
  "ex_evaluator =
    \<lparr>qe_db = ex_query_db,
     qe_rules = [(''r'', [\<lparr>rd_name = ''r'', rd_args = [''?e'', ''?v''], rd_body = [AList ex_pattern]\<rparr>])],
     qe_relations = [], qe_source = ''current'', qe_budget = 0, qe_scan = (\<lambda>_ rows. rows)\<rparr>"

lemma ex_query_cached: "cached (db_store (qe_db ex_evaluator))"
  using ex_ok(2) refreshed [of "ex_tables ex_req" 0 "db_store (ex_db ex_req)"]
  by (simp add: ex_evaluator_def ex_query_db_def tables_ok_def)

lemma ex_scan: "scan_permutes ex_evaluator"
  by (simp add: scan_permutes_def ex_evaluator_def)

definition ex_answer :: binding where
  "ex_answer = [(''?e'', Cell (AInt64 66) TagRef), (''?v'', Cell (AInt64 7) TagInt)]"

lemma ex_keys: "canonicalJSON (AInt64 66) = Inr ''66''" "canonicalJSON (AInt64 7) = Inr ''7''"
  "canonicalJSON (AList [AInt64 7]) = Inr ''[7]''"
  by code_simp+

lemma ex_pattern_run: "w < 100000 \<Longrightarrow> evalPattern ex_evaluator ex_pattern [[]] w = Inr ([ex_answer], w + 1)"
  by (simp add: query_defs ex_pattern_def ex_answer_def ex_evaluator_def ex_query_db_def ex_keys run_example
      cong: res_bind_first let_weak_cong)

lemma planned_single: "map oq_value (orderQueryClauses [c] bound) = [c]"
  using orderQueryClauses_mset [of "[c]" bound] by (cases "orderQueryClauses [c] bound") auto

lemma ex_clauses_run:
  "w < 100000 \<Longrightarrow> evalClauses (with_relations R ex_evaluator) [AList ex_pattern] [[]] w = Inr ([ex_answer], w + 1)"
  by (simp add: evalClauses.simps planned_single eval_clause_def clause_items_def relation_free ex_pattern_run)
    (simp add: ex_pattern_def isPredicateClause_def isPredicateOperator_def predicateOperators_def)

text \<open>The rule derives one tuple; a second pass adds nothing.\<close>

definition ex_tuple :: "cell list" where
  "ex_tuple = [Cell (AInt64 66) TagRef, Cell (AInt64 7) TagInt]"

definition ex_tuple_key :: string where
  "ex_tuple_key = projr (tuple_key ex_tuple)"

lemma ex_head: "head_cells [''?e'', ''?v''] ex_answer = Inr ex_tuple" "tuple_key ex_tuple = Inr ex_tuple_key"
proof -
  show "head_cells [''?e'', ''?v''] ex_answer = Inr ex_tuple"
    by (simp add: head_cells_def ex_answer_def ex_tuple_def)
  have "\<exists>k. tuple_key ex_tuple = Inr k"
    by (simp add: tuple_key_def ex_tuple_def structuralCellKey_def storageKey_def ex_keys)
  then show "tuple_key ex_tuple = Inr ex_tuple_key" by (auto simp: ex_tuple_key_def)
qed

lemma ex_pass:
  "w < 100000 \<Longrightarrow> derive_pass ex_evaluator ''r'' rows seen w =
    Inr (if ex_tuple_key \<in> set seen then (rows, seen, False) else (rows @ [ex_tuple], ex_tuple_key # seen, True), w + 1)"
proof -
  have rules: "rules_named (qe_rules ex_evaluator) ''r'' = [\<lparr>rd_name = ''r'', rd_args = [''?e'', ''?v''], rd_body = [AList ex_pattern]\<rparr>]"
    by (simp add: rules_named_def ex_evaluator_def)
  show "w < 100000 \<Longrightarrow> ?thesis"
    unfolding derive_pass_def rules set_relation_with
    by (simp add: derive_rule_def ex_clauses_run derive_binding_def ex_head)
qed

lemma ex_derive: "deriveRelation ''r'' (ex_evaluator, 0) = Inr (set_relation ''r'' [ex_tuple] ex_evaluator, 2)"
proof -
  define n :: nat where "n = 100001"
  have "derive_fuel ex_evaluator 0 = Suc (Suc n)"
    by (simp add: n_def derive_fuel_def work_limit_def ex_evaluator_def DefaultQueryBudget_def)
  then show ?thesis by (simp add: deriveRelation_def ex_pass)
qed

lemma ex_build: "buildRelations ex_evaluator 0 = Inr (set_relation ''r'' [ex_tuple] ex_evaluator, 2)"
proof -
  have "dependencies (qe_rules ex_evaluator) ''r'' = []"
    by (simp add: dependencies_def rules_named_def ex_evaluator_def ex_pattern_def collectRuleCalls.simps)
  then have "build (qe_rules ex_evaluator) [] ''r'' ([], ex_evaluator, 0)
      = Inr ([''r''], set_relation ''r'' [ex_tuple] ex_evaluator, 2)"
    by (subst build.simps) (simp add: ex_derive)
  moreover have "sort (map fst (qe_rules ex_evaluator)) = [''r'']" by (simp add: ex_evaluator_def)
  ultimately show ?thesis by (simp add: buildRelations_def)
qed

subsection \<open>The planner\<close>

text \<open>
  C26. The planner reorders patterns only: every clause of the query is planned exactly once, a clause that is not a
  pattern (a predicate, a negation, a disjunction, a rule call) keeps its place, and the clauses planned before it are
  exactly those written before it.
\<close>

theorem planner_keeps_barriers: "keeps_barriers clauses 0 (orderQueryClauses clauses initial)"
  unfolding orderQueryClauses_def by (rule order_from_keeps)

subsection \<open>Patterns\<close>

text \<open>
  C22. A pattern returns the bindings that a scan of all the datoms of the view returns: an answer extends a binding of
  the input by a datom that matches every term, and where the constants of the pattern resolve, every such extension
  is among the answers, whichever of the indexed and the batched statement read it. (Values that are compared by
  digest, vectors and JSON, are excluded from the second half.)
\<close>

theorem pattern_answers:
  assumes "evalPattern e pattern input w = Inr (out, w')" "cached (db_store (qe_db e))" "scan_permutes e"
  shows "(\<forall>b' \<in> set out. \<exists>b \<in> set input. \<exists>r \<in> set (patternSQLBase e). row_match e pattern b r (Some b'))
    \<and> (\<forall>b \<in> set input. \<forall>r \<in> set (patternSQLBase e). \<forall>b'. row_match e pattern b r (Some b') \<longrightarrow> pattern_known e pattern b r \<longrightarrow>
         (\<exists>b'' \<in> set out. bindingKey b'' = bindingKey b'))"
  using evalPattern_sound [OF assms] evalPattern_complete [OF assms] by blast

theorem pattern_answers_witness:
  "\<exists>r \<in> set (patternSQLBase ex_evaluator). row_match ex_evaluator ex_pattern [] r (Some ex_answer)"
  using pattern_answers [OF ex_pattern_run [of 0] ex_query_cached ex_scan] by simp

subsection \<open>Work\<close>

lemma deriveRelation_charges:
  assumes "deriveRelation name (e, w) = Inr (e', w')"
  shows "charges (work_limit e) w w' \<and> work_limit e' = work_limit e \<and> qe_rules e' = qe_rules e"
proof -
  have "charges (work_limit e) w w'" if "derive_runs e name rows seen w res" "res = Inr (rows', w')" for rows seen w res rows'
    using that
    by (induction rule: derive_runs.induct) (auto dest!: derive_pass_grows(3) intro: charges_trans)
  with derive_loop_runs [of e w "derive_fuel e w" name] assms show ?thesis
    by (auto simp: deriveRelation_def res_bind_Inr_iff)
qed

text \<open>Steps that charge the work and keep the limit, one after the other.\<close>

lemma fold_build_charges:
  assumes "res_fold f xs (built, e, w) = Inr (built', e', w')"
    and "\<And>x built e w built' e' w'. x \<in> set xs \<Longrightarrow> f x (built, e, w) = Inr (built', e', w')
      \<Longrightarrow> charges (work_limit e) w w' \<and> work_limit e' = work_limit e"
  shows "charges (work_limit e) w w' \<and> work_limit e' = work_limit e"
  using assms
proof (induction xs arbitrary: built e w)
  case (Cons x xs)
  then obtain built1 e1 w1 where 1: "f x (built, e, w) = Inr (built1, e1, w1)" "res_fold f xs (built1, e1, w1) = Inr (built', e', w')"
    by (auto simp: res_bind_Inr_iff)
  have "charges (work_limit e) w w1 \<and> work_limit e1 = work_limit e" by (rule Cons.prems(2) [OF _ 1(1)]) simp
  moreover have "charges (work_limit e1) w1 w' \<and> work_limit e' = work_limit e1"
    by (rule Cons.IH [OF 1(2)]) (auto dest: Cons.prems(2) [rotated])
  ultimately show ?case by (auto intro: charges_trans)
qed simp

lemma build_charges:
  assumes "build rs path name (built, e, w) = Inr (built', e', w')"
  shows "charges (work_limit e) w w' \<and> work_limit e' = work_limit e"
  using assms
proof (induction rs path name "(built, e, w)" arbitrary: built e w built' e' w' rule: build.induct)
  case (1 rs path name built e w)
  show ?case
  proof (cases "name \<in> set built")
    case True
    then show ?thesis using 1(2) by (simp add: build.simps)
  next
    case False
    with 1(2) obtain built1 e1 w1 where deps: "name \<notin> set path"
      "res_fold (\<lambda>dep st. if map_of rs dep = None then fail ErrQuery else build rs (name # path) dep st)
         (filter (\<lambda>dep. dep \<noteq> name) (dependencies rs name)) (built, e, w) = Inr (built1, e1, w1)"
      and last: "deriveRelation name (e1, w1) = Inr (e', w')"
      by (subst (asm) build.simps) (auto simp: res_bind_Inr_iff split: if_split_asm)
    have "charges (work_limit e) w w1 \<and> work_limit e1 = work_limit e"
      by (rule fold_build_charges [OF deps(2)]) (use 1(1) deps(1) False in \<open>auto split: if_split_asm\<close>)
    with deriveRelation_charges [OF last] show ?thesis by (auto intro: charges_trans)
  qed
qed

lemma buildRelations_charges:
  assumes "buildRelations e w = Inr (e', w')"
  shows "charges (work_limit e) w w' \<and> work_limit e' = work_limit e"
proof -
  obtain built where run: "res_fold (build (qe_rules e) []) (sort (map fst (qe_rules e))) ([], e, w) = Inr (built, e', w')"
    using assms by (auto simp: buildRelations_def res_bind_Inr_iff)
  show ?thesis by (rule fold_build_charges [OF run]) (rule build_charges)
qed

text \<open>
  C25. A query never exceeds its work budget. Deriving the relations, evaluating the clauses and projecting the rows
  (pulls included) each add to one counter, which never decreases and in a query that succeeds is at most the budget.
\<close>

theorem query_work_is_bounded:
  assumes "buildRelations e 0 = Inr (e1, w1)" "evalClauses e1 clauses input w1 = Inr (bindings, w2)"
    and "project_rows e1 items bindings w2 = Inr (rows, w3)"
  shows "0 \<le> w1 \<and> w1 \<le> w2 \<and> w2 \<le> w3 \<and> w3 \<le> max 0 (work_limit e)"
  using buildRelations_charges [OF assms(1)] evalClauses_charges [OF assms(2)] project_rows_charges [OF assms(3)]
  by (auto simp: charges_def)

theorem query_work_is_bounded_witness: 
  "\<exists>rows w. project_rows (set_relation ''r'' [ex_tuple] ex_evaluator) [AStr ''?v''] [ex_answer] 3 = Inr (rows, w) \<and> w \<le> 100000"
proof -
  let ?e = "set_relation ''r'' [ex_tuple] ex_evaluator"
  have eval: "evalClauses ?e [AList ex_pattern] [[]] 2 = Inr ([ex_answer], 3)"
    unfolding set_relation_with by (simp add: ex_clauses_run)
  have project: "\<exists>rows w. project_rows ?e [AStr ''?v''] [ex_answer] 3 = Inr (rows, w)"
    by (simp add: project_rows_def has_aggregate_def findAggregate_def clause_items_def project_binding_def projectRow_def project_item_def
        ex_answer_def render_cell_def keep_new_def row_key_def run_defs ex_keys)
  have "max 0 (work_limit ex_evaluator) = 100000" by (simp add: work_limit_def ex_evaluator_def DefaultQueryBudget_def)
  with project query_work_is_bounded [OF ex_build eval] show ?thesis by auto
qed

subsection \<open>Derived relations\<close>

text \<open>
  C24. The loop that derives the relation of a rule ends, also for recursive rules: it stops after a pass that adds no
  tuple or fails, and what it returns is what the loop without a bound on its passes returns.
\<close>

theorem deriveRelation_terminates:
  "\<exists>res. derive_runs e name [] [] w res \<and> (\<forall>res'. derive_runs e name [] [] w res' \<longrightarrow> res' = res)
    \<and> deriveRelation name (e, w) = res_bind res (\<lambda>(rows, w'). Inr (set_relation name rows e, w'))"
  using derive_loop_runs [where e = e and w = w and name = name, OF order_refl] derive_runs_unique by (auto simp: deriveRelation_def)

text \<open>
  C23. The derived relation is closed and well founded. With the relation in place every definition of the rule
  evaluates, and the head of each of its bindings is already a tuple of the relation; every tuple of it is
  the head of a binding that a definition yields from tuples derived before it; and no two tuples have the same key.
\<close>

theorem derived_relation:
  assumes "deriveRelation name (e, w) = Inr (e', w')"
  shows "\<exists>rows. e' = set_relation name rows e \<and> distinct (map tuple_key rows)
    \<and> (\<forall>i < length rows. supported e name rows i)
    \<and> (\<forall>r \<in> set (rules_named (qe_rules e) name). \<exists>u u' bs. evalClauses e' (rd_body r) [[]] u = Inr (bs, u')
         \<and> (\<forall>b \<in> set bs. \<exists>t t'. head_cells (rd_args r) b = Inr t \<and> t' \<in> set rows \<and> tuple_key t = tuple_key t'))"
proof -
  obtain rows where rows: "derive_runs e name [] [] w (Inr (rows, w'))" "e' = set_relation name rows e"
    using assms derive_loop_runs [where e = e and w = w and name = name, OF order_refl] by (auto simp: deriveRelation_def res_bind_Inr_iff)
  obtain seen u where last: "keyed_rows rows seen" "derive_pass e name rows seen u = Inr ((rows, seen, False), w')"
    using derive_runs_last [OF rows(1) _ refl] by auto
  have "distinct (map tuple_key rows)"
    using last(1) by (simp add: keyed_rows_def distinct_map inj_on_def)
  moreover have "\<forall>i < length rows. supported e name rows i" by (rule derive_runs_supported [OF rows(1) _ refl]) simp
  moreover have "\<exists>u u' bs. evalClauses e' (rd_body r) [[]] u = Inr (bs, u')
      \<and> (\<forall>b \<in> set bs. \<exists>t t'. head_cells (rd_args r) b = Inr t \<and> t' \<in> set rows \<and> tuple_key t = tuple_key t')"
    if "r \<in> set (rules_named (qe_rules e) name)" for r
    using derive_pass_grows(2) [OF last(2) that] keyed_rows_member [OF last(1)]
    unfolding covers_def derived_key_def rows(2) by (metis (no_types, lifting))
  ultimately show ?thesis using rows(2) by blast
qed

theorem deriveRelation_terminates_witness: "\<exists>res. derive_runs ex_evaluator ''r'' [] [] 0 res"
  using deriveRelation_terminates [of ex_evaluator "''r''" 0] by blast

theorem derived_relation_witness:
  "\<exists>rows. set_relation ''r'' [ex_tuple] ex_evaluator = set_relation ''r'' rows ex_evaluator \<and> distinct (map tuple_key rows)"
  using derived_relation [OF ex_derive] by blast

subsection \<open>Aggregates and rows\<close>

text \<open>
  C39. \<^verbatim>\<open>min\<close> and \<^verbatim>\<open>max\<close> over a group are exact: the answer is one of the values, and it is the least, respectively
  the greatest, of them as rational numbers, also where integers that no float represents meet floats.
\<close>

theorem extremes_are_exact:
  assumes "aggregate name values = Inr c" "name = ''min'' \<or> name = ''max''" "values \<noteq> []"
  shows "c \<in> set values \<and> (\<forall>v \<in> set values. numericRat (cl_value v) = Some (exact_value v)
    \<and> (if name = ''min'' then exact_value c \<le> exact_value v else exact_value v \<le> exact_value c))"
proof (cases "name = ''min''")
  case True
  then have "extreme (\<lambda>c. c < 0) values = Inr c" using assms(1) by (simp add: aggregate_def)
  from extreme_Inr [OF this assms(3), of "(\<le>)"] True show ?thesis by (auto simp: three_way_def finite_exact split: if_split_asm)
next
  case False
  then have "extreme (\<lambda>c. c > 0) values = Inr c" using assms(1,2) by (simp add: aggregate_def)
  from extreme_Inr [OF this assms(3), of "(\<ge>)"] False show ?thesis by (auto simp: three_way_def finite_exact split: if_split_asm)
qed

text \<open>The floats 1 and 2.\<close>

lemma ex_floats:
  "\<not> IsNaN 4607182418800017408" "\<not> IsInf 4607182418800017408" "f64_rat 4607182418800017408 = 1"
  "\<not> IsNaN 4611686018427387904" "\<not> IsInf 4611686018427387904" "f64_rat 4611686018427387904 = 2"
  by (simp_all add: IsNaN_def IsInf_def f64_exp_def f64_man_def f64_rat_def f64_neg_def f64_abs_rat_def f64_mant_def
      f64_expo_def pow2_def)

theorem extremes_are_exact_witness:
  "exact_value (Cell (AF64 4607182418800017408) TagFloat) \<le> exact_value (Cell (AF64 4611686018427387904) TagFloat)"
proof -
  have "aggregate ''min'' [Cell (AF64 4611686018427387904) TagFloat, Cell (AF64 4607182418800017408) TagFloat]
      = Inr (Cell (AF64 4607182418800017408) TagFloat)"
    by (simp add: aggregate_def extreme_def extreme_step_def isFiniteNumericCell_def numericCell_def numeric_def orderedCompare_def
        orderedNumericCompare_def numericRat_def rat_of_float_def three_way_def ex_floats)
  from extremes_are_exact [OF this] show ?thesis by simp
qed

text \<open>
  C27. The rows of an ordered query come out sorted by the order items, each in its direction, whatever kinds of
  values they hold: booleans before numbers before strings before everything else, numbers by their exact
  value, the rest by their canonical JSON. No row is lost or repeated, and rows that tie keep the order in
  which the query produced them.
\<close>

theorem rows_are_sorted:
  assumes "outwardClauseBindings (q_where query) (q_in query) = Inr bound"
    and "parseOrderBound (q_order query) columns bound (has_aggregate (q_find query)) = Inr items"
    and "list_all (row_orderable e items) rows"
  shows "\<exists>ys. order_rows e query columns rows = Inr ys \<and> mset ys = mset rows \<and> sorted_wrt (row_le e items) ys
    \<and> (\<forall>r. row_orderable e items r \<longrightarrow>
          filter (\<lambda>z. row_le e items r z \<and> row_le e items z r) ys = filter (\<lambda>z. row_le e items r z \<and> row_le e items z r) rows)"
proof (cases "q_order query = []")
  case True
  with assms(2) have "items = []" by (simp add: parseOrderBound_def)
  with True show ?thesis by (auto simp: order_rows_def sorted_wrt_iff_nth_less)
next
  case False
  with assms(1,2) have "order_rows e query columns rows = SliceStable (row_less e items) rows" by (simp add: order_rows_def)
  with rows.SliceStable_sorts [OF assms(3)] rows.SliceStable_stable [OF _ assms(3)] show ?thesis by auto
qed

definition ex_q :: Q where
  "ex_q = \<lparr>q_find = [AStr ''?v''], q_where = [], q_in = [''?v''], q_order = [AList [AStr ''?v'', AStr ''desc'']], q_rules = [],
     q_limit = Some 9223372036854775807, q_offset = 1, q_source = ''current''\<rparr>"

definition ex_row :: "int \<Rightarrow> result_row" where
  "ex_row n = \<lparr>rw_row = [AInt64 n], rw_cells = [Cell (AInt64 n) TagInt], rw_binding = []\<rparr>"

theorem rows_are_sorted_witness:
  "\<exists>ys. order_rows ex_evaluator ex_q [''?v''] [ex_row 3, ex_row 5] = Inr ys \<and> mset ys = {#ex_row 3, ex_row 5#}"
proof -
  have bound: "outwardClauseBindings (q_where ex_q) (q_in ex_q) = Inr [''?v'']"
    by (simp add: ex_q_def outwardClauseBindings_def validateClauseSequence.simps)
  have items: "parseOrderBound (q_order ex_q) [''?v''] [''?v''] (has_aggregate (q_find ex_q))
      = Inr [\<lparr>oi_variable = ''?v'', oi_index = Some 0, oi_desc = True\<rparr>]"
    by (simp add: ex_q_def parseOrderBound_def parse_order_item_def)
  have rows: "list_all (row_orderable ex_evaluator [\<lparr>oi_variable = ''?v'', oi_index = Some 0, oi_desc = True\<rparr>]) [ex_row 3, ex_row 5]"
    by (simp add: row_orderable_def orderable_def ex_row_def order_cell_def render_cell_def renderLogical_def renderLogicalAllocated_def Let_def
        renderedOrderCategory_def numericRat_def)
  from rows_are_sorted [OF bound items rows] show ?thesis by auto
qed

text \<open>
  \<^verbatim>\<open>offset\<close> and \<^verbatim>\<open>limit\<close> select a window of the rows, also where they reach beyond the last row, as long as their
  sum is a signed 64-bit integer.
\<close>

theorem slices_are_windows:
  assumes "0 \<le> q_offset query" "q_limit query = Some l" "0 \<le> l" "q_offset query + l \<le> MaxInt64"
  shows "slice_rows query rows = Inr (take (nat l) (drop (nat (q_offset query)) rows))"
  using assms by (rule slice_rows_window)

theorem slices_are_windows_witness: "slice_rows (ex_q\<lparr>q_limit := Some 1\<rparr>) [1 :: nat, 2, 3] = Inr [2]"
  using slices_are_windows [of "ex_q\<lparr>q_limit := Some 1\<rparr>" 1 "[1 :: nat, 2, 3]"] by (simp add: ex_q_def MaxInt64_def)

text \<open>
  C40. A limit near the largest integer together with an offset does not fail as a query error: the end of the
  window wraps around to a negative number, and slicing the rows panics.
\<close>

theorem limit_overflow_panics:
  assumes "q_limit query = Some l" "0 < l" "l \<le> MaxInt64" "0 < q_offset query" "q_offset query \<le> int (length rows)"
    and "MaxInt64 < q_offset query + l" "int (length rows) \<le> MaxInt64"
  shows "slice_rows query rows = Inl Panic"
proof -
  have wrap: "i64_add (q_offset query) l = q_offset query + l - 18446744073709551616"
    using assms(3-7) by (intro i64_add_wraps) simp_all
  have "min (q_offset query) (int (length rows)) = q_offset query" using assms(5) by simp
  with assms wrap show ?thesis by (simp add: slice_rows_def slice_end_def MaxInt64_def)
qed


theorem limit_overflow_panics_witness: "slice_rows ex_q [1 :: nat, 2] = Inl Panic"
  using limit_overflow_panics [of ex_q 9223372036854775807 "[1 :: nat, 2]"] by (simp add: ex_q_def MaxInt64_def)

end
