(* ===== verification/DatomFacts.thy ===== *)
theory DatomFacts
  imports Datoms QuerySpec
begin

text \<open>
  Facts about datom iteration: the order of an index is strict on the datoms of a view, a seek continues after
  the datom it was made from, and following the cursors of successive pages reads the whole listing once.
\<close>

subsection \<open>Strict orders and seeks\<close>

lemma index_key_inj:
  "index_key index e a v t tx added i = index_key index e' a' v' t' tx' added' i' \<Longrightarrow> added = added' \<and> i = i'"
  by (auto simp: index_key_def Let_def split: if_splits)

lemma datom_key_eq: "datom_key index r = datom_key index r' \<Longrightarrow> dr_added r = dr_added r' \<and> rf_id (dr_fact r) = rf_id (dr_fact r')"
  by (auto simp: datom_key_def Let_def dest!: index_key_inj split: if_splits)

lemma decode_encode_seek: "\<not> sql_null v \<Longrightarrow> decode_seek (encodeDatomSeekValue v) = Inr v"
  by (cases v) (simp_all add: decode_seek_def encodeDatomSeekValue_def noSeekValue_def DecodeHex_EncodeHex)

lemma seek_continues:
  "\<not> sql_null (rf_v (dr_fact r)) \<Longrightarrow>
    seek_condition index (Some (seekFromDatom r)) = Inr (\<lambda>r'. datom_key index r < datom_key index r')"
  by (simp add: seek_condition_def seekFromDatom_def Let_def decode_encode_seek seek_arguments_def datom_key_def)

text \<open>In a strictly sorted list the elements after one are those with a larger key.\<close>

lemma filter_after:
  fixes key :: "'a \<Rightarrow> 'k :: linorder"
  assumes "sorted_wrt (\<lambda>x y. key x < key y) xs" "k < length xs"
  shows "filter (\<lambda>x. key (xs ! k) < key x) xs = drop (Suc k) xs"
  using assms
proof (induction xs arbitrary: k)
  case (Cons x xs)
  show ?case
  proof (cases k)
    case 0
    with Cons.prems show ?thesis by (auto simp: filter_id_conv)
  next
    case (Suc j)
    then have "\<not> key (xs ! j) < key x" using Cons.prems by (auto simp: not_less intro: less_imp_le)
    then show ?thesis using Cons Suc by simp
  qed
qed simp

lemma sort_key_strict:
  fixes key :: "'a \<Rightarrow> 'k :: linorder"
  assumes "distinct (map key xs)"
  shows "sorted_wrt (\<lambda>x y. key x < key y) (sort_key key xs)"
proof -
  have "sorted (map key (sort_key key xs))" "distinct (map key (sort_key key xs))"
    using assms by (simp_all add: distinct_map)
  then have "sorted_wrt (<) (map key (sort_key key xs))" by (simp add: strict_sorted_iff)
  then show ?thesis by (simp add: sorted_wrt_map)
qed

subsection \<open>The listing\<close>

text \<open>Every datom of the statement, in the order of the index: what the pages together should show.\<close>

definition listing :: "tables \<Rightarrow> DatomOptions \<Rightarrow> int \<Rightarrow> (drow \<Rightarrow> bool) \<Rightarrow> drow list" where
  "listing tb p basis constraints =
    sort_key (datom_key (dp_index p))
      (filter (\<lambda>r. find_id (rf_a (dr_fact r)) tb \<noteq> None \<and> constraints r)
        (datom_base tb (dp_index p) (dp_source p) basis (basisOn tb)))"

lemma distinct_assertion_rows: "distinct (map rf_id fs) \<Longrightarrow> distinct (map assertion_row (filter P fs))"
  by (induction fs) (auto simp: assertion_row_def)

lemma retraction_rows:
  "distinct (map rf_id fs) \<Longrightarrow>
   distinct (concat (map (\<lambda>f. case rf_rx f of None \<Rightarrow> []
      | Some rx \<Rightarrow> if rx \<le> basis then [\<lparr>dr_fact = f, dr_tx = rx, dr_added = False\<rparr>] else []) fs))"
  by (induction fs) (auto split: option.splits if_splits)

lemma datom_base_rows:
  assumes "facts_ok tb"
  shows "distinct (map (datom_key index) (datom_base tb index' source basis current))"
    "r \<in> set (datom_base tb index' source basis current) \<Longrightarrow> \<not> sql_null (rf_v (dr_fact r))"
proof -
  have ids: "distinct (map rf_id (tb_facts tb))" by (rule facts_ok_distinct [OF assms])
  have rows: "dr_fact r \<in> set (tb_facts tb) \<and> (if dr_added r then dr_tx r = rf_tx (dr_fact r) else rf_rx (dr_fact r) = Some (dr_tx r))"
    if "r \<in> set (datom_base tb index' source basis current)" for r
    using that by (auto simp: datom_base_def assertion_row_def history_rows_def split: if_splits option.splits)
  then show "r \<in> set (datom_base tb index' source basis current) \<Longrightarrow> \<not> sql_null (rf_v (dr_fact r))"
    using assms by (auto simp: facts_ok_def)
  have "distinct (datom_base tb index' source basis current)"
    using ids distinct_assertion_rows [OF ids] retraction_rows [OF ids, of basis]
    by (auto simp: datom_base_def history_rows_def assertion_row_def [abs_def] split: option.splits if_splits)
  moreover have "inj_on (datom_key index) (set (datom_base tb index' source basis current))"
  proof (rule inj_onI)
    fix r r'
    assume in_base: "r \<in> set (datom_base tb index' source basis current)" "r' \<in> set (datom_base tb index' source basis current)"
      and "datom_key index r = datom_key index r'"
    then have same: "dr_added r = dr_added r'" "rf_id (dr_fact r) = rf_id (dr_fact r')" using datom_key_eq by blast+
    have "dr_fact r = dr_fact r'" using facts_ok_id_inj [OF assms] rows [OF in_base(1)] rows [OF in_base(2)] same(2) by blast
    with rows [OF in_base(1)] rows [OF in_base(2)] same(1) show "r = r'" by (cases r; cases r') (auto split: if_splits)
  qed
  ultimately show "distinct (map (datom_key index) (datom_base tb index' source basis current))" by (simp add: distinct_map)
qed

lemma listing_strict:
  assumes "facts_ok tb"
  shows "sorted_wrt (\<lambda>r r'. datom_key (dp_index p) r < datom_key (dp_index p) r') (listing tb p basis constraints)"
  unfolding listing_def
  by (rule sort_key_strict) (use datom_base_rows(1) [OF assms] in \<open>simp add: distinct_map_filter\<close>)

lemma listing_not_null: "facts_ok tb \<Longrightarrow> r \<in> set (listing tb p basis constraints) \<Longrightarrow> \<not> sql_null (rf_v (dr_fact r))"
  using datom_base_rows(2) by (auto simp: listing_def)

text \<open>A page that starts after the datom at a position.\<close>

definition seek_at :: "drow list \<Rightarrow> nat \<Rightarrow> datomSeek option" where
  "seek_at rows k = (case k of 0 \<Rightarrow> None | Suc j \<Rightarrow> Some (seekFromDatom (rows ! j)))"

lemma readDatomPage_at:
  assumes "facts_ok tb" "k \<le> length (listing tb p basis constraints)"
  shows "readDatomPage tb p basis (basisOn tb) constraints (seek_at (listing tb p basis constraints) k)
    = res_map (scan_datom tb) (take (nat (dp_limit p + 1)) (drop k (listing tb p basis constraints)))"
proof (cases k)
  case 0
  then show ?thesis by (simp add: readDatomPage_def seek_at_def seek_condition_def listing_def)
next
  case (Suc j)
  let ?l = "listing tb p basis constraints" and ?key = "datom_key (dp_index p)"
  have j: "j < length ?l" using assms(2) Suc by simp
  then have cond: "seek_condition (dp_index p) (seek_at ?l k) = Inr (\<lambda>r. ?key (?l ! j) < ?key r)"
    using seek_continues [OF listing_not_null [OF assms(1) nth_mem [OF j]]] by (simp add: Suc seek_at_def)
  have "sort_key ?key (filter (\<lambda>r. find_id (rf_a (dr_fact r)) tb \<noteq> None \<and> constraints r \<and> ?key (?l ! j) < ?key r)
      (datom_base tb (dp_index p) (dp_source p) basis (basisOn tb))) = filter (\<lambda>r. ?key (?l ! j) < ?key r) ?l"
    by (simp add: listing_def filter_sort conj_ac)
  also have "\<dots> = drop k ?l" using filter_after [OF listing_strict [OF assms(1)] j] Suc by simp
  finally show ?thesis by (simp add: readDatomPage_def cond)
qed

subsection \<open>Following the cursors\<close>

text \<open>The client: read pages until there is no next cursor; \<open>External\<close> when \<open>n\<close> pages were not enough.\<close>

primrec read_pages :: "nat \<Rightarrow> cursor_wire \<Rightarrow> db \<Rightarrow> DatomOptions \<Rightarrow> Datom list res" where
  "read_pages 0 cw d p = Inl External"
| "read_pages (Suc n) cw d p =
    (case Datoms cw d p of
       (Inl e, _) \<Rightarrow> Inl e
     | (Inr page, d') \<Rightarrow>
        if pg_next page = [] then Inr (pg_items page)
        else res_bind (read_pages n cw d' (p\<lparr>dp_cursor := pg_next page\<rparr>)) (\<lambda>rest. Inr (pg_items page @ rest)))"

text \<open>A cursor arrives as it was sent: its text is not empty, fits, and is decoded to it.\<close>

definition travels :: "cursor_wire \<Rightarrow> datomCursor \<Rightarrow> bool" where
  "travels cw c \<longleftrightarrow> cw_marshal cw c \<noteq> [] \<and> length (cw_marshal cw c) \<le> maxDatomCursorBytes
     \<and> cw_unmarshal cw (cw_marshal cw c) = Some c"

definition cursor_of :: "DatomOptions \<Rightarrow> string \<Rightarrow> int \<Rightarrow> drow \<Rightarrow> datomCursor" where
  "cursor_of p digest basis r =
    \<lparr>dc_seek = Some (seekFromDatom r), dc_digest = digest, dc_index = dp_index p, dc_source = dp_source p,
     dc_basis = basis, dc_format = FormatVersion\<rparr>"

lemma next_cursor_of: "next_cursor cw p digest basis r = cw_marshal cw (cursor_of p digest basis r)"
  by (simp add: next_cursor_def encodeDatomCursor_def cursor_of_def)

definition at_position :: "cursor_wire \<Rightarrow> DatomOptions \<Rightarrow> string \<Rightarrow> int \<Rightarrow> drow list \<Rightarrow> nat \<Rightarrow> DatomOptions" where
  "at_position cw p digest basis rows k =
    p\<lparr>dp_cursor := (case k of 0 \<Rightarrow> [] | Suc j \<Rightarrow> next_cursor cw p digest basis (rows ! j))\<rparr>"

lemma view_basis_le: "view_basis d \<le> basisOn (db_tables d)" "db_asOf d = Some t \<Longrightarrow> view_basis d \<le> t"
  by (auto simp: view_basis_def Let_def split: option.splits)

lemma cursor_position_at:
  assumes "\<And>r. r \<in> set rows \<Longrightarrow> travels cw (cursor_of p digest (view_basis d) r)" "GenesisTx \<le> view_basis d" "k \<le> length rows"
  shows "cursor_position cw d (at_position cw p digest (view_basis d) rows k) digest = Inr (view_basis d, seek_at rows k)"
proof (cases k)
  case 0
  then show ?thesis by (simp add: cursor_position_def at_position_def seek_at_def)
next
  case (Suc j)
  let ?c = "cursor_of p digest (view_basis d) (rows ! j)"
  have t: "travels cw ?c" using assms(1,3) Suc by simp
  have f: "dc_digest ?c = digest" "dc_index ?c = dp_index p" "dc_source ?c = dp_source p" "dc_basis ?c = view_basis d"
    "dc_seek ?c = Some (seekFromDatom (rows ! j))" "dc_format ?c = FormatVersion"
    by (simp_all add: cursor_of_def)
  have "decodeDatomCursor cw (cw_marshal cw ?c) = Inr ?c"
    using t assms(2) by (simp add: travels_def decodeDatomCursor_def f not_less)
  then show ?thesis
    using t view_basis_le [of d]
    by (auto simp: Suc cursor_position_def at_position_def seek_at_def next_cursor_of f travels_def not_less split: option.splits)
qed

lemma res_map_take: "res_map f xs = Inr ys \<Longrightarrow> res_map f (take n xs) = Inr (take n ys)"
  by (induction xs arbitrary: n ys) (auto simp: res_bind_Inr_iff take_Cons' split: nat.splits)

lemma res_map_drop: "res_map f xs = Inr ys \<Longrightarrow> res_map f (drop n xs) = Inr (drop n ys)"
  by (induction xs arbitrary: n ys) (auto simp: res_bind_Inr_iff drop_Cons' split: nat.splits)

lemma res_map_length: "res_map f xs = Inr ys \<Longrightarrow> length ys = length xs"
  by (induction xs arbitrary: ys) (auto simp: res_bind_Inr_iff)

lemma scan_rows: "res_map (scan_datom tb) rows = Inr named \<Longrightarrow> map fst named = rows"
  by (induction rows arbitrary: named) (auto simp: scan_datom_def res_bind_Inr_iff)

lemma at_position_fields [simp]:
  "dp_index (at_position cw p digest basis rows k) = dp_index p" "dp_source (at_position cw p digest basis rows k) = dp_source p"
  "dp_limit (at_position cw p digest basis rows k) = dp_limit p" "dp_components (at_position cw p digest basis rows k) = dp_components p"
  by (simp_all add: at_position_def)

lemma at_position_checks [simp]:
  "check_datoms (at_position cw p digest basis rows k) = check_datoms p"
  "datomArgumentsDigest (at_position cw p digest basis rows k) = datomArgumentsDigest p"
  by (simp_all add: check_datoms_def datomArgumentsDigest_def)

text \<open>What the pages of a listing need: the options are valid, every row can be read, every cursor arrives.\<close>

definition pageable :: "cursor_wire \<Rightarrow> db \<Rightarrow> DatomOptions \<Rightarrow> string \<Rightarrow> (drow \<Rightarrow> bool) \<Rightarrow> Datom list \<Rightarrow> bool" where
  "pageable cw d p digest constraints items \<longleftrightarrow>
    (let tb = db_tables d; basis = view_basis d; rows = listing tb p basis constraints in
     check_datoms p = Inr () \<and> datomArgumentsDigest p = Inr digest
     \<and> datomConstraints d (dp_index p) (dp_components p) = Inr (Some constraints)
     \<and> res_bind (res_map (scan_datom tb) rows) (res_map (render_datom d)) = Inr items
     \<and> GenesisTx \<le> basis \<and> list_all (\<lambda>r. travels cw (cursor_of p digest basis r)) rows)"

lemma datom_page_at:
  assumes ok: "facts_ok (db_tables d)" and able: "pageable cw d p digest constraints items"
    and rows: "rows = listing (db_tables d) p (view_basis d) constraints" and k: "k \<le> length rows"
  shows "datom_page cw (at_position cw p digest (view_basis d) rows k) digest d =
    Inr \<lparr>pg_next = (if k + nat (dp_limit p) < length rows
                     then next_cursor cw p digest (view_basis d) (rows ! (k + nat (dp_limit p) - 1)) else []),
         pg_items = take (nat (dp_limit p)) (drop k items), pg_basis = view_basis d\<rparr>"
proof -
  let ?q = "at_position cw p digest (view_basis d) rows k" and ?n = "nat (dp_limit p)" and ?tb = "db_tables d"
  from able rows obtain named where named: "res_map (scan_datom ?tb) rows = Inr named" "res_map (render_datom d) named = Inr items"
    and able': "datomConstraints d (dp_index p) (dp_components p) = Inr (Some constraints)" "GenesisTx \<le> view_basis d"
      "\<And>r. r \<in> set rows \<Longrightarrow> travels cw (cursor_of p digest (view_basis d) r)"
    and "check_datoms p = Inr ()"
    by (auto simp: pageable_def Let_def res_bind_Inr_iff list_all_iff)
  then have limit: "0 < dp_limit p" by (auto simp: check_datoms_def split: if_split_asm)
  then have n: "nat (dp_limit p + 1) = Suc ?n" by simp
  have same: "listing ?tb ?q (view_basis d) constraints = rows" by (simp add: listing_def rows)
  have len: "length named = length rows" using res_map_length [OF named(1)] .
  have raw: "readDatomPage ?tb ?q (view_basis d) (basisOn ?tb) constraints (seek_at rows k) = Inr (take (Suc ?n) (drop k named))"
    using readDatomPage_at [OF ok, of k ?q "view_basis d" constraints] k res_map_take [OF res_map_drop [OF named(1)]]
    unfolding same by (simp add: n)
  have shown: "take ?n (take (Suc ?n) (drop k named)) = take ?n (drop k named)" by (simp add: min_def)
  have last: "fst (last (take ?n (drop k named))) = rows ! (k + ?n - 1)" if "k + ?n < length rows"
  proof -
    have "take ?n (drop k named) \<noteq> []" using that limit len by auto
    then have "last (take ?n (drop k named)) = named ! (k + ?n - 1)"
      using that limit len by (simp add: last_conv_nth)
    moreover have "fst (named ! (k + ?n - 1)) = rows ! (k + ?n - 1)"
      using nth_map [of "k + ?n - 1" named fst] that len unfolding scan_rows [OF named(1)] by simp
    ultimately show ?thesis by simp
  qed
  have more: "int (length (take (Suc ?n) (drop k named))) > dp_limit p \<longleftrightarrow> k + ?n < length rows"
    using limit len by (simp add: min_def) linarith
  show ?thesis
    using last able'(1) cursor_position_at [OF able'(3,2) k] res_map_take [OF res_map_drop [OF named(2)]]
    by (simp add: datom_page_def raw more [simplified] shown next_cursor_def Let_def)
qed

lemma datom_defaults_cursor: "datom_defaults (p\<lparr>dp_cursor := x\<rparr>) = (datom_defaults p)\<lparr>dp_cursor := x\<rparr>"
  by (cases p) (simp add: datom_defaults_def)

lemma read_pages_at:
  assumes ok: "facts_ok (db_tables d)" and able: "pageable cw d p digest constraints items"
    and rows: "rows = listing (db_tables d) p (view_basis d) constraints"
    and fresh: "checkUsable False d = Inr ()" "refreshNames (db_store d) = Inr (db_store d)" and p: "datom_defaults p = p"
    and "k \<le> length rows" "length rows - k < n"
  shows "read_pages n cw d (at_position cw p digest (view_basis d) rows k) = Inr (drop k items)"
  using assms(7,8)
proof (induction n arbitrary: k)
  case (Suc n)
  let ?q = "at_position cw p digest (view_basis d) rows k" and ?l = "nat (dp_limit p)"
  have checks: "check_datoms p = Inr ()" "datomArgumentsDigest p = Inr digest"
    and trav: "\<And>r. r \<in> set rows \<Longrightarrow> travels cw (cursor_of p digest (view_basis d) r)"
    using able rows by (auto simp: pageable_def Let_def list_all_iff)
  then have limit: "0 < ?l" by (auto simp: check_datoms_def split: if_split_asm)
  have q: "datom_defaults ?q = ?q" by (simp add: at_position_def datom_defaults_cursor p)
  have "Datoms cw d ?q = withRead d (datom_page cw ?q digest)"
    by (simp add: Datoms_def Let_def q checks)
  then have page: "Datoms cw d ?q = (datom_page cw ?q digest d, d)" by (simp add: withRead_def fresh)
  have len: "length items = length rows" using able rows by (auto simp: pageable_def Let_def res_bind_Inr_iff dest!: res_map_length)
  show ?case
  proof (cases "k + ?l < length rows")
    case True
    have "next_cursor cw p digest (view_basis d) (rows ! (k + ?l - 1)) \<noteq> []"
      using trav [of "rows ! (k + ?l - 1)"] True by (simp add: next_cursor_of travels_def)
    moreover have "?q\<lparr>dp_cursor := next_cursor cw p digest (view_basis d) (rows ! (k + ?l - 1))\<rparr>
        = at_position cw p digest (view_basis d) rows (k + ?l)"
      using limit by (cases "k + ?l") (simp_all add: at_position_def)
    ultimately show ?thesis
      using Suc.IH [of "k + ?l"] Suc.prems True limit
      by (simp add: page datom_page_at [OF ok able rows Suc.prems(1)])
        (metis append_take_drop_id drop_drop add.commute)
  next
    case False
    then show ?thesis using len by (simp add: page datom_page_at [OF ok able rows Suc.prems(1)])
  qed
qed simp

lemma refreshNames_again: "refreshNames s = Inr s' \<Longrightarrow> refreshNames s' = Inr s'"
  by (auto simp: refreshNames_def split: if_split_asm)

lemma checkUsable_refreshed:
  "checkUsable False d = Inr () \<Longrightarrow> refreshNames (db_store d) = Inr s \<Longrightarrow> checkUsable False (d\<lparr>db_store := s\<rparr>) = Inr ()"
  by (auto simp: checkUsable_def refreshNames_def split: if_split_asm)

lemma datom_defaults_again [simp]: "datom_defaults (datom_defaults p) = datom_defaults p"
  by (simp add: datom_defaults_def)

lemma Datoms_refreshed:
  assumes "checkUsable False d = Inr ()" "refreshNames (db_store d) = Inr s"
  shows "(\<exists>e x. Datoms cw d p = (Inl e, x) \<and> Datoms cw (d\<lparr>db_store := s\<rparr>) (datom_defaults p) = (Inl e, d\<lparr>db_store := s\<rparr>))
    \<or> (\<exists>page. Datoms cw d p = (Inr page, d\<lparr>db_store := s\<rparr>)
          \<and> Datoms cw (d\<lparr>db_store := s\<rparr>) (datom_defaults p) = (Inr page, d\<lparr>db_store := s\<rparr>))"
proof -
  have read: "withRead d f = (f (d\<lparr>db_store := s\<rparr>), d\<lparr>db_store := s\<rparr>)"
    "withRead (d\<lparr>db_store := s\<rparr>) f = (f (d\<lparr>db_store := s\<rparr>), d\<lparr>db_store := s\<rparr>)" for f :: "db \<Rightarrow> DatomPage res"
    using assms checkUsable_refreshed [OF assms] refreshNames_again [OF assms(2)] by (simp_all add: withRead_def)
  show ?thesis
  proof (cases "check_datoms (datom_defaults p)")
    case (Inr u)
    show ?thesis
    proof (cases "datomArgumentsDigest (datom_defaults p)")
      case (Inr digest)
      with \<open>check_datoms (datom_defaults p) = Inr u\<close> show ?thesis
        by (cases "datom_page cw (datom_defaults p) digest (d\<lparr>db_store := s\<rparr>)") (simp_all add: Datoms_def Let_def read)
    qed (simp add: Datoms_def Let_def Inr)
  qed (simp add: Datoms_def Let_def)
qed

lemma read_pages_refreshed:
  assumes "checkUsable False d = Inr ()" "refreshNames (db_store d) = Inr s"
  shows "read_pages n cw d p = read_pages n cw (d\<lparr>db_store := s\<rparr>) (datom_defaults p)"
proof -
  let ?d = "d\<lparr>db_store := s\<rparr>"
  have again: "checkUsable False ?d = Inr ()" "refreshNames (db_store ?d) = Inr s"
    using checkUsable_refreshed [OF assms] refreshNames_again [OF assms(2)] by simp_all
  have rest: "read_pages n cw ?d q = read_pages n cw ?d (datom_defaults q)" for n q
  proof (induction n arbitrary: q)
    case (Suc n)
    have "read_pages n cw ?d (q\<lparr>dp_cursor := x\<rparr>) = read_pages n cw ?d ((datom_defaults q)\<lparr>dp_cursor := x\<rparr>)" for x
      by (rule Suc.IH [of "q\<lparr>dp_cursor := x\<rparr>", unfolded datom_defaults_cursor])
    with Datoms_refreshed [OF again, of cw q] show ?case by auto
  qed simp
  show ?thesis
  proof (cases n)
    case (Suc m)
    have "read_pages m cw ?d (p\<lparr>dp_cursor := x\<rparr>) = read_pages m cw ?d ((datom_defaults p)\<lparr>dp_cursor := x\<rparr>)" for x
      by (rule rest [of m "p\<lparr>dp_cursor := x\<rparr>", unfolded datom_defaults_cursor])
    with Datoms_refreshed [OF assms, of cw p] show ?thesis by (auto simp: Suc)
  qed simp
qed

text \<open>
  C12. Paging is exact. Starting without a cursor and following the cursor of every page reads each datom of the view
  once, in the order of the index, whatever the page size; enough pages are one more than there are datoms.
  (The rows must be readable and the cursors must survive their encoding.)
\<close>

theorem pages_list_every_datom:
  assumes "facts_ok (db_tables d)" "checkUsable False d = Inr ()" "refreshNames (db_store d) = Inr s" "dp_cursor p = []"
    and "pageable cw (d\<lparr>db_store := s\<rparr>) (datom_defaults p) digest constraints items"
    and "length (listing (db_tables d) (datom_defaults p) (view_basis d) constraints) < n"
  shows "read_pages n cw d p = Inr items"
proof -
  let ?d = "d\<lparr>db_store := s\<rparr>" and ?p = "datom_defaults p"
  have same: "db_tables ?d = db_tables d" "view_basis ?d = view_basis d" "checkUsable False ?d = Inr ()"
    using assms(2,3) by (auto simp: refreshNames_def view_basis_def checkUsable_def split: if_split_asm)
  have p: "at_position cw ?p digest (view_basis ?d) rows 0 = ?p" "datom_defaults ?p = ?p" for rows
    using assms(4) by (simp_all add: at_position_def datom_defaults_def)
  have "read_pages n cw ?d (at_position cw ?p digest (view_basis ?d) (listing (db_tables ?d) ?p (view_basis ?d) constraints) 0)
      = Inr (drop 0 items)"
    by (rule read_pages_at [OF _ assms(5) refl same(3) _ p(2)])
      (use assms(1,6) same refreshNames_again [OF assms(3)] in simp_all)
  then show ?thesis using read_pages_refreshed [OF assms(2,3)] by (simp add: p)
qed

text \<open>The two live facts of the small database, one per page.\<close>

definition ex_pages :: DatomOptions where
  "ex_pages = \<lparr>dp_index = [], dp_source = [], dp_cursor = [], dp_components = [], dp_limit = 1\<rparr>"

definition ex_datoms :: "drow list" where
  "ex_datoms = map assertion_row [tb_facts (ex_tables ex_req) ! 1, tb_facts (ex_tables ex_req) ! 0]"

definition ex_digest :: string where
  "ex_digest = EncodeHex (sha256 ''{\"components\":[],\"index\":\"eavt\",\"source\":\"current\"}'')"

definition ex_cursor :: "nat \<Rightarrow> datomCursor" where
  "ex_cursor i = cursor_of (datom_defaults ex_pages) ex_digest 67 (ex_datoms ! i)"

definition ex_wire :: cursor_wire where
  "ex_wire = \<lparr>cw_marshal = (\<lambda>c. if c = ex_cursor 0 then ''a'' else ''b''),
     cw_unmarshal = (\<lambda>s. Some (if s = ''a'' then ex_cursor 0 else ex_cursor 1))\<rparr>"

lemma ex_pages_digest: "datomArgumentsDigest (datom_defaults ex_pages) = Inr ex_digest"
proof -
  have "canonicalJSON (AMap [(''index'', AStr ''eavt''), (''source'', AStr ''current''), (''components'', wireValue (AList []))])
      = Inr ''{\"components\":[],\"index\":\"eavt\",\"source\":\"current\"}''"
    by code_simp
  then show ?thesis by (simp add: datomArgumentsDigest_def datom_defaults_def ex_pages_def ex_digest_def)
qed

lemma ex_listing: "listing (ex_tables ex_req) (datom_defaults ex_pages) 67 (\<lambda>r. True) = ex_datoms"
  by (simp add: listing_def datom_base_def ex_basis datom_defaults_def ex_pages_def ex_datoms_def)
    (simp add: ex_tables_def live_def find_id_def assertion_row_def datom_key_def index_key_def tagID_def)

lemma ex_cursors_differ: "ex_cursor 1 \<noteq> ex_cursor 0"
  by (simp add: ex_cursor_def cursor_of_def ex_datoms_def assertion_row_def seekFromDatom_def ex_tables_def)

lemma ex_query_fields:
  "view_basis ex_query_db = 67" "db_tables ex_query_db = ex_tables ex_req" "checkUsable False ex_query_db = Inr ()"
  "refreshNames (db_store ex_query_db) = Inr (db_store ex_query_db)"
proof -
  have "cache_names (ex_tables ex_req) \<noteq> []" by (simp add: cache_names_def ex_tables_def)
  then show "refreshNames (db_store ex_query_db) = Inr (db_store ex_query_db)"
    by (simp add: refreshNames_def ex_query_db_def ex_db_def)
qed (simp_all add: view_basis_def ex_query_db_def ex_db_def ex_basis checkUsable_def)

lemma ex_rows:
  "tb_facts (ex_tables ex_req) =
     [\<lparr>rf_id = 1, rf_e = 67, rf_a = 1, rf_v = SInt 5, rf_t = TagInstant, rf_tx = 67, rf_rx = None\<rparr>,
      \<lparr>rf_id = 2, rf_e = 66, rf_a = 65, rf_v = SInt 7, rf_t = TagInt, rf_tx = 67, rf_rx = None\<rparr>]"
  "attributeName (ex_tables ex_req) 1 = Inr ''fgraph/at''" "attributeName (ex_tables ex_req) 65 = Inr ''a/b''"
  by (simp_all add: ex_tables_def attributeName_def find_id_def)

lemma ex_pageable:
  "\<exists>items. pageable ex_wire ex_query_db (datom_defaults ex_pages) ex_digest (\<lambda>r. True) items \<and> map dm_factID items = [2, 1]"
proof -
  have checks: "check_datoms (datom_defaults ex_pages) = Inr ()"
    "datomConstraints ex_query_db (dp_index (datom_defaults ex_pages)) (dp_components (datom_defaults ex_pages)) = Inr (Some (\<lambda>r. True))"
    by (simp_all add: check_datoms_def datom_defaults_def ex_pages_def maxDatomPage_def datomConstraints_def)
  have trav: "travels ex_wire (ex_cursor 0)" "travels ex_wire (ex_cursor 1)"
    using ex_cursors_differ by (simp_all add: travels_def ex_wire_def maxDatomCursorBytes_def)
  have two: "ex_datoms = [ex_datoms ! 0, ex_datoms ! 1]" by (simp add: ex_datoms_def)
  have "list_all (\<lambda>r. travels ex_wire (cursor_of (datom_defaults ex_pages) ex_digest 67 r)) ex_datoms"
    using trav by (subst two) (simp add: ex_cursor_def)
  moreover have "\<exists>items. res_bind (res_map (scan_datom (ex_tables ex_req)) ex_datoms) (res_map (render_datom ex_query_db)) = Inr items
      \<and> map dm_factID items = [2, 1]"
    by (simp add: ex_datoms_def assertion_row_def scan_datom_def render_datom_def ex_rows Let_def
        logicalValue_def minInstantMicros_def maxInstantMicros_def)
  ultimately show ?thesis
    by (simp add: pageable_def ex_query_fields ex_listing checks ex_pages_digest GenesisTx_def)
qed

theorem pages_list_every_datom_witness:
  "\<exists>items. read_pages 3 ex_wire ex_query_db ex_pages = Inr items \<and> map dm_factID items = [2, 1]"
proof -
  obtain items where able: "pageable ex_wire ex_query_db (datom_defaults ex_pages) ex_digest (\<lambda>r. True) items" "map dm_factID items = [2, 1]"
    using ex_pageable by (elim exE conjE)
  have ok: "facts_ok (db_tables ex_query_db)" using ex_ok(2) by (simp add: ex_query_fields tables_ok_def content_ok_def)
  have len: "length (listing (db_tables ex_query_db) (datom_defaults ex_pages) (view_basis ex_query_db) (\<lambda>r. True)) < 3"
    unfolding ex_query_fields ex_listing by (simp add: ex_datoms_def)
  have cur: "dp_cursor ex_pages = []" by (simp add: ex_pages_def)
  have "read_pages 3 ex_wire ex_query_db ex_pages = Inr items"
    by (rule pages_list_every_datom [where digest = ex_digest, OF ok ex_query_fields(3,4) cur _ len]) (simp add: able(1))
  then show ?thesis using able(2) by (intro exI [of _ items] conjI)
qed

end
