(* ===== verification/SearchSpec.thy ===== *)
theory SearchSpec
  imports ExpandFacts DatomFacts
begin

text \<open>
  The full-text expression and the cut of matched texts, and the runs on small databases that the witnesses of the
  search properties use.
\<close>

subsection \<open>Phrases\<close>

lemma rune_bytes_ascii:
  assumes "b \<in> set (rune_bytes r)"
  shows "b < 256 \<and> (b < 128 \<longrightarrow> b = r)"
proof -
  have cont: "128 + k mod 64 < 256" for k :: nat using mod_less_divisor [of 64 k] by linarith
  have lead: "r < 2048 \<Longrightarrow> 192 + r div 64 < 256" "r < 65536 \<Longrightarrow> 224 + r div 4096 < 256" "r \<le> 1114111 \<Longrightarrow> 240 + r div 262144 < 256"
    by linarith+
  show ?thesis
    using assms cont [of r] cont [of "r div 64"] cont [of "r div 4096"] lead
    by (simp add: rune_bytes_def split: if_split_asm) (elim disjE; simp)+
qed

lemma quote_not_encoded: "r \<noteq> 34 \<Longrightarrow> CHR 0x22 \<notin> set (encode_rune r)"
proof
  assume r: "r \<noteq> 34" and q: "CHR 0x22 \<in> set (encode_rune r)"
  then obtain b where b: "b \<in> set (rune_bytes r)" "(CHR 0x22 :: char) = char_of b" by (auto simp: encode_rune_def)
  have "byte_of (CHR 0x22) = 34" by (simp add: byte_of_def)
  with arg_cong [OF b(2), of byte_of] rune_bytes_ascii [OF b(1)] have "b = 34" by (simp add: byte_of_char_of)
  with rune_bytes_ascii [OF b(1)] r show False by simp
qed

lemma fts_words_ok:
  assumes "\<not> word_rune 34"
  shows "CHR 0x22 \<notin> set word \<Longrightarrow> list_all (\<lambda>t. t \<noteq> [] \<and> CHR 0x22 \<notin> set t) (fts_words word_rune rs word)"
proof (induction rs arbitrary: word)
  case (Cons r rs)
  have "r \<noteq> 34" if "r = 95 \<or> word_rune r" using that assms by auto
  then show ?case using Cons quote_not_encoded [of r] by auto
qed auto

text \<open>
  C31. The text of a query stays inside quoted phrases: the full-text expression is a sequence of phrases between
  double quotes, none of them empty and none containing a quote, whatever the text (a quote is neither a letter nor
  a number). No text can thus use an operator of the full-text syntax.
\<close>

theorem search_text_stays_quoted:
  assumes "\<not> word_rune 34"
  shows "\<exists>words. ftsQuery word_rune s = join_with '' '' (map quoted words)
    \<and> list_all (\<lambda>t. t \<noteq> [] \<and> CHR 0x22 \<notin> set t) words"
  unfolding ftsQuery_def by (intro exI conjI, rule refl, rule fts_words_ok) (simp_all add: assms)

definition ex_word_rune :: "nat \<Rightarrow> bool" where
  "ex_word_rune r \<longleftrightarrow> (48 \<le> r \<and> r \<le> 57) \<or> (65 \<le> r \<and> r \<le> 90) \<or> (97 \<le> r \<and> r \<le> 122)"

theorem search_text_stays_quoted_witness:
  "\<exists>words. ftsQuery ex_word_rune ''a) OR b'' = join_with '' '' (map quoted words)
     \<and> list_all (\<lambda>t. t \<noteq> [] \<and> CHR 0x22 \<notin> set t) words"
  by (rule search_text_stays_quoted) (simp add: ex_word_rune_def)

subsection \<open>Texts cut at a rune\<close>

text \<open>A valid byte sequence starts with a rune: a byte and its continuation bytes, before a valid rest.\<close>

lemma utf8_runes_split:
  assumes "utf8_runes bs \<noteq> None" "bs \<noteq> []"
  obtains c r where "bs = c @ r" "c \<noteq> []" "utf8_runes r \<noteq> None" "\<And>xs. utf8_runes xs \<noteq> None \<Longrightarrow> utf8_runes (c @ xs) \<noteq> None"
    "\<forall>b \<in> set (tl c). utf8_cont b"
proof -
  obtain b0 bs' where bs: "bs = b0 # bs'" using assms(2) by (cases bs) auto
  consider "b0 < 128" | "194 \<le> b0" "b0 \<le> 223" | "224 \<le> b0" "b0 \<le> 239" | "240 \<le> b0" "b0 \<le> 244"
    using assms(1) by (auto simp: bs split: if_split_asm)
  then show ?thesis
  proof cases
    case 1
    then show ?thesis using assms(1) by (intro that [of "[b0]" bs']) (auto simp: bs)
  next
    case 2
    then obtain b1 r where "bs' = b1 # r" using assms(1) by (cases bs') (auto simp: bs)
    then show ?thesis using assms(1) 2 by (intro that [of "[b0, b1]" r]) (auto simp: bs split: if_split_asm)
  next
    case 3
    then obtain b1 b2 r where "bs' = b1 # b2 # r" using assms(1) by (auto simp: bs split: list.split_asm)
    then show ?thesis using assms(1) 3
      by (intro that [of "[b0, b1, b2]" r]) (auto simp: bs utf8_cont_def split: if_split_asm)
  next
    case 4
    then obtain b1 b2 b3 r where "bs' = b1 # b2 # b3 # r" using assms(1) by (auto simp: bs split: list.split_asm)
    then show ?thesis using assms(1) 4
      by (intro that [of "[b0, b1, b2, b3]" r]) (auto simp: bs utf8_cont_def split: if_split_asm)
  qed
qed

lemma utf8_runes_append:
  "utf8_runes xs \<noteq> None \<Longrightarrow> utf8_runes ys \<noteq> None \<Longrightarrow> utf8_runes (xs @ ys) \<noteq> None"
proof (induction xs rule: length_induct)
  case (1 xs)
  show ?case
  proof (cases "xs = []")
    case False
    from utf8_runes_split [OF "1.prems"(1) False] obtain c r where c: "xs = c @ r" "c \<noteq> []" "utf8_runes r \<noteq> None"
      "\<And>zs. utf8_runes zs \<noteq> None \<Longrightarrow> utf8_runes (c @ zs) \<noteq> None" by metis
    then have "utf8_runes (r @ ys) \<noteq> None" using "1.IH" "1.prems"(2) by simp
    then show ?thesis using c(4) by (simp add: c(1))
  qed (use 1 in simp)
qed

lemma utf8_runes_take:
  "utf8_runes bs \<noteq> None \<Longrightarrow> n < length bs \<Longrightarrow> \<not> utf8_cont (bs ! n) \<Longrightarrow> utf8_runes (take n bs) \<noteq> None"
proof (induction bs arbitrary: n rule: length_induct)
  case (1 bs)
  then have "bs \<noteq> []" by auto
  from utf8_runes_split [OF "1.prems"(1) this] obtain c r where c: "bs = c @ r" "c \<noteq> []" "utf8_runes r \<noteq> None"
    "\<And>zs. utf8_runes zs \<noteq> None \<Longrightarrow> utf8_runes (c @ zs) \<noteq> None" "\<forall>b \<in> set (tl c). utf8_cont b" by metis
  show ?case
  proof (cases "n < length c")
    case True
    have "n = 0"
    proof (rule ccontr)
      assume "n \<noteq> 0"
      then have "c ! n = tl c ! (n - 1)" "n - 1 < length (tl c)" using True by (auto simp: nth_tl)
      then have "c ! n \<in> set (tl c)" by simp
      then show False using c(5) "1.prems"(3) True by (auto simp: c(1) nth_append)
    qed
    then show ?thesis by simp
  next
    case False
    have "utf8_runes (take (n - length c) r) \<noteq> None"
      using "1.IH" c(2,3) "1.prems"(2,3) False by (simp add: c(1) nth_append)
    then show ?thesis using c(4) False by (simp add: c(1))
  qed
qed

lemma back_to_rune_start: "back_to_rune s n = 0 \<or> RuneStart (s ! back_to_rune s n)"
  by (induction n) auto

lemma boundMatchedText_valid:
  assumes "ValidString s"
  shows "ValidString (fst (boundMatchedText s))"
proof (cases "length s \<le> maxMatchedValueBytes")
  case False
  let ?n = "back_to_rune s (maxMatchedValueBytes - length ellipsis)"
  let ?bs = "map byte_of s"
  have n: "?n < length ?bs"
    using back_to_rune_le [of s "maxMatchedValueBytes - length ellipsis"] False by simp
  have "utf8_runes (take ?n ?bs) \<noteq> None"
  proof (cases "?n = 0")
    case False
    then have "\<not> utf8_cont (?bs ! ?n)" using back_to_rune_start [of s "maxMatchedValueBytes - length ellipsis"] n by (auto simp: RuneStart_def utf8_cont_def)
    then show ?thesis using utf8_runes_take [OF _ n] assms by (simp add: ValidString_def runes_def)
  qed simp
  moreover have "utf8_runes (map byte_of ellipsis) \<noteq> None" by (simp add: ellipsis_def byte_of_def utf8_cont_def)
  ultimately have "utf8_runes (take ?n ?bs @ map byte_of ellipsis) \<noteq> None" by (rule utf8_runes_append)
  then show ?thesis using False by (simp add: ValidString_def runes_def boundMatchedText_def take_map)
qed (use assms in \<open>simp add: boundMatchedText_def\<close>)

subsection \<open>Small runs\<close>

text \<open>A search for a word that the index finds in the fact of entity 66.\<close>

definition ex_search_env :: search_env where
  "ex_search_env = \<lparr>se_word = ex_word_rune, se_match = (\<lambda>_ _. Inr [(2, 0, ''[x]'')]), se_size = (\<lambda>_. Some 10), se_budget = 5\<rparr>"

definition ex_search :: SearchOpts where
  "ex_search = \<lparr>so_text = ''x'', so_vectorAttribute = [], so_textAttributes = [], so_vector = [], so_filters = [],
     so_k = 1, so_expand = 1\<rparr>"

lemma ex_search_text: "blank ''x'' = False" "ftsQuery ex_word_rune ''x'' = [CHR 0x22, CHR ''x'', CHR 0x22]"
  by code_simp+

lemma ex_store:
  "st_tables (db_store ex_query_db) = ex_tables ex_req" "db_asOf ex_query_db = None"
  "find_id 1 (ex_tables ex_req) \<noteq> None" "find_id 65 (ex_tables ex_req) = Some \<lparr>id_id = 65, id_name = Some ''a/b'', id_gid = None, id_created = 67\<rparr>"
  "displayEntity (db_store ex_query_db) 66 = AInt64 66"
  by (simp_all add: ex_query_db_def ex_db_def ex_tables_def find_id_def displayEntity_def cache_idNames_def cache_names_def)

lemma ex_transaction: "\<exists>info. transactionInfo (db_store ex_query_db) 67 = Inr info"
  by (simp add: transactionInfo_def ex_store ex_rows select_facts_def live_def info_row_def logicalValue_def Let_def
      minInstantMicros_def maxInstantMicros_def any_int64.simps)

lemma ex_schema: "schemaFor ex_query_db 65 = Inr noSchema"
  by (simp add: schemaFor_def schemaForChanges_def ex_store ex_rows select_facts_def isSchemaAttribute_def visible_def schema_of_facts_def)

lemma ex_pull: "\<exists>pull. pullEntityCompact ex_query_db 66 = Inr pull"
  by (simp add: pullEntityCompact_def compact_attributes_def compact_attribute_def compact_value_def ex_store ex_rows ex_schema
      live_def maxPullAttributes_def maxPullValues_def select_facts_def logicalValue_def noSchema_def Let_def)

lemma ex_keywords:
  "\<exists>f. keywordCandidatesBounded ex_search_env ex_query_db ''x'' [] None (candidate_limit ex_search) \<lparr>sw_limit = 5, sw_used = 0\<rparr>
     = Inr (\<lparr>cb_items = [\<lparr>rk_fact = f, rk_entity = 66, rk_score = 9223372036854775808\<rparr>], cb_truncated = False\<rparr>, \<lparr>sw_limit = 5, sw_used = 1\<rparr>)"
proof -
  obtain info where info: "transactionInfo (db_store ex_query_db) 67 = Inr info" using ex_transaction by blast
  have rows: "keyword_rows (ex_tables ex_req) [(2, 0, ''[x]'')] = [(tb_facts (ex_tables ex_req) ! 1, 0, ''[x]'')]"
    by (simp add: keyword_rows_def ex_rows live_def FirstUserID_def)
  have limit: "candidate_limit ex_search = 50"
    by (simp add: candidate_limit_def ex_search_def maxSearchCandidates_def searchCandidateLimit_def)
  show ?thesis
    by (simp add: keywordCandidatesBounded_def ex_search_env_def ex_search_text select_attributes_def ex_store rows limit)
      (simp add: keyword_pages.simps keywordPageMinimum_def remaining_def keyword_row_def spend_work_def eligible_entity_def
        ex_rows ex_store renderRaw_def renderRawLogical_def logicalValue_def withAssertingTransaction_def temporal_def
        Fact.defs info negated_def f64_neg_def)
qed

lemma ex_search_run: "\<exists>r d'. Search ex_search_env ex_query_db ex_search = (Inr r, d')"
proof -
  have checked: "search_defaults ex_search = ex_search" "check_search ex_search = Inr ()"
    by (simp_all add: search_defaults_def ex_search_def check_search_def ex_search_text maxSearchK_def maxSearchExpand_def)
  obtain f where kw: "keywordCandidatesBounded ex_search_env ex_query_db ''x'' [] None (candidate_limit ex_search) \<lparr>sw_limit = 5, sw_used = 0\<rparr>
     = Inr (\<lparr>cb_items = [\<lparr>rk_fact = f, rk_entity = 66, rk_score = 9223372036854775808\<rparr>], cb_truncated = False\<rparr>, \<lparr>sw_limit = 5, sw_used = 1\<rparr>)"
    using ex_keywords by blast
  obtain pull where pull: "pullEntityCompact ex_query_db 66 = Inr pull" using ex_pull by blast
  have expand: "expandSearch ex_query_db [66] 1 \<lparr>sw_limit = 5, sw_used = 1\<rparr> = Inr ([], False, \<lparr>sw_limit = 5, sw_used = 1\<rparr>)"
    by (simp add: expandSearch_def expand_start_def expand_entity_def readExpansionEdges_def select_facts_def ex_store ex_rows)
  have fused: "fold fuse_list [[\<lparr>rk_fact = f, rk_entity = 66, rk_score = 9223372036854775808\<rparr>]] ([], [])
      = ([(66, f64_add 0 (reciprocal 1))], [(66, [f])])"
    by (simp add: fuse_list_def note_candidate_def appendUniqueFact_def matched_of_def score_of_def)
  have "\<exists>r. search_on ex_search_env ex_search ex_query_db = Inr r"
    using kw pull expand fused
    by (simp add: search_on_def ex_search_def ex_search_env_def eligibleSearchEntities_def search_lists_def ex_search_text
        search_hits_def rank_entities_def search_hit_def)
  then show ?thesis
    by (auto simp: Search_def checked ex_store withRead_def ex_query_fields)
qed

theorem search_is_bounded_witness:
  "\<exists>r d'. Search ex_search_env ex_query_db ex_search = (Inr r, d') \<and> bounded_result 1 5 r
     \<and> length (sr_hits r) \<le> 100 \<and> (searchOutputSize ex_search_env r \<le> maxSearchOutputBytes \<or> sr_hits r = [])"
proof -
  obtain r d' where run: "Search ex_search_env ex_query_db ex_search = (Inr r, d')" using ex_search_run by (elim exE)
  have "so_k ex_search = 1" "se_budget ex_search_env = 5" by (simp_all add: ex_search_def ex_search_env_def)
  with search_is_bounded [OF run] run show ?thesis by (intro exI [of _ r] exI [of _ d']) simp
qed

text \<open>Entity 66 refers to entity 67, which refers to nothing.\<close>

definition ex_graph_db :: db where
  "ex_graph_db = ex_query_db\<lparr>db_store := (db_store ex_query_db)\<lparr>st_tables := (ex_tables ex_req)
    \<lparr>tb_facts := [\<lparr>rf_id = 1, rf_e = 66, rf_a = 65, rf_v = SInt 67, rf_t = TagRef, rf_tx = 67, rf_rx = None\<rparr>]\<rparr>\<rparr>\<rparr>"

lemma ex_expansion:
  "\<exists>expanded work'. expandSearch ex_graph_db [66] 2 \<lparr>sw_limit = 5, sw_used = 0\<rparr> = Inr (expanded, False, work') \<and> length expanded = 1"
proof -
  have name: "attributeName ((ex_tables ex_req)\<lparr>tb_facts := fs\<rparr>) 65 = Inr ''a/b''" for fs
    by (simp add: attributeName_def find_id_def ex_tables_def)
  show ?thesis
    by (simp add: expandSearch_def expand_start_def expand_entity_def expand_edge_def readExpansionEdges_def select_facts_def
        ex_graph_db_def live_def spend_work_def maxExpandedEntities_def renderRaw_def renderRawLogical_def logicalValue_def
        pullEntityCompact_def compact_attributes_def eval_nat_numeral path_of_def name Let_def)
qed

theorem expansion_is_breadth_first_witness:
  "\<exists>expanded work' es. expandSearch ex_graph_db [66] 2 \<lparr>sw_limit = 5, sw_used = 0\<rparr> = Inr (expanded, False, work')
     \<and> length expanded = 1 \<and> distinct es \<and> {66} \<union> set es = {e. \<exists>n \<le> 2. reached (db_tables ex_graph_db) [66] n e}"
proof -
  obtain expanded work' where run: "expandSearch ex_graph_db [66] 2 \<lparr>sw_limit = 5, sw_used = 0\<rparr> = Inr (expanded, False, work')"
      "length expanded = 1"
    using ex_expansion by (elim exE conjE)
  from expansion_is_breadth_first [OF run(1)] obtain es where "distinct es"
    "set [66] \<union> set es = {e. \<exists>n \<le> nat 2. reached (db_tables ex_graph_db) [66] n e}" by auto
  with run show ?thesis by (intro exI [of _ expanded] exI [of _ work'] exI [of _ es]) simp
qed

end
