(* ===== verification/TemporalFacts.thy ===== *)
theory TemporalFacts
  imports Temporal CacheFacts DatomFacts
begin

text \<open>
  Facts about time travel: differences connect views, an instant selects the last transaction before it, undo
  plans the inverse of a transaction, and speculation leaves no trace.
\<close>

subsection \<open>Differences\<close>

lemma visible_step:
  assumes "from \<le> until" "rf_rx f = None \<or> rf_tx f < the (rf_rx f)"
  shows "visible (Some until) f \<longleftrightarrow>
    (visible (Some from) f \<or> from < rf_tx f \<and> rf_tx f \<le> until)
    \<and> \<not> (case rf_rx f of None \<Rightarrow> False | Some rx \<Rightarrow> from < rx \<and> rx \<le> until)"
  using assms by (auto simp: visible_def split: option.splits)

lemma renderViewRaw_id: "renderViewRaw d f = Inr r \<Longrightarrow> fa_id r = rf_id f"
  by (auto simp: renderViewRaw_def renderRaw_def renderRawLogical_def res_bind_Inr_iff split: option.splits if_splits)

lemma rangeFacts_ids:
  assumes "rangeFacts d column from until = Inr facts"
  shows "set (map fa_id facts) = rf_id ` {f \<in> set (tb_facts (db_tables d)).
    case column f of None \<Rightarrow> False | Some t \<Rightarrow> from < t \<and> t \<le> until}"
proof -
  have "map fa_id rs = map rf_id fs" if "res_map (renderViewRaw d) fs = Inr rs" for fs rs
    using that by (induction fs arbitrary: rs) (auto simp: res_bind_Inr_iff dest: renderViewRaw_id)
  from this [OF assms [unfolded rangeFacts_def]] have "set (map fa_id facts) = rf_id ` set (range_rows column from until (db_tables d))"
    by simp
  then show ?thesis by (simp add: range_rows_def)
qed

lemma visible_ids_step:
  assumes ok: "facts_ok tb" and range: "from \<le> until"
  shows "rf_id ` {f \<in> set (tb_facts tb). visible (Some until) f} =
    (rf_id ` {f \<in> set (tb_facts tb). visible (Some from) f} \<union> rf_id ` {f \<in> set (tb_facts tb). from < rf_tx f \<and> rf_tx f \<le> until})
    - rf_id ` {f \<in> set (tb_facts tb). case rf_rx f of None \<Rightarrow> False | Some rx \<Rightarrow> from < rx \<and> rx \<le> until}"
proof -
  have inj: "f = g" if "f \<in> set (tb_facts tb)" "g \<in> set (tb_facts tb)" "rf_id f = rf_id g" for f g
    using facts_ok_id_inj [OF ok] that by blast
  have step: "visible (Some until) f \<longleftrightarrow> (visible (Some from) f \<or> from < rf_tx f \<and> rf_tx f \<le> until)
      \<and> \<not> (case rf_rx f of None \<Rightarrow> False | Some rx \<Rightarrow> from < rx \<and> rx \<le> until)" if "f \<in> set (tb_facts tb)" for f
    by (rule visible_step [OF range]) (use ok that in \<open>cases "rf_rx f"; auto simp: facts_ok_def\<close>)
  show ?thesis using inj step by (auto simp: image_iff) metis+
qed

text \<open>
  C10. The difference between two transactions takes one view to the other: the facts visible at the later one are
  those visible at the earlier one and those reported as asserted, without those reported as retracted.
\<close>

theorem diff_connects_views:
  assumes "DiffBetween d from until = (Inr r, d')" "db_asOf d = None" "facts_ok (db_tables d)"
  shows "rf_id ` {f \<in> set (tb_facts (db_tables d)). visible (Some until) f} =
    (rf_id ` {f \<in> set (tb_facts (db_tables d)). visible (Some from) f} \<union> set (map fa_id (df_asserted r)))
    - set (map fa_id (df_retracted r))"
proof -
  have range: "from \<le> until" and read: "withRead d (diff_on from until) = (Inr r, d')"
    using assms(1,2) by (auto simp: DiffBetween_def split: if_split_asm)
  obtain s where s: "refreshNames (db_store d) = Inr s" "diff_on from until (d\<lparr>db_store := s\<rparr>) = Inr r"
    using read by (auto simp: withRead_def split: sum.splits)
  from s(1) have tb: "st_tables s = db_tables d" by (auto simp: refreshNames_def split: if_split_asm)
  have "rangeFacts (d\<lparr>db_store := s\<rparr>) (\<lambda>f. Some (rf_tx f)) from until = Inr (df_asserted r)"
    "rangeFacts (d\<lparr>db_store := s\<rparr>) rf_rx from until = Inr (df_retracted r)"
    using s(2) by (auto simp: diff_on_def res_bind_Inr_iff)
  from this [THEN rangeFacts_ids] show ?thesis
    unfolding visible_ids_step [OF assms(3) range] by (simp add: tb)
qed

lemma ex_between:
  "\<exists>r. DiffBetween ex_query_db 64 67 = (Inr r, ex_query_db) \<and> map fa_id (df_asserted r) = [1, 2] \<and> df_retracted r = []"
proof -
  have tb: "st_tables (db_store ex_query_db) = ex_tables ex_req" and now: "db_asOf ex_query_db = None"
    by (simp_all add: ex_query_db_def ex_db_def)
  have read: "withRead ex_query_db q = (q ex_query_db, ex_query_db)" for q :: "db \<Rightarrow> DiffReport res"
    by (simp add: withRead_def ex_query_fields)
  have "\<exists>fs. rangeFacts ex_query_db (\<lambda>f. Some (rf_tx f)) 64 67 = Inr fs \<and> map fa_id fs = [1, 2]"
    by (simp add: rangeFacts_def range_rows_def tb now ex_rows renderViewRaw_def renderRaw_def renderRawLogical_def
        logicalValue_def minInstantMicros_def maxInstantMicros_def)
  moreover have "rangeFacts ex_query_db rf_rx 64 67 = Inr []"
    by (simp add: rangeFacts_def range_rows_def tb ex_rows)
  ultimately show ?thesis by (auto simp: DiffBetween_def now read diff_on_def)
qed

theorem diff_connects_views_witness:
  "\<exists>r d'. DiffBetween ex_query_db 64 67 = (Inr r, d') \<and>
     rf_id ` {f \<in> set (tb_facts (db_tables ex_query_db)). visible (Some 67) f} =
     (rf_id ` {f \<in> set (tb_facts (db_tables ex_query_db)). visible (Some 64) f} \<union> set (map fa_id (df_asserted r)))
     - set (map fa_id (df_retracted r))"
proof -
  obtain r where r: "DiffBetween ex_query_db 64 67 = (Inr r, ex_query_db)" using ex_between by (elim exE conjE)
  have now: "db_asOf ex_query_db = None" by (simp add: ex_query_db_def ex_db_def)
  have ok: "facts_ok (db_tables ex_query_db)" using ex_ok(2) by (simp add: ex_query_fields tables_ok_def content_ok_def)
  show ?thesis by (intro exI conjI, rule r, rule diff_connects_views [OF r now ok])
qed

subsection \<open>Instants\<close>

lemma last_sort_key:
  fixes key :: "'a \<Rightarrow> 'k :: linorder"
  assumes "xs \<noteq> []"
  shows "last (sort_key key xs) \<in> set xs" "x \<in> set xs \<Longrightarrow> key x \<le> key (last (sort_key key xs))"
proof -
  let ?ys = "sort_key key xs"
  have ne: "?ys \<noteq> []" using assms by (metis length_0_conv length_sort)
  then show "last ?ys \<in> set xs" using last_in_set [OF ne] by simp
  show "key x \<le> key (last ?ys)" if "x \<in> set xs"
  proof -
    have "x \<in> set ?ys" using that by simp
    then obtain i where "i < length ?ys" "x = ?ys ! i" by (metis in_set_conv_nth)
    then show ?thesis using sorted_nth_mono [of "map key ?ys" i "length ?ys - 1"] ne by (simp add: last_conv_nth)
  qed
qed

lemma transaction_at_last:
  assumes "transaction_at d micros = Inr tx"
  shows "\<exists>f \<in> set (tb_facts (db_tables d)). instant_row (db_asOf d) micros f \<and> rf_e f = tx
    \<and> (\<forall>g \<in> set (tb_facts (db_tables d)). instant_row (db_asOf d) micros g \<longrightarrow>
         (sql_key (rf_v g), rf_e g) \<le> (sql_key (rf_v f), tx))"
proof -
  let ?fs = "filter (instant_row (db_asOf d) micros) (tb_facts (db_tables d))"
  define key where "key = (\<lambda>f :: rawFact. (sql_key (rf_v f), rf_e f))"
  define f where "f = last (sort_key key ?fs)"
  have ne: "?fs \<noteq> []" and tx: "tx = rf_e f"
    using assms by (auto simp: transaction_at_def key_def f_def split: list.splits)
  have "f \<in> set ?fs" and "g \<in> set ?fs \<Longrightarrow> key g \<le> key f" for g
    unfolding f_def by (rule last_sort_key [OF ne])+
  then show ?thesis unfolding key_def tx by auto
qed

subsection \<open>Speculation\<close>

text \<open>
  C11. A speculation leaves no trace: whatever the callback commits and answers, the tables are afterwards what they
  were, and the next refresh of the name caches succeeds and agrees with the identity table.
\<close>

theorem speculation_leaves_no_trace:
  assumes "Speculate d (Some callback) = (r, d')" "tables_ok (db_tables d)" "cache_ok (db_store d)"
    and "0 \<le> st_version (db_store (snd (callback d)))"
  shows "db_tables d' = db_tables d \<and> (\<exists>s. refreshNames (db_store d') = Inr s \<and> cached s)"
proof -
  have ids: "ids_ok (db_tables d)" using assms(2) by (simp add: tables_ok_def)
  have same: "db_tables d' = db_tables d" "cache_ok (db_store d')"
    using assms(1,3,4) by (auto simp: Speculate_def cache_ok_def split: sum.splits prod.splits)
  then obtain s where "refreshNames (db_store d') = Inr s" using refreshNames_total ids by metis
  with same ids refreshNames_cached show ?thesis by metis
qed

text \<open>A callback that drops every row and then fails.\<close>

definition ex_callback :: "db \<Rightarrow> unit res \<times> db" where
  "ex_callback d = (fail ErrType, d\<lparr>db_store := (db_store d)\<lparr>st_tables := empty_tables 0\<rparr>\<rparr>)"

theorem speculation_leaves_no_trace_witness:
  "\<exists>r d'. Speculate ex_query_db (Some ex_callback) = (r, d') \<and> db_tables d' = ex_tables ex_req
     \<and> (\<exists>s. refreshNames (db_store d') = Inr s \<and> cached s)"
proof -
  obtain r d' where run: "Speculate ex_query_db (Some ex_callback) = (r, d')" by fastforce
  have ok: "tables_ok (db_tables ex_query_db)" using ex_ok(2) by (simp add: ex_query_fields)
  have "st_version (db_store ex_query_db) = 0" by (simp add: ex_query_db_def ex_db_def)
  then have cache: "cache_ok (db_store ex_query_db)"
    using ex_query_cached by (simp add: cache_ok_def ex_evaluator_def)
  have "0 \<le> st_version (db_store (snd (ex_callback ex_query_db)))"
    by (simp add: ex_callback_def ex_query_db_def ex_db_def)
  from speculation_leaves_no_trace [OF run ok cache this] run show ?thesis
    by (intro exI [of _ r] exI [of _ d']) (simp add: ex_query_fields)
qed

subsection \<open>Undo\<close>

lemma base_256:
  fixes x y :: nat
  assumes "x < 256"
  shows "(x + 256 * y) mod 256 = x" "(x + 256 * y) div 256 = y"
  using assms by simp_all

lemma le_bytes_le_floats: "length b mod 4 = 0 \<Longrightarrow> concat (map le_bytes (le_floats b)) = b"
proof (induction b rule: le_floats.induct)
  case (1 a b c d r)
  define w where "w = byte_of a + 256 * byte_of b + 65536 * byte_of c + 16777216 * byte_of d"
  note bytes = base_256 [OF byte_of_less]
  have w: "w = byte_of a + 256 * (byte_of b + 256 * (byte_of c + 256 * byte_of d))" by (simp add: w_def)
  have div1: "w div 256 = byte_of b + 256 * (byte_of c + 256 * byte_of d)" unfolding w by (rule bytes)
  have "w div 65536 = w div 256 div 256" by (simp add: div_mult2_eq [symmetric])
  then have div2: "w div 65536 = byte_of c + 256 * byte_of d" unfolding div1 by (simp only: bytes)
  have "w div 16777216 = w div 65536 div 256" by (simp add: div_mult2_eq [symmetric])
  then have div3: "w div 16777216 = byte_of d" unfolding div2 by (simp only: bytes)
  have "w mod 256 = byte_of a" unfolding w by (rule bytes)
  moreover have "w div 256 mod 256 = byte_of b" unfolding div1 by (rule bytes)
  moreover have "w div 65536 mod 256 = byte_of c" unfolding div2 by (rule bytes)
  moreover have "w div 16777216 mod 256 = byte_of d" unfolding div3 using byte_of_less by simp
  ultimately have "le_bytes w = [a, b, c, d]" by (simp add: le_bytes_def char_of_byte_of)
  moreover have "length r mod 4 = 0" using 1(2) by simp
  ultimately show ?case using 1(1) by (simp add: w_def)
qed auto

text \<open>
  The input that an operation of an undo carries names the stored value of its row: it converts to the same
  columns (or is refused, which only a vector with a component that is not finite can be), and a reference
  names the row's target.
\<close>

definition names_value :: "tables \<Rightarrow> rawFact \<Rightarrow> any \<Rightarrow> bool" where
  "names_value tb f input \<longleftrightarrow>
    (case rf_t f of
       TagRef \<Rightarrow> \<exists>n. input = ARef (AInt64 n) \<and> rf_v f = SInt n
     | TagJSON \<Rightarrow> \<exists>doc. input = AJSON doc \<and> logicalValue tb (rf_v f) TagJSON = Inr doc
     | TagVector \<Rightarrow> \<forall>sv. scalarValue input = Inr sv \<longrightarrow> sv_storage sv = rf_v f \<and> sv_tag sv = TagVector
     | t \<Rightarrow> \<exists>sv. scalarValue input = Inr sv \<and> sv_storage sv = rf_v f \<and> sv_tag sv = t)"

lemma inputValue_names_direct:
  assumes "logicalValue tb (rf_v f) (rf_t f) = Inr logical" "inputValue logical (rf_t f) = Inr input"
    and "\<not> indirect_tag (rf_t f)"
  shows "names_value tb f input"
  using assms
  by (cases "rf_t f"; cases "rf_v f")
    (auto simp: names_value_def logicalValue_def inputValue_def scalarValue_def textStored_def bytesStored_def
      floatStored_def instantStored_def validateInstantMicros_def check_def indirect_tag_def wide_unsigned_def
      BlobThreshold_def MaxValueBytes_def split: if_split_asm)

lemma inputValue_names_indirect:
  assumes "logicalValue tb (rf_v f) (rf_t f) = Inr logical" "inputValue logical (rf_t f) = Inr input"
    and tag: "indirect_tag (rf_t f)"
  shows "names_value tb f input"
proof -
  obtain hash data where blob: "rf_v f = SBlob hash" and read: "logicalIndirectValue (SBlob hash) (rf_t f) data = Inr logical"
    using assms(1) tag by (auto simp: logicalValue_def indirect_tag_def wrap_def split: sval.splits option.splits if_split_asm)
  from read tag have valid: "validIndirectBlob (rf_t f) (SBlob hash) data"
    by (auto simp: logicalIndirectValue_def split: if_split_asm)
  from tag consider "rf_t f = TagTextRef" | "rf_t f = TagBytesRef" | "rf_t f = TagVector" by (auto simp: indirect_tag_def)
  then show ?thesis
    using valid read assms(2)
    by cases (auto simp: names_value_def blob validIndirectBlob_def logicalIndirectValue_def inputValue_def
      scalarValue_def textStored_def bytesStored_def vectorStored_def Let_def le_bytes_le_floats
      split: sval.splits if_split_asm)
qed

lemmas inputValue_names = inputValue_names_direct inputValue_names_indirect

definition undoes :: "tables \<Rightarrow> rawFact \<Rightarrow> any \<Rightarrow> bool" where
  "undoes tb f op \<longleftrightarrow>
    (\<exists>attr input. attributeName tb (rf_a f) = Inr attr \<and> names_value tb f input
       \<and> op = AList [AStr (if live f then ''retract'' else ''assert''), AInt64 (rf_e f), AStr attr, input])"

lemma undo_operation_undoes:
  assumes "undo_operation tb target f = Inr op" "f \<in> set (undo_rows tb target)"
  shows "undoes tb f op"
proof -
  have verb: "rf_tx f = target \<and> live f \<longleftrightarrow> live f"
    using assms(2) by (auto simp: undo_rows_def select_facts_def live_def)
  show ?thesis
    using assms(1) unfolding undo_operation_def undoes_def verb
    by (cases "indirect_tag (rf_t f)") (auto simp: res_bind_Inr_iff dest: inputValue_names)
qed

lemma res_map_list_all2:
  assumes "res_map g xs = Inr ys" "\<And>x y. x \<in> set xs \<Longrightarrow> g x = Inr y \<Longrightarrow> R x y"
  shows "list_all2 R xs ys"
  using assms by (induction xs arbitrary: ys) (auto simp: res_bind_Inr_iff)

lemma visible_live: "visible None f \<longleftrightarrow> live f"
  by (simp add: visible_def live_def split: option.splits)

lemma view_before_basis:
  assumes "tables_ok tb" "f \<in> set (tb_facts tb)"
  shows "visible (Some (basisOn tb - 1)) f \<longleftrightarrow> live f \<and> rf_tx f \<noteq> basisOn tb \<or> rf_rx f = Some (basisOn tb)"
proof -
  have facts: "facts_ok tb" and txs: "txs_in (recorded tb) tb"
    using assms(1) by (simp_all add: tables_ok_def content_ok_def)
  from txs assms(2) have tx: "rf_tx f \<le> basisOn tb"
    by (auto simp: txs_in_def intro: recorded_le_basis)
  show ?thesis
  proof (cases "rf_rx f")
    case None
    then show ?thesis using tx by (auto simp: visible_def live_def)
  next
    case (Some rx)
    then have "rx \<in> recorded tb" using bspec [OF txs [unfolded txs_in_def] assms(2)] by simp
    then have "rx \<le> basisOn tb" by (rule recorded_le_basis)
    moreover have "rf_tx f < rx" using facts assms(2) Some by (auto simp: facts_ok_def)
    ultimately show ?thesis using Some by (auto simp: visible_def live_def)
  qed
qed

text \<open>
  Undo plans the inverse of the last transaction. Its operations correspond one to one to the rows of the
  plan: a live row is retracted and a retracted row is asserted again, on the same entity and attribute, with an
  input that names the stored value; and the view before the transaction is the live one without the rows that
  are retracted and the transaction's own facts, with the rows that are asserted.
\<close>

lemma undo_rows_invert:
  assumes "undoOperations tb target = Inr ops" "tables_ok tb" "target = basisOn tb"
  shows "list_all2 (undoes tb) (undo_rows tb target) ops
    \<and> {f \<in> set (tb_facts tb). visible (Some (target - 1)) f} =
      ({f \<in> set (tb_facts tb). visible None f} - {f \<in> set (undo_rows tb target). live f}
         - {f \<in> set (tb_facts tb). rf_e f = target \<and> rf_tx f = target})
      \<union> {f \<in> set (undo_rows tb target). \<not> live f}"
proof
  have "res_map (undo_operation tb target) (undo_rows tb target) = Inr ops"
    using assms(1) by (simp add: undoOperations_def split: if_split_asm)
  then show "list_all2 (undoes tb) (undo_rows tb target) ops"
    by (rule res_map_list_all2) (rule undo_operation_undoes)
next
  show "{f \<in> set (tb_facts tb). visible (Some (target - 1)) f} =
      ({f \<in> set (tb_facts tb). visible None f} - {f \<in> set (undo_rows tb target). live f}
         - {f \<in> set (tb_facts tb). rf_e f = target \<and> rf_tx f = target})
      \<union> {f \<in> set (undo_rows tb target). \<not> live f}"
    using view_before_basis [OF assms(2)] unfolding assms(3)
    by (auto simp: undo_rows_def select_facts_def visible_live live_def)
qed

end
