(* ===== verification/MaintenanceSpec.thy ===== *)
theory MaintenanceSpec
  imports Examples
begin

text \<open>Maintenance and replication, run on the small database: the witnesses of their properties.\<close>

lemma ex_uuid_text: "utf8_runes (map byte_of ex_uuid) \<noteq> None" "length ex_uuid = 36"
  by code_simp+

lemma ex_digits: "char_of (48::nat) = CHR ''0''" "char_of (52::nat) = CHR ''4''" "char_of (56::nat) = CHR ''8''" "char_of (102::nat) = CHR ''f''"
  by code_simp+

subsection \<open>Excision\<close>

lemmas run_excision = event_field_def decodeStoredEventData_def eventIDForTx_def eventSelectorKey_def selects_def
  eventPayloadTransactionsForSelector_def payload_mentions_def mentions_def remove_text_def redact_events_def
  delete_mentions_def delete_orphans_def touching_def excise_tables_def excision_marker_def excision_record_def
  excise_entity_def check_excision_def excision_hash_def excisable_def excise_on_def Excise_def

lemma ex_excised:
  "\<exists>r d'. Excise ex_env (ex_db ex_req) (AInt64 66) noOptions = (Inr r, d') \<and> tr_status r = ''applied''"
  by (simp add: run_example run_excision canonicalJSON_printable ex_uuid_text cong: res_bind_first let_weak_cong)

theorem excision_erases_witness:
  "\<exists>r d' s0 entity. Excise ex_env (ex_db ex_req) (AInt64 66) noOptions = (Inr r, d') \<and> tr_status r = ''applied''
     \<and> excisable ((ex_db ex_req)\<lparr>db_store := s0\<rparr>) (AInt64 66) = Inr entity
     \<and> {f \<in> set (tb_facts (db_tables d')). rf_tx f \<noteq> tr_tx r}
       = {f \<in> set (tb_facts (db_tables (ex_db ex_req))). \<not> mentions entity f}"
proof -
  obtain r d' where run: "Excise ex_env (ex_db ex_req) (AInt64 66) noOptions = (Inr r, d')" "tr_status r = ''applied''"
    using ex_excised by blast
  from excision_erases [OF run(1) ex_ok(1) run(2)] run show ?thesis by blast
qed

subsection \<open>Event streams\<close>

text \<open>An event without facts, from another database.\<close>

definition ex_line :: string where
  "ex_line = ''{\"asserted\":[],\"at\":5,\"created\":[],\"event\":\"00000000-0000-4000-8000-0000000000ff\",\"fgraph\":\"event/1\",\"retracted\":[]}''"

lemma ex_line_decodes:
  "DecodeJSON ex_line = Inr (AObject
     [(''asserted'', AList []), (''at'', AInt64 5), (''created'', AList []), (''event'', AStr ex_uuid),
      (''fgraph'', AStr ''event/1''), (''retracted'', AList [])])"
  by code_simp

lemmas run_apply = applySelector_def applyWireValue_def rewrap_def list_field_def text_field_def event_tx_facts_def
  event_tx_fact_def event_fields_def event_id_def event_line_def event_request_def applyEventLine_def

lemma ex_line_applied: "\<exists>report s'. applyEventLine ex_env (db_store (ex_db ex_req)) ex_line = Inr (report, s')"
  by (simp add: run_example run_apply ex_line_decodes canonicalJSON_printable ex_uuid_text cong: res_bind_first let_weak_cong)
    (simp add: ex_uuid_def ex_digits)

theorem events_apply_once_witness:
  "\<exists>report s' report2. applyEventLine ex_env (db_store (ex_db ex_req)) ex_line = Inr (report, s')
     \<and> applyEventLine ex_env s' ex_line = Inr (report2, s') \<and> tr_status report2 = ''already_applied'' \<and> tr_tx report2 = tr_tx report"
proof -
  obtain report s' where run: "applyEventLine ex_env (db_store (ex_db ex_req)) ex_line = Inr (report, s')"
    using ex_line_applied by blast
  have "tables_ok (st_tables (db_store (ex_db ex_req)))" "system_named (st_tables (db_store (ex_db ex_req)))"
    using ex_ok(2) ex_named by (simp_all add: ex_db_def)
  from events_apply_once [OF run this, of ex_env] run show ?thesis by blast
qed

end
