(* ===== verification/JsonRoundTrip.thy ===== *)
theory JsonRoundTrip
  imports JsonFacts
begin

text \<open>
  The canonical writer and the decoder are inverse to each other on the values that events are made of: strings with
  their escapes, integers, and lists and maps of them. The decoder is followed on a printed value with any text after
  it, so that the lemmas compose; its fuel, twice the length of the text, is enough.
\<close>

subsection \<open>Strings\<close>

lemma escape_cases:
  obtains (plain) "escape_byte c = [c]" "byte_of c \<ge> 32" "byte_of c \<noteq> 34" "byte_of c \<noteq> 92"
  | (simple) e where "escape_byte c = [CHR 0x5C, e]" "simple_escape e = Some c" "e \<noteq> CHR ''u''" "byte_of c < 128" "byte_of e < 128"
  | (hex) "escape_byte c = [CHR 0x5C, CHR ''u'', CHR ''0'', CHR ''0'', digit (byte_of c div 16), digit (byte_of c mod 16)]" "byte_of c < 32"
proof -
  have byte_eq: "byte_of c = byte_of d \<Longrightarrow> c = d" for d by (metis char_of_byte_of)
  consider "byte_of c = 34" | "byte_of c = 92" | "byte_of c = 8" | "byte_of c = 12" | "byte_of c = 10" | "byte_of c = 13"
    | "byte_of c = 9" | "byte_of c < 32" "byte_of c \<notin> {8, 12, 10, 13, 9}" | "byte_of c \<ge> 32" "byte_of c \<noteq> 34" "byte_of c \<noteq> 92"
    by fastforce
  then show ?thesis
  proof cases
    case 1
    then have "c = CHR 0x22" by (intro byte_eq) (simp add: byte_of_def)
    then show ?thesis by (intro simple [of "CHR 0x22"]) (simp_all add: escape_byte_def simple_escape_def byte_of_def)
  next
    case 2
    then have "c = CHR 0x5C" by (intro byte_eq) (simp add: byte_of_def)
    then show ?thesis by (intro simple [of "CHR 0x5C"]) (simp_all add: escape_byte_def simple_escape_def byte_of_def)
  next
    case 3
    then have "c = CHR 0x08" by (intro byte_eq) (simp add: byte_of_def)
    then show ?thesis by (intro simple [of "CHR ''b''"]) (simp_all add: escape_byte_def simple_escape_def byte_of_def)
  next
    case 4
    then have "c = CHR 0x0C" by (intro byte_eq) (simp add: byte_of_def)
    then show ?thesis by (intro simple [of "CHR ''f''"]) (simp_all add: escape_byte_def simple_escape_def byte_of_def)
  next
    case 5
    then have "c = CHR 0x0A" by (intro byte_eq) (simp add: byte_of_def)
    then show ?thesis by (intro simple [of "CHR ''n''"]) (simp_all add: escape_byte_def simple_escape_def byte_of_def)
  next
    case 6
    then have "c = CHR 0x0D" by (intro byte_eq) (simp add: byte_of_def)
    then show ?thesis by (intro simple [of "CHR ''r''"]) (simp_all add: escape_byte_def simple_escape_def byte_of_def)
  next
    case 7
    then have "c = CHR 0x09" by (intro byte_eq) (simp add: byte_of_def)
    then show ?thesis by (intro simple [of "CHR ''t''"]) (simp_all add: escape_byte_def simple_escape_def byte_of_def)
  next
    case 8
    then show ?thesis by (intro hex) (simp_all add: escape_byte_def Let_def)
  next
    case 9
    then show ?thesis by (intro plain) (simp_all add: escape_byte_def Let_def)
  qed
qed

lemma hex_escape: "b < 256 \<Longrightarrow> jsonHexEscape (CHR ''0'' # CHR ''0'' # digit (b div 16) # digit (b mod 16) # r) = Some b"
proof -
  assume "b < 256"
  then have "b div 16 < 16" by linarith
  moreover have "hex_val (CHR ''0'') = Some 0" by (simp add: hex_val_def byte_of_def)
  ultimately show ?thesis by simp
qed

lemma scan_written: "scan_string (concat (map escape_byte s) @ CHR 0x22 # r) = Some (s, r)"
proof (induction s)
  case Nil
  show ?case by (simp add: byte_of_def)
next
  case (Cons c s)
  have b: "byte_of (CHR 0x5C) = 92" by (simp add: byte_of_def)
  show ?case
  proof (cases c rule: escape_cases)
    case plain
    then show ?thesis using Cons by (simp add: push_text_def)
  next
    case (simple e)
    then show ?thesis using Cons by (simp add: push_text_def b)
  next
    case hex
    then show ?thesis using Cons by (simp add: push_text_def b simple_escape_def hex_escape utf8_encode_def del: jsonHexEscape.simps)
  qed
qed

lemma escapes_written: "validateJSONUnicodeEscapes True (concat (map escape_byte s) @ CHR 0x22 # r) = validateJSONUnicodeEscapes False r"
proof (induction s)
  case Nil
  show ?case by (simp add: byte_of_def)
next
  case (Cons c s)
  have b: "byte_of (CHR 0x5C) = 92" by (simp add: byte_of_def)
  show ?case
  proof (cases c rule: escape_cases)
    case plain
    then show ?thesis using Cons by simp
  next
    case (simple e)
    then show ?thesis using Cons by (simp add: b)
  next
    case hex
    then show ?thesis using Cons by (simp add: b hex_escape del: jsonHexEscape.simps)
  qed
qed

lemma utf8_append: "utf8_runes xs = Some a \<Longrightarrow> utf8_runes (xs @ ys) = map_option (\<lambda>b. a @ b) (utf8_runes ys)"
proof (induction xs arbitrary: a rule: utf8_runes.induct)
  case 1
  then show ?case by (cases "utf8_runes ys") auto
next
  case (2 b0 bs)
  have cons: "(@) (x # z) = (\<lambda>b. x # z @ b)" for x and z :: "nat list" by auto
  from 2 show ?case by (auto simp: comp_def option.map_comp cons split: if_split_asm list.split_asm)
qed

lemma ValidString_append: "ValidString s \<Longrightarrow> ValidString t \<Longrightarrow> ValidString (s @ t)"
  using utf8_append by (fastforce simp: ValidString_def runes_def)

lemma escape_ascii: "byte_of c < 128 \<Longrightarrow> \<forall>x \<in> set (escape_byte c). byte_of x < 128"
proof (cases c rule: escape_cases)
  case hex
  have "byte_of (digit n) < 128" if "n < 16" for n using that by (simp add: digit_def byte_of_char_of)
  then show ?thesis using hex by (simp add: byte_of_def)
qed (auto simp: byte_of_def)

lemma escape_high: "byte_of c \<ge> 128 \<Longrightarrow> escape_byte c = [c]"
  by (cases c rule: escape_cases) auto

lemma valid_escapes:
  "utf8_runes (map byte_of s) \<noteq> None \<Longrightarrow> utf8_runes (map byte_of (concat (map escape_byte s))) \<noteq> None"
proof (induction "map byte_of s" arbitrary: s rule: utf8_runes.induct)
  case (2 b0 bs)
  obtain c t where s: "s = c # t" "byte_of c = b0" "bs = map byte_of t" using 2(5) by (cases s) auto
  show ?case
  proof (cases "b0 < 128")
    case True
    then have "utf8_runes (map byte_of t) \<noteq> None" using 2(6) s by auto
    then have "utf8_runes (map byte_of (concat (map escape_byte t))) \<noteq> None" using 2(1) [OF True s(3)] by blast
    moreover have "\<forall>x \<in> set (map byte_of (escape_byte c)). x < 128" using escape_ascii s(2) True by auto
    ultimately show ?thesis using utf8_append [OF utf8_runes_ascii] by (auto simp: s(1))
  next
    case False
    then show ?thesis using 2 s
      by (auto simp: escape_high utf8_cont_def split: if_split_asm list.split_asm)
  qed
qed simp

lemma ValidString_written: "ValidString s \<Longrightarrow> ValidString (writeCanonicalString s)"
  unfolding writeCanonicalString_def
  using ValidString_ascii [of "[CHR 0x22]"] valid_escapes [of s]
  by (intro ValidString_append) (simp_all add: byte_of_def [of "CHR 0x22"] ValidString_def runes_def)

subsection \<open>Numbers\<close>

text \<open>What may follow a number.\<close>

definition stops :: "string \<Rightarrow> bool" where
  "stops r \<longleftrightarrow> (case r of [] \<Rightarrow> True | c # _ \<Rightarrow> \<not> is_digit c \<and> c \<noteq> CHR ''.'' \<and> c \<noteq> CHR ''e'' \<and> c \<noteq> CHR ''E'')"

lemma scan_digits_all: "ds \<noteq> [] \<Longrightarrow> \<forall>c \<in> set ds. is_digit c \<Longrightarrow> stops r \<Longrightarrow> scan_digits (ds @ r) = Some (ds, r)"
  by (cases r) (auto simp: scan_digits_def stops_def takeWhile_append2 dropWhile_append2 takeWhile_eq_all_conv [THEN iffD2] dropWhile_eq_Nil_conv [THEN iffD2] Let_def)

lemma dec_digits_zero: "hd (dec_digits n) = CHR ''0'' \<Longrightarrow> n = 0"
proof (induction n rule: dec_digits.induct)
  case (1 n)
  show ?case
  proof (cases "n < 10")
    case True
    then show ?thesis using 1(2) digit_val_digit [of n] by (simp add: dec_digits.simps [of n] digit_val_def byte_of_def)
  next
    case False
    then show ?thesis using 1 by (simp add: dec_digits.simps [of n])
  qed
qed

lemma scan_int_part_digits: "stops r \<Longrightarrow> scan_int_part (dec_digits n @ r) = Some (dec_digits n, r)"
proof -
  assume stop: "stops r"
  obtain c cs where ds: "dec_digits n = c # cs" using dec_digits_nonempty [of n] by (cases "dec_digits n") auto
  have zero: "n = 0 \<and> cs = []" if "c = CHR ''0''"
    using that ds dec_digits_zero [of n] by (auto simp: dec_digits.simps [of 0])
  have "scan_digits (dec_digits n @ r) = Some (dec_digits n, r)"
    by (rule scan_digits_all) (use stop dec_digits_all_digits in auto)
  then show ?thesis using zero by (auto simp: scan_int_part_def ds)
qed

lemma scan_number_written: "stops r \<Longrightarrow> scan_number (FormatInt i @ r) = Some (FormatInt i, r)"
proof -
  assume stop: "stops r"
  have frac: "scan_frac r = Some ([], r)" "scan_exp r = Some ([], r)"
    using stop by (auto simp: scan_frac_def scan_exp_def stops_def split: list.split)
  have "hd (dec_digits n @ r) \<noteq> CHR ''-''" for n
    using dec_digits_all_digits [of "hd (dec_digits n)" n] by (auto simp: is_digit_def byte_of_def)
  then show ?thesis
    using scan_int_part_digits [OF stop] frac by (auto simp: scan_number_def FormatInt_def)
qed

lemma dec_digits_plain: "c \<in> set (dec_digits n) \<Longrightarrow> c \<noteq> CHR ''-'' \<and> c \<noteq> CHR ''.'' \<and> c \<noteq> CHR ''e'' \<and> c \<noteq> CHR ''E''"
  using dec_digits_all_digits [of c n] by (auto simp: is_digit_def byte_of_def)

lemma decode_number_written: "in_int64 i \<Longrightarrow> decode_number b (FormatInt i) = Inr (AInt64 i)"
proof -
  assume i: "in_int64 i"
  have dig: "hd (dec_digits n) \<noteq> CHR ''-''" "\<not> list_ex (\<lambda>c. c = CHR ''.'' \<or> c = CHR ''e'' \<or> c = CHR ''E'') (dec_digits n)" for n
    using dec_digits_plain [of _ n] hd_in_set [OF dec_digits_nonempty, of n] by (fastforce simp: list_ex_iff)+
  then have "parse_int (FormatInt i) = i" "integral_text (FormatInt i)"
    by (auto simp: parse_int_def FormatInt_def integral_text_def)
  then show ?thesis using i by (simp add: decode_number_def)
qed

lemma FormatInt_first: "\<exists>c cs. FormatInt i = c # cs \<and> 44 < byte_of c \<and> byte_of c < 58"
proof (cases "i < 0")
  case False
  obtain c cs where c: "dec_digits (nat i) = c # cs" using dec_digits_nonempty [of "nat i"] by (cases "dec_digits (nat i)") auto
  then show ?thesis using False dec_digits_all_digits [of c "nat i"] by (auto simp: FormatInt_def is_digit_def)
qed (simp add: FormatInt_def byte_of_def)

subsection \<open>Values\<close>

text \<open>What the decoder makes of a printed value: an object has its fields in the order of their names.\<close>

fun decoded :: "any \<Rightarrow> any" where
  "decoded (ANum k i) = AInt64 i"
| "decoded (AList xs) = AList (map decoded xs)"
| "decoded (AMap m) = AObject (sort_key fst (map (\<lambda>p. (fst p, decoded (snd p))) m))"
| "decoded v = v"

abbreviation strict :: "bool \<Rightarrow> nat \<Rightarrow> jconfig" where
  "strict b maxDepth \<equiv> \<lparr>jc_strict = True, jc_maxDepth = maxDepth, jc_number = decode_number b\<rparr>"

lemma skip_ws_char: "byte_of c > 32 \<Longrightarrow> skip_ws (c # r) = c # r"
  by (auto simp: skip_ws_def is_ws_def)

lemma json_text_first: "int_json v \<Longrightarrow> \<exists>c cs. json_text v = c # cs \<and> 32 < byte_of c \<and> c \<noteq> CHR '']'' \<and> c \<noteq> CHR ''}''"
proof (cases v)
  case (ANum k i)
  obtain c cs where "FormatInt i = c # cs" "44 < byte_of c" "byte_of c < 58" using FormatInt_first by blast
  then show ?thesis by (auto simp: ANum) (auto simp: byte_of_def)
qed (auto simp: writeCanonicalString_def byte_of_def)

text \<open>The punctuation around a printed value.\<close>

lemma stops_after: "stops (CHR '','' # r)" "stops (CHR '']'' # r)" "stops (CHR ''}'' # r)" "stops []"
  by (simp_all add: stops_def is_digit_def byte_of_def)

lemma json_items_decode:
  assumes "xs \<noteq> []" "2 * length (commas (map json_text xs)) + 2 \<le> n"
    and "\<And>x k r. x \<in> set xs \<Longrightarrow> 2 * length (json_text x) < k \<Longrightarrow> stops r
           \<Longrightarrow> json_decode (strict b maxDepth) k JValue depth (json_text x @ r) = Inr (decoded x, r)"
  shows "json_decode (strict b maxDepth) n (JItems acc) depth (commas (map json_text xs) @ CHR '']'' # r)
    = Inr (AList (acc @ map decoded xs), r)"
  using assms
proof (induction xs arbitrary: n acc)
  case (Cons x xs)
  obtain k where n: "n = Suc k" using Cons.prems(2) by (cases n) auto
  show ?case
  proof (cases xs)
    case Nil
    then show ?thesis using Cons.prems(2) Cons.prems(3) [of x k "CHR '']'' # r"]
      by (simp add: n json_items_def stops_after skip_ws_char byte_of_def)
  next
    case (Cons y ys)
    have x: "json_decode (strict b maxDepth) k JValue depth (json_text x @ CHR '','' # commas (map json_text xs) @ CHR '']'' # r)
        = Inr (decoded x, CHR '','' # commas (map json_text xs) @ CHR '']'' # r)"
      by (rule Cons.prems(3)) (use Cons.prems(2) in \<open>simp_all add: n Cons stops_after\<close>)
    have "json_decode (strict b maxDepth) k (JItems (acc @ [decoded x])) depth (commas (map json_text xs) @ CHR '']'' # r)
        = Inr (AList ((acc @ [decoded x]) @ map decoded xs), r)"
      by (rule Cons.IH) (use Cons.prems Cons in \<open>simp_all add: n\<close>)
    then show ?thesis using x by (simp add: n Cons json_items_def skip_ws_char byte_of_def)
  qed
qed simp

lemma json_members_decode:
  assumes "m \<noteq> []" "2 * length (commas (map (\<lambda>p. writeCanonicalString (fst p) @ '':'' @ json_text (snd p)) m)) + 2 \<le> n"
    and "distinct (map fst (acc @ m))"
    and "\<And>p k r. p \<in> set m \<Longrightarrow> 2 * length (json_text (snd p)) < k \<Longrightarrow> stops r
           \<Longrightarrow> json_decode (strict b maxDepth) k JValue depth (json_text (snd p) @ r) = Inr (decoded (snd p), r)"
  shows "json_decode (strict b maxDepth) n (JMembers (map (\<lambda>p. (fst p, decoded (snd p))) acc)) depth
      (commas (map (\<lambda>p. writeCanonicalString (fst p) @ '':'' @ json_text (snd p)) m) @ CHR ''}'' # r)
    = Inr (AObject (map (\<lambda>p. (fst p, decoded (snd p))) (acc @ m)), r)"
  using assms
proof (induction m arbitrary: n acc)
  case (Cons p m)
  let ?t = "\<lambda>p. writeCanonicalString (fst p) @ '':'' @ json_text (snd p)"
  obtain k where n: "n = Suc k" using Cons.prems(2) by (cases n) auto
  have new: "fst p \<notin> fst ` set acc" using Cons.prems(3) by auto
  have key: "json_key (writeCanonicalString (fst p) @ s) = Inr (fst p, s)" for s
    using scan_written [of "fst p" s] by (simp add: json_key_def writeCanonicalString_def skip_ws_char byte_of_def)
  show ?case
  proof (cases m)
    case Nil
    then show ?thesis using Cons.prems(2) Cons.prems(4) [of p k "CHR ''}'' # r"] new
      by (simp add: n json_members_def key stops_after skip_ws_char byte_of_def jc_object_def image_image)
  next
    case (Cons q qs)
    have x: "json_decode (strict b maxDepth) k JValue depth (json_text (snd p) @ CHR '','' # commas (map ?t m) @ CHR ''}'' # r)
        = Inr (decoded (snd p), CHR '','' # commas (map ?t m) @ CHR ''}'' # r)"
      by (rule Cons.prems(4)) (use Cons.prems(2) in \<open>simp_all add: n Cons stops_after\<close>)
    have "json_decode (strict b maxDepth) k (JMembers (map (\<lambda>p. (fst p, decoded (snd p))) (acc @ [p]))) depth (commas (map ?t m) @ CHR ''}'' # r)
        = Inr (AObject (map (\<lambda>p. (fst p, decoded (snd p))) ((acc @ [p]) @ m)), r)"
      by (rule Cons.IH) (use Cons.prems Cons in \<open>simp_all add: n\<close>)
    then show ?thesis using x new by (simp add: n Cons json_members_def key skip_ws_char byte_of_def image_image)
  qed
qed simp

lemma json_text_map:
  "json_text (AMap m) = ''{'' @ commas (map (\<lambda>p. writeCanonicalString (fst p) @ '':'' @ json_text (snd p)) (sort_key fst m)) @ ''}''"
  by (simp add: sort_key_map_fst comp_def)

lemma decoded_map: "decoded (AMap m) = AObject (map (\<lambda>p. (fst p, decoded (snd p))) (sort_key fst m))"
  by (simp add: sort_key_map_fst)

lemma commas_first:
  "ts \<noteq> [] \<Longrightarrow> hd ts = c # cs \<Longrightarrow> \<exists>rest. commas ts = c # rest"
  by (cases ts rule: commas.cases) auto

lemma json_decode_literal:
  assumes "0 < n"
  shows "json_decode (strict b maxDepth) n JValue depth (CHR ''t'' # CHR ''r'' # CHR ''u'' # CHR ''e'' # r) = Inr (ABool True, r)"
    "json_decode (strict b maxDepth) n JValue depth (CHR ''f'' # CHR ''a'' # CHR ''l'' # CHR ''s'' # CHR ''e'' # r) = Inr (ABool False, r)"
    "json_decode (strict b maxDepth) n JValue depth (CHR ''n'' # CHR ''u'' # CHR ''l'' # CHR ''l'' # r) = Inr (ANil, r)"
  using assms by (cases n; simp add: json_value_def skip_ws_char byte_of_def lit_def)+

lemma json_decode_text:
  assumes "int_json v" "wf_any v" "nesting v + depth \<le> maxDepth" "2 * length (json_text v) < n" "stops r"
  shows "json_decode (strict b maxDepth) n JValue depth (json_text v @ r) = Inr (decoded v, r)"
  using assms
proof (induction v arbitrary: n depth r rule: json_text.induct)
  case (2 s)
  then show ?case
    by (cases n) (simp_all add: json_value_def writeCanonicalString_def skip_ws_char byte_of_def scan_written)
next
  case (3 k i)
  obtain c cs where c: "FormatInt i = c # cs" "44 < byte_of c" "byte_of c < 58" using FormatInt_first by blast
  have "c \<noteq> CHR ''{''" "c \<noteq> CHR ''[''" "byte_of c \<noteq> 34" "c \<noteq> CHR ''t''" "c \<noteq> CHR ''f''" "c \<noteq> CHR ''n''"
    using c(2,3) by (auto simp: byte_of_def)
  then show ?case using 3 c scan_number_written [of r i] decode_number_written [of i b]
    by (cases n) (auto simp: json_value_def skip_ws_char)
next
  case (4 w)
  from 4(1) show ?case by (simp only: int_json.simps)
next
  case (5 xs)
  obtain k where n: "n = Suc k" using 5(5) by (cases n) auto
  show ?case
  proof (cases xs)
    case Nil
    then show ?thesis using 5(4) by (simp add: n json_value_def json_container_def skip_ws_char byte_of_def)
  next
    case (Cons x ys)
    obtain c cs where "json_text x = c # cs" "32 < byte_of c" "c \<noteq> CHR '']''"
      using json_text_first [of x] 5(2) Cons by auto
    then obtain rest where first: "commas (map json_text xs) = c # rest" "skip_ws (c # rest @ CHR '']'' # r) = c # rest @ CHR '']'' # r"
      "c \<noteq> CHR '']''" using commas_first [of "map json_text xs"] Cons skip_ws_char by fastforce
    have "json_decode (strict b maxDepth) k (JItems []) (depth + 1) (commas (map json_text xs) @ CHR '']'' # r)
        = Inr (AList ([] @ map decoded xs), r)"
    proof (rule json_items_decode)
      show "2 * length (commas (map json_text xs)) + 2 \<le> k" using 5(5) by (simp add: n)
      fix x k r
      assume x: "x \<in> set xs" and k: "2 * length (json_text x) < k" "stops r"
      have "nesting x + (depth + 1) \<le> maxDepth" using nesting_child(1) [OF x] 5(4) by linarith
      then show "json_decode (strict b maxDepth) k JValue (depth + 1) (json_text x @ r) = Inr (decoded x, r)"
        using 5(1) [OF x _ _ _ k] 5(2,3) x by (simp add: list_all_iff)
    qed (simp add: Cons)
    then show ?thesis using 5(4) first by (simp add: n json_value_def json_container_def skip_ws_char byte_of_def)
  qed
next
  case (6 m)
  let ?t = "\<lambda>p. writeCanonicalString (fst p) @ '':'' @ json_text (snd p)" and ?m = "sort_key fst m"
  obtain k where n: "n = Suc k" using 6(5) by (cases n) auto
  show ?case
  proof (cases "m = []")
    case True
    then show ?thesis using 6(4) by (simp add: n json_value_def json_container_def skip_ws_char byte_of_def jc_object_def)
  next
    case False
    then obtain q qs where q: "?m = q # qs" by (metis list.exhaust length_0_conv length_sort)
    then obtain rest where first: "commas (map ?t ?m) = CHR 0x22 # rest"
      using commas_first [of "map ?t ?m" "CHR 0x22"] by (auto simp: writeCanonicalString_def)
    have "json_decode (strict b maxDepth) k (JMembers (map (\<lambda>p. (fst p, decoded (snd p))) [])) (depth + 1) (commas (map ?t ?m) @ CHR ''}'' # r)
        = Inr (AObject (map (\<lambda>p. (fst p, decoded (snd p))) ([] @ ?m)), r)"
    proof (rule json_members_decode)
      show "distinct (map fst ([] @ ?m))" using 6(3) by (simp add: distinct_map) 
      show "2 * length (commas (map ?t ?m)) + 2 \<le> k" using 6(5) unfolding json_text_map by (simp add: n)
      fix p k r
      assume "p \<in> set ?m" and k: "2 * length (json_text (snd p)) < k" "stops r"
      then have p: "p \<in> set m" by simp
      have "nesting (snd p) + (depth + 1) \<le> maxDepth" using nesting_child(2) [OF p] 6(4) by linarith
      then show "json_decode (strict b maxDepth) k JValue (depth + 1) (json_text (snd p) @ r) = Inr (decoded (snd p), r)"
        using 6(1) [OF p _ _ _ k] 6(2,3) p by (simp add: list_all_iff)
    qed (simp add: q)
    then show ?thesis using 6(4) first unfolding json_text_map decoded_map
      by (simp add: n json_value_def json_container_def skip_ws_char byte_of_def)
  qed
qed (simp_all add: json_decode_literal)

lemma valid_commas: "\<forall>t \<in> set ts. ValidString t \<Longrightarrow> ValidString (commas ts)"
proof (induction ts rule: commas.induct)
  case (3 s t ts)
  then show ?case using ValidString_ascii [of "'',''"] by (auto simp: byte_of_def intro!: ValidString_append [of _ "'','' @ _", simplified] ValidString_append [of "'',''", simplified])
qed (simp_all add: ValidString_ascii)

lemma valid_json_text: "int_json v \<Longrightarrow> ValidString (json_text v)"
proof (induction v rule: json_text.induct)
  case (3 k i)
  have "byte_of c < 128" if "c \<in> set (FormatInt i)" for c
    using that dec_digits_all_digits by (fastforce simp: FormatInt_def is_digit_def byte_of_def split: if_split_asm)
  then show ?case by (simp add: ValidString_ascii)
next
  case (4 w)
  then show ?case by (simp only: int_json.simps)
next
  case (5 xs)
  then have "ValidString (commas (map json_text xs))" by (intro valid_commas) (auto simp: list_all_iff)
  then show ?case using ValidString_append [of "''[''"] ValidString_append [of _ "'']''"] by (simp add: ValidString_ascii byte_of_def)
next
  case (6 m)
  have "ValidString (writeCanonicalString (fst p) @ '':'' @ json_text (snd p))" if "p \<in> set m" for p
    by (intro ValidString_append ValidString_written) (use 6 that in \<open>auto simp: list_all_iff ValidString_ascii byte_of_def\<close>)
  then have "ValidString (commas (map (\<lambda>p. writeCanonicalString (fst p) @ '':'' @ json_text (snd p)) (sort_key fst m)))"
    by (intro valid_commas) auto
  then show ?case unfolding json_text_map
    using ValidString_append [of "''{''"] ValidString_append [of _ "''}''"] by (simp add: ValidString_ascii byte_of_def)
qed (auto simp: ValidString_ascii ValidString_written byte_of_def)

lemma escapes_plain: "\<forall>c \<in> set s. byte_of c \<noteq> 34 \<and> byte_of c \<noteq> 92 \<Longrightarrow> validateJSONUnicodeEscapes b (s @ r) = validateJSONUnicodeEscapes b r"
  by (induction s) auto

lemma escapes_string: "validateJSONUnicodeEscapes False (writeCanonicalString s @ r) = validateJSONUnicodeEscapes False r"
  using escapes_written [of s r] by (simp add: writeCanonicalString_def byte_of_def)

lemma escapes_commas:
  "(\<And>t r. t \<in> set ts \<Longrightarrow> validateJSONUnicodeEscapes False (t @ r) = validateJSONUnicodeEscapes False r)
   \<Longrightarrow> validateJSONUnicodeEscapes False (commas ts @ r) = validateJSONUnicodeEscapes False r"
  using escapes_plain [of "'',''" False] by (induction ts rule: commas.induct) (auto simp: byte_of_def)

lemma escapes_json_text: "int_json v \<Longrightarrow> validateJSONUnicodeEscapes False (json_text v @ r) = validateJSONUnicodeEscapes False r"
proof (induction v arbitrary: r rule: json_text.induct)
  case (3 k i)
  have "byte_of c \<noteq> 34 \<and> byte_of c \<noteq> 92" if "c \<in> set (FormatInt i)" for c
    using that dec_digits_all_digits by (fastforce simp: FormatInt_def is_digit_def byte_of_def split: if_split_asm)
  then show ?case by (simp add: escapes_plain)
next
  case (4 w)
  then show ?case by (simp only: int_json.simps)
next
  case (5 xs)
  then have "validateJSONUnicodeEscapes False (commas (map json_text xs) @ s) = validateJSONUnicodeEscapes False s" for s
    by (intro escapes_commas) (auto simp: list_all_iff)
  then show ?case by (simp add: byte_of_def)
next
  case (6 m)
  have "validateJSONUnicodeEscapes False ((writeCanonicalString (fst p) @ '':'' @ json_text (snd p)) @ s) = validateJSONUnicodeEscapes False s"
    if "p \<in> set m" for p s using 6 that by (simp add: list_all_iff escapes_string) (simp add: byte_of_def)
  then have "validateJSONUnicodeEscapes False
      (commas (map (\<lambda>p. writeCanonicalString (fst p) @ '':'' @ json_text (snd p)) (sort_key fst m)) @ s) = validateJSONUnicodeEscapes False s" for s
    by (intro escapes_commas) auto
  then show ?case unfolding json_text_map by (simp add: byte_of_def)
qed (simp_all add: escapes_string byte_of_def)

lemma decode_json_text:
  assumes "int_json v" "wf_any v" "nesting v \<le> maxDepth"
  shows "decodeJSON (json_text v) b maxDepth = Inr (decoded v)"
  using json_decode_text [OF assms(1,2), of 0 maxDepth "2 * length (json_text v) + 2" "[]" b]
    valid_json_text [OF assms(1)] escapes_json_text [OF assms(1), of "[]"] assms(3)
  by (simp add: decodeJSON_def json_run_def stops_after skip_ws_def)

text \<open>A printed value is one line.\<close>

lemma written_one_line: "CHR 0x0A \<notin> set (writeCanonicalString s)"
proof -
  have dig: "digit n \<noteq> CHR 0x0A" if "n < 16" for n
  proof
    assume "digit n = CHR 0x0A"
    then have "byte_of (digit n) = 10" by (simp add: byte_of_def)
    then show False using that by (simp add: digit_def byte_of_char_of split: if_split_asm)
  qed
  have "CHR 0x0A \<notin> set (escape_byte c)" for c
  proof (cases c rule: escape_cases)
    case plain
    then show ?thesis by (auto simp: byte_of_def)
  next
    case (simple e)
    then show ?thesis by (auto simp: simple_escape_def)
  next
    case hex
    then show ?thesis using dig [of "byte_of c div 16"] dig [of "byte_of c mod 16"] by auto
  qed
  then show ?thesis by (auto simp: writeCanonicalString_def)
qed

lemma commas_one_line: "\<forall>t \<in> set ts. CHR 0x0A \<notin> set t \<Longrightarrow> CHR 0x0A \<notin> set (commas ts)"
  by (induction ts rule: commas.induct) auto

lemma json_text_one_line: "int_json v \<Longrightarrow> CHR 0x0A \<notin> set (json_text v)"
proof (induction v rule: json_text.induct)
  case (3 k i)
  then show ?case using dec_digits_all_digits [of "CHR 0x0A"] by (auto simp: FormatInt_def is_digit_def byte_of_def)
next
  case (4 w)
  then show ?case by (simp only: int_json.simps)
next
  case (5 xs)
  then have "CHR 0x0A \<notin> set (commas (map json_text xs))" by (intro commas_one_line) (auto simp: list_all_iff)
  then show ?case by simp
next
  case (6 m)
  then have "CHR 0x0A \<notin> set (commas (map (\<lambda>p. writeCanonicalString (fst p) @ '':'' @ json_text (snd p)) (sort_key fst m)))"
    by (intro commas_one_line) (auto simp: list_all_iff written_one_line)
  then show ?case unfolding json_text_map by simp
qed (auto simp: written_one_line)

subsection \<open>Printing what was decoded\<close>

text \<open>The plain value of a decoded one: the fields of its maps are sorted.\<close>

fun normal :: "any \<Rightarrow> any" where
  "normal (ANum k i) = AInt64 i"
| "normal (AList xs) = AList (map normal xs)"
| "normal (AMap m) = AMap (sort_key fst (map (\<lambda>p. (fst p, normal (snd p))) m))"
| "normal v = v"

lemma put_all_append: "distinct (map fst (m @ kvs)) \<Longrightarrow> put_all kvs m = m @ kvs"
proof (induction kvs arbitrary: m)
  case (Cons kv kvs)
  then have "map_of m (fst kv) = None" by (auto simp: map_of_eq_None_iff)
  then show ?case using Cons by (cases kv) (simp add: put_all_def update_append_new)
qed (simp add: put_all_def)

lemma put_all_distinct: "distinct (map fst kvs) \<Longrightarrow> put_all kvs [] = kvs"
  using put_all_append [of "[]" kvs] by simp

lemma res_map_map: "res_map f (map g xs) = res_map (\<lambda>x. f (g x)) xs"
  by (induction xs) simp_all

lemma normal_map: "normal (AMap m) = AMap (map (\<lambda>p. (fst p, normal (snd p))) (sort_key fst m))"
  by (simp add: sort_key_map_fst)

lemma plain_decoded:
  "int_json v \<Longrightarrow> wf_any v \<Longrightarrow> nesting v + d \<le> n \<Longrightarrow> plainJSONDepth (decoded v) d n = Inr (normal v)"
proof (induction v arbitrary: d rule: json_text.induct)
  case (5 xs)
  have "plainJSONDepth (decoded x) (d + 1) n = Inr (normal x)" if "x \<in> set xs" for x
    using 5(1) [OF that, of "d + 1"] nesting_child(1) [OF that] 5(2-4) that by (simp add: list_all_iff)
  then have "res_map (\<lambda>x. plainJSONDepth x (d + 1) n) (map decoded xs) = Inr (map normal xs)"
    unfolding res_map_map by (rule res_map_total)
  then show ?case using 5(4) by simp
next
  case (6 m)
  let ?m = "sort_key fst m"
  have "plainJSONDepth (decoded (snd p)) (d + 1) n = Inr (normal (snd p))" if "p \<in> set m" for p
    using 6(1) [OF that, of "d + 1"] nesting_child(2) [OF that] 6(2-4) that by (simp add: list_all_iff)
  then have "res_map (\<lambda>p. res_bind (plainJSONDepth (snd p) (d + 1) n) (\<lambda>v. Inr (fst p, v))) (map (\<lambda>p. (fst p, decoded (snd p))) ?m)
      = Inr (map (\<lambda>p. (fst p, normal (snd p))) ?m)"
    unfolding res_map_map by (intro res_map_total) simp
  moreover have "put_all (map (\<lambda>p. (fst p, normal (snd p))) ?m) [] = map (\<lambda>p. (fst p, normal (snd p))) ?m"
    using 6(3) by (intro put_all_distinct) (simp add: comp_def distinct_map)
  ultimately show ?case using 6(4) unfolding decoded_map normal_map by simp
qed auto

lemma normal_printed:
  "int_json v \<Longrightarrow> int_json (normal v) \<and> json_text (normal v) = json_text v \<and> nesting (normal v) = nesting v"
proof (induction v rule: json_text.induct)
  case (4 w)
  then show ?case by (simp only: int_json.simps)
next
  case (5 xs)
  then have "map json_text (map normal xs) = map json_text xs" "map nesting (map normal xs) = map nesting xs" "list_all int_json (map normal xs)"
    by (auto simp: list_all_iff)
  then show ?case by (simp only: normal.simps int_json.simps json_text.simps nesting.simps simp_thms)
next
  case (6 m)
  let ?m = "sort_key fst m" and ?h = "\<lambda>p. (fst p, normal (snd p))"
  have same: "map (\<lambda>p. writeCanonicalString (fst p) @ '':'' @ json_text (snd p)) (map ?h ?m)
      = map (\<lambda>p. writeCanonicalString (fst p) @ '':'' @ json_text (snd p)) ?m"
    "set (map (\<lambda>p. nesting (snd p)) (map ?h ?m)) = set (map (\<lambda>p. nesting (snd p)) m)"
    "list_all (\<lambda>p. ValidString (fst p) \<and> int_json (snd p)) (map ?h ?m)"
    using 6 by (auto simp: list_all_iff image_image intro!: image_cong)
  have "sort_key fst (map ?h ?m) = map ?h ?m" by (intro sort_key_id_if_sorted) (simp add: comp_def)
  then show ?case
    by (simp only: normal_map json_text_map same nesting.simps int_json.simps simp_thms)
qed auto

lemma canonical_decoded:
  assumes "int_json v" "wf_any v" "nesting v \<le> MaxJSONDocumentDepth"
  shows "canonicalJSON (decoded v) = Inr (json_text v)"
proof -
  have "canonicalJSON (normal v) = Inr (json_text v)"
    using canonicalJSON_printable [of "normal v"] normal_printed [OF assms(1)] int_json_printable assms(3) by simp
  moreover have "plainJSONDepth (normal v) 0 MaxJSONDocumentDepth = Inr (normal v)"
    using plain_printable [of "normal v" 0 MaxJSONDocumentDepth] normal_printed [OF assms(1)] int_json_printable assms(3) by simp
  ultimately show ?thesis using plain_decoded [OF assms(1,2), of 0 MaxJSONDocumentDepth] assms(3)
    by (simp add: canonicalJSON_def)
qed

text \<open>
  C36. Canonical JSON reads back: the canonical text of a value of nil, booleans, integers, valid texts, lists and maps
  within the depth limit decodes to that value, with integers as 64-bit ones and the fields of an object in the order of
  their names, and what was decoded prints as the same text again.
\<close>

theorem canonical_json_reads_back:
  assumes "int_json v" "wf_any v" "nesting v \<le> MaxJSONDocumentDepth"
  shows "\<exists>text. canonicalJSON v = Inr text \<and> DecodeJSON text = Inr (decoded v) \<and> canonicalJSON (decoded v) = Inr text"
  using canonicalJSON_printable [OF int_json_printable [OF assms(1)] assms(3)] decode_json_text [OF assms] canonical_decoded [OF assms]
  by (simp add: DecodeJSON_def)

definition ex_json :: any where
  "ex_json = AMap [(''n'', AList [AInt64 (-5), ABool True, ANil]), (''a'', AStr [CHR ''x'', CHR 0x22, CHR 0x0A])]"

theorem canonical_json_reads_back_witness:
  "\<exists>text. canonicalJSON ex_json = Inr text \<and> DecodeJSON text
      = Inr (AObject [(''a'', AStr [CHR ''x'', CHR 0x22, CHR 0x0A]), (''n'', AList [AInt64 (-5), ABool True, ANil])])"
proof -
  have "int_json ex_json" "wf_any ex_json" "nesting ex_json \<le> MaxJSONDocumentDepth"
    "decoded ex_json = AObject [(''a'', AStr [CHR ''x'', CHR 0x22, CHR 0x0A]), (''n'', AList [AInt64 (-5), ABool True, ANil])]"
    by code_simp+
  then show ?thesis using canonical_json_reads_back [of ex_json] by auto
qed

end
