(* ===== verification/SnapshotSpec.thy ===== *)
theory SnapshotSpec
  imports SnapshotFacts JsonRoundTrip Examples
begin

text \<open>
  A new file, healthy in the eyes of the doctor, and the restoration of an empty snapshot into it: the witnesses of
  the properties of the doctor and of snapshots. Digests stay symbolic; the rest is evaluated.
\<close>

subsection \<open>A new file\<close>

definition ex_genesis_uuid :: string where
  "ex_genesis_uuid = [CHR 0x00, CHR 0x00, CHR 0x00, CHR 0x00, CHR 0x00, CHR 0x00, CHR 0x40, CHR 0x00,
     CHR 0x80, CHR 0x00, CHR 0x00, CHR 0x00, CHR 0x00, CHR 0x00, CHR 0x00, CHR 0x40]"

definition ex_genesis :: "string \<Rightarrow> string \<Rightarrow> tables" where
  "ex_genesis h data =
    \<lparr>tb_next_id = Some 65, tb_created_at = 0,
     tb_ids = map (\<lambda>i. \<lparr>id_id = int i, id_name = Some (systemNames ! i), id_gid = None, id_created = 64\<rparr>) [1..<19]
       @ [\<lparr>id_id = 64, id_name = None, id_gid = Some ex_genesis_uuid, id_created = 64\<rparr>],
     tb_events = [\<lparr>ev_tx = 64, ev_hash = h, ev_data = Some data, ev_op = None, ev_req = None\<rparr>],
     tb_facts = \<lparr>rf_id = 1, rf_e = 64, rf_a = 1, rf_v = SInt 0, rf_t = TagInstant, rf_tx = 64, rf_rx = None\<rparr>
       # map (\<lambda>(i, e, a, v, t). \<lparr>rf_id = i, rf_e = e, rf_a = a, rf_v = v, rf_t = t, rf_tx = 64, rf_rx = None\<rparr>) genesis_facts,
     tb_blobs = [],
     tb_fts = concat (map (\<lambda>(i, e, a, v, t). case v of SText s \<Rightarrow> [(i, s)] | _ \<Rightarrow> []) genesis_facts),
     tb_seq = 39\<rparr>"

definition ex_genesis_data :: string where
  "ex_genesis_data = json_text (genesisEventRecord 0)"

definition ex_new :: tables where
  "ex_new = ex_genesis (sha256 ex_genesis_data) ex_genesis_data"

lemma ex_genesis_record:
  "case objectMap (decoded (genesisEventRecord 0)) of
     None \<Rightarrow> False
   | Some rec \<Rightarrow> canonicalJSON (AMap rec) = Inr ex_genesis_data \<and> event_field rec ''fgraph'' = AStr ''event/1''
       \<and> event_field rec ''event'' = AStr genesisEventID \<and> event_field rec ''at'' = AInt64 0 \<and> event_field rec ''redacted'' \<noteq> ABool True"
  by code_simp

lemma ex_genesis_printable:
  "int_json (genesisEventRecord 0)" "wf_any (genesisEventRecord 0)" "nesting (genesisEventRecord 0) \<le> MaxJSONDocumentDepth"
  "json_bound (genesisEventRecord 0) \<le> maxPortableLineBytes"
  by (simp_all add: genesisEventRecord_def systemNames_def genesisEventID_def ValidString_def runes_def byte_of_def
      in_int64_def MinInt64_def MaxInt64_def MaxJSONDocumentDepth_def maxPortableLineBytes_def MaxValueBytes_def)

lemma ex_genesis_text: "DecodeJSON ex_genesis_data = Inr (decoded (genesisEventRecord 0))" "length ex_genesis_data \<le> maxPortableLineBytes"
  using decode_json_text [OF ex_genesis_printable(1-3)] length_json_text [OF ex_genesis_printable(1)] ex_genesis_printable(4)
  by (simp_all add: DecodeJSON_def ex_genesis_data_def)

lemma ex_genesis_decodes:
  obtains rec where "decodeStoredEventData ex_genesis_data (sha256 ex_genesis_data) = Inr rec"
    "event_field rec ''event'' = AStr genesisEventID" "event_field rec ''at'' = AInt64 0" "event_field rec ''redacted'' \<noteq> ABool True"
  using ex_genesis_record ex_genesis_text
  by (cases "objectMap (decoded (genesisEventRecord 0))") (auto simp: decodeStoredEventData_def)

text \<open>The checks of the doctor, one by one.\<close>

lemma ex_healthy_identifiers: "identifier_problems (ex_genesis h data) = []"
  by code_simp

lemma ex_healthy_values: "value_problems (ex_genesis h data) = []"
  by code_simp

lemma ex_healthy_receipt: "genesis_problems (ex_genesis h data) = []"
  by code_simp

lemma ex_healthy_constants: "countInvalidGenesisFacts (ex_genesis h data) = 0"
  by code_simp

lemma ex_healthy_registry: "missing_registry (ex_genesis h data) = 0"
  by code_simp

lemma ex_healthy_times: "list_all (\<lambda>r. \<not> invalid_registry_time (ex_genesis h data) r) (tb_ids (ex_genesis h data))"
  by code_simp

lemma ex_healthy_attributes: "list_all (\<lambda>f. registered (ex_genesis h data) (rf_a f)) (tb_facts (ex_genesis h data))"
  by code_simp

lemma ex_healthy_intervals: "list_all (\<lambda>f. \<not> invalid_interval f) (tb_facts (ex_genesis h data))"
  by code_simp

lemma ex_healthy_index: "readExpectedFTSRows (ex_genesis h data) = Inr (readFTSRows (ex_genesis h data))"
  by code_simp

lemmas ex_genesis_healthy =
  ex_healthy_identifiers ex_healthy_values ex_healthy_receipt ex_healthy_constants ex_healthy_registry
  ex_healthy_times ex_healthy_attributes ex_healthy_intervals ex_healthy_index

lemma ex_genesis_rows:
  "tb_events (ex_genesis h data) = [\<lparr>ev_tx = 64, ev_hash = h, ev_data = Some data, ev_op = None, ev_req = None\<rparr>]"
  "tb_blobs (ex_genesis h data) = []" "tb_next_id (ex_genesis h data) = Some 65" "tb_created_at (ex_genesis h data) = 0"
  by (simp_all add: ex_genesis_def)

lemma ex_genesis_find:
  "find_id 64 (ex_genesis h data) = Some \<lparr>id_id = 64, id_name = None, id_gid = Some ex_genesis_uuid, id_created = 64\<rparr>"
  "event_at (ex_genesis h data) 64 = Inr 0" "imported_at (ex_genesis h data) 64 = Inr None"
  by code_simp+

lemma ex_genesis_event: "\<not> invalid_event ex_new (hd (tb_events ex_new))"
  by (simp add: ex_new_def invalid_event_def ex_genesis_rows ex_genesis_find ex_genesis_text not_less) (simp add: ex_genesis_uuid_def)

definition ex_store_of :: "tables \<Rightarrow> (string \<times> int) list \<Rightarrow> (int \<times> string) list \<Rightarrow> (int \<times> string) list \<Rightarrow> int \<Rightarrow> store" where
  "ex_store_of tb ns is gs v =
    \<lparr>st_tables = tb, st_names = ns, st_idNames = is, st_gids = gs, st_dataVersion = v, st_version = 1, st_readOnly = False, st_closed = False\<rparr>"

lemma ex_genesis_schemas:
  "countGlobalSchemaProblems \<lparr>db_store = ex_store_of (ex_genesis h data) ns is gs v, db_asOf = None\<rparr> = 0"
  "countGlobalShapeViolations \<lparr>db_store = ex_store_of (ex_genesis h data) ns is gs v, db_asOf = None\<rparr> = 0"
  by code_simp+

lemma ex_genesis_inspected: "inspectEventHashes (ex_store_of ex_new ns is gs v) = (0, [])"
proof -
  obtain rec where rec: "decodeStoredEventData ex_genesis_data (sha256 ex_genesis_data) = Inr rec"
    "event_field rec ''event'' = AStr genesisEventID" "event_field rec ''at'' = AInt64 0" "event_field rec ''redacted'' \<noteq> ABool True"
    by (rule ex_genesis_decodes)
  have uuid: "formatUUID ex_genesis_uuid = genesisEventID" "length ex_genesis_uuid = 16" by code_simp+
  show ?thesis
    by (simp add: inspectEventHashes_def inspect_event_def inspect_payload_def ex_store_of_def ex_new_def ex_genesis_rows
        ex_genesis_find uuid rec reconstruct_event_def GenesisTx_def)
qed

definition ex_physical :: physical where
  "ex_physical = \<lparr>ph_integrity = [''ok''], ph_layout = Inr ()\<rparr>"

lemma ex_new_healthy:
  "\<exists>report. doctorReport ex_physical \<lparr>db_store = ex_store_of ex_new ns is gs v, db_asOf = None\<rparr> = Inr (report, []) \<and> dr_ok report"
proof -
  have tables: "db_tables \<lparr>db_store = ex_store_of ex_new ns is gs v, db_asOf = None\<rparr> = ex_new" by (simp add: ex_store_of_def)
  note healthy = ex_genesis_healthy [of "sha256 ex_genesis_data" ex_genesis_data, folded ex_new_def]
  have "registry_problems ex_new = []"
    using healthy ex_genesis_event by (simp add: registry_problems_def list_all_iff ex_new_def ex_genesis_rows)
  moreover have "tb_blobs ex_new = []" by (simp add: ex_new_def ex_genesis_rows)
  ultimately show ?thesis
    using healthy ex_genesis_schemas [of "sha256 ex_genesis_data" ex_genesis_data ns "is" gs v, folded ex_new_def]
    by (simp add: doctorReport_def Let_def tables ex_genesis_inspected list_all_iff integrity_problems_def ex_physical_def)
      (simp add: ex_store_of_def)
qed

lemma ex_genesis_sql:
  "ids_ok (ex_genesis h data)" "facts_ok (ex_genesis h data)" "list_all (\<lambda>r. id_id r \<le> MaxInt64) (tb_ids (ex_genesis h data))"
  by code_simp+

lemma ex_new_sql_ok: "sql_ok ex_new"
  using ex_genesis_sql [of "sha256 ex_genesis_data" ex_genesis_data, folded ex_new_def]
  by (simp add: sql_ok_def events_ok_def event_row_ok_def list_all_iff)
    (simp add: ex_new_def ex_genesis_rows)

theorem doctor_is_sound_witness:
  "\<exists>d report. db_tables d = ex_new \<and> doctorReport ex_physical d = Inr (report, []) \<and> dr_ok report
     \<and> counter_ok ex_new \<and> fts_ok ex_new \<and> blobs_ok {} ex_new \<and> txs_in (recorded ex_new) ex_new"
proof -
  let ?d = "\<lparr>db_store = ex_store_of ex_new [] [] [] 0, db_asOf = None\<rparr>"
  obtain report where run: "doctorReport ex_physical ?d = Inr (report, [])" "dr_ok report" using ex_new_healthy by blast
  have "db_tables ?d = ex_new" by (simp add: ex_store_of_def)
  then show ?thesis using doctor_is_sound [OF run] ex_new_sql_ok run by metis
qed

subsection \<open>An empty snapshot\<close>

definition ex_header :: any where
  "ex_header = AMap [(''basis'', AStr genesisEventID), (''created_at'', AInt64 0), (''fgraph'', AStr ''snapshot/1''),
     (''format'', AInt64 FormatVersion)]"

definition ex_footer :: any where
  "ex_footer = AMap [(''facts'', AInt64 0), (''fgraph'', AStr ''end''), (''receipts'', AInt64 0),
     (''sha256'', AStr (EncodeHex (sha256 (json_text ex_header @ [CHR 0x0A]))))]"

definition ex_stream :: reader where
  "ex_stream = \<lparr>rd_bytes = json_text ex_header @ CHR 0x0A # json_text ex_footer, rd_fails = False\<rparr>"

lemma hex_valid: "ValidString (EncodeHex s)"
proof (rule ValidString_ascii, rule ballI)
  fix c assume "c \<in> set (EncodeHex s)"
  then obtain n where "c = digit n" "n < 16" by (auto simp: EncodeHex_def hex_byte_def)
  then show "byte_of c < 128" by (simp add: hex_digit_byte)
qed

lemma ex_header_printable:
  "int_json ex_header" "wf_any ex_header" "nesting ex_header \<le> MaxJSONDocumentDepth" "json_bound ex_header \<le> maxPortableSnapshotLineBytes"
  by (simp_all add: ex_header_def genesisEventID_def ValidString_def runes_def byte_of_def FormatVersion_def
      in_int64_def MinInt64_def MaxInt64_def MaxJSONDocumentDepth_def maxPortableSnapshotLineBytes_def maxPortableLineBytes_def MaxValueBytes_def)

lemma ex_footer_printable:
  "int_json ex_footer" "wf_any ex_footer" "nesting ex_footer \<le> MaxJSONDocumentDepth" "json_bound ex_footer \<le> maxPortableSnapshotLineBytes"
  by (simp_all add: ex_footer_def hex_valid length_EncodeHex ValidString_ascii byte_of_def
      in_int64_def MinInt64_def MaxInt64_def MaxJSONDocumentDepth_def maxPortableSnapshotLineBytes_def maxPortableLineBytes_def MaxValueBytes_def)

lemma ex_decoded:
  "DecodeJSON (json_text ex_header) = Inr (decoded ex_header)" "DecodeJSON (json_text ex_footer) = Inr (decoded ex_footer)"
  using decode_json_text [OF ex_header_printable(1-3)] decode_json_text [OF ex_footer_printable(1-3)] by (simp_all add: DecodeJSON_def)

lemma ex_header_record:
  "case objectMap (decoded ex_header) of
     None \<Rightarrow> False
   | Some rec \<Rightarrow> canonicalJSON (AMap rec) = Inr (json_text ex_header) \<and> event_field rec ''fgraph'' \<noteq> AStr ''end''
       \<and> exactKeys rec [''fgraph'', ''format'', ''created_at'', ''basis''] \<and> event_field rec ''fgraph'' = AStr ''snapshot/1''
       \<and> event_field rec ''format'' = AInt64 FormatVersion \<and> event_field rec ''created_at'' = AInt64 0
       \<and> event_field rec ''basis'' = AStr genesisEventID"
  by code_simp

lemma ex_footer_record:
  "case objectMap (decoded (AMap [(''facts'', AInt64 0), (''fgraph'', AStr ''end''), (''receipts'', AInt64 0), (''sha256'', AStr t)])) of
     None \<Rightarrow> False
   | Some rec \<Rightarrow> exactKeys rec [''fgraph'', ''sha256'', ''receipts'', ''facts''] \<and> event_field rec ''fgraph'' = AStr ''end''
       \<and> event_field rec ''sha256'' = AStr t \<and> event_field rec ''receipts'' = AInt64 0 \<and> event_field rec ''facts'' = AInt64 0"
  by code_simp

lemma ex_restored_tables:
  "update_genesis_time 0 ((ex_genesis h data)\<lparr>tb_created_at := 0\<rparr>) = Inr (ex_genesis h data)"
  "length hash = 32 \<Longrightarrow> update_genesis_event text hash (ex_genesis h data) = Inr (ex_genesis hash text)"
  "basisOn (ex_genesis h data) = GenesisTx"
  "\<exists>known. newSnapshotRestoreState (ex_genesis h data)
     = Inr \<lparr>rs_identities = known, rs_events = [(genesisEventID, GenesisTx)], rs_receipts = [], rs_lastEvent = [],
           rs_next = FirstUserID, rs_receiptN = 0, rs_factN = 0, rs_phaseFacts = False\<rparr>"
  subgoal by code_simp
  subgoal by (simp add: update_genesis_event_def ex_genesis_def GenesisTx_def)
  subgoal by code_simp
  subgoal
  proof -
    have "case newSnapshotRestoreState (ex_genesis h data) of Inl _ \<Rightarrow> False | Inr _ \<Rightarrow> True" by code_simp
    then show ?thesis by (auto simp: newSnapshotRestoreState_def res_bind_def split: sum.split_asm)
  qed
  done


lemma object_not_blank: "\<not> blank (json_text (AMap m))"
  unfolding json_text_map
  by (simp add: blank_def text_runes_def byte_of_def range_runes.simps [of "123 # _"] decode_rune_def IsSpace_def)

lemma ex_not_blank: "\<not> blank (json_text ex_header)" "\<not> blank (json_text ex_footer)"
  by (simp_all only: ex_header_def ex_footer_def object_not_blank not_False_eq_True)

lemma one_line:
  assumes "int_json v" "json_bound v \<le> n"
  shows "readPortableLineLimit n \<lparr>rd_bytes = json_text v @ CHR 0x0A # rest, rd_fails = False\<rparr> = Inr (json_text v, False, \<lparr>rd_bytes = rest, rd_fails = False\<rparr>)"
    "readPortableLineLimit n \<lparr>rd_bytes = json_text v, rd_fails = False\<rparr> = Inr (json_text v, True, \<lparr>rd_bytes = [], rd_fails = False\<rparr>)"
proof -
  have ten: "char_of (10::nat) = CHR 0x0A" by code_simp
  have "byte_of c \<noteq> 10" if "c \<in> set (json_text v)" for c
  proof
    assume "byte_of c = 10"
    then have "c = CHR 0x0A" using char_of_byte_of [of c] by (simp only: ten)
    then show False using json_text_one_line [OF assms(1)] that by simp
  qed
  moreover have "byte_of (CHR 0x0A) = 10" by (simp add: byte_of_def)
  moreover have "length (json_text v) \<le> n" using length_json_text [OF assms(1)] assms(2) by simp
  ultimately show
    "readPortableLineLimit n \<lparr>rd_bytes = json_text v @ CHR 0x0A # rest, rd_fails = False\<rparr> = Inr (json_text v, False, \<lparr>rd_bytes = rest, rd_fails = False\<rparr>)"
    "readPortableLineLimit n \<lparr>rd_bytes = json_text v, rd_fails = False\<rparr> = Inr (json_text v, True, \<lparr>rd_bytes = [], rd_fails = False\<rparr>)"
    by (simp_all add: readPortableLineLimit_def takeWhile_append2 dropWhile_append2 takeWhile_eq_all_conv [THEN iffD2] dropWhile_eq_Nil_conv [THEN iffD2])
qed

lemma ex_header_line:
  assumes "rn_header rn = None" "\<not> rn_footer rn" "rn_tables rn = ex_new"
  shows "restore_line (json_text ex_header) rn
    = Inr (rn\<lparr>rn_hashed := rn_hashed rn @ json_text ex_header @ [CHR 0x0A], rn_header := Some genesisEventID\<rparr>)"
proof -
  obtain rec where rec: "objectMap (decoded ex_header) = Some rec" "canonicalJSON (AMap rec) = Inr (json_text ex_header)"
    "event_field rec ''fgraph'' \<noteq> AStr ''end''" "exactKeys rec [''fgraph'', ''format'', ''created_at'', ''basis'']"
    "event_field rec ''fgraph'' = AStr ''snapshot/1''" "event_field rec ''format'' = AInt64 FormatVersion"
    "event_field rec ''created_at'' = AInt64 0" "event_field rec ''basis'' = AStr genesisEventID"
    using ex_header_record by (auto split: option.split_asm)
  have now: "validateInstantMicros 0 = Inr ()" by (simp add: validateInstantMicros_def minInstantMicros_def maxInstantMicros_def)
  have "restoreSnapshotHeader ex_new rec = Inr (genesisEventID, ex_new)"
    using rec(4-) now genesis_uuid genesis_data [OF now, folded ex_genesis_data_def]
    by (simp add: restoreSnapshotHeader_def ex_new_def ex_restored_tables res_wrap_def)
  then show ?thesis
    using assms rec by (simp add: restore_line_def ex_decoded restore_body_def res_wrap_def)
qed

lemma ex_footer_line:
  assumes "rn_header rn \<noteq> None" "\<not> rn_footer rn" "rn_hashed rn = json_text ex_header @ [CHR 0x0A]"
    "rs_receiptN (rn_state rn) = 0" "rs_factN (rn_state rn) = 0"
  shows "restore_line (json_text ex_footer) rn = Inr (rn\<lparr>rn_footer := True\<rparr>)"
proof -
  let ?t = "EncodeHex (sha256 (json_text ex_header @ [CHR 0x0A]))"
  obtain rec where rec: "objectMap (decoded ex_footer) = Some rec" "exactKeys rec [''fgraph'', ''sha256'', ''receipts'', ''facts'']"
    "event_field rec ''fgraph'' = AStr ''end''" "event_field rec ''sha256'' = AStr ?t"
    "event_field rec ''receipts'' = AInt64 0" "event_field rec ''facts'' = AInt64 0"
    using ex_footer_record [of ?t, folded ex_footer_def] by (auto split: option.split_asm)
  have "\<not> has_upper ?t" using EncodeHex_chars by (auto simp: has_upper_def list_ex_iff)
  then have "decodeLowerHex (AStr ?t) 32 = Inr (sha256 (json_text ex_header @ [CHR 0x0A]))"
    by (simp add: decodeLowerHex_def length_EncodeHex)
  then show ?thesis
    using assms rec by (simp add: restore_line_def ex_decoded validateSnapshotFooter_def res_wrap_def)
qed

lemma ex_restored: "fst (Restore ex_physical \<lparr>db_store = ex_store_of ex_new [] [] [] 0, db_asOf = None\<rparr> (Some ex_stream)) = Inr ()"
proof -
  let ?d = "\<lparr>db_store = ex_store_of ex_new [] [] [] 0, db_asOf = None\<rparr>"
  have tb: "db_tables ?d = ex_new" by (simp add: ex_store_of_def)
  obtain known where start: "newSnapshotRestoreState ex_new
      = Inr \<lparr>rs_identities = known, rs_events = [(genesisEventID, GenesisTx)], rs_receipts = [], rs_lastEvent = [],
           rs_next = FirstUserID, rs_receiptN = 0, rs_factN = 0, rs_phaseFacts = False\<rparr>"
    using ex_restored_tables(4) [of "sha256 ex_genesis_data" ex_genesis_data, folded ex_new_def] by blast
  let ?rs = "\<lparr>rs_identities = known, rs_events = [(genesisEventID, GenesisTx)], rs_receipts = [], rs_lastEvent = [],
           rs_next = FirstUserID, rs_receiptN = 0, rs_factN = 0, rs_phaseFacts = False\<rparr>"
  let ?rn = "\<lparr>rn_state = ?rs, rn_tables = ex_new, rn_hashed = json_text ex_header @ [CHR 0x0A],
      rn_header = Some genesisEventID, rn_footer = True\<rparr>"
  have lines: "each_line maxPortableSnapshotLineBytes restore_line ex_stream
      \<lparr>rn_state = ?rs, rn_tables = ex_new, rn_hashed = [], rn_header = None, rn_footer = False\<rparr> = Inr ?rn"
    using ex_header_printable ex_footer_printable
    by (simp add: ex_stream_def each_line.simps one_line ex_header_line ex_footer_line ex_not_blank)
  have next_id: "ex_new\<lparr>tb_next_id := map_option (\<lambda>_. FirstUserID) (tb_next_id ex_new)\<rparr> = ex_new"
    by (simp add: ex_new_def ex_genesis_def FirstUserID_def)
  obtain s where s: "refreshNames ((ex_store_of ex_new [] [] [] 0)\<lparr>st_tables := ex_new, st_dataVersion := -1\<rparr>) = Inr s"
    using refreshNames_total [of "(ex_store_of ex_new [] [] [] 0)\<lparr>st_tables := ex_new, st_dataVersion := -1\<rparr>"] ex_new_sql_ok
    by (auto simp: sql_ok_def)
  have "s = ex_store_of ex_new (st_names s) (st_idNames s) (st_gids s) (st_dataVersion s)"
    using s by (auto simp: refreshNames_def ex_store_of_def split: if_split_asm)
  then obtain report where "doctorReport ex_physical \<lparr>db_store = s, db_asOf = None\<rparr> = Inr (report, [])" "dr_ok report"
    using ex_new_healthy by metis
  then have "restore_checked ex_physical ?d ?rn = Inr ((), s)"
    using s by (simp add: restore_checked_def Let_def next_id validateRestoredReceiptTimes_def)
  then have "restoreSnapshotStream ex_physical ?d ex_stream = Inr ((), s)"
    using lines start by (simp add: restoreSnapshotStream_def ex_store_of_def)
  moreover have "basisOn ex_new = GenesisTx" "checkUsable True ?d = Inr ()"
    by (simp_all add: ex_new_def ex_restored_tables checkUsable_def ex_store_of_def)
  ultimately show ?thesis
    by (simp add: Restore_def RestoreCommitting_def atomicPortableWrite_def) (simp add: ex_store_of_def)
qed

theorem restore_is_sound_witness:
  "\<exists>d d'. Restore ex_physical d (Some ex_stream) = (Inr (), d') \<and> tables_ok (db_tables d')
     \<and> (\<exists>body footer. stream_lines maxPortableSnapshotLineBytes ex_stream [] = Inr (body @ [footer]))"
proof -
  let ?d = "\<lparr>db_store = ex_store_of ex_new [] [] [] 0, db_asOf = None\<rparr>"
  obtain d' where run: "Restore ex_physical ?d (Some ex_stream) = (Inr (), d')"
    using ex_restored by (metis prod.collapse)
  have tb: "db_tables ?d = ex_new" by (simp add: ex_store_of_def)
  obtain report where "doctorReport ex_physical ?d = Inr (report, [])" "dr_ok report" using ex_new_healthy by blast
  then have "tables_ok (db_tables ?d)" by (rule doctor_sound) (simp only: tb ex_new_sql_ok)
  then show ?thesis using restore_is_sound [OF run] run by fastforce
qed

end
