(* ===== verification/Spec2Isabelle.thy ===== *)
theory Spec2Isabelle
  imports SearchSpec TemporalFacts MaintenanceSpec SnapshotSpec
begin

text \<open>
  A verification library for fgraph (\<^verbatim>\<open>src/go\<close>), an embedded graph database over SQLite: facts (entity, attribute,
  value) asserted and retracted by transactions, full history, names, upserts, compare-and-set, shapes,
  content-addressed blobs, a full-text index and portable, hashed events.

  \<^bold>\<open>Parts and theories.\<close>
  \<^item> \<open>Prelude\<close>: results with error kinds (errors.go), 64-bit integers, list and association-list lemmas, the
    interfaces \<open>codec\<close> (printer and parser) and \<open>kept_by\<close> (a fallible step and what it keeps).
  \<^item> \<open>GoText\<close>, \<open>Floats\<close>, \<open>Sha256\<close>: what the code uses of the Go standard library: UTF-8, hexadecimal, base64,
    integer and shortest float printing, IEEE 754 conversion, SHA-256.
  \<^item> \<open>Dyn\<close>, \<open>Json\<close>, \<open>Values\<close>: dynamic values, the JSON decoder and the canonical printer, conversion of inputs to
    stored values (value.go).
  \<^item> \<open>Store\<close>, \<open>Reads\<close>: the SQL tables as a record with one function per statement, genesis, name caches, the identity
    allocator (store.go, event.go); views, logical values, rendering (read.go).
  \<^item> \<open>Schema\<close>, \<open>Plan\<close>, \<open>Diff\<close>, \<open>Shapes\<close>, \<open>Events\<close>, \<open>Commit\<close>: the transactor (transact.go, schema.go, event_wire.go,
    event.go): attribute schemas, planning of every form of transaction data, net effect, shapes, event records
    and receipts, and \<open>transactOn\<close> and \<open>Transact\<close> in the order of the code.
  \<^item> \<open>StoreFacts\<close>, \<open>TableFacts\<close>, \<open>ValueFacts\<close>, \<open>PlanFuel\<close>, \<open>PlanFacts\<close>, \<open>IdentityFacts\<close>, \<open>DiffFacts\<close>, \<open>JsonFacts\<close>,
    \<open>CommitFacts\<close>, \<open>TransactFacts\<close>, \<open>CacheFacts\<close>, \<open>HistoryFacts\<close>, \<open>ReceiptFacts\<close>, \<open>ShapeFacts\<close>, \<open>GenesisFacts\<close>: the lemmas, one
    theory per concern.
  \<^item> \<open>QueryPlan\<close>, \<open>QueryEval\<close>, \<open>QueryRules\<close>, \<open>QueryResult\<close>: the Datalog engine (query.go, \<^verbatim>\<open>Explain\<close> of datoms.go): parsing and
    validation of queries, the planner, evaluation of clauses over the datoms of a view under the work budget,
    recursive rules, and projection with aggregates, order, windows and pulls.
  \<^item> \<open>QueryFacts\<close>, \<open>PatternFacts\<close>, \<open>QueryRuleFacts\<close>, \<open>QueryResultFacts\<close>, \<open>QuerySpec\<close>: the lemmas about it, the loops over rows as
    instances of the interface \<open>collector\<close> and the stable sort as an instance of \<open>slice_order\<close>, and what it promises.
  \<^item> \<open>Datoms\<close>, \<open>Temporal\<close>: pages of datoms with cursors (datoms.go); historical handles, diffs, undo and speculation
    (temporal.go). \<open>DatomFacts\<close>, \<open>TemporalFacts\<close>: what they promise.
  \<^item> \<open>Ranking\<close>, \<open>Scores\<close>, \<open>SearchText\<close>, \<open>Search\<close>: search (search.go): the bounded heap of candidates, similarity and fused
    scores, the full-text expression and snippets, and the whole call with expansion and output bounds.
    \<open>RankingFacts\<close> (the heap as an instance of the interface \<open>preference\<close>), \<open>SearchFacts\<close>, \<open>ExpandFacts\<close>, \<open>SearchSpec\<close>: its lemmas
    and properties.
  \<^item> \<open>Excision\<close>, \<open>Apply\<close>, \<open>Doctor\<close>: excision and the doctor with its repair (maintenance.go), and the application of portable
    event streams (apply.go). \<open>ExcisionFacts\<close>, \<open>ApplyFacts\<close>, \<open>DoctorFacts\<close>, \<open>MaintenanceSpec\<close>: their lemmas and properties;
    \<open>kept_by_lines\<close> extends \<open>kept_by\<close> to the loop over the lines of a stream.
  \<^item> \<open>Snapshot\<close>: the export and the restoration of portable snapshots (snapshot.go). \<open>JsonRoundTrip\<close>: the JSON decoder reads
    what the canonical printer writes. \<open>DoctorSound\<close>: what a clean report of the doctor is worth; \<open>SnapshotFacts\<close> rests on it, with the
    lines of a stream read one by one. \<open>SnapshotSpec\<close>: a new file, its report and the restoration of an empty snapshot.
  \<^item> \<open>Reachability\<close>: the states a client can reach by transactions, excisions, event streams, repairs, restorations and the
    commits of other connections; \<open>Examples\<close>: concrete runs in the kernel, on which the witnesses rest.

  \<^bold>\<open>How the model reads.\<close> Go functions keep their names. A call that returns \<^verbatim>\<open>(value, error)\<close> is a sum, \<open>Inl\<close> the error
  with its kind and cause; messages are left out. The SQLite file is the record \<open>tables\<close>; constraints and unique
  indexes are checks of the statement functions, with SQLite's equality of values (\<open>sql_eq\<close>). A store adds the name
  caches and the data version of its connection, a \<open>db\<close> the basis of a historical handle. A transaction (\<open>transactOn\<close>) is a function from
  the store to an error or a report and the new store. Around it \<open>TransactCommitting\<close>, \<open>applyStreamCommitting\<close> and
  \<open>RestoreCommitting\<close> say what a ROLLBACK leaves: the old tables, and the name caches as the failed work left them
  (\<open>transact_residue\<close>, \<open>event_residue\<close>, \<open>restore_left\<close>), marked stale or not as in the code; their first argument says whether
  SQLite's COMMIT goes through. \<open>Transact\<close>, \<open>applyStream\<close> and \<open>Restore\<close> are the cases where it does. (\<open>Excise\<close> leaves
  the cache of UUIDs, which no code reads, as it was.) Go maps are association lists, and
  loops over them are modelled only where their order does not matter or is sorted by the code. The clock, the
  random event ids, the event seed and UUIDv5 of \<^verbatim>\<open>github.com/google/uuid\<close> are the record \<open>env\<close>, over which every
  theorem quantifies.

  \<^bold>\<open>Fuel.\<close> The recursions through nested references and nested maps run on the size of the input as fuel; \<open>PlanFuel\<close>
  shows that this is always enough, so that they satisfy the recursion equations of the code. The JSON decoder
  runs on the length of its input. The fixpoint loop of a rule runs on the work that is left: \<open>QueryRuleFacts\<close> shows that
  a pass that adds a tuple charges the budget, so that the loop ends as the loop of the code does.

  \<^bold>\<open>What is shown.\<close> The tables keep an invariant in every reachable state: identities and names are unique and below the
  counter, events have unique transaction and operation ids, live facts are unique, the full-text index and
  the blobs are exact, every row belongs to recorded transactions. Name caches never mislead. A commit does what its
  plan says and the plan is the sequential effect of its operations; failures are atomic; retries are answered
  from receipts; history that is kept is immutable; ids, timestamps and the basis only grow and never wrap. Values,
  identities and event records survive encoding. Errors: stale basis, reused operation id, read-only handle,
  exhausted allocator. Queries: the planner keeps barriers in place, patterns read by index answer what a scan answers,
  derived relations are closed and well founded, the work budget holds, results are sorted, windows are exact.
  The order in which SQLite delivers tied rows is the parameter \<open>qe_scan\<close>, assumed only to permute. Datom pages list every
  datom once; diffs connect the views they compare; speculation leaves no trace. Search: the
  ranking is the prefix of the sorted candidates, expansion is breadth first, answers are bounded, and no text of a
  caller becomes an operator. Excision erases what mentions an entity and nothing else; an event applies once; a
  repair makes the index and the blobs exact; a doctor that finds nothing wrong vouches for the whole invariant; a
  restoration installs a sound state whose digest was checked, or nothing. Canonical JSON reads back.

  \<^bold>\<open>Parameters.\<close> Code outside the repository enters as an argument: the encoding of cursors (\<open>cursor_wire\<close>, which must
  return the cursors of the pages, \<open>travels\<close>), FTS5 matching and scores, the Unicode tables and the size of encoded JSON (\<open>search_env\<close>;
  the only law used is that a quotation mark is no letter), and the physical checks of SQLite (\<open>physical\<close>).

  \<^bold>\<open>Not modelled.\<close> Failures of SQLite statements other than constraints and the COMMITs above; calls inside a running
  speculation (the same operations without their own BEGIN and COMMIT); schema manifests, the listings of events, attributes and statistics, and \<^verbatim>\<open>Receipt\<close>;
  \<^verbatim>\<open>Follow\<close>, which polls in a goroutine; the command line and the MCP server, which are input and output around the
  modelled calls; opening, locking and copying of files.
\<close>

section \<open>Reachable databases\<close>

text \<open>
  C1. In every state that a client can reach from an initialised file, by its own transactions (also those whose COMMIT
  fails), excisions, event streams, repairs and restorations, whether they succeed or fail, by commits of other
  connections and by opening historical handles, the tables satisfy their invariant and a loaded name cache agrees
  with the identity table.
\<close>

theorem reachable_invariant: "reachable d \<Longrightarrow> tables_ok (db_tables d) \<and> cache_ok (db_store d)"
  by (rule reachable_ok)

theorem reachable_invariant_witness: "\<exists>d. reachable d \<and> tables_ok (db_tables d) \<and> cache_ok (db_store d)"
proof -
  obtain d where "reachable d" using ex_reachable by blast
  then show ?thesis using reachable_invariant by blast
qed

text \<open>
  C21. The genesis transaction succeeds on every clock reading inside the instant range, and the tables it
  builds satisfy the invariant, with transaction 64 as the basis and 39 facts.
\<close>

theorem genesis_succeeds:
  "validateInstantMicros now = Inr () \<Longrightarrow>
     \<exists>tb. initializeTransaction now = Inr tb \<and> tables_ok tb \<and> basisOn tb = GenesisTx \<and> length (tb_facts tb) = 39"
  using initializeTransaction_total initializeTransaction_ok by blast

theorem genesis_succeeds_witness:
  "validateInstantMicros 0 = Inr ()
   \<and> (\<exists>tb. initializeTransaction 0 = Inr tb \<and> tables_ok tb \<and> basisOn tb = GenesisTx \<and> length (tb_facts tb) = 39)"
proof -
  have "validateInstantMicros 0 = Inr ()" by (simp add: validateInstantMicros_def minInstantMicros_def maxInstantMicros_def)
  then show ?thesis using genesis_succeeds [of 0] by blast
qed

text \<open>
  C18. In a reachable database the full-text index has one row for each live fact with a text value and no
  other row, and the row of an inline text holds that text.
\<close>

theorem text_index_is_exact:
  assumes "reachable d"
  shows "distinct (map fst (tb_fts (db_tables d)))
    \<and> fst ` set (tb_fts (db_tables d)) = rf_id ` {f \<in> set (tb_facts (db_tables d)). live f \<and> (rf_t f = TagText \<or> rf_t f = TagTextRef)}
    \<and> (\<forall>f \<in> set (tb_facts (db_tables d)). \<forall>s. live f \<longrightarrow> rf_t f = TagText \<longrightarrow> (rf_id f, s) \<in> set (tb_fts (db_tables d)) \<longrightarrow> rf_v f = SText s)"
  using reachable_ok [OF assms] by (auto simp: tables_ok_def content_ok_def fts_ok_def live_set_def text_tag_def)

theorem text_index_is_exact_witness:
  "\<exists>d. reachable d \<and> fst ` set (tb_fts (db_tables d)) = rf_id ` {f \<in> set (tb_facts (db_tables d)). live f \<and> (rf_t f = TagText \<or> rf_t f = TagTextRef)}"
proof -
  obtain d where "reachable d" using ex_reachable by blast
  then show ?thesis using text_index_is_exact by blast
qed

text \<open>
  C19. In a reachable database every fact with an indirect value, live or not, has its blob, and every blob is
  the value of some fact: garbage collection removes what nothing refers to and nothing else.
\<close>

theorem blobs_are_exact:
  assumes "reachable d"
  shows "fst ` set (tb_blobs (db_tables d))
       = {h. \<exists>f \<in> set (tb_facts (db_tables d)). indirect_tag (rf_t f) \<and> rf_v f = SBlob h}
     \<and> (\<forall>f \<in> set (tb_facts (db_tables d)). indirect_tag (rf_t f) \<longrightarrow> (\<exists>h. rf_v f = SBlob h))"
proof -
  have "blobs_ok {} (db_tables d)" using reachable_ok [OF assms] by (simp add: tables_ok_def content_ok_def)
  then have have_blob: "\<And>f. f \<in> set (tb_facts (db_tables d)) \<Longrightarrow> indirect_tag (rf_t f) \<Longrightarrow> \<exists>h \<in> blob_keys (db_tables d). rf_v f = SBlob h"
    and used: "\<And>h. h \<in> blob_keys (db_tables d) \<Longrightarrow> \<exists>f \<in> set (tb_facts (db_tables d)). refers h f"
    by (auto simp: blobs_ok_def)
  have "blob_keys (db_tables d) = {h. \<exists>f \<in> set (tb_facts (db_tables d)). indirect_tag (rf_t f) \<and> rf_v f = SBlob h}"
    using used have_blob by (auto simp: refers_def) fastforce
  then show ?thesis using have_blob unfolding blob_keys_def by blast
qed

theorem blobs_are_exact_witness:
  "\<exists>d. reachable d \<and> fst ` set (tb_blobs (db_tables d))
       = {h. \<exists>f \<in> set (tb_facts (db_tables d)). indirect_tag (rf_t f) \<and> rf_v f = SBlob h}"
proof -
  obtain d where "reachable d" using ex_reachable by blast
  then show ?thesis using blobs_are_exact by blast
qed

text \<open>
  C20. In every reachable database the live unique index holds: two live facts never have the same entity, attribute,
  tag and (in the sense of SQLite) equal value.
\<close>

theorem live_facts_are_unique:
  assumes "reachable d" "f \<in> set (tb_facts (db_tables d))" "g \<in> set (tb_facts (db_tables d))" "live f" "live g"
    and "rf_e f = rf_e g" "rf_a f = rf_a g" "rf_t f = rf_t g" "sql_eq (rf_v f) (rf_v g)"
  shows "f = g"
  using facts_ok_no_clash [of "db_tables d" f g] reachable_ok [OF assms(1)] assms(2-)
  by (auto simp: tables_ok_def content_ok_def clash_def)

theorem live_facts_are_unique_witness:
  "\<exists>d. reachable d \<and> {(f, g). f \<in> set (tb_facts (db_tables d)) \<and> g \<in> set (tb_facts (db_tables d)) \<and> live f \<and> live g
     \<and> rf_e f = rf_e g \<and> rf_a f = rf_a g \<and> rf_t f = rf_t g \<and> sql_eq (rf_v f) (rf_v g) \<and> f \<noteq> g} = {}"
proof -
  obtain d where "reachable d" using ex_reachable by blast
  then show ?thesis using live_facts_are_unique by fast
qed

section \<open>Transactions\<close>

text \<open>
  C2. A transaction that reports \<^verbatim>\<open>applied\<close> has planned the submitted data against the refreshed names, and the
  fact table has changed by exactly that plan: the live rows lose the planned retractions and gain one row, stamped
  with the new transaction, for each metadata fact and each planned assertion (its pending ids compacted, its
  transaction target filled in); the other rows stay, and no view at an earlier transaction gains a row.
\<close>

theorem commit_effect:
  assumes "transactOn en d data c = Inr (report, s')" "tables_ok (db_tables d)" "tr_status report = ''applied''"
  shows "\<exists>d0 input asserts rets txFacts pl m meta.
     planned_on d data c d0 input \<and> plan_transaction d0 input c = Inr (asserts, rets, txFacts, pl)
     \<and> m \<in> {[], compact_remap (pl_alloc pl) asserts txFacts}
     \<and> (\<forall>f \<in> set meta. pf_e f = tr_tx report \<and> 1 \<le> pf_a f \<and> pf_a f \<le> 4)
     \<and> committed (tr_tx report) rets (meta @ map (\<lambda>f. target_tx (tr_tx report) (remap_fact m f)) asserts)
         (db_tables d) (st_tables s')"
  using assms by (rule applied_cases) blast

theorem commit_effect_witness:
  "\<exists>report s' rets facts. transactOn ex_env (ex_db ex_req) (ex_assert 8) noOptions = Inr (report, s')
     \<and> committed (tr_tx report) rets facts (ex_tables ex_req) (st_tables s')"
proof -
  obtain r s where "transactOn ex_env (ex_db ex_req) (ex_assert 8) noOptions = Inr (r, s)" "tr_status r = ''applied''"
    using ex_applied by blast
  then show ?thesis using commit_effect [OF _ ex_ok(1)] by fastforce
qed

text \<open>
  C4. A transaction that fails, at any point of it and also when its COMMIT fails, leaves the tables as they were.
  The name caches, which it may have left with identities that were rolled back, recover: the next refresh succeeds
  and gives caches that agree with the unchanged identity table.
\<close>

theorem failure_is_atomic:
  assumes "fst (TransactCommitting commits en d data c) = Inl e" "tables_ok (db_tables d)" "cache_ok (db_store d)"
  shows "db_tables (snd (TransactCommitting commits en d data c)) = db_tables d
    \<and> (\<exists>s. refreshNames (db_store (snd (TransactCommitting commits en d data c))) = Inr s \<and> cached s \<and> st_tables s = db_tables d)"
proof -
  let ?d = "snd (TransactCommitting commits en d data c)"
  have tb: "db_tables ?d = db_tables d"
    using assms(1) by (auto simp: TransactCommitting_def Let_def split: sum.splits if_split_asm)
  have ids: "ids_ok (db_tables ?d)" using assms(2) by (simp add: tb tables_ok_def)
  obtain s where s: "refreshNames (db_store ?d) = Inr s" using refreshNames_total [OF ids] by blast
  then show ?thesis
    using refreshNames_cached [OF s TransactCommitting_caches [OF assms(2,3)] ids] refreshNames_tables [OF s] tb by auto
qed

theorem failure_is_atomic_witness:
  "\<exists>s. refreshNames (db_store (snd (TransactCommitting False ex_env (ex_db ex_req) (ex_assert 8) noOptions))) = Inr s
     \<and> cached s \<and> st_tables s = ex_tables ex_req"
proof -
  have usable: "checkUsable True (ex_db ex_req) = Inr ()" by (simp add: checkUsable_def ex_db_def)
  have "fst (TransactCommitting False ex_env (ex_db ex_req) (ex_assert 8) noOptions) = Inl (Wrap ErrFormat External)"
    using ex_applied [of ex_req] by (auto simp: TransactCommitting_def usable wrap_def Let_def)
  moreover have "cache_ok (db_store (ex_db ex_req))" by (simp add: ex_db_def cache_ok_def)
  ultimately show ?thesis using failure_is_atomic [OF _ ex_ok(1)] by simp
qed

text \<open>
  C16. The basis moves forward: a commit reports the basis it planned on, takes a transaction id above it, and
  that id is the basis afterwards.
\<close>

theorem basis_increases:
  assumes "transactOn en d data c = Inr (report, s')" "tables_ok (db_tables d)" "tr_status report = ''applied''"
  shows "basisOn (st_tables s') = tr_tx report \<and> basisOn (db_tables d) < tr_tx report
    \<and> tr_basis report = basisOn (db_tables d)"
  using applied_basis [OF assms] by simp

theorem basis_increases_witness:
  "\<exists>report s'. transactOn ex_env (ex_db ex_req) (ex_assert 8) noOptions = Inr (report, s') \<and> tr_tx report = 68
     \<and> basisOn (st_tables s') = 68 \<and> tr_basis report = 67"
proof -
  obtain r s where "transactOn ex_env (ex_db ex_req) (ex_assert 8) noOptions = Inr (r, s)" "tr_status r = ''applied''" "tr_tx r = 68"
    using ex_applied by blast
  then show ?thesis using basis_increases [OF _ ex_ok(1)] ex_basis by fastforce
qed

text \<open>
  C17. New identities: a commit adds to the registry exactly the ids from the counter up to its own transaction
  id, in order and created by it, and moves the counter behind them. No id is used twice and the counter
  stays in the range of a 64-bit integer.
\<close>

theorem commit_allocates_contiguously:
  assumes "transactOn en d data c = Inr (report, s')" "tables_ok (db_tables d)" "tr_status report = ''applied''"
  shows "\<exists>n rows. tb_next_id (db_tables d) = Some n \<and> n \<le> tr_tx report \<and> tr_tx report < MaxInt64
     \<and> tb_next_id (st_tables s') = Some (tr_tx report + 1)
     \<and> tb_ids (st_tables s') = tb_ids (db_tables d) @ rows \<and> map id_id rows = [n .. tr_tx report]
     \<and> (\<forall>r \<in> set rows. id_created r = tr_tx report) \<and> distinct (map id_id (tb_ids (st_tables s')))"
  using assms
proof (cases rule: applied_cases)
  case (applied h d0 input as0 rets txf pl0 m meta n)
  obtain rows where rows: "tb_ids (st_tables s') = tb_ids (db_tables d) @ rows" "map id_id rows = [n .. tr_tx report]"
    "\<forall>r \<in> set rows. id_created r = tr_tx report"
    using applied(13) by (rule ids_added_append)
  have "tables_ok (st_tables s')" by (rule transactOn_ok [OF assms(1,2)])
  then have "tr_tx report < MaxInt64" "distinct (map id_id (tb_ids (st_tables s')))"
    using applied(8) by (auto simp: tables_ok_def counter_ok_def ids_ok_def)
  then show ?thesis using applied(7,8,9) rows by blast
qed

theorem commit_allocates_contiguously_witness:
  "\<exists>report s'. transactOn ex_env (ex_db ex_req) (ex_assert 8) noOptions = Inr (report, s') \<and> tb_next_id (st_tables s') = Some 69"
proof -
  obtain r s where "transactOn ex_env (ex_db ex_req) (ex_assert 8) noOptions = Inr (r, s)" "tr_status r = ''applied''" "tr_tx r = 68"
    using ex_applied by blast
  then show ?thesis using commit_allocates_contiguously [OF _ ex_ok(1)] by fastforce
qed

text \<open>
  C5. Retries are safe. A request that committed under an operation id, submitted again to the resulting store in
  any environment, succeeds without changing anything: it is answered \<^verbatim>\<open>already_applied\<close> with the transaction
  and the time of the first run. (The attributes of transaction metadata have names, as they do in every
  reachable database.)
\<close>

theorem retry_is_idempotent:
  assumes "transactOn en d data c = Inr (report, s')" "tables_ok (db_tables d)" "system_named (db_tables d)"
    and "tr_status report = ''applied''" "to_operationID c = Some op"
  shows "\<exists>report2. transactOn en' (d'\<lparr>db_store := s'\<rparr>) data c = Inr (report2, s')
     \<and> tr_status report2 = ''already_applied'' \<and> tr_tx report2 = tr_tx report \<and> tr_at report2 = tr_at report"
  using retry_answered assms by blast

theorem retry_is_idempotent_witness:
  "\<exists>report s' report2. transactOn ex_env (ex_db ex_req) (ex_assert 8) ex_op = Inr (report, s') \<and> tr_tx report = 68
     \<and> transactOn ex_env ((ex_db ex_req)\<lparr>db_store := s'\<rparr>) (ex_assert 8) ex_op = Inr (report2, s')
     \<and> tr_status report2 = ''already_applied'' \<and> tr_tx report2 = 68"
proof -
  obtain r s where rs: "transactOn ex_env (ex_db ex_req) (ex_assert 8) ex_op = Inr (r, s)" "tr_status r = ''applied''" "tr_tx r = 68"
    using ex_op_applied by blast
  have "to_operationID ex_op = Some ''k''" by (simp add: ex_op_def)
  then show ?thesis
    using retry_is_idempotent [OF rs(1) ex_ok(1) _ rs(2), of "''k''" ex_env "ex_db ex_req"] ex_named rs by auto
qed

text \<open>
  C38. An operation id names one request. Once a transaction was committed under it, every other request with that
  operation id, one with another request hash, fails with a conflict, however many events were recorded since, and
  leaves the tables as they are.
\<close>

theorem operation_id_reuse_conflicts:
  assumes "transactOn en d data c = Inr (report, s')" "tables_ok (db_tables d)" "tr_status report = ''applied''"
    and "to_operationID c = Some op" "request_hash data c = Inr h"
    and "checkUsable True d2 = Inr ()" "tb_events (db_tables d2) = tb_events (st_tables s') @ later"
    and "to_operationID c2 = Some op" "request_hash data2 c2 = Inr h2" "h2 \<noteq> h"
    and "to_requestHash c2 = None \<or> length h2 = 32 \<and> to_requestHashBase c2 = None"
  shows "fst (Transact en2 d2 data2 c2) = fail ErrConflict \<and> db_tables (snd (Transact en2 d2 data2 c2)) = db_tables d2"
proof -
  have "transactOn en2 d2 data2 c2 = fail ErrConflict"
    using assms(1-5,7-) by (rule reuse_refused)
  then show ?thesis using assms(6) by (simp add: Transact_def TransactCommitting_def Let_def) (simp add: fail_def)
qed

text \<open>A request that is hashed as a client's request is; the first one was recorded under another hash.\<close>

definition ex_op_hash :: "char \<Rightarrow> txOptions" where
  "ex_op_hash z = noOptions\<lparr>to_operationID := Some ''k'', to_requestHash := Some (replicate 32 z)\<rparr>"

lemma ex_op_hash_applied:
  "\<exists>r s. transactOn ex_env (ex_db req) (ex_assert 8) (ex_op_hash z) = Inr (r, s) \<and> tr_status r = ''applied''
     \<and> st_readOnly s = False \<and> st_closed s = False"
  by (simp add: run_example ex_op_hash_def cong: res_bind_first let_weak_cong)

definition ex_public :: txOptions where
  "ex_public = noOptions\<lparr>to_operationID := Some ''k''\<rparr>"

lemma ex_public_hash: "\<exists>h. request_hash (ex_assert 9) ex_public = Inr h"
proof -
  have "case canonicalJSON (AMap [(''data'', wireValue (ex_assert 9)), (''options'', AMap [])]) of Inl _ \<Rightarrow> False | Inr _ \<Rightarrow> True"
    by code_simp
  then show ?thesis
    by (auto simp: request_hash_def ex_public_def noOptions_def canonicalRequestHash_def canonicalLogicalRequestHash_def
        option_field_def split: sum.split_asm)
qed

theorem operation_id_reuse_conflicts_witness:
  "\<exists>z report s'. transactOn ex_env (ex_db ex_req) (ex_assert 8) (ex_op_hash z) = Inr (report, s')
     \<and> fst (Transact ex_env ((ex_db ex_req)\<lparr>db_store := s'\<rparr>) (ex_assert 9) ex_public) = fail ErrConflict"
proof -
  obtain h where h: "request_hash (ex_assert 9) ex_public = Inr h" using ex_public_hash by blast
  have "replicate 32 (CHR ''a'') \<noteq> replicate 32 (CHR ''b'')" by simp
  then obtain z where z: "h \<noteq> replicate 32 z" by metis
  obtain r s where run: "transactOn ex_env (ex_db ex_req) (ex_assert 8) (ex_op_hash z) = Inr (r, s)" "tr_status r = ''applied''"
    "st_readOnly s = False \<and> st_closed s = False"
    using ex_op_hash_applied by blast
  have op: "to_operationID (ex_op_hash z) = Some ''k''" "request_hash (ex_assert 8) (ex_op_hash z) = Inr (replicate 32 z)"
    by (simp_all add: ex_op_hash_def request_hash_def)
  have usable: "checkUsable True ((ex_db ex_req)\<lparr>db_store := s\<rparr>) = Inr ()"
    using run(3) by (simp add: checkUsable_def ex_db_def)
  have public: "to_operationID ex_public = Some ''k''" "to_requestHash ex_public = None" by (simp_all add: ex_public_def noOptions_def)
  show ?thesis
    using operation_id_reuse_conflicts [OF run(1) ex_ok(1) run(2) op usable _ public(1) h z, of "[]"] public(2) run(1) by auto
qed

text \<open>
  Optimistic concurrency: with a basis precondition that is not the current basis, a request that is not
  answered by an earlier receipt fails with a conflict before anything is planned.
\<close>

theorem stale_basis_conflicts:
  assumes "operation_check (db_store d) data c = Inr (Fresh h)" "to_ifBasisTx c = Some b" "b \<noteq> basisOn (db_tables d)"
  shows "transactOn en d data c = fail ErrConflict"
  using assms by (simp add: transactOn_def)

theorem stale_basis_conflicts_witness:
  "transactOn ex_env (ex_db ex_req) (ex_assert 8) (noOptions\<lparr>to_ifBasisTx := Some 64\<rparr>) = fail ErrConflict"
  by (rule stale_basis_conflicts [where b = 64 and h = None])
    (simp_all add: operation_check_def noOptions_def ex_basis)

text \<open>
  A read-only store and a historical handle refuse every write, and the refusal changes nothing at all.
\<close>

theorem read_only_refused:
  assumes "\<not> st_closed (db_store d)" "st_readOnly (db_store d) \<or> db_asOf d \<noteq> None"
  shows "Transact en d data c = (fail ErrReadOnly, d)"
  using assms by (auto simp: Transact_def TransactCommitting_def checkUsable_def fail_def)

theorem read_only_refused_witness:
  "Transact ex_env ((ex_db ex_req)\<lparr>db_asOf := Some 64\<rparr>) (ex_assert 8) noOptions = (fail ErrReadOnly, (ex_db ex_req)\<lparr>db_asOf := Some 64\<rparr>)"
  by (rule read_only_refused) (simp_all add: ex_db_def)

section \<open>Planning\<close>

text \<open>
  C3. The net effect of a plan is the effect of its operations one after the other. The rows that \<^verbatim>\<open>diffPlan\<close>
  inserts and retracts, applied to the live facts it loaded, give the keys that running every assertion and
  retraction in its order on the set of keys gives (an assertion on an attribute of cardinality one replaces the
  old value). The retractions are loaded rows, no row or key occurs twice, and nothing is asserted that is
  already there.
\<close>

theorem diff_refines_sequential_effect:
  assumes "diffPlan d pl = Inr (ins, rets, pl')" "workingFactsForPlan d pl = Inr (cur, pl1)"
    and "distinct (map pf_order (pl_assertions pl))" "facts_ok (db_tables d)"
  shows "(raw_key ` set cur - raw_key ` set rets) \<union> planned_key ` set ins
      = spec_run (many_of d pl) (protected_owners cur) (plan_operations pl) (raw_key ` set cur)
    \<and> set rets \<subseteq> set cur \<and> set cur \<subseteq> live_set (db_tables d)
    \<and> distinct (map rf_id rets) \<and> distinct (map planned_key ins)
    \<and> planned_key ` set ins \<inter> (raw_key ` set cur - raw_key ` set rets) = {}"
proof -
  note rows = workingFacts_rows [OF assms(2,4)]
  note net = diffPlan_net [OF assms(1,3,2) rows(1)]
  show ?thesis using net rows(2) by simp
qed

theorem diff_refines_sequential_effect_witness:
  "spec_run (many_of (ex_db ex_req) (ex_plan [ex_fact 8 1] [])) [] (plan_operations (ex_plan [ex_fact 8 1] []))
     {(66, 65, TagInt, SInt 7)} = {(66, 65, TagInt, SInt 8)}"
proof -
  let ?r = "\<lparr>rf_id = 2, rf_e = 66, rf_a = 65, rf_v = SInt 7, rf_t = TagInt, rf_tx = 67, rf_rx = None\<rparr>"
  obtain pl1 pl2 where w: "workingFactsForPlan (ex_db ex_req) (ex_plan [ex_fact 8 1] []) = Inr ([?r], pl1)"
      and d: "diffPlan (ex_db ex_req) (ex_plan [ex_fact 8 1] []) = Inr ([ex_fact 8 1], [?r], pl2)"
    using ex_working [of ex_req] ex_diff [of ex_req] by blast
  have ord: "distinct (map pf_order (pl_assertions (ex_plan [ex_fact 8 1] [])))" by (simp add: ex_plan_def)
  have ok: "facts_ok (db_tables (ex_db ex_req))" using ex_ok(1) by (simp add: tables_ok_def content_ok_def)
  have keys: "raw_key ?r = (66, 65, TagInt, SInt 7)" "planned_key (ex_fact 8 1) = (66, 65, TagInt, SInt 8)" "protected_owners [?r] = []"
    by (simp_all add: raw_key_def planned_key_def fact_key_def ex_fact_def planned_def stored_def protected_owners_def)
  show ?thesis
    using conjunct1 [OF diff_refines_sequential_effect [OF d w ord ok]] by (simp add: keys [simplified])
qed

text \<open>
  C32. Compare-and-set compares: a \<^verbatim>\<open>cas\<close> operation is planned only on a single-valued attribute of an existing
  entity, and only when the live facts are what it expects: none, for the expectation \<^verbatim>\<open>{missing: true}\<close>, and
  otherwise exactly one, with the tag and the stored value of the expected value.
\<close>

theorem cas_checks_expectation:
  assumes "planCAS d op pl = Inr pl'"
  shows "\<exists>entity attr a pl1 pl2 pl3 sc. resolveOperationEntity d False (op ! 1) pl = Inr (Some entity, pl1)
     \<and> op ! 2 = AStr attr \<and> plan_name d attr True False pl1 = Inr (Some a, pl2)
     \<and> schemaForPlan d a pl2 = Inr (sc, pl3) \<and> \<not> sc_many sc
     \<and> (missingCASValue (op ! 3) = Inr True \<and> liveFacts (db_tables d) entity (Some a) = []
        \<or> missingCASValue (op ! 3) = Inr False \<and>
          (\<exists>f v pl4 pl5. liveFacts (db_tables d) entity (Some a) = [f] \<and> resolveFactValue d sc (op ! 3) pl4 = Inr (v, pl5)
             \<and> rf_t f = sv_tag v \<and> storageEqual (rf_v f) (sv_storage v)))"
proof -
  obtain entity pl1 attr a pl2 sc pl3 pl4 pl5 where
      "resolveOperationEntity d False (op ! 1) pl = Inr (Some entity, pl1)" "op ! 2 = AStr attr"
      "plan_name d attr True False pl1 = Inr (Some a, pl2)" "schemaForPlan d a pl2 = Inr (sc, pl3)" "\<not> sc_many sc"
    and exp: "cas_expectation d sc (liveFacts (db_tables d) entity (Some a)) (op ! 3) pl4 = Inr pl5"
    using assms by (auto simp: planCAS_def Let_def res_bind_Inr_iff case_text_Inr split: if_split_asm option.split_asm)
  moreover have "missingCASValue (op ! 3) = Inr True \<and> liveFacts (db_tables d) entity (Some a) = []
      \<or> missingCASValue (op ! 3) = Inr False \<and>
          (\<exists>f v pl4 pl5. liveFacts (db_tables d) entity (Some a) = [f] \<and> resolveFactValue d sc (op ! 3) pl4 = Inr (v, pl5)
             \<and> rf_t f = sv_tag v \<and> storageEqual (rf_v f) (sv_storage v))"
    using exp by (cases "liveFacts (db_tables d) entity (Some a)" rule: remdups_adj.cases)
      (auto simp: cas_expectation_def res_bind_Inr_iff split: if_split_asm)
  ultimately show ?thesis by blast
qed

theorem cas_checks_expectation_witness:
  "\<exists>entity a f. liveFacts (db_tables (ex_db ex_req)) entity (Some a) = [f]"
proof -
  obtain pl' where pl': "planCAS (ex_db ex_req) (ex_cas (AInt64 7)) (ex_plan [] []) = Inr pl'"
    using ex_cas_planned by blast
  have "missingCASValue (ex_cas (AInt64 7) ! 3) = Inr False" by (simp add: ex_cas_def missingCASValue_def)
  then show ?thesis using cas_checks_expectation [OF pl'] by force
qed

text \<open>
  The isolation check of compare-and-set, in a plan that passes it: no other assertion on an entity and attribute that
  a \<^verbatim>\<open>cas\<close> operation compared, and no retraction whose own entity is that entity. (The check does not see that a
  retraction of another entity also removes the references to it, and with them a reference that was compared.)
\<close>

lemma cas_isolation_checked:
  assumes "validateCASIsolation pl = Inr ()" "(e, a) \<in> set (pl_cas pl)"
  shows "(\<forall>f \<in> set (pl_assertions pl). pf_e f = e \<and> pf_a f = a \<longrightarrow> pf_cas f)
     \<and> (\<forall>q \<in> set (pl_retracts pl). rr_e q = e \<and> rr_a q \<in> {None, Some a} \<longrightarrow> rr_cas q)"
proof -
  have key: "(e, a) \<in> set (cas_keys pl)" using assms(2) by (simp add: cas_keys_def)
  have as: "\<forall>f \<in> set (pl_assertions pl). pf_cas f \<or> (pf_e f, pf_a f) \<notin> set (cas_keys pl)"
    and rs: "\<forall>q \<in> set (pl_retracts pl). rr_cas q \<or>
       (case rr_a q of None \<Rightarrow> rr_e q \<notin> fst ` set (cas_keys pl) | Some a \<Rightarrow> (rr_e q, a) \<notin> set (cas_keys pl))"
    using assms(1) by (auto simp: validateCASIsolation_def list_ex_iff list_all_iff split: if_split_asm)
  have "rr_cas q" if "q \<in> set (pl_retracts pl)" "rr_e q = e" "rr_a q \<in> {None, Some a}" for q
    using bspec [OF rs that(1)] that(2,3) key by (auto split: option.splits) force
  then show ?thesis using as key by blast
qed

section \<open>Shapes\<close>

text \<open>
  The validation that ends a transaction: the targets that it computes from the plan conform to each shape they are
  members of, so that all required attributes are present, and a closed shape has only allowed ones.
\<close>

lemma shape_targets_conform:
  assumes "validateTouchedShapes d pl = Inr ()" "f \<in> set (tb_facts (db_tables d))" "rf_a f = 15" "rf_t f = TagRef"
    and "visible (db_asOf d) f" "rf_e f \<in> set (shape_targets (db_tables d) pl)"
  shows "\<exists>shape info attrs. rf_v f = SInt shape \<and> readShape d shape = Inr info
     \<and> entity_attributes d (rf_e f) = Inr attrs \<and> conforms info attrs"
  using assms by (meson validated_membership membership_conforms)

section \<open>Events\<close>

text \<open>
  The record of an event whose values are integers, booleans, valid texts, lists and maps always encodes: the
  canonical text exists, its digest is the one stored, and the length bound of a portable line is the only
  limit besides nesting.
\<close>

theorem event_data_encodes:
  assumes "int_json v" "nesting v \<le> MaxJSONDocumentDepth" "json_bound v \<le> maxPortableLineBytes"
  shows "canonicalEventData v = Inr (json_text v, sha256 (json_text v)) \<and> length (json_text v) \<le> json_bound v"
  using canonicalEventData_total [OF assms] length_json_text [OF assms(1)] by simp

theorem event_data_encodes_witness:
  "\<exists>t. canonicalEventData (AMap [(''a'', AInt64 1)]) = Inr (t, sha256 t) \<and> length t \<le> json_bound (AMap [(''a'', AInt64 1)])"
proof -
  have "int_json (AMap [(''a'', AInt64 1)])"
    by (simp add: ValidString_def runes_def byte_of_def in_int64_def MinInt64_def MaxInt64_def)
  then show ?thesis
    using event_data_encodes [of "AMap [(''a'', AInt64 1)]"]
    by (simp add: MaxJSONDocumentDepth_def maxPortableLineBytes_def MaxValueBytes_def)
qed

section \<open>Time travel\<close>

text \<open>
  C9. The historical view at the current basis is the live view: a row is visible as of the last recorded
  transaction exactly when it is not retracted.
\<close>

theorem view_at_basis_is_live:
  assumes "tables_ok tb" "f \<in> set (tb_facts tb)"
  shows "visible (Some (basisOn tb)) f = visible None f"
proof -
  have "t \<le> basisOn tb" if "t \<in> recorded tb" for t
    using that by (rule recorded_le_basis)
  then show ?thesis
    using assms by (force simp: tables_ok_def txs_in_def visible_def split: option.splits)
qed

theorem view_at_basis_is_live_witness:
  "filter (visible (Some (basisOn (ex_tables ex_req)))) (tb_facts (ex_tables ex_req)) = filter (visible None) (tb_facts (ex_tables ex_req))"
  using view_at_basis_is_live [OF ex_ok(2)] by (auto intro: filter_cong)

text \<open>
  C8. History is immutable where it is kept. When a commit leaves the declaration of an attribute alone and the
  attribute keeps history, every view at an earlier transaction shows the same facts of that attribute
  before and after it.
\<close>

theorem history_is_kept:
  assumes "transactOn en d data c = Inr (report, s')" "tables_ok (db_tables d)" "tr_status report = ''applied''"
    and "declaration_rows a (st_tables s') = declaration_rows a (db_tables d)"
    and "db_asOf d = None" "schemaFor d a = Inr sc" "\<not> deletesHistory sc" "t < tr_tx report"
  shows "history_of a t (st_tables s') = history_of a t (db_tables d)"
  using transactOn_history_of assms by blast

theorem history_is_kept_witness:
  "\<exists>report s'. transactOn ex_env (ex_db ex_req) (ex_assert 8) noOptions = Inr (report, s')
     \<and> history_of 65 67 (st_tables s') = history_of 65 67 (ex_tables ex_req)"
proof -
  obtain r s where rs: "transactOn ex_env (ex_db ex_req) (ex_assert 8) noOptions = Inr (r, s)" "tr_status r = ''applied''" "tr_tx r = 68"
      "declaration_rows 65 (st_tables s) = declaration_rows 65 (db_tables (ex_db ex_req))"
    using ex_applied_rows by blast
  have "db_asOf (ex_db ex_req) = None" "schemaFor (ex_db ex_req) 65 = Inr noSchema" "\<not> deletesHistory noSchema"
    by (simp_all add: ex_db_def ex_tables_def schemaFor_def schemaForChanges_def schema_of_facts_def select_facts_def
        noSchema_def deletesHistory_def)
  then show ?thesis using history_is_kept [OF rs(1) ex_ok(1) rs(2,4), of noSchema 67] rs by auto
qed

end
